(* ===== verification/Prelude.thy ===== *)
theory Prelude
  imports Main "HOL-Library.Word" "HOL-Library.Char_ord" "HOL-Library.List_Lexorder"
begin

text \<open>
  Shared vocabulary of the development: the machine-integer types of the C++ sources,
  the collections of simplification rules the component theories fill and use, and the
  generic facts on lists, words, options and decimal numerals that several components
  rely on.
\<close>

unbundle bit_operations_syntax

subsection \<open>Machine types\<close>

type_synonym byte = "8 word"
type_synonym bytes = "8 word list"
type_synonym u16 = "16 word"
type_synonym u32 = "32 word"
type_synonym u64 = "64 word"

text \<open>
  A signed 64-bit quantity (\<^verbatim>\<open>std::int64_t\<close>) is an \<^typ>\<open>int\<close> inside this range; the casts
  between it and \<^verbatim>\<open>std::uint64_t\<close> are written with \<^const>\<open>word_of_int\<close> and \<^const>\<open>sint\<close>.
\<close>

definition i64_range :: "int \<Rightarrow> bool" where
  "i64_range v \<longleftrightarrow> - (2 ^ 63) \<le> v \<and> v < 2 ^ 63"

subsection \<open>Collections\<close>

named_theorems result_simps \<open>computation rules of the Result plumbing\<close>
named_theorems codec_simps \<open>round-trip rules of the byte codecs\<close>
named_theorems codec_dests \<open>canonicity rules of the byte codecs\<close>
named_theorems enum_simps \<open>names and numeric values of the enumerations\<close>

subsection \<open>Lists\<close>

lemma take_length_append [simp]: "take (length xs) (xs @ ys) = xs"
  by simp

lemma drop_length_append [simp]: "drop (length xs) (xs @ ys) = ys"
  by simp

lemma length_ge_split:
  assumes "n \<le> length xs"
  obtains ys zs where "xs = ys @ zs" and "length ys = n"
  using assms by (metis append_take_drop_id length_take min.absorb2)

lemma find_eq_Some_iff_mem:
  "List.find P xs = Some x \<Longrightarrow> x \<in> set xs \<and> P x"
  by (auto simp: find_Some_iff)

subsection \<open>Words as little-endian and big-endian byte sequences\<close>

text \<open>
  The loops \<^verbatim>\<open>out[i] = (value >> (i * 8)) & 0xFF\<close> and
  \<^verbatim>\<open>value |= in[i] << (i * 8)\<close> over \<open>k\<close> bytes, shared by every codec of the program.
\<close>

definition le_store :: "nat \<Rightarrow> 'a::len word \<Rightarrow> bytes" where
  "le_store k v = map (\<lambda>i. ucast (drop_bit (i * 8) v AND 0xFF)) [0..<k]"

definition le_load :: "bytes \<Rightarrow> 'a::len word" where
  "le_load bs = fold (\<lambda>(i, b) v. v OR push_bit (i * 8) (ucast b)) (enumerate 0 bs) 0"

lemma length_le_store [simp]: "length (le_store k v) = k"
  by (simp add: le_store_def)


lemma le_load_Nil [simp]: "le_load [] = 0"
  by (simp add: le_load_def)

lemma le_load_snoc:
  "le_load (bs @ [b]) = (le_load bs OR push_bit (length bs * 8) (ucast b) :: 'a::len word)"
  by (simp add: le_load_def enumerate_append_eq)

lemma bit_le_load:
  "bit (le_load bs :: 'a::len word) n \<longleftrightarrow>
     n < LENGTH('a) \<and> n div 8 < length bs \<and> bit (bs ! (n div 8)) (n mod 8)"
proof (induction bs rule: rev_induct)
  case Nil
  then show ?case by simp
next
  case (snoc b bs)
  have hi: "bit b (n - length bs * 8) \<Longrightarrow> length bs * 8 \<le> n \<Longrightarrow> n div 8 = length bs"
    using bit_imp_le_length [of b "n - length bs * 8"] by simp
  have lo: "n div 8 = length bs \<Longrightarrow> length bs * 8 \<le> n \<and> n mod 8 = n - length bs * 8"
    by (metis div_times_less_eq_dividend minus_div_mult_eq_mod)
  show ?case
    using snoc hi lo
    by (auto simp: le_load_snoc bit_simps nth_append less_Suc_eq)
qed


lemma and_byte_mask: "x AND 0xFF = (take_bit 8 x :: 'a::len word)"
  by (simp add: take_bit_eq_mask mask_eq_exp_minus_1)

lemma bit_le_store_nth:
  "i < k \<Longrightarrow> bit (le_store k v ! i) j \<longleftrightarrow> j < 8 \<and> bit v (i * 8 + j)"
  by (auto simp: le_store_def and_byte_mask bit_simps dest: bit_imp_le_length)

lemma le_load_store:
  assumes "LENGTH('a) \<le> 8 * k"
  shows "le_load (le_store k v) = (v :: 'a::len word)"
proof (rule bit_eqI)
  fix n
  have "n < LENGTH('a) \<Longrightarrow> n div 8 < k"
    using assms by (simp add: less_mult_imp_div_less mult.commute)
  then show "bit (le_load (le_store k v) :: 'a word) n = bit v n"
    using bit_imp_le_length [of v n] by (auto simp: bit_le_load bit_le_store_nth)
qed

lemma le_store_load:
  assumes "8 * length bs \<le> LENGTH('a)"
  shows "le_store (length bs) (le_load bs :: 'a::len word) = bs"
proof (rule nth_equalityI)
  show "length (le_store (length bs) (le_load bs :: 'a word)) = length bs" by simp
next
  fix i
  assume "i < length (le_store (length bs) (le_load bs :: 'a word))"
  then have i: "i < length bs" by simp
  show "le_store (length bs) (le_load bs :: 'a word) ! i = bs ! i"
  proof (rule bit_word_eqI)
    fix j
    assume "j < LENGTH(8)"
    then have j: "j < 8" by simp
    with i assms have "i * 8 + j < LENGTH('a)" by simp
    with i j show "bit (le_store (length bs) (le_load bs :: 'a word) ! i) j = bit (bs ! i) j"
      by (simp add: bit_le_store_nth bit_le_load)
  qed
qed

lemma le_load_inj:
  "length bs = length cs \<Longrightarrow> 8 * length bs \<le> LENGTH('a) \<Longrightarrow>
     (le_load bs :: 'a::len word) = le_load cs \<Longrightarrow> bs = cs"
  by (metis le_store_load)

subsection \<open>Decimal numerals\<close>

definition digit_char :: "nat \<Rightarrow> char" where
  "digit_char d = char_of (d + 48)"

fun to_string :: "nat \<Rightarrow> string" where
  "to_string n = (if n < 10 then [digit_char n] else to_string (n div 10) @ [digit_char (n mod 10)])"

declare to_string.simps [simp del]

definition is_digit :: "char \<Rightarrow> bool" where
  "is_digit c \<longleftrightarrow> CHR ''0'' \<le> c \<and> c \<le> CHR ''9''"

definition digit_value :: "char \<Rightarrow> nat" where
  "digit_value c = of_char c - 48"

fun decimal_value :: "nat \<Rightarrow> string \<Rightarrow> nat" where
  "decimal_value acc [] = acc"
| "decimal_value acc (c # cs) = decimal_value (acc * 10 + digit_value c) cs"

lemma digit_char_cases:
  "d < 10 \<Longrightarrow> digit_value (digit_char d) = d \<and> is_digit (digit_char d)"
  by (auto simp: digit_char_def digit_value_def is_digit_def less_eq_char_def)

lemma digit_value_less: "is_digit c \<Longrightarrow> digit_value c < 10"
  by (auto simp: is_digit_def digit_value_def less_eq_char_def)

lemma decimal_value_append:
  "decimal_value acc (xs @ ys) = decimal_value (decimal_value acc xs) ys"
  by (induction xs arbitrary: acc) auto

lemma decimal_value_to_string: "decimal_value 0 (to_string n) = n"
proof (induction n rule: to_string.induct)
  case (1 n)
  then show ?case
    by (subst to_string.simps) (auto simp: decimal_value_append digit_char_cases)
qed

lemma to_string_digits: "list_all is_digit (to_string n)"
proof (induction n rule: to_string.induct)
  case (1 n)
  then show ?case
    by (subst to_string.simps) (auto simp: digit_char_cases)
qed

lemma to_string_not_Nil [simp]: "to_string n \<noteq> []"
  by (subst to_string.simps) simp

lemma to_string_inject [simp]: "to_string m = to_string n \<longleftrightarrow> m = n"
  by (metis decimal_value_to_string)

lemma to_string_length: "n < 10 ^ Suc k \<Longrightarrow> length (to_string n) \<le> Suc k"
proof (induction k arbitrary: n)
  case (Suc k)
  then have "n div 10 < 10 ^ Suc k" by (simp add: less_mult_imp_div_less mult.commute)
  then show ?case using Suc.IH [of "n div 10"] by (subst to_string.simps) auto
qed (subst to_string.simps, simp)

lemma to_string_length_u64: "length (to_string (unat g)) \<le> 20" for g :: u64
proof -
  have "unat g < 10 ^ Suc 19" using unsigned_less [of g] by (rule order.strict_trans2) simp
  from to_string_length [OF this] show ?thesis by simp
qed

lemma decimal_value_mono: "acc \<le> decimal_value acc cs"
proof (induction cs arbitrary: acc)
  case (Cons c cs)
  have "acc \<le> acc * 10 + digit_value c" by simp
  also have "\<dots> \<le> decimal_value (acc * 10 + digit_value c) cs" by (rule Cons.IH)
  finally show ?case by simp
qed simp

subsection \<open>Enumerations with names\<close>

text \<open>
  The contract of an enumeration that has a stable textual name: \<open>parse\<close> inverts \<open>name\<close> on the
  enumerators that \<open>nameable\<close> admits, and answers nothing else. Every
  \<^verbatim>\<open>xxxName\<close>/\<^verbatim>\<open>parseXxx\<close> pair of the sources is an instance.
\<close>

locale named_enum =
  fixes name :: "'e \<Rightarrow> string"
    and parse :: "string \<Rightarrow> 'e option"
    and nameable :: "'e \<Rightarrow> bool"
  assumes parse_name: "nameable e \<Longrightarrow> parse (name e) = Some e"
    and name_parse: "parse s = Some e \<Longrightarrow> name e = s \<and> nameable e"
begin

lemma name_inject: "nameable e \<Longrightarrow> nameable f \<Longrightarrow> name e = name f \<longleftrightarrow> e = f"
  by (metis option.inject parse_name)

lemma parse_iff: "parse s = Some e \<longleftrightarrow> nameable e \<and> name e = s"
  using parse_name name_parse by blast

lemma parse_None_iff: "parse s = None \<longleftrightarrow> (\<forall>e. nameable e \<longrightarrow> name e \<noteq> s)"
  by (metis not_Some_eq parse_iff)

end

text \<open>
  Searching a table of enumerators for a name, as the sources do with a loop over the raw
  values. The search satisfies the contract whenever the names of the table are distinct.
\<close>

definition lookup_name :: "('e \<Rightarrow> string) \<Rightarrow> 'e list \<Rightarrow> string \<Rightarrow> 'e option" where
  "lookup_name nm table s = List.find (\<lambda>e. nm e = s) table"

lemma lookup_name_Some:
  "lookup_name nm table s = Some e \<Longrightarrow> nm e = s \<and> e \<in> set table"
  by (auto simp: lookup_name_def dest: find_eq_Some_iff_mem)

lemma lookup_name_mem:
  assumes "distinct (map nm table)" and "e \<in> set table"
  shows "lookup_name nm table (nm e) = Some e"
proof -
  have "lookup_name nm table (nm e) \<noteq> None"
    using assms(2) by (auto simp: lookup_name_def find_None_iff)
  then obtain f where f: "lookup_name nm table (nm e) = Some f" by auto
  then have "nm f = nm e" and "f \<in> set table" by (auto dest: lookup_name_Some)
  with assms have "f = e" by (auto simp: distinct_map dest: inj_onD)
  with f show ?thesis by simp
qed

end
