(* ===== verification/Result.thy ===== *)
theory Result
  imports Prelude
begin

text \<open>
  The error model of \<^verbatim>\<open>include/cf/result.hpp\<close> and \<^verbatim>\<open>src/result.cpp\<close>: the stable error codes, their
  retry classification, the \<^verbatim>\<open>Error\<close> value and its rendering, and the \<^verbatim>\<open>Result\<close>/\<^verbatim>\<open>CF_TRY\<close> plumbing
  that every other component is written in. A fallible operation of the sources becomes a value
  of \<open>'a result\<close>: the code of the error it returns, or its value. The human-readable message of
  an error never decides a branch anywhere in the sources, so a \<open>result\<close> carries the code alone;
  \<open>Error\<close> below keeps message and detail where the text itself is the contract.
\<close>

subsection \<open>Error codes and retry directives\<close>


datatype (plugins only: code size) ErrorCode =
    Ok | InvalidArgument | OutOfRange | ArithmeticOverflow | MalformedInput |
    UnsupportedVersion | UnsupportedFeature | MissingField | NotFound | AlreadyExists |
    Conflict | PreconditionFailed | StaleGeneration | StaleEpoch | FencedIncarnation |
    GenerationConflict | DigestMismatch | IntegrityFailure | SizeMismatch | SchemaUnsupported |
    GuaranteeUnsupported | PolicyDenied | Unauthenticated | Unauthorized | ReplayDetected |
    DuplicateSuppressed | Retired | ProtocolViolation | OversizePayload | TruncatedFrame |
    ReorderedFrame | UnexpectedMessage | CapabilityMismatch | IoFailure | ConnectionRefused |
    ConnectionReset | ConnectionClosed | PeerIdleTimeout | OpenFailed | CapacityExceeded |
    QueueFull | StoreFull | LimitExceeded | IllegalTransition | ApplyFailed | ApplyUncertain |
    NotPrepared | RolledBack | ArtifactUnavailable | Cancelled | ShuttingDown | Busy | Internal

datatype RetryDirective =
    DoNotRetry | RetryNow | RetryWithBackoff | RetryNewSession | RetryAfterReconcile | Terminal

text \<open>The numeric values of the enumerators, which are part of the wire contract.\<close>

primrec errorCodeValue :: "ErrorCode \<Rightarrow> nat" where
  "errorCodeValue Ok = 0"
| "errorCodeValue InvalidArgument = 100"
| "errorCodeValue OutOfRange = 101"
| "errorCodeValue ArithmeticOverflow = 102"
| "errorCodeValue MalformedInput = 103"
| "errorCodeValue UnsupportedVersion = 104"
| "errorCodeValue UnsupportedFeature = 105"
| "errorCodeValue MissingField = 106"
| "errorCodeValue NotFound = 200"
| "errorCodeValue AlreadyExists = 201"
| "errorCodeValue Conflict = 202"
| "errorCodeValue PreconditionFailed = 203"
| "errorCodeValue StaleGeneration = 300"
| "errorCodeValue StaleEpoch = 301"
| "errorCodeValue FencedIncarnation = 302"
| "errorCodeValue GenerationConflict = 303"
| "errorCodeValue DigestMismatch = 304"
| "errorCodeValue IntegrityFailure = 305"
| "errorCodeValue SizeMismatch = 306"
| "errorCodeValue SchemaUnsupported = 307"
| "errorCodeValue GuaranteeUnsupported = 308"
| "errorCodeValue PolicyDenied = 309"
| "errorCodeValue Unauthenticated = 310"
| "errorCodeValue Unauthorized = 311"
| "errorCodeValue ReplayDetected = 312"
| "errorCodeValue DuplicateSuppressed = 313"
| "errorCodeValue Retired = 314"
| "errorCodeValue ProtocolViolation = 400"
| "errorCodeValue OversizePayload = 401"
| "errorCodeValue TruncatedFrame = 402"
| "errorCodeValue ReorderedFrame = 403"
| "errorCodeValue UnexpectedMessage = 404"
| "errorCodeValue CapabilityMismatch = 405"
| "errorCodeValue IoFailure = 500"
| "errorCodeValue ConnectionRefused = 501"
| "errorCodeValue ConnectionReset = 502"
| "errorCodeValue ConnectionClosed = 503"
| "errorCodeValue PeerIdleTimeout = 504"
| "errorCodeValue OpenFailed = 505"
| "errorCodeValue CapacityExceeded = 600"
| "errorCodeValue QueueFull = 601"
| "errorCodeValue StoreFull = 602"
| "errorCodeValue LimitExceeded = 603"
| "errorCodeValue IllegalTransition = 700"
| "errorCodeValue ApplyFailed = 701"
| "errorCodeValue ApplyUncertain = 702"
| "errorCodeValue NotPrepared = 703"
| "errorCodeValue RolledBack = 704"
| "errorCodeValue ArtifactUnavailable = 705"
| "errorCodeValue Cancelled = 800"
| "errorCodeValue ShuttingDown = 801"
| "errorCodeValue Busy = 802"
| "errorCodeValue Internal = 803"

text \<open>The enumerators in the order of their values.\<close>

definition allErrorCodes :: "ErrorCode list" where
  "allErrorCodes =
     [Ok, InvalidArgument, OutOfRange, ArithmeticOverflow, MalformedInput, UnsupportedVersion,
     UnsupportedFeature, MissingField, NotFound, AlreadyExists, Conflict, PreconditionFailed,
     StaleGeneration, StaleEpoch, FencedIncarnation, GenerationConflict, DigestMismatch,
     IntegrityFailure, SizeMismatch, SchemaUnsupported, GuaranteeUnsupported, PolicyDenied,
     Unauthenticated, Unauthorized, ReplayDetected, DuplicateSuppressed, Retired,
     ProtocolViolation, OversizePayload, TruncatedFrame, ReorderedFrame, UnexpectedMessage,
     CapabilityMismatch, IoFailure, ConnectionRefused, ConnectionReset, ConnectionClosed,
     PeerIdleTimeout, OpenFailed, CapacityExceeded, QueueFull, StoreFull, LimitExceeded,
     IllegalTransition, ApplyFailed, ApplyUncertain, NotPrepared, RolledBack,
     ArtifactUnavailable, Cancelled, ShuttingDown, Busy, Internal]"

primrec errorCodeName :: "ErrorCode \<Rightarrow> string" where
  "errorCodeName Ok = ''Ok''"
| "errorCodeName InvalidArgument = ''InvalidArgument''"
| "errorCodeName OutOfRange = ''OutOfRange''"
| "errorCodeName ArithmeticOverflow = ''ArithmeticOverflow''"
| "errorCodeName MalformedInput = ''MalformedInput''"
| "errorCodeName UnsupportedVersion = ''UnsupportedVersion''"
| "errorCodeName UnsupportedFeature = ''UnsupportedFeature''"
| "errorCodeName MissingField = ''MissingField''"
| "errorCodeName NotFound = ''NotFound''"
| "errorCodeName AlreadyExists = ''AlreadyExists''"
| "errorCodeName Conflict = ''Conflict''"
| "errorCodeName PreconditionFailed = ''PreconditionFailed''"
| "errorCodeName StaleGeneration = ''StaleGeneration''"
| "errorCodeName StaleEpoch = ''StaleEpoch''"
| "errorCodeName FencedIncarnation = ''FencedIncarnation''"
| "errorCodeName GenerationConflict = ''GenerationConflict''"
| "errorCodeName DigestMismatch = ''DigestMismatch''"
| "errorCodeName IntegrityFailure = ''IntegrityFailure''"
| "errorCodeName SizeMismatch = ''SizeMismatch''"
| "errorCodeName SchemaUnsupported = ''SchemaUnsupported''"
| "errorCodeName GuaranteeUnsupported = ''GuaranteeUnsupported''"
| "errorCodeName PolicyDenied = ''PolicyDenied''"
| "errorCodeName Unauthenticated = ''Unauthenticated''"
| "errorCodeName Unauthorized = ''Unauthorized''"
| "errorCodeName ReplayDetected = ''ReplayDetected''"
| "errorCodeName DuplicateSuppressed = ''DuplicateSuppressed''"
| "errorCodeName Retired = ''Retired''"
| "errorCodeName ProtocolViolation = ''ProtocolViolation''"
| "errorCodeName OversizePayload = ''OversizePayload''"
| "errorCodeName TruncatedFrame = ''TruncatedFrame''"
| "errorCodeName ReorderedFrame = ''ReorderedFrame''"
| "errorCodeName UnexpectedMessage = ''UnexpectedMessage''"
| "errorCodeName CapabilityMismatch = ''CapabilityMismatch''"
| "errorCodeName IoFailure = ''IoFailure''"
| "errorCodeName ConnectionRefused = ''ConnectionRefused''"
| "errorCodeName ConnectionReset = ''ConnectionReset''"
| "errorCodeName ConnectionClosed = ''ConnectionClosed''"
| "errorCodeName PeerIdleTimeout = ''PeerIdleTimeout''"
| "errorCodeName OpenFailed = ''OpenFailed''"
| "errorCodeName CapacityExceeded = ''CapacityExceeded''"
| "errorCodeName QueueFull = ''QueueFull''"
| "errorCodeName StoreFull = ''StoreFull''"
| "errorCodeName LimitExceeded = ''LimitExceeded''"
| "errorCodeName IllegalTransition = ''IllegalTransition''"
| "errorCodeName ApplyFailed = ''ApplyFailed''"
| "errorCodeName ApplyUncertain = ''ApplyUncertain''"
| "errorCodeName NotPrepared = ''NotPrepared''"
| "errorCodeName RolledBack = ''RolledBack''"
| "errorCodeName ArtifactUnavailable = ''ArtifactUnavailable''"
| "errorCodeName Cancelled = ''Cancelled''"
| "errorCodeName ShuttingDown = ''ShuttingDown''"
| "errorCodeName Busy = ''Busy''"
| "errorCodeName Internal = ''Internal''"

primrec retryDirectiveName :: "RetryDirective \<Rightarrow> string" where
  "retryDirectiveName DoNotRetry = ''DoNotRetry''"
| "retryDirectiveName RetryNow = ''RetryNow''"
| "retryDirectiveName RetryWithBackoff = ''RetryWithBackoff''"
| "retryDirectiveName RetryNewSession = ''RetryNewSession''"
| "retryDirectiveName RetryAfterReconcile = ''RetryAfterReconcile''"
| "retryDirectiveName Terminal = ''Terminal''"

primrec retryDirectiveFor :: "ErrorCode \<Rightarrow> RetryDirective" where
  "retryDirectiveFor Ok = DoNotRetry"
| "retryDirectiveFor InvalidArgument = DoNotRetry"
| "retryDirectiveFor OutOfRange = DoNotRetry"
| "retryDirectiveFor ArithmeticOverflow = DoNotRetry"
| "retryDirectiveFor MalformedInput = DoNotRetry"
| "retryDirectiveFor UnsupportedVersion = DoNotRetry"
| "retryDirectiveFor UnsupportedFeature = DoNotRetry"
| "retryDirectiveFor MissingField = DoNotRetry"
| "retryDirectiveFor NotFound = DoNotRetry"
| "retryDirectiveFor AlreadyExists = DoNotRetry"
| "retryDirectiveFor Conflict = RetryAfterReconcile"
| "retryDirectiveFor PreconditionFailed = RetryAfterReconcile"
| "retryDirectiveFor StaleGeneration = DoNotRetry"
| "retryDirectiveFor StaleEpoch = DoNotRetry"
| "retryDirectiveFor FencedIncarnation = DoNotRetry"
| "retryDirectiveFor GenerationConflict = DoNotRetry"
| "retryDirectiveFor DigestMismatch = DoNotRetry"
| "retryDirectiveFor IntegrityFailure = DoNotRetry"
| "retryDirectiveFor SizeMismatch = DoNotRetry"
| "retryDirectiveFor SchemaUnsupported = DoNotRetry"
| "retryDirectiveFor GuaranteeUnsupported = Terminal"
| "retryDirectiveFor PolicyDenied = DoNotRetry"
| "retryDirectiveFor Unauthenticated = DoNotRetry"
| "retryDirectiveFor Unauthorized = DoNotRetry"
| "retryDirectiveFor ReplayDetected = DoNotRetry"
| "retryDirectiveFor DuplicateSuppressed = DoNotRetry"
| "retryDirectiveFor Retired = DoNotRetry"
| "retryDirectiveFor ProtocolViolation = DoNotRetry"
| "retryDirectiveFor OversizePayload = DoNotRetry"
| "retryDirectiveFor TruncatedFrame = RetryNewSession"
| "retryDirectiveFor ReorderedFrame = RetryNewSession"
| "retryDirectiveFor UnexpectedMessage = DoNotRetry"
| "retryDirectiveFor CapabilityMismatch = DoNotRetry"
| "retryDirectiveFor IoFailure = RetryWithBackoff"
| "retryDirectiveFor ConnectionRefused = RetryNewSession"
| "retryDirectiveFor ConnectionReset = RetryNewSession"
| "retryDirectiveFor ConnectionClosed = RetryNewSession"
| "retryDirectiveFor PeerIdleTimeout = RetryNewSession"
| "retryDirectiveFor OpenFailed = RetryWithBackoff"
| "retryDirectiveFor CapacityExceeded = RetryWithBackoff"
| "retryDirectiveFor QueueFull = RetryWithBackoff"
| "retryDirectiveFor StoreFull = RetryWithBackoff"
| "retryDirectiveFor LimitExceeded = Terminal"
| "retryDirectiveFor IllegalTransition = DoNotRetry"
| "retryDirectiveFor ApplyFailed = RetryAfterReconcile"
| "retryDirectiveFor ApplyUncertain = RetryAfterReconcile"
| "retryDirectiveFor NotPrepared = RetryAfterReconcile"
| "retryDirectiveFor RolledBack = RetryAfterReconcile"
| "retryDirectiveFor ArtifactUnavailable = DoNotRetry"
| "retryDirectiveFor Cancelled = DoNotRetry"
| "retryDirectiveFor ShuttingDown = DoNotRetry"
| "retryDirectiveFor Busy = RetryWithBackoff"
| "retryDirectiveFor Internal = DoNotRetry"

definition isFencingCode :: "ErrorCode \<Rightarrow> bool" where
  "isFencingCode code \<longleftrightarrow>
     code \<in> {StaleGeneration, StaleEpoch, FencedIncarnation, GenerationConflict, ReplayDetected}"

definition isIntegrityCode :: "ErrorCode \<Rightarrow> bool" where
  "isIntegrityCode code \<longleftrightarrow>
     code \<in> {DigestMismatch, IntegrityFailure, SizeMismatch}"

definition isIndeterminateCode :: "ErrorCode \<Rightarrow> bool" where
  "isIndeterminateCode code \<longleftrightarrow>
     code \<in> {ApplyUncertain, IoFailure, ConnectionReset, ConnectionClosed, TruncatedFrame, PeerIdleTimeout}"

text \<open>
  \<^verbatim>\<open>errorCodeFromName\<close> looks a name up in the table that lists \<^const>\<open>errorCodeName\<close> for every raw
  value that has one, and falls back to \<^const>\<open>Internal\<close>.
\<close>

definition errorCodeFromName :: "string \<Rightarrow> ErrorCode" where
  "errorCodeFromName name =
     (case lookup_name errorCodeName allErrorCodes name of None \<Rightarrow> Internal | Some code \<Rightarrow> code)"

subsection \<open>Errors and results\<close>

record Error =
  err_code :: ErrorCode
  err_message :: string
  err_detail :: string

definition Error_str :: "Error \<Rightarrow> string" where
  "Error_str e =
     errorCodeName (err_code e)
     @ (if err_message e \<noteq> [] then '': '' @ err_message e else [])
     @ (if err_detail e \<noteq> [] then '' ['' @ err_detail e @ '']'' else [])"

type_synonym 'a result = "ErrorCode + 'a"
type_synonym status = "ErrorCode + unit"

text \<open>\<^verbatim>\<open>CF_TRY\<close> and \<^verbatim>\<open>CF_TRY_ASSIGN\<close>: return the error, or continue with the value.\<close>

definition cf_try :: "'a result \<Rightarrow> ('a \<Rightarrow> 'b result) \<Rightarrow> 'b result" where
  "cf_try r f = (case r of Inl e \<Rightarrow> Inl e | Inr v \<Rightarrow> f v)"

definition valueOr :: "'a result \<Rightarrow> 'a \<Rightarrow> 'a" where
  "valueOr r fallback = (case r of Inl e \<Rightarrow> fallback | Inr v \<Rightarrow> v)"

definition Result_map :: "'a result \<Rightarrow> ('a \<Rightarrow> 'b) \<Rightarrow> 'b result" where
  "Result_map r fn = (case r of Inl e \<Rightarrow> Inl e | Inr v \<Rightarrow> Inr (fn v))"

text \<open>An early return: fail with \<open>code\<close> when the guard holds, otherwise go on.\<close>

definition fail_if :: "bool \<Rightarrow> ErrorCode \<Rightarrow> 'a result \<Rightarrow> 'a result" where
  "fail_if guard code r = (if guard then Inl code else r)"

subsection \<open>Plumbing lemmas\<close>

lemma cf_try_simps [simp, result_simps]:
  "cf_try (Inl e) f = Inl e" "cf_try (Inr v) f = f v"
  by (simp_all add: cf_try_def)

lemma cf_try_eq_Inr_iff [result_simps]:
  "cf_try r f = Inr w \<longleftrightarrow> (\<exists>v. r = Inr v \<and> f v = Inr w)"
  by (cases r) auto

lemma cf_try_eq_Inl_iff:
  "cf_try r f = Inl e \<longleftrightarrow> r = Inl e \<or> (\<exists>v. r = Inr v \<and> f v = Inl e)"
  by (cases r) auto

lemma cf_try_assoc: "cf_try (cf_try r f) g = cf_try r (\<lambda>v. cf_try (f v) g)"
  by (cases r) auto

lemma fail_if_eq_Inr_iff [result_simps]:
  "fail_if guard code r = Inr v \<longleftrightarrow> \<not> guard \<and> r = Inr v"
  by (simp add: fail_if_def)

lemma fail_if_simps [simp]:
  "fail_if True code r = Inl code" "fail_if False code r = r"
  by (simp_all add: fail_if_def)

subsection \<open>The name table\<close>

lemma mem_allErrorCodes: "code \<in> set allErrorCodes"
  by (cases code) (simp_all add: allErrorCodes_def)

lemma sorted_allErrorCodes: "sorted_wrt (<) (map errorCodeValue allErrorCodes)"
  by (simp add: allErrorCodes_def)

lemma distinct_errorCodeNames: "distinct (map errorCodeName allErrorCodes)"
  by code_simp

interpretation errorCodes: named_enum errorCodeName "lookup_name errorCodeName allErrorCodes" "\<lambda>_. True"
  by unfold_locales
    (auto simp: lookup_name_mem distinct_errorCodeNames mem_allErrorCodes dest: lookup_name_Some)

lemma errorCodeValue_inject: "errorCodeValue a = errorCodeValue b \<longleftrightarrow> a = b"
proof -
  have "inj_on errorCodeValue (set allErrorCodes)"
    using sorted_allErrorCodes by (metis distinct_map strict_sorted_iff)
  then show ?thesis by (auto simp: mem_allErrorCodes dest: inj_onD)
qed

subsection \<open>Properties\<close>

text \<open>
  every error code survives the trip through its stable name, and the recovery strategy is safe
  on the three classes of codes: a fencing refusal and corrupted content are never retried, and an
  operation whose outcome is unknown is never written off without another attempt to find out.
\<close>

theorem error_code_contract:
  "errorCodeFromName (errorCodeName c) = c
   \<and> retryDirectiveFor ` Collect isFencingCode = {DoNotRetry}
   \<and> retryDirectiveFor ` Collect isIntegrityCode = {DoNotRetry}
   \<and> {DoNotRetry, Terminal} \<inter> retryDirectiveFor ` Collect isIndeterminateCode = {}"
proof -
  have "Collect isFencingCode =
      {StaleGeneration, StaleEpoch, FencedIncarnation, GenerationConflict, ReplayDetected}"
    and "Collect isIntegrityCode = {DigestMismatch, IntegrityFailure, SizeMismatch}"
    and "Collect isIndeterminateCode =
      {ApplyUncertain, IoFailure, ConnectionReset, ConnectionClosed, TruncatedFrame, PeerIdleTimeout}"
    by (auto simp: isFencingCode_def isIntegrityCode_def isIndeterminateCode_def)
  then show ?thesis using errorCodes.parse_name [of c] by (simp add: errorCodeFromName_def)
qed

end
