(* ===== verification/Checked.thy ===== *)
theory Checked
  imports Result
begin

text \<open>
  The checked arithmetic of \<^verbatim>\<open>include/cf/checked.hpp\<close>, at an arbitrary unsigned width: the
  templates are functions on \<^typ>\<open>'a word\<close>, \<open>std::numeric_limits<T>::max()\<close> is the word
  \<open>- 1\<close>, and \<open>std::nullopt\<close> is \<^const>\<open>None\<close>. The lemmas relate each helper to exact
  arithmetic on \<^typ>\<open>nat\<close>.
\<close>

definition checkedAdd :: "'a::len word \<Rightarrow> 'a word \<Rightarrow> 'a word option" where
  "checkedAdd a b = (if a > - 1 - b then None else Some (a + b))"

definition checkedSub :: "'a::len word \<Rightarrow> 'a word \<Rightarrow> 'a word option" where
  "checkedSub a b = (if b > a then None else Some (a - b))"

definition checkedMul :: "'a::len word \<Rightarrow> 'a word \<Rightarrow> 'a word option" where
  "checkedMul a b = (if a \<noteq> 0 \<and> b > - 1 div a then None else Some (a * b))"

text \<open>
  \<^verbatim>\<open>checkedCast<To, From>\<close> in its three compile-time branches: equal signedness (given here for
  unsigned types, the width of \<open>To\<close> as the bound), signed to unsigned, and unsigned to signed.
  Signed values are mathematical integers in the range of their type.
\<close>

definition checkedCast_unsigned :: "'b::len word \<Rightarrow> 'a::len word option" where
  "checkedCast_unsigned v = (if unat v > unat (- 1 :: 'a word) then None else Some (ucast v))"

definition checkedCast_to_unsigned :: "int \<Rightarrow> 'a::len word option" where
  "checkedCast_to_unsigned v =
     (if v < 0 then None
      else if v > uint (- 1 :: 'a word) then None
      else Some (word_of_int v))"

definition checkedCast_to_signed :: "nat \<Rightarrow> 'b::len word \<Rightarrow> int option" where
  "checkedCast_to_signed w v = (if uint v > 2 ^ (w - 1) - 1 then None else Some (uint v))"

definition saturatingSub :: "'a::len word \<Rightarrow> 'a word \<Rightarrow> 'a word" where
  "saturatingSub a b = (if b > a then 0 else a - b)"

text \<open>\<^verbatim>\<open>checkedAdd<std::size_t>\<close> on container sizes, which are kept as natural numbers.\<close>

definition checkedAdd_size :: "nat \<Rightarrow> nat \<Rightarrow> nat option" where
  "checkedAdd_size a b = (if a + b \<ge> 2 ^ 64 then None else Some (a + b))"

subsection \<open>Exactness\<close>

lemma unat_max_word: "unat (- 1 :: 'a::len word) = 2 ^ LENGTH('a) - 1"
  by (simp add: unsigned_minus_1_eq_mask mask_eq_exp_minus_1)

lemma max_minus_unat: "unat (- 1 - b :: 'a::len word) = 2 ^ LENGTH('a) - 1 - unat b"
  by (simp add: unat_sub unat_max_word)

lemma checkedAdd_exact:
  "checkedAdd a b =
     (if unat a + unat b < 2 ^ LENGTH('a) then Some (a + b) else None)"
  for a b :: "'a::len word"
proof -
  have "unat b < 2 ^ LENGTH('a)" by (rule unsigned_less)
  then have "a > - 1 - b \<longleftrightarrow> \<not> unat a + unat b < 2 ^ LENGTH('a)"
    unfolding word_less_nat_alt max_minus_unat by linarith
  then show ?thesis by (simp add: checkedAdd_def)
qed

lemma checkedAdd_Some:
  "checkedAdd a b = Some c \<Longrightarrow> unat c = unat a + unat b"
  by (auto simp: checkedAdd_exact unat_word_ariths split: if_splits)

lemma checkedAdd_None:
  "checkedAdd a b = None \<longleftrightarrow> 2 ^ LENGTH('a) \<le> unat a + unat b"
  for a b :: "'a::len word"
  by (auto simp: checkedAdd_exact)

lemma checkedMul_exact:
  "checkedMul a b =
     (if unat a * unat b < 2 ^ LENGTH('a) then Some (a * b) else None)"
  for a b :: "'a::len word"
proof (cases "a = 0")
  case True
  then show ?thesis by (simp add: checkedMul_def)
next
  case False
  then have pos: "0 < unat a" by (simp add: unat_gt_0)
  have "b > - 1 div a \<longleftrightarrow> (2 ^ LENGTH('a) - 1) div unat a < unat b"
    by (simp add: word_less_nat_alt unat_div unat_max_word)
  also have "\<dots> \<longleftrightarrow> 2 ^ LENGTH('a) - 1 < unat b * unat a"
    using pos by (simp add: div_less_iff_less_mult)
  also have "\<dots> \<longleftrightarrow> \<not> unat a * unat b < 2 ^ LENGTH('a)"
  proof -
    have "0 < (2 :: nat) ^ LENGTH('a)" by simp
    then show ?thesis unfolding mult.commute [of "unat b"] by linarith
  qed
  finally show ?thesis using False by (simp add: checkedMul_def)
qed

lemma checkedMul_Some:
  "checkedMul a b = Some c \<Longrightarrow> unat c = unat a * unat b"
  by (auto simp: checkedMul_exact unat_word_ariths split: if_splits)

lemma checkedMul_None:
  "checkedMul a b = None \<longleftrightarrow> 2 ^ LENGTH('a) \<le> unat a * unat b"
  for a b :: "'a::len word"
  by (auto simp: checkedMul_exact)

lemma checkedSub_Some:
  "checkedSub a b = Some c \<longleftrightarrow> unat b \<le> unat a \<and> c = a - b"
  by (auto simp: checkedSub_def word_less_nat_alt)

lemma saturatingSub_exact: "unat (saturatingSub a b) = unat a - unat b"
  by (auto simp: saturatingSub_def unat_sub word_less_nat_alt word_le_nat_alt not_less)

lemma checkedCast_unsigned_exact:
  "checkedCast_unsigned v = Some (c :: 'a::len word) \<longleftrightarrow> unat v = unat c"
  for v :: "'b::len word"
proof
  assume "checkedCast_unsigned v = Some c"
  then have le: "unat v \<le> 2 ^ LENGTH('a) - 1" and c: "c = ucast v"
    by (auto simp: checkedCast_unsigned_def unat_max_word split: if_splits)
  have "0 < (2 :: nat) ^ LENGTH('a)" by simp
  with le have "unat v < 2 ^ LENGTH('a)" by linarith
  with c show "unat v = unat c" by (simp add: unsigned_ucast_eq take_bit_nat_eq_self)
next
  assume eq: "unat v = unat c"
  have "unat c < 2 ^ LENGTH('a)" by (rule unsigned_less)
  with eq have "unat v \<le> 2 ^ LENGTH('a) - 1" by linarith
  moreover have "ucast v = c"
    using eq by (simp add: word_unat_eq_iff unsigned_ucast_eq take_bit_nat_eq_self)
  ultimately show "checkedCast_unsigned v = Some c"
    by (simp add: checkedCast_unsigned_def unat_max_word)
qed

subsection \<open>Properties\<close>

text \<open>
  the overflow-checked helpers are exact integer arithmetic or an explicit refusal. A checked
  sum or product is the mathematical one and is refused exactly when that one does not fit; a checked
  difference is refused exactly when it would be negative; the saturating difference stops at zero.
\<close>

theorem checked_arithmetic_exact:
  "map_option unat (checkedAdd a b) = (if unat a + unat b < 2 ^ LENGTH('a) then Some (unat a + unat b) else None)
   \<and> map_option unat (checkedMul a b) = (if unat a * unat b < 2 ^ LENGTH('a) then Some (unat a * unat b) else None)
   \<and> map_option unat (checkedSub a b) = (if unat b \<le> unat a then Some (unat a - unat b) else None)
   \<and> unat (saturatingSub a b) = unat a - unat b"
  for a b :: "'a::len word"
  by (auto simp: checkedAdd_exact checkedMul_exact checkedSub_def saturatingSub_exact unat_word_ariths
      unat_sub word_less_nat_alt word_le_nat_alt)

end
