(* ===== verification/Hash.thy ===== *)
theory Hash
  imports Checked
begin

text \<open>
  The integrity primitives of \<^verbatim>\<open>include/cf/hash.hpp\<close> and \<^verbatim>\<open>src/hash.cpp\<close>: incremental SHA-256,
  HMAC-SHA256, the constant-time comparison, table-driven CRC32C and the hexadecimal codec.
  The lemmas show that the buffered, incremental hasher computes padded SHA-256 of the
  concatenation of everything it was fed, that the CRC table is equivalent to the bitwise
  polynomial division and detects every change confined to one byte, and that the hexadecimal
  codec round-trips.
\<close>

subsection \<open>SHA-256\<close>

definition kSha256K :: "u32 list" where
  "kSha256K = [
    0x428A2F98, 0x71374491, 0xB5C0FBCF, 0xE9B5DBA5, 0x3956C25B, 0x59F111F1, 0x923F82A4,
    0xAB1C5ED5, 0xD807AA98, 0x12835B01, 0x243185BE, 0x550C7DC3, 0x72BE5D74, 0x80DEB1FE,
    0x9BDC06A7, 0xC19BF174, 0xE49B69C1, 0xEFBE4786, 0x0FC19DC6, 0x240CA1CC, 0x2DE92C6F,
    0x4A7484AA, 0x5CB0A9DC, 0x76F988DA, 0x983E5152, 0xA831C66D, 0xB00327C8, 0xBF597FC7,
    0xC6E00BF3, 0xD5A79147, 0x06CA6351, 0x14292967, 0x27B70A85, 0x2E1B2138, 0x4D2C6DFC,
    0x53380D13, 0x650A7354, 0x766A0ABB, 0x81C2C92E, 0x92722C85, 0xA2BFE8A1, 0xA81A664B,
    0xC24B8B70, 0xC76C51A3, 0xD192E819, 0xD6990624, 0xF40E3585, 0x106AA070, 0x19A4C116,
    0x1E376C08, 0x2748774C, 0x34B0BCB5, 0x391C0CB3, 0x4ED8AA4A, 0x5B9CCA4F, 0x682E6FF3,
    0x748F82EE, 0x78A5636F, 0x84C87814, 0x8CC70208, 0x90BEFFFA, 0xA4506CEB, 0xBEF9A3F7,
    0xC67178F2]"

definition rotr32 :: "u32 \<Rightarrow> nat \<Rightarrow> u32" where
  "rotr32 v count = drop_bit count v OR push_bit (32 - count) v"

definition bigEndian32 :: "bytes \<Rightarrow> u32" where
  "bigEndian32 p =
     push_bit 24 (ucast (p ! 0)) OR push_bit 16 (ucast (p ! 1)) OR push_bit 8 (ucast (p ! 2))
     OR ucast (p ! 3)"

text \<open>
  \<^verbatim>\<open>Sha256::compress\<close>: the message schedule \<open>w\<close> (sixteen words of the block, then the
  recurrence up to 64 words), the 64 rounds on the working variables, and the final addition.
\<close>

definition sha_schedule_step :: "nat \<Rightarrow> u32 list \<Rightarrow> u32 list" where
  "sha_schedule_step i w =
     (let s0 = rotr32 (w ! (i - 15)) 7 XOR rotr32 (w ! (i - 15)) 18 XOR drop_bit 3 (w ! (i - 15));
          s1 = rotr32 (w ! (i - 2)) 17 XOR rotr32 (w ! (i - 2)) 19 XOR drop_bit 10 (w ! (i - 2))
      in w @ [w ! (i - 16) + s0 + w ! (i - 7) + s1])"

definition sha_schedule :: "bytes \<Rightarrow> u32 list" where
  "sha_schedule block =
     fold sha_schedule_step [16..<64] (map (\<lambda>i. bigEndian32 (drop (i * 4) block)) [0..<16])"

type_synonym sha_vars = "u32 \<times> u32 \<times> u32 \<times> u32 \<times> u32 \<times> u32 \<times> u32 \<times> u32"

definition sha_round :: "u32 list \<Rightarrow> nat \<Rightarrow> sha_vars \<Rightarrow> sha_vars" where
  "sha_round w i = (\<lambda>(a, b, c, d, e, f, g, h).
     let s1 = rotr32 e 6 XOR rotr32 e 11 XOR rotr32 e 25;
         ch = (e AND f) XOR (NOT e AND g);
         temp1 = h + s1 + ch + kSha256K ! i + w ! i;
         s0 = rotr32 a 2 XOR rotr32 a 13 XOR rotr32 a 22;
         maj = (a AND b) XOR (a AND c) XOR (b AND c);
         temp2 = s0 + maj
     in (temp1 + temp2, a, b, c, d + temp1, e, f, g))"

definition sha_compress :: "u32 list \<Rightarrow> bytes \<Rightarrow> u32 list" where
  "sha_compress st block =
     (let w = sha_schedule block;
          (a, b, c, d, e, f, g, h) =
            fold (sha_round w) [0..<64]
              (st ! 0, st ! 1, st ! 2, st ! 3, st ! 4, st ! 5, st ! 6, st ! 7)
      in [st ! 0 + a, st ! 1 + b, st ! 2 + c, st ! 3 + d,
          st ! 4 + e, st ! 5 + f, st ! 6 + g, st ! 7 + h])"

record Sha256 =
  sha_state :: "u32 list"
  sha_buffer :: bytes
  sha_buffered :: nat
  sha_totalBytes :: u64

definition Sha256_init :: Sha256 where
  "Sha256_init =
     \<lparr>sha_state = [0x6a09e667, 0xbb67ae85, 0x3c6ef372, 0xa54ff53a,
                   0x510e527f, 0x9b05688c, 0x1f83d9ab, 0x5be0cd19],
      sha_buffer = replicate 64 0, sha_buffered = 0, sha_totalBytes = 0\<rparr>"

text \<open>
  The three loops of \<^verbatim>\<open>Sha256::update\<close>; the offset into \<open>data\<close> is represented by the rest of the
  data. \<open>sha_fill\<close> is the bounded copy into a partly filled buffer, \<open>sha_blocks\<close> compresses whole
  blocks directly out of the data, \<open>sha_hold\<close> keeps the rest.
\<close>

fun sha_fill :: "bytes \<Rightarrow> nat \<Rightarrow> bytes \<Rightarrow> bytes \<times> nat \<times> bytes" where
  "sha_fill buf n [] = (buf, n, [])"
| "sha_fill buf n (d # ds) =
     (if n < 64 then sha_fill (buf[n := d]) (n + 1) ds else (buf, n, d # ds))"

fun sha_blocks :: "u32 list \<Rightarrow> bytes \<Rightarrow> u32 list \<times> bytes" where
  "sha_blocks st data =
     (if 64 \<le> length data then sha_blocks (sha_compress st (take 64 data)) (drop 64 data)
      else (st, data))"

fun sha_hold :: "bytes \<Rightarrow> nat \<Rightarrow> bytes \<Rightarrow> bytes \<times> nat" where
  "sha_hold buf n [] = (buf, n)"
| "sha_hold buf n (d # ds) = sha_hold (buf[n := d]) (n + 1) ds"

declare sha_blocks.simps [simp del]

definition Sha256_update :: "Sha256 \<Rightarrow> bytes \<Rightarrow> Sha256" where
  "Sha256_update s data =
     (let total = sha_totalBytes s + of_nat (length data);
          (buf, n, rest) =
            (if 0 < sha_buffered s then sha_fill (sha_buffer s) (sha_buffered s) data
             else (sha_buffer s, sha_buffered s, data));
          (st, m) =
            (if 0 < sha_buffered s \<and> n = 64 then (sha_compress (sha_state s) buf, 0)
             else (sha_state s, n));
          (st', rest') = sha_blocks st rest;
          (buf', m') = sha_hold buf m rest'
      in \<lparr>sha_state = st', sha_buffer = buf', sha_buffered = m', sha_totalBytes = total\<rparr>)"

text \<open>
  \<^verbatim>\<open>Sha256::finish\<close>: the first \<open>totalLength\<close> bytes of the \<^verbatim>\<open>final\<close> array, compressed block by block,
  and the state words written out in big-endian order.
\<close>

definition sha_padZeros :: "nat \<Rightarrow> nat" where
  "sha_padZeros held =
     (let afterMarker = (held + 1) mod 64
      in if afterMarker \<le> 56 then 56 - afterMarker else 120 - afterMarker)"

definition sha_final :: "bytes \<Rightarrow> u64 \<Rightarrow> bytes" where
  "sha_final held bitLength =
     held @ [0x80] @ replicate (sha_padZeros (length held)) 0
     @ map (\<lambda>i. ucast (drop_bit (56 - i * 8) bitLength AND 0xFF)) [0..<8]"

definition sha_output :: "u32 list \<Rightarrow> bytes" where
  "sha_output st =
     concat (map (\<lambda>x. [ucast (drop_bit 24 x AND 0xFF), ucast (drop_bit 16 x AND 0xFF),
                        ucast (drop_bit 8 x AND 0xFF), ucast (x AND 0xFF)]) st)"

definition Sha256_finish :: "Sha256 \<Rightarrow> bytes" where
  "Sha256_finish s =
     (let bitLength = sha_totalBytes s * 8;
          final = sha_final (take (sha_buffered s) (sha_buffer s)) bitLength
      in sha_output (fst (sha_blocks (sha_state s) final)))"

definition sha256 :: "bytes \<Rightarrow> bytes" where
  "sha256 data = Sha256_finish (Sha256_update Sha256_init data)"

subsection \<open>HMAC-SHA256 and constant-time comparison\<close>

definition hmac_normalise :: "bytes \<Rightarrow> bytes" where
  "hmac_normalise key =
     (let k = (if length key > 64 then sha256 key else key)
      in k @ replicate (64 - length k) 0)"

definition hmacSha256 :: "bytes \<Rightarrow> bytes \<Rightarrow> bytes" where
  "hmacSha256 key message =
     (let normalised = hmac_normalise key;
          inner = map (\<lambda>b. b XOR 0x36) normalised;
          outer = map (\<lambda>b. b XOR 0x5c) normalised;
          innerDigest = Sha256_finish (Sha256_update (Sha256_update Sha256_init inner) message)
      in Sha256_finish (Sha256_update (Sha256_update Sha256_init outer) innerDigest))"

definition constantTimeEquals :: "bytes \<Rightarrow> bytes \<Rightarrow> bool" where
  "constantTimeEquals a b \<longleftrightarrow>
     (if length a \<noteq> length b then False
      else fold (\<lambda>(x, y) acc. acc OR (x XOR y)) (zip a b) (0 :: byte) = 0)"

subsection \<open>CRC32C\<close>

definition crc_bit :: "u32 \<Rightarrow> u32" where
  "crc_bit crc = (if crc AND 1 \<noteq> 0 then drop_bit 1 crc XOR 0x82F63B78 else drop_bit 1 crc)"

definition kCrc32cTable :: "u32 list" where
  "kCrc32cTable = map (\<lambda>i. (crc_bit ^^ 8) (of_nat i)) [0..<256]"

definition crc32c_byte :: "u32 \<Rightarrow> byte \<Rightarrow> u32" where
  "crc32c_byte crc b = kCrc32cTable ! unat ((crc XOR ucast b) AND 0xFF) XOR drop_bit 8 crc"

definition crc32cUpdate :: "u32 \<Rightarrow> bytes \<Rightarrow> u32" where
  "crc32cUpdate state data = foldl crc32c_byte state data"

definition crc32c :: "bytes \<Rightarrow> u32" where
  "crc32c data = crc32cUpdate 0xFFFFFFFF data XOR 0xFFFFFFFF"

text \<open>The incremental class \<^verbatim>\<open>Crc32c\<close>: its state is the raw register, and \<^verbatim>\<open>value()\<close> returns it as is.\<close>

definition Crc32c_init :: u32 where
  "Crc32c_init = 0xFFFFFFFF"

definition Crc32c_update :: "u32 \<Rightarrow> bytes \<Rightarrow> u32" where
  "Crc32c_update st data = crc32cUpdate st data"

subsection \<open>Hexadecimal\<close>

definition hex_digit :: "byte \<Rightarrow> char" where
  "hex_digit n = ''0123456789abcdef'' ! unat n"

definition toHex :: "bytes \<Rightarrow> string" where
  "toHex bs = concat (map (\<lambda>b. [hex_digit (drop_bit 4 b AND 0x0F), hex_digit (b AND 0x0F)]) bs)"

text \<open>The lambda \<^verbatim>\<open>nibble\<close>; its result \<^verbatim>\<open>-1\<close> is \<^const>\<open>None\<close>.\<close>

definition nibble :: "char \<Rightarrow> nat option" where
  "nibble c =
     (if CHR ''0'' \<le> c \<and> c \<le> CHR ''9'' then Some (of_char c - of_char (CHR ''0''))
      else if CHR ''a'' \<le> c \<and> c \<le> CHR ''f'' then Some (of_char c - of_char (CHR ''a'') + 10)
      else if CHR ''A'' \<le> c \<and> c \<le> CHR ''F'' then Some (of_char c - of_char (CHR ''A'') + 10)
      else None)"

fun fromHex_pairs :: "string \<Rightarrow> bytes option" where
  "fromHex_pairs (h # l # cs) =
     (case (nibble h, nibble l) of
        (Some high, Some low) \<Rightarrow>
          (case fromHex_pairs cs of
             Some bs \<Rightarrow> Some ((push_bit 4 (of_nat high) OR of_nat low) # bs)
           | None \<Rightarrow> None)
      | _ \<Rightarrow> None)"
| "fromHex_pairs _ = Some []"

text \<open>\<^verbatim>\<open>fromHex\<close> into an output span of \<open>n\<close> bytes.\<close>

definition fromHex :: "string \<Rightarrow> nat \<Rightarrow> bytes option" where
  "fromHex text n = (if length text \<noteq> n * 2 then None else fromHex_pairs text)"

subsection \<open>The incremental hasher hashes the concatenation\<close>

text \<open>
  What the hasher represents: the bytes it still holds. The invariant of the class is that fewer
  than 64 bytes are held in a buffer of 64.
\<close>

definition sha_inv :: "Sha256 \<Rightarrow> bool" where
  "sha_inv s \<longleftrightarrow> length (sha_buffer s) = 64 \<and> sha_buffered s < 64"

definition sha_held :: "Sha256 \<Rightarrow> bytes" where
  "sha_held s = take (sha_buffered s) (sha_buffer s)"

text \<open>The reference: pad the whole message at once and compress it block by block.\<close>

definition sha256_pad :: "bytes \<Rightarrow> bytes" where
  "sha256_pad msg =
     msg @ [0x80] @ replicate (sha_padZeros (length msg mod 64)) 0
     @ rev (le_store 8 (of_nat (8 * length msg) :: u64))"

definition sha256_spec :: "bytes \<Rightarrow> bytes" where
  "sha256_spec msg = sha_output (fst (sha_blocks (sha_state Sha256_init) (sha256_pad msg)))"

lemma sha_fill_spec:
  "n \<le> 64 \<Longrightarrow> length buf = 64 \<Longrightarrow> sha_fill buf n ds = (buf', n', rest) \<Longrightarrow>
     length buf' = 64 \<and> n' = min 64 (n + length ds)
     \<and> take n' buf' = take n buf @ take (64 - n) ds \<and> rest = drop (64 - n) ds"
proof (induction ds arbitrary: buf n)
  case Nil
  then show ?case by auto
next
  case (Cons d ds)
  show ?case
  proof (cases "n < 64")
    case True
    with Cons.prems have "sha_fill (buf[n := d]) (n + 1) ds = (buf', n', rest)" by simp
    from Cons.IH [OF _ _ this] True Cons.prems(2)
    have "length buf' = 64 \<and> n' = min 64 (Suc n + length ds)
        \<and> take n' buf' = take (Suc n) (buf[n := d]) @ take (63 - n) ds \<and> rest = drop (63 - n) ds"
      by auto
    moreover have "take (Suc n) (buf[n := d]) = take n buf @ [d]"
      using True Cons.prems(2) by (simp add: take_Suc_conv_app_nth)
    moreover have "64 - n = Suc (63 - n)" using True by simp
    ultimately show ?thesis by auto
  next
    case False
    with Cons.prems show ?thesis by auto
  qed
qed

lemma sha_hold_spec:
  "n + length ds \<le> length buf \<Longrightarrow> sha_hold buf n ds = (buf', n') \<Longrightarrow>
     length buf' = length buf \<and> n' = n + length ds \<and> take n' buf' = take n buf @ ds"
proof (induction ds arbitrary: buf n)
  case Nil
  then show ?case by auto
next
  case (Cons d ds)
  then have "length buf' = length buf \<and> n' = Suc n + length ds
      \<and> take n' buf' = take (Suc n) (buf[n := d]) @ ds"
    by (auto dest!: Cons.IH [rotated])
  moreover have "take (Suc n) (buf[n := d]) = take n buf @ [d]"
    using Cons.prems(1) by (simp add: take_Suc_conv_app_nth)
  ultimately show ?case by auto
qed

lemma sha_blocks_small: "length data < 64 \<Longrightarrow> sha_blocks st data = (st, data)"
  by (subst sha_blocks.simps) simp

lemma sha_blocks_rest: "length (snd (sha_blocks st data)) < 64"
proof (induction st data rule: sha_blocks.induct)
  case (1 st data)
  then show ?case by (subst sha_blocks.simps) auto
qed

lemma sha_blocks_append:
  "sha_blocks st (a @ b) = (case sha_blocks st a of (st', r) \<Rightarrow> sha_blocks st' (r @ b))"
proof (induction st a rule: sha_blocks.induct)
  case (1 st a)
  show ?case
  proof (cases "64 \<le> length a")
    case True
    have "sha_blocks st (a @ b) = sha_blocks (sha_compress st (take 64 a)) (drop 64 a @ b)"
      using True by (subst sha_blocks.simps) simp
    also have "\<dots> = (case sha_blocks (sha_compress st (take 64 a)) (drop 64 a) of
        (st', r) \<Rightarrow> sha_blocks st' (r @ b))"
      using True by (rule 1)
    also have "sha_blocks (sha_compress st (take 64 a)) (drop 64 a) = sha_blocks st a"
      using True by (subst (2) sha_blocks.simps) simp
    finally show ?thesis .
  next
    case False
    then show ?thesis by (simp add: sha_blocks_small)
  qed
qed

lemma sha_final_of_rest:
  assumes "sha_blocks st msg = (st', held)"
  shows "sha_blocks st (msg @ tail) = sha_blocks st' (held @ tail)"
  using assms sha_blocks_append [of st msg tail] by simp

lemma Sha256_update_spec:
  assumes inv: "sha_inv s"
  shows "sha_inv (Sha256_update s data)
    \<and> (sha_state (Sha256_update s data), sha_held (Sha256_update s data))
        = sha_blocks (sha_state s) (sha_held s @ data)
    \<and> sha_totalBytes (Sha256_update s data) = sha_totalBytes s + of_nat (length data)"
proof -
  define fill where "fill =
    (if 0 < sha_buffered s then sha_fill (sha_buffer s) (sha_buffered s) data
     else (sha_buffer s, sha_buffered s, data))"
  obtain buf n rest where fill: "fill = (buf, n, rest)" by (cases fill) auto
  define mid where "mid =
    (if 0 < sha_buffered s \<and> n = 64 then (sha_compress (sha_state s) buf, 0) else (sha_state s, n))"
  obtain st m where mid: "mid = (st, m)" by (cases mid) auto
  obtain st' rest' where blk: "sha_blocks st rest = (st', rest')" by fastforce
  obtain buf' m' where hold: "sha_hold buf m rest' = (buf', m')" by fastforce
  have upd: "Sha256_update s data = \<lparr>sha_state = st', sha_buffer = buf', sha_buffered = m',
      sha_totalBytes = sha_totalBytes s + of_nat (length data)\<rparr>"
    using fill mid blk hold by (simp add: Sha256_update_def fill_def mid_def Let_def)
  have buf: "length buf = 64" and mb: "m = 0 \<or> rest = [] \<and> m < 64"
    and eq: "sha_blocks st (take m buf @ rest) = sha_blocks (sha_state s) (sha_held s @ data)"
  proof -
    have "length buf = 64 \<and> (m = 0 \<or> rest = [] \<and> m < 64)
        \<and> sha_blocks st (take m buf @ rest) = sha_blocks (sha_state s) (sha_held s @ data)"
    proof (cases "0 < sha_buffered s")
      case False
      then show ?thesis using inv fill mid by (auto simp: fill_def mid_def sha_inv_def sha_held_def)
    next
      case True
      then have F: "sha_fill (sha_buffer s) (sha_buffered s) data = (buf, n, rest)"
        using fill by (simp add: fill_def)
      have S: "length buf = 64 \<and> n = min 64 (sha_buffered s + length data)
          \<and> take n buf = sha_held s @ take (64 - sha_buffered s) data
          \<and> rest = drop (64 - sha_buffered s) data"
        using sha_fill_spec [OF _ _ F] inv by (auto simp: sha_inv_def sha_held_def)
      show ?thesis
      proof (cases "n = 64")
        case True
        with \<open>0 < sha_buffered s\<close> have "st = sha_compress (sha_state s) buf" and "m = 0"
          using mid by (auto simp: mid_def)
        moreover have "sha_held s @ data = buf @ rest"
          using S True by (metis append.assoc append_take_drop_id order_refl take_all)
        ultimately show ?thesis using S
          by (subst (2) sha_blocks.simps) simp
      next
        case False
        then have "st = sha_state s" and "m = n" using mid by (auto simp: mid_def)
        with S False show ?thesis by auto
      qed
    qed
    then show "length buf = 64" "m = 0 \<or> rest = [] \<and> m < 64"
      "sha_blocks st (take m buf @ rest) = sha_blocks (sha_state s) (sha_held s @ data)"
      by auto
  qed
  have small: "length rest' < 64" using sha_blocks_rest [of st rest] blk by simp
  have "rest = [] \<Longrightarrow> rest' = []" using blk by (auto simp: sha_blocks_small)
  with mb small have mr: "m + length rest' < 64" by auto
  with buf hold have H: "length buf' = 64 \<and> m' = m + length rest' \<and> take m' buf' = take m buf @ rest'"
    using sha_hold_spec [of m rest' buf buf' m'] by auto
  have "sha_blocks st (take m buf @ rest) = (st', take m buf @ rest')"
    using mb blk by (auto simp: sha_blocks_small)
  with eq H mr show ?thesis by (auto simp: upd sha_inv_def sha_held_def)
qed

lemmas Sha256_update_inv = Sha256_update_spec [THEN conjunct1]

lemma sha_inv_init [simp]: "sha_inv Sha256_init"
  by (simp add: sha_inv_def Sha256_init_def)

lemma sha_held_init [simp]: "sha_held Sha256_init = []"
  by (simp add: sha_held_def Sha256_init_def)

text \<open>Feeding a list of chunks is feeding their concatenation.\<close>

lemma Sha256_updates_spec:
  "sha_inv (foldl Sha256_update Sha256_init chunks)
   \<and> (sha_state (foldl Sha256_update Sha256_init chunks),
      sha_held (foldl Sha256_update Sha256_init chunks))
       = sha_blocks (sha_state Sha256_init) (concat chunks)
   \<and> sha_totalBytes (foldl Sha256_update Sha256_init chunks) = of_nat (length (concat chunks))"
proof (induction chunks rule: rev_induct)
  case Nil
  show ?case by (simp add: sha_blocks_small) (simp add: Sha256_init_def)
next
  case (snoc c cs)
  then have "sha_inv (foldl Sha256_update Sha256_init cs)" by simp
  moreover from snoc have "sha_blocks (sha_state Sha256_init) (concat cs) =
      (sha_state (foldl Sha256_update Sha256_init cs), sha_held (foldl Sha256_update Sha256_init cs))"
    by simp
  note sha_final_of_rest [OF this, of c]
  ultimately show ?case
    using Sha256_update_spec [of "foldl Sha256_update Sha256_init cs" c] snoc by simp
qed

lemma be_length_bytes:
  "map (\<lambda>i. ucast (drop_bit (56 - i * 8) (v :: u64) AND 0xFF)) [0..<8] = rev (le_store 8 v)"
  by (simp add: le_store_def upt_rec)

lemma length_sha_blocks_rest:
  "sha_blocks st msg = (st', held) \<Longrightarrow> length held = length msg mod 64"
proof (induction st msg rule: sha_blocks.induct)
  case (1 st msg)
  show ?case
  proof (cases "64 \<le> length msg")
    case True
    with 1 have "length held = length (drop 64 msg) mod 64"
      by (subst (asm) (2) sha_blocks.simps) auto
    with True show ?thesis by (simp add: le_mod_geq)
  next
    case False
    with "1.prems" show ?thesis by (simp add: sha_blocks_small)
  qed
qed

lemma Sha256_stream_correct:
  "Sha256_finish (foldl Sha256_update Sha256_init chunks) = sha256_spec (concat chunks)"
proof -
  define s where "s = foldl Sha256_update Sha256_init chunks"
  have eq: "sha_blocks (sha_state Sha256_init) (concat chunks) = (sha_state s, sha_held s)"
    and total: "sha_totalBytes s = of_nat (length (concat chunks))"
    using Sha256_updates_spec [of chunks] by (auto simp: s_def)
  have len: "length (sha_held s) = length (concat chunks) mod 64"
    using eq by (rule length_sha_blocks_rest)
  have bits: "(of_nat (length (concat chunks)) * 8 :: u64) = of_nat (8 * length (concat chunks))"
    by (simp add: mult.commute)
  show ?thesis
    unfolding s_def [symmetric] Sha256_finish_def sha256_spec_def sha256_pad_def
      sha_final_def sha_held_def [symmetric] Let_def be_length_bytes
    by (simp only: total bits len sha_final_of_rest [OF eq])
qed

text \<open>The two contracts that \<^verbatim>\<open>finish\<close> checks.\<close>

lemma sha_final_contract:
  assumes "length held < 64"
  shows "length (sha_final held bitLength) \<le> 128 \<and> length (sha_final held bitLength) mod 64 = 0"
proof -
  have "length (sha_final held bitLength) = length held + sha_padZeros (length held) + 9"
    by (simp add: sha_final_def)
  moreover have "length held + sha_padZeros (length held) + 9 = (if length held \<le> 55 then 64 else 128)"
  proof (cases "length held = 63")
    case False
    with assms have "(length held + 1) mod 64 = length held + 1" by simp
    with assms show ?thesis by (simp add: sha_padZeros_def Let_def)
  qed (simp add: sha_padZeros_def)
  ultimately show ?thesis by simp
qed

lemma length_sha_output: "length (sha_output st) = 4 * length st"
  by (induction st) (simp_all add: sha_output_def)

lemma length_sha_compress [simp]: "length (sha_compress st block) = 8"
  by (simp add: sha_compress_def Let_def split: prod.splits)

lemma length_fst_sha_blocks: "length st = 8 \<Longrightarrow> length (fst (sha_blocks st data)) = 8"
proof (induction st data rule: sha_blocks.induct)
  case (1 st data)
  then show ?case by (subst sha_blocks.simps) auto
qed

lemma length_sha256_spec [simp]: "length (sha256_spec msg) = 32"
  by (simp add: sha256_spec_def length_sha_output length_fst_sha_blocks Sha256_init_def)

lemma sha256_eq_spec: "sha256 msg = sha256_spec msg"
  using Sha256_stream_correct [of "[msg]"] by (simp add: sha256_def)

lemma length_sha256 [simp]: "length (sha256 msg) = 32"
  by (simp add: sha256_eq_spec)


text \<open>HMAC in the form of RFC 2104: two nested hashes of the padded key and the message.\<close>

lemma length_hmac_normalise [simp]: "length (hmac_normalise key) = 64"
  by (simp add: hmac_normalise_def Let_def)

lemma hmacSha256_rfc2104:
  "hmacSha256 key message =
     sha256_spec (map (\<lambda>b. b XOR 0x5c) (hmac_normalise key)
       @ sha256_spec (map (\<lambda>b. b XOR 0x36) (hmac_normalise key) @ message))"
  using Sha256_stream_correct [of "[map (\<lambda>b. b XOR 0x36) (hmac_normalise key), message]"]
    Sha256_stream_correct [of "[map (\<lambda>b. b XOR 0x5c) (hmac_normalise key),
      sha256_spec (map (\<lambda>b. b XOR 0x36) (hmac_normalise key) @ message)]"]
  by (simp add: hmacSha256_def Let_def)

lemma length_hmacSha256 [simp]: "length (hmacSha256 key message) = 32"
  by (simp add: hmacSha256_rfc2104)

subsection \<open>Constant-time comparison is equality\<close>

lemma xor_left_cancel_iff: "a XOR b = a XOR c \<longleftrightarrow> b = c" for a b c :: "'a::len word"
  by (metis xor.assoc xor_self_eq xor.left_neutral)

lemma xor_right_cancel_iff: "b XOR a = c XOR a \<longleftrightarrow> b = c" for a b c :: "'a::len word"
  by (metis xor.commute xor_left_cancel_iff)

lemma xor_eq_0_iff_eq: "a XOR b = 0 \<longleftrightarrow> a = b" for a b :: "'a::len word"
  by (metis xor_self_eq xor_left_cancel_iff)

lemma fold_or_eq_0:
  "fold (\<lambda>(x, y) acc. acc OR (x XOR y)) ps (acc :: byte) = 0 \<longleftrightarrow>
     acc = 0 \<and> (\<forall>(x, y) \<in> set ps. x = y)"
proof (induction ps arbitrary: acc)
  case (Cons p ps)
  have "acc OR (fst p XOR snd p) = 0 \<longleftrightarrow> acc = 0 \<and> fst p = snd p"
    by (simp add: or_eq_0_iff xor_eq_0_iff_eq)
  then show ?case using Cons.IH by (auto simp: case_prod_unfold)
qed simp

lemma constantTimeEquals_iff: "constantTimeEquals a b \<longleftrightarrow> a = b"
  by (auto simp: constantTimeEquals_def fold_or_eq_0 set_zip list_eq_iff_nth_eq)

subsection \<open>The CRC table is the bitwise division, and it detects one-byte changes\<close>

lemma crc_bit_alt: "crc_bit x = drop_bit 1 x XOR (if bit x 0 then 0x82F63B78 else 0)"
  by (simp add: crc_bit_def and_one_eq bit_0 mod_2_eq_odd)

lemma crc_bit_xor: "crc_bit (x XOR y) = crc_bit x XOR crc_bit y"
  by (rule bit_word_eqI) (auto simp: crc_bit_alt bit_simps)

lemma crc_bits_xor: "(crc_bit ^^ n) (x XOR y) = (crc_bit ^^ n) x XOR (crc_bit ^^ n) y"
  by (induction n) (simp_all add: crc_bit_xor)

lemma crc_bits_high: "n \<le> 32 \<Longrightarrow> take_bit n x = 0 \<Longrightarrow> (crc_bit ^^ n) x = drop_bit n x"
proof (induction n arbitrary: x)
  case (Suc n)
  have "bit (take_bit (Suc n) x) 0 = bit x 0" by (simp only: bit_take_bit_iff zero_less_Suc simp_thms)
  with Suc.prems(2) have "\<not> bit x 0" by simp
  then have "crc_bit x = drop_bit 1 x" by (simp add: crc_bit_alt)
  moreover have "take_bit n (drop_bit 1 x) = 0"
    using Suc.prems(2) by (metis drop_bit_take_bit drop_bit_of_0 diff_Suc_1 One_nat_def)
  ultimately show ?case
    using Suc.IH [of "drop_bit 1 x"] Suc.prems(1) by (simp add: funpow_Suc_right del: funpow.simps)
qed simp

lemma crc32c_byte_bitwise: "crc32c_byte crc b = (crc_bit ^^ 8) (crc XOR ucast b)"
proof -
  define x where "x = crc XOR (ucast b :: u32)"
  define lo where "lo = take_bit 8 x"
  define hi where "hi = push_bit 8 (drop_bit 8 x)"
  have x: "x = lo XOR hi"
    by (rule bit_word_eqI) (auto simp: lo_def hi_def bit_simps)
  have "unat lo < 256" by (simp add: lo_def take_bit_eq_mod unat_mod)
  moreover have "of_nat (unat lo) = lo" by simp
  ultimately have tab: "kCrc32cTable ! unat lo = (crc_bit ^^ 8) lo"
    by (simp add: kCrc32cTable_def del: funpow.simps)
  have "drop_bit 8 crc = drop_bit 8 hi"
    by (rule bit_word_eqI) (auto simp: hi_def x_def bit_simps dest: bit_imp_le_length)
  moreover have "(crc_bit ^^ 8) hi = drop_bit 8 hi"
    by (rule crc_bits_high) (simp_all add: hi_def take_bit_push_bit)
  moreover have "crc32c_byte crc b = kCrc32cTable ! unat lo XOR drop_bit 8 crc"
    by (simp add: crc32c_byte_def x_def lo_def and_byte_mask)
  ultimately show ?thesis
    using tab x by (simp add: crc_bits_xor x_def [symmetric] del: funpow.simps)
qed

lemma crc_bit_inj: "inj crc_bit"
proof (rule injI)
  fix x y
  assume eq: "crc_bit x = crc_bit y"
  have top: "bit (crc_bit z) 31 = bit z 0" for z
    using bit_imp_le_length [of z 32] by (auto simp: crc_bit_alt bit_simps)
  have b0: "bit x 0 = bit y 0" using eq top by metis
  with eq have d: "drop_bit 1 x = drop_bit 1 y"
    by (auto simp: crc_bit_alt xor_right_cancel_iff split: if_splits)
  show "x = y"
  proof (rule bit_word_eqI)
    fix n
    show "bit x n = bit y n"
      using b0 arg_cong [OF d, where f = "\<lambda>w. bit w (n - 1)"]
      by (cases n) (simp_all add: bit_simps)
  qed
qed

lemma crc32c_byte_inj: "crc32c_byte c a = crc32c_byte d b \<longleftrightarrow> c XOR ucast a = d XOR ucast b"
proof -
  have "inj (crc_bit ^^ 8)" by (rule inj_fn [OF crc_bit_inj])
  then show ?thesis unfolding crc32c_byte_bitwise by (rule inj_eq)
qed

lemma crc32cUpdate_inj_state: "crc32cUpdate c data = crc32cUpdate d data \<longleftrightarrow> c = d"
proof (induction data arbitrary: c d)
  case (Cons b data)
  have "crc32c_byte c b = crc32c_byte d b \<longleftrightarrow> c = d"
    by (simp add: crc32c_byte_inj xor_right_cancel_iff)
  with Cons.IH show ?case by (simp add: crc32cUpdate_def)
qed (simp add: crc32cUpdate_def)

lemma crc32c_one_byte_change:
  assumes "x \<noteq> y"
  shows "crc32c (pre @ x # post) \<noteq> crc32c (pre @ y # post)"
proof -
  have "crc32c_byte s x \<noteq> crc32c_byte s y" for s
  proof
    assume "crc32c_byte s x = crc32c_byte s y"
    then have "(ucast x :: u32) = ucast y"
      by (simp add: crc32c_byte_inj xor_left_cancel_iff)
    then have "(ucast (ucast x :: u32) :: byte) = ucast (ucast y :: u32)" by simp
    then show False using assms by (simp add: ucast_up_ucast_id is_up)
  qed
  then have "crc32cUpdate s (pre @ x # post) \<noteq> crc32cUpdate s (pre @ y # post)" for s
    using crc32cUpdate_inj_state by (simp add: crc32cUpdate_def)
  then show ?thesis
    by (simp add: crc32c_def xor_right_cancel_iff)
qed

lemma Crc32c_value_unfinalised:
  "foldl Crc32c_update Crc32c_init chunks = crc32c (concat chunks) XOR 0xFFFFFFFF"
proof -
  have "foldl Crc32c_update st chunks = crc32cUpdate st (concat chunks)" for st
    by (induction chunks arbitrary: st) (simp_all add: Crc32c_update_def crc32cUpdate_def)
  then show ?thesis by (simp add: crc32c_def Crc32c_init_def xor.assoc)
qed

subsection \<open>Hexadecimal round trips\<close>

lemma nibble_hex_digit: "n < 16 \<Longrightarrow> nibble (hex_digit (of_nat n)) = Some n"
proof -
  have "list_all (\<lambda>n. nibble (hex_digit (of_nat n)) = Some n) [0..<16]" by code_simp
  then show "n < 16 \<Longrightarrow> nibble (hex_digit (of_nat n)) = Some n" by (simp add: list_all_iff)
qed

lemma nibble_bounded: "nibble c = Some n \<Longrightarrow> n < 16"
  by (auto simp: nibble_def less_eq_char_def split: if_splits)

lemma nibble_hex_digit_word: "nibble (hex_digit (b AND 0x0F)) = Some (unat (b AND 0x0F))"
proof -
  have "b AND 0x0F = take_bit 4 b" by (simp add: take_bit_eq_mask mask_eq_exp_minus_1)
  then have "unat (b AND 0x0F) < 16" by (simp add: take_bit_eq_mod unat_mod)
  from nibble_hex_digit [OF this] show ?thesis by simp
qed

lemma byte_of_nibbles: "push_bit 4 (drop_bit 4 b AND 0x0F) OR (b AND 0x0F) = (b :: byte)"
proof -
  have "x AND 0x0F = take_bit 4 x" for x :: byte
    by (simp add: take_bit_eq_mask mask_eq_exp_minus_1)
  then show ?thesis by (intro bit_word_eqI) (auto simp: bit_simps)
qed

lemma length_toHex [simp]: "length (toHex bs) = 2 * length bs"
  by (induction bs) (simp_all add: toHex_def)

lemma fromHex_toHex [simp]: "fromHex (toHex bs) (length bs) = Some bs"
proof -
  have "fromHex_pairs (toHex bs) = Some bs"
  proof (induction bs)
    case (Cons b bs)
    then show ?case
      using byte_of_nibbles [of b] by (simp add: toHex_def nibble_hex_digit_word)
  qed (simp add: toHex_def)
  then show ?thesis by (simp add: fromHex_def)
qed

lemma toHex_inject: "toHex a = toHex b \<longleftrightarrow> a = b"
proof
  assume eq: "toHex a = toHex b"
  then have "length a = length b" by (metis length_toHex mult_cancel1 zero_neq_numeral)
  with eq show "a = b" by (metis fromHex_toHex option.inject)
qed simp

lemma fromHex_pairs_length:
  "fromHex_pairs t = Some bs \<Longrightarrow> even (length t) \<Longrightarrow> length t = 2 * length bs"
  by (induction t arbitrary: bs rule: fromHex_pairs.induct) (auto split: option.splits)

lemma fromHex_length: "fromHex t n = Some bs \<Longrightarrow> length bs = n"
  using fromHex_pairs_length [of t bs] by (auto simp: fromHex_def split: if_splits)

subsection \<open>Properties\<close>

text \<open>
  the incremental SHA-256 hasher computes the hash of the concatenation of everything it was
  fed, whatever the sizes of the pieces: the result is that of padding the whole message at once and
  compressing it block by block, and the one-shot function agrees.
\<close>

theorem sha256_streaming:
  "Sha256_finish (foldl Sha256_update Sha256_init chunks) = sha256_spec (concat chunks)
   \<and> sha256 (concat chunks) = sha256_spec (concat chunks)"
  by (simp add: Sha256_stream_correct sha256_eq_spec)

text \<open>
  the keyed tag is HMAC-SHA-256 as RFC 2104 defines it, and the comparison that checks a tag
  accepts exactly equal byte strings.
\<close>

theorem hmac_and_comparison:
  "hmacSha256 key message =
     sha256_spec (map (\<lambda>b. b XOR 0x5c) (hmac_normalise key)
       @ sha256_spec (map (\<lambda>b. b XOR 0x36) (hmac_normalise key) @ message))
   \<and> constantTimeEquals x y = (x = y)"
  by (simp add: hmacSha256_rfc2104 constantTimeEquals_iff)

text \<open>
  the table-driven CRC32C is bitwise polynomial division, byte by byte, and replacing any one
  byte of the data by a different one changes the checksum.
\<close>

theorem crc32c_detects_one_byte:
  assumes "i < length data" and "b \<noteq> data ! i"
  shows "crc32c (data[i := b]) \<noteq> crc32c data \<and> crc32c_byte crc v = (crc_bit ^^ 8) (crc XOR ucast v)"
proof -
  have "crc32c (take i data @ b # drop (Suc i) data) \<noteq> crc32c (take i data @ data ! i # drop (Suc i) data)"
    by (rule crc32c_one_byte_change [OF assms(2)])
  then show ?thesis
    using assms(1) by (simp add: upd_conv_take_nth_drop id_take_nth_drop [symmetric] crc32c_byte_bitwise)
qed

theorem crc32c_detects_one_byte_witness:
  "crc32c [1, 9, 3] \<noteq> crc32c [1, 2, 3] \<and> crc32c_byte 0 7 = (crc_bit ^^ 8) (0 XOR ucast (7 :: byte))"
  using crc32c_detects_one_byte [of 1 "[1, 2, 3]" 9 0 7] by simp

text \<open>
  hexadecimal rendering loses nothing. Parsing the rendering of a byte string at its own length
  gives the bytes back, and two byte strings render alike only when they are equal.
\<close>

theorem hex_roundtrip:
  "fromHex (toHex bs) (length bs) = Some bs \<and> (toHex bs = toHex cs) = (bs = cs)"
  by (simp add: toHex_inject)

end
