(* ===== verification/Ids.thy ===== *)
theory Ids
  imports Hash
begin

text \<open>
  Domain identity: \<^verbatim>\<open>include/cf/ids.hpp\<close>, \<^verbatim>\<open>include/cf/strong.hpp\<close>, \<^verbatim>\<open>include/cf/digest.hpp\<close> and
  \<^verbatim>\<open>src/ids.cpp\<close>. A strong string is its text and a strong integer its word; the C++ tags only
  keep the types apart at compile time and have no run-time effect. The empty string and the
  word 0 are the unset values. Identities are derived from SHA-256 over a separated transcript;
  the lemmas show that the transcript determines its components and that a derived identity is
  itself a legal identifier.
\<close>

type_synonym TargetId = string
type_synonym ConfigKey = string
type_synonym ArtifactId = string
type_synonym DeploymentSetId = string
type_synonym DeploymentId = string
type_synonym NodeId = string
type_synonym SchemaId = string
type_synonym RolloutSetId = string

type_synonym Generation = u64
type_synonym Epoch = u64
type_synonym Revision = u64
type_synonym Sequence = u64
type_synonym AttemptId = u64
type_synonym SchemaVersion = u32
type_synonym StreamId = u64
type_synonym Term = u64

type_synonym IncarnationId = bytes
type_synonym SessionNonce = bytes
type_synonym Digest = bytes

subsection \<open>Strong values\<close>

definition uint_isSet :: "'a::len word \<Rightarrow> bool" where
  "uint_isSet v \<longleftrightarrow> v \<noteq> 0"

definition string_isSet :: "string \<Rightarrow> bool" where
  "string_isSet s \<longleftrightarrow> s \<noteq> []"

definition unset_opaque :: bytes where
  "unset_opaque = replicate 16 0"

definition unset_digest :: Digest where
  "unset_digest = replicate 32 0"

definition OpaqueIdentity_isSet :: "bytes \<Rightarrow> bool" where
  "OpaqueIdentity_isSet b \<longleftrightarrow> list_ex (\<lambda>x. x \<noteq> 0) b"

definition OpaqueIdentity_parse :: "string \<Rightarrow> bytes result" where
  "OpaqueIdentity_parse hex =
     (case fromHex hex 16 of None \<Rightarrow> Inl MalformedInput | Some b \<Rightarrow> Inr b)"

subsection \<open>Identifiers\<close>

definition kMaxIdentifierLength :: nat where
  "kMaxIdentifierLength = 128"

definition identifier_char :: "char \<Rightarrow> bool" where
  "identifier_char c \<longleftrightarrow>
     (CHR ''0'' \<le> c \<and> c \<le> CHR ''9'') \<or> (CHR ''A'' \<le> c \<and> c \<le> CHR ''Z'')
     \<or> (CHR ''a'' \<le> c \<and> c \<le> CHR ''z'')
     \<or> c = CHR ''.'' \<or> c = CHR ''_'' \<or> c = CHR ''-'' \<or> c = CHR '':'' \<or> c = CHR ''/''"

definition isValidIdentifier :: "string \<Rightarrow> bool" where
  "isValidIdentifier text \<longleftrightarrow>
     (if text = [] \<or> length text > kMaxIdentifierLength then False
      else if hd text = CHR ''-'' then False
      else list_all identifier_char text)"

text \<open>\<^verbatim>\<open>parseId\<close>, the one body behind every \<^verbatim>\<open>parseTargetId\<close>, \<^verbatim>\<open>parseConfigKey\<close>, ... of the sources.\<close>

definition parseId :: "string \<Rightarrow> string result" where
  "parseId text =
     (if text = [] then Inl MissingField
      else if \<not> isValidIdentifier text then Inl InvalidArgument
      else Inr text)"

subsection \<open>Enumerations\<close>

datatype TargetClass = Unspecified | NetworkDevice | ControlPlaneParticipant

datatype ApplyGuarantee = AtomicActivate | PrepareCommitAbort

datatype GuaranteeRequirement = RequireAtomic | AllowPrepareCommit

primrec targetClassValue :: "TargetClass \<Rightarrow> byte" where
  "targetClassValue Unspecified = 0"
| "targetClassValue NetworkDevice = 1"
| "targetClassValue ControlPlaneParticipant = 2"

primrec applyGuaranteeValue :: "ApplyGuarantee \<Rightarrow> byte" where
  "applyGuaranteeValue AtomicActivate = 1"
| "applyGuaranteeValue PrepareCommitAbort = 2"

primrec guaranteeRequirementValue :: "GuaranteeRequirement \<Rightarrow> byte" where
  "guaranteeRequirementValue RequireAtomic = 1"
| "guaranteeRequirementValue AllowPrepareCommit = 2"

primrec targetClassName :: "TargetClass \<Rightarrow> string" where
  "targetClassName Unspecified = ''unspecified''"
| "targetClassName NetworkDevice = ''network-device''"
| "targetClassName ControlPlaneParticipant = ''control-plane-participant''"

definition parseTargetClass :: "string \<Rightarrow> TargetClass option" where
  "parseTargetClass text =
     (if text = ''network-device'' then Some NetworkDevice
      else if text = ''control-plane-participant'' then Some ControlPlaneParticipant
      else if text = ''unspecified'' then Some Unspecified
      else None)"

primrec applyGuaranteeName :: "ApplyGuarantee \<Rightarrow> string" where
  "applyGuaranteeName AtomicActivate = ''atomic-activate''"
| "applyGuaranteeName PrepareCommitAbort = ''prepare-commit-abort''"

definition parseApplyGuarantee :: "string \<Rightarrow> ApplyGuarantee option" where
  "parseApplyGuarantee text =
     (if text = ''atomic-activate'' then Some AtomicActivate
      else if text = ''prepare-commit-abort'' then Some PrepareCommitAbort
      else None)"

primrec guaranteeRequirementName :: "GuaranteeRequirement \<Rightarrow> string" where
  "guaranteeRequirementName RequireAtomic = ''require-atomic''"
| "guaranteeRequirementName AllowPrepareCommit = ''allow-prepare-commit''"

definition parseGuaranteeRequirement :: "string \<Rightarrow> GuaranteeRequirement option" where
  "parseGuaranteeRequirement text =
     (if text = ''require-atomic'' then Some RequireAtomic
      else if text = ''allow-prepare-commit'' then Some AllowPrepareCommit
      else None)"

fun guaranteeSatisfies :: "ApplyGuarantee \<Rightarrow> GuaranteeRequirement \<Rightarrow> bool" where
  "guaranteeSatisfies offered RequireAtomic = (offered = AtomicActivate)"
| "guaranteeSatisfies offered AllowPrepareCommit =
     (offered = AtomicActivate \<or> offered = PrepareCommitAbort)"

subsection \<open>Digests\<close>

definition Digest_hex :: "Digest \<Rightarrow> string" where
  "Digest_hex d = toHex d"

definition Digest_parse :: "string \<Rightarrow> Digest result" where
  "Digest_parse hex =
     (if length hex \<noteq> 64 then Inl MalformedInput
      else case fromHex hex 32 of None \<Rightarrow> Inl MalformedInput | Some b \<Rightarrow> Inr b)"

definition Digest_ofContent :: "bytes \<Rightarrow> Digest" where
  "Digest_ofContent content = sha256 content"

definition Digest_ofText :: "string \<Rightarrow> Digest" where
  "Digest_ofText t = sha256 (map of_char t)"

definition Digest_isSet :: "Digest \<Rightarrow> bool" where
  "Digest_isSet d \<longleftrightarrow> list_ex (\<lambda>x. x \<noteq> 0) d"

definition shortDigest :: "Digest \<Rightarrow> string" where
  "shortDigest d = take 12 (Digest_hex d)"

subsection \<open>Derived identities\<close>

definition deployment_transcript ::
  "TargetId \<Rightarrow> ConfigKey \<Rightarrow> Generation \<Rightarrow> Digest \<Rightarrow> string" where
  "deployment_transcript target key generation digest =
     ''CF-DEPLOY-V1|'' @ target @ ''|'' @ key @ ''|'' @ to_string (unat generation) @ ''|''
     @ Digest_hex digest"

definition deriveDeploymentId ::
  "TargetId \<Rightarrow> ConfigKey \<Rightarrow> Generation \<Rightarrow> Digest \<Rightarrow> DeploymentId" where
  "deriveDeploymentId target key generation digest =
     toHex (take 16 (sha256 (map of_char (deployment_transcript target key generation digest))))"

definition stream_transcript :: "DeploymentId \<Rightarrow> AttemptId \<Rightarrow> string" where
  "stream_transcript deployment attempt =
     ''CF-STREAM-V1|'' @ deployment @ ''|'' @ to_string (unat attempt)"

definition deriveStreamId :: "DeploymentId \<Rightarrow> AttemptId \<Rightarrow> StreamId" where
  "deriveStreamId deployment attempt =
     le_load (take 8 (sha256 (map of_char (stream_transcript deployment attempt)))) OR 1"

subsection \<open>Lemmas\<close>

interpretation targetClasses: named_enum targetClassName parseTargetClass "\<lambda>_. True"
proof (unfold_locales, goal_cases)
  case (1 e)
  show ?case by (cases e) (simp_all add: parseTargetClass_def)
next
  case (2 s e)
  then show ?case by (auto simp: parseTargetClass_def split: if_splits)
qed

interpretation applyGuarantees: named_enum applyGuaranteeName parseApplyGuarantee "\<lambda>_. True"
proof (unfold_locales, goal_cases)
  case (1 e)
  show ?case by (cases e) (simp_all add: parseApplyGuarantee_def)
next
  case (2 s e)
  then show ?case by (auto simp: parseApplyGuarantee_def split: if_splits)
qed

interpretation guaranteeRequirements:
  named_enum guaranteeRequirementName parseGuaranteeRequirement "\<lambda>_. True"
proof (unfold_locales, goal_cases)
  case (1 e)
  show ?case by (cases e) (simp_all add: parseGuaranteeRequirement_def)
next
  case (2 s e)
  then show ?case by (auto simp: parseGuaranteeRequirement_def split: if_splits)
qed

lemma parseId_Inr_iff: "parseId t = Inr s \<longleftrightarrow> s = t \<and> isValidIdentifier t"
  by (auto simp: parseId_def isValidIdentifier_def)

lemma valid_identifier_length:
  "isValidIdentifier t \<Longrightarrow> 0 < length t \<and> length t \<le> kMaxIdentifierLength"
  by (auto simp: isValidIdentifier_def split: if_splits)

lemma valid_identifier_no_bar: "isValidIdentifier t \<Longrightarrow> CHR ''|'' \<notin> set t"
  by (auto simp: isValidIdentifier_def identifier_char_def list_all_iff less_eq_char_def
      split: if_splits)

lemma is_digit_identifier_char: "is_digit c \<Longrightarrow> identifier_char c"
  by (simp add: is_digit_def identifier_char_def)

lemma to_string_no_bar: "CHR ''|'' \<notin> set (to_string n)"
  using to_string_digits [of n] by (auto simp: list_all_iff is_digit_def less_eq_char_def)

text \<open>Splitting at a separator that neither prefix contains is unambiguous.\<close>

lemma separated_inject:
  assumes "c \<notin> set xs" and "c \<notin> set xs'"
  shows "xs @ c # ys = xs' @ c # ys' \<longleftrightarrow> xs = xs' \<and> ys = ys'"
  using assms by (auto simp: append_eq_append_conv2 append_eq_Cons_conv Cons_eq_append_conv)

lemma deployment_transcript_inject:
  assumes "isValidIdentifier t" and "isValidIdentifier t'"
    and "isValidIdentifier k" and "isValidIdentifier k'"
  shows "deployment_transcript t k g d = deployment_transcript t' k' g' d' \<longleftrightarrow>
           t = t' \<and> k = k' \<and> g = g' \<and> d = d'"
  by (auto simp: deployment_transcript_def separated_inject valid_identifier_no_bar assms
      to_string_no_bar Digest_hex_def toHex_inject word_unat_eq_iff)

lemma hex_digit_identifier_char: "identifier_char (hex_digit (b AND 0x0F))"
proof -
  have "list_all (\<lambda>n. identifier_char (hex_digit (of_nat n))) [0..<16]" by code_simp
  moreover have "unat (b AND 0x0F) < 16"
    using nibble_bounded [OF nibble_hex_digit_word] .
  ultimately show ?thesis
    by (metis atLeastLessThan_iff list_all_iff of_nat_unat set_upt ucast_id zero_le)
qed

lemma toHex_identifier_chars: "list_all identifier_char (toHex bs)"
  by (induction bs) (simp_all add: toHex_def hex_digit_identifier_char)

lemma identifier_of_toHex:
  assumes "bs \<noteq> []" and "length bs \<le> 64"
  shows "isValidIdentifier (toHex bs)"
proof -
  obtain b bs' where bs: "bs = b # bs'" using assms(1) by (cases bs) auto
  have "nibble (hd (toHex bs)) = Some (unat (drop_bit 4 b AND 0x0F))"
    by (simp add: bs toHex_def nibble_hex_digit_word)
  then have "hd (toHex bs) \<noteq> CHR ''-''"
    by (auto simp: nibble_def less_eq_char_def split: if_splits)
  moreover have "length (toHex bs) \<le> 128" and "toHex bs \<noteq> []"
    using assms length_toHex [of bs] by (auto simp flip: length_greater_0_conv)
  ultimately show ?thesis
    using toHex_identifier_chars [of bs]
    by (simp add: isValidIdentifier_def kMaxIdentifierLength_def)
qed

lemma deriveDeploymentId_valid: "parseId (deriveDeploymentId t k g d) = Inr (deriveDeploymentId t k g d)"
  unfolding parseId_Inr_iff deriveDeploymentId_def
  using length_sha256 [of "map of_char (deployment_transcript t k g d)"]
  by (auto intro!: identifier_of_toHex simp del: length_sha256)

lemma deriveStreamId_set: "uint_isSet (deriveStreamId d a)"
proof -
  have "bit (deriveStreamId d a) 0" by (simp add: deriveStreamId_def bit_simps)
  then show ?thesis by (auto simp: uint_isSet_def)
qed

lemma Digest_parse_hex: "length d = 32 \<Longrightarrow> Digest_parse (Digest_hex d) = Inr d"
  using fromHex_toHex [of d] by (simp add: Digest_parse_def Digest_hex_def)

lemma Digest_parse_length: "Digest_parse t = Inr d \<Longrightarrow> length d = 32"
  by (auto simp: Digest_parse_def dest: fromHex_length split: if_splits option.splits)

subsection \<open>Properties\<close>

text \<open>
  the text a deployment identity is hashed from determines the deployment: for well-formed
  target and key names, two deployments have the same transcript only when target, key, generation
  and digest all agree. So two different deployments share an identity only through a hash collision.
\<close>

theorem deployment_transcript_determines:
  assumes "isValidIdentifier t" and "isValidIdentifier t'"
    and "isValidIdentifier k" and "isValidIdentifier k'"
  shows "deployment_transcript t k g d = deployment_transcript t' k' g' d' \<longleftrightarrow>
           t = t' \<and> k = k' \<and> g = g' \<and> d = d'"
  by (rule deployment_transcript_inject [OF assms])

theorem deployment_transcript_determines_witness:
  "deployment_transcript ''edge-1'' ''a/b'' 3 [1] \<noteq> deployment_transcript ''edge-1'' ''a'' 3 [1]"
proof -
  have "isValidIdentifier ''edge-1''" "isValidIdentifier ''a/b''" "isValidIdentifier ''a''" by code_simp+
  from deployment_transcript_determines [OF this(1) this(1) this(2) this(3), of 3 "[1]" 3 "[1]"]
  show ?thesis by simp
qed

text \<open>
  derived identities are usable. A derived deployment id is always a well-formed identifier, so
  the parser at the other end accepts it unchanged, and a derived stream id is never the reserved
  value 0 that the transfer messages refuse.
\<close>

theorem derived_identities_usable:
  "parseId (deriveDeploymentId t k g d) = Inr (deriveDeploymentId t k g d)
   \<and> uint_isSet (deriveStreamId (deriveDeploymentId t k g d) a)"
  by (simp add: deriveDeploymentId_valid deriveStreamId_set)

end
