(* ===== verification/Lifecycle.thy ===== *)
theory Lifecycle
  imports Ids
begin

text \<open>
  The delivery lifecycle of \<^verbatim>\<open>include/cf/lifecycle.hpp\<close> and \<^verbatim>\<open>src/lifecycle.cpp\<close>: the states, the
  transition table, the evidence kinds, the durable lifecycle event and \<^verbatim>\<open>applyTransition\<close>, the only
  operation that assigns a delivery state. The lemmas characterise the table as a relation,
  relate the state predicates to it, and bound every run of the machine by the number of times
  it leaves the failed state.
\<close>

subsection \<open>States\<close>

datatype DeliveryState =
    Prepared | Offered | Transferred | Verified | Staged | Applied | Acknowledged
  | Failed | Rejected | Retired

primrec deliveryStateValue :: "DeliveryState \<Rightarrow> byte" where
  "deliveryStateValue Prepared = 1"
| "deliveryStateValue Offered = 2"
| "deliveryStateValue Transferred = 3"
| "deliveryStateValue Verified = 4"
| "deliveryStateValue Staged = 5"
| "deliveryStateValue Applied = 6"
| "deliveryStateValue Acknowledged = 7"
| "deliveryStateValue Failed = 8"
| "deliveryStateValue Rejected = 9"
| "deliveryStateValue DeliveryState.Retired = 10"

definition allDeliveryStates :: "DeliveryState list" where
  "allDeliveryStates =
     [Prepared, Offered, Transferred, Verified, Staged, Applied,
      Acknowledged, Failed, Rejected, DeliveryState.Retired]"

definition kTransitions :: "bool list list" where
  "kTransitions = [
      [False, True , False, False, False, True , False, True , True , True , False],
      [False, False, True , False, False, True , False, True , True , True , False],
      [False, False, False, True , False, True , False, True , True , True , False],
      [False, False, False, False, True , True , False, True , True , True , False],
      [False, False, False, False, False, True , False, True , True , True , False],
      [False, False, False, False, False, False, True , True , False, True , False],
      [False, False, False, False, False, False, False, False, False, True , False],
      [True , False, False, False, False, True , False, False, True , True , False],
      [False, False, False, False, False, False, False, False, False, True , False],
      [False, False, False, False, False, False, False, False, False, False, False],
      [False, False, False, False, False, False, False, False, False, False, False]]"

definition state_index :: "DeliveryState \<Rightarrow> nat" where
  "state_index state = unat (deliveryStateValue state) - 1"

primrec deliveryStateName :: "DeliveryState \<Rightarrow> string" where
  "deliveryStateName Prepared = ''prepared''"
| "deliveryStateName Offered = ''offered''"
| "deliveryStateName Transferred = ''transferred''"
| "deliveryStateName Verified = ''verified''"
| "deliveryStateName Staged = ''staged''"
| "deliveryStateName Applied = ''applied''"
| "deliveryStateName Acknowledged = ''acknowledged''"
| "deliveryStateName Failed = ''failed''"
| "deliveryStateName Rejected = ''rejected''"
| "deliveryStateName DeliveryState.Retired = ''retired''"

definition parseDeliveryState :: "string \<Rightarrow> DeliveryState option" where
  "parseDeliveryState text = lookup_name deliveryStateName allDeliveryStates text"

primrec deliveryStateRank :: "DeliveryState \<Rightarrow> nat" where
  "deliveryStateRank Prepared = 0"
| "deliveryStateRank Offered = 1"
| "deliveryStateRank Transferred = 2"
| "deliveryStateRank Verified = 3"
| "deliveryStateRank Staged = 4"
| "deliveryStateRank Applied = 5"
| "deliveryStateRank Acknowledged = 6"
| "deliveryStateRank Failed = 7"
| "deliveryStateRank Rejected = 8"
| "deliveryStateRank DeliveryState.Retired = 9"

definition isActivationState :: "DeliveryState \<Rightarrow> bool" where
  "isActivationState state \<longleftrightarrow> state = Applied \<or> state = Acknowledged"

definition isTerminalState :: "DeliveryState \<Rightarrow> bool" where
  "isTerminalState state \<longleftrightarrow>
     state = Acknowledged \<or> state = Rejected \<or> state = DeliveryState.Retired"

definition isPendingState :: "DeliveryState \<Rightarrow> bool" where
  "isPendingState state \<longleftrightarrow>
     state = Prepared \<or> state = Offered \<or> state = Transferred \<or> state = Verified
     \<or> state = Staged \<or> state = Applied \<or> state = Failed"

definition isLegalTransition :: "DeliveryState \<Rightarrow> DeliveryState \<Rightarrow> bool" where
  "isLegalTransition from to \<longleftrightarrow>
     (if state_index from \<ge> length kTransitions \<or> state_index to \<ge> length (kTransitions ! 0) then False
      else kTransitions ! state_index from ! state_index to)"

definition renderTransitionTable :: string where
  "renderTransitionTable =
     ''configuration-fabric delivery lifecycle\<newline>'' @ ''states:''
     @ concat (map (\<lambda>s. '' '' @ deliveryStateName s) allDeliveryStates) @ ''\<newline>''
     @ concat (map (\<lambda>from.
         ''  '' @ deliveryStateName from @ '' ->''
         @ (let targets = filter (isLegalTransition from) allDeliveryStates
            in if targets = [] then '' (terminal)''
               else concat (map (\<lambda>to. '' '' @ deliveryStateName to) targets))
         @ ''\<newline>'') allDeliveryStates)"

subsection \<open>Evidence and events\<close>

datatype EvidenceKind =
    Created | OfferedToTarget | BytesAccepted | DigestVerified | StagedAtTarget | ApplyPrepared
  | ActivationReported | AcknowledgementRecorded | ReconcileObserved | FailureReported | Refused | Superseded | Retried

primrec evidenceKindValue :: "EvidenceKind \<Rightarrow> byte" where
  "evidenceKindValue Created = 1"
| "evidenceKindValue OfferedToTarget = 2"
| "evidenceKindValue BytesAccepted = 3"
| "evidenceKindValue DigestVerified = 4"
| "evidenceKindValue StagedAtTarget = 5"
| "evidenceKindValue ApplyPrepared = 6"
| "evidenceKindValue ActivationReported = 7"
| "evidenceKindValue AcknowledgementRecorded = 8"
| "evidenceKindValue ReconcileObserved = 9"
| "evidenceKindValue FailureReported = 10"
| "evidenceKindValue Refused = 11"
| "evidenceKindValue Superseded = 12"
| "evidenceKindValue Retried = 13"

definition allEvidenceKinds :: "EvidenceKind list" where
  "allEvidenceKinds =
     [Created, OfferedToTarget, BytesAccepted, DigestVerified, StagedAtTarget, ApplyPrepared,
      ActivationReported, AcknowledgementRecorded, ReconcileObserved, FailureReported, Refused, Superseded, Retried]"

primrec evidenceKindName :: "EvidenceKind \<Rightarrow> string" where
  "evidenceKindName Created = ''created''"
| "evidenceKindName OfferedToTarget = ''offered-to-target''"
| "evidenceKindName BytesAccepted = ''bytes-accepted''"
| "evidenceKindName DigestVerified = ''digest-verified''"
| "evidenceKindName StagedAtTarget = ''staged-at-target''"
| "evidenceKindName ApplyPrepared = ''apply-prepared''"
| "evidenceKindName ActivationReported = ''activation-reported''"
| "evidenceKindName AcknowledgementRecorded = ''acknowledgement-recorded''"
| "evidenceKindName ReconcileObserved = ''reconcile-observed''"
| "evidenceKindName FailureReported = ''failure-reported''"
| "evidenceKindName Refused = ''refused''"
| "evidenceKindName Superseded = ''superseded''"
| "evidenceKindName Retried = ''retried''"

definition parseEvidenceKind :: "string \<Rightarrow> EvidenceKind option" where
  "parseEvidenceKind text = lookup_name evidenceKindName allEvidenceKinds text"

record LifecycleEvent =
  ev_kind :: EvidenceKind
  ev_from :: DeliveryState
  ev_to :: DeliveryState
  ev_generation :: Generation
  ev_digest :: Digest
  ev_code :: ErrorCode
  ev_directive :: RetryDirective
  ev_authorityEpoch :: Epoch
  ev_authorityIncarnation :: IncarnationId
  ev_targetTerm :: Term
  ev_targetIncarnation :: IncarnationId
  ev_fromReconciliation :: bool
  ev_atMillis :: int
  ev_detail :: string

definition LifecycleEvent_render :: "LifecycleEvent \<Rightarrow> string" where
  "LifecycleEvent_render e =
     evidenceKindName (ev_kind e) @ '' '' @ deliveryStateName (ev_from e) @ ''->''
     @ deliveryStateName (ev_to e) @ '' gen='' @ to_string (unat (ev_generation e))
     @ '' digest='' @ shortDigest (ev_digest e)
     @ (if ev_code e \<noteq> Ok then '' code='' @ errorCodeName (ev_code e) else [])
     @ '' epoch='' @ to_string (unat (ev_authorityEpoch e))
     @ (if OpaqueIdentity_isSet (ev_authorityIncarnation e)
        then '' inc='' @ take 8 (toHex (ev_authorityIncarnation e)) else [])
     @ (if uint_isSet (ev_targetTerm e) then '' term='' @ to_string (unat (ev_targetTerm e)) else [])
     @ (if OpaqueIdentity_isSet (ev_targetIncarnation e)
        then '' target-inc='' @ take 8 (toHex (ev_targetIncarnation e)) else [])
     @ (if ev_fromReconciliation e then '' evidence=reconciliation'' else [])
     @ (if ev_detail e \<noteq> [] then '' detail='' @ ev_detail e else [])"

definition applyTransition :: "DeliveryState \<Rightarrow> DeliveryState \<Rightarrow> DeliveryState result" where
  "applyTransition from to =
     (if \<not> isLegalTransition from to then Inl IllegalTransition else Inr to)"

subsection \<open>Runs of the machine\<close>

text \<open>
  A delivery record changes state by a sequence of \<^verbatim>\<open>applyTransition\<close> calls, each starting from
  the state the last one returned; the first refusal stops it.
\<close>

fun runTransitions :: "DeliveryState \<Rightarrow> DeliveryState list \<Rightarrow> DeliveryState result" where
  "runTransitions s [] = Inr s"
| "runTransitions s (t # ts) = cf_try (applyTransition s t) (\<lambda>s'. runTransitions s' ts)"

subsection \<open>The table as a relation\<close>

inductive transition :: "DeliveryState \<Rightarrow> DeliveryState \<Rightarrow> bool" where
  offer: "transition Prepared Offered"
| transfer: "transition Offered Transferred"
| verify: "transition Transferred Verified"
| stage: "transition Verified Staged"
| activate: "s \<in> {Prepared, Offered, Transferred, Verified, Staged, Failed} \<Longrightarrow> transition s Applied"
| acknowledge: "transition Applied Acknowledged"
| fail: "s \<in> {Prepared, Offered, Transferred, Verified, Staged, Applied} \<Longrightarrow> transition s Failed"
| reject: "s \<in> {Prepared, Offered, Transferred, Verified, Staged, Failed} \<Longrightarrow> transition s Rejected"
| retry: "transition Failed Prepared"
| retire: "s \<noteq> DeliveryState.Retired \<Longrightarrow> transition s DeliveryState.Retired"

inductive_simps transition_simps: "transition s t"

lemma state_index_bound: "state_index s < 10"
  by (cases s) (simp_all add: state_index_def)

lemma kTransitions_row: "isLegalTransition s t = kTransitions ! state_index s ! state_index t"
  using state_index_bound [of s] state_index_bound [of t]
  by (simp add: isLegalTransition_def kTransitions_def)

lemma isLegalTransition_iff: "isLegalTransition s t \<longleftrightarrow> transition s t"
  by (cases s; cases t)
    (simp_all add: kTransitions_row kTransitions_def state_index_def transition_simps)

lemma applyTransition_iff: "applyTransition s t = Inr u \<longleftrightarrow> transition s t \<and> u = t"
  by (auto simp: applyTransition_def isLegalTransition_iff)

lemma runTransitions_append:
  "runTransitions s (xs @ ys) = cf_try (runTransitions s xs) (\<lambda>s'. runTransitions s' ys)"
  by (induction xs arbitrary: s) (simp_all add: cf_try_assoc)

lemma rank_increases: "transition s t \<Longrightarrow> s \<noteq> Failed \<Longrightarrow> deliveryStateRank s < deliveryStateRank t"
  by (cases s; cases t) (auto simp: transition_simps)

lemma deliveryStateRank_le: "deliveryStateRank s \<le> 9"
  by (cases s) simp_all

text \<open>The states a run passes through before its last step.\<close>

lemma run_length_bound:
  "runTransitions s ts = Inr u \<Longrightarrow>
     length ts + deliveryStateRank s \<le> deliveryStateRank u + 8 * count_list (butlast (s # ts)) Failed"
proof (induction ts arbitrary: s)
  case Nil
  then show ?case by simp
next
  case (Cons t ts)
  then have step: "transition s t" and rest: "runTransitions t ts = Inr u"
    by (auto simp: result_simps applyTransition_iff)
  from Cons.IH [OF rest] rank_increases [OF step] deliveryStateRank_le [of t] show ?case
    by (cases "s = Failed") auto
qed

lemma allDeliveryStates_complete: "s \<in> set allDeliveryStates"
  by (cases s) (simp_all add: allDeliveryStates_def)

lemma allEvidenceKinds_complete: "k \<in> set allEvidenceKinds"
  by (cases k) (simp_all add: allEvidenceKinds_def)

interpretation deliveryStates: named_enum deliveryStateName parseDeliveryState "\<lambda>_. True"
proof -
  have "distinct (map deliveryStateName allDeliveryStates)" by code_simp
  then show "named_enum deliveryStateName parseDeliveryState (\<lambda>_. True)"
    by unfold_locales
      (auto simp: parseDeliveryState_def lookup_name_mem allDeliveryStates_complete
        dest: lookup_name_Some)
qed

interpretation evidenceKinds: named_enum evidenceKindName parseEvidenceKind "\<lambda>_. True"
proof -
  have "distinct (map evidenceKindName allEvidenceKinds)" by code_simp
  then show "named_enum evidenceKindName parseEvidenceKind (\<lambda>_. True)"
    by unfold_locales
      (auto simp: parseEvidenceKind_def lookup_name_mem allEvidenceKinds_complete
        dest: lookup_name_Some)
qed

subsection \<open>Properties\<close>

text \<open>
  the transition table of the sources is the delivery life cycle, entry by entry, and a state
  is terminal exactly when retirement is the only way out of it (or there is none).
\<close>

theorem transition_table_exact:
  "isLegalTransition s t = transition s t
   \<and> isTerminalState s = (\<forall>u. isLegalTransition s u = (u = DeliveryState.Retired \<and> s \<noteq> DeliveryState.Retired))
   \<and> isPendingState s = (\<not> isTerminalState s)"
proof -
  have "isTerminalState s = (\<forall>u. transition s u = (u = DeliveryState.Retired \<and> s \<noteq> DeliveryState.Retired))"
    by (cases s) (auto simp: isTerminalState_def transition_simps)
  moreover have "isPendingState s = (\<not> isTerminalState s)"
    by (cases s) (simp_all add: isPendingState_def isTerminalState_def)
  ultimately show ?thesis by (simp add: isLegalTransition_iff)
qed

text \<open>
  C36: an acknowledgement is never recorded without the activation it acknowledges. Whatever legal
  transitions a delivery goes through, the one before Acknowledged entered Applied.
\<close>

theorem acknowledged_only_after_applied:
  assumes "runTransitions Prepared (ts @ [Acknowledged]) = Inr u"
  shows "\<exists>us. ts = us @ [Applied]"
proof -
  from assms obtain v where v: "runTransitions Prepared ts = Inr v" and "transition v Acknowledged"
    by (auto simp: runTransitions_append result_simps applyTransition_iff)
  then have "v = Applied" by (simp add: transition_simps)
  with v show ?thesis
    by (cases ts rule: rev_cases) (auto simp: runTransitions_append result_simps applyTransition_iff)
qed

theorem acknowledged_only_after_applied_witness:
  "runTransitions Prepared ([Offered, Transferred, Verified, Staged, Applied] @ [Acknowledged]) = Inr Acknowledged
   \<and> (\<exists>us. [Offered, Transferred, Verified, Staged, Applied] = us @ [Applied])"
proof -
  have r: "runTransitions Prepared ([Offered, Transferred, Verified, Staged, Applied] @ [Acknowledged]) = Inr Acknowledged"
    by code_simp
  with acknowledged_only_after_applied [OF r] show ?thesis by blast
qed

text \<open>
  C37: the number of transitions of any legal run is at most nine plus eight for every time the run
  leaves Failed before its end, whichever way it leaves it: back to Prepared (the retry) or straight to
  Applied, Rejected or Retired. Retries alone bound nothing: the run that goes from Applied to Failed and
  back is legal at any length and never enters Prepared.
\<close>

theorem lifecycle_runs_bounded:
  "(\<forall>s ts u. runTransitions s ts = Inr u \<longrightarrow> length ts \<le> 9 + 8 * count_list (butlast (s # ts)) Failed)
   \<and> runTransitions Applied (concat (replicate n [Failed, Applied])) = Inr Applied"
proof (intro conjI allI impI)
  fix s ts u
  assume "runTransitions s ts = Inr u"
  then show "length ts \<le> 9 + 8 * count_list (butlast (s # ts)) Failed"
    using run_length_bound [of s ts u] deliveryStateRank_le [of u] by linarith
next
  show "runTransitions Applied (concat (replicate n [Failed, Applied])) = Inr Applied"
    by (induction n) (simp_all add: runTransitions_append applyTransition_iff result_simps transition_simps)
qed

theorem lifecycle_runs_bounded_witness:
  "length [Failed, Prepared, Offered] \<le> 9 + 8 * count_list (butlast (Prepared # [Failed, Prepared, Offered])) Failed"
proof -
  have "runTransitions Prepared [Failed, Prepared, Offered] = Inr Offered" by code_simp
  with lifecycle_runs_bounded [of 0] show ?thesis by blast
qed

end
