(* ===== verification/Policy.thy ===== *)
theory Policy
  imports Lifecycle
begin

text \<open>
  The distribution policy of \<^verbatim>\<open>include/cf/policy.hpp\<close> and \<^verbatim>\<open>src/policy.cpp\<close>: the policy record and its
  validation, the bounded exponential backoff and the pure decision function \<^verbatim>\<open>decide\<close> with every
  guard in the order of the source, its reasons and its rejected alternatives. The lemmas give the
  closed form of the backoff and, for each action \<^verbatim>\<open>decide\<close> can choose, the exact guards under which
  it is chosen.
\<close>

subsection \<open>The policy record\<close>

record DistributorPolicy =
  maxAttempts :: u32
  retryBackoffMillis :: int
  maxBackoffMillis :: int
  connectTimeoutMillis :: int
  sessionIdleTimeoutMillis :: int
  requestTimeoutMillis :: int
  maxTargets :: nat
  maxLiveDeliveries :: nat
  maxHistoryPerLineage :: nat
  maxConcurrentSessions :: nat
  transferChunkBytes :: nat
  maxPayloadBytes :: u32
  requireAcknowledgement :: bool
  reconcileOnRestart :: bool
  maxReconcileFindings :: nat
  repairProbeMillis :: int
  sessionMinIntervalMillis :: int
  livenessFreshnessMillis :: int

definition defaultPolicy :: DistributorPolicy where
  "defaultPolicy =
     \<lparr>maxAttempts = 4, retryBackoffMillis = 200, maxBackoffMillis = 5000,
      connectTimeoutMillis = 5000, sessionIdleTimeoutMillis = 10000, requestTimeoutMillis = 10000,
      maxTargets = 1024, maxLiveDeliveries = 4096, maxHistoryPerLineage = 8,
      maxConcurrentSessions = 8, transferChunkBytes = 16384, maxPayloadBytes = 1048576,
      requireAcknowledgement = True, reconcileOnRestart = True, maxReconcileFindings = 64,
      repairProbeMillis = 2000, sessionMinIntervalMillis = 50, livenessFreshnessMillis = 15000\<rparr>"

definition DistributorPolicy_validate :: "DistributorPolicy \<Rightarrow> status" where
  "DistributorPolicy_validate p =
     fail_if (maxAttempts p = 0) InvalidArgument
     (fail_if (maxConcurrentSessions p = 0) InvalidArgument
     (fail_if (maxTargets p = 0 \<or> maxLiveDeliveries p = 0) InvalidArgument
     (fail_if (transferChunkBytes p = 0) InvalidArgument
     (fail_if (transferChunkBytes p > unat (maxPayloadBytes p)) InvalidArgument
     (fail_if (retryBackoffMillis p < 0 \<or> maxBackoffMillis p < retryBackoffMillis p) InvalidArgument
     (fail_if (connectTimeoutMillis p \<le> 0 \<or> sessionIdleTimeoutMillis p \<le> 0
               \<or> requestTimeoutMillis p \<le> 0) InvalidArgument
     (fail_if (livenessFreshnessMillis p \<le> 0) InvalidArgument
     (fail_if (maxHistoryPerLineage p = 0) InvalidArgument
     (fail_if (repairProbeMillis p \<le> 0 \<or> sessionMinIntervalMillis p \<le> 0) InvalidArgument
     (Inr ()))))))))))"

text \<open>\<^verbatim>\<open>std::to_string\<close> on a signed value.\<close>

definition to_string_int :: "int \<Rightarrow> string" where
  "to_string_int v = (if v < 0 then ''-'' @ to_string (nat (- v)) else to_string (nat v))"

definition policy_line :: "string \<Rightarrow> int \<Rightarrow> string" where
  "policy_line key v = ''  '' @ key @ '' = '' @ to_string_int v @ ''\<newline>''"

definition DistributorPolicy_render :: "DistributorPolicy \<Rightarrow> string" where
  "DistributorPolicy_render p =
     ''policy:\<newline>''
     @ policy_line ''max-attempts'' (uint (maxAttempts p))
     @ policy_line ''retry-backoff-ms'' (retryBackoffMillis p)
     @ policy_line ''max-backoff-ms'' (maxBackoffMillis p)
     @ policy_line ''connect-timeout-ms'' (connectTimeoutMillis p)
     @ policy_line ''session-idle-timeout-ms'' (sessionIdleTimeoutMillis p)
     @ policy_line ''request-timeout-ms'' (requestTimeoutMillis p)
     @ policy_line ''max-targets'' (int (maxTargets p))
     @ policy_line ''max-live-deliveries'' (int (maxLiveDeliveries p))
     @ policy_line ''max-history-per-lineage'' (int (maxHistoryPerLineage p))
     @ policy_line ''max-concurrent-sessions'' (int (maxConcurrentSessions p))
     @ policy_line ''transfer-chunk-bytes'' (int (transferChunkBytes p))
     @ policy_line ''max-payload-bytes'' (uint (maxPayloadBytes p))
     @ policy_line ''liveness-freshness-ms'' (livenessFreshnessMillis p)
     @ policy_line ''repair-probe-ms'' (repairProbeMillis p)
     @ policy_line ''session-min-interval-ms'' (sessionMinIntervalMillis p)
     @ ''  require-acknowledgement = '' @ (if requireAcknowledgement p then ''true'' else ''false'')
     @ ''\<newline>''
     @ ''  reconcile-on-restart = '' @ (if reconcileOnRestart p then ''true'' else ''false'')
     @ ''\<newline>''"

subsection \<open>Backoff\<close>

fun backoff_loop :: "nat \<Rightarrow> u64 \<Rightarrow> u64 \<Rightarrow> u64" where
  "backoff_loop 0 ceiling delay = delay"
| "backoff_loop (Suc n) ceiling delay =
     (if delay \<ge> ceiling then delay
      else backoff_loop n ceiling (case checkedMul delay 2 of Some d \<Rightarrow> d | None \<Rightarrow> ceiling))"

definition backoffFor :: "DistributorPolicy \<Rightarrow> u32 \<Rightarrow> int" where
  "backoffFor p failures =
     (let ceiling = word_of_int (maxBackoffMillis p) :: u64;
          capped = (if failures > 16 then 16 else failures);
          delay = backoff_loop (unat capped) ceiling (word_of_int (retryBackoffMillis p))
      in sint (if delay > ceiling then ceiling else delay))"

subsection \<open>Actions, inputs and decisions\<close>

text \<open>\<open>NoAction\<close> is \<^verbatim>\<open>PolicyAction::None\<close>.\<close>

datatype PolicyAction =
    NoAction | Offer | ResumeTransfer | Activate | Reconcile | Wait | RecordFailureAndRetry
  | Reject | GiveUp | Retire

definition allPolicyActions :: "PolicyAction list" where
  "allPolicyActions =
     [NoAction, Offer, ResumeTransfer, Activate, Reconcile, Wait, RecordFailureAndRetry,
      Reject, GiveUp, Retire]"

primrec policyActionName :: "PolicyAction \<Rightarrow> string" where
  "policyActionName NoAction = ''none''"
| "policyActionName Offer = ''offer''"
| "policyActionName ResumeTransfer = ''resume-transfer''"
| "policyActionName Activate = ''activate''"
| "policyActionName Reconcile = ''reconcile''"
| "policyActionName Wait = ''wait''"
| "policyActionName RecordFailureAndRetry = ''record-failure-and-retry''"
| "policyActionName Reject = ''reject''"
| "policyActionName GiveUp = ''give-up''"
| "policyActionName Retire = ''retire''"

definition parsePolicyAction :: "string \<Rightarrow> PolicyAction option" where
  "parsePolicyAction text = lookup_name policyActionName allPolicyActions text"

record DecisionInput =
  in_state :: DeliveryState
  in_failures :: u32
  in_attempt :: AttemptId
  in_targetGuarantee :: ApplyGuarantee
  in_requirement :: GuaranteeRequirement
  in_desiredGeneration :: Generation
  in_targetGeneration :: Generation
  in_desiredDigest :: Digest
  in_targetDigest :: Digest
  in_targetLive :: bool
  in_livenessEvidenceStale :: bool
  in_targetApplyPrepared :: bool
  in_artifactAvailable :: bool
  in_resumableTransfer :: bool
  in_supersededByNewerGeneration :: bool
  in_millisSinceLastAttempt :: int

record RejectedAlternative =
  alt_action :: PolicyAction
  alt_reason :: string

record Decision =
  dec_action :: PolicyAction
  dec_reason :: string
  dec_alternatives :: "RejectedAlternative list"
  dec_epoch :: Epoch
  dec_generation :: Generation
  dec_attempt :: AttemptId
  dec_retryAfterMillis :: int
  dec_terminal :: bool

definition rejected :: "PolicyAction \<Rightarrow> string \<Rightarrow> RejectedAlternative" where
  "rejected action reason = \<lparr>alt_action = action, alt_reason = reason\<rparr>"

text \<open>The fixed texts of the decision function.\<close>

definition alt_moved_past :: string where
  "alt_moved_past =
     ''offering would push a generation the target has already moved past''"

definition alt_stale_install :: string where
  "alt_stale_install =
     ''activation would install a stale generation over a newer one''"

definition alt_guarantee :: string where
  "alt_guarantee =
     ''the target cannot satisfy the required guarantee''"

definition alt_no_bytes :: string where
  "alt_no_bytes =
     ''the artifact bytes are not in the store''"

definition reason_no_bytes :: string where
  "reason_no_bytes =
     ''artifact for the desired digest is not present in the artifact store''"

definition alt_digest_unavailable :: string where
  "alt_digest_unavailable =
     ''digest is unavailable for distribution''"

definition reason_bytes_gone :: string where
  "reason_bytes_gone =
     ''artifact bytes are no longer available; the delivery cannot progress''"

definition alt_budget :: string where
  "alt_budget =
     ''retry budget is exhausted for this delivery''"

definition alt_terminal :: string where
  "alt_terminal =
     ''the delivery already reached a terminal state''"

definition alt_boundary_done :: string where
  "alt_boundary_done =
     ''the activation boundary already occurred''"

definition reason_confirm_ack :: string where
  "reason_confirm_ack =
     ''target reported activation; the acknowledgement boundary must be confirmed ''
     @ ''against current target authority before it can be recorded''"

definition reason_ack_not_required :: string where
  "reason_ack_not_required =
     ''acknowledgement is not required by policy''"

definition alt_backoff :: string where
  "alt_backoff =
     ''the retry backoff has not elapsed''"

definition reason_retry :: string where
  "reason_retry =
     ''retry budget remains and the backoff elapsed''"

definition alt_stale_liveness :: string where
  "alt_stale_liveness =
     ''persisted liveness evidence predates this process and is not fresh''"

definition alt_stale_resume :: string where
  "alt_stale_resume =
     ''resuming needs a fresh target report, not persisted evidence''"

definition reason_stale_contact :: string where
  "reason_stale_contact =
     ''target contact evidence is older than the freshness window; a live session ''
     @ ''must re-establish it before any state change is accepted''"

definition alt_window :: string where
  "alt_window =
     ''an unresolved prepare/commit window exists; committing blind could activate ''
     @ ''an unverified generation''"

definition reason_window :: string where
  "reason_window =
     ''target reported an unresolved prepare/commit window; its authoritative state ''
     @ ''must be resolved before the delivery continues''"

definition alt_not_live :: string where
  "alt_not_live =
     ''no fresh session evidence exists for the target''"

definition reason_not_live_stale :: string where
  "reason_not_live_stale =
     ''persisted contact evidence predates this process; a live session must ''
     @ ''re-establish it''"

definition reason_not_live :: string where
  "reason_not_live =
     ''target contact evidence is older than the freshness window; a live session ''
     @ ''must refresh it''"

definition reason_offer :: string where
  "reason_offer =
     ''artifact is available and the target is live''"

definition alt_has_bytes :: string where
  "alt_has_bytes =
     ''the target already holds bytes for this exact deployment''"

definition reason_resume :: string where
  "reason_resume =
     ''target reported partial bytes for this deployment; resume instead of ''
     @ ''restarting the transfer''"

definition reason_incomplete :: string where
  "reason_incomplete =
     ''transfer has not yet completed at the target''"

definition reason_activate :: string where
  "reason_activate =
     ''target holds a verified, staged artifact; activation is the next boundary''"

definition reason_none :: string where
  "reason_none =
     ''no action required''"

definition reason_stale :: "DecisionInput \<Rightarrow> string" where
  "reason_stale i =
     ''target is at generation '' @ to_string (unat (in_targetGeneration i))
     @ '' which is not older than the desired generation ''
     @ to_string (unat (in_desiredGeneration i))"

definition reason_guarantee :: "DecisionInput \<Rightarrow> string" where
  "reason_guarantee i =
     ''target offers guarantee '' @ [CHR 0x27] @ applyGuaranteeName (in_targetGuarantee i)
     @ [CHR 0x27] @ '' which does not satisfy requirement '' @ [CHR 0x27]
     @ guaranteeRequirementName (in_requirement i) @ [CHR 0x27]"

definition reason_terminal :: "DecisionInput \<Rightarrow> string" where
  "reason_terminal i =
     ''delivery is terminal in state '' @ [CHR 0x27] @ deliveryStateName (in_state i) @ [CHR 0x27]"

definition reason_budget :: "DistributorPolicy \<Rightarrow> DecisionInput \<Rightarrow> string" where
  "reason_budget p i =
     ''delivery failed '' @ to_string (unat (in_failures i))
     @ '' time(s), which exhausts the retry budget of '' @ to_string (unat (maxAttempts p))"

definition reason_wait :: "DecisionInput \<Rightarrow> string" where
  "reason_wait i =
     ''waiting out the retry backoff before attempt '' @ to_string (unat (in_attempt i + 1))"

subsection \<open>The decision function\<close>

text \<open>
  \<open>base\<close> is the decision after its authority fields are set; each branch fills in the rest the way
  the source does, and the branches stand in the order of the source.
\<close>

definition decide :: "DistributorPolicy \<Rightarrow> DecisionInput \<Rightarrow> Epoch \<Rightarrow> Generation \<Rightarrow> Decision" where
  "decide policy i epoch generation =
     (let base = \<lparr>dec_action = NoAction, dec_reason = [], dec_alternatives = [], dec_epoch = epoch,
                  dec_generation = generation, dec_attempt = in_attempt i,
                  dec_retryAfterMillis = 0, dec_terminal = False\<rparr>
      in
      if in_supersededByNewerGeneration i
         \<or> (uint_isSet (in_targetGeneration i) \<and> in_targetGeneration i > in_desiredGeneration i)
      then base\<lparr>dec_alternatives := [rejected Offer alt_moved_past, rejected Activate alt_stale_install],
                dec_action := Retire, dec_reason := reason_stale i, dec_terminal := True\<rparr>
      else if \<not> guaranteeSatisfies (in_targetGuarantee i) (in_requirement i)
      then base\<lparr>dec_alternatives := [rejected Offer alt_guarantee],
                dec_action := Reject, dec_reason := reason_guarantee i, dec_terminal := True\<rparr>
      else if \<not> in_artifactAvailable i
      then
        (if in_state i = Prepared
         then base\<lparr>dec_alternatives := [rejected Offer alt_no_bytes],
                   dec_action := Reject, dec_reason := reason_no_bytes, dec_terminal := True\<rparr>
         else
           (let exhausted = in_failures i \<ge> maxAttempts policy;
                d = base\<lparr>dec_alternatives := [rejected Offer alt_digest_unavailable],
                         dec_action := RecordFailureAndRetry, dec_reason := reason_bytes_gone,
                         dec_retryAfterMillis := backoffFor policy (in_failures i),
                         dec_terminal := exhausted\<rparr>
            in if exhausted
               then d\<lparr>dec_action := GiveUp,
                      dec_alternatives := dec_alternatives d @ [rejected RecordFailureAndRetry alt_budget]\<rparr>
               else d))
      else if isTerminalState (in_state i)
      then base\<lparr>dec_alternatives := [rejected Offer alt_terminal],
                dec_action := NoAction, dec_reason := reason_terminal i, dec_terminal := True\<rparr>
      else if in_state i = Applied
      then
        (if requireAcknowledgement policy
         then base\<lparr>dec_alternatives := [rejected Activate alt_boundary_done],
                   dec_action := Reconcile, dec_reason := reason_confirm_ack\<rparr>
         else base\<lparr>dec_action := NoAction, dec_reason := reason_ack_not_required,
                   dec_terminal := True\<rparr>)
      else if in_state i = Failed
      then
        (if in_failures i \<ge> maxAttempts policy
         then base\<lparr>dec_alternatives := [rejected RecordFailureAndRetry alt_budget],
                   dec_action := GiveUp, dec_reason := reason_budget policy i, dec_terminal := True\<rparr>
         else if in_millisSinceLastAttempt i < backoffFor policy (in_failures i)
         then base\<lparr>dec_alternatives := [rejected Offer alt_backoff],
                   dec_action := Wait, dec_reason := reason_wait i,
                   dec_retryAfterMillis :=
                     backoffFor policy (in_failures i) - in_millisSinceLastAttempt i\<rparr>
         else base\<lparr>dec_action := Offer, dec_reason := reason_retry\<rparr>)
      else if in_livenessEvidenceStale i
      then base\<lparr>dec_alternatives := [rejected Offer alt_stale_liveness, rejected ResumeTransfer alt_stale_resume],
                dec_action := Reconcile, dec_reason := reason_stale_contact\<rparr>
      else if in_targetApplyPrepared i
      then base\<lparr>dec_alternatives := [rejected Activate alt_window],
                dec_action := Reconcile, dec_reason := reason_window\<rparr>
      else if \<not> in_targetLive i
      then base\<lparr>dec_alternatives := [rejected Offer alt_not_live],
                dec_action := Reconcile,
                dec_reason := (if in_livenessEvidenceStale i then reason_not_live_stale else reason_not_live)\<rparr>
      else
        (case in_state i of
           Prepared \<Rightarrow> base\<lparr>dec_action := Offer, dec_reason := reason_offer\<rparr>
         | Offered \<Rightarrow>
             (if in_resumableTransfer i
              then base\<lparr>dec_alternatives := [rejected Offer alt_has_bytes],
                        dec_action := ResumeTransfer, dec_reason := reason_resume\<rparr>
              else base\<lparr>dec_action := Offer, dec_reason := reason_incomplete\<rparr>)
         | Transferred \<Rightarrow>
             (if in_resumableTransfer i
              then base\<lparr>dec_alternatives := [rejected Offer alt_has_bytes],
                        dec_action := ResumeTransfer, dec_reason := reason_resume\<rparr>
              else base\<lparr>dec_action := Offer, dec_reason := reason_incomplete\<rparr>)
         | Verified \<Rightarrow> base\<lparr>dec_action := Activate, dec_reason := reason_activate\<rparr>
         | Staged \<Rightarrow> base\<lparr>dec_action := Activate, dec_reason := reason_activate\<rparr>
         | _ \<Rightarrow> base\<lparr>dec_action := NoAction, dec_reason := reason_none, dec_terminal := True\<rparr>))"

definition Decision_render :: "Decision \<Rightarrow> DistributorPolicy \<Rightarrow> string" where
  "Decision_render d policy =
     ''decision:\<newline>''
     @ ''  action = '' @ policyActionName (dec_action d) @ ''\<newline>''
     @ ''  reason = '' @ dec_reason d @ ''\<newline>''
     @ ''  authority-epoch = '' @ to_string (unat (dec_epoch d)) @ ''\<newline>''
     @ ''  generation = '' @ to_string (unat (dec_generation d)) @ ''\<newline>''
     @ ''  attempt = '' @ to_string (unat (dec_attempt d)) @ ''\<newline>''
     @ ''  terminal = '' @ (if dec_terminal d then ''true'' else ''false'') @ ''\<newline>''
     @ (if dec_retryAfterMillis d > 0
        then ''  retry-after-ms = '' @ to_string_int (dec_retryAfterMillis d) @ ''\<newline>'' else [])
     @ (if dec_alternatives d \<noteq> []
        then ''  rejected-alternatives:\<newline>''
          @ concat (map (\<lambda>a. ''    - '' @ policyActionName (alt_action a) @ '': '' @ alt_reason a
              @ ''\<newline>'') (dec_alternatives d))
        else [])
     @ DistributorPolicy_render policy"

subsection \<open>Lemmas\<close>

interpretation policyActions: named_enum policyActionName parsePolicyAction "\<lambda>_. True"
proof -
  have d: "distinct (map policyActionName allPolicyActions)" by code_simp
  have "a \<in> set allPolicyActions" for a
    by (cases a) (simp_all add: allPolicyActions_def)
  with d show "named_enum policyActionName parsePolicyAction (\<lambda>_. True)"
    by unfold_locales (auto simp: parsePolicyAction_def lookup_name_mem dest: lookup_name_Some)
qed

text \<open>
  The facts that \<^const>\<open>decide\<close> computes with, gathered once: unfold the decision, split every guard.
\<close>

lemmas decide_unfold = decide_def Let_def rejected_def isTerminalState_def

lemma decide_pushes_only_when:
  assumes "dec_action (decide p i e g) \<in> {Offer, ResumeTransfer, Activate}"
  shows "\<not> in_supersededByNewerGeneration i
    \<and> (in_targetGeneration i = 0 \<or> in_targetGeneration i \<le> in_desiredGeneration i)
    \<and> guaranteeSatisfies (in_targetGuarantee i) (in_requirement i)
    \<and> in_artifactAvailable i \<and> isPendingState (in_state i) \<and> in_state i \<noteq> Applied
    \<and> (in_state i = Failed \<longrightarrow>
         in_failures i < maxAttempts p \<and> backoffFor p (in_failures i) \<le> in_millisSinceLastAttempt i)
    \<and> (in_state i \<noteq> Failed \<longrightarrow>
         in_targetLive i \<and> \<not> in_livenessEvidenceStale i \<and> \<not> in_targetApplyPrepared i)"
  using assms
  by (cases "in_state i")
    (auto simp: decide_unfold isPendingState_def uint_isSet_def not_less not_le split: if_splits)

lemma decide_terminal_iff:
  "dec_terminal (decide p i e g) \<longleftrightarrow> dec_action (decide p i e g) \<in> {NoAction, Reject, GiveUp, Retire}"
  by (cases "in_state i") (simp_all add: decide_unfold)

lemma decide_action_not_rejected:
  "dec_action (decide p i e g) \<notin> alt_action ` set (dec_alternatives (decide p i e g))"
  by (cases "in_state i") (simp_all add: decide_unfold)

lemma decide_retire_iff:
  "dec_action (decide p i e g) = Retire \<longleftrightarrow>
     in_supersededByNewerGeneration i
     \<or> (in_targetGeneration i \<noteq> 0 \<and> in_desiredGeneration i < in_targetGeneration i)"
  by (cases "in_state i") (simp_all add: decide_unfold uint_isSet_def)

subsection \<open>The backoff in closed form\<close>

lemma backoff_loop_closed:
  "delay \<le> ceiling \<Longrightarrow> unat ceiling < 2 ^ 63 \<Longrightarrow>
     min (unat (backoff_loop n ceiling delay)) (unat ceiling) = min (unat delay * 2 ^ n) (unat ceiling)"
proof (induction n arbitrary: delay)
  case (Suc n)
  show ?case
  proof (cases "ceiling \<le> delay")
    case True
    then have "delay = ceiling" using Suc.prems(1) by simp
    moreover have "unat ceiling \<le> unat ceiling * 2 ^ Suc n" by simp
    ultimately show ?thesis by simp
  next
    case False
    then have lt: "unat delay < unat ceiling" by (simp add: word_less_nat_alt not_le)
    then have dbl: "checkedMul delay 2 = Some (delay * 2)" and ud: "unat (delay * 2) = unat delay * 2"
      using Suc.prems(2) by (simp_all add: checkedMul_exact unat_word_ariths)
    show ?thesis
    proof (cases "delay * 2 \<le> ceiling")
      case True
      from Suc.IH [OF this Suc.prems(2)] False dbl ud show ?thesis by (simp add: ac_simps)
    next
      case over: False
      then have "ceiling \<le> delay * 2" by simp
      then have "backoff_loop n ceiling (delay * 2) = delay * 2" by (cases n) simp_all
      moreover have big: "unat ceiling \<le> unat delay * 2"
        using \<open>ceiling \<le> delay * 2\<close> ud by (simp add: word_le_nat_alt)
      moreover have "unat ceiling \<le> unat delay * 2 ^ Suc n"
      proof -
        have "unat delay * 2 * 1 \<le> unat delay * 2 * 2 ^ n" by (rule mult_le_mono2) simp
        then show ?thesis using big by (simp only: power_Suc mult.assoc [symmetric] mult_1_right)
      qed
      ultimately have "min (unat (delay * 2)) (unat ceiling) = unat ceiling"
        and "min (unat delay * 2 ^ Suc n) (unat ceiling) = unat ceiling"
        using ud by (simp_all only: min.absorb2)
      with \<open>backoff_loop n ceiling (delay * 2) = delay * 2\<close> False dbl show ?thesis by simp
    qed
  qed
qed simp

lemma word_of_int_millis:
  "0 \<le> v \<Longrightarrow> i64_range v \<Longrightarrow> unat (word_of_int v :: u64) = nat v"
  by (simp add: i64_range_def unat_eq_nat_uint uint_word_of_int)

lemma sint_small_u64: "unat (w :: u64) < 2 ^ 63 \<Longrightarrow> sint w = int (unat w)"
proof -
  assume "unat w < 2 ^ 63"
  then have "int (unat w) < int (2 ^ 63)" by (simp only: of_nat_less_iff)
  then have "uint w < 2 ^ 63" by simp
  moreover have "- (2 ^ 63) \<le> uint w"
    using order_trans [OF _ uint_nonnegative [of w], of "- (2 ^ 63)"] by simp
  ultimately have "signed_take_bit 63 (uint w) = uint w" by (intro signed_take_bit_int_eq_self) simp_all
  then show ?thesis by (simp add: sint_uint)
qed

lemma unat_min_word: "unat (if d > c then c else d) = min (unat d) (unat c)" for d c :: u64
  by (simp add: min_def word_less_nat_alt)

lemma backoffFor_closed:
  assumes "0 \<le> retryBackoffMillis p" and "retryBackoffMillis p \<le> maxBackoffMillis p"
    and "i64_range (maxBackoffMillis p)"
  shows "backoffFor p failures =
    min (retryBackoffMillis p * 2 ^ min (unat failures) 16) (maxBackoffMillis p)"
proof -
  define c :: u64 where "c = word_of_int (maxBackoffMillis p)"
  define d :: u64 where "d = word_of_int (retryBackoffMillis p)"
  define n where "n = unat (if failures > 16 then 16 else failures)"
  have n: "n = min (unat failures) 16" by (simp add: n_def min_def word_less_nat_alt)
  have "i64_range (retryBackoffMillis p)" using assms by (simp add: i64_range_def)
  then have ud: "unat d = nat (retryBackoffMillis p)" and uc: "unat c = nat (maxBackoffMillis p)"
    using assms by (simp_all add: d_def c_def word_of_int_millis)
  have c63: "unat c < 2 ^ 63" using uc assms by (simp add: i64_range_def)
  have dc: "d \<le> c" using ud uc assms by (simp add: word_le_nat_alt)
  let ?b = "backoff_loop n c d"
  have m: "unat (if ?b > c then c else ?b) = min (unat d * 2 ^ n) (unat c)"
    unfolding unat_min_word by (rule backoff_loop_closed [OF dc c63])
  have "backoffFor p failures = sint (if ?b > c then c else ?b)"
    by (simp add: backoffFor_def Let_def c_def d_def n_def)
  also have "\<dots> = int (min (unat d * 2 ^ n) (unat c))"
    unfolding m [symmetric] by (rule sint_small_u64) (simp only: m min_less_iff_disj c63 simp_thms)
  also have "\<dots> = min (retryBackoffMillis p * 2 ^ n) (maxBackoffMillis p)"
    using assms by (simp add: ud uc of_nat_min)
  finally show ?thesis by (simp add: n)
qed

subsection \<open>Properties\<close>


definition example_input :: DecisionInput where
  "example_input =
     \<lparr>in_state = Staged, in_failures = 0, in_attempt = 1, in_targetGuarantee = AtomicActivate,
      in_requirement = RequireAtomic, in_desiredGeneration = 2, in_targetGeneration = 1,
      in_desiredDigest = replicate 32 7, in_targetDigest = replicate 32 5, in_targetLive = True,
      in_livenessEvidenceStale = False, in_targetApplyPrepared = False, in_artifactAvailable = True,
      in_resumableTransfer = False, in_supersededByNewerGeneration = False,
      in_millisSinceLastAttempt = 0\<rparr>"


text \<open>
  a decision is consistent with its own explanation. It is marked terminal exactly for the
  four actions that end a delivery's progress, the chosen action is never among the alternatives it
  lists as rejected, and retirement is chosen exactly when a newer generation has taken over.
\<close>

theorem decide_consistent:
  "dec_terminal (decide p i e g) = (dec_action (decide p i e g) \<in> {NoAction, Reject, GiveUp, Retire})
   \<and> dec_action (decide p i e g) \<notin> alt_action ` set (dec_alternatives (decide p i e g))
   \<and> (dec_action (decide p i e g) = Retire) =
       (in_supersededByNewerGeneration i
        \<or> (in_targetGeneration i \<noteq> 0 \<and> in_desiredGeneration i < in_targetGeneration i))"
  by (simp only: decide_terminal_iff decide_action_not_rejected decide_retire_iff simp_thms)

text \<open>
  the retry delay is bounded exponential backoff. Under a validated policy it is the base delay
  doubled once per failure, for at most sixteen failures, and never above the ceiling; so it never
  decreases as failures accumulate.
\<close>

theorem backoff_closed_form:
  assumes "DistributorPolicy_validate p = Inr ()" and "i64_range (maxBackoffMillis p)"
  shows "backoffFor p failures =
      min (retryBackoffMillis p * 2 ^ min (unat failures) 16) (maxBackoffMillis p)
    \<and> (failures \<le> later \<longrightarrow> backoffFor p failures \<le> backoffFor p later)"
proof -
  have ok: "0 \<le> retryBackoffMillis p" "retryBackoffMillis p \<le> maxBackoffMillis p"
    using assms(1) by (auto simp: DistributorPolicy_validate_def result_simps)
  have mono: "retryBackoffMillis p * 2 ^ min (unat failures) 16 \<le> retryBackoffMillis p * 2 ^ min (unat later) 16"
    if "failures \<le> later"
    using that ok(1) by (intro mult_left_mono power_increasing) (auto simp: word_le_nat_alt)
  show ?thesis
    unfolding backoffFor_closed [OF ok assms(2)] using mono by (auto intro: min.mono)
qed

theorem backoff_closed_form_witness:
  "backoffFor defaultPolicy 3 = 1600 \<and> backoffFor defaultPolicy 3 \<le> backoffFor defaultPolicy 40"
proof -
  have "DistributorPolicy_validate defaultPolicy = Inr ()"
    by (simp add: DistributorPolicy_validate_def defaultPolicy_def)
  moreover have "i64_range (maxBackoffMillis defaultPolicy)" by (simp add: defaultPolicy_def i64_range_def)
  ultimately show ?thesis
    using backoff_closed_form [of defaultPolicy 3 40] by (simp add: defaultPolicy_def)
qed

end
