(* ===== verification/Codec.thy ===== *)
theory Codec
  imports Lifecycle
begin

text \<open>
  The bounded binary codec of \<^verbatim>\<open>include/cf/codec.hpp\<close> and \<^verbatim>\<open>src/codec.cpp\<close>. A \<^verbatim>\<open>ByteWriter\<close> method is the
  byte string it appends; the one method with a contract, \<^verbatim>\<open>string\<close>, answers \<^const>\<open>None\<close> where
  \<^verbatim>\<open>CF_CONTRACT\<close> aborts the process. A \<^verbatim>\<open>ByteReader\<close> is the suffix of its data from \<^verbatim>\<open>offset_\<close> on,
  and a reader method maps that suffix to an error or to a value and the remaining suffix.

  The locale \<^verbatim>\<open>field_codec\<close> is the contract between one writer method and one reader method: what
  was written is read back, and whatever is read was written in exactly that form. Every scalar
  codec of the program interprets it, and the message codecs rest on those interpretations.
\<close>

subsection \<open>Strings as bytes\<close>

definition string_bytes :: "string \<Rightarrow> bytes" where
  "string_bytes s = map of_char s"

definition bytes_string :: "bytes \<Rightarrow> string" where
  "bytes_string bs = map (\<lambda>b. char_of (unat b)) bs"

subsection \<open>ByteWriter\<close>

definition kAbsoluteMaxFieldBytes :: nat where
  "kAbsoluteMaxFieldBytes = 2 ^ 20"

definition w_u8 :: "byte \<Rightarrow> bytes option" where
  "w_u8 v = Some [v]"

definition w_boolean :: "bool \<Rightarrow> bytes option" where
  "w_boolean v = Some [if v then 1 else 0]"

definition w_u16 :: "u16 \<Rightarrow> bytes option" where
  "w_u16 v = Some [ucast (v AND 0xFF), ucast (drop_bit 8 v AND 0xFF)]"

definition w_u32 :: "u32 \<Rightarrow> bytes option" where
  "w_u32 v = Some (le_store 4 v)"

definition w_u64 :: "u64 \<Rightarrow> bytes option" where
  "w_u64 v = Some (le_store 8 v)"

definition w_i64 :: "int \<Rightarrow> bytes option" where
  "w_i64 v = w_u64 (word_of_int v)"

definition w_bytes :: "bytes \<Rightarrow> bytes option" where
  "w_bytes v = Some v"

text \<open>\<open>emit\<close> is a sequence of writer calls on one \<^verbatim>\<open>ByteWriter\<close>: the appended bytes, or the abort.\<close>

fun emit :: "bytes option list \<Rightarrow> bytes option" where
  "emit [] = Some []"
| "emit (w # ws) =
     (case w of None \<Rightarrow> None
      | Some a \<Rightarrow> (case emit ws of None \<Rightarrow> None | Some b \<Rightarrow> Some (a @ b)))"

declare emit.simps [simp del]

definition w_string :: "nat \<Rightarrow> string \<Rightarrow> bytes option" where
  "w_string maxBytes v =
     (if \<not> length v \<le> maxBytes then None
      else if \<not> length v \<le> kAbsoluteMaxFieldBytes then None
      else emit [w_u32 (of_nat (length v)), w_bytes (string_bytes v)])"

definition w_digest :: "Digest \<Rightarrow> bytes option" where
  "w_digest v = w_bytes v"

definition w_sha256 :: "bytes \<Rightarrow> bytes option" where
  "w_sha256 v = w_bytes v"

definition w_opaque128 :: "bytes \<Rightarrow> bytes option" where
  "w_opaque128 v = w_bytes v"

subsection \<open>ByteReader\<close>

type_synonym 'a reader = "bytes \<Rightarrow> ('a \<times> bytes) result"

text \<open>\<^verbatim>\<open>CF_TRY_ASSIGN(x, reader.method()); ...\<close>, a plain return, and a guard between two reads.\<close>

definition rd :: "'a reader \<Rightarrow> ('a \<Rightarrow> 'b reader) \<Rightarrow> 'b reader" where
  "rd r k = (\<lambda>bs. cf_try (r bs) (\<lambda>(x, rest). k x rest))"

definition rd_return :: "'a \<Rightarrow> 'a reader" where
  "rd_return x = (\<lambda>bs. Inr (x, bs))"

definition rd_fail_if :: "bool \<Rightarrow> ErrorCode \<Rightarrow> 'a reader \<Rightarrow> 'a reader" where
  "rd_fail_if guard code r = (\<lambda>bs. fail_if guard code (r bs))"

text \<open>Run a reader on a whole payload; what it leaves unread is dropped with the reader object.\<close>

definition rd_run :: "'a reader \<Rightarrow> bytes \<Rightarrow> 'a result" where
  "rd_run r payload = Result_map (r payload) fst"

definition ByteReader_need :: "nat \<Rightarrow> bytes \<Rightarrow> status" where
  "ByteReader_need count bs = (if count > length bs then Inl TruncatedFrame else Inr ())"

definition r_fixed :: "nat \<Rightarrow> bytes reader" where
  "r_fixed count bs = cf_try (ByteReader_need count bs) (\<lambda>_. Inr (take count bs, drop count bs))"

definition r_u8 :: "byte reader" where
  "r_u8 bs = cf_try (ByteReader_need 1 bs) (\<lambda>_. Inr (bs ! 0, drop 1 bs))"

definition r_boolean :: "bool reader" where
  "r_boolean = rd r_u8 (\<lambda>raw. rd_fail_if (raw > 1) MalformedInput (rd_return (raw = 1)))"

definition r_u16 :: "u16 reader" where
  "r_u16 bs = cf_try (ByteReader_need 2 bs)
     (\<lambda>_. Inr (ucast (bs ! 0) OR push_bit 8 (ucast (bs ! 1)), drop 2 bs))"

definition r_u32 :: "u32 reader" where
  "r_u32 bs = cf_try (ByteReader_need 4 bs) (\<lambda>_. Inr (le_load (take 4 bs), drop 4 bs))"

definition r_u64 :: "u64 reader" where
  "r_u64 bs = cf_try (ByteReader_need 8 bs) (\<lambda>_. Inr (le_load (take 8 bs), drop 8 bs))"

definition r_i64 :: "int reader" where
  "r_i64 = rd r_u64 (\<lambda>raw. rd_return (sint raw))"

definition r_string :: "nat \<Rightarrow> string reader" where
  "r_string maxBytes =
     rd r_u32 (\<lambda>declared.
       rd_fail_if (unat declared > maxBytes \<or> unat declared > kAbsoluteMaxFieldBytes) OversizePayload
         (rd (r_fixed (unat declared)) (\<lambda>view. rd_return (bytes_string view))))"

definition r_digest :: "Digest reader" where
  "r_digest = r_fixed 32"

definition r_sha256 :: "bytes reader" where
  "r_sha256 = r_fixed 32"

definition r_opaque128 :: "bytes reader" where
  "r_opaque128 = r_fixed 16"

definition r_requireEnd :: "unit reader" where
  "r_requireEnd bs = (if bs \<noteq> [] then Inl ProtocolViolation else Inr ((), bs))"

text \<open>A counted loop of reads, \<^verbatim>\<open>for (i = 0; i < count; ++i)\<close>, appending to a vector.\<close>

fun r_repeat :: "nat \<Rightarrow> 'a reader \<Rightarrow> 'a list reader" where
  "r_repeat 0 r = rd_return []"
| "r_repeat (Suc n) r = rd r (\<lambda>x. rd (r_repeat n r) (\<lambda>xs. rd_return (x # xs)))"

text \<open>A collection on the wire: a 32-bit count, checked against a bound, then that many elements.\<close>

definition r_counted :: "nat \<Rightarrow> 'a reader \<Rightarrow> 'a list reader" where
  "r_counted bound r =
     rd r_u32 (\<lambda>count. rd_fail_if (unat count > bound) OversizePayload (r_repeat (unat count) r))"

subsection \<open>Generic lemmas\<close>

lemma length_string_bytes [simp]: "length (string_bytes s) = length s"
  by (simp add: string_bytes_def)

lemma length_bytes_string [simp]: "length (bytes_string bs) = length bs"
  by (simp add: bytes_string_def)

lemma unat_of_char_byte: "unat (of_char c :: byte) = of_char c"
  by (subst of_nat_of_char [symmetric, where 'a = byte]) (simp add: unat_of_nat)

lemma of_char_of_unat_byte: "of_char (char_of (unat b)) = (b :: byte)"
proof -
  have "unat b mod 256 = unat b" using unsigned_less [of b, where 'a = nat] by (intro mod_less) simp
  then show ?thesis by (subst of_nat_of_char [symmetric, where 'a = byte]) simp
qed

lemma bytes_string_of_string_bytes [simp]: "bytes_string (string_bytes s) = s"
  by (simp add: bytes_string_def string_bytes_def unat_of_char_byte comp_def)

lemma string_bytes_of_bytes_string [simp]: "string_bytes (bytes_string bs) = bs"
  by (simp add: bytes_string_def string_bytes_def of_char_of_unat_byte comp_def)

lemma string_bytes_eq_iff: "string_bytes s = bs \<longleftrightarrow> s = bytes_string bs"
  by auto

lemma eq_string_bytes_iff: "bs = string_bytes s \<longleftrightarrow> s = bytes_string bs"
  by auto

lemma emit_Cons_eq_Some [codec_dests]:
  "emit (w # ws) = Some bs \<longleftrightarrow> (\<exists>a b. w = Some a \<and> emit ws = Some b \<and> bs = a @ b)"
  by (auto simp: emit.simps split: option.splits)

lemma emit_Nil_eq_Some [codec_dests]: "emit [] = Some bs \<longleftrightarrow> bs = []"
  by (auto simp: emit.simps)

text \<open>A list whose elements can all be written, and the bytes of such a list.\<close>

definition writable :: "('a \<Rightarrow> bytes option) \<Rightarrow> 'a list \<Rightarrow> bool" where
  "writable f xs \<longleftrightarrow> emit (map f xs) \<noteq> None"

lemma emit_map_eq_Some:
  "emit (map f xs) = Some w \<longleftrightarrow> writable f xs \<and> w = the (emit (map f xs))"
  by (auto simp: writable_def)

lemma rd_eq_Inr_iff:
  "rd r k bs = Inr z \<longleftrightarrow> (\<exists>x rest. r bs = Inr (x, rest) \<and> k x rest = Inr z)"
  by (auto simp: rd_def result_simps)

lemma rd_return_eq_Inr_iff [codec_dests]: "rd_return x bs = Inr (y, rest) \<longleftrightarrow> y = x \<and> rest = bs"
  by (auto simp: rd_return_def)

lemma rd_fail_if_eq_Inr_iff [codec_dests]:
  "rd_fail_if guard code r bs = Inr z \<longleftrightarrow> \<not> guard \<and> r bs = Inr z"
  by (simp add: rd_fail_if_def result_simps)

lemma rd_run_eq_Inr_iff [codec_dests]: "rd_run r bs = Inr x \<longleftrightarrow> (\<exists>rest. r bs = Inr (x, rest))"
  by (auto simp: rd_run_def Result_map_def split: sum.splits)

lemma requireEnd_eq_Inr_iff [codec_dests]:
  "rd r_requireEnd k bs = Inr z \<longleftrightarrow> bs = [] \<and> k () bs = Inr z"
  by (auto simp: rd_eq_Inr_iff r_requireEnd_def)

subsection \<open>The codec contract\<close>

locale field_codec =
  fixes put :: "'a \<Rightarrow> bytes option"
    and get :: "'a reader"
    and ok :: "'a \<Rightarrow> bool"
  assumes get_put: "ok x \<Longrightarrow> put x = Some w \<Longrightarrow> get (w @ rest) = Inr (x, rest)"
    and put_get: "get bs = Inr (x, rest) \<Longrightarrow> ok x \<and> (\<exists>w. put x = Some w \<and> bs = w @ rest)"
begin

lemma get_iff:
  "get bs = Inr (x, rest) \<longleftrightarrow> ok x \<and> (\<exists>w. put x = Some w \<and> bs = w @ rest)"
  using get_put put_get by blast

lemma rd_get_iff:
  "rd get k bs = Inr z \<longleftrightarrow> (\<exists>x w rest. ok x \<and> put x = Some w \<and> bs = w @ rest \<and> k x rest = Inr z)"
  by (auto simp: rd_eq_Inr_iff get_iff)

lemma prefix_free:
  "ok x \<Longrightarrow> ok y \<Longrightarrow> put x = Some v \<Longrightarrow> put y = Some w \<Longrightarrow> v @ r = w @ r' \<Longrightarrow> x = y \<and> r = r'"
  using get_put [of x v r] get_put [of y w r'] by simp

lemma repeat_iff:
  "r_repeat n get bs = Inr (xs, rest) \<longleftrightarrow>
     length xs = n \<and> list_all ok xs \<and> (\<exists>w. emit (map put xs) = Some w \<and> bs = w @ rest)"
proof (induction n arbitrary: bs xs)
  case 0
  then show ?case by (auto simp: rd_return_def emit.simps)
next
  case (Suc n)
  show ?case
  proof (cases xs)
    case Nil
    then show ?thesis by (auto simp: rd_eq_Inr_iff rd_return_def)
  next
    case (Cons y ys)
    then show ?thesis
      by (auto simp: get_iff rd_eq_Inr_iff Suc.IH rd_return_def emit_Cons_eq_Some)
  qed
qed

lemma rd_repeat_iff:
  "rd (r_repeat n get) k bs = Inr z \<longleftrightarrow>
     (\<exists>xs w rest. length xs = n \<and> list_all ok xs \<and> emit (map put xs) = Some w
        \<and> bs = w @ rest \<and> k xs rest = Inr z)"
  by (auto simp: rd_eq_Inr_iff repeat_iff)

end

text \<open>Reading a fixed number of bytes, the base of every scalar reader.\<close>

lemma fixed_eq_Inr_iff:
  "r_fixed n bs = Inr (v, rest) \<longleftrightarrow> length v = n \<and> bs = v @ rest"
  by (auto simp: r_fixed_def ByteReader_need_def result_simps split: if_splits)

lemma need_load_iff:
  "cf_try (ByteReader_need n bs) (\<lambda>_. Inr (f (take n bs), drop n bs)) = Inr (x, rest) \<longleftrightarrow>
     (\<exists>w. length w = n \<and> f w = x \<and> bs = w @ rest)"
  by (auto simp: ByteReader_need_def result_simps split: if_splits)
    (metis append_take_drop_id length_take min.absorb2 not_less)

interpretation fixed: field_codec w_bytes "r_fixed n" "\<lambda>v. length v = n"
  by unfold_locales (auto simp: w_bytes_def fixed_eq_Inr_iff)

lemma r_u32_eq_Inr_iff: "r_u32 bs = Inr (x, rest) \<longleftrightarrow> (\<exists>w. length w = 4 \<and> le_load w = x \<and> bs = w @ rest)"
  by (simp only: r_u32_def need_load_iff)

lemma r_u64_eq_Inr_iff: "r_u64 bs = Inr (x, rest) \<longleftrightarrow> (\<exists>w. length w = 8 \<and> le_load w = x \<and> bs = w @ rest)"
  by (simp only: r_u64_def need_load_iff)

lemma le_load_eq_iff:
  "length w = k \<Longrightarrow> 8 * k = LENGTH('a) \<Longrightarrow> le_load w = (x :: 'a::len word) \<longleftrightarrow> w = le_store k x"
  using le_store_load [of w, where 'a = 'a] le_load_store [of k x] by auto

lemma le_store_load_length:
  "length w = k \<Longrightarrow> 8 * k \<le> LENGTH('a) \<Longrightarrow> le_store k (le_load w :: 'a::len word) = w"
  using le_store_load [of w, where 'a = 'a] by simp

interpretation u32: field_codec w_u32 r_u32 "\<lambda>_. True"
  by unfold_locales (auto simp: w_u32_def r_u32_eq_Inr_iff le_load_eq_iff le_store_load_length)

interpretation u64: field_codec w_u64 r_u64 "\<lambda>_. True"
  by unfold_locales (auto simp: w_u64_def r_u64_eq_Inr_iff le_load_eq_iff le_store_load_length)

lemma w_u16_le_store: "w_u16 v = Some (le_store 2 v)"
  by (simp add: w_u16_def le_store_def numeral_2_eq_2)

lemma r_u16_eq_Inr_iff: "r_u16 bs = Inr (x, rest) \<longleftrightarrow> (\<exists>w. length w = 2 \<and> le_load w = x \<and> bs = w @ rest)"
proof -
  have "2 \<le> length bs \<Longrightarrow>
      ucast (bs ! 0) OR push_bit 8 (ucast (bs ! 1)) = (le_load (take 2 bs) :: u16)"
    by (cases bs; cases "tl bs") (simp_all add: le_load_def take_Cons')
  then have "r_u16 bs = cf_try (ByteReader_need 2 bs) (\<lambda>_. Inr (le_load (take 2 bs), drop 2 bs))"
    by (simp add: r_u16_def ByteReader_need_def)
  then show ?thesis by (simp only: need_load_iff)
qed

interpretation u16: field_codec w_u16 r_u16 "\<lambda>_. True"
  by unfold_locales (auto simp: w_u16_le_store r_u16_eq_Inr_iff le_load_eq_iff le_store_load_length)

lemma r_u8_eq_Inr_iff: "r_u8 bs = Inr (x, rest) \<longleftrightarrow> bs = x # rest"
  by (cases bs) (auto simp: r_u8_def ByteReader_need_def)

interpretation u8: field_codec w_u8 r_u8 "\<lambda>_. True"
  by unfold_locales (auto simp: w_u8_def r_u8_eq_Inr_iff)

lemma byte_le_1_iff: "\<not> (1 < (b :: byte)) \<longleftrightarrow> b = 0 \<or> b = 1"
  by (auto simp: not_less word_le_nat_alt unat_eq_zero) (simp add: word_unat_eq_iff)

interpretation boolean: field_codec w_boolean r_boolean "\<lambda>_. True"
  by unfold_locales
    (auto simp: w_boolean_def r_boolean_def rd_eq_Inr_iff r_u8_eq_Inr_iff rd_fail_if_eq_Inr_iff
      rd_return_def byte_le_1_iff)

lemma w_boolean_of_bool: "w_boolean v = Some [of_bool v]"
  by (simp add: w_boolean_def)

lemma i64_cast_inverse: "i64_range v \<Longrightarrow> sint (word_of_int v :: u64) = v"
  by (simp add: i64_range_def signed_of_int signed_take_bit_int_eq_self)

lemma sint_i64_range: "i64_range (sint (w :: u64))"
  using sint_greater_eq [of w] sint_less [of w] by (simp add: i64_range_def)

interpretation i64: field_codec w_i64 r_i64 i64_range
proof
  show "r_i64 (w @ rest) = Inr (x, rest)" if "i64_range x" "w_i64 x = Some w" for x w rest
    using that u64.get_put [of "word_of_int x" w rest]
    by (simp add: w_i64_def r_i64_def rd_def rd_return_def i64_cast_inverse)
  show "i64_range x \<and> (\<exists>w. w_i64 x = Some w \<and> bs = w @ rest)" if "r_i64 bs = Inr (x, rest)" for bs x rest
    using that by (auto simp: w_i64_def r_i64_def u64.rd_get_iff rd_return_def sint_i64_range)
qed

lemma w_string_eq_Some_iff:
  "w_string m s = Some w \<longleftrightarrow>
     length s \<le> m \<and> length s \<le> kAbsoluteMaxFieldBytes
     \<and> w = le_store 4 (of_nat (length s) :: u32) @ string_bytes s"
  by (auto simp: w_string_def w_u32_def w_bytes_def emit.simps)

lemma unat_field_length: "n \<le> kAbsoluteMaxFieldBytes \<Longrightarrow> unat (of_nat n :: u32) = n"
  by (simp add: kAbsoluteMaxFieldBytes_def unat_of_nat)

lemma r_string_eq_Inr_iff:
  "r_string m bs = Inr (s, rest) \<longleftrightarrow>
     length s \<le> m \<and> length s \<le> kAbsoluteMaxFieldBytes
     \<and> bs = le_store 4 (of_nat (length s) :: u32) @ string_bytes s @ rest"
proof
  assume "r_string m bs = Inr (s, rest)"
  then show "length s \<le> m \<and> length s \<le> kAbsoluteMaxFieldBytes
     \<and> bs = le_store 4 (of_nat (length s) :: u32) @ string_bytes s @ rest"
    by (auto simp: r_string_def u32.rd_get_iff w_u32_def rd_fail_if_eq_Inr_iff fixed.rd_get_iff
        w_bytes_def rd_return_def)
next
  assume a: "length s \<le> m \<and> length s \<le> kAbsoluteMaxFieldBytes
     \<and> bs = le_store 4 (of_nat (length s) :: u32) @ string_bytes s @ rest"
  then show "r_string m bs = Inr (s, rest)"
    by (auto simp: r_string_def u32.rd_get_iff w_u32_def rd_fail_if_eq_Inr_iff fixed.rd_get_iff
        w_bytes_def rd_return_def unat_field_length intro!: exI [of _ "of_nat (length s)"])
qed

text \<open>A string is accepted back under every bound at least as large as its length.\<close>

interpretation string: field_codec "w_string m" "r_string m" "\<lambda>_. True"
  by unfold_locales (auto simp: w_string_eq_Some_iff r_string_eq_Inr_iff)

interpretation digest: field_codec w_digest r_digest "\<lambda>d. length d = 32"
  using fixed.field_codec_axioms [of 32] by (simp add: field_codec_def w_digest_def [abs_def] r_digest_def)

interpretation sha256: field_codec w_sha256 r_sha256 "\<lambda>d. length d = 32"
  using fixed.field_codec_axioms [of 32] by (simp add: field_codec_def w_sha256_def [abs_def] r_sha256_def)

interpretation opaque128: field_codec w_opaque128 r_opaque128 "\<lambda>d. length d = 16"
  using fixed.field_codec_axioms [of 16]
  by (simp add: field_codec_def w_opaque128_def [abs_def] r_opaque128_def)

text \<open>Counted collections inherit the contract from every element codec.\<close>

context field_codec
begin

lemma counted_iff:
  assumes "N < 2 ^ 32"
  shows "r_counted N get bs = Inr (xs, rest) \<longleftrightarrow>
    length xs \<le> N \<and> list_all ok xs
    \<and> (\<exists>w. emit (map put xs) = Some w \<and> bs = le_store 4 (of_nat (length xs) :: u32) @ w @ rest)"
    (is "?L \<longleftrightarrow> ?R")
proof
  assume ?L
  then obtain c :: u32 and w where "bs = le_store 4 c @ w @ rest" "unat c \<le> N" "length xs = unat c"
    "list_all ok xs" "emit (map put xs) = Some w"
    unfolding r_counted_def u32.rd_get_iff w_u32_def option.inject rd_fail_if_eq_Inr_iff repeat_iff not_less
    by blast
  moreover from this have "of_nat (length xs) = c" by simp
  ultimately show ?R by auto
next
  assume r: ?R
  with assms have "unat (of_nat (length xs) :: u32) = length xs" by (simp add: unat_of_nat)
  with r show ?L
    by (auto simp: r_counted_def u32.rd_get_iff w_u32_def rd_fail_if_eq_Inr_iff repeat_iff
        intro!: exI [of _ "of_nat (length xs)"])
qed

lemma rd_counted_iff:
  assumes "N < 2 ^ 32"
  shows "rd (r_counted N get) k bs = Inr z \<longleftrightarrow>
    (\<exists>xs rest. length xs \<le> N \<and> list_all ok xs \<and> writable put xs
       \<and> bs = le_store 4 (of_nat (length xs) :: u32) @ the (emit (map put xs)) @ rest
       \<and> k xs rest = Inr z)"
  by (fastforce simp: rd_eq_Inr_iff counted_iff [OF assms] writable_def)

end

subsection \<open>Narrowed codecs\<close>

text \<open>
  A codec built on another one: the writer first maps a value to the raw form, the reader reads the
  raw form and narrows it. The enumerations, identifiers and generations of the protocol are all of
  this shape; whenever \<open>narrow\<close> is the partial inverse of \<open>raw\<close> the contract carries over.
\<close>

definition r_narrow :: "'r reader \<Rightarrow> ('r \<Rightarrow> 'a result) \<Rightarrow> 'a reader" where
  "r_narrow get narrow = rd get (\<lambda>r. case narrow r of Inl e \<Rightarrow> (\<lambda>bs. Inl e) | Inr x \<Rightarrow> rd_return x)"

locale narrowed_codec = field_codec put get okr
  for put :: "'r \<Rightarrow> bytes option" and get :: "'r reader" and okr :: "'r \<Rightarrow> bool" +
  fixes raw :: "'a \<Rightarrow> 'r"
    and narrow :: "'r \<Rightarrow> 'a result"
    and ok :: "'a \<Rightarrow> bool"
  assumes narrow_raw: "ok x \<Longrightarrow> narrow (raw x) = Inr x \<and> okr (raw x)"
    and raw_narrow: "narrow r = Inr x \<Longrightarrow> raw x = r \<and> ok x"
begin

lemma narrowed_iff:
  "r_narrow get narrow bs = Inr (x, rest) \<longleftrightarrow> ok x \<and> (\<exists>w. put (raw x) = Some w \<and> bs = w @ rest)"
proof
  assume "r_narrow get narrow bs = Inr (x, rest)"
  then obtain r mid where r: "get bs = Inr (r, mid)"
    and n: "(case narrow r of Inl e \<Rightarrow> (\<lambda>bs. Inl e) | Inr x \<Rightarrow> rd_return x) mid = Inr (x, rest)"
    by (auto simp: r_narrow_def rd_eq_Inr_iff)
  from n have "narrow r = Inr x \<and> mid = rest" by (cases "narrow r") (auto simp: rd_return_def)
  with r show "ok x \<and> (\<exists>w. put (raw x) = Some w \<and> bs = w @ rest)"
    using raw_narrow [of r x] put_get [of bs r rest] by blast
next
  assume a: "ok x \<and> (\<exists>w. put (raw x) = Some w \<and> bs = w @ rest)"
  then obtain w where "put (raw x) = Some w" and "bs = w @ rest" by blast
  then show "r_narrow get narrow bs = Inr (x, rest)"
    using a narrow_raw [of x] get_put [of "raw x" w rest]
    by (simp add: r_narrow_def rd_def rd_return_def)
qed

end

sublocale narrowed_codec \<subseteq> narrowed: field_codec "\<lambda>x. put (raw x)" "r_narrow get narrow" ok
  by unfold_locales (auto simp: narrowed_iff)

end
