(* ===== verification/Frame.thy ===== *)
theory Frame
  imports Codec
begin

text \<open>
  Wire framing, \<^verbatim>\<open>include/cf/frame.hpp\<close> and \<^verbatim>\<open>src/frame.cpp\<close>: the frame types, the 24-byte header with its
  two checksums, the encoder and the incremental stream decoder. The lemmas show that the decoder
  yields exactly the frames that were sent, whatever the fragmentation of the stream, that it never
  holds more than one partial frame, and that one corrupted byte anywhere in a frame is refused.
\<close>

subsection \<open>Frame types\<close>

datatype (plugins only: code size) FrameType =
    Invalid | Hello | HelloAck | HelloConfirm | AuthReject | Prepare | PrepareAck
  | PrepareReject | Chunk | ChunkAck | TransferComplete | TransferResult | Stage | StageAck
  | ApplyPrepare | ApplyPrepareAck | ApplyCommit | ApplyCommitAck | ApplyAbort | ApplyAbortAck
  | DeliveryAck | DeliveryNack | ReconcileRequest | ReconcileReport | Retire | RetireAck
  | Ping | Pong | Goodbye | Error | ControlHello | ControlHelloAck | ControlRequest
  | ControlResponse

definition allFrameTypes :: "FrameType list" where
  "allFrameTypes =
     [Invalid, Hello, HelloAck, HelloConfirm, AuthReject, Prepare, PrepareAck, PrepareReject,
     Chunk, ChunkAck, TransferComplete, TransferResult, Stage, StageAck, ApplyPrepare,
     ApplyPrepareAck, ApplyCommit, ApplyCommitAck, ApplyAbort, ApplyAbortAck, DeliveryAck,
     DeliveryNack, ReconcileRequest, ReconcileReport, Retire, RetireAck, Ping, Pong, Goodbye,
     Error, ControlHello, ControlHelloAck, ControlRequest, ControlResponse]"

primrec frameTypeValue :: "FrameType \<Rightarrow> u16" where
  "frameTypeValue Invalid = 0"
| "frameTypeValue Hello = 10"
| "frameTypeValue HelloAck = 11"
| "frameTypeValue HelloConfirm = 12"
| "frameTypeValue AuthReject = 13"
| "frameTypeValue Prepare = 30"
| "frameTypeValue PrepareAck = 31"
| "frameTypeValue PrepareReject = 32"
| "frameTypeValue Chunk = 33"
| "frameTypeValue ChunkAck = 34"
| "frameTypeValue TransferComplete = 35"
| "frameTypeValue TransferResult = 36"
| "frameTypeValue Stage = 37"
| "frameTypeValue StageAck = 38"
| "frameTypeValue ApplyPrepare = 39"
| "frameTypeValue ApplyPrepareAck = 40"
| "frameTypeValue ApplyCommit = 41"
| "frameTypeValue ApplyCommitAck = 42"
| "frameTypeValue ApplyAbort = 43"
| "frameTypeValue ApplyAbortAck = 44"
| "frameTypeValue DeliveryAck = 80"
| "frameTypeValue DeliveryNack = 81"
| "frameTypeValue ReconcileRequest = 100"
| "frameTypeValue ReconcileReport = 101"
| "frameTypeValue Retire = 120"
| "frameTypeValue RetireAck = 121"
| "frameTypeValue Ping = 122"
| "frameTypeValue Pong = 123"
| "frameTypeValue Goodbye = 140"
| "frameTypeValue Error = 141"
| "frameTypeValue ControlHello = 150"
| "frameTypeValue ControlHelloAck = 151"
| "frameTypeValue ControlRequest = 152"
| "frameTypeValue ControlResponse = 153"

primrec frameTypeName :: "FrameType \<Rightarrow> string" where
  "frameTypeName Invalid = ''invalid''"
| "frameTypeName Hello = ''hello''"
| "frameTypeName HelloAck = ''hello-ack''"
| "frameTypeName HelloConfirm = ''hello-confirm''"
| "frameTypeName AuthReject = ''auth-reject''"
| "frameTypeName Prepare = ''prepare''"
| "frameTypeName PrepareAck = ''prepare-ack''"
| "frameTypeName PrepareReject = ''prepare-reject''"
| "frameTypeName Chunk = ''chunk''"
| "frameTypeName ChunkAck = ''chunk-ack''"
| "frameTypeName TransferComplete = ''transfer-complete''"
| "frameTypeName TransferResult = ''transfer-result''"
| "frameTypeName Stage = ''stage''"
| "frameTypeName StageAck = ''stage-ack''"
| "frameTypeName ApplyPrepare = ''apply-prepare''"
| "frameTypeName ApplyPrepareAck = ''apply-prepare-ack''"
| "frameTypeName ApplyCommit = ''apply-commit''"
| "frameTypeName ApplyCommitAck = ''apply-commit-ack''"
| "frameTypeName ApplyAbort = ''apply-abort''"
| "frameTypeName ApplyAbortAck = ''apply-abort-ack''"
| "frameTypeName DeliveryAck = ''delivery-ack''"
| "frameTypeName DeliveryNack = ''delivery-nack''"
| "frameTypeName ReconcileRequest = ''reconcile-request''"
| "frameTypeName ReconcileReport = ''reconcile-report''"
| "frameTypeName Retire = ''retire''"
| "frameTypeName RetireAck = ''retire-ack''"
| "frameTypeName Ping = ''ping''"
| "frameTypeName Pong = ''pong''"
| "frameTypeName Goodbye = ''goodbye''"
| "frameTypeName Error = ''error''"
| "frameTypeName ControlHello = ''control-hello''"
| "frameTypeName ControlHelloAck = ''control-hello-ack''"
| "frameTypeName ControlRequest = ''control-request''"
| "frameTypeName ControlResponse = ''control-response''"

text \<open>
  \<^verbatim>\<open>static_cast<FrameType>\<close> of a raw value: \<^const>\<open>None\<close> is a value outside the enumerators, the
  ones whose name is \<^verbatim>\<open>"unknown"\<close>.
\<close>

definition frameType_cast :: "u16 \<Rightarrow> FrameType option" where
  "frameType_cast raw = List.find (\<lambda>t. frameTypeValue t = raw) allFrameTypes"

definition isKnownFrameType :: "FrameType option \<Rightarrow> bool" where
  "isKnownFrameType t = (case t of None \<Rightarrow> False | Some u \<Rightarrow> frameTypeName u \<noteq> ''unknown'')"

text \<open>The loop over the raw values 1 to 153; \<^verbatim>\<open>Invalid\<close> is 0 and is never the answer.\<close>

definition parseFrameType :: "string \<Rightarrow> FrameType option" where
  "parseFrameType text =
     (case List.find (\<lambda>raw. case frameType_cast (of_nat raw) of None \<Rightarrow> False
                            | Some t \<Rightarrow> frameTypeName t \<noteq> ''unknown'' \<and> frameTypeName t = text)
                     [1..<154] of
        None \<Rightarrow> None
      | Some raw \<Rightarrow> frameType_cast (of_nat raw))"

subsection \<open>Headers\<close>

definition kFrameMagic :: u32 where
  "kFrameMagic = 0x4D524643"

definition kWireVersion :: u16 where
  "kWireVersion = 1"

definition kFrameHeaderBytes :: nat where
  "kFrameHeaderBytes = 24"

definition kAbsoluteMaxPayloadBytes :: u32 where
  "kAbsoluteMaxPayloadBytes = 16 * 1024 * 1024"

definition kDefaultMaxPayloadBytes :: u32 where
  "kDefaultMaxPayloadBytes = 1 * 1024 * 1024"

definition kFrameFlagResponse :: u16 where
  "kFrameFlagResponse = 1"

definition kFrameFlagKnownMask :: u16 where
  "kFrameFlagKnownMask = 3"

record FrameHeader =
  fh_wireVersion :: u16
  fh_type :: FrameType
  fh_flags :: u16
  fh_reserved :: u16
  fh_payloadLength :: u32
  fh_headerCrc :: u32
  fh_payloadCrc :: u32

record Frame =
  fr_header :: FrameHeader
  fr_payload :: bytes

definition Frame_isResponse :: "Frame \<Rightarrow> bool" where
  "Frame_isResponse f \<longleftrightarrow> fh_flags (fr_header f) AND kFrameFlagResponse \<noteq> 0"

definition storeLe32 :: "u32 \<Rightarrow> bytes" where
  "storeLe32 v = le_store 4 v"

definition storeLe16 :: "u16 \<Rightarrow> bytes" where
  "storeLe16 v = [ucast (v AND 0xFF), ucast (drop_bit 8 v AND 0xFF)]"

definition loadLe32 :: "bytes \<Rightarrow> u32" where
  "loadLe32 bs = ucast (bs ! 0) OR push_bit 8 (ucast (bs ! 1)) OR push_bit 16 (ucast (bs ! 2))
     OR push_bit 24 (ucast (bs ! 3))"

definition loadLe16 :: "bytes \<Rightarrow> u16" where
  "loadLe16 bs = ucast (bs ! 0) OR push_bit 8 (ucast (bs ! 1))"

text \<open>The first sixteen bytes are the ones the header checksum covers.\<close>

definition header_prefix :: "FrameHeader \<Rightarrow> bytes" where
  "header_prefix h =
     storeLe32 kFrameMagic @ storeLe16 (fh_wireVersion h) @ storeLe16 (frameTypeValue (fh_type h))
     @ storeLe16 (fh_flags h) @ storeLe16 (fh_reserved h) @ storeLe32 (fh_payloadLength h)"

definition encodeFrameHeader :: "FrameHeader \<Rightarrow> bytes" where
  "encodeFrameHeader h =
     header_prefix h @ storeLe32 (crc32c (header_prefix h)) @ storeLe32 (fh_payloadCrc h)"

definition decodeFrameHeader :: "bytes \<Rightarrow> u32 \<Rightarrow> FrameHeader result" where
  "decodeFrameHeader bs maxPayload =
     fail_if (length bs < kFrameHeaderBytes) TruncatedFrame
     (fail_if (maxPayload > kAbsoluteMaxPayloadBytes) Internal
     (fail_if (loadLe32 bs \<noteq> kFrameMagic) ProtocolViolation
     (fail_if (crc32c (take 16 bs) \<noteq> loadLe32 (drop 16 bs)) IntegrityFailure
     (fail_if (loadLe16 (drop 4 bs) \<noteq> kWireVersion) UnsupportedVersion
     (fail_if (\<not> isKnownFrameType (frameType_cast (loadLe16 (drop 6 bs)))) UnexpectedMessage
     (fail_if (loadLe16 (drop 8 bs) AND NOT kFrameFlagKnownMask \<noteq> 0) ProtocolViolation
     (fail_if (loadLe16 (drop 10 bs) \<noteq> 0) ProtocolViolation
     (fail_if (loadLe32 (drop 12 bs) > maxPayload) OversizePayload
     (fail_if (loadLe32 (drop 12 bs) = 0 \<and> loadLe32 (drop 20 bs) \<noteq> 0) ProtocolViolation
     (Inr \<lparr>fh_wireVersion = loadLe16 (drop 4 bs),
           fh_type = the (frameType_cast (loadLe16 (drop 6 bs))),
           fh_flags = loadLe16 (drop 8 bs),
           fh_reserved = loadLe16 (drop 10 bs),
           fh_payloadLength = loadLe32 (drop 12 bs),
           fh_headerCrc = 0,
           fh_payloadCrc = loadLe32 (drop 20 bs)\<rparr>))))))))))"

subsection \<open>Whole frames\<close>

definition frame_header_for :: "FrameType \<Rightarrow> u16 \<Rightarrow> bytes \<Rightarrow> FrameHeader" where
  "frame_header_for t flags payload =
     \<lparr>fh_wireVersion = kWireVersion, fh_type = t, fh_flags = flags, fh_reserved = 0,
      fh_payloadLength = of_nat (length payload), fh_headerCrc = 0,
      fh_payloadCrc = (if payload = [] then 0 else crc32c payload)\<rparr>"

definition encodeFrame :: "FrameType \<Rightarrow> u16 \<Rightarrow> bytes \<Rightarrow> u32 \<Rightarrow> bytes result" where
  "encodeFrame t flags payload maxPayload =
     fail_if (\<not> isKnownFrameType (Some t)) InvalidArgument
     (fail_if (maxPayload > kAbsoluteMaxPayloadBytes) InvalidArgument
     (fail_if (length payload > unat maxPayload) OversizePayload
     (fail_if (flags AND NOT kFrameFlagKnownMask \<noteq> 0) InvalidArgument
     (Inr (encodeFrameHeader (frame_header_for t flags payload) @ payload)))))"

subsection \<open>The incremental decoder\<close>

record FrameDecoder =
  fd_maxPayloadBytes :: u32
  fd_buffer :: bytes
  fd_offset :: nat

definition FrameDecoder_init :: "u32 \<Rightarrow> FrameDecoder" where
  "FrameDecoder_init maxPayload = \<lparr>fd_maxPayloadBytes = maxPayload, fd_buffer = [], fd_offset = 0\<rparr>"

definition FrameDecoder_reset :: "FrameDecoder \<Rightarrow> FrameDecoder" where
  "FrameDecoder_reset d = d\<lparr>fd_buffer := [], fd_offset := 0\<rparr>"

definition FrameDecoder_buffered :: "FrameDecoder \<Rightarrow> nat" where
  "FrameDecoder_buffered d = length (fd_buffer d) - fd_offset d"

text \<open>The compaction before the buffer grows.\<close>

definition FrameDecoder_compact :: "FrameDecoder \<Rightarrow> FrameDecoder" where
  "FrameDecoder_compact d =
     (if fd_offset d > 0 \<and> fd_offset d = length (fd_buffer d)
      then d\<lparr>fd_buffer := [], fd_offset := 0\<rparr>
      else if fd_offset d > 0 \<and> fd_offset d > length (fd_buffer d) div 2
      then d\<lparr>fd_buffer := drop (fd_offset d) (fd_buffer d), fd_offset := 0\<rparr>
      else d)"

text \<open>
  The \<^verbatim>\<open>for (;;)\<close> loop over the buffer: the frames appended to \<^verbatim>\<open>out\<close>, the new \<^verbatim>\<open>offset_\<close> and the
  status. Every round that goes on consumes at least a header.
\<close>

function feed_loop :: "u32 \<Rightarrow> bytes \<Rightarrow> nat \<Rightarrow> Frame list \<times> nat \<times> status" where
  "feed_loop maxPayload buffer offset =
     (let available = length buffer - offset in
      if available < kFrameHeaderBytes then ([], offset, Inr ())
      else
        (case decodeFrameHeader (take kFrameHeaderBytes (drop offset buffer)) maxPayload of
           Inl e \<Rightarrow> ([], offset, Inl e)
         | Inr h \<Rightarrow>
             (let total = kFrameHeaderBytes + unat (fh_payloadLength h) in
              if available < total then ([], offset, Inr ())
              else
                (let payload = take (unat (fh_payloadLength h)) (drop (offset + kFrameHeaderBytes) buffer)
                 in if payload \<noteq> [] \<and> crc32c payload \<noteq> fh_payloadCrc h
                    then ([], offset, Inl IntegrityFailure)
                    else
                      (case feed_loop maxPayload buffer (offset + total) of
                         (frames, offset', st) \<Rightarrow>
                           (\<lparr>fr_header = h, fr_payload = payload\<rparr> # frames, offset', st))))))"
  by pat_completeness auto

termination
  by (relation "measure (\<lambda>(_, buffer, offset). length buffer - offset)")
    (auto simp: kFrameHeaderBytes_def)

declare feed_loop.simps [simp del]

definition FrameDecoder_feed ::
  "FrameDecoder \<Rightarrow> bytes \<Rightarrow> FrameDecoder \<times> Frame list \<times> status" where
  "FrameDecoder_feed d0 data =
     (if data = [] then (d0, [], Inr ())
      else
        (let d = FrameDecoder_compact d0 in
         case checkedAdd_size kFrameHeaderBytes (unat (fd_maxPayloadBytes d)) of
           None \<Rightarrow> (d, [], Inl Internal)
         | Some ceiling \<Rightarrow>
             (case checkedAdd_size (length (fd_buffer d)) (length data) of
                None \<Rightarrow> (d, [], Inl ArithmeticOverflow)
              | Some projected \<Rightarrow>
                  (let buffer = fd_buffer d @ data in
                   case feed_loop (fd_maxPayloadBytes d) buffer (fd_offset d) of
                     (frames, offset, Inl e) \<Rightarrow>
                       (d\<lparr>fd_buffer := buffer, fd_offset := offset\<rparr>, frames, Inl e)
                   | (frames, offset, Inr _) \<Rightarrow>
                       (d\<lparr>fd_buffer := buffer, fd_offset := offset\<rparr>, frames,
                        (if length buffer - offset > ceiling then Inl OversizePayload
                         else Inr ()))))))"

definition FrameDecoder_finish :: "FrameDecoder \<Rightarrow> status" where
  "FrameDecoder_finish d =
     (if FrameDecoder_buffered d \<noteq> 0 then Inl TruncatedFrame else Inr ())"

text \<open>A sequence of reads from the socket, fed until one of them fails.\<close>

fun feed_all :: "FrameDecoder \<Rightarrow> bytes list \<Rightarrow> FrameDecoder \<times> Frame list \<times> status" where
  "feed_all d [] = (d, [], Inr ())"
| "feed_all d (c # cs) =
     (case FrameDecoder_feed d c of
        (d', frames, Inl e) \<Rightarrow> (d', frames, Inl e)
      | (d', frames, Inr _) \<Rightarrow>
          (case feed_all d' cs of (d'', frames', st) \<Rightarrow> (d'', frames @ frames', st)))"

subsection \<open>Header fields\<close>

lemma frameTypes_complete: "t \<in> set allFrameTypes"
  by (cases t) (simp_all add: allFrameTypes_def)

lemma distinct_frameTypeValues: "distinct (map frameTypeValue allFrameTypes)"
  by code_simp

lemma distinct_frameTypeNames: "distinct (map frameTypeName allFrameTypes)"
  by code_simp

lemma frameType_cast_value [simp]: "frameType_cast (frameTypeValue t) = Some t"
proof -
  have "List.find (\<lambda>u. frameTypeValue u = frameTypeValue t) allFrameTypes \<noteq> None"
    using frameTypes_complete [of t] by (auto simp: find_None_iff)
  then obtain u where u: "List.find (\<lambda>u. frameTypeValue u = frameTypeValue t) allFrameTypes = Some u"
    by auto
  then have "frameTypeValue u = frameTypeValue t" by (auto dest: find_eq_Some_iff_mem)
  then have "u = t"
    using distinct_frameTypeValues frameTypes_complete by (auto simp: distinct_map dest: inj_onD)
  with u show ?thesis by (simp add: frameType_cast_def)
qed

lemma frameType_cast_Some: "frameType_cast raw = Some t \<Longrightarrow> frameTypeValue t = raw"
  by (auto simp: frameType_cast_def dest: find_eq_Some_iff_mem)

lemma isKnownFrameType_iff: "isKnownFrameType t \<longleftrightarrow> t \<noteq> None"
  by (cases t; cases "the t") (simp_all add: isKnownFrameType_def)

lemma length_storeLe [simp]: "length (storeLe32 v) = 4" "length (storeLe16 u) = 2"
  by (simp_all add: storeLe32_def storeLe16_def)

lemma length_header_prefix [simp]: "length (header_prefix h) = 16"
  by (simp add: header_prefix_def)

lemma length_encodeFrameHeader [simp]: "length (encodeFrameHeader h) = 24"
  by (simp add: encodeFrameHeader_def)

lemma loadLe32_le_load: "4 \<le> length bs \<Longrightarrow> loadLe32 bs = le_load (take 4 bs)"
  by (cases bs; cases "tl bs"; cases "tl (tl bs)"; cases "tl (tl (tl bs))")
    (simp_all add: loadLe32_def le_load_def take_Cons' or.assoc)

lemma loadLe16_le_load: "2 \<le> length bs \<Longrightarrow> loadLe16 bs = le_load (take 2 bs)"
  by (cases bs; cases "tl bs") (simp_all add: loadLe16_def le_load_def take_Cons')

lemma storeLe16_le_store: "storeLe16 v = le_store 2 v"
  by (simp add: storeLe16_def le_store_def numeral_2_eq_2)

lemma loadLe_store [simp]:
  "loadLe32 (storeLe32 v @ rest) = v" "loadLe16 (storeLe16 u @ rest) = u"
  "loadLe32 (storeLe32 v) = v"
  by (simp_all add: loadLe32_le_load loadLe16_le_load storeLe32_def storeLe16_le_store le_load_store)

lemma decode_encode_header:
  assumes "fh_wireVersion h = kWireVersion" and "fh_flags h AND NOT kFrameFlagKnownMask = 0"
    and "fh_reserved h = 0" and "fh_payloadLength h \<le> m" and "m \<le> kAbsoluteMaxPayloadBytes"
    and "fh_payloadLength h = 0 \<longrightarrow> fh_payloadCrc h = 0"
  shows "decodeFrameHeader (encodeFrameHeader h) m = Inr (h\<lparr>fh_headerCrc := 0\<rparr>)"
proof -
  have "loadLe32 (encodeFrameHeader h) = kFrameMagic"
    and "take 16 (encodeFrameHeader h) = header_prefix h"
    and "loadLe32 (drop 16 (encodeFrameHeader h)) = crc32c (header_prefix h)"
    and "loadLe16 (drop 4 (encodeFrameHeader h)) = fh_wireVersion h"
    and "loadLe16 (drop 6 (encodeFrameHeader h)) = frameTypeValue (fh_type h)"
    and "loadLe16 (drop 8 (encodeFrameHeader h)) = fh_flags h"
    and "loadLe16 (drop 10 (encodeFrameHeader h)) = fh_reserved h"
    and "loadLe32 (drop 12 (encodeFrameHeader h)) = fh_payloadLength h"
    and "loadLe32 (drop 20 (encodeFrameHeader h)) = fh_payloadCrc h"
    by (simp_all add: encodeFrameHeader_def header_prefix_def)
  then show ?thesis
    using assms
    by (cases h) (auto simp: decodeFrameHeader_def kFrameHeaderBytes_def isKnownFrameType_iff fail_if_def)
qed

lemma decodeFrameHeader_bounds:
  "decodeFrameHeader bs m = Inr h \<Longrightarrow> fh_payloadLength h \<le> m \<and> m \<le> kAbsoluteMaxPayloadBytes"
  by (auto simp: decodeFrameHeader_def result_simps not_less)

subsection \<open>The stream as one parse\<close>

text \<open>
  The reference the decoder is compared with. One step looks at the front of a byte string: it
  refuses it, or waits for more bytes, or yields a frame and the number of bytes it takes. A parse
  repeats the step and returns the frames, the unconsumed rest and the verdict.
\<close>

definition frame_step :: "u32 \<Rightarrow> bytes \<Rightarrow> (Frame \<times> nat) option result" where
  "frame_step m bs =
     (if length bs < kFrameHeaderBytes then Inr None
      else cf_try (decodeFrameHeader (take kFrameHeaderBytes bs) m) (\<lambda>h.
        let n = unat (fh_payloadLength h); payload = take n (drop kFrameHeaderBytes bs) in
        if length bs < kFrameHeaderBytes + n then Inr None
        else if payload \<noteq> [] \<and> crc32c payload \<noteq> fh_payloadCrc h then Inl IntegrityFailure
        else Inr (Some (\<lparr>fr_header = h, fr_payload = payload\<rparr>, kFrameHeaderBytes + n))))"

lemma frame_step_size:
  "frame_step m bs = Inr (Some (f, n)) \<Longrightarrow> 24 \<le> n \<and> n \<le> length bs"
  by (auto simp: frame_step_def Let_def kFrameHeaderBytes_def result_simps split: if_splits)

function parse_frames :: "u32 \<Rightarrow> bytes \<Rightarrow> Frame list \<times> bytes \<times> status" where
  "parse_frames m bs =
     (case frame_step m bs of
        Inl e \<Rightarrow> ([], bs, Inl e)
      | Inr None \<Rightarrow> ([], bs, Inr ())
      | Inr (Some (f, n)) \<Rightarrow>
          (case parse_frames m (drop n bs) of (fs, r, st) \<Rightarrow> (f # fs, r, st)))"
  by pat_completeness auto

termination
  by (relation "measure (length \<circ> snd)") (auto dest: frame_step_size)

declare parse_frames.simps [simp del]

lemma frame_step_append:
  assumes "frame_step m a \<noteq> Inr None"
  shows "frame_step m (a @ b) = frame_step m a"
proof -
  have long: "\<not> length a < kFrameHeaderBytes" using assms by (auto simp: frame_step_def)
  show ?thesis
  proof (cases "decodeFrameHeader (take kFrameHeaderBytes a) m")
    case (Inl e)
    with long show ?thesis by (simp add: frame_step_def)
  next
    case (Inr h)
    define n where "n = unat (fh_payloadLength h)"
    have all: "\<not> length a < kFrameHeaderBytes + n"
      using assms Inr long by (auto simp: frame_step_def Let_def n_def)
    then have "take n (drop kFrameHeaderBytes (a @ b)) = take n (drop kFrameHeaderBytes a)" by simp
    with Inr long all show ?thesis by (simp add: frame_step_def Let_def n_def)
  qed
qed

lemma frame_step_waits:
  assumes "frame_step m bs = Inr None" and "m \<le> kAbsoluteMaxPayloadBytes"
  shows "length bs < 24 + unat m"
proof (cases "length bs < 24")
  case False
  then obtain h where "decodeFrameHeader (take 24 bs) m = Inr h"
    and "length bs < 24 + unat (fh_payloadLength h)"
    using assms by (auto simp: frame_step_def Let_def kFrameHeaderBytes_def result_simps split: if_splits)
  with decodeFrameHeader_bounds show ?thesis by (fastforce simp: word_le_nat_alt)
qed simp

lemma feed_loop_step:
  "feed_loop m buf off =
     (case frame_step m (drop off buf) of
        Inl e \<Rightarrow> ([], off, Inl e)
      | Inr None \<Rightarrow> ([], off, Inr ())
      | Inr (Some (f, n)) \<Rightarrow>
          (case feed_loop m buf (off + n) of (fs, off', st) \<Rightarrow> (f # fs, off', st)))"
  by (subst feed_loop.simps)
    (auto simp: frame_step_def Let_def kFrameHeaderBytes_def add.commute split: sum.split)

lemma parse_frames_rest:
  "parse_frames m bs = (fs, r, st) \<Longrightarrow> length r \<le> length bs \<and> r = drop (length bs - length r) bs"
proof (induction m bs arbitrary: fs r st rule: parse_frames.induct)
  case (1 m bs)
  show ?case
  proof (cases "frame_step m bs")
    case (Inl e)
    with "1.prems" show ?thesis by (simp add: parse_frames.simps)
  next
    case (Inr o')
    show ?thesis
    proof (cases o')
      case None
      with Inr "1.prems" show ?thesis by (simp add: parse_frames.simps)
    next
      case (Some fn)
      obtain f n where fn: "fn = (f, n)" by (cases fn)
      with Some Inr have step: "frame_step m bs = Inr (Some (f, n))" by simp
      obtain gs where "parse_frames m (drop n bs) = (gs, r, st)"
        using step "1.prems" by (cases "parse_frames m (drop n bs)") (simp add: parse_frames.simps [of m bs])
      from "1.IH" [OF Inr Some fn [symmetric] this] frame_step_size [OF step]
      have "length r \<le> length bs - n" and "r = drop (n + (length bs - n - length r)) bs"
        and "n \<le> length bs" by (simp_all add: add.commute)
      moreover from this have "n + (length bs - n - length r) = length bs - length r" by simp
      ultimately show ?thesis by simp
    qed
  qed
qed

lemma feed_loop_parse:
  "off \<le> length buf \<Longrightarrow> feed_loop m buf off =
    (case parse_frames m (drop off buf) of (fs, r, st) \<Rightarrow> (fs, length buf - length r, st))"
proof (induction "length buf - off" arbitrary: off rule: less_induct)
  case less
  show ?case
  proof (cases "\<exists>f n. frame_step m (drop off buf) = Inr (Some (f, n))")
    case True
    then obtain f n where step: "frame_step m (drop off buf) = Inr (Some (f, n))" by blast
    have n: "24 \<le> n" "n \<le> length buf - off" using frame_step_size [OF step] by simp_all
    show ?thesis
      using less.hyps [of "off + n"] n less.prems step
      by (simp add: feed_loop_step [of m buf off] parse_frames.simps [of m "drop off buf"] add.commute
          split: prod.split)
  next
    case False
    then show ?thesis
      using less.prems
      by (auto simp: feed_loop_step [of m buf off] parse_frames.simps [of m "drop off buf"]
          split: sum.split option.split)
  qed
qed

text \<open>Parsing is compatible with arrival in pieces.\<close>

lemma parse_frames_append:
  "parse_frames m a = (fs, r, st) \<Longrightarrow>
     parse_frames m (a @ b) =
       (case st of
          Inl e \<Rightarrow> (fs, r @ b, Inl e)
        | Inr _ \<Rightarrow> (case parse_frames m (r @ b) of (gs, r', st') \<Rightarrow> (fs @ gs, r', st')))"
proof (induction m a arbitrary: fs r st rule: parse_frames.induct)
  case (1 m a)
  show ?case
  proof (cases "frame_step m a")
    case (Inl e)
    then show ?thesis
      using "1.prems" frame_step_append [of m a b] by (auto simp: parse_frames.simps)
  next
    case (Inr o')
    show ?thesis
    proof (cases o')
      case None
      with Inr "1.prems" show ?thesis by (auto simp: parse_frames.simps [of m a] split: prod.split)
    next
      case (Some fn)
      obtain f n where fn: "fn = (f, n)" by (cases fn)
      with Some Inr have step: "frame_step m a = Inr (Some (f, n))" by simp
      then have step': "frame_step m (a @ b) = Inr (Some (f, n))" by (simp add: frame_step_append)
      obtain gs where gs: "parse_frames m (drop n a) = (gs, r, st)" and fs: "fs = f # gs"
        using step "1.prems" by (cases "parse_frames m (drop n a)") (simp add: parse_frames.simps [of m a])
      have "drop n (a @ b) = drop n a @ b" using frame_step_size [OF step] by simp
      with "1.IH" [OF Inr Some fn [symmetric] gs] step' fs show ?thesis
        by (auto simp: parse_frames.simps [of m "a @ b"] split: sum.split prod.split)
    qed
  qed
qed

lemma parse_frames_waits:
  "parse_frames m bs = (fs, r, Inr ()) \<Longrightarrow> frame_step m r = Inr None"
proof (induction m bs arbitrary: fs r rule: parse_frames.induct)
  case (1 m bs)
  then show ?case
    by (subst (asm) (2) parse_frames.simps) (auto split: sum.split_asm option.split_asm prod.split_asm)
qed

lemma parse_frames_idle: "frame_step m r = Inr None \<Longrightarrow> parse_frames m r = ([], r, Inr ())"
  by (simp add: parse_frames.simps)

subsection \<open>The decoder refines the parse\<close>

definition fd_pending :: "FrameDecoder \<Rightarrow> bytes" where
  "fd_pending d = drop (fd_offset d) (fd_buffer d)"

text \<open>Between two feeds the decoder holds an incomplete frame, and the ceilings are those of the protocol.\<close>

definition fd_inv :: "FrameDecoder \<Rightarrow> bool" where
  "fd_inv d \<longleftrightarrow> fd_offset d \<le> length (fd_buffer d)
     \<and> fd_maxPayloadBytes d \<le> kAbsoluteMaxPayloadBytes
     \<and> frame_step (fd_maxPayloadBytes d) (fd_pending d) = Inr None"

lemma compact_keeps:
  assumes "fd_offset d \<le> length (fd_buffer d)"
  shows "fd_pending (FrameDecoder_compact d) = fd_pending d"
    and "fd_offset (FrameDecoder_compact d) \<le> length (fd_buffer (FrameDecoder_compact d))"
    and "fd_maxPayloadBytes (FrameDecoder_compact d) = fd_maxPayloadBytes d"
    and "length (fd_buffer (FrameDecoder_compact d)) \<le> length (fd_buffer d)"
  using assms by (simp_all add: FrameDecoder_compact_def fd_pending_def)

lemma ceiling_fits:
  "m \<le> kAbsoluteMaxPayloadBytes \<Longrightarrow> checkedAdd_size kFrameHeaderBytes (unat m) = Some (24 + unat m)"
  by (simp add: checkedAdd_size_def kFrameHeaderBytes_def kAbsoluteMaxPayloadBytes_def word_le_nat_alt)

lemma feed_refines:
  assumes inv: "fd_inv d" and room: "length (fd_buffer d) + length data < 2 ^ 64" and "data \<noteq> []"
    and feed: "FrameDecoder_feed d data = (d', fs, st)"
  shows "parse_frames (fd_maxPayloadBytes d) (fd_pending d @ data) = (fs, fd_pending d', st)
    \<and> fd_maxPayloadBytes d' = fd_maxPayloadBytes d
    \<and> length (fd_buffer d') \<le> length (fd_buffer d) + length data
    \<and> (st = Inr () \<longrightarrow> fd_inv d')"
proof -
  let ?m = "fd_maxPayloadBytes d"
  let ?c = "FrameDecoder_compact d"
  from inv have off: "fd_offset d \<le> length (fd_buffer d)" and m: "?m \<le> kAbsoluteMaxPayloadBytes"
    by (simp_all add: fd_inv_def)
  note c = compact_keeps [OF off]
  let ?buf = "fd_buffer ?c @ data"
  obtain gs r st' where p: "parse_frames ?m (fd_pending d @ data) = (gs, r, st')"
    by (cases "parse_frames ?m (fd_pending d @ data)")
  have pend: "drop (fd_offset ?c) ?buf = fd_pending d @ data"
    using c by (simp add: fd_pending_def)
  have r: "length r \<le> length ?buf" and rd: "drop (length ?buf - length r) ?buf = r"
  proof -
    from parse_frames_rest [OF p] have "length r \<le> length (drop (fd_offset ?c) ?buf)"
      and "r = drop (length (drop (fd_offset ?c) ?buf) - length r) (drop (fd_offset ?c) ?buf)"
      by (simp_all only: pend)
    then show "length r \<le> length ?buf" and "drop (length ?buf - length r) ?buf = r"
      using c(2) by (simp_all add: add.commute)
  qed
  have loop: "feed_loop ?m ?buf (fd_offset ?c) = (gs, length ?buf - length r, st')"
    using feed_loop_parse [of "fd_offset ?c" ?buf ?m] c(2) pend p by simp
  have proj: "checkedAdd_size (length (fd_buffer ?c)) (length data)
      = Some (length (fd_buffer ?c) + length data)"
    using room c(4) by (simp add: checkedAdd_size_def)
  have small: "st' = Inr () \<Longrightarrow> length r \<le> 24 + unat ?m"
    using p frame_step_waits [OF parse_frames_waits m] by fastforce
  have d': "d' = ?c\<lparr>fd_buffer := ?buf, fd_offset := length ?buf - length r\<rparr>" and "fs = gs" and "st = st'"
    using feed \<open>data \<noteq> []\<close> loop proj ceiling_fits [OF m] small r
    by (auto simp: FrameDecoder_feed_def Let_def c(3) split: sum.split_asm)
  moreover have "fd_pending d' = r" using d' rd by (simp add: fd_pending_def)
  ultimately show ?thesis
    using p c(3,4) m parse_frames_waits [of ?m "fd_pending d @ data" fs r] by (auto simp: fd_inv_def)
qed

text \<open>However a stream is cut into reads, the decoder reports what one parse of the whole reports.\<close>

lemma feed_all_refines:
  "fd_inv d \<Longrightarrow> length (fd_buffer d) + length (concat chunks) < 2 ^ 64 \<Longrightarrow>
   feed_all d chunks = (d', fs, st) \<Longrightarrow>
   \<exists>r. parse_frames (fd_maxPayloadBytes d) (fd_pending d @ concat chunks) = (fs, r, st)
     \<and> (st = Inr () \<longrightarrow> r = fd_pending d' \<and> fd_inv d')"
proof (induction chunks arbitrary: d d' fs st)
  case Nil
  then show ?case by (simp add: fd_inv_def parse_frames_idle)
next
  case (Cons c cs)
  let ?m = "fd_maxPayloadBytes d"
  show ?case
  proof (cases "c = []")
    case True
    then have "feed_all d cs = (d', fs, st)" using Cons.prems(3) by (simp add: FrameDecoder_feed_def split: prod.splits)
    with Cons.IH [OF Cons.prems(1)] Cons.prems(2) True show ?thesis by simp
  next
    case False
    obtain e gs st1 where f: "FrameDecoder_feed d c = (e, gs, st1)" by (cases "FrameDecoder_feed d c")
    have "length (fd_buffer d) + length c < 2 ^ 64" using Cons.prems(2) by simp
    note one = feed_refines [OF Cons.prems(1) this False f]
    then have p: "parse_frames ?m (fd_pending d @ c) = (gs, fd_pending e, st1)" by blast
    show ?thesis
    proof (cases st1)
      case (Inl err)
      with f Cons.prems(3) have "fs = gs" "st = Inl err" by auto
      with parse_frames_append [OF p, of "concat cs"] Inl show ?thesis by simp
    next
      case (Inr u)
      obtain hs where all: "feed_all e cs = (d', hs, st)" and fs: "fs = gs @ hs"
        using f Inr Cons.prems(3) by (auto split: prod.splits)
      from one Inr have "fd_inv e" "fd_maxPayloadBytes e = ?m"
        "length (fd_buffer e) + length (concat cs) < 2 ^ 64"
        using Cons.prems(2) by auto
      with Cons.IH [of e d' hs st] all obtain r where
        "parse_frames ?m (fd_pending e @ concat cs) = (hs, r, st)"
        "st = Inr () \<longrightarrow> r = fd_pending d' \<and> fd_inv d'" by auto
      with parse_frames_append [OF p, of "concat cs"] Inr fs show ?thesis by auto
    qed
  qed
qed

subsection \<open>What was sent is what arrives\<close>

definition sent_frame :: "FrameType \<Rightarrow> u16 \<Rightarrow> bytes \<Rightarrow> Frame" where
  "sent_frame t flags payload = \<lparr>fr_header = frame_header_for t flags payload, fr_payload = payload\<rparr>"

lemma unat_payload_length:
  "length p \<le> unat m \<Longrightarrow> unat (of_nat (length p) :: u32) = length p" for m :: u32
  using unsigned_less [of m, where 'a = nat] by (simp add: unat_of_nat)

lemma encodeFrame_Inr_iff:
  "encodeFrame t flags p m = Inr bs \<longleftrightarrow>
     m \<le> kAbsoluteMaxPayloadBytes \<and> length p \<le> unat m \<and> flags AND NOT kFrameFlagKnownMask = 0
     \<and> bs = encodeFrameHeader (frame_header_for t flags p) @ p"
  by (auto simp: encodeFrame_def result_simps isKnownFrameType_iff not_less)

lemma decode_sent_header:
  assumes "encodeFrame t flags p m0 = Inr bs" and "length p \<le> unat m" and "m \<le> kAbsoluteMaxPayloadBytes"
  shows "decodeFrameHeader (take 24 (bs @ rest)) m = Inr (frame_header_for t flags p)"
proof -
  have "take 24 (bs @ rest) = encodeFrameHeader (frame_header_for t flags p)"
    using assms(1) by (simp add: encodeFrame_Inr_iff)
  moreover have "of_nat (length p) \<le> m"
    using assms(2) by (simp add: word_le_nat_alt unat_payload_length)
  moreover have "(of_nat (length p) :: u32) = 0 \<longrightarrow> p = []"
    using unat_payload_length [OF assms(2)] by auto
  moreover have "flags AND NOT kFrameFlagKnownMask = 0"
    using assms(1) by (simp add: encodeFrame_Inr_iff)
  ultimately show ?thesis
    using decode_encode_header [of "frame_header_for t flags p" m] assms(3)
    by (simp add: frame_header_for_def)
qed

lemma frame_step_sent:
  assumes "encodeFrame t flags p m0 = Inr bs" and "length p \<le> unat m" and "m \<le> kAbsoluteMaxPayloadBytes"
  shows "frame_step m (bs @ rest) = Inr (Some (sent_frame t flags p, length bs))"
proof -
  have bs: "bs = encodeFrameHeader (frame_header_for t flags p) @ p"
    using assms(1) by (simp add: encodeFrame_Inr_iff)
  have "unat (fh_payloadLength (frame_header_for t flags p)) = length p"
    using unat_payload_length [OF assms(2)] by (simp add: frame_header_for_def)
  then show ?thesis
    using decode_sent_header [OF assms, of rest] bs
    by (simp add: frame_step_def Let_def kFrameHeaderBytes_def sent_frame_def)
      (simp add: frame_header_for_def)
qed

text \<open>A message on the wire: type, flags and payload.\<close>

type_synonym wire_message = "FrameType \<times> u16 \<times> bytes"

definition sendable :: "u32 \<Rightarrow> wire_message \<Rightarrow> bool" where
  "sendable m = (\<lambda>(t, flags, p). length p \<le> unat m \<and> flags AND NOT kFrameFlagKnownMask = 0)"

definition wire_bytes :: "u32 \<Rightarrow> wire_message \<Rightarrow> bytes" where
  "wire_bytes m = (\<lambda>(t, flags, p). valueOr (encodeFrame t flags p m) [])"

definition wire_frame :: "wire_message \<Rightarrow> Frame" where
  "wire_frame = (\<lambda>(t, flags, p). sent_frame t flags p)"

lemma parse_sent:
  "m \<le> kAbsoluteMaxPayloadBytes \<Longrightarrow> list_all (sendable m) msgs \<Longrightarrow>
     parse_frames m (concat (map (wire_bytes m) msgs)) = (map wire_frame msgs, [], Inr ())"
proof (induction msgs)
  case Nil
  then show ?case by (simp add: parse_frames.simps frame_step_def kFrameHeaderBytes_def)
next
  case (Cons msg msgs)
  obtain t flags p where msg: "msg = (t, flags, p)" by (cases msg)
  then obtain bs where bs: "encodeFrame t flags p m = Inr bs" and "length p \<le> unat m"
    using Cons.prems by (auto simp: sendable_def encodeFrame_Inr_iff)
  then have step: "frame_step m (wire_bytes m msg @ concat (map (wire_bytes m) msgs))
      = Inr (Some (wire_frame msg, length (wire_bytes m msg)))"
    using Cons.prems(1) frame_step_sent [of t flags p m bs m]
    by (simp add: msg wire_bytes_def wire_frame_def valueOr_def)
  then show ?case
    using Cons by (simp add: parse_frames.simps [of m "wire_bytes m msg @ concat (map (wire_bytes m) msgs)"])
qed

lemma fd_inv_init: "m \<le> kAbsoluteMaxPayloadBytes \<Longrightarrow> fd_inv (FrameDecoder_init m)"
  by (simp add: fd_inv_def FrameDecoder_init_def fd_pending_def frame_step_def kFrameHeaderBytes_def)

subsection \<open>Corruption\<close>

lemma crc32c_update_differs:
  assumes "i < length xs" and "b \<noteq> xs ! i"
  shows "crc32c (xs[i := b]) \<noteq> crc32c xs"
  using crc32c_one_byte_change [OF assms(2), of "take i xs" "drop (Suc i) xs"] assms(1)
  by (metis id_take_nth_drop upd_conv_take_nth_drop)

lemma loadLe32_update_differs:
  assumes "4 \<le> length xs" and "i < 4" and "b \<noteq> xs ! i"
  shows "loadLe32 (xs[i := b]) \<noteq> loadLe32 xs"
proof
  assume "loadLe32 (xs[i := b]) = loadLe32 xs"
  then have "(le_load (take 4 (xs[i := b])) :: u32) = le_load (take 4 xs)"
    using assms(1) by (simp add: loadLe32_le_load)
  then have "take 4 (xs[i := b]) = take 4 xs"
    using assms(1) by (intro le_load_inj) simp_all
  then have "take 4 (xs[i := b]) ! i = take 4 xs ! i" by simp
  with assms show False by simp
qed

lemma loadLe32_update_same: "4 \<le> i \<Longrightarrow> loadLe32 (xs[i := b]) = loadLe32 xs"
  by (simp add: loadLe32_def)

lemma decode_checks_crc:
  "decodeFrameHeader bs m = Inr h \<Longrightarrow> crc32c (take 16 bs) = loadLe32 (drop 16 bs)"
  "decodeFrameHeader bs m = Inr h \<Longrightarrow> fh_payloadLength h = loadLe32 (drop 12 bs)"
  "decodeFrameHeader bs m = Inr h \<Longrightarrow> fh_payloadCrc h = loadLe32 (drop 20 bs)"
  "decodeFrameHeader bs m = Inr h \<Longrightarrow> fh_payloadLength h = 0 \<Longrightarrow> fh_payloadCrc h = 0"
  by (auto simp: decodeFrameHeader_def result_simps)

lemma corrupt_prefix_refused:
  assumes h: "decodeFrameHeader bs m = Inr h" and len: "length bs = 24" and i: "i < 20" and b: "b \<noteq> bs ! i"
  shows "decodeFrameHeader (bs[i := b]) m \<noteq> Inr h'"
proof
  assume "decodeFrameHeader (bs[i := b]) m = Inr h'"
  from decode_checks_crc(1) [OF this] decode_checks_crc(1) [OF h]
  have c: "crc32c (take 16 (bs[i := b])) = loadLe32 (drop 16 (bs[i := b]))"
    and c0: "crc32c (take 16 bs) = loadLe32 (drop 16 bs)" by simp_all
  show False
  proof (cases "i < 16")
    case True
    then have "crc32c ((take 16 bs)[i := b]) \<noteq> crc32c (take 16 bs)"
      using len b by (intro crc32c_update_differs) simp_all
    with c c0 True show False by (simp add: take_update_swap)
  next
    case False
    then have "loadLe32 ((drop 16 bs)[i - 16 := b]) \<noteq> loadLe32 (drop 16 bs)"
      using len b i by (intro loadLe32_update_differs) simp_all
    with c c0 False show False by (simp add: drop_update_swap)
  qed
qed

lemma frame_step_corrupt:
  assumes enc: "encodeFrame t flags p m0 = Inr bs" and pm: "length p \<le> unat m" and m: "m \<le> kAbsoluteMaxPayloadBytes"
    and i: "i < length bs" and b: "b \<noteq> bs ! i"
  shows "\<exists>e. frame_step m (bs[i := b]) = Inl e"
proof -
  define h where "h = frame_header_for t flags p"
  have bs: "bs = encodeFrameHeader h @ p" using enc by (simp add: encodeFrame_Inr_iff h_def)
  have dec: "decodeFrameHeader (take 24 bs) m = Inr h"
    using decode_sent_header [OF enc pm m, of "[]"] by (simp add: h_def)
  have n: "unat (fh_payloadLength h) = length p"
    using unat_payload_length [OF pm] by (simp add: h_def frame_header_for_def)
  have len: "length bs = 24 + length p" and pay: "drop 24 bs = p" by (simp_all add: bs)
  have crc: "p \<noteq> [] \<Longrightarrow> fh_payloadCrc h = crc32c p" by (simp add: h_def frame_header_for_def)
  consider (front) "i < 20" | (crc) "20 \<le> i" "i < 24" | (payload) "24 \<le> i" by linarith
  then show ?thesis
  proof cases
    case front
    have "decodeFrameHeader ((take 24 bs)[i := b]) m \<noteq> Inr h'" for h'
      using front b len by (intro corrupt_prefix_refused [OF dec]) simp_all
    then obtain e where "decodeFrameHeader (take 24 (bs[i := b])) m = Inl e"
      using front by (cases "decodeFrameHeader ((take 24 bs)[i := b]) m") (auto simp: take_update_swap)
    then show ?thesis using len by (auto simp: frame_step_def kFrameHeaderBytes_def)
  next
    case crc: crc
    let ?bs = "(take 24 bs)[i := b]"
    have d12: "loadLe32 (drop 12 ?bs) = loadLe32 (drop 12 (take 24 bs))"
      using crc by (simp add: drop_update_swap loadLe32_update_same)
    have "loadLe32 ((drop 20 (take 24 bs))[i - 20 := b]) \<noteq> loadLe32 (drop 20 (take 24 bs))"
      using crc b len by (intro loadLe32_update_differs) simp_all
    then have d20: "loadLe32 (drop 20 ?bs) \<noteq> fh_payloadCrc h"
      using crc decode_checks_crc(3) [OF dec] by (simp add: drop_update_swap)
    show ?thesis
    proof (cases "decodeFrameHeader ?bs m")
      case (Inl e)
      then show ?thesis using crc len by (auto simp: frame_step_def kFrameHeaderBytes_def take_update_swap)
    next
      case (Inr h')
      have l: "fh_payloadLength h' = fh_payloadLength h" and c: "fh_payloadCrc h' \<noteq> fh_payloadCrc h"
        using decode_checks_crc(2,3) [OF Inr] decode_checks_crc(2) [OF dec] d12 d20 by simp_all
      have "p \<noteq> []"
      proof
        assume "p = []"
        with n l have "fh_payloadLength h' = 0" by (simp add: unat_eq_zero)
        with c decode_checks_crc(4) [OF Inr] \<open>p = []\<close> show False
          by (simp add: h_def frame_header_for_def)
      qed
      then show ?thesis
        using Inr crc len l c n pay \<open>p \<noteq> [] \<Longrightarrow> fh_payloadCrc h = crc32c p\<close>
        by (simp add: frame_step_def kFrameHeaderBytes_def take_update_swap Let_def drop_update_cancel)
    qed
  next
    case payload
    have "crc32c (p[i - 24 := b]) \<noteq> crc32c p"
      using payload i b len by (intro crc32c_update_differs) (simp_all add: bs nth_append)
    moreover have "p \<noteq> []" using payload i len by auto
    ultimately show ?thesis
      using payload len n pay crc dec
      by (simp add: frame_step_def kFrameHeaderBytes_def Let_def drop_update_swap)
  qed
qed

subsection \<open>Properties\<close>

text \<open>
  C1: the stream decoder delivers exactly what was sent. Any number of frames within the payload
  ceiling, encoded one after the other and cut into reads in any way at all, come out of the decoder
  in order and unchanged; no error is reported and nothing is left in the buffer.
\<close>

theorem stream_roundtrip:
  assumes "m \<le> kAbsoluteMaxPayloadBytes" and "list_all (sendable m) msgs"
    and "concat chunks = concat (map (wire_bytes m) msgs)" and "length (concat chunks) < 2 ^ 64"
  shows "\<exists>d. feed_all (FrameDecoder_init m) chunks = (d, map wire_frame msgs, Inr ())
           \<and> FrameDecoder_finish d = Inr ()"
proof -
  obtain d fs st where f: "feed_all (FrameDecoder_init m) chunks = (d, fs, st)"
    by (cases "feed_all (FrameDecoder_init m) chunks")
  have "\<exists>r. parse_frames m (concat chunks) = (fs, r, st) \<and> (st = Inr () \<longrightarrow> r = fd_pending d \<and> fd_inv d)"
    using feed_all_refines [OF fd_inv_init [OF assms(1)] _ f] assms(4)
    by (simp add: FrameDecoder_init_def fd_pending_def)
  with parse_sent [OF assms(1,2)] assms(3)
  have "fs = map wire_frame msgs" "st = Inr ()" "fd_pending d = []" by auto
  then show ?thesis
    using f by (simp add: FrameDecoder_finish_def FrameDecoder_buffered_def fd_pending_def)
qed

theorem stream_roundtrip_witness:
  "\<exists>w. w = concat (map (wire_bytes 1024) [(Ping, 0, [1, 2, 3]), (Goodbye, 1, [])]) \<and>
     (\<exists>d. feed_all (FrameDecoder_init 1024) [take 5 w, [], drop 5 w]
           = (d, [sent_frame Ping 0 [1, 2, 3], sent_frame Goodbye 1 []], Inr ())
         \<and> FrameDecoder_finish d = Inr ())"
  using stream_roundtrip [of 1024 "[(Ping, 0, [1, 2, 3]), (Goodbye, 1, [])]"
      "[take 5 (concat (map (wire_bytes 1024) [(Ping, 0, [1, 2, 3]), (Goodbye, 1, [])])), [],
        drop 5 (concat (map (wire_bytes 1024) [(Ping, 0, [1, 2, 3]), (Goodbye, 1, [])]))]"]
  by (simp add: kAbsoluteMaxPayloadBytes_def sendable_def kFrameFlagKnownMask_def wire_frame_def
      wire_bytes_def encodeFrame_def valueOr_def isKnownFrameType_iff)

text \<open>
  C11: one corrupted byte anywhere in an encoded frame, in the magic, the header fields, either
  checksum or the payload, is refused: the decoder yields no frame and reports an error.
\<close>

theorem corrupted_byte_refused:
  assumes "encodeFrame t flags p m = Inr bs" and "i < length bs" and "b \<noteq> bs ! i"
  shows "\<exists>d e. FrameDecoder_feed (FrameDecoder_init m) (bs[i := b]) = (d, [], Inl e)"
proof -
  from assms(1) have pm: "length p \<le> unat m" "m \<le> kAbsoluteMaxPayloadBytes"
    and bs: "bs = encodeFrameHeader (frame_header_for t flags p) @ p"
    by (simp_all add: encodeFrame_Inr_iff)
  obtain e where "frame_step m (bs[i := b]) = Inl e"
    using frame_step_corrupt [OF assms(1) pm assms(2,3)] by blast
  then have p: "parse_frames m (bs[i := b]) = ([], bs[i := b], Inl e)" by (simp add: parse_frames.simps)
  obtain d fs st where f: "FrameDecoder_feed (FrameDecoder_init m) (bs[i := b]) = (d, fs, st)"
    by (cases "FrameDecoder_feed (FrameDecoder_init m) (bs[i := b])")
  have "length bs < 2 ^ 64"
    using pm unsigned_less [of m, where 'a = nat] by (simp add: bs)
  moreover have "bs \<noteq> []" using assms(2) by auto
  ultimately have "fs = []" "st = Inl e"
    using feed_refines [OF fd_inv_init [OF pm(2)] _ _ f] p
    by (auto simp: FrameDecoder_init_def fd_pending_def)
  with f show ?thesis by blast
qed

theorem corrupted_byte_refused_witness:
  "\<exists>bs. encodeFrame Ping 0 [1, 2, 3] 1024 = Inr bs
     \<and> (\<exists>d e. FrameDecoder_feed (FrameDecoder_init 1024) (bs[25 := 9]) = (d, [], Inl e))"
proof -
  have e: "encodeFrame Ping 0 [1, 2, 3] 1024
      = Inr (encodeFrameHeader (frame_header_for Ping 0 [1, 2, 3]) @ [1, 2, 3])"
    by (simp add: encodeFrame_def isKnownFrameType_iff kAbsoluteMaxPayloadBytes_def)
  have "\<exists>d e. FrameDecoder_feed (FrameDecoder_init 1024)
      ((encodeFrameHeader (frame_header_for Ping 0 [1, 2, 3]) @ [1, 2, 3])[25 := 9]) = (d, [], Inl e)"
    by (rule corrupted_byte_refused [OF e]) (simp_all add: nth_append)
  with e show ?thesis by blast
qed

text \<open>
  C39: the decoder never buffers more than one maximum frame. After every successful feed fewer than
  24 + maxPayloadBytes unconsumed bytes remain, so the final size check of feed can never be the
  reason of an error.
\<close>

theorem decoder_buffer_bound:
  assumes "fd_inv d" and "length (fd_buffer d) + length data < 2 ^ 64"
    and "FrameDecoder_feed d data = (d', frames, Inr ())"
  shows "FrameDecoder_buffered d' < 24 + unat (fd_maxPayloadBytes d) \<and> fd_inv d'"
proof (cases "data = []")
  case True
  with assms have "d' = d" by (simp add: FrameDecoder_feed_def)
  with assms(1) frame_step_waits [of "fd_maxPayloadBytes d" "fd_pending d"] show ?thesis
    by (simp add: fd_inv_def FrameDecoder_buffered_def fd_pending_def)
next
  case False
  with feed_refines [OF assms(1,2) _ assms(3)] have "fd_inv d'" "fd_maxPayloadBytes d' = fd_maxPayloadBytes d"
    by auto
  with frame_step_waits [of "fd_maxPayloadBytes d'" "fd_pending d'"] show ?thesis
    by (simp add: fd_inv_def FrameDecoder_buffered_def fd_pending_def)
qed

theorem decoder_buffer_bound_witness:
  "FrameDecoder_feed (FrameDecoder_init 1024) [1, 2, 3]
     = (\<lparr>fd_maxPayloadBytes = 1024, fd_buffer = [1, 2, 3], fd_offset = 0\<rparr>, [], Inr ())
   \<and> FrameDecoder_buffered \<lparr>fd_maxPayloadBytes = 1024, fd_buffer = [1, 2, 3], fd_offset = 0\<rparr> < 24 + 1024"
proof -
  have f: "FrameDecoder_feed (FrameDecoder_init 1024) [1, 2, 3]
     = (\<lparr>fd_maxPayloadBytes = 1024, fd_buffer = [1, 2, 3], fd_offset = 0\<rparr>, [], Inr ())"
    by (simp add: FrameDecoder_feed_def FrameDecoder_init_def FrameDecoder_compact_def Let_def
        checkedAdd_size_def kFrameHeaderBytes_def feed_loop.simps)
  have "FrameDecoder_buffered \<lparr>fd_maxPayloadBytes = 1024, fd_buffer = [1, 2, 3], fd_offset = 0\<rparr>
      < 24 + unat (fd_maxPayloadBytes (FrameDecoder_init 1024))"
    using decoder_buffer_bound [OF fd_inv_init _ f]
    by (simp add: kAbsoluteMaxPayloadBytes_def FrameDecoder_init_def)
  with f show ?thesis by (simp add: FrameDecoder_init_def)
qed

end
