(* ===== verification/MessageFields.thy ===== *)
theory MessageFields
  imports Frame
begin

text \<open>
  The field readers and writers of \<^verbatim>\<open>src/protocol.cpp\<close> that every message codec is put together from:
  identifiers, generations, digests, opaque identities and enumerations, with the range checks the
  sources make on each, and the capability bits of the handshake. Each reader is shown to be the
  exact inverse of its writer by interpreting the codec contract.
\<close>

subsection \<open>Bounds\<close>

definition kAuthTagBytes :: nat where
  "kAuthTagBytes = 32"

definition kMaxMessageDetailBytes :: nat where
  "kMaxMessageDetailBytes = 256"

definition kMaxTransfersInReport :: nat where
  "kMaxTransfersInReport = 64"

definition kMaxFindingsInReport :: nat where
  "kMaxFindingsInReport = 64"

definition kMaxChunkPayloadBytes :: nat where
  "kMaxChunkPayloadBytes = unat kAbsoluteMaxPayloadBytes div 2"

subsection \<open>Capabilities\<close>

definition kCapabilityAtomicApply :: u32 where
  "kCapabilityAtomicApply = push_bit 0 1"

definition kCapabilityPrepareCommit :: u32 where
  "kCapabilityPrepareCommit = push_bit 1 1"

definition kCapabilityReconcile :: u32 where
  "kCapabilityReconcile = push_bit 2 1"

definition kCapabilityResumeTransfer :: u32 where
  "kCapabilityResumeTransfer = push_bit 3 1"

definition kCapabilityRetire :: u32 where
  "kCapabilityRetire = push_bit 4 1"

definition kCapabilityKnownMask :: u32 where
  "kCapabilityKnownMask = 0x1F"

definition capabilitiesFor :: "ApplyGuarantee \<Rightarrow> u32" where
  "capabilitiesFor guarantee =
     (kCapabilityReconcile OR kCapabilityResumeTransfer OR kCapabilityRetire)
     OR (case guarantee of
           AtomicActivate \<Rightarrow> kCapabilityAtomicApply
         | PrepareCommitAbort \<Rightarrow> kCapabilityPrepareCommit)"

definition capabilitySupportsGuarantee :: "u32 \<Rightarrow> ApplyGuarantee \<Rightarrow> bool" where
  "capabilitySupportsGuarantee capabilities guarantee =
     (case guarantee of
        AtomicActivate \<Rightarrow> capabilities AND kCapabilityAtomicApply \<noteq> 0
      | PrepareCommitAbort \<Rightarrow> capabilities AND kCapabilityPrepareCommit \<noteq> 0)"

definition renderCapabilities :: "u32 \<Rightarrow> string" where
  "renderCapabilities capabilities =
     (let append = (\<lambda>(bit, name) out.
            if capabilities AND bit \<noteq> 0 then out @ (if out \<noteq> [] then '','' else []) @ name else out);
          out = fold append
            [(kCapabilityAtomicApply, ''atomic-apply''),
             (kCapabilityPrepareCommit, ''prepare-commit-abort''),
             (kCapabilityReconcile, ''reconcile''),
             (kCapabilityResumeTransfer, ''resume-transfer''),
             (kCapabilityRetire, ''retire'')] []
      in if out = [] then ''none'' else out)"

subsection \<open>Enumerations on the wire\<close>

text \<open>
  \<^verbatim>\<open>static_cast\<close> of a raw byte to an enumeration. The sources cast only behind a range check, so the
  value chosen outside the enumerators never matters.
\<close>

definition deliveryState_cast :: "byte \<Rightarrow> DeliveryState" where
  "deliveryState_cast raw =
     (case List.find (\<lambda>s. deliveryStateValue s = raw) allDeliveryStates of Some s \<Rightarrow> s | None \<Rightarrow> Prepared)"

definition targetClass_cast :: "byte \<Rightarrow> TargetClass" where
  "targetClass_cast raw =
     (if raw = 1 then NetworkDevice else if raw = 2 then ControlPlaneParticipant else Unspecified)"

definition applyGuarantee_cast :: "byte \<Rightarrow> ApplyGuarantee" where
  "applyGuarantee_cast raw = (if raw = 2 then PrepareCommitAbort else AtomicActivate)"

definition guaranteeRequirement_cast :: "byte \<Rightarrow> GuaranteeRequirement" where
  "guaranteeRequirement_cast raw = (if raw = 2 then AllowPrepareCommit else RequireAtomic)"

definition readEnum8 :: "(byte \<Rightarrow> bool) \<Rightarrow> (byte \<Rightarrow> 'e) \<Rightarrow> 'e reader" where
  "readEnum8 validator cast =
     r_narrow r_u8 (\<lambda>raw. if \<not> validator raw then Inl MalformedInput else Inr (cast raw))"

definition readDeliveryState :: "DeliveryState reader" where
  "readDeliveryState = readEnum8 (\<lambda>raw. raw \<ge> 1 \<and> raw \<le> 10) deliveryState_cast"

definition readTargetClass :: "TargetClass reader" where
  "readTargetClass = readEnum8 (\<lambda>raw. raw \<le> 2) targetClass_cast"

definition readApplyGuarantee :: "ApplyGuarantee reader" where
  "readApplyGuarantee = readEnum8 (\<lambda>raw. raw \<ge> 1 \<and> raw \<le> 2) applyGuarantee_cast"

definition readGuaranteeRequirement :: "GuaranteeRequirement reader" where
  "readGuaranteeRequirement = readEnum8 (\<lambda>raw. raw \<ge> 1 \<and> raw \<le> 2) guaranteeRequirement_cast"

primrec retryDirectiveValue :: "RetryDirective \<Rightarrow> byte" where
  "retryDirectiveValue DoNotRetry = 0"
| "retryDirectiveValue RetryNow = 1"
| "retryDirectiveValue RetryWithBackoff = 2"
| "retryDirectiveValue RetryNewSession = 3"
| "retryDirectiveValue RetryAfterReconcile = 4"
| "retryDirectiveValue Terminal = 5"

definition retryDirective_cast :: "byte \<Rightarrow> RetryDirective" where
  "retryDirective_cast raw =
     (case List.find (\<lambda>d. retryDirectiveValue d = raw)
             [DoNotRetry, RetryNow, RetryWithBackoff, RetryNewSession, RetryAfterReconcile, Terminal] of
        Some d \<Rightarrow> d | None \<Rightarrow> DoNotRetry)"

definition readRetryDirective :: "RetryDirective reader" where
  "readRetryDirective = readEnum8 (\<lambda>raw. raw \<le> 5) retryDirective_cast"

text \<open>Error codes travel as 16-bit values; \<^const>\<open>None\<close> is a value with no enumerator.\<close>

definition errorCode_cast :: "u16 \<Rightarrow> ErrorCode option" where
  "errorCode_cast raw = List.find (\<lambda>c. of_nat (errorCodeValue c) = raw) allErrorCodes"

definition isValidErrorCode :: "u16 \<Rightarrow> bool" where
  "isValidErrorCode raw =
     (case errorCode_cast raw of None \<Rightarrow> False | Some c \<Rightarrow> errorCodeName c \<noteq> ''Unknown'')"

definition readErrorCode :: "ErrorCode reader" where
  "readErrorCode =
     r_narrow r_u16 (\<lambda>raw. if \<not> isValidErrorCode raw then Inl MalformedInput else Inr (the (errorCode_cast raw)))"

subsection \<open>Identifiers and numbers\<close>

definition readTargetId :: "TargetId reader" where
  "readTargetId = r_narrow (r_string kMaxIdentifierLength) parseId"

definition readConfigKey :: "ConfigKey reader" where
  "readConfigKey = r_narrow (r_string kMaxIdentifierLength) parseId"

definition readArtifactId :: "ArtifactId reader" where
  "readArtifactId = r_narrow (r_string kMaxIdentifierLength) parseId"

definition readDeploymentId :: "DeploymentId reader" where
  "readDeploymentId = r_narrow (r_string kMaxIdentifierLength) parseId"

definition readNodeId :: "NodeId reader" where
  "readNodeId = r_narrow (r_string kMaxIdentifierLength) parseId"

definition readSchemaId :: "SchemaId reader" where
  "readSchemaId = r_narrow (r_string kMaxIdentifierLength) parseId"

definition readOptionalArtifactId :: "ArtifactId reader" where
  "readOptionalArtifactId =
     r_narrow (r_string kMaxIdentifierLength) (\<lambda>text. if text = [] then Inr [] else parseId text)"

definition readOptionalDeploymentId :: "DeploymentId reader" where
  "readOptionalDeploymentId =
     r_narrow (r_string kMaxIdentifierLength) (\<lambda>text. if text = [] then Inr [] else parseId text)"

definition readGeneration :: "Generation reader" where
  "readGeneration = r_narrow r_u64 (\<lambda>raw. if raw = 0 then Inl MalformedInput else Inr raw)"

definition readOptionalGeneration :: "Generation reader" where
  "readOptionalGeneration = rd r_u64 rd_return"

definition readDigestField :: "Digest reader" where
  "readDigestField = r_digest"

definition readIncarnation :: "IncarnationId reader" where
  "readIncarnation = rd r_opaque128 rd_return"

definition readNonce :: "SessionNonce reader" where
  "readNonce = rd r_opaque128 rd_return"

definition writeDeploymentId :: "DeploymentId \<Rightarrow> bytes option" where
  "writeDeploymentId v = w_string kMaxIdentifierLength v"

definition writeConfigKey :: "ConfigKey \<Rightarrow> bytes option" where
  "writeConfigKey v = w_string kMaxIdentifierLength v"

definition writeArtifactId :: "ArtifactId \<Rightarrow> bytes option" where
  "writeArtifactId v = w_string kMaxIdentifierLength v"

definition writeDetail :: "string \<Rightarrow> bytes option" where
  "writeDetail detail = w_string kMaxMessageDetailBytes detail"

definition checkDetail :: "string \<Rightarrow> status" where
  "checkDetail detail = (if length detail > kMaxMessageDetailBytes then Inl LimitExceeded else Inr ())"

subsection \<open>Every field reader inverts its writer\<close>

lemma byte_small_cases:
  "(raw :: byte) \<le> k \<Longrightarrow> k \<le> 10 \<Longrightarrow> raw \<in> {0, 1, 2, 3, 4, 5, 6, 7, 8, 9, 10}"
proof -
  assume "raw \<le> k" and "k \<le> 10"
  then have "raw \<le> 10" by (rule order_trans)
  then have "unat raw \<le> 10" by (simp add: word_le_nat_alt)
  then have "unat raw \<in> set [0..<11]" by simp
  then have "of_nat (unat raw) \<in> (of_nat :: nat \<Rightarrow> byte) ` set [0..<11]" by (rule imageI)
  moreover have "[0..<11] = [0, 1, 2, 3, 4, 5, 6, 7, 8, 9, 10 :: nat]" by (simp add: upt_rec)
  ultimately show ?thesis by simp
qed

lemma enum_codec:
  assumes "\<And>e. validator (val e) \<and> cast (val e) = e"
    and "\<And>raw. validator raw \<Longrightarrow> val (cast raw) = raw"
  shows "narrowed_codec w_u8 r_u8 (\<lambda>_. True) val
    (\<lambda>raw. if \<not> validator raw then Inl MalformedInput else Inr (cast raw)) (\<lambda>_. True)"
  using assms by unfold_locales (auto split: if_splits)

interpretation deliveryState: narrowed_codec w_u8 r_u8 "\<lambda>_. True" deliveryStateValue
  "\<lambda>raw. if \<not> (raw \<ge> 1 \<and> raw \<le> 10) then Inl MalformedInput else Inr (deliveryState_cast raw)" "\<lambda>_. True"
proof (rule enum_codec)
  show "(deliveryStateValue e \<ge> 1 \<and> deliveryStateValue e \<le> 10) \<and> deliveryState_cast (deliveryStateValue e) = e" for e
    by (cases e) (simp_all add: deliveryState_cast_def allDeliveryStates_def)
  show "deliveryStateValue (deliveryState_cast raw) = raw" if "raw \<ge> 1 \<and> raw \<le> 10" for raw
    using byte_small_cases [of raw 10] that by (auto simp: deliveryState_cast_def allDeliveryStates_def)
qed

interpretation targetClass: narrowed_codec w_u8 r_u8 "\<lambda>_. True" targetClassValue
  "\<lambda>raw. if \<not> raw \<le> 2 then Inl MalformedInput else Inr (targetClass_cast raw)" "\<lambda>_. True"
proof (rule enum_codec)
  show "targetClassValue e \<le> 2 \<and> targetClass_cast (targetClassValue e) = e" for e
    by (cases e) (simp_all add: targetClass_cast_def)
  show "targetClassValue (targetClass_cast raw) = raw" if "raw \<le> 2" for raw
    using byte_small_cases [of raw 2] that by (auto simp: targetClass_cast_def)
qed

interpretation applyGuarantee: narrowed_codec w_u8 r_u8 "\<lambda>_. True" applyGuaranteeValue
  "\<lambda>raw. if \<not> (raw \<ge> 1 \<and> raw \<le> 2) then Inl MalformedInput else Inr (applyGuarantee_cast raw)" "\<lambda>_. True"
proof (rule enum_codec)
  show "(applyGuaranteeValue e \<ge> 1 \<and> applyGuaranteeValue e \<le> 2) \<and> applyGuarantee_cast (applyGuaranteeValue e) = e" for e
    by (cases e) (simp_all add: applyGuarantee_cast_def)
  show "applyGuaranteeValue (applyGuarantee_cast raw) = raw" if "raw \<ge> 1 \<and> raw \<le> 2" for raw
    using byte_small_cases [of raw 2] that by (auto simp: applyGuarantee_cast_def)
qed

interpretation guaranteeRequirement: narrowed_codec w_u8 r_u8 "\<lambda>_. True" guaranteeRequirementValue
  "\<lambda>raw. if \<not> (raw \<ge> 1 \<and> raw \<le> 2) then Inl MalformedInput else Inr (guaranteeRequirement_cast raw)" "\<lambda>_. True"
proof (rule enum_codec)
  show "(guaranteeRequirementValue e \<ge> 1 \<and> guaranteeRequirementValue e \<le> 2)
      \<and> guaranteeRequirement_cast (guaranteeRequirementValue e) = e" for e
    by (cases e) (simp_all add: guaranteeRequirement_cast_def)
  show "guaranteeRequirementValue (guaranteeRequirement_cast raw) = raw" if "raw \<ge> 1 \<and> raw \<le> 2" for raw
    using byte_small_cases [of raw 2] that by (auto simp: guaranteeRequirement_cast_def)
qed

interpretation retryDirective: narrowed_codec w_u8 r_u8 "\<lambda>_. True" retryDirectiveValue
  "\<lambda>raw. if \<not> raw \<le> 5 then Inl MalformedInput else Inr (retryDirective_cast raw)" "\<lambda>_. True"
proof (rule enum_codec)
  show "retryDirectiveValue e \<le> 5 \<and> retryDirective_cast (retryDirectiveValue e) = e" for e
    by (cases e) (simp_all add: retryDirective_cast_def)
  show "retryDirectiveValue (retryDirective_cast raw) = raw" if "raw \<le> 5" for raw
    using byte_small_cases [of raw 5] that by (auto simp: retryDirective_cast_def)
qed

lemma errorCodeValue_less: "errorCodeValue c < 2 ^ 16"
  by (cases c) simp_all

lemma errorCode_cast_value: "errorCode_cast (of_nat (errorCodeValue c)) = Some c"
proof -
  have inj: "(of_nat (errorCodeValue a) :: u16) = of_nat (errorCodeValue b) \<longleftrightarrow> a = b" for a b
    using errorCodeValue_less [of a] errorCodeValue_less [of b]
    by (auto simp: word_of_nat_eq_iff take_bit_nat_eq_self errorCodeValue_inject)
  have "List.find (\<lambda>d. (of_nat (errorCodeValue d) :: u16) = of_nat (errorCodeValue c)) allErrorCodes \<noteq> None"
    using mem_allErrorCodes [of c] by (auto simp: find_None_iff)
  then show ?thesis
    by (auto simp: errorCode_cast_def inj dest: find_eq_Some_iff_mem)
qed

lemma errorCode_cast_Some: "errorCode_cast raw = Some c \<Longrightarrow> of_nat (errorCodeValue c) = raw"
  by (auto simp: errorCode_cast_def dest: find_eq_Some_iff_mem)

lemma errorCodeName_known: "errorCodeName c \<noteq> ''Unknown''"
  by (cases c) simp_all

interpretation errorCode: narrowed_codec w_u16 r_u16 "\<lambda>_. True" "\<lambda>c. of_nat (errorCodeValue c)"
  "\<lambda>raw. if \<not> isValidErrorCode raw then Inl MalformedInput else Inr (the (errorCode_cast raw))" "\<lambda>_. True"
  by unfold_locales
    (auto simp: isValidErrorCode_def errorCode_cast_value errorCodeName_known errorCode_cast_Some
      split: if_splits option.splits)

interpretation validId: narrowed_codec "w_string kMaxIdentifierLength" "r_string kMaxIdentifierLength"
  "\<lambda>_. True" "\<lambda>t. t" parseId isValidIdentifier
  by unfold_locales (auto simp: parseId_Inr_iff)

definition optionalIdentifier :: "string \<Rightarrow> bool" where
  "optionalIdentifier t \<longleftrightarrow> t = [] \<or> isValidIdentifier t"

interpretation optionalId: narrowed_codec "w_string kMaxIdentifierLength" "r_string kMaxIdentifierLength"
  "\<lambda>_. True" "\<lambda>t. t" "\<lambda>text. if text = [] then Inr [] else parseId text" optionalIdentifier
  by unfold_locales (auto simp: optionalIdentifier_def parseId_Inr_iff split: if_splits)

interpretation generation: narrowed_codec w_u64 r_u64 "\<lambda>_. True" "\<lambda>t. t"
  "\<lambda>raw. if raw = 0 then Inl MalformedInput else Inr raw" "\<lambda>g. g \<noteq> 0"
  by unfold_locales (auto split: if_splits)

lemma rd_rd_return: "rd r rd_return = r"
  by (rule ext) (simp add: rd_def rd_return_def cf_try_def split: sum.split)

lemma plain_readers:
  "readIncarnation = r_opaque128" "readNonce = r_opaque128" "readOptionalGeneration = r_u64"
  by (simp_all add: readIncarnation_def readNonce_def readOptionalGeneration_def rd_rd_return)

text \<open>The rules that run a field reader backwards, one per reader.\<close>

lemmas field_reads =
  u8.rd_get_iff u16.rd_get_iff u32.rd_get_iff u64.rd_get_iff i64.rd_get_iff boolean.rd_get_iff
  string.rd_get_iff sha256.rd_get_iff
  digest.rd_get_iff [folded readDigestField_def]
  opaque128.rd_get_iff [folded plain_readers(1)]
  opaque128.rd_get_iff [folded plain_readers(2)]
  u64.rd_get_iff [folded plain_readers(3)]
  deliveryState.narrowed.rd_get_iff [folded readEnum8_def, folded readDeliveryState_def]
  targetClass.narrowed.rd_get_iff [folded readEnum8_def, folded readTargetClass_def]
  applyGuarantee.narrowed.rd_get_iff [folded readEnum8_def, folded readApplyGuarantee_def]
  guaranteeRequirement.narrowed.rd_get_iff [folded readEnum8_def, folded readGuaranteeRequirement_def]
  retryDirective.narrowed.rd_get_iff [folded readEnum8_def, folded readRetryDirective_def]
  errorCode.narrowed.rd_get_iff [folded readErrorCode_def]
  validId.narrowed.rd_get_iff [folded readTargetId_def]
  validId.narrowed.rd_get_iff [folded readConfigKey_def]
  validId.narrowed.rd_get_iff [folded readArtifactId_def]
  validId.narrowed.rd_get_iff [folded readDeploymentId_def]
  validId.narrowed.rd_get_iff [folded readNodeId_def]
  validId.narrowed.rd_get_iff [folded readSchemaId_def]
  optionalId.narrowed.rd_get_iff [folded readOptionalArtifactId_def]
  optionalId.narrowed.rd_get_iff [folded readOptionalDeploymentId_def]
  generation.narrowed.rd_get_iff [folded readGeneration_def]

end
