(* ===== verification/Protocol.thy ===== *)
theory Protocol
  imports MessageFields
begin

text \<open>
  The messages of \<^verbatim>\<open>include/cf/protocol.hpp\<close> and their codecs in \<^verbatim>\<open>src/protocol.cpp\<close>: a record, an encoder
  and a decoder per message, in the order of the sources, then the authentication tag of the
  handshake and the log summary. An encoder answers \<^const>\<open>None\<close> where a \<^verbatim>\<open>ByteWriter\<close> contract aborts
  the process; a decoder makes its range checks after the last field, as the sources do.

  For each message the lemma \<^verbatim>\<open>decodeX_iff\<close> is the full contract of its codec: a payload decodes to a
  message exactly when the message is admissible and the payload is its encoding.
\<close>

subsection \<open>Encoders\<close>

type_synonym 'a encoded = "'a result option"

definition encoded :: "bytes option list \<Rightarrow> bytes encoded" where
  "encoded ws = map_option Inr (emit ws)"

definition enc_fail_if :: "bool \<Rightarrow> ErrorCode \<Rightarrow> 'a encoded \<Rightarrow> 'a encoded" where
  "enc_fail_if guard code k = (if guard then Some (Inl code) else k)"

definition enc_try :: "status \<Rightarrow> 'a encoded \<Rightarrow> 'a encoded" where
  "enc_try st k = (case st of Inl e \<Rightarrow> Some (Inl e) | Inr _ \<Rightarrow> k)"

lemma encoded_eq_iff: "encoded ws = Some (Inr bs) \<longleftrightarrow> emit ws = Some bs"
  by (auto simp: encoded_def)

lemma enc_fail_if_eq_iff: "enc_fail_if guard code k = Some (Inr bs) \<longleftrightarrow> \<not> guard \<and> k = Some (Inr bs)"
  by (auto simp: enc_fail_if_def)

lemma enc_try_eq_iff: "enc_try st k = Some (Inr bs) \<longleftrightarrow> st = Inr () \<and> k = Some (Inr bs)"
  by (cases st) (auto simp: enc_try_def)

lemma checkDetail_eq_iff: "checkDetail d = Inr () \<longleftrightarrow> length d \<le> kMaxMessageDetailBytes"
  by (auto simp: checkDetail_def)

lemmas field_writes =
  w_u8_def w_u16_le_store w_u32_def w_u64_def w_i64_def w_boolean_of_bool w_digest_def w_sha256_def
  w_opaque128_def w_bytes_def writeDeploymentId_def writeConfigKey_def writeArtifactId_def
  writeDetail_def w_string_eq_Some_iff

text \<open>Everything a codec proof computes with.\<close>

lemmas codec_rules =
  field_reads field_writes codec_dests encoded_eq_iff enc_fail_if_eq_iff enc_try_eq_iff
  checkDetail_eq_iff

subsection \<open>Session establishment\<close>

record HelloMessage =
  hello_nodeId :: NodeId
  hello_epoch :: Epoch
  hello_incarnation :: IncarnationId
  hello_nonce :: SessionNonce
  hello_minWireVersion :: u16
  hello_maxWireVersion :: u16
  hello_maxPayloadBytes :: u32
  hello_capabilities :: u32
  hello_authTag :: bytes

definition encodeHello :: "HelloMessage \<Rightarrow> bytes encoded" where
  "encodeHello m =
     enc_fail_if (hello_minWireVersion m > hello_maxWireVersion m) InvalidArgument
     (encoded
        [w_string kMaxIdentifierLength (hello_nodeId m), w_u64 (hello_epoch m),
         w_opaque128 (hello_incarnation m), w_opaque128 (hello_nonce m),
         w_u16 (hello_minWireVersion m), w_u16 (hello_maxWireVersion m),
         w_u32 (hello_maxPayloadBytes m), w_u32 (hello_capabilities m), w_sha256 (hello_authTag m)])"

definition decodeHello :: "bytes \<Rightarrow> HelloMessage result" where
  "decodeHello payload = rd_run (
     rd readNodeId (\<lambda>nodeId.
     rd r_u64 (\<lambda>epoch.
     rd readIncarnation (\<lambda>incarnation.
     rd readNonce (\<lambda>nonce.
     rd r_u16 (\<lambda>minWireVersion.
     rd r_u16 (\<lambda>maxWireVersion.
     rd r_u32 (\<lambda>maxPayloadBytes.
     rd r_u32 (\<lambda>capabilities.
     rd r_sha256 (\<lambda>authTag.
     rd r_requireEnd (\<lambda>_.
     rd_fail_if (minWireVersion > maxWireVersion) ProtocolViolation (
     rd_fail_if (capabilities AND NOT kCapabilityKnownMask \<noteq> 0) CapabilityMismatch (
     rd_fail_if (maxPayloadBytes = 0 \<or> maxPayloadBytes > kAbsoluteMaxPayloadBytes) OversizePayload (
     rd_return
       \<lparr>hello_nodeId = nodeId, hello_epoch = epoch, hello_incarnation = incarnation,
        hello_nonce = nonce, hello_minWireVersion = minWireVersion,
        hello_maxWireVersion = maxWireVersion, hello_maxPayloadBytes = maxPayloadBytes,
        hello_capabilities = capabilities, hello_authTag = authTag\<rparr>)))))))))))))) payload"

record HelloAckMessage =
  helloAck_wireVersion :: u16
  helloAck_target :: TargetId
  helloAck_targetClass :: TargetClass
  helloAck_guarantee :: ApplyGuarantee
  helloAck_term :: Term
  helloAck_incarnation :: IncarnationId
  helloAck_nonce :: SessionNonce
  helloAck_maxPayloadBytes :: u32
  helloAck_capabilities :: u32
  helloAck_committedGeneration :: Generation
  helloAck_committedDigest :: Digest
  helloAck_committedArtifact :: ArtifactId
  helloAck_restartCount :: u32
  helloAck_authTag :: bytes

definition encodeHelloAck :: "HelloAckMessage \<Rightarrow> bytes encoded" where
  "encodeHelloAck m =
     encoded
        [w_u16 (helloAck_wireVersion m), w_string kMaxIdentifierLength (helloAck_target m),
         w_u8 (targetClassValue (helloAck_targetClass m)),
         w_u8 (applyGuaranteeValue (helloAck_guarantee m)), w_u64 (helloAck_term m),
         w_opaque128 (helloAck_incarnation m), w_opaque128 (helloAck_nonce m),
         w_u32 (helloAck_maxPayloadBytes m), w_u32 (helloAck_capabilities m),
         w_u64 (helloAck_committedGeneration m), w_digest (helloAck_committedDigest m),
         w_string kMaxIdentifierLength (helloAck_committedArtifact m),
         w_u32 (helloAck_restartCount m), w_sha256 (helloAck_authTag m)]"

definition decodeHelloAck :: "bytes \<Rightarrow> HelloAckMessage result" where
  "decodeHelloAck payload = rd_run (
     rd r_u16 (\<lambda>wireVersion.
     rd readTargetId (\<lambda>target.
     rd readTargetClass (\<lambda>targetClass.
     rd readApplyGuarantee (\<lambda>guarantee.
     rd r_u64 (\<lambda>term.
     rd readIncarnation (\<lambda>incarnation.
     rd readNonce (\<lambda>nonce.
     rd r_u32 (\<lambda>maxPayloadBytes.
     rd r_u32 (\<lambda>capabilities.
     rd readOptionalGeneration (\<lambda>committedGeneration.
     rd readDigestField (\<lambda>committedDigest.
     rd readOptionalArtifactId (\<lambda>committedArtifact.
     rd r_u32 (\<lambda>restartCount.
     rd r_sha256 (\<lambda>authTag.
     rd r_requireEnd (\<lambda>_.
     rd_fail_if (wireVersion \<noteq> kWireVersion) UnsupportedVersion (
     rd_fail_if (\<not> uint_isSet term) ProtocolViolation (
     rd_fail_if (maxPayloadBytes = 0 \<or> maxPayloadBytes > kAbsoluteMaxPayloadBytes) OversizePayload (
     rd_fail_if (capabilities AND NOT kCapabilityKnownMask \<noteq> 0) CapabilityMismatch (
     rd_fail_if (\<not> capabilitySupportsGuarantee capabilities guarantee) CapabilityMismatch (
     rd_return
       \<lparr>helloAck_wireVersion = wireVersion, helloAck_target = target,
        helloAck_targetClass = targetClass, helloAck_guarantee = guarantee, helloAck_term = term,
        helloAck_incarnation = incarnation, helloAck_nonce = nonce,
        helloAck_maxPayloadBytes = maxPayloadBytes, helloAck_capabilities = capabilities,
        helloAck_committedGeneration = committedGeneration,
        helloAck_committedDigest = committedDigest, helloAck_committedArtifact = committedArtifact,
        helloAck_restartCount = restartCount, helloAck_authTag = authTag\<rparr>))))))))))))))))))))) payload"

record HelloConfirmMessage =
  helloConfirm_authTag :: bytes

definition encodeHelloConfirm :: "HelloConfirmMessage \<Rightarrow> bytes encoded" where
  "encodeHelloConfirm m =
     encoded
        [w_sha256 (helloConfirm_authTag m)]"

definition decodeHelloConfirm :: "bytes \<Rightarrow> HelloConfirmMessage result" where
  "decodeHelloConfirm payload = rd_run (
     rd r_sha256 (\<lambda>authTag.
     rd r_requireEnd (\<lambda>_.
     rd_return
       \<lparr>helloConfirm_authTag = authTag\<rparr>))) payload"

record AuthRejectMessage =
  authReject_code :: ErrorCode
  authReject_detail :: string

definition encodeAuthReject :: "AuthRejectMessage \<Rightarrow> bytes encoded" where
  "encodeAuthReject m =
     enc_try (checkDetail (authReject_detail m))
     (encoded
        [w_u16 (of_nat (errorCodeValue (authReject_code m))), writeDetail (authReject_detail m)])"

definition decodeAuthReject :: "bytes \<Rightarrow> AuthRejectMessage result" where
  "decodeAuthReject payload = rd_run (
     rd readErrorCode (\<lambda>code.
     rd (r_string kMaxMessageDetailBytes) (\<lambda>detail.
     rd r_requireEnd (\<lambda>_.
     rd_return
       \<lparr>authReject_code = code, authReject_detail = detail\<rparr>)))) payload"

subsection \<open>Delivery\<close>

record PrepareMessage =
  prepare_deployment :: DeploymentId
  prepare_key :: ConfigKey
  prepare_artifact :: ArtifactId
  prepare_generation :: Generation
  prepare_digest :: Digest
  prepare_sizeBytes :: u64
  prepare_schema :: SchemaId
  prepare_schemaVersion :: SchemaVersion
  prepare_requirement :: GuaranteeRequirement
  prepare_guarantee :: ApplyGuarantee
  prepare_authorityEpoch :: Epoch
  prepare_attempt :: AttemptId
  prepare_stream :: StreamId
  prepare_chunkBytes :: u32
  prepare_resumeFromOffset :: u64

definition encodePrepare :: "PrepareMessage \<Rightarrow> bytes encoded" where
  "encodePrepare m =
     encoded
        [writeDeploymentId (prepare_deployment m), writeConfigKey (prepare_key m),
         writeArtifactId (prepare_artifact m), w_u64 (prepare_generation m),
         w_digest (prepare_digest m), w_u64 (prepare_sizeBytes m),
         w_string kMaxIdentifierLength (prepare_schema m), w_u32 (prepare_schemaVersion m),
         w_u8 (guaranteeRequirementValue (prepare_requirement m)),
         w_u8 (applyGuaranteeValue (prepare_guarantee m)), w_u64 (prepare_authorityEpoch m),
         w_u64 (prepare_attempt m), w_u64 (prepare_stream m), w_u32 (prepare_chunkBytes m),
         w_u64 (prepare_resumeFromOffset m)]"

definition decodePrepare :: "bytes \<Rightarrow> PrepareMessage result" where
  "decodePrepare payload = rd_run (
     rd readDeploymentId (\<lambda>deployment.
     rd readConfigKey (\<lambda>key.
     rd readArtifactId (\<lambda>artifact.
     rd readGeneration (\<lambda>generation.
     rd readDigestField (\<lambda>digest.
     rd r_u64 (\<lambda>sizeBytes.
     rd readSchemaId (\<lambda>schema.
     rd r_u32 (\<lambda>schemaVersion.
     rd readGuaranteeRequirement (\<lambda>requirement.
     rd readApplyGuarantee (\<lambda>guarantee.
     rd r_u64 (\<lambda>authorityEpoch.
     rd r_u64 (\<lambda>attempt.
     rd r_u64 (\<lambda>stream.
     rd r_u32 (\<lambda>chunkBytes.
     rd r_u64 (\<lambda>resumeFromOffset.
     rd r_requireEnd (\<lambda>_.
     rd_fail_if (\<not> Digest_isSet digest) MalformedInput (
     rd_fail_if (sizeBytes = 0) MalformedInput (
     rd_fail_if (chunkBytes = 0 \<or> unat chunkBytes > kMaxChunkPayloadBytes) OversizePayload (
     rd_fail_if (\<not> uint_isSet stream) MalformedInput (
     rd_fail_if (\<not> uint_isSet authorityEpoch) MalformedInput (
     rd_return
       \<lparr>prepare_deployment = deployment, prepare_key = key, prepare_artifact = artifact,
        prepare_generation = generation, prepare_digest = digest, prepare_sizeBytes = sizeBytes,
        prepare_schema = schema, prepare_schemaVersion = schemaVersion,
        prepare_requirement = requirement, prepare_guarantee = guarantee,
        prepare_authorityEpoch = authorityEpoch, prepare_attempt = attempt, prepare_stream = stream,
        prepare_chunkBytes = chunkBytes, prepare_resumeFromOffset = resumeFromOffset\<rparr>)))))))))))))))))))))) payload"

record PrepareAckMessage =
  prepareAck_deployment :: DeploymentId
  prepareAck_stream :: StreamId
  prepareAck_resumeFromOffset :: u64
  prepareAck_committedGeneration :: Generation
  prepareAck_committedDigest :: Digest
  prepareAck_duplicateSuppressed :: bool
  prepareAck_priorState :: DeliveryState
  prepareAck_priorGeneration :: Generation
  prepareAck_priorDigest :: Digest

definition encodePrepareAck :: "PrepareAckMessage \<Rightarrow> bytes encoded" where
  "encodePrepareAck m =
     encoded
        [writeDeploymentId (prepareAck_deployment m), w_u64 (prepareAck_stream m),
         w_u64 (prepareAck_resumeFromOffset m), w_u64 (prepareAck_committedGeneration m),
         w_digest (prepareAck_committedDigest m), w_boolean (prepareAck_duplicateSuppressed m),
         w_u8 (deliveryStateValue (prepareAck_priorState m)), w_u64 (prepareAck_priorGeneration m),
         w_digest (prepareAck_priorDigest m)]"

definition decodePrepareAck :: "bytes \<Rightarrow> PrepareAckMessage result" where
  "decodePrepareAck payload = rd_run (
     rd readDeploymentId (\<lambda>deployment.
     rd r_u64 (\<lambda>stream.
     rd r_u64 (\<lambda>resumeFromOffset.
     rd readOptionalGeneration (\<lambda>committedGeneration.
     rd readDigestField (\<lambda>committedDigest.
     rd r_boolean (\<lambda>duplicateSuppressed.
     rd readDeliveryState (\<lambda>priorState.
     rd readOptionalGeneration (\<lambda>priorGeneration.
     rd readDigestField (\<lambda>priorDigest.
     rd r_requireEnd (\<lambda>_.
     rd_return
       \<lparr>prepareAck_deployment = deployment, prepareAck_stream = stream,
        prepareAck_resumeFromOffset = resumeFromOffset,
        prepareAck_committedGeneration = committedGeneration,
        prepareAck_committedDigest = committedDigest,
        prepareAck_duplicateSuppressed = duplicateSuppressed, prepareAck_priorState = priorState,
        prepareAck_priorGeneration = priorGeneration, prepareAck_priorDigest = priorDigest\<rparr>))))))))))) payload"

record PrepareRejectMessage =
  prepareReject_deployment :: DeploymentId
  prepareReject_code :: ErrorCode
  prepareReject_detail :: string
  prepareReject_observedState :: DeliveryState
  prepareReject_committedGeneration :: Generation

definition encodePrepareReject :: "PrepareRejectMessage \<Rightarrow> bytes encoded" where
  "encodePrepareReject m =
     enc_try (checkDetail (prepareReject_detail m))
     (encoded
        [writeDeploymentId (prepareReject_deployment m),
         w_u16 (of_nat (errorCodeValue (prepareReject_code m))),
         writeDetail (prepareReject_detail m),
         w_u8 (deliveryStateValue (prepareReject_observedState m)),
         w_u64 (prepareReject_committedGeneration m)])"

definition decodePrepareReject :: "bytes \<Rightarrow> PrepareRejectMessage result" where
  "decodePrepareReject payload = rd_run (
     rd readDeploymentId (\<lambda>deployment.
     rd readErrorCode (\<lambda>code.
     rd (r_string kMaxMessageDetailBytes) (\<lambda>detail.
     rd readDeliveryState (\<lambda>observedState.
     rd readOptionalGeneration (\<lambda>committedGeneration.
     rd r_requireEnd (\<lambda>_.
     rd_return
       \<lparr>prepareReject_deployment = deployment, prepareReject_code = code,
        prepareReject_detail = detail, prepareReject_observedState = observedState,
        prepareReject_committedGeneration = committedGeneration\<rparr>))))))) payload"

record ChunkMessage =
  chunk_stream :: StreamId
  chunk_sequence :: Sequence
  chunk_offset :: u64
  chunk_data :: bytes

definition encodeChunk :: "ChunkMessage \<Rightarrow> bytes encoded" where
  "encodeChunk m =
     enc_fail_if (length (chunk_data m) > kMaxChunkPayloadBytes) OversizePayload
     (encoded
        [w_u64 (chunk_stream m), w_u64 (chunk_sequence m), w_u64 (chunk_offset m),
         w_string kMaxChunkPayloadBytes (bytes_string (chunk_data m))])"

definition decodeChunk :: "bytes \<Rightarrow> ChunkMessage result" where
  "decodeChunk payload = rd_run (
     rd r_u64 (\<lambda>stream.
     rd r_u64 (\<lambda>sequence.
     rd r_u64 (\<lambda>offset.
     rd (r_string kMaxChunkPayloadBytes) (\<lambda>data.
     rd r_requireEnd (\<lambda>_.
     rd_fail_if (\<not> uint_isSet stream) MalformedInput (
     rd_fail_if (string_bytes data = []) MalformedInput (
     rd_return
       \<lparr>chunk_stream = stream, chunk_sequence = sequence, chunk_offset = offset,
        chunk_data = string_bytes data\<rparr>)))))))) payload"

record ChunkAckMessage =
  chunkAck_stream :: StreamId
  chunkAck_sequence :: Sequence
  chunkAck_code :: ErrorCode
  chunkAck_bytesReceived :: u64
  chunkAck_detail :: string

definition encodeChunkAck :: "ChunkAckMessage \<Rightarrow> bytes encoded" where
  "encodeChunkAck m =
     enc_try (checkDetail (chunkAck_detail m))
     (encoded
        [w_u64 (chunkAck_stream m), w_u64 (chunkAck_sequence m),
         w_u16 (of_nat (errorCodeValue (chunkAck_code m))), w_u64 (chunkAck_bytesReceived m),
         writeDetail (chunkAck_detail m)])"

definition decodeChunkAck :: "bytes \<Rightarrow> ChunkAckMessage result" where
  "decodeChunkAck payload = rd_run (
     rd r_u64 (\<lambda>stream.
     rd r_u64 (\<lambda>sequence.
     rd readErrorCode (\<lambda>code.
     rd r_u64 (\<lambda>bytesReceived.
     rd (r_string kMaxMessageDetailBytes) (\<lambda>detail.
     rd r_requireEnd (\<lambda>_.
     rd_return
       \<lparr>chunkAck_stream = stream, chunkAck_sequence = sequence, chunkAck_code = code,
        chunkAck_bytesReceived = bytesReceived, chunkAck_detail = detail\<rparr>))))))) payload"

record TransferCompleteMessage =
  transferComplete_deployment :: DeploymentId
  transferComplete_stream :: StreamId
  transferComplete_digest :: Digest
  transferComplete_sizeBytes :: u64

definition encodeTransferComplete :: "TransferCompleteMessage \<Rightarrow> bytes encoded" where
  "encodeTransferComplete m =
     encoded
        [writeDeploymentId (transferComplete_deployment m), w_u64 (transferComplete_stream m),
         w_digest (transferComplete_digest m), w_u64 (transferComplete_sizeBytes m)]"

definition decodeTransferComplete :: "bytes \<Rightarrow> TransferCompleteMessage result" where
  "decodeTransferComplete payload = rd_run (
     rd readDeploymentId (\<lambda>deployment.
     rd r_u64 (\<lambda>stream.
     rd readDigestField (\<lambda>digest.
     rd r_u64 (\<lambda>sizeBytes.
     rd r_requireEnd (\<lambda>_.
     rd_return
       \<lparr>transferComplete_deployment = deployment, transferComplete_stream = stream,
        transferComplete_digest = digest, transferComplete_sizeBytes = sizeBytes\<rparr>)))))) payload"

record TransferResultMessage =
  transferResult_deployment :: DeploymentId
  transferResult_stream :: StreamId
  transferResult_verified :: bool
  transferResult_bytesReceived :: u64
  transferResult_code :: ErrorCode
  transferResult_detail :: string

definition encodeTransferResult :: "TransferResultMessage \<Rightarrow> bytes encoded" where
  "encodeTransferResult m =
     enc_try (checkDetail (transferResult_detail m))
     (encoded
        [writeDeploymentId (transferResult_deployment m), w_u64 (transferResult_stream m),
         w_boolean (transferResult_verified m), w_u64 (transferResult_bytesReceived m),
         w_u16 (of_nat (errorCodeValue (transferResult_code m))),
         writeDetail (transferResult_detail m)])"

definition decodeTransferResult :: "bytes \<Rightarrow> TransferResultMessage result" where
  "decodeTransferResult payload = rd_run (
     rd readDeploymentId (\<lambda>deployment.
     rd r_u64 (\<lambda>stream.
     rd r_boolean (\<lambda>verified.
     rd r_u64 (\<lambda>bytesReceived.
     rd readErrorCode (\<lambda>code.
     rd (r_string kMaxMessageDetailBytes) (\<lambda>detail.
     rd r_requireEnd (\<lambda>_.
     rd_return
       \<lparr>transferResult_deployment = deployment, transferResult_stream = stream,
        transferResult_verified = verified, transferResult_bytesReceived = bytesReceived,
        transferResult_code = code, transferResult_detail = detail\<rparr>)))))))) payload"

record StageMessage =
  stage_deployment :: DeploymentId
  stage_stream :: StreamId
  stage_generation :: Generation
  stage_digest :: Digest

definition encodeStage :: "StageMessage \<Rightarrow> bytes encoded" where
  "encodeStage m =
     encoded
        [writeDeploymentId (stage_deployment m), w_u64 (stage_stream m), w_u64 (stage_generation m),
         w_digest (stage_digest m)]"

definition decodeStage :: "bytes \<Rightarrow> StageMessage result" where
  "decodeStage payload = rd_run (
     rd readDeploymentId (\<lambda>deployment.
     rd r_u64 (\<lambda>stream.
     rd readGeneration (\<lambda>generation.
     rd readDigestField (\<lambda>digest.
     rd r_requireEnd (\<lambda>_.
     rd_return
       \<lparr>stage_deployment = deployment, stage_stream = stream, stage_generation = generation,
        stage_digest = digest\<rparr>)))))) payload"

record StageAckMessage =
  stageAck_deployment :: DeploymentId
  stageAck_staged :: bool
  stageAck_code :: ErrorCode
  stageAck_detail :: string

definition encodeStageAck :: "StageAckMessage \<Rightarrow> bytes encoded" where
  "encodeStageAck m =
     enc_try (checkDetail (stageAck_detail m))
     (encoded
        [writeDeploymentId (stageAck_deployment m), w_boolean (stageAck_staged m),
         w_u16 (of_nat (errorCodeValue (stageAck_code m))), writeDetail (stageAck_detail m)])"

definition decodeStageAck :: "bytes \<Rightarrow> StageAckMessage result" where
  "decodeStageAck payload = rd_run (
     rd readDeploymentId (\<lambda>deployment.
     rd r_boolean (\<lambda>staged.
     rd readErrorCode (\<lambda>code.
     rd (r_string kMaxMessageDetailBytes) (\<lambda>detail.
     rd r_requireEnd (\<lambda>_.
     rd_return
       \<lparr>stageAck_deployment = deployment, stageAck_staged = staged, stageAck_code = code,
        stageAck_detail = detail\<rparr>)))))) payload"

record ApplyPrepareMessage =
  applyPrepare_deployment :: DeploymentId
  applyPrepare_generation :: Generation
  applyPrepare_digest :: Digest

definition encodeApplyPrepare :: "ApplyPrepareMessage \<Rightarrow> bytes encoded" where
  "encodeApplyPrepare m =
     encoded
        [writeDeploymentId (applyPrepare_deployment m), w_u64 (applyPrepare_generation m),
         w_digest (applyPrepare_digest m)]"

definition decodeApplyPrepare :: "bytes \<Rightarrow> ApplyPrepareMessage result" where
  "decodeApplyPrepare payload = rd_run (
     rd readDeploymentId (\<lambda>deployment.
     rd readGeneration (\<lambda>generation.
     rd readDigestField (\<lambda>digest.
     rd r_requireEnd (\<lambda>_.
     rd_return
       \<lparr>applyPrepare_deployment = deployment, applyPrepare_generation = generation,
        applyPrepare_digest = digest\<rparr>))))) payload"

record ApplyPrepareAckMessage =
  applyPrepareAck_deployment :: DeploymentId
  applyPrepareAck_prepared :: bool
  applyPrepareAck_code :: ErrorCode
  applyPrepareAck_detail :: string

definition encodeApplyPrepareAck :: "ApplyPrepareAckMessage \<Rightarrow> bytes encoded" where
  "encodeApplyPrepareAck m =
     enc_try (checkDetail (applyPrepareAck_detail m))
     (encoded
        [writeDeploymentId (applyPrepareAck_deployment m), w_boolean (applyPrepareAck_prepared m),
         w_u16 (of_nat (errorCodeValue (applyPrepareAck_code m))),
         writeDetail (applyPrepareAck_detail m)])"

definition decodeApplyPrepareAck :: "bytes \<Rightarrow> ApplyPrepareAckMessage result" where
  "decodeApplyPrepareAck payload = rd_run (
     rd readDeploymentId (\<lambda>deployment.
     rd r_boolean (\<lambda>prepared.
     rd readErrorCode (\<lambda>code.
     rd (r_string kMaxMessageDetailBytes) (\<lambda>detail.
     rd r_requireEnd (\<lambda>_.
     rd_return
       \<lparr>applyPrepareAck_deployment = deployment, applyPrepareAck_prepared = prepared,
        applyPrepareAck_code = code, applyPrepareAck_detail = detail\<rparr>)))))) payload"

record ApplyCommitMessage =
  applyCommit_deployment :: DeploymentId
  applyCommit_generation :: Generation
  applyCommit_digest :: Digest

definition encodeApplyCommit :: "ApplyCommitMessage \<Rightarrow> bytes encoded" where
  "encodeApplyCommit m =
     encoded
        [writeDeploymentId (applyCommit_deployment m), w_u64 (applyCommit_generation m),
         w_digest (applyCommit_digest m)]"

definition decodeApplyCommit :: "bytes \<Rightarrow> ApplyCommitMessage result" where
  "decodeApplyCommit payload = rd_run (
     rd readDeploymentId (\<lambda>deployment.
     rd readGeneration (\<lambda>generation.
     rd readDigestField (\<lambda>digest.
     rd r_requireEnd (\<lambda>_.
     rd_return
       \<lparr>applyCommit_deployment = deployment, applyCommit_generation = generation,
        applyCommit_digest = digest\<rparr>))))) payload"

record ApplyCommitAckMessage =
  applyCommitAck_deployment :: DeploymentId
  applyCommitAck_committed :: bool
  applyCommitAck_state :: DeliveryState
  applyCommitAck_committedGeneration :: Generation
  applyCommitAck_committedDigest :: Digest
  applyCommitAck_code :: ErrorCode
  applyCommitAck_detail :: string

definition encodeApplyCommitAck :: "ApplyCommitAckMessage \<Rightarrow> bytes encoded" where
  "encodeApplyCommitAck m =
     enc_try (checkDetail (applyCommitAck_detail m))
     (encoded
        [writeDeploymentId (applyCommitAck_deployment m), w_boolean (applyCommitAck_committed m),
         w_u8 (deliveryStateValue (applyCommitAck_state m)),
         w_u64 (applyCommitAck_committedGeneration m), w_digest (applyCommitAck_committedDigest m),
         w_u16 (of_nat (errorCodeValue (applyCommitAck_code m))),
         writeDetail (applyCommitAck_detail m)])"

definition decodeApplyCommitAck :: "bytes \<Rightarrow> ApplyCommitAckMessage result" where
  "decodeApplyCommitAck payload = rd_run (
     rd readDeploymentId (\<lambda>deployment.
     rd r_boolean (\<lambda>committed.
     rd readDeliveryState (\<lambda>state.
     rd readOptionalGeneration (\<lambda>committedGeneration.
     rd readDigestField (\<lambda>committedDigest.
     rd readErrorCode (\<lambda>code.
     rd (r_string kMaxMessageDetailBytes) (\<lambda>detail.
     rd r_requireEnd (\<lambda>_.
     rd_return
       \<lparr>applyCommitAck_deployment = deployment, applyCommitAck_committed = committed,
        applyCommitAck_state = state, applyCommitAck_committedGeneration = committedGeneration,
        applyCommitAck_committedDigest = committedDigest, applyCommitAck_code = code,
        applyCommitAck_detail = detail\<rparr>))))))))) payload"

record ApplyAbortMessage =
  applyAbort_deployment :: DeploymentId
  applyAbort_generation :: Generation
  applyAbort_reason :: string

definition encodeApplyAbort :: "ApplyAbortMessage \<Rightarrow> bytes encoded" where
  "encodeApplyAbort m =
     enc_try (checkDetail (applyAbort_reason m))
     (encoded
        [writeDeploymentId (applyAbort_deployment m), w_u64 (applyAbort_generation m),
         writeDetail (applyAbort_reason m)])"

definition decodeApplyAbort :: "bytes \<Rightarrow> ApplyAbortMessage result" where
  "decodeApplyAbort payload = rd_run (
     rd readDeploymentId (\<lambda>deployment.
     rd readGeneration (\<lambda>generation.
     rd (r_string kMaxMessageDetailBytes) (\<lambda>reason.
     rd r_requireEnd (\<lambda>_.
     rd_return
       \<lparr>applyAbort_deployment = deployment, applyAbort_generation = generation,
        applyAbort_reason = reason\<rparr>))))) payload"

record ApplyAbortAckMessage =
  applyAbortAck_deployment :: DeploymentId
  applyAbortAck_aborted :: bool
  applyAbortAck_code :: ErrorCode
  applyAbortAck_detail :: string

definition encodeApplyAbortAck :: "ApplyAbortAckMessage \<Rightarrow> bytes encoded" where
  "encodeApplyAbortAck m =
     enc_try (checkDetail (applyAbortAck_detail m))
     (encoded
        [writeDeploymentId (applyAbortAck_deployment m), w_boolean (applyAbortAck_aborted m),
         w_u16 (of_nat (errorCodeValue (applyAbortAck_code m))),
         writeDetail (applyAbortAck_detail m)])"

definition decodeApplyAbortAck :: "bytes \<Rightarrow> ApplyAbortAckMessage result" where
  "decodeApplyAbortAck payload = rd_run (
     rd readDeploymentId (\<lambda>deployment.
     rd r_boolean (\<lambda>aborted.
     rd readErrorCode (\<lambda>code.
     rd (r_string kMaxMessageDetailBytes) (\<lambda>detail.
     rd r_requireEnd (\<lambda>_.
     rd_return
       \<lparr>applyAbortAck_deployment = deployment, applyAbortAck_aborted = aborted,
        applyAbortAck_code = code, applyAbortAck_detail = detail\<rparr>)))))) payload"

subsection \<open>Evidence\<close>

record DeliveryAckMessage =
  deliveryAck_deployment :: DeploymentId
  deliveryAck_key :: ConfigKey
  deliveryAck_generation :: Generation
  deliveryAck_digest :: Digest
  deliveryAck_artifact :: ArtifactId
  deliveryAck_state :: DeliveryState
  deliveryAck_term :: Term
  deliveryAck_incarnation :: IncarnationId
  deliveryAck_authorityEpoch :: Epoch
  deliveryAck_guarantee :: ApplyGuarantee
  deliveryAck_bytesTransferred :: u64
  deliveryAck_targetTimestampMillis :: int
  deliveryAck_evidenceFromReconcile :: bool

definition encodeDeliveryAck :: "DeliveryAckMessage \<Rightarrow> bytes encoded" where
  "encodeDeliveryAck m =
     encoded
        [writeDeploymentId (deliveryAck_deployment m), writeConfigKey (deliveryAck_key m),
         w_u64 (deliveryAck_generation m), w_digest (deliveryAck_digest m),
         writeArtifactId (deliveryAck_artifact m), w_u8 (deliveryStateValue (deliveryAck_state m)),
         w_u64 (deliveryAck_term m), w_opaque128 (deliveryAck_incarnation m),
         w_u64 (deliveryAck_authorityEpoch m), w_u8 (applyGuaranteeValue (deliveryAck_guarantee m)),
         w_u64 (deliveryAck_bytesTransferred m), w_i64 (deliveryAck_targetTimestampMillis m),
         w_boolean (deliveryAck_evidenceFromReconcile m)]"

definition decodeDeliveryAck :: "bytes \<Rightarrow> DeliveryAckMessage result" where
  "decodeDeliveryAck payload = rd_run (
     rd readDeploymentId (\<lambda>deployment.
     rd readConfigKey (\<lambda>key.
     rd readGeneration (\<lambda>generation.
     rd readDigestField (\<lambda>digest.
     rd readOptionalArtifactId (\<lambda>artifact.
     rd readDeliveryState (\<lambda>state.
     rd r_u64 (\<lambda>term.
     rd readIncarnation (\<lambda>incarnation.
     rd r_u64 (\<lambda>authorityEpoch.
     rd readApplyGuarantee (\<lambda>guarantee.
     rd r_u64 (\<lambda>bytesTransferred.
     rd r_i64 (\<lambda>targetTimestampMillis.
     rd r_boolean (\<lambda>evidenceFromReconcile.
     rd r_requireEnd (\<lambda>_.
     rd_fail_if (\<not> isActivationState state) ProtocolViolation (
     rd_fail_if (\<not> uint_isSet term \<or> \<not> OpaqueIdentity_isSet incarnation) ProtocolViolation (
     rd_return
       \<lparr>deliveryAck_deployment = deployment, deliveryAck_key = key,
        deliveryAck_generation = generation, deliveryAck_digest = digest,
        deliveryAck_artifact = artifact, deliveryAck_state = state, deliveryAck_term = term,
        deliveryAck_incarnation = incarnation, deliveryAck_authorityEpoch = authorityEpoch,
        deliveryAck_guarantee = guarantee, deliveryAck_bytesTransferred = bytesTransferred,
        deliveryAck_targetTimestampMillis = targetTimestampMillis,
        deliveryAck_evidenceFromReconcile = evidenceFromReconcile\<rparr>))))))))))))))))) payload"

record DeliveryNackMessage =
  deliveryNack_deployment :: DeploymentId
  deliveryNack_key :: ConfigKey
  deliveryNack_generation :: Generation
  deliveryNack_digest :: Digest
  deliveryNack_code :: ErrorCode
  deliveryNack_directive :: RetryDirective
  deliveryNack_term :: Term
  deliveryNack_incarnation :: IncarnationId
  deliveryNack_detail :: string

definition encodeDeliveryNack :: "DeliveryNackMessage \<Rightarrow> bytes encoded" where
  "encodeDeliveryNack m =
     enc_try (checkDetail (deliveryNack_detail m))
     (encoded
        [writeDeploymentId (deliveryNack_deployment m), writeConfigKey (deliveryNack_key m),
         w_u64 (deliveryNack_generation m), w_digest (deliveryNack_digest m),
         w_u16 (of_nat (errorCodeValue (deliveryNack_code m))),
         w_u8 (retryDirectiveValue (deliveryNack_directive m)), w_u64 (deliveryNack_term m),
         w_opaque128 (deliveryNack_incarnation m), writeDetail (deliveryNack_detail m)])"

definition decodeDeliveryNack :: "bytes \<Rightarrow> DeliveryNackMessage result" where
  "decodeDeliveryNack payload = rd_run (
     rd readDeploymentId (\<lambda>deployment.
     rd readConfigKey (\<lambda>key.
     rd readGeneration (\<lambda>generation.
     rd readDigestField (\<lambda>digest.
     rd readErrorCode (\<lambda>code.
     rd readRetryDirective (\<lambda>directive.
     rd r_u64 (\<lambda>term.
     rd readIncarnation (\<lambda>incarnation.
     rd (r_string kMaxMessageDetailBytes) (\<lambda>detail.
     rd r_requireEnd (\<lambda>_.
     rd_return
       \<lparr>deliveryNack_deployment = deployment, deliveryNack_key = key,
        deliveryNack_generation = generation, deliveryNack_digest = digest,
        deliveryNack_code = code, deliveryNack_directive = directive, deliveryNack_term = term,
        deliveryNack_incarnation = incarnation, deliveryNack_detail = detail\<rparr>))))))))))) payload"

subsection \<open>Reconciliation\<close>

record ReconcileRequestMessage =
  reconcileRequest_nodeId :: NodeId
  reconcileRequest_epoch :: Epoch
  reconcileRequest_incarnation :: IncarnationId
  reconcileRequest_maxFindings :: u32

definition encodeReconcileRequest :: "ReconcileRequestMessage \<Rightarrow> bytes encoded" where
  "encodeReconcileRequest m =
     encoded
        [w_string kMaxIdentifierLength (reconcileRequest_nodeId m),
         w_u64 (reconcileRequest_epoch m), w_opaque128 (reconcileRequest_incarnation m),
         w_u32 (reconcileRequest_maxFindings m)]"

definition decodeReconcileRequest :: "bytes \<Rightarrow> ReconcileRequestMessage result" where
  "decodeReconcileRequest payload = rd_run (
     rd readNodeId (\<lambda>nodeId.
     rd r_u64 (\<lambda>epoch.
     rd readIncarnation (\<lambda>incarnation.
     rd r_u32 (\<lambda>maxFindings.
     rd r_requireEnd (\<lambda>_.
     rd_fail_if (\<not> uint_isSet epoch) MalformedInput (
     rd_fail_if (unat maxFindings > kMaxFindingsInReport) OversizePayload (
     rd_return
       \<lparr>reconcileRequest_nodeId = nodeId, reconcileRequest_epoch = epoch,
        reconcileRequest_incarnation = incarnation,
        reconcileRequest_maxFindings = maxFindings\<rparr>)))))))) payload"

record TransferStatusRecord =
  transfer_deployment :: DeploymentId
  transfer_stream :: StreamId
  transfer_key :: ConfigKey
  transfer_generation :: Generation
  transfer_digest :: Digest
  transfer_bytesReceived :: u64
  transfer_totalBytes :: u64
  transfer_verified :: bool
  transfer_staged :: bool

record ReconcileFinding =
  finding_key :: ConfigKey
  finding_generation :: Generation
  finding_digest :: Digest
  finding_artifact :: ArtifactId
  finding_deployment :: DeploymentId
  finding_state :: DeliveryState
  finding_recordedAtMillis :: int

record ReconcileReportMessage =
  report_target :: TargetId
  report_targetClass :: TargetClass
  report_guarantee :: ApplyGuarantee
  report_term :: Term
  report_incarnation :: IncarnationId
  report_committedGeneration :: Generation
  report_committedDigest :: Digest
  report_committedArtifact :: ArtifactId
  report_applyPrepared :: bool
  report_preparedDeployment :: DeploymentId
  report_preparedGeneration :: Generation
  report_preparedDigest :: Digest
  report_restartCount :: u32
  report_applyRollbacks :: u32
  report_transfers :: "TransferStatusRecord list"
  report_findings :: "ReconcileFinding list"

text \<open>The bodies of the two loops of the report codec.\<close>

definition writeTransfer :: "TransferStatusRecord \<Rightarrow> bytes option" where
  "writeTransfer r =
     emit
       [writeDeploymentId (transfer_deployment r), w_u64 (transfer_stream r),
        writeConfigKey (transfer_key r), w_u64 (transfer_generation r),
        w_digest (transfer_digest r), w_u64 (transfer_bytesReceived r),
        w_u64 (transfer_totalBytes r), w_boolean (transfer_verified r), w_boolean (transfer_staged r)]"

definition writeFinding :: "ReconcileFinding \<Rightarrow> bytes option" where
  "writeFinding f =
     emit
       [writeConfigKey (finding_key f), w_u64 (finding_generation f), w_digest (finding_digest f),
        writeArtifactId (finding_artifact f), writeDeploymentId (finding_deployment f),
        w_u8 (deliveryStateValue (finding_state f)), w_i64 (finding_recordedAtMillis f)]"

definition readTransfer :: "TransferStatusRecord reader" where
  "readTransfer =
     rd readDeploymentId (\<lambda>deployment.
     rd r_u64 (\<lambda>stream.
     rd readConfigKey (\<lambda>key.
     rd readGeneration (\<lambda>generation.
     rd readDigestField (\<lambda>digest.
     rd r_u64 (\<lambda>bytesReceived.
     rd r_u64 (\<lambda>totalBytes.
     rd r_boolean (\<lambda>verified.
     rd r_boolean (\<lambda>staged.
     rd_fail_if (bytesReceived > totalBytes) MalformedInput (
     rd_return
       \<lparr>transfer_deployment = deployment, transfer_stream = stream, transfer_key = key,
        transfer_generation = generation, transfer_digest = digest,
        transfer_bytesReceived = bytesReceived, transfer_totalBytes = totalBytes,
        transfer_verified = verified, transfer_staged = staged\<rparr>))))))))))"

definition readFinding :: "ReconcileFinding reader" where
  "readFinding =
     rd readConfigKey (\<lambda>key.
     rd readGeneration (\<lambda>generation.
     rd readDigestField (\<lambda>digest.
     rd readOptionalArtifactId (\<lambda>artifact.
     rd readDeploymentId (\<lambda>deployment.
     rd readDeliveryState (\<lambda>state.
     rd r_i64 (\<lambda>recordedAtMillis.
     rd_return
       \<lparr>finding_key = key, finding_generation = generation, finding_digest = digest,
        finding_artifact = artifact, finding_deployment = deployment, finding_state = state,
        finding_recordedAtMillis = recordedAtMillis\<rparr>)))))))"

definition encodeReconcileReport :: "ReconcileReportMessage \<Rightarrow> bytes encoded" where
  "encodeReconcileReport m =
     enc_fail_if (length (report_transfers m) > kMaxTransfersInReport
                  \<or> length (report_findings m) > kMaxFindingsInReport) OversizePayload
     (encoded
        [w_string kMaxIdentifierLength (report_target m),
         w_u8 (targetClassValue (report_targetClass m)),
         w_u8 (applyGuaranteeValue (report_guarantee m)), w_u64 (report_term m),
         w_opaque128 (report_incarnation m), w_u64 (report_committedGeneration m),
         w_digest (report_committedDigest m),
         w_string kMaxIdentifierLength (report_committedArtifact m),
         w_boolean (report_applyPrepared m), writeDeploymentId (report_preparedDeployment m),
         w_u64 (report_preparedGeneration m), w_digest (report_preparedDigest m),
         w_u32 (report_restartCount m), w_u32 (report_applyRollbacks m),
         w_u32 (of_nat (length (report_transfers m))),
         emit (map writeTransfer (report_transfers m)),
         w_u32 (of_nat (length (report_findings m))),
         emit (map writeFinding (report_findings m))])"

definition decodeReconcileReport :: "bytes \<Rightarrow> ReconcileReportMessage result" where
  "decodeReconcileReport payload = rd_run (
     rd readTargetId (\<lambda>target.
     rd readTargetClass (\<lambda>targetClass.
     rd readApplyGuarantee (\<lambda>guarantee.
     rd r_u64 (\<lambda>term.
     rd readIncarnation (\<lambda>incarnation.
     rd readOptionalGeneration (\<lambda>committedGeneration.
     rd readDigestField (\<lambda>committedDigest.
     rd readOptionalArtifactId (\<lambda>committedArtifact.
     rd r_boolean (\<lambda>applyPrepared.
     rd readOptionalDeploymentId (\<lambda>preparedDeployment.
     rd readOptionalGeneration (\<lambda>preparedGeneration.
     rd readDigestField (\<lambda>preparedDigest.
     rd r_u32 (\<lambda>restartCount.
     rd r_u32 (\<lambda>applyRollbacks.
     rd (r_counted kMaxTransfersInReport readTransfer) (\<lambda>transfers.
     rd (r_counted kMaxFindingsInReport readFinding) (\<lambda>findings.
     rd r_requireEnd (\<lambda>_.
     rd_fail_if (\<not> uint_isSet term \<or> \<not> OpaqueIdentity_isSet incarnation) ProtocolViolation (
     rd_return
       \<lparr>report_target = target, report_targetClass = targetClass, report_guarantee = guarantee,
        report_term = term, report_incarnation = incarnation,
        report_committedGeneration = committedGeneration, report_committedDigest = committedDigest,
        report_committedArtifact = committedArtifact, report_applyPrepared = applyPrepared,
        report_preparedDeployment = preparedDeployment,
        report_preparedGeneration = preparedGeneration, report_preparedDigest = preparedDigest,
        report_restartCount = restartCount, report_applyRollbacks = applyRollbacks,
        report_transfers = transfers, report_findings = findings\<rparr>))))))))))))))))))) payload"

subsection \<open>Control and teardown\<close>

record RetireMessage =
  retire_deployment :: DeploymentId
  retire_generation :: Generation
  retire_reason :: string

definition encodeRetire :: "RetireMessage \<Rightarrow> bytes encoded" where
  "encodeRetire m =
     enc_try (checkDetail (retire_reason m))
     (encoded
        [writeDeploymentId (retire_deployment m), w_u64 (retire_generation m),
         writeDetail (retire_reason m)])"

definition decodeRetire :: "bytes \<Rightarrow> RetireMessage result" where
  "decodeRetire payload = rd_run (
     rd readDeploymentId (\<lambda>deployment.
     rd readGeneration (\<lambda>generation.
     rd (r_string kMaxMessageDetailBytes) (\<lambda>reason.
     rd r_requireEnd (\<lambda>_.
     rd_return
       \<lparr>retire_deployment = deployment, retire_generation = generation,
        retire_reason = reason\<rparr>))))) payload"

record RetireAckMessage =
  retireAck_deployment :: DeploymentId
  retireAck_retired :: bool

definition encodeRetireAck :: "RetireAckMessage \<Rightarrow> bytes encoded" where
  "encodeRetireAck m =
     encoded
        [writeDeploymentId (retireAck_deployment m), w_boolean (retireAck_retired m)]"

definition decodeRetireAck :: "bytes \<Rightarrow> RetireAckMessage result" where
  "decodeRetireAck payload = rd_run (
     rd readDeploymentId (\<lambda>deployment.
     rd r_boolean (\<lambda>retired.
     rd r_requireEnd (\<lambda>_.
     rd_return
       \<lparr>retireAck_deployment = deployment, retireAck_retired = retired\<rparr>)))) payload"

record PingMessage =
  ping_nonce :: u64

definition encodePing :: "PingMessage \<Rightarrow> bytes encoded" where
  "encodePing m =
     encoded
        [w_u64 (ping_nonce m)]"

definition decodePing :: "bytes \<Rightarrow> PingMessage result" where
  "decodePing payload = rd_run (
     rd r_u64 (\<lambda>nonce.
     rd r_requireEnd (\<lambda>_.
     rd_return
       \<lparr>ping_nonce = nonce\<rparr>))) payload"

record PongMessage =
  pong_nonce :: u64

definition encodePong :: "PongMessage \<Rightarrow> bytes encoded" where
  "encodePong m =
     encoded
        [w_u64 (pong_nonce m)]"

definition decodePong :: "bytes \<Rightarrow> PongMessage result" where
  "decodePong payload = rd_run (
     rd r_u64 (\<lambda>nonce.
     rd r_requireEnd (\<lambda>_.
     rd_return
       \<lparr>pong_nonce = nonce\<rparr>))) payload"

record GoodbyeMessage =
  goodbye_code :: ErrorCode
  goodbye_reason :: string

definition encodeGoodbye :: "GoodbyeMessage \<Rightarrow> bytes encoded" where
  "encodeGoodbye m =
     enc_try (checkDetail (goodbye_reason m))
     (encoded
        [w_u16 (of_nat (errorCodeValue (goodbye_code m))), writeDetail (goodbye_reason m)])"

definition decodeGoodbye :: "bytes \<Rightarrow> GoodbyeMessage result" where
  "decodeGoodbye payload = rd_run (
     rd readErrorCode (\<lambda>code.
     rd (r_string kMaxMessageDetailBytes) (\<lambda>reason.
     rd r_requireEnd (\<lambda>_.
     rd_return
       \<lparr>goodbye_code = code, goodbye_reason = reason\<rparr>)))) payload"

record ErrorMessage =
  error_code :: ErrorCode
  error_directive :: RetryDirective
  error_detail :: string

definition encodeError :: "ErrorMessage \<Rightarrow> bytes encoded" where
  "encodeError m =
     enc_try (checkDetail (error_detail m))
     (encoded
        [w_u16 (of_nat (errorCodeValue (error_code m))),
         w_u8 (retryDirectiveValue (error_directive m)), writeDetail (error_detail m)])"

definition decodeError :: "bytes \<Rightarrow> ErrorMessage result" where
  "decodeError payload = rd_run (
     rd readErrorCode (\<lambda>code.
     rd readRetryDirective (\<lambda>directive.
     rd (r_string kMaxMessageDetailBytes) (\<lambda>detail.
     rd r_requireEnd (\<lambda>_.
     rd_return
       \<lparr>error_code = code, error_directive = directive, error_detail = detail\<rparr>))))) payload"

subsection \<open>Inspection control channel\<close>

definition kMaxControlCommandBytes :: nat where
  "kMaxControlCommandBytes = 32"

definition kMaxControlArguments :: nat where
  "kMaxControlArguments = 16"

definition kMaxControlArgumentBytes :: nat where
  "kMaxControlArgumentBytes = 512"

definition kMaxControlBodyBytes :: nat where
  "kMaxControlBodyBytes = 512 * 1024"

record ControlHelloMessage =
  controlHello_clientName :: string
  controlHello_nonce :: SessionNonce
  controlHello_authTag :: bytes

record ControlHelloAckMessage =
  controlHelloAck_nodeId :: NodeId
  controlHelloAck_epoch :: Epoch
  controlHelloAck_incarnation :: IncarnationId
  controlHelloAck_nonce :: SessionNonce
  controlHelloAck_authTag :: bytes

record ControlRequestMessage =
  controlRequest_command :: string
  controlRequest_arguments :: "string list"

record ControlResponseMessage =
  controlResponse_code :: ErrorCode
  controlResponse_body :: string

definition encodeControlHello :: "ControlHelloMessage \<Rightarrow> bytes encoded" where
  "encodeControlHello m =
     enc_fail_if (length (controlHello_clientName m) > kMaxIdentifierLength) LimitExceeded
     (encoded
        [w_string kMaxIdentifierLength (controlHello_clientName m),
         w_opaque128 (controlHello_nonce m), w_sha256 (controlHello_authTag m)])"

definition decodeControlHello :: "bytes \<Rightarrow> ControlHelloMessage result" where
  "decodeControlHello payload = rd_run (
     rd (r_string kMaxIdentifierLength) (\<lambda>clientName.
     rd r_opaque128 (\<lambda>nonce.
     rd r_sha256 (\<lambda>authTag.
     rd r_requireEnd (\<lambda>_.
     rd_fail_if (clientName = []) MissingField (
     rd_return
       \<lparr>controlHello_clientName = clientName, controlHello_nonce = nonce,
        controlHello_authTag = authTag\<rparr>)))))) payload"

definition encodeControlHelloAck :: "ControlHelloAckMessage \<Rightarrow> bytes encoded" where
  "encodeControlHelloAck m =
     encoded
        [w_string kMaxIdentifierLength (controlHelloAck_nodeId m), w_u64 (controlHelloAck_epoch m),
         w_opaque128 (controlHelloAck_incarnation m), w_opaque128 (controlHelloAck_nonce m),
         w_sha256 (controlHelloAck_authTag m)]"

definition decodeControlHelloAck :: "bytes \<Rightarrow> ControlHelloAckMessage result" where
  "decodeControlHelloAck payload = rd_run (
     rd readNodeId (\<lambda>nodeId.
     rd r_u64 (\<lambda>epoch.
     rd r_opaque128 (\<lambda>incarnation.
     rd r_opaque128 (\<lambda>nonce.
     rd r_sha256 (\<lambda>authTag.
     rd r_requireEnd (\<lambda>_.
     rd_return
       \<lparr>controlHelloAck_nodeId = nodeId, controlHelloAck_epoch = epoch,
        controlHelloAck_incarnation = incarnation, controlHelloAck_nonce = nonce,
        controlHelloAck_authTag = authTag\<rparr>))))))) payload"

text \<open>The argument loop of the encoder stops at the first argument over its bound.\<close>

fun writeArguments :: "string list \<Rightarrow> bytes option result" where
  "writeArguments [] = Inr (Some [])"
| "writeArguments (a # as) =
     fail_if (length a > kMaxControlArgumentBytes) LimitExceeded
       (case w_string kMaxControlArgumentBytes a of
          None \<Rightarrow> Inr None
        | Some w \<Rightarrow> Result_map (writeArguments as) (map_option ((@) w)))"

definition encodeControlRequest :: "ControlRequestMessage \<Rightarrow> bytes encoded" where
  "encodeControlRequest m =
     enc_fail_if (controlRequest_command m = []
                  \<or> length (controlRequest_command m) > kMaxControlCommandBytes) InvalidArgument
     (enc_fail_if (length (controlRequest_arguments m) > kMaxControlArguments) LimitExceeded
     (case writeArguments (controlRequest_arguments m) of
        Inl e \<Rightarrow> Some (Inl e)
      | Inr arguments \<Rightarrow>
          encoded
            [w_string kMaxControlCommandBytes (controlRequest_command m),
             w_u32 (of_nat (length (controlRequest_arguments m))), arguments]))"

definition decodeControlRequest :: "bytes \<Rightarrow> ControlRequestMessage result" where
  "decodeControlRequest payload = rd_run (
     rd (r_string kMaxControlCommandBytes) (\<lambda>command.
     rd_fail_if (command = []) MissingField (
     rd (r_counted kMaxControlArguments (r_string kMaxControlArgumentBytes)) (\<lambda>arguments.
     rd r_requireEnd (\<lambda>_.
     rd_return
       \<lparr>controlRequest_command = command, controlRequest_arguments = arguments\<rparr>))))) payload"

definition encodeControlResponse :: "ControlResponseMessage \<Rightarrow> bytes encoded" where
  "encodeControlResponse m =
     enc_fail_if (length (controlResponse_body m) > kMaxControlBodyBytes) LimitExceeded
     (encoded
        [w_u16 (of_nat (errorCodeValue (controlResponse_code m))),
         w_string kMaxControlBodyBytes (controlResponse_body m)])"

definition decodeControlResponse :: "bytes \<Rightarrow> ControlResponseMessage result" where
  "decodeControlResponse payload = rd_run (
     rd readErrorCode (\<lambda>code.
     rd (r_string kMaxControlBodyBytes) (\<lambda>body.
     rd r_requireEnd (\<lambda>_.
     rd_return \<lparr>controlResponse_code = code, controlResponse_body = body\<rparr>)))) payload"

subsection \<open>Authentication\<close>

text \<open>The last 32 bytes of a payload are its tag; both sides compute the HMAC with the tag zeroed.\<close>

definition zero_tag :: "bytes \<Rightarrow> bytes" where
  "zero_tag payload = take (length payload - kAuthTagBytes) payload @ replicate kAuthTagBytes 0"

definition sealAuthenticated :: "bytes \<Rightarrow> bytes \<Rightarrow> bytes result" where
  "sealAuthenticated payload key =
     fail_if (length payload < kAuthTagBytes) Internal
       (Inr (take (length payload - kAuthTagBytes) payload @ hmacSha256 key (zero_tag payload)))"

definition verifyAuthenticated :: "bytes \<Rightarrow> bytes \<Rightarrow> status" where
  "verifyAuthenticated payload key =
     fail_if (length payload < kAuthTagBytes) Unauthenticated
     (fail_if (\<not> constantTimeEquals (drop (length payload - kAuthTagBytes) payload)
                                   (hmacSha256 key (zero_tag payload))) Unauthenticated
       (Inr ()))"

subsection \<open>Log summaries\<close>

definition renderMessageSummary :: "FrameType \<Rightarrow> bytes \<Rightarrow> string" where
  "renderMessageSummary t payload =
     frameTypeName t @
     (case t of
        Prepare \<Rightarrow>
          (case decodePrepare payload of
             Inl _ \<Rightarrow> []
           | Inr m \<Rightarrow> '' deployment='' @ prepare_deployment m
               @ '' gen='' @ to_string (unat (prepare_generation m))
               @ '' digest='' @ shortDigest (prepare_digest m))
      | Chunk \<Rightarrow>
          (case decodeChunk payload of
             Inl _ \<Rightarrow> []
           | Inr m \<Rightarrow> '' stream='' @ to_string (unat (chunk_stream m))
               @ '' seq='' @ to_string (unat (chunk_sequence m))
               @ '' offset='' @ to_string (unat (chunk_offset m))
               @ '' bytes='' @ to_string (length (chunk_data m)))
      | DeliveryAck \<Rightarrow>
          (case decodeDeliveryAck payload of
             Inl _ \<Rightarrow> []
           | Inr m \<Rightarrow> '' deployment='' @ deliveryAck_deployment m
               @ '' state='' @ deliveryStateName (deliveryAck_state m))
      | DeliveryNack \<Rightarrow>
          (case decodeDeliveryNack payload of
             Inl _ \<Rightarrow> []
           | Inr m \<Rightarrow> '' deployment='' @ deliveryNack_deployment m
               @ '' code='' @ errorCodeName (deliveryNack_code m))
      | _ \<Rightarrow> [])"

subsection \<open>Admissible messages and the codec contract\<close>

text \<open>
  A message is admissible when its decoder would accept it: the identifiers are well formed, the
  fixed-width fields have their width and the range checks of the decoder hold.
\<close>

definition hello_ok :: "HelloMessage \<Rightarrow> bool" where
  "hello_ok m \<longleftrightarrow>
     isValidIdentifier (hello_nodeId m)
     \<and> length (hello_incarnation m) = 16
     \<and> length (hello_nonce m) = 16
     \<and> length (hello_authTag m) = 32
     \<and> \<not> (hello_minWireVersion m > hello_maxWireVersion m)
     \<and> \<not> (hello_capabilities m AND NOT kCapabilityKnownMask \<noteq> 0)
     \<and> \<not> (hello_maxPayloadBytes m = 0 \<or> hello_maxPayloadBytes m > kAbsoluteMaxPayloadBytes)"

definition helloAck_ok :: "HelloAckMessage \<Rightarrow> bool" where
  "helloAck_ok m \<longleftrightarrow>
     isValidIdentifier (helloAck_target m)
     \<and> length (helloAck_incarnation m) = 16
     \<and> length (helloAck_nonce m) = 16
     \<and> length (helloAck_committedDigest m) = 32
     \<and> optionalIdentifier (helloAck_committedArtifact m)
     \<and> length (helloAck_authTag m) = 32
     \<and> \<not> (helloAck_wireVersion m \<noteq> kWireVersion)
     \<and> \<not> (\<not> uint_isSet (helloAck_term m))
     \<and> \<not> (helloAck_maxPayloadBytes m = 0 \<or> helloAck_maxPayloadBytes m > kAbsoluteMaxPayloadBytes)
     \<and> \<not> (helloAck_capabilities m AND NOT kCapabilityKnownMask \<noteq> 0)
     \<and> \<not> (\<not> capabilitySupportsGuarantee (helloAck_capabilities m) (helloAck_guarantee m))"

definition helloConfirm_ok :: "HelloConfirmMessage \<Rightarrow> bool" where
  "helloConfirm_ok m \<longleftrightarrow>
     length (helloConfirm_authTag m) = 32"

definition prepare_ok :: "PrepareMessage \<Rightarrow> bool" where
  "prepare_ok m \<longleftrightarrow>
     isValidIdentifier (prepare_deployment m)
     \<and> isValidIdentifier (prepare_key m)
     \<and> isValidIdentifier (prepare_artifact m)
     \<and> (prepare_generation m) \<noteq> 0
     \<and> length (prepare_digest m) = 32
     \<and> isValidIdentifier (prepare_schema m)
     \<and> \<not> (\<not> Digest_isSet (prepare_digest m))
     \<and> \<not> (prepare_sizeBytes m = 0)
     \<and> \<not> ((prepare_chunkBytes m) = 0 \<or> unat (prepare_chunkBytes m) > kMaxChunkPayloadBytes)
     \<and> \<not> (\<not> uint_isSet (prepare_stream m))
     \<and> \<not> (\<not> uint_isSet (prepare_authorityEpoch m))"

definition prepareAck_ok :: "PrepareAckMessage \<Rightarrow> bool" where
  "prepareAck_ok m \<longleftrightarrow>
     isValidIdentifier (prepareAck_deployment m)
     \<and> length (prepareAck_committedDigest m) = 32
     \<and> length (prepareAck_priorDigest m) = 32"

definition prepareReject_ok :: "PrepareRejectMessage \<Rightarrow> bool" where
  "prepareReject_ok m \<longleftrightarrow>
     isValidIdentifier (prepareReject_deployment m)"

definition transferComplete_ok :: "TransferCompleteMessage \<Rightarrow> bool" where
  "transferComplete_ok m \<longleftrightarrow>
     isValidIdentifier (transferComplete_deployment m)
     \<and> length (transferComplete_digest m) = 32"

definition transferResult_ok :: "TransferResultMessage \<Rightarrow> bool" where
  "transferResult_ok m \<longleftrightarrow>
     isValidIdentifier (transferResult_deployment m)"

definition stage_ok :: "StageMessage \<Rightarrow> bool" where
  "stage_ok m \<longleftrightarrow>
     isValidIdentifier (stage_deployment m)
     \<and> (stage_generation m) \<noteq> 0
     \<and> length (stage_digest m) = 32"

definition stageAck_ok :: "StageAckMessage \<Rightarrow> bool" where
  "stageAck_ok m \<longleftrightarrow>
     isValidIdentifier (stageAck_deployment m)"

definition applyPrepare_ok :: "ApplyPrepareMessage \<Rightarrow> bool" where
  "applyPrepare_ok m \<longleftrightarrow>
     isValidIdentifier (applyPrepare_deployment m)
     \<and> (applyPrepare_generation m) \<noteq> 0
     \<and> length (applyPrepare_digest m) = 32"

definition applyPrepareAck_ok :: "ApplyPrepareAckMessage \<Rightarrow> bool" where
  "applyPrepareAck_ok m \<longleftrightarrow>
     isValidIdentifier (applyPrepareAck_deployment m)"

definition applyCommit_ok :: "ApplyCommitMessage \<Rightarrow> bool" where
  "applyCommit_ok m \<longleftrightarrow>
     isValidIdentifier (applyCommit_deployment m)
     \<and> (applyCommit_generation m) \<noteq> 0
     \<and> length (applyCommit_digest m) = 32"

definition applyCommitAck_ok :: "ApplyCommitAckMessage \<Rightarrow> bool" where
  "applyCommitAck_ok m \<longleftrightarrow>
     isValidIdentifier (applyCommitAck_deployment m)
     \<and> length (applyCommitAck_committedDigest m) = 32"

definition applyAbort_ok :: "ApplyAbortMessage \<Rightarrow> bool" where
  "applyAbort_ok m \<longleftrightarrow>
     isValidIdentifier (applyAbort_deployment m)
     \<and> (applyAbort_generation m) \<noteq> 0"

definition applyAbortAck_ok :: "ApplyAbortAckMessage \<Rightarrow> bool" where
  "applyAbortAck_ok m \<longleftrightarrow>
     isValidIdentifier (applyAbortAck_deployment m)"

definition deliveryAck_ok :: "DeliveryAckMessage \<Rightarrow> bool" where
  "deliveryAck_ok m \<longleftrightarrow>
     isValidIdentifier (deliveryAck_deployment m)
     \<and> isValidIdentifier (deliveryAck_key m)
     \<and> (deliveryAck_generation m) \<noteq> 0
     \<and> length (deliveryAck_digest m) = 32
     \<and> optionalIdentifier (deliveryAck_artifact m)
     \<and> length (deliveryAck_incarnation m) = 16
     \<and> i64_range (deliveryAck_targetTimestampMillis m)
     \<and> \<not> (\<not> isActivationState (deliveryAck_state m))
     \<and> \<not> (\<not> uint_isSet (deliveryAck_term m) \<or> \<not> OpaqueIdentity_isSet (deliveryAck_incarnation m))"

definition deliveryNack_ok :: "DeliveryNackMessage \<Rightarrow> bool" where
  "deliveryNack_ok m \<longleftrightarrow>
     isValidIdentifier (deliveryNack_deployment m)
     \<and> isValidIdentifier (deliveryNack_key m)
     \<and> (deliveryNack_generation m) \<noteq> 0
     \<and> length (deliveryNack_digest m) = 32
     \<and> length (deliveryNack_incarnation m) = 16"

definition reconcileRequest_ok :: "ReconcileRequestMessage \<Rightarrow> bool" where
  "reconcileRequest_ok m \<longleftrightarrow>
     isValidIdentifier (reconcileRequest_nodeId m)
     \<and> length (reconcileRequest_incarnation m) = 16
     \<and> \<not> (\<not> uint_isSet (reconcileRequest_epoch m))
     \<and> \<not> (unat (reconcileRequest_maxFindings m) > kMaxFindingsInReport)"

definition retire_ok :: "RetireMessage \<Rightarrow> bool" where
  "retire_ok m \<longleftrightarrow>
     isValidIdentifier (retire_deployment m)
     \<and> (retire_generation m) \<noteq> 0"

definition retireAck_ok :: "RetireAckMessage \<Rightarrow> bool" where
  "retireAck_ok m \<longleftrightarrow>
     isValidIdentifier (retireAck_deployment m)"

lemma decodeHello_iff:
  "decodeHello bs = Inr m \<longleftrightarrow> hello_ok m \<and> encodeHello m = Some (Inr bs)"
  by (cases m) (auto simp: decodeHello_def encodeHello_def hello_ok_def codec_rules)

lemma decodeHelloAck_iff:
  "decodeHelloAck bs = Inr m \<longleftrightarrow> helloAck_ok m \<and> encodeHelloAck m = Some (Inr bs)"
  by (cases m) (auto simp: decodeHelloAck_def encodeHelloAck_def helloAck_ok_def codec_rules)

lemma decodeHelloConfirm_iff:
  "decodeHelloConfirm bs = Inr m \<longleftrightarrow> helloConfirm_ok m \<and> encodeHelloConfirm m = Some (Inr bs)"
  by (cases m) (auto simp: decodeHelloConfirm_def encodeHelloConfirm_def helloConfirm_ok_def codec_rules)

lemma decodeAuthReject_iff:
  "decodeAuthReject bs = Inr m \<longleftrightarrow> encodeAuthReject m = Some (Inr bs)"
  by (cases m) (auto simp: decodeAuthReject_def encodeAuthReject_def codec_rules)

lemma decodePrepare_iff:
  "decodePrepare bs = Inr m \<longleftrightarrow> prepare_ok m \<and> encodePrepare m = Some (Inr bs)"
  by (cases m) (auto simp: decodePrepare_def encodePrepare_def prepare_ok_def codec_rules)

lemma decodePrepareAck_iff:
  "decodePrepareAck bs = Inr m \<longleftrightarrow> prepareAck_ok m \<and> encodePrepareAck m = Some (Inr bs)"
  by (cases m) (auto simp: decodePrepareAck_def encodePrepareAck_def prepareAck_ok_def codec_rules)

lemma decodePrepareReject_iff:
  "decodePrepareReject bs = Inr m \<longleftrightarrow> prepareReject_ok m \<and> encodePrepareReject m = Some (Inr bs)"
  by (cases m) (auto simp: decodePrepareReject_def encodePrepareReject_def prepareReject_ok_def codec_rules)

lemma decodeChunkAck_iff:
  "decodeChunkAck bs = Inr m \<longleftrightarrow> encodeChunkAck m = Some (Inr bs)"
  by (cases m) (auto simp: decodeChunkAck_def encodeChunkAck_def codec_rules)

lemma decodeTransferComplete_iff:
  "decodeTransferComplete bs = Inr m \<longleftrightarrow> transferComplete_ok m \<and> encodeTransferComplete m = Some (Inr bs)"
  by (cases m) (auto simp: decodeTransferComplete_def encodeTransferComplete_def transferComplete_ok_def codec_rules)

lemma decodeTransferResult_iff:
  "decodeTransferResult bs = Inr m \<longleftrightarrow> transferResult_ok m \<and> encodeTransferResult m = Some (Inr bs)"
  by (cases m) (auto simp: decodeTransferResult_def encodeTransferResult_def transferResult_ok_def codec_rules)

lemma decodeStage_iff:
  "decodeStage bs = Inr m \<longleftrightarrow> stage_ok m \<and> encodeStage m = Some (Inr bs)"
  by (cases m) (auto simp: decodeStage_def encodeStage_def stage_ok_def codec_rules)

lemma decodeStageAck_iff:
  "decodeStageAck bs = Inr m \<longleftrightarrow> stageAck_ok m \<and> encodeStageAck m = Some (Inr bs)"
  by (cases m) (auto simp: decodeStageAck_def encodeStageAck_def stageAck_ok_def codec_rules)

lemma decodeApplyPrepare_iff:
  "decodeApplyPrepare bs = Inr m \<longleftrightarrow> applyPrepare_ok m \<and> encodeApplyPrepare m = Some (Inr bs)"
  by (cases m) (auto simp: decodeApplyPrepare_def encodeApplyPrepare_def applyPrepare_ok_def codec_rules)

lemma decodeApplyPrepareAck_iff:
  "decodeApplyPrepareAck bs = Inr m \<longleftrightarrow> applyPrepareAck_ok m \<and> encodeApplyPrepareAck m = Some (Inr bs)"
  by (cases m) (auto simp: decodeApplyPrepareAck_def encodeApplyPrepareAck_def applyPrepareAck_ok_def codec_rules)

lemma decodeApplyCommit_iff:
  "decodeApplyCommit bs = Inr m \<longleftrightarrow> applyCommit_ok m \<and> encodeApplyCommit m = Some (Inr bs)"
  by (cases m) (auto simp: decodeApplyCommit_def encodeApplyCommit_def applyCommit_ok_def codec_rules)

lemma decodeApplyCommitAck_iff:
  "decodeApplyCommitAck bs = Inr m \<longleftrightarrow> applyCommitAck_ok m \<and> encodeApplyCommitAck m = Some (Inr bs)"
  by (cases m) (auto simp: decodeApplyCommitAck_def encodeApplyCommitAck_def applyCommitAck_ok_def codec_rules)

lemma decodeApplyAbort_iff:
  "decodeApplyAbort bs = Inr m \<longleftrightarrow> applyAbort_ok m \<and> encodeApplyAbort m = Some (Inr bs)"
  by (cases m) (auto simp: decodeApplyAbort_def encodeApplyAbort_def applyAbort_ok_def codec_rules)

lemma decodeApplyAbortAck_iff:
  "decodeApplyAbortAck bs = Inr m \<longleftrightarrow> applyAbortAck_ok m \<and> encodeApplyAbortAck m = Some (Inr bs)"
  by (cases m) (auto simp: decodeApplyAbortAck_def encodeApplyAbortAck_def applyAbortAck_ok_def codec_rules)

lemma decodeDeliveryAck_iff:
  "decodeDeliveryAck bs = Inr m \<longleftrightarrow> deliveryAck_ok m \<and> encodeDeliveryAck m = Some (Inr bs)"
  by (cases m) (auto simp: decodeDeliveryAck_def encodeDeliveryAck_def deliveryAck_ok_def codec_rules)

lemma decodeDeliveryNack_iff:
  "decodeDeliveryNack bs = Inr m \<longleftrightarrow> deliveryNack_ok m \<and> encodeDeliveryNack m = Some (Inr bs)"
  by (cases m) (auto simp: decodeDeliveryNack_def encodeDeliveryNack_def deliveryNack_ok_def codec_rules)

lemma decodeReconcileRequest_iff:
  "decodeReconcileRequest bs = Inr m \<longleftrightarrow> reconcileRequest_ok m \<and> encodeReconcileRequest m = Some (Inr bs)"
  by (cases m) (auto simp: decodeReconcileRequest_def encodeReconcileRequest_def reconcileRequest_ok_def codec_rules)

lemma decodeRetire_iff:
  "decodeRetire bs = Inr m \<longleftrightarrow> retire_ok m \<and> encodeRetire m = Some (Inr bs)"
  by (cases m) (auto simp: decodeRetire_def encodeRetire_def retire_ok_def codec_rules)

lemma decodeRetireAck_iff:
  "decodeRetireAck bs = Inr m \<longleftrightarrow> retireAck_ok m \<and> encodeRetireAck m = Some (Inr bs)"
  by (cases m) (auto simp: decodeRetireAck_def encodeRetireAck_def retireAck_ok_def codec_rules)

lemma decodePing_iff:
  "decodePing bs = Inr m \<longleftrightarrow> encodePing m = Some (Inr bs)"
  by (cases m) (auto simp: decodePing_def encodePing_def codec_rules)

lemma decodePong_iff:
  "decodePong bs = Inr m \<longleftrightarrow> encodePong m = Some (Inr bs)"
  by (cases m) (auto simp: decodePong_def encodePong_def codec_rules)

lemma decodeGoodbye_iff:
  "decodeGoodbye bs = Inr m \<longleftrightarrow> encodeGoodbye m = Some (Inr bs)"
  by (cases m) (auto simp: decodeGoodbye_def encodeGoodbye_def codec_rules)

lemma decodeError_iff:
  "decodeError bs = Inr m \<longleftrightarrow> encodeError m = Some (Inr bs)"
  by (cases m) (auto simp: decodeError_def encodeError_def codec_rules)

definition chunk_ok :: "ChunkMessage \<Rightarrow> bool" where
  "chunk_ok m \<longleftrightarrow> uint_isSet (chunk_stream m) \<and> chunk_data m \<noteq> []"

lemma bytes_string_inject: "bytes_string d = bytes_string e \<longleftrightarrow> d = e"
  by (metis string_bytes_of_bytes_string)

lemma decodeChunk_iff: "decodeChunk bs = Inr m \<longleftrightarrow> chunk_ok m \<and> encodeChunk m = Some (Inr bs)"
  by (cases m)
    (auto simp: decodeChunk_def encodeChunk_def chunk_ok_def codec_rules string_bytes_eq_iff
      eq_string_bytes_iff bytes_string_inject not_less)

definition transfer_ok :: "TransferStatusRecord \<Rightarrow> bool" where
  "transfer_ok r \<longleftrightarrow>
     isValidIdentifier (transfer_deployment r) \<and> isValidIdentifier (transfer_key r)
     \<and> transfer_generation r \<noteq> 0 \<and> length (transfer_digest r) = 32
     \<and> transfer_bytesReceived r \<le> transfer_totalBytes r"

definition finding_ok :: "ReconcileFinding \<Rightarrow> bool" where
  "finding_ok f \<longleftrightarrow>
     isValidIdentifier (finding_key f) \<and> finding_generation f \<noteq> 0 \<and> length (finding_digest f) = 32
     \<and> optionalIdentifier (finding_artifact f) \<and> isValidIdentifier (finding_deployment f)
     \<and> i64_range (finding_recordedAtMillis f)"

lemma readTransfer_iff:
  "readTransfer bs = Inr (r, rest) \<longleftrightarrow> transfer_ok r \<and> (\<exists>w. writeTransfer r = Some w \<and> bs = w @ rest)"
  by (cases r) (auto simp: readTransfer_def writeTransfer_def transfer_ok_def codec_rules)

lemma readFinding_iff:
  "readFinding bs = Inr (f, rest) \<longleftrightarrow> finding_ok f \<and> (\<exists>w. writeFinding f = Some w \<and> bs = w @ rest)"
  by (cases f) (auto simp: readFinding_def writeFinding_def finding_ok_def codec_rules)

interpretation transferCodec: field_codec writeTransfer readTransfer transfer_ok
  by unfold_locales (auto simp: readTransfer_iff)

interpretation findingCodec: field_codec writeFinding readFinding finding_ok
  by unfold_locales (auto simp: readFinding_iff)

definition report_ok :: "ReconcileReportMessage \<Rightarrow> bool" where
  "report_ok m \<longleftrightarrow>
     isValidIdentifier (report_target m) \<and> length (report_incarnation m) = 16
     \<and> length (report_committedDigest m) = 32 \<and> optionalIdentifier (report_committedArtifact m)
     \<and> optionalIdentifier (report_preparedDeployment m) \<and> length (report_preparedDigest m) = 32
     \<and> list_all transfer_ok (report_transfers m) \<and> list_all finding_ok (report_findings m)
     \<and> uint_isSet (report_term m) \<and> OpaqueIdentity_isSet (report_incarnation m)"

lemma decodeReconcileReport_iff:
  "decodeReconcileReport bs = Inr m \<longleftrightarrow> report_ok m \<and> encodeReconcileReport m = Some (Inr bs)"
proof -
  have "kMaxTransfersInReport < 2 ^ 32" "kMaxFindingsInReport < 2 ^ 32"
    by (simp_all add: kMaxTransfersInReport_def kMaxFindingsInReport_def)
  then show ?thesis
    by (cases m)
      (simp add: decodeReconcileReport_def encodeReconcileReport_def report_ok_def
        transferCodec.rd_counted_iff findingCodec.rd_counted_iff emit_map_eq_Some
        codec_rules not_less, blast)
qed

lemma decodeControlHello_iff:
  "decodeControlHello bs = Inr m \<longleftrightarrow>
     controlHello_clientName m \<noteq> [] \<and> length (controlHello_nonce m) = 16
     \<and> length (controlHello_authTag m) = 32 \<and> encodeControlHello m = Some (Inr bs)"
  by (cases m) (auto simp: decodeControlHello_def encodeControlHello_def codec_rules opaque128.rd_get_iff)

lemma decodeControlHelloAck_iff:
  "decodeControlHelloAck bs = Inr m \<longleftrightarrow>
     isValidIdentifier (controlHelloAck_nodeId m) \<and> length (controlHelloAck_incarnation m) = 16
     \<and> length (controlHelloAck_nonce m) = 16 \<and> length (controlHelloAck_authTag m) = 32
     \<and> encodeControlHelloAck m = Some (Inr bs)"
  by (cases m) (auto simp: decodeControlHelloAck_def encodeControlHelloAck_def codec_rules opaque128.rd_get_iff)

lemma writeArguments_iff:
  "writeArguments as = Inr (Some w) \<longleftrightarrow>
     list_all (\<lambda>a. length a \<le> kMaxControlArgumentBytes) as
     \<and> emit (map (w_string kMaxControlArgumentBytes) as) = Some w"
proof (induction as arbitrary: w)
  case (Cons a as)
  have "writeArguments (a # as) = Inr (Some w) \<longleftrightarrow>
      length a \<le> kMaxControlArgumentBytes
      \<and> (\<exists>x b. w_string kMaxControlArgumentBytes a = Some x \<and> writeArguments as = Inr (Some b) \<and> w = x @ b)"
    by (auto simp: result_simps Result_map_def not_less split: option.splits sum.splits)
  then show ?case by (auto simp: Cons.IH emit_Cons_eq_Some)
qed (auto simp: emit_Nil_eq_Some)

lemma encodeControlRequest_iff:
  "encodeControlRequest m = Some (Inr bs) \<longleftrightarrow>
     controlRequest_command m \<noteq> [] \<and> length (controlRequest_command m) \<le> kMaxControlCommandBytes
     \<and> length (controlRequest_arguments m) \<le> kMaxControlArguments
     \<and> (\<exists>w. writeArguments (controlRequest_arguments m) = Inr (Some w)
          \<and> emit [w_string kMaxControlCommandBytes (controlRequest_command m),
                   w_u32 (of_nat (length (controlRequest_arguments m))), Some w] = Some bs)"
proof -
  have "emit [x, y, None] = None" for x y by (simp add: emit.simps split: option.split)
  then show ?thesis
    by (auto simp: encodeControlRequest_def enc_fail_if_eq_iff encoded_eq_iff not_less
        split: sum.split) (metis not_None_eq option.distinct(1))
qed

lemma string_arguments_ok:
  "writable (w_string m) as \<Longrightarrow> list_all (\<lambda>a. length a \<le> m) as"
proof -
  have "emit (map (w_string m) as) = Some w \<Longrightarrow> list_all (\<lambda>a. length a \<le> m) as" for w
    by (induction as arbitrary: w) (auto simp: emit_Cons_eq_Some w_string_eq_Some_iff)
  then show "writable (w_string m) as \<Longrightarrow> list_all (\<lambda>a. length a \<le> m) as"
    by (auto simp: writable_def)
qed

lemma decodeControlRequest_iff:
  "decodeControlRequest bs = Inr m \<longleftrightarrow> encodeControlRequest m = Some (Inr bs)"
proof -
  have "kMaxControlArguments < 2 ^ 32" by (simp add: kMaxControlArguments_def)
  moreover have "list_all (\<lambda>_. True) xs" for xs :: "string list" by (simp add: list_all_iff)
  ultimately show ?thesis
    by (cases m)
      (simp add: decodeControlRequest_def encodeControlRequest_iff codec_rules emit_map_eq_Some
        string.rd_counted_iff writeArguments_iff, blast dest: string_arguments_ok)
qed

lemma decodeControlResponse_iff:
  "decodeControlResponse bs = Inr m \<longleftrightarrow> encodeControlResponse m = Some (Inr bs)"
  by (cases m) (auto simp: decodeControlResponse_def encodeControlResponse_def codec_rules)

subsection \<open>Authentication\<close>

lemma zero_tag_seal:
  "kAuthTagBytes \<le> length p \<Longrightarrow>
     zero_tag (take (length p - kAuthTagBytes) p @ hmacSha256 key q) = zero_tag p"
  by (simp add: zero_tag_def kAuthTagBytes_def)

lemma sealAuthenticated_Inr_iff:
  "sealAuthenticated p key = Inr s \<longleftrightarrow>
     kAuthTagBytes \<le> length p
     \<and> s = take (length p - kAuthTagBytes) p @ hmacSha256 key (zero_tag p)"
  by (auto simp: sealAuthenticated_def result_simps)

lemma verifyAuthenticated_iff:
  "verifyAuthenticated p key = Inr () \<longleftrightarrow> sealAuthenticated p key = Inr p"
proof (cases "kAuthTagBytes \<le> length p")
  case True
  define b where "b = take (length p - kAuthTagBytes) p"
  define t where "t = drop (length p - kAuthTagBytes) p"
  have p: "p = b @ t" by (simp add: b_def t_def)
  have "verifyAuthenticated p key = Inr () \<longleftrightarrow> t = hmacSha256 key (zero_tag p)"
    using True by (auto simp: verifyAuthenticated_def result_simps constantTimeEquals_iff t_def)
  also have "\<dots> \<longleftrightarrow> b @ hmacSha256 key (zero_tag p) = b @ t" by auto
  also have "\<dots> \<longleftrightarrow> sealAuthenticated p key = Inr p"
    using True by (auto simp: sealAuthenticated_Inr_iff b_def [symmetric] p [symmetric])
  finally show ?thesis .
qed (auto simp: verifyAuthenticated_def sealAuthenticated_Inr_iff)

lemma seal_idempotent:
  "sealAuthenticated p key = Inr s \<Longrightarrow> sealAuthenticated s key = Inr s"
  by (auto simp: sealAuthenticated_Inr_iff zero_tag_seal) (auto simp: kAuthTagBytes_def)

text \<open>Sealing an encoded message replaces its tag field and nothing else.\<close>

lemma encodeHello_tag_last:
  assumes "hello_ok m" and "encodeHello m = Some (Inr bs)"
  obtains body where "bs = body @ hello_authTag m"
    and "\<And>t. encodeHello (m\<lparr>hello_authTag := t\<rparr>) = Some (Inr (body @ t))"
  using assms by (auto simp: encodeHello_def codec_rules intro!: that)

lemma seal_encoded_hello:
  assumes "hello_ok m" and "encodeHello m = Some (Inr bs)"
    and "sealAuthenticated bs key = Inr s"
  shows "decodeHello s = Inr (m\<lparr>hello_authTag := hmacSha256 key (zero_tag bs)\<rparr>)"
proof -
  obtain body where b: "bs = body @ hello_authTag m"
    and e: "\<And>t. encodeHello (m\<lparr>hello_authTag := t\<rparr>) = Some (Inr (body @ t))"
    using encodeHello_tag_last [OF assms(1,2)] by blast
  have "length (hello_authTag m) = 32" using assms(1) by (simp add: hello_ok_def)
  then have s: "s = body @ hmacSha256 key (zero_tag bs)"
    using assms(3) b by (simp add: sealAuthenticated_Inr_iff kAuthTagBytes_def)
  have "hello_ok (m\<lparr>hello_authTag := hmacSha256 key (zero_tag bs)\<rparr>)"
    using assms(1) by (simp add: hello_ok_def)
  then show ?thesis by (simp add: decodeHello_iff e s)
qed

subsection \<open>Properties\<close>

text \<open>
  C12: the fifteen messages of a delivery (the offer with its acceptance and refusal, the chunks, the end of the
  transfer, staging, and preparing, committing and aborting an activation, each with its answer) have exact codecs.
  For each of them a payload decodes to a message
  precisely when the message is admissible and the payload is its one encoding: nothing is lost,
  nothing is accepted in two forms, and trailing bytes are never ignored.
\<close>

theorem delivery_codecs_exact:
  "(decodePrepare bs = Inr m1) = (prepare_ok m1 \<and> encodePrepare m1 = Some (Inr bs))
   \<and> (decodePrepareAck bs = Inr m2) = (prepareAck_ok m2 \<and> encodePrepareAck m2 = Some (Inr bs))
   \<and> (decodePrepareReject bs = Inr m3) = (prepareReject_ok m3 \<and> encodePrepareReject m3 = Some (Inr bs))
   \<and> (decodeChunk bs = Inr m4) = (chunk_ok m4 \<and> encodeChunk m4 = Some (Inr bs))
   \<and> (decodeChunkAck bs = Inr m5) = (encodeChunkAck m5 = Some (Inr bs))
   \<and> (decodeTransferComplete bs = Inr m6) = (transferComplete_ok m6 \<and> encodeTransferComplete m6 = Some (Inr bs))
   \<and> (decodeTransferResult bs = Inr m7) = (transferResult_ok m7 \<and> encodeTransferResult m7 = Some (Inr bs))
   \<and> (decodeStage bs = Inr m8) = (stage_ok m8 \<and> encodeStage m8 = Some (Inr bs))
   \<and> (decodeApplyPrepare bs = Inr m9) = (applyPrepare_ok m9 \<and> encodeApplyPrepare m9 = Some (Inr bs))
   \<and> (decodeApplyCommit bs = Inr m10) = (applyCommit_ok m10 \<and> encodeApplyCommit m10 = Some (Inr bs))
   \<and> (decodeApplyCommitAck bs = Inr m11) = (applyCommitAck_ok m11 \<and> encodeApplyCommitAck m11 = Some (Inr bs))
   \<and> (decodeStageAck bs = Inr m12) = (stageAck_ok m12 \<and> encodeStageAck m12 = Some (Inr bs))
   \<and> (decodeApplyPrepareAck bs = Inr m13) = (applyPrepareAck_ok m13 \<and> encodeApplyPrepareAck m13 = Some (Inr bs))
   \<and> (decodeApplyAbort bs = Inr m14) = (applyAbort_ok m14 \<and> encodeApplyAbort m14 = Some (Inr bs))
   \<and> (decodeApplyAbortAck bs = Inr m15) = (applyAbortAck_ok m15 \<and> encodeApplyAbortAck m15 = Some (Inr bs))"
  by (simp only: decodePrepare_iff decodePrepareAck_iff decodePrepareReject_iff decodeChunk_iff
      decodeChunkAck_iff decodeTransferComplete_iff decodeTransferResult_iff decodeStage_iff
      decodeApplyPrepare_iff decodeApplyCommit_iff decodeApplyCommitAck_iff decodeStageAck_iff
      decodeApplyPrepareAck_iff decodeApplyAbort_iff decodeApplyAbortAck_iff simp_thms)

text \<open>
  the messages that carry evidence, the acknowledgement, the refusal and the reconcile report
  with its two bounded collections, have exact codecs too; what a decoder accepts as evidence names
  a generation, an activation state and a target authority that are all set.
\<close>

theorem evidence_codecs_exact:
  "(decodeDeliveryAck bs = Inr a) = (deliveryAck_ok a \<and> encodeDeliveryAck a = Some (Inr bs))
   \<and> (decodeDeliveryNack bs = Inr n) = (deliveryNack_ok n \<and> encodeDeliveryNack n = Some (Inr bs))
   \<and> (decodeReconcileRequest bs = Inr q) = (reconcileRequest_ok q \<and> encodeReconcileRequest q = Some (Inr bs))
   \<and> (decodeReconcileReport bs = Inr r) = (report_ok r \<and> encodeReconcileReport r = Some (Inr bs))"
  by (simp only: decodeDeliveryAck_iff decodeDeliveryNack_iff decodeReconcileRequest_iff
      decodeReconcileReport_iff simp_thms)

text \<open>
  the handshake tag does what it is for. A payload passes verification exactly when sealing it
  again would not change it, so for a given key and body there is one accepted tag; and a sealed
  payload always verifies.
\<close>

theorem authentication_tag_exact:
  "(verifyAuthenticated p key = Inr ()) = (sealAuthenticated p key = Inr p)
   \<and> (kAuthTagBytes \<le> length p) = (\<exists>s. sealAuthenticated p key = Inr s \<and> verifyAuthenticated s key = Inr ())"
proof -
  have "\<exists>s. sealAuthenticated p key = Inr s" if "kAuthTagBytes \<le> length p"
    using that by (simp add: sealAuthenticated_Inr_iff)
  moreover have "kAuthTagBytes \<le> length p" if "sealAuthenticated p key = Inr s" for s
    using that by (simp add: sealAuthenticated_Inr_iff)
  ultimately show ?thesis
    using seal_idempotent [of p key] by (metis verifyAuthenticated_iff)
qed

text \<open>
  a sealed greeting arrives. An admissible Hello that is encoded and sealed under the shared
  key passes the peer's verification and decodes to the same message with the tag filled in.
\<close>

theorem sealed_hello_arrives:
  assumes "hello_ok m" and "encodeHello m = Some (Inr bs)" and "sealAuthenticated bs key = Inr s"
  shows "verifyAuthenticated s key = Inr ()
    \<and> decodeHello s = Inr (m\<lparr>hello_authTag := hmacSha256 key (zero_tag bs)\<rparr>)"
  using seal_encoded_hello [OF assms] seal_idempotent [OF assms(3)] by (simp add: verifyAuthenticated_iff)

definition example_hello :: HelloMessage where
  "example_hello =
     \<lparr>hello_nodeId = ''node-1'', hello_epoch = 4, hello_incarnation = replicate 16 1,
      hello_nonce = replicate 16 2, hello_minWireVersion = 1, hello_maxWireVersion = 1,
      hello_maxPayloadBytes = 4096, hello_capabilities = 0x1F, hello_authTag = replicate 32 0\<rparr>"

theorem sealed_hello_arrives_witness:
  "\<exists>bs s. encodeHello example_hello = Some (Inr bs) \<and> sealAuthenticated bs [7] = Inr s
     \<and> verifyAuthenticated s [7] = Inr ()
     \<and> decodeHello s = Inr (example_hello\<lparr>hello_authTag := hmacSha256 [7] (zero_tag bs)\<rparr>)"
proof -
  have "isValidIdentifier ''node-1''" by code_simp
  then have ok: "hello_ok example_hello"
    by (simp add: hello_ok_def example_hello_def kCapabilityKnownMask_def kAbsoluteMaxPayloadBytes_def)
  have "\<exists>bs. encodeHello example_hello = Some (Inr bs) \<and> kAuthTagBytes \<le> length bs"
    by (simp add: encodeHello_def codec_rules example_hello_def kMaxIdentifierLength_def
        kAbsoluteMaxFieldBytes_def kAuthTagBytes_def)
  then obtain bs where e: "encodeHello example_hello = Some (Inr bs)" and "kAuthTagBytes \<le> length bs"
    by blast
  then obtain s where "sealAuthenticated bs [7] = Inr s" by (simp add: sealAuthenticated_Inr_iff)
  with sealed_hello_arrives [OF ok e this] e show ?thesis by blast
qed

text \<open>
  C40: the chunk encoder admits sizes it cannot write. A chunk over the one-megabyte field bound
  but within the eight megabytes of its own guard passes the guard and then violates the writer's
  contract, which aborts the process instead of returning an error.
\<close>

theorem oversized_chunk_aborts:
  assumes "kAbsoluteMaxFieldBytes < length (chunk_data m)"
    and "length (chunk_data m) \<le> kMaxChunkPayloadBytes"
  shows "encodeChunk m = None"
  using assms
  by (simp add: encodeChunk_def enc_fail_if_def encoded_def emit.simps w_u64_def w_string_def)

theorem oversized_chunk_aborts_witness:
  "encodeChunk \<lparr>chunk_stream = 1, chunk_sequence = 0, chunk_offset = 0,
     chunk_data = replicate (2 ^ 21) 0\<rparr> = None"
  by (rule oversized_chunk_aborts)
    (simp_all add: kAbsoluteMaxFieldBytes_def kMaxChunkPayloadBytes_def kAbsoluteMaxPayloadBytes_def)

end
