(* ===== verification/Reconciliation.thy ===== *)
theory Reconciliation
  imports Protocol
begin

text \<open>
  Reconciliation of one delivery with a target's report, \<^verbatim>\<open>include/cf/reconciliation.hpp\<close> and
  \<^verbatim>\<open>src/reconciliation.cpp\<close>: the outcomes, the search of the report, the activation evidence and
  the decision with every branch in the order of the sources. A null report pointer is \<^const>\<open>None\<close>. The
  lemmas give, for each outcome, the exact condition under which it is chosen.
\<close>

subsection \<open>Outcomes, input and decision\<close>

datatype ReconcileOutcome =
    DriveNormally | AdoptActivation | ResumeTransfer | RetireStale | ResolvePrepareWindow
  | FenceAuthority | UnknownAtTarget

primrec reconcileOutcomeName :: "ReconcileOutcome \<Rightarrow> string" where
  "reconcileOutcomeName DriveNormally = ''drive-normally''"
| "reconcileOutcomeName AdoptActivation = ''adopt-activation''"
| "reconcileOutcomeName ResumeTransfer = ''resume-transfer''"
| "reconcileOutcomeName RetireStale = ''retire-stale''"
| "reconcileOutcomeName ResolvePrepareWindow = ''resolve-prepare-window''"
| "reconcileOutcomeName FenceAuthority = ''fence-authority''"
| "reconcileOutcomeName UnknownAtTarget = ''unknown-at-target''"

record ReconcileInput =
  rin_report :: "ReconcileReportMessage option"
  rin_sessionTerm :: Term
  rin_sessionIncarnation :: IncarnationId
  rin_desiredGeneration :: Generation
  rin_desiredDigest :: Digest
  rin_key :: ConfigKey
  rin_deployment :: DeploymentId
  rin_state :: DeliveryState
  rin_guarantee :: ApplyGuarantee
  rin_requirement :: GuaranteeRequirement
  rin_artifactAvailable :: bool

record ReconcileDecision =
  rec_outcome :: ReconcileOutcome
  rec_reason :: string
  rec_adoptedState :: DeliveryState
  rec_resumeFromOffset :: u64
  rec_targetGeneration :: Generation
  rec_targetDigest :: Digest

definition emptyReconcileDecision :: ReconcileDecision where
  "emptyReconcileDecision =
     \<lparr>rec_outcome = DriveNormally, rec_reason = [], rec_adoptedState = Applied,
      rec_resumeFromOffset = 0, rec_targetGeneration = 0, rec_targetDigest = unset_digest\<rparr>"

definition ReconcileDecision_render :: "ReconcileDecision \<Rightarrow> string" where
  "ReconcileDecision_render d =
     ''reconcile: '' @ reconcileOutcomeName (rec_outcome d) @ '' - '' @ rec_reason d
     @ (if rec_outcome d = ResumeTransfer
        then '' resume-from='' @ to_string (unat (rec_resumeFromOffset d)) else [])
     @ (if rec_outcome d = RetireStale
        then '' target-generation='' @ to_string (unat (rec_targetGeneration d)) else [])"

subsection \<open>Evidence in a report\<close>

definition findTransferStatus ::
  "ReconcileReportMessage \<Rightarrow> DeploymentId \<Rightarrow> TransferStatusRecord option" where
  "findTransferStatus report deployment =
     List.find (\<lambda>r. transfer_deployment r = deployment) (report_transfers report)"

text \<open>The key is a parameter the sources receive and do not use.\<close>

definition reportProvesActivation ::
  "ReconcileReportMessage \<Rightarrow> Generation \<Rightarrow> Digest \<Rightarrow> ConfigKey \<Rightarrow> bool" where
  "reportProvesActivation report generation digest key =
     (if \<not> uint_isSet generation \<or> \<not> Digest_isSet digest then False
      else if report_committedGeneration report \<noteq> generation \<or> report_committedDigest report \<noteq> digest
      then list_ex (\<lambda>f. finding_generation f = generation \<and> finding_digest f = digest
                        \<and> isActivationState (finding_state f)) (report_findings report)
      else True)"

subsection \<open>The decision\<close>

definition reason_no_report :: string where
  "reason_no_report =
     ''no live report from the target in this session; persisted evidence is not treated as ''
     @ ''current, so the delivery is driven from its recorded state''"

definition reason_authority :: string where
  "reason_authority =
     ''the report carries target authority that does not match the authenticated session''"

definition reason_prepare_window :: "ReconcileReportMessage \<Rightarrow> string" where
  "reason_prepare_window report =
     ''the target reports an unresolved prepare/commit window for generation ''
     @ to_string (unat (report_preparedGeneration report))
     @ ''; committing blind could activate content the target never verified''"

definition reason_newer :: "ReconcileReportMessage \<Rightarrow> ReconcileInput \<Rightarrow> string" where
  "reason_newer report i =
     ''the target is already at generation '' @ to_string (unat (report_committedGeneration report))
     @ '', which is newer than the desired generation ''
     @ to_string (unat (rin_desiredGeneration i))
     @ ''; pushing this delivery would move the target backwards''"

definition reason_active :: "ReconcileInput \<Rightarrow> string" where
  "reason_active i =
     ''the target reports generation '' @ to_string (unat (rin_desiredGeneration i))
     @ '' with the expected digest as active under the current incarnation''"

definition reason_partial :: "TransferStatusRecord \<Rightarrow> string" where
  "reason_partial r =
     ''the target holds '' @ to_string (unat (transfer_bytesReceived r))
     @ '' verified byte(s) for this deployment; restarting the transfer would ''
     @ ''discard them''"

definition reason_staged :: string where
  "reason_staged =
     ''the target holds a verified, staged artifact for this generation; activation is the ''
     @ ''remaining boundary''"

definition reason_unknown :: string where
  "reason_unknown =
     ''the target reports no state at all; the delivery starts from the beginning''"

definition reason_nothing :: string where
  "reason_nothing =
     ''the target holds nothing usable for this deployment; it is driven normally''"

definition reconcile_transfer ::
  "ReconcileInput \<Rightarrow> ReconcileReportMessage \<Rightarrow> TransferStatusRecord option \<Rightarrow> ReconcileDecision" where
  "reconcile_transfer i report transfer =
     (let d = emptyReconcileDecision;
          same = (\<lambda>r. transfer_generation r = rin_desiredGeneration i
                      \<and> transfer_digest r = rin_desiredDigest i)
      in
      if (case transfer of None \<Rightarrow> False
          | Some r \<Rightarrow> transfer_bytesReceived r > 0 \<and> same r
                      \<and> transfer_bytesReceived r < transfer_totalBytes r)
      then d\<lparr>rec_outcome := ResumeTransfer,
             rec_resumeFromOffset := transfer_bytesReceived (the transfer),
             rec_reason := reason_partial (the transfer)\<rparr>
      else if (case transfer of None \<Rightarrow> False
               | Some r \<Rightarrow> transfer_verified r \<and> transfer_staged r \<and> same r)
      then d\<lparr>rec_outcome := DriveNormally, rec_reason := reason_staged\<rparr>
      else if transfer = None \<and> \<not> uint_isSet (report_committedGeneration report)
              \<and> report_findings report = []
      then d\<lparr>rec_outcome := UnknownAtTarget, rec_reason := reason_unknown\<rparr>
      else d\<lparr>rec_outcome := DriveNormally, rec_reason := reason_nothing\<rparr>)"

definition reconcileDelivery :: "ReconcileInput \<Rightarrow> ReconcileDecision" where
  "reconcileDelivery i =
     (let d = emptyReconcileDecision in
      case rin_report i of
        None \<Rightarrow> d\<lparr>rec_outcome := DriveNormally, rec_reason := reason_no_report\<rparr>
      | Some report \<Rightarrow>
          if report_term report \<noteq> rin_sessionTerm i
             \<or> report_incarnation report \<noteq> rin_sessionIncarnation i
          then d\<lparr>rec_outcome := FenceAuthority, rec_reason := reason_authority\<rparr>
          else if report_applyPrepared report
          then d\<lparr>rec_outcome := ResolvePrepareWindow, rec_reason := reason_prepare_window report\<rparr>
          else if uint_isSet (report_committedGeneration report)
                  \<and> report_committedGeneration report > rin_desiredGeneration i
          then d\<lparr>rec_outcome := RetireStale,
                 rec_targetGeneration := report_committedGeneration report,
                 rec_targetDigest := report_committedDigest report,
                 rec_reason := reason_newer report i\<rparr>
          else if reportProvesActivation report (rin_desiredGeneration i) (rin_desiredDigest i) (rin_key i)
          then d\<lparr>rec_outcome := AdoptActivation, rec_adoptedState := Applied,
                 rec_reason := reason_active i\<rparr>
          else reconcile_transfer i report (findTransferStatus report (rin_deployment i)))"

subsection \<open>Lemmas\<close>

text \<open>The report speaks for the target: it carries the authority the session authenticated and no open window.\<close>

definition report_settled :: "ReconcileInput \<Rightarrow> ReconcileReportMessage \<Rightarrow> bool" where
  "report_settled i report \<longleftrightarrow>
     rin_report i = Some report \<and> report_term report = rin_sessionTerm i
     \<and> report_incarnation report = rin_sessionIncarnation i \<and> \<not> report_applyPrepared report"

lemma reportProvesActivation_iff:
  "reportProvesActivation report g d k \<longleftrightarrow>
     g \<noteq> 0 \<and> Digest_isSet d
     \<and> (report_committedGeneration report = g \<and> report_committedDigest report = d
        \<or> (\<exists>f \<in> set (report_findings report). finding_generation f = g \<and> finding_digest f = d
             \<and> isActivationState (finding_state f)))"
  by (auto simp: reportProvesActivation_def uint_isSet_def list_ex_iff)

lemmas reconcile_unfold =
  reconcileDelivery_def reconcile_transfer_def emptyReconcileDecision_def Let_def report_settled_def

lemma adopt_iff:
  "rec_outcome (reconcileDelivery i) = AdoptActivation \<longleftrightarrow>
     (\<exists>report. report_settled i report
        \<and> report_committedGeneration report \<le> rin_desiredGeneration i
        \<and> reportProvesActivation report (rin_desiredGeneration i) (rin_desiredDigest i) (rin_key i))"
  by (auto simp: reconcile_unfold uint_isSet_def not_less split: option.splits)

lemma stale_iff:
  "rec_outcome (reconcileDelivery i) = RetireStale \<longleftrightarrow>
     (\<exists>report. report_settled i report \<and> rin_desiredGeneration i < report_committedGeneration report)"
  by (auto simp: reconcile_unfold uint_isSet_def split: option.splits)

lemma resume_iff:
  "rec_outcome (reconcileDelivery i) = ResumeTransfer \<longleftrightarrow>
     (\<exists>report r. report_settled i report
        \<and> report_committedGeneration report \<le> rin_desiredGeneration i
        \<and> \<not> reportProvesActivation report (rin_desiredGeneration i) (rin_desiredDigest i) (rin_key i)
        \<and> findTransferStatus report (rin_deployment i) = Some r
        \<and> transfer_generation r = rin_desiredGeneration i \<and> transfer_digest r = rin_desiredDigest i
        \<and> 0 < transfer_bytesReceived r \<and> transfer_bytesReceived r < transfer_totalBytes r)"
  by (auto simp: reconcile_unfold uint_isSet_def not_less split: option.splits)

text \<open>The decision is the same for every configuration key.\<close>

lemma reconcile_ignores_key:
  "reconcileDelivery (i\<lparr>rin_key := k\<rparr>) = reconcileDelivery i"
proof -
  have "reportProvesActivation r g d k = reportProvesActivation r g d (rin_key i)" for r g d
    by (simp add: reportProvesActivation_def)
  moreover have "reason_newer r (i\<lparr>rin_key := k\<rparr>) = reason_newer r i"
    and "reason_active (i\<lparr>rin_key := k\<rparr>) = reason_active i"
    and "reconcile_transfer (i\<lparr>rin_key := k\<rparr>) r t = reconcile_transfer i r t" for r t
    by (simp_all add: reason_newer_def reason_active_def reconcile_transfer_def)
  ultimately show ?thesis
    by (cases "rin_report i") (simp_all add: reconcileDelivery_def Let_def)
qed

subsection \<open>Properties\<close>

text \<open>
  C38: a delivery is adopted as activated exactly when a live report, from the very target authority
  this session authenticated and with no prepare window open, shows no newer generation and shows the desired
  generation and digest as committed or in a finding with an activated state, whatever the configuration key of that
  finding. The key of the delivery plays no part in any decision, so an activation the target recorded for another key
  is adopted for this one, although the comment beside the test says that a finding proves it for its key only.
\<close>

theorem adoption_needs_evidence:
  "(rec_outcome (reconcileDelivery i) = AdoptActivation) =
     (\<exists>report. rin_report i = Some report \<and> report_term report = rin_sessionTerm i
        \<and> report_incarnation report = rin_sessionIncarnation i \<and> \<not> report_applyPrepared report
        \<and> report_committedGeneration report \<le> rin_desiredGeneration i
        \<and> rin_desiredGeneration i \<noteq> 0 \<and> Digest_isSet (rin_desiredDigest i)
        \<and> (report_committedGeneration report = rin_desiredGeneration i
             \<and> report_committedDigest report = rin_desiredDigest i
           \<or> (\<exists>f \<in> set (report_findings report). finding_generation f = rin_desiredGeneration i
                \<and> finding_digest f = rin_desiredDigest i \<and> isActivationState (finding_state f))))
   \<and> (\<forall>k. reconcileDelivery (i\<lparr>rin_key := k\<rparr>) = reconcileDelivery i)"
  unfolding adopt_iff reportProvesActivation_iff report_settled_def reconcile_ignores_key by blast

text \<open>
  a transfer is resumed only from the byte count the target itself reports for this deployment,
  generation and digest, and that count lies strictly between nothing and the whole artifact.
\<close>

theorem resume_from_reported_offset:
  assumes "rec_outcome (reconcileDelivery i) = ResumeTransfer"
  shows "\<exists>report r. rin_report i = Some report \<and> r \<in> set (report_transfers report)
    \<and> transfer_deployment r = rin_deployment i \<and> transfer_generation r = rin_desiredGeneration i
    \<and> transfer_digest r = rin_desiredDigest i
    \<and> rec_resumeFromOffset (reconcileDelivery i) = transfer_bytesReceived r
    \<and> 0 < transfer_bytesReceived r \<and> transfer_bytesReceived r < transfer_totalBytes r"
proof -
  from assms obtain report r where s: "report_settled i report"
    "report_committedGeneration report \<le> rin_desiredGeneration i"
    "\<not> reportProvesActivation report (rin_desiredGeneration i) (rin_desiredDigest i) (rin_key i)"
    and f: "findTransferStatus report (rin_deployment i) = Some r"
    and r: "transfer_generation r = rin_desiredGeneration i" "transfer_digest r = rin_desiredDigest i"
    "0 < transfer_bytesReceived r" "transfer_bytesReceived r < transfer_totalBytes r"
    by (auto simp: resume_iff)
  then have "rec_resumeFromOffset (reconcileDelivery i) = transfer_bytesReceived r"
    by (auto simp: reconcile_unfold uint_isSet_def)
  moreover have "r \<in> set (report_transfers report)" "transfer_deployment r = rin_deployment i"
    using f by (auto simp: findTransferStatus_def dest: find_eq_Some_iff_mem)
  ultimately show ?thesis using s(1) r by (auto simp: report_settled_def)
qed

definition example_transfer :: TransferStatusRecord where
  "example_transfer =
     \<lparr>transfer_deployment = ''d1'', transfer_stream = 1, transfer_key = ''k'', transfer_generation = 5,
      transfer_digest = replicate 32 7, transfer_bytesReceived = 100, transfer_totalBytes = 400,
      transfer_verified = False, transfer_staged = False\<rparr>"

definition example_report :: ReconcileReportMessage where
  "example_report =
     \<lparr>report_target = ''t'', report_targetClass = NetworkDevice, report_guarantee = AtomicActivate,
      report_term = 2, report_incarnation = replicate 16 1, report_committedGeneration = 4,
      report_committedDigest = replicate 32 6, report_committedArtifact = ''a'',
      report_applyPrepared = False, report_preparedDeployment = [], report_preparedGeneration = 0,
      report_preparedDigest = unset_digest, report_restartCount = 0, report_applyRollbacks = 0,
      report_transfers = [example_transfer], report_findings = []\<rparr>"

definition example_reconcile :: ReconcileInput where
  "example_reconcile =
     \<lparr>rin_report = Some example_report, rin_sessionTerm = 2, rin_sessionIncarnation = replicate 16 1,
      rin_desiredGeneration = 5, rin_desiredDigest = replicate 32 7, rin_key = ''k'',
      rin_deployment = ''d1'', rin_state = Offered, rin_guarantee = AtomicActivate,
      rin_requirement = RequireAtomic, rin_artifactAvailable = True\<rparr>"

lemmas example_reconcile_defs = example_reconcile_def example_report_def example_transfer_def

theorem resume_from_reported_offset_witness:
  "rec_outcome (reconcileDelivery example_reconcile) = ResumeTransfer
   \<and> rec_resumeFromOffset (reconcileDelivery example_reconcile) = 100"
proof -
  have r: "rec_outcome (reconcileDelivery example_reconcile) = ResumeTransfer"
    by (simp add: reconcile_unfold example_reconcile_defs reportProvesActivation_def
        findTransferStatus_def uint_isSet_def)
  with resume_from_reported_offset [OF r] show ?thesis
    by (auto simp: example_reconcile_defs)
qed

end
