(* ===== verification/OrderedMap.thy ===== *)
theory OrderedMap
  imports Prelude
begin

text \<open>
  \<^verbatim>\<open>std::map\<close>: an association list in strictly increasing order of its keys, with the operations the
  sources use. Iteration is the order of the list. \<open>keyed\<close> is the discipline of every map in the
  durable state: a value is stored under the key it carries itself.
\<close>

type_synonym ('k, 'v) omap = "('k \<times> 'v) list"

definition om_inv :: "('k::linorder, 'v) omap \<Rightarrow> bool" where
  "om_inv m \<longleftrightarrow> sorted_wrt (<) (map fst m)"

definition om_find :: "('k, 'v) omap \<Rightarrow> 'k \<Rightarrow> 'v option" where
  "om_find m k = map_of m k"

text \<open>\<^verbatim>\<open>m[k] = v\<close>\<close>

fun om_put :: "'k::linorder \<Rightarrow> 'v \<Rightarrow> ('k, 'v) omap \<Rightarrow> ('k, 'v) omap" where
  "om_put k v [] = [(k, v)]"
| "om_put k v ((k', v') # m) =
     (if k < k' then (k, v) # (k', v') # m
      else if k = k' then (k, v) # m
      else (k', v') # om_put k v m)"

text \<open>\<^verbatim>\<open>m.emplace(k, v)\<close>: an existing entry stays.\<close>

definition om_emplace :: "'k::linorder \<Rightarrow> 'v \<Rightarrow> ('k, 'v) omap \<Rightarrow> ('k, 'v) omap" where
  "om_emplace k v m = (if om_find m k = None then om_put k v m else m)"

definition om_erase :: "'k \<Rightarrow> ('k, 'v) omap \<Rightarrow> ('k, 'v) omap" where
  "om_erase k m = filter (\<lambda>e. fst e \<noteq> k) m"

definition om_values :: "('k, 'v) omap \<Rightarrow> 'v list" where
  "om_values m = map snd m"

subsection \<open>Laws\<close>

lemma om_find_put [simp]: "om_find (om_put k v m) k' = (if k' = k then Some v else om_find m k')"
  by (induction k v m rule: om_put.induct) (auto simp: om_find_def)

lemma set_om_put: "fst ` set (om_put k v m) = insert k (fst ` set m)"
  by (induction k v m rule: om_put.induct) auto

lemma om_inv_put [simp]: "om_inv m \<Longrightarrow> om_inv (om_put k v m)"
proof (induction k v m rule: om_put.induct)
  case (2 k v k' v' m)
  have "fst ` set (om_put k v m) = insert k (fst ` set m)" by (rule set_om_put)
  with 2 show ?case by (fastforce simp: om_inv_def)
qed (simp add: om_inv_def)

lemma om_inv_erase [simp]: "om_inv m \<Longrightarrow> om_inv (om_erase k m)"
  by (induction m) (auto simp: om_inv_def om_erase_def)

lemma om_find_erase [simp]: "om_find (om_erase k m) k' = (if k' = k then None else om_find m k')"
  by (induction m) (auto simp: om_find_def om_erase_def)

lemma om_inv_Nil [simp]: "om_inv []"
  by (simp add: om_inv_def)

lemma om_inv_emplace [simp]: "om_inv m \<Longrightarrow> om_inv (om_emplace k v m)"
  by (simp add: om_emplace_def)

lemma om_find_emplace:
  "om_find (om_emplace k v m) k' =
     (if k' = k then Some (case om_find m k of None \<Rightarrow> v | Some u \<Rightarrow> u) else om_find m k')"
  by (auto simp: om_emplace_def)

lemma om_inv_distinct: "om_inv m \<Longrightarrow> distinct (map fst m)"
  by (simp add: om_inv_def strict_sorted_iff)

lemma om_find_Some_mem: "om_find m k = Some v \<Longrightarrow> (k, v) \<in> set m"
  by (simp add: om_find_def map_of_SomeD)

lemma om_find_mem: "om_inv m \<Longrightarrow> (k, v) \<in> set m \<Longrightarrow> om_find m k = Some v"
  by (simp add: om_find_def om_inv_distinct)

lemma om_values_iff: "om_inv m \<Longrightarrow> v \<in> set (om_values m) \<longleftrightarrow> (\<exists>k. om_find m k = Some v)"
  using ran_distinct [OF om_inv_distinct, of m] by (auto simp: om_values_def om_find_def ran_def)

lemma om_all_put:
  "om_inv m \<Longrightarrow> list_all P (om_values m) \<Longrightarrow> P v \<Longrightarrow> list_all P (om_values (om_put k v m))"
  by (auto simp: list_all_iff om_values_iff split: if_splits)

lemma om_all_erase:
  "om_inv m \<Longrightarrow> list_all P (om_values m) \<Longrightarrow> list_all P (om_values (om_erase k m))"
  by (auto simp: list_all_iff om_values_iff split: if_splits)

lemma om_all_emplace:
  "om_inv m \<Longrightarrow> list_all P (om_values m) \<Longrightarrow> P v \<Longrightarrow> list_all P (om_values (om_emplace k v m))"
  by (simp add: om_emplace_def om_all_put)

lemma length_om_values [simp]: "length (om_values m) = length m"
  by (simp add: om_values_def)

lemma om_values_Nil [simp]: "om_values [] = []"
  by (simp add: om_values_def)

lemma length_om_put_le: "length (om_put k v m) \<le> Suc (length m)"
  by (induction k v m rule: om_put.induct) auto

text \<open>Two maps in order with the same entries are the same list.\<close>

lemma om_eqI: "om_inv m \<Longrightarrow> om_inv n \<Longrightarrow> (\<And>k. om_find m k = om_find n k) \<Longrightarrow> m = n"
proof (induction m arbitrary: n)
  case Nil
  show ?case
  proof (cases n)
    case (Cons b n')
    with Nil.prems(3) [of "fst b"] show ?thesis by (simp add: om_find_def)
  qed simp
next
  case (Cons a m)
  obtain k v where a: "a = (k, v)" by force
  from Cons.prems(3) [of k] obtain b n' where n: "n = b # n'"
    by (cases n) (auto simp: a om_find_def)
  obtain k' v' where b: "b = (k', v')" by force
  have lt: "\<forall>x \<in> set m. k < fst x" "\<forall>x \<in> set n'. k' < fst x"
    using Cons.prems(1,2) by (auto simp: a b n om_inv_def)
  then have no: "map_of m x = None" if "x \<le> k" for x
    using that by (auto simp: map_of_eq_None_iff)
  from lt have no': "map_of n' x = None" if "x \<le> k'" for x
    using that by (auto simp: map_of_eq_None_iff)
  have "k = k'"
  proof (rule ccontr)
    assume "k \<noteq> k'"
    then consider "k < k'" | "k' < k" by fastforce
    then show False
    proof cases
      case 1
      then have "map_of n' k = None" using no' [of k] by simp
      with 1 show False using Cons.prems(3) [of k] by (simp add: a b n om_find_def split: if_splits)
    next
      case 2
      then have "map_of m k' = None" using no [of k'] by simp
      with 2 show False using Cons.prems(3) [of k'] by (simp add: a b n om_find_def split: if_splits)
    qed
  qed
  moreover from this have "v = v'" using Cons.prems(3) [of k] by (simp add: a b n om_find_def)
  moreover have "m = n'"
  proof (rule Cons.IH)
    show "om_inv m" "om_inv n'" using Cons.prems(1,2) by (simp_all add: n om_inv_def)
    show "om_find m x = om_find n' x" for x
      using Cons.prems(3) [of x] \<open>k = k'\<close> no [of k] no' [of k]
      by (cases "x = k") (auto simp: a b n om_find_def)
  qed
  ultimately show ?case by (simp add: a b n)
qed

subsection \<open>Records stored under their own key\<close>

definition keyed :: "('v \<Rightarrow> 'k::linorder) \<Rightarrow> ('k, 'v) omap \<Rightarrow> bool" where
  "keyed key_of m \<longleftrightarrow> om_inv m \<and> list_all (\<lambda>(k, v). key_of v = k) m"

definition emplace_all :: "('v \<Rightarrow> 'k::linorder) \<Rightarrow> 'v list \<Rightarrow> ('k, 'v) omap \<Rightarrow> ('k, 'v) omap" where
  "emplace_all key_of vs m = fold (\<lambda>v. om_emplace (key_of v) v) vs m"

lemma keyed_Nil [simp]: "keyed key_of []"
  by (simp add: keyed_def)

lemma keyed_find: "keyed key_of m \<Longrightarrow> om_find m k = Some v \<Longrightarrow> key_of v = k"
  by (auto simp: keyed_def list_all_iff dest: om_find_Some_mem)

lemma keyedI: "om_inv m \<Longrightarrow> (\<And>k v. om_find m k = Some v \<Longrightarrow> key_of v = k) \<Longrightarrow> keyed key_of m"
  by (auto simp: keyed_def list_all_iff om_find_mem)

lemma keyed_put [simp]: "keyed key_of m \<Longrightarrow> keyed key_of (om_put (key_of v) v m)"
  by (rule keyedI) (simp add: keyed_def, auto split: if_splits dest: keyed_find)

lemma keyed_erase [simp]: "keyed key_of m \<Longrightarrow> keyed key_of (om_erase k m)"
  by (rule keyedI) (simp add: keyed_def, auto split: if_splits dest: keyed_find)

lemma keyed_emplace [simp]: "keyed key_of m \<Longrightarrow> keyed key_of (om_emplace (key_of v) v m)"
  by (simp add: om_emplace_def)

lemma emplace_all_keyed: "keyed key_of m \<Longrightarrow> keyed key_of (emplace_all key_of vs m)"
  by (induction vs arbitrary: m) (simp_all add: emplace_all_def)

lemma keyed_inv: "keyed key_of m \<Longrightarrow> om_inv m"
  by (simp add: keyed_def)

lemma emplace_all_all:
  "keyed key_of m \<Longrightarrow> list_all P (om_values m) \<Longrightarrow> list_all P vs \<Longrightarrow> list_all P (om_values (emplace_all key_of vs m))"
  by (induction vs arbitrary: m) (simp_all add: emplace_all_def om_all_emplace keyed_inv)

lemma om_put_snoc: "list_all (\<lambda>(k', _). k' < k) m \<Longrightarrow> om_put k v m = m @ [(k, v)]"
  by (induction m) auto

text \<open>Inserting the values of an ordered map one by one rebuilds the map.\<close>

lemma emplace_all_values_aux:
  "keyed key_of (m @ n) \<Longrightarrow> emplace_all key_of (om_values n) m = m @ n"
proof (induction n arbitrary: m)
  case Nil
  then show ?case by (simp add: emplace_all_def om_values_def)
next
  case (Cons a n)
  obtain k v where a: "a = (k, v)" by force
  have k: "key_of v = k" and lt: "list_all (\<lambda>(k', _). k' < k) m"
    using Cons.prems by (auto simp: a keyed_def om_inv_def sorted_wrt_append list_all_iff)
  then have "om_find m k = None" by (auto simp: om_find_def map_of_eq_None_iff list_all_iff)
  with k lt have "om_emplace (key_of v) v m = m @ [a]"
    by (simp add: a om_emplace_def om_put_snoc)
  then have "emplace_all key_of (om_values (a # n)) m = emplace_all key_of (om_values n) (m @ [a])"
    by (simp add: a emplace_all_def om_values_def)
  also have "\<dots> = (m @ [a]) @ n" using Cons.prems by (intro Cons.IH) simp
  finally show ?case by simp
qed

lemma emplace_all_values: "keyed key_of m \<Longrightarrow> emplace_all key_of (om_values m) [] = m"
  using emplace_all_values_aux [of key_of "[]" m] by simp

end
