(* ===== verification/StateRecords.thy ===== *)
theory StateRecords
  imports Protocol OrderedMap
begin

text \<open>
  The records of the durable state, \<^verbatim>\<open>include/cf/state.hpp\<close>, with the writers and readers of
  \<^verbatim>\<open>src/state.cpp\<close>; the artifact metadata record of \<^verbatim>\<open>include/cf/artifact.hpp\<close> with its codec; and
  the endpoint syntax of \<^verbatim>\<open>src/transport.cpp\<close> the target reader checks. Each reader is shown to be
  the exact inverse of its writer.
\<close>

subsection \<open>Endpoints\<close>

record Endpoint =
  ep_host :: string
  ep_port :: u16

definition Endpoint_str :: "Endpoint \<Rightarrow> string" where
  "Endpoint_str e = ep_host e @ '':'' @ to_string (unat (ep_port e))"

definition is_host_char :: "char \<Rightarrow> bool" where
  "is_host_char c \<longleftrightarrow>
     (CHR ''0'' \<le> c \<and> c \<le> CHR ''9'') \<or> (CHR ''A'' \<le> c \<and> c \<le> CHR ''Z'')
     \<or> (CHR ''a'' \<le> c \<and> c \<le> CHR ''z'') \<or> c \<in> {CHR ''.'', CHR ''-'', CHR ''_'', CHR '':''}"

fun port_loop :: "u32 \<Rightarrow> string \<Rightarrow> u32 result" where
  "port_loop port [] = Inr port"
| "port_loop port (c # cs) =
     (if \<not> is_digit c then Inl InvalidArgument
      else (let port' = port * 10 + of_nat (digit_value c)
            in if port' > 65535 then Inl OutOfRange else port_loop port' cs))"

text \<open>The last colon separates host and port.\<close>

definition parseEndpoint :: "string \<Rightarrow> Endpoint result" where
  "parseEndpoint text =
     (if text = [] \<or> length text > 128 then Inl InvalidArgument
      else
        (let portText = rev (takeWhile (\<lambda>c. c \<noteq> CHR '':'') (rev text));
             colon = length text - length portText - 1;
             host = take colon text
         in
         if CHR '':'' \<notin> set text \<or> colon = 0 \<or> portText = [] then Inl InvalidArgument
         else if \<not> list_all is_host_char host then Inl InvalidArgument
         else cf_try (port_loop 0 portText) (\<lambda>port. Inr \<lparr>ep_host = host, ep_port = ucast port\<rparr>)))"

subsection \<open>Records\<close>

definition kStateFormatVersion :: u16 where
  "kStateFormatVersion = 1"

definition kMaxDeliveryDetailBytes :: nat where
  "kMaxDeliveryDetailBytes = 192"

definition kMaxEndpointBytes :: nat where
  "kMaxEndpointBytes = 128"

record TargetRuntime =
  tr_id :: TargetId
  tr_klass :: TargetClass
  tr_guarantee :: ApplyGuarantee
  tr_term :: Term
  tr_incarnation :: IncarnationId
  tr_committedGeneration :: Generation
  tr_committedDigest :: Digest
  tr_committedArtifact :: ArtifactId
  tr_lastContactMillis :: int
  tr_contactEstablishedThisProcess :: bool
  tr_sessionsEstablished :: u64
  tr_restartsObserved :: u64
  tr_applyPrepared :: bool
  tr_preparedDeployment :: DeploymentId
  tr_preparedGeneration :: Generation
  tr_preparedDigest :: Digest
  tr_endpoint :: string

record DeliveryRecord =
  dr_id :: DeploymentId
  dr_setId :: DeploymentSetId
  dr_rolloutSet :: RolloutSetId
  dr_target :: TargetId
  dr_key :: ConfigKey
  dr_artifact :: ArtifactId
  dr_revision :: Revision
  dr_generation :: Generation
  dr_digest :: Digest
  dr_schema :: SchemaId
  dr_schemaVersion :: SchemaVersion
  dr_sizeBytes :: u64
  dr_requirement :: GuaranteeRequirement
  dr_effectiveGuarantee :: ApplyGuarantee
  dr_state :: DeliveryState
  dr_attempt :: AttemptId
  dr_failures :: u32
  dr_lastError :: ErrorCode
  dr_lastDirective :: RetryDirective
  dr_lastDetail :: string
  dr_events :: "LifecycleEvent list"
  dr_authorityEpoch :: Epoch
  dr_authorityIncarnation :: IncarnationId
  dr_targetTerm :: Term
  dr_targetIncarnation :: IncarnationId
  dr_acknowledgedFromReconcile :: bool
  dr_superseded :: bool
  dr_createdAtMillis :: int
  dr_updatedAtMillis :: int

record TransferRecord =
  xr_deployment :: DeploymentId
  xr_stream :: StreamId
  xr_key :: ConfigKey
  xr_artifact :: ArtifactId
  xr_generation :: Generation
  xr_digest :: Digest
  xr_totalBytes :: u64
  xr_bytesReceived :: u64
  xr_verified :: bool
  xr_staged :: bool
  xr_updatedAtMillis :: int

record AppliedFinding =
  af_key :: ConfigKey
  af_generation :: Generation
  af_digest :: Digest
  af_artifact :: ArtifactId
  af_deployment :: DeploymentId
  af_state :: DeliveryState
  af_recordedAtMillis :: int

record ArtifactMetadata =
  am_id :: ArtifactId
  am_revision :: Revision
  am_schema :: SchemaId
  am_schemaVersion :: SchemaVersion
  am_digest :: Digest
  am_sizeBytes :: u64
  am_mediaType :: string
  am_producer :: string
  am_producedAtMillis :: int
  am_storedAtMillis :: int

subsection \<open>Lifecycle events\<close>

definition kMaxEvidenceDetailBytes :: nat where
  "kMaxEvidenceDetailBytes = 256"

definition kMaxEventsPerDelivery :: nat where
  "kMaxEventsPerDelivery = 64"

definition evidenceKind_cast :: "byte \<Rightarrow> EvidenceKind" where
  "evidenceKind_cast raw =
     (case List.find (\<lambda>k. evidenceKindValue k = raw) allEvidenceKinds of Some k \<Rightarrow> k | None \<Rightarrow> EvidenceKind.Created)"

definition writeLifecycleEvent :: "LifecycleEvent \<Rightarrow> bytes option" where
  "writeLifecycleEvent e =
     emit
       [w_u8 (evidenceKindValue (ev_kind e)), w_u8 (deliveryStateValue (ev_from e)),
        w_u8 (deliveryStateValue (ev_to e)), w_u64 (ev_generation e), w_digest (ev_digest e),
        w_u16 (of_nat (errorCodeValue (ev_code e))), w_u8 (retryDirectiveValue (ev_directive e)),
        w_u64 (ev_authorityEpoch e), w_opaque128 (ev_authorityIncarnation e),
        w_u64 (ev_targetTerm e), w_opaque128 (ev_targetIncarnation e),
        w_boolean (ev_fromReconciliation e), w_i64 (ev_atMillis e),
        w_string kMaxEvidenceDetailBytes (ev_detail e)]"

definition readEvidenceKind :: "EvidenceKind reader" where
  "readEvidenceKind = readEnum8 (\<lambda>raw. raw \<ge> 1 \<and> raw \<le> 13) evidenceKind_cast"

text \<open>Both states are read before either is checked.\<close>

definition readStatePair :: "(DeliveryState \<times> DeliveryState) reader" where
  "readStatePair =
     rd r_u8 (\<lambda>from. rd r_u8 (\<lambda>to.
       rd_fail_if (from < 1 \<or> from > 10 \<or> to < 1 \<or> to > 10) MalformedInput
         (rd_return (deliveryState_cast from, deliveryState_cast to))))"

definition readLifecycleEvent :: "LifecycleEvent reader" where
  "readLifecycleEvent =
     rd readEvidenceKind (\<lambda>kind.
     rd readStatePair (\<lambda>states.
     rd r_u64 (\<lambda>generation.
     rd readDigestField (\<lambda>digest.
     rd readErrorCode (\<lambda>code.
     rd readRetryDirective (\<lambda>directive.
     rd r_u64 (\<lambda>epoch.
     rd readIncarnation (\<lambda>authorityIncarnation.
     rd r_u64 (\<lambda>term.
     rd readIncarnation (\<lambda>targetIncarnation.
     rd r_boolean (\<lambda>fromReconciliation.
     rd r_i64 (\<lambda>atMillis.
     rd (r_string kMaxEvidenceDetailBytes) (\<lambda>detail.
     rd_return
       \<lparr>ev_kind = kind, ev_from = fst states, ev_to = snd states, ev_generation = generation,
        ev_digest = digest, ev_code = code, ev_directive = directive, ev_authorityEpoch = epoch,
        ev_authorityIncarnation = authorityIncarnation, ev_targetTerm = term,
        ev_targetIncarnation = targetIncarnation, ev_fromReconciliation = fromReconciliation,
        ev_atMillis = atMillis, ev_detail = detail\<rparr>)))))))))))))"

subsection \<open>Targets\<close>

definition checkBounded :: "string \<Rightarrow> nat \<Rightarrow> status" where
  "checkBounded text bound = (if length text > bound then Inl LimitExceeded else Inr ())"

definition writeTargetRuntime :: "TargetRuntime \<Rightarrow> bytes option" where
  "writeTargetRuntime r =
     emit
       [w_string kMaxIdentifierLength (tr_id r), w_u8 (targetClassValue (tr_klass r)),
        w_u8 (applyGuaranteeValue (tr_guarantee r)), w_u64 (tr_term r),
        w_opaque128 (tr_incarnation r), w_u64 (tr_committedGeneration r),
        w_digest (tr_committedDigest r), w_string kMaxIdentifierLength (tr_committedArtifact r),
        w_i64 (tr_lastContactMillis r), w_u64 (tr_sessionsEstablished r),
        w_u64 (tr_restartsObserved r), w_boolean (tr_applyPrepared r),
        w_string kMaxIdentifierLength (tr_preparedDeployment r), w_u64 (tr_preparedGeneration r),
        w_digest (tr_preparedDigest r), w_string kMaxEndpointBytes (tr_endpoint r)]"

definition readEndpointText :: "string reader" where
  "readEndpointText =
     r_narrow (r_string kMaxEndpointBytes)
       (\<lambda>text. if text = [] then Inr [] else cf_try (parseEndpoint text) (\<lambda>_. Inr text))"

definition readTargetRuntime :: "TargetRuntime reader" where
  "readTargetRuntime =
     rd readTargetId (\<lambda>id.
     rd readTargetClass (\<lambda>klass.
     rd readApplyGuarantee (\<lambda>guarantee.
     rd r_u64 (\<lambda>term.
     rd readIncarnation (\<lambda>incarnation.
     rd r_u64 (\<lambda>committed.
     rd readDigestField (\<lambda>committedDigest.
     rd readOptionalArtifactId (\<lambda>artifact.
     rd r_i64 (\<lambda>lastContactMillis.
     rd r_u64 (\<lambda>sessionsEstablished.
     rd r_u64 (\<lambda>restartsObserved.
     rd r_boolean (\<lambda>applyPrepared.
     rd readOptionalDeploymentId (\<lambda>preparedDeployment.
     rd r_u64 (\<lambda>preparedGeneration.
     rd readDigestField (\<lambda>preparedDigest.
     rd readEndpointText (\<lambda>endpoint.
     rd_return
       \<lparr>tr_id = id, tr_klass = klass, tr_guarantee = guarantee, tr_term = term,
        tr_incarnation = incarnation, tr_committedGeneration = committed,
        tr_committedDigest = committedDigest, tr_committedArtifact = artifact,
        tr_lastContactMillis = lastContactMillis, tr_contactEstablishedThisProcess = False,
        tr_sessionsEstablished = sessionsEstablished, tr_restartsObserved = restartsObserved,
        tr_applyPrepared = applyPrepared, tr_preparedDeployment = preparedDeployment,
        tr_preparedGeneration = preparedGeneration, tr_preparedDigest = preparedDigest,
        tr_endpoint = endpoint\<rparr>))))))))))))))))"

definition encodeTargetRuntime :: "TargetRuntime \<Rightarrow> bytes encoded" where
  "encodeTargetRuntime r =
     enc_try (checkBounded (tr_id r) kMaxIdentifierLength) (encoded [writeTargetRuntime r])"

definition decodeTargetRuntime :: "bytes \<Rightarrow> TargetRuntime result" where
  "decodeTargetRuntime payload =
     rd_run (rd readTargetRuntime (\<lambda>runtime. rd r_requireEnd (\<lambda>_. rd_return runtime))) payload"

subsection \<open>Deliveries\<close>

definition writeDeliveryRecord :: "DeliveryRecord \<Rightarrow> bytes option" where
  "writeDeliveryRecord r =
     emit
       [w_string kMaxIdentifierLength (dr_id r), w_string kMaxIdentifierLength (dr_setId r),
        w_string kMaxIdentifierLength (dr_rolloutSet r), w_string kMaxIdentifierLength (dr_target r),
        w_string kMaxIdentifierLength (dr_key r), w_string kMaxIdentifierLength (dr_artifact r),
        w_u64 (dr_revision r), w_u64 (dr_generation r), w_digest (dr_digest r),
        w_string kMaxIdentifierLength (dr_schema r), w_u32 (dr_schemaVersion r), w_u64 (dr_sizeBytes r),
        w_u8 (guaranteeRequirementValue (dr_requirement r)),
        w_u8 (applyGuaranteeValue (dr_effectiveGuarantee r)), w_u8 (deliveryStateValue (dr_state r)),
        w_u64 (dr_attempt r), w_u32 (dr_failures r), w_u16 (of_nat (errorCodeValue (dr_lastError r))),
        w_u8 (retryDirectiveValue (dr_lastDirective r)),
        w_string kMaxDeliveryDetailBytes (dr_lastDetail r), w_u32 (of_nat (length (dr_events r))),
        emit (map writeLifecycleEvent (dr_events r)), w_u64 (dr_authorityEpoch r),
        w_opaque128 (dr_authorityIncarnation r), w_u64 (dr_targetTerm r),
        w_opaque128 (dr_targetIncarnation r), w_boolean (dr_acknowledgedFromReconcile r),
        w_boolean (dr_superseded r), w_i64 (dr_createdAtMillis r), w_i64 (dr_updatedAtMillis r)]"

definition readDeploymentSetId :: "DeploymentSetId reader" where
  "readDeploymentSetId = r_narrow (r_string kMaxIdentifierLength) parseId"

definition readOptionalRolloutSetId :: "RolloutSetId reader" where
  "readOptionalRolloutSetId =
     r_narrow (r_string kMaxIdentifierLength) (\<lambda>text. if text = [] then Inr [] else parseId text)"

definition readEvents :: "LifecycleEvent list reader" where
  "readEvents =
     rd r_u32 (\<lambda>eventCount.
       rd_fail_if (unat eventCount > kMaxEventsPerDelivery) LimitExceeded
         (r_repeat (unat eventCount) readLifecycleEvent))"

definition readDeliveryRecord :: "DeliveryRecord reader" where
  "readDeliveryRecord =
     rd readDeploymentId (\<lambda>id.
     rd readDeploymentSetId (\<lambda>setId.
     rd readOptionalRolloutSetId (\<lambda>rolloutSet.
     rd readTargetId (\<lambda>target.
     rd readConfigKey (\<lambda>key.
     rd readArtifactId (\<lambda>artifact.
     rd r_u64 (\<lambda>revision.
     rd readGeneration (\<lambda>generation.
     rd readDigestField (\<lambda>digest.
     rd readSchemaId (\<lambda>schema.
     rd r_u32 (\<lambda>schemaVersion.
     rd r_u64 (\<lambda>sizeBytes.
     rd readGuaranteeRequirement (\<lambda>requirement.
     rd readApplyGuarantee (\<lambda>guarantee.
     rd readDeliveryState (\<lambda>state.
     rd r_u64 (\<lambda>attempt.
     rd r_u32 (\<lambda>failures.
     rd readErrorCode (\<lambda>code.
     rd readRetryDirective (\<lambda>directive.
     rd (r_string kMaxDeliveryDetailBytes) (\<lambda>lastDetail.
     rd readEvents (\<lambda>events.
     rd r_u64 (\<lambda>epoch.
     rd readIncarnation (\<lambda>authorityIncarnation.
     rd r_u64 (\<lambda>term.
     rd readIncarnation (\<lambda>targetIncarnation.
     rd r_boolean (\<lambda>acknowledgedFromReconcile.
     rd r_boolean (\<lambda>superseded.
     rd r_i64 (\<lambda>createdAtMillis.
     rd r_i64 (\<lambda>updatedAtMillis.
     rd_return
       \<lparr>dr_id = id, dr_setId = setId, dr_rolloutSet = rolloutSet, dr_target = target, dr_key = key,
        dr_artifact = artifact, dr_revision = revision, dr_generation = generation,
        dr_digest = digest, dr_schema = schema, dr_schemaVersion = schemaVersion,
        dr_sizeBytes = sizeBytes, dr_requirement = requirement, dr_effectiveGuarantee = guarantee,
        dr_state = state, dr_attempt = attempt, dr_failures = failures, dr_lastError = code,
        dr_lastDirective = directive, dr_lastDetail = lastDetail, dr_events = events,
        dr_authorityEpoch = epoch, dr_authorityIncarnation = authorityIncarnation,
        dr_targetTerm = term, dr_targetIncarnation = targetIncarnation,
        dr_acknowledgedFromReconcile = acknowledgedFromReconcile, dr_superseded = superseded,
        dr_createdAtMillis = createdAtMillis, dr_updatedAtMillis = updatedAtMillis\<rparr>)))))))))))))))))))))))))))))"

definition encodeDeliveryRecord :: "DeliveryRecord \<Rightarrow> bytes encoded" where
  "encodeDeliveryRecord r =
     enc_try (checkBounded (dr_id r) kMaxIdentifierLength)
     (enc_try (checkBounded (dr_lastDetail r) kMaxDeliveryDetailBytes)
     (enc_fail_if (length (dr_events r) > kMaxEventsPerDelivery) LimitExceeded
     (encoded [writeDeliveryRecord r])))"

definition decodeDeliveryRecord :: "bytes \<Rightarrow> DeliveryRecord result" where
  "decodeDeliveryRecord payload =
     rd_run (rd readDeliveryRecord (\<lambda>record. rd r_requireEnd (\<lambda>_. rd_return record))) payload"

subsection \<open>Transfers and findings\<close>

definition writeTransferRecord :: "TransferRecord \<Rightarrow> bytes option" where
  "writeTransferRecord r =
     emit
       [w_string kMaxIdentifierLength (xr_deployment r), w_u64 (xr_stream r),
        w_string kMaxIdentifierLength (xr_key r), w_string kMaxIdentifierLength (xr_artifact r),
        w_u64 (xr_generation r), w_digest (xr_digest r), w_u64 (xr_totalBytes r),
        w_u64 (xr_bytesReceived r), w_boolean (xr_verified r), w_boolean (xr_staged r),
        w_i64 (xr_updatedAtMillis r)]"

definition readTransferRecord :: "TransferRecord reader" where
  "readTransferRecord =
     rd readDeploymentId (\<lambda>deployment.
     rd r_u64 (\<lambda>stream.
     rd readConfigKey (\<lambda>key.
     rd readOptionalArtifactId (\<lambda>artifact.
     rd r_u64 (\<lambda>generation.
     rd readDigestField (\<lambda>digest.
     rd r_u64 (\<lambda>totalBytes.
     rd r_u64 (\<lambda>bytesReceived.
     rd_fail_if (bytesReceived > totalBytes) MalformedInput (
     rd r_boolean (\<lambda>verified.
     rd r_boolean (\<lambda>staged.
     rd r_i64 (\<lambda>updatedAtMillis.
     rd_return
       \<lparr>xr_deployment = deployment, xr_stream = stream, xr_key = key, xr_artifact = artifact,
        xr_generation = generation, xr_digest = digest, xr_totalBytes = totalBytes,
        xr_bytesReceived = bytesReceived, xr_verified = verified, xr_staged = staged,
        xr_updatedAtMillis = updatedAtMillis\<rparr>))))))))))))"

definition writeAppliedFinding :: "AppliedFinding \<Rightarrow> bytes option" where
  "writeAppliedFinding f =
     emit
       [w_string kMaxIdentifierLength (af_key f), w_u64 (af_generation f), w_digest (af_digest f),
        w_string kMaxIdentifierLength (af_artifact f), w_string kMaxIdentifierLength (af_deployment f),
        w_u8 (deliveryStateValue (af_state f)), w_i64 (af_recordedAtMillis f)]"

definition readAppliedFinding :: "AppliedFinding reader" where
  "readAppliedFinding =
     rd readConfigKey (\<lambda>key.
     rd r_u64 (\<lambda>generation.
     rd readDigestField (\<lambda>digest.
     rd readOptionalArtifactId (\<lambda>artifact.
     rd readDeploymentId (\<lambda>deployment.
     rd readDeliveryState (\<lambda>state.
     rd r_i64 (\<lambda>recordedAtMillis.
     rd_return
       \<lparr>af_key = key, af_generation = generation, af_digest = digest, af_artifact = artifact,
        af_deployment = deployment, af_state = state, af_recordedAtMillis = recordedAtMillis\<rparr>)))))))"

subsection \<open>Artifact metadata\<close>

definition kArtifactMetadataFormatVersion :: u16 where
  "kArtifactMetadataFormatVersion = 1"

definition kMetadataMagic :: u32 where
  "kMetadataMagic = 0x4D414643"

definition kMaxMediaTypeBytes :: nat where
  "kMaxMediaTypeBytes = 64"

definition kMaxProducerBytes :: nat where
  "kMaxProducerBytes = 128"

definition renderArtifactMetadata :: "ArtifactMetadata \<Rightarrow> string" where
  "renderArtifactMetadata m =
     am_id m @ '' rev='' @ to_string (unat (am_revision m))
     @ '' gen-digest='' @ shortDigest (am_digest m) @ '' size='' @ to_string (unat (am_sizeBytes m))
     @ '' schema='' @ am_schema m @ '' schema-version='' @ to_string (unat (am_schemaVersion m))
     @ '' media-type='' @ (if am_mediaType m = [] then ''-'' else am_mediaType m)
     @ '' producer='' @ (if am_producer m = [] then ''-'' else am_producer m)"

definition metadata_body :: "ArtifactMetadata \<Rightarrow> bytes option" where
  "metadata_body m =
     emit
       [w_u32 kMetadataMagic, w_u16 kArtifactMetadataFormatVersion,
        w_string kMaxIdentifierLength (am_id m), w_u64 (am_revision m),
        w_string kMaxIdentifierLength (am_schema m), w_u32 (am_schemaVersion m),
        w_digest (am_digest m), w_u64 (am_sizeBytes m), w_string kMaxMediaTypeBytes (am_mediaType m),
        w_string kMaxProducerBytes (am_producer m), w_i64 (am_producedAtMillis m),
        w_i64 (am_storedAtMillis m)]"

definition encodeArtifactMetadata :: "ArtifactMetadata \<Rightarrow> bytes encoded" where
  "encodeArtifactMetadata m =
     enc_fail_if (length (am_id m) > kMaxIdentifierLength \<or> length (am_schema m) > kMaxIdentifierLength
                  \<or> length (am_mediaType m) > kMaxMediaTypeBytes
                  \<or> length (am_producer m) > kMaxProducerBytes) LimitExceeded
     (case metadata_body m of None \<Rightarrow> None
      | Some body \<Rightarrow> encoded [Some body, w_u32 (crc32c body)])"

definition read_metadata_body :: "ArtifactMetadata reader" where
  "read_metadata_body =
     rd r_u32 (\<lambda>magic.
     rd_fail_if (magic \<noteq> kMetadataMagic) MalformedInput (
     rd r_u16 (\<lambda>version.
     rd_fail_if (version \<noteq> kArtifactMetadataFormatVersion) UnsupportedVersion (
     rd readArtifactId (\<lambda>id.
     rd r_u64 (\<lambda>revision.
     rd readSchemaId (\<lambda>schema.
     rd r_u32 (\<lambda>schemaVersion.
     rd readDigestField (\<lambda>digest.
     rd r_u64 (\<lambda>size.
     rd (r_string kMaxMediaTypeBytes) (\<lambda>mediaType.
     rd (r_string kMaxProducerBytes) (\<lambda>producer.
     rd r_i64 (\<lambda>producedAtMillis.
     rd r_i64 (\<lambda>storedAtMillis.
     rd r_requireEnd (\<lambda>_.
     rd_return
       \<lparr>am_id = id, am_revision = revision, am_schema = schema, am_schemaVersion = schemaVersion,
        am_digest = digest, am_sizeBytes = size, am_mediaType = mediaType, am_producer = producer,
        am_producedAtMillis = producedAtMillis, am_storedAtMillis = storedAtMillis\<rparr>)))))))))))))))"

definition decodeArtifactMetadata :: "bytes \<Rightarrow> ArtifactMetadata result" where
  "decodeArtifactMetadata record =
     fail_if (length record < 6) TruncatedFrame
     (let body = take (length record - 4) record; crcBytes = drop (length record - 4) record in
      fail_if (crc32c body \<noteq> loadLe32 crcBytes) IntegrityFailure
      (rd_run read_metadata_body body))"

subsection \<open>Every reader inverts its writer\<close>

lemma byte_upto_13:
  assumes "(raw :: byte) \<ge> 1 \<and> raw \<le> 13"
  shows "raw \<in> {0, 1, 2, 3, 4, 5, 6, 7, 8, 9, 10, 11, 12, 13}"
proof -
  from assms have "unat raw \<in> set [0..<14]" by (simp add: word_le_nat_alt)
  then have "of_nat (unat raw) \<in> (of_nat :: nat \<Rightarrow> byte) ` set [0..<14]" by (rule imageI)
  moreover have "[0..<14] = [0, 1, 2, 3, 4, 5, 6, 7, 8, 9, 10, 11, 12, 13 :: nat]" by (simp add: upt_rec)
  ultimately show ?thesis by simp
qed

interpretation evidenceKind: narrowed_codec w_u8 r_u8 "\<lambda>_. True" evidenceKindValue
  "\<lambda>raw. if \<not> (raw \<ge> 1 \<and> raw \<le> 13) then Inl MalformedInput else Inr (evidenceKind_cast raw)" "\<lambda>_. True"
proof (rule enum_codec)
  show "(evidenceKindValue e \<ge> 1 \<and> evidenceKindValue e \<le> 13) \<and> evidenceKind_cast (evidenceKindValue e) = e" for e
    by (cases e) (simp_all add: evidenceKind_cast_def allEvidenceKinds_def)
  show "evidenceKindValue (evidenceKind_cast raw) = raw" if "raw \<ge> 1 \<and> raw \<le> 13" for raw
    using byte_upto_13 [OF that] that by (auto simp: evidenceKind_cast_def allEvidenceKinds_def)
qed

lemma readStatePair_iff:
  "rd readStatePair k bs = Inr z \<longleftrightarrow>
     (\<exists>from to rest. bs = deliveryStateValue from # deliveryStateValue to # rest \<and> k (from, to) rest = Inr z)"
proof -
  have v: "\<not> (raw < 1 \<or> raw > 10) \<Longrightarrow> deliveryStateValue (deliveryState_cast raw) = raw" for raw :: byte
    using deliveryState.raw_narrow [of raw "deliveryState_cast raw"]
    unfolding de_Morgan_disj not_less by (simp only: simp_thms if_False not_False_eq_True)
  have w: "deliveryStateValue e \<ge> 1 \<and> deliveryStateValue e \<le> 10 \<and> deliveryState_cast (deliveryStateValue e) = e" for e
    using deliveryState.narrow_raw [of e] by (auto split: if_splits)
  have nz: "deliveryStateValue e \<noteq> 0" for e by (cases e) simp_all
  show ?thesis
  proof
    assume "rd readStatePair k bs = Inr z"
    then obtain f t rest where b: "bs = f # t # rest" and ok: "\<not> (f < 1 \<or> f > 10)" "\<not> (t < 1 \<or> t > 10)"
      and k: "k (deliveryState_cast f, deliveryState_cast t) rest = Inr z"
      by (auto simp: readStatePair_def rd_eq_Inr_iff r_u8_eq_Inr_iff codec_dests)
    then show "\<exists>from to rest. bs = deliveryStateValue from # deliveryStateValue to # rest \<and> k (from, to) rest = Inr z"
      using v [OF ok(1)] v [OF ok(2)]
      by (intro exI [of _ "deliveryState_cast f"] exI [of _ "deliveryState_cast t"] exI [of _ rest]) simp
  next
    assume "\<exists>from to rest. bs = deliveryStateValue from # deliveryStateValue to # rest \<and> k (from, to) rest = Inr z"
    then show "rd readStatePair k bs = Inr z"
      using w nz by (auto simp: readStatePair_def rd_eq_Inr_iff r_u8_eq_Inr_iff codec_dests not_less)
  qed
qed

lemmas record_rules =
  codec_rules readStatePair_iff
  evidenceKind.narrowed.rd_get_iff [folded readEnum8_def, folded readEvidenceKind_def]

definition event_ok :: "LifecycleEvent \<Rightarrow> bool" where
  "event_ok e \<longleftrightarrow>
     length (ev_digest e) = 32 \<and> length (ev_authorityIncarnation e) = 16
     \<and> length (ev_targetIncarnation e) = 16 \<and> i64_range (ev_atMillis e)"

lemma readLifecycleEvent_iff:
  "readLifecycleEvent bs = Inr (e, rest) \<longleftrightarrow>
     event_ok e \<and> (\<exists>w. writeLifecycleEvent e = Some w \<and> bs = w @ rest)"
  by (cases e) (auto simp: readLifecycleEvent_def writeLifecycleEvent_def event_ok_def record_rules)

interpretation eventCodec: field_codec writeLifecycleEvent readLifecycleEvent event_ok
  by unfold_locales (auto simp: readLifecycleEvent_iff)

text \<open>The events of a delivery, counted like every other collection but refused with their own code.\<close>

lemma readEvents_iff:
  "rd readEvents k bs = Inr z \<longleftrightarrow>
     (\<exists>xs rest. length xs \<le> kMaxEventsPerDelivery \<and> list_all event_ok xs \<and> writable writeLifecycleEvent xs
       \<and> bs = le_store 4 (of_nat (length xs) :: u32) @ the (emit (map writeLifecycleEvent xs)) @ rest
       \<and> k xs rest = Inr z)"
proof -
  have "readEvents bs = Inr y \<longleftrightarrow> r_counted kMaxEventsPerDelivery readLifecycleEvent bs = Inr y" for bs y
    by (simp add: readEvents_def r_counted_def rd_eq_Inr_iff codec_dests)
  then have "rd readEvents k bs = Inr z \<longleftrightarrow> rd (r_counted kMaxEventsPerDelivery readLifecycleEvent) k bs = Inr z"
    by (simp add: rd_eq_Inr_iff)
  then show ?thesis
    using eventCodec.rd_counted_iff [of kMaxEventsPerDelivery k bs z] by (simp add: kMaxEventsPerDelivery_def)
qed

definition endpoint_ok :: "string \<Rightarrow> bool" where
  "endpoint_ok text \<longleftrightarrow> text = [] \<or> (\<exists>e. parseEndpoint text = Inr e)"

interpretation endpointText: narrowed_codec "w_string kMaxEndpointBytes" "r_string kMaxEndpointBytes"
  "\<lambda>_. True" "\<lambda>t. t" "\<lambda>text. if text = [] then Inr [] else cf_try (parseEndpoint text) (\<lambda>_. Inr text)" endpoint_ok
  by unfold_locales (auto simp: endpoint_ok_def cf_try_eq_Inr_iff split: if_splits)

definition target_ok :: "TargetRuntime \<Rightarrow> bool" where
  "target_ok r \<longleftrightarrow>
     isValidIdentifier (tr_id r) \<and> length (tr_incarnation r) = 16 \<and> length (tr_committedDigest r) = 32
     \<and> optionalIdentifier (tr_committedArtifact r) \<and> i64_range (tr_lastContactMillis r)
     \<and> optionalIdentifier (tr_preparedDeployment r) \<and> length (tr_preparedDigest r) = 32
     \<and> endpoint_ok (tr_endpoint r) \<and> \<not> tr_contactEstablishedThisProcess r"

lemma readTargetRuntime_iff:
  "readTargetRuntime bs = Inr (r, rest) \<longleftrightarrow> target_ok r \<and> (\<exists>w. writeTargetRuntime r = Some w \<and> bs = w @ rest)"
  by (cases r)
    (auto simp: readTargetRuntime_def writeTargetRuntime_def target_ok_def record_rules
      endpointText.narrowed.rd_get_iff [folded readEndpointText_def])

interpretation targetCodec: field_codec writeTargetRuntime readTargetRuntime target_ok
  by unfold_locales (auto simp: readTargetRuntime_iff)

definition xfer_ok :: "TransferRecord \<Rightarrow> bool" where
  "xfer_ok r \<longleftrightarrow>
     isValidIdentifier (xr_deployment r) \<and> isValidIdentifier (xr_key r) \<and> optionalIdentifier (xr_artifact r)
     \<and> length (xr_digest r) = 32 \<and> xr_bytesReceived r \<le> xr_totalBytes r \<and> i64_range (xr_updatedAtMillis r)"

lemma readTransferRecord_iff:
  "readTransferRecord bs = Inr (r, rest) \<longleftrightarrow> xfer_ok r \<and> (\<exists>w. writeTransferRecord r = Some w \<and> bs = w @ rest)"
  by (cases r) (auto simp: readTransferRecord_def writeTransferRecord_def xfer_ok_def record_rules)

interpretation xferCodec: field_codec writeTransferRecord readTransferRecord xfer_ok
  by unfold_locales (auto simp: readTransferRecord_iff)

definition applied_ok :: "AppliedFinding \<Rightarrow> bool" where
  "applied_ok f \<longleftrightarrow>
     isValidIdentifier (af_key f) \<and> length (af_digest f) = 32 \<and> optionalIdentifier (af_artifact f)
     \<and> isValidIdentifier (af_deployment f) \<and> i64_range (af_recordedAtMillis f)"

lemma readAppliedFinding_iff:
  "readAppliedFinding bs = Inr (f, rest) \<longleftrightarrow> applied_ok f \<and> (\<exists>w. writeAppliedFinding f = Some w \<and> bs = w @ rest)"
  by (cases f) (auto simp: readAppliedFinding_def writeAppliedFinding_def applied_ok_def record_rules)

interpretation appliedCodec: field_codec writeAppliedFinding readAppliedFinding applied_ok
  by unfold_locales (auto simp: readAppliedFinding_iff)

definition delivery_ok :: "DeliveryRecord \<Rightarrow> bool" where
  "delivery_ok r \<longleftrightarrow>
     isValidIdentifier (dr_id r) \<and> isValidIdentifier (dr_setId r) \<and> optionalIdentifier (dr_rolloutSet r)
     \<and> isValidIdentifier (dr_target r) \<and> isValidIdentifier (dr_key r) \<and> isValidIdentifier (dr_artifact r)
     \<and> dr_generation r \<noteq> 0 \<and> length (dr_digest r) = 32 \<and> isValidIdentifier (dr_schema r)
     \<and> length (dr_events r) \<le> kMaxEventsPerDelivery \<and> list_all event_ok (dr_events r)
     \<and> length (dr_authorityIncarnation r) = 16 \<and> length (dr_targetIncarnation r) = 16
     \<and> i64_range (dr_createdAtMillis r) \<and> i64_range (dr_updatedAtMillis r)"

lemma readDeliveryRecord_iff:
  "readDeliveryRecord bs = Inr (r, rest) \<longleftrightarrow>
     delivery_ok r \<and> (\<exists>w. writeDeliveryRecord r = Some w \<and> bs = w @ rest)"
  by (cases r)
    (simp add: readDeliveryRecord_def writeDeliveryRecord_def delivery_ok_def record_rules readEvents_iff
      validId.narrowed.rd_get_iff [folded readDeploymentSetId_def]
      optionalId.narrowed.rd_get_iff [folded readOptionalRolloutSetId_def] emit_map_eq_Some
      optionalIdentifier_def, blast)

interpretation deliveryCodec: field_codec writeDeliveryRecord readDeliveryRecord delivery_ok
  by unfold_locales (auto simp: readDeliveryRecord_iff)

lemma checkBounded_eq_iff: "checkBounded t n = Inr () \<longleftrightarrow> length t \<le> n"
  by (auto simp: checkBounded_def)

lemma decodeTargetRuntime_iff:
  "decodeTargetRuntime bs = Inr r \<longleftrightarrow> target_ok r \<and> encodeTargetRuntime r = Some (Inr bs)"
proof -
  have "writeTargetRuntime r = Some w \<Longrightarrow> length (tr_id r) \<le> kMaxIdentifierLength" for w
    by (auto simp: writeTargetRuntime_def emit_Cons_eq_Some w_string_eq_Some_iff)
  then show ?thesis
    by (auto simp: decodeTargetRuntime_def encodeTargetRuntime_def codec_dests rd_eq_Inr_iff
        readTargetRuntime_iff enc_try_eq_iff checkBounded_eq_iff encoded_eq_iff r_requireEnd_def
        split: if_splits)
qed

lemma decodeDeliveryRecord_iff:
  "decodeDeliveryRecord bs = Inr r \<longleftrightarrow> delivery_ok r \<and> encodeDeliveryRecord r = Some (Inr bs)"
proof -
  have "writeDeliveryRecord r = Some w \<Longrightarrow>
      length (dr_id r) \<le> kMaxIdentifierLength \<and> length (dr_lastDetail r) \<le> kMaxDeliveryDetailBytes" for w
    by (auto simp: writeDeliveryRecord_def emit_Cons_eq_Some w_string_eq_Some_iff)
  then show ?thesis
    by (auto simp: decodeDeliveryRecord_def encodeDeliveryRecord_def codec_dests rd_eq_Inr_iff
        readDeliveryRecord_iff enc_try_eq_iff enc_fail_if_eq_iff checkBounded_eq_iff encoded_eq_iff
        r_requireEnd_def delivery_ok_def split: if_splits)
qed

definition metadata_ok :: "ArtifactMetadata \<Rightarrow> bool" where
  "metadata_ok m \<longleftrightarrow>
     isValidIdentifier (am_id m) \<and> isValidIdentifier (am_schema m) \<and> length (am_digest m) = 32
     \<and> i64_range (am_producedAtMillis m) \<and> i64_range (am_storedAtMillis m)"

lemma read_metadata_body_iff:
  "read_metadata_body bs = Inr (m, rest) \<longleftrightarrow> metadata_ok m \<and> rest = [] \<and> metadata_body m = Some bs"
  by (cases m) (auto simp: read_metadata_body_def metadata_body_def metadata_ok_def record_rules)

lemma metadata_body_bounds:
  "metadata_body m = Some b \<Longrightarrow>
     length (am_id m) \<le> kMaxIdentifierLength \<and> length (am_schema m) \<le> kMaxIdentifierLength
     \<and> length (am_mediaType m) \<le> kMaxMediaTypeBytes \<and> length (am_producer m) \<le> kMaxProducerBytes
     \<and> 6 \<le> length b"
  by (auto simp: metadata_body_def emit_Cons_eq_Some w_string_eq_Some_iff w_u32_def w_u16_le_store)

lemma decodeArtifactMetadata_iff:
  "decodeArtifactMetadata bs = Inr m \<longleftrightarrow> metadata_ok m \<and> encodeArtifactMetadata m = Some (Inr bs)"
proof
  assume d: "decodeArtifactMetadata bs = Inr m"
  let ?n = "length bs - 4"
  from d have len: "6 \<le> length bs" and crc: "crc32c (take ?n bs) = loadLe32 (drop ?n bs)"
    and body: "metadata_ok m" "metadata_body m = Some (take ?n bs)"
    by (auto simp: decodeArtifactMetadata_def Let_def result_simps not_less codec_dests read_metadata_body_iff)
  have "le_store 4 (loadLe32 (drop ?n bs)) = drop ?n bs"
    using len le_store_load_length [of "drop ?n bs" 4, where 'a = 32] by (simp add: loadLe32_le_load)
  then have "bs = take ?n bs @ le_store 4 (crc32c (take ?n bs))" using crc by simp
  then show "metadata_ok m \<and> encodeArtifactMetadata m = Some (Inr bs)"
    using body metadata_body_bounds [OF body(2)]
    by (auto simp: encodeArtifactMetadata_def enc_fail_if_eq_iff encoded_eq_iff codec_dests w_u32_def not_less)
next
  assume e: "metadata_ok m \<and> encodeArtifactMetadata m = Some (Inr bs)"
  then obtain b where b: "metadata_body m = Some b" and bs: "bs = b @ le_store 4 (crc32c b)"
    by (auto simp: encodeArtifactMetadata_def enc_fail_if_eq_iff encoded_eq_iff codec_dests w_u32_def
        split: option.splits)
  have "loadLe32 (le_store 4 (crc32c b)) = crc32c b" by (simp add: loadLe32_le_load le_load_store)
  moreover have "read_metadata_body b = Inr (m, [])" using e b by (simp add: read_metadata_body_iff)
  ultimately show "decodeArtifactMetadata bs = Inr m"
    using metadata_body_bounds [OF b] by (simp add: bs decodeArtifactMetadata_def Let_def rd_run_def Result_map_def)
qed

lemma port_loop_bound: "port_loop p cs = Inr q \<Longrightarrow> p \<le> 65535 \<Longrightarrow> q \<le> 65535"
  by (induction p cs rule: port_loop.induct) (auto simp: Let_def not_less split: if_splits)

end
