(* ===== verification/Storage.thy ===== *)
theory Storage
  imports Codec
begin

text \<open>
  The file operations the program stands on: the calls of the C library and of
  \<^verbatim>\<open>std::filesystem\<close> that the sources use, and on top of them \<^verbatim>\<open>readFileBounded\<close>,
  \<^verbatim>\<open>flushFileToDisk\<close> and \<^verbatim>\<open>writeFileAtomic\<close> of \<^verbatim>\<open>src/codec.cpp\<close>.

  A world holds the files by path, the list of changes made to them so far in program order, the
  outcomes the operating system will give to the next fallible calls, and the random values it will
  hand out. An outcome \<^const>\<open>None\<close> is success, \<open>Some k\<close> a failure (of a write: after \<open>k\<close> bytes), and
  once the list is used up every call succeeds. A crash keeps a prefix of the changes, the last one
  possibly torn; a restart then reads what is left.
\<close>

subsection \<open>Changes of the disk\<close>

type_synonym disk = "string \<rightharpoonup> bytes"

datatype DiskOp =
    CreateFile string
  | WriteAt string nat bytes
  | TruncateTo string nat
  | RenameFile string string
  | RemoveFile string

fun exec_op :: "DiskOp \<Rightarrow> disk \<Rightarrow> disk" where
  "exec_op (CreateFile p) d = d(p \<mapsto> [])"
| "exec_op (WriteAt p off bs) d =
     (case d p of None \<Rightarrow> d
      | Some c \<Rightarrow> d(p \<mapsto> take off c @ replicate (if bs = [] then 0 else off - length c) 0 @ bs @ drop (off + length bs) c))"
| "exec_op (TruncateTo p n) d =
     (case d p of None \<Rightarrow> d | Some c \<Rightarrow> d(p \<mapsto> take n c))"
| "exec_op (RenameFile p q) d =
     (case d p of None \<Rightarrow> d | Some c \<Rightarrow> d(p := None, q \<mapsto> c))"
| "exec_op (RemoveFile p) d = d(p := None)"

definition exec_ops :: "DiskOp list \<Rightarrow> disk \<Rightarrow> disk" where
  "exec_ops ops d = fold exec_op ops d"

text \<open>
  A write beyond the end fills the gap with zeros. What a crash leaves of a sequence of changes: the first \<open>i\<close> of them, and of the next one, if it is
  a write, the first \<open>k\<close> bytes.
\<close>

definition torn_op :: "nat \<Rightarrow> DiskOp \<Rightarrow> DiskOp list" where
  "torn_op k oper = (case oper of WriteAt p off bs \<Rightarrow> [WriteAt p off (take k bs)] | _ \<Rightarrow> [])"

definition crash_disk :: "nat \<Rightarrow> nat \<Rightarrow> DiskOp list \<Rightarrow> disk \<Rightarrow> disk" where
  "crash_disk i k ops d =
     exec_ops (take i ops @ (if i < length ops then torn_op k (ops ! i) else [])) d"

subsection \<open>The world and its calls\<close>

record world =
  w_disk :: disk
  w_trace :: "DiskOp list"
  w_outcomes :: "nat option list"
  w_random :: "nat \<Rightarrow> bytes"
  w_draws :: nat

type_synonym 'a io = "world \<Rightarrow> 'a \<times> world"

definition perform :: "DiskOp \<Rightarrow> world \<Rightarrow> world" where
  "perform oper w = w\<lparr>w_disk := exec_op oper (w_disk w), w_trace := w_trace w @ [oper]\<rparr>"

definition os_outcome :: "nat option io" where
  "os_outcome w =
     (case w_outcomes w of [] \<Rightarrow> (None, w) | r # rs \<Rightarrow> (r, w\<lparr>w_outcomes := rs\<rparr>))"

text \<open>A call that makes one change when it succeeds and none when it fails.\<close>

definition os_change :: "DiskOp \<Rightarrow> bool io" where
  "os_change oper w =
     (case os_outcome w of (None, w') \<Rightarrow> (True, perform oper w') | (Some _, w') \<Rightarrow> (False, w'))"

text \<open>A call that changes nothing: \<^verbatim>\<open>fflush\<close>, \<^verbatim>\<open>fsync\<close>, \<^verbatim>\<open>fseek\<close>, opening an existing file.\<close>

definition os_call :: "bool io" where
  "os_call w = (case os_outcome w of (r, w') \<Rightarrow> (r = None, w'))"

text \<open>\<^verbatim>\<open>fwrite\<close> at an offset: a short write leaves the bytes that were accepted.\<close>

definition fwrite_at :: "string \<Rightarrow> nat \<Rightarrow> bytes \<Rightarrow> bool io" where
  "fwrite_at p off bs w =
     (case os_outcome w of
        (None, w') \<Rightarrow> (True, perform (WriteAt p off bs) w')
      | (Some k, w') \<Rightarrow> (False, perform (WriteAt p off (take k bs)) w'))"

definition file_size :: "string \<Rightarrow> world \<Rightarrow> nat" where
  "file_size p w = (case w_disk w p of None \<Rightarrow> 0 | Some c \<Rightarrow> length c)"

text \<open>Writing at the end of the file, the position after \<^verbatim>\<open>fseek(file, 0, SEEK_END)\<close>.\<close>

definition fwrite_end :: "string \<Rightarrow> bytes \<Rightarrow> bool io" where
  "fwrite_end p bs w = fwrite_at p (file_size p w) bs w"

definition draw_random :: "bytes io" where
  "draw_random w = (w_random w (w_draws w), w\<lparr>w_draws := Suc (w_draws w)\<rparr>)"

text \<open>Sequencing: a call whose failure is an early return, and \<^verbatim>\<open>CF_TRY\<close> over a status.\<close>

definition io_or_fail :: "bool io \<Rightarrow> ErrorCode \<Rightarrow> (world \<Rightarrow> 'a result \<times> world) \<Rightarrow> 'a result io" where
  "io_or_fail c code k w = (case c w of (ok, w') \<Rightarrow> if ok then k w' else (Inl code, w'))"

definition io_try :: "'a result io \<Rightarrow> ('a \<Rightarrow> 'b result io) \<Rightarrow> 'b result io" where
  "io_try m k w = (case m w of (Inl e, w') \<Rightarrow> (Inl e, w') | (Inr x, w') \<Rightarrow> k x w')"

definition io_return :: "'a \<Rightarrow> 'a io" where
  "io_return x w = (x, w)"

subsection \<open>File helpers of the codec\<close>

text \<open>
  The size is taken, checked against the bound, and that many bytes are read; nobody else writes the
  file meanwhile, so a short or a longer read does not happen.
\<close>

definition readFileBounded :: "string \<Rightarrow> nat \<Rightarrow> bytes result io" where
  "readFileBounded path maxBytes w =
     (case w_disk w path of
        None \<Rightarrow> (Inl NotFound, w)
      | Some content \<Rightarrow>
          if length content > maxBytes then (Inl OversizePayload, w)
          else io_or_fail os_call OpenFailed (io_or_fail os_call IoFailure (io_return (Inr content))) w)"

definition flushFileToDisk :: "status io" where
  "flushFileToDisk = io_or_fail os_call IoFailure (io_or_fail os_call IoFailure (io_return (Inr ())))"

definition tempSiblingPath :: "string \<Rightarrow> string io" where
  "tempSiblingPath path w =
     (case draw_random w of (suffix, w') \<Rightarrow> (path @ ''.part-'' @ toHex suffix, w'))"

text \<open>Moving the complete temporary file into place, with the remove-then-rename of the sources.\<close>

definition rename_into_place :: "string \<Rightarrow> string \<Rightarrow> status io" where
  "rename_into_place temporary path w =
     (case os_change (RenameFile temporary path) w of
        (True, w1) \<Rightarrow> (Inr (), w1)
      | (False, w1) \<Rightarrow>
          (case os_change (RemoveFile path) w1 of (_, w2) \<Rightarrow>
           case os_change (RenameFile temporary path) w2 of
             (True, w3) \<Rightarrow> (Inr (), w3)
           | (False, w3) \<Rightarrow>
               (case os_change (RemoveFile temporary) w3 of (_, w4) \<Rightarrow> (Inl IoFailure, w4))))"

definition writeFileAtomic :: "string \<Rightarrow> bytes \<Rightarrow> status io" where
  "writeFileAtomic path content w =
     (case tempSiblingPath path w of (temporary, w0) \<Rightarrow>
      case os_change (CreateFile temporary) w0 of
        (False, w1) \<Rightarrow> (Inl OpenFailed, w1)
      | (True, w1) \<Rightarrow>
          (case (if content = [] then (True, w1) else fwrite_at temporary 0 content w1) of
             (written, w2) \<Rightarrow>
               (case (if written then flushFileToDisk w2 else (Inl IoFailure, w2)) of
                  (Inl e, w3) \<Rightarrow>
                    (case os_change (RemoveFile temporary) w3 of (_, w4) \<Rightarrow> (Inl IoFailure, w4))
                | (Inr _, w3) \<Rightarrow> rename_into_place temporary path w3)))"

subsection \<open>Quiet worlds\<close>

text \<open>A world in which every further call succeeds.\<close>

definition quiet :: "world \<Rightarrow> bool" where
  "quiet w \<longleftrightarrow> w_outcomes w = []"

lemma perform_simps [simp]:
  "w_disk (perform oper w) = exec_op oper (w_disk w)"
  "w_trace (perform oper w) = w_trace w @ [oper]"
  "w_outcomes (perform oper w) = w_outcomes w"
  "w_random (perform oper w) = w_random w"
  "w_draws (perform oper w) = w_draws w"
  "quiet (perform oper w) = quiet w"
  by (simp_all add: perform_def quiet_def)

lemma os_outcome_quiet: "quiet w \<Longrightarrow> os_outcome w = (None, w)"
  by (simp add: quiet_def os_outcome_def)

lemma os_quiet:
  "quiet w \<Longrightarrow> os_change oper w = (True, perform oper w)"
  "quiet w \<Longrightarrow> os_call w = (True, w)"
  "quiet w \<Longrightarrow> fwrite_at p off bs w = (True, perform (WriteAt p off bs) w)"
  "quiet w \<Longrightarrow> fwrite_end p bs w = (True, perform (WriteAt p (file_size p w) bs) w)"
  by (simp_all add: os_change_def os_call_def fwrite_at_def fwrite_end_def os_outcome_quiet)

lemma io_quiet:
  "quiet w \<Longrightarrow> io_or_fail os_call code k w = k w"
  "quiet w \<Longrightarrow> io_or_fail (os_change oper) code k w = k (perform oper w)"
  "quiet w \<Longrightarrow> io_or_fail (fwrite_at p off bs) code k w = k (perform (WriteAt p off bs) w)"
  "quiet w \<Longrightarrow> io_or_fail (fwrite_end p bs) code k w = k (perform (WriteAt p (file_size p w) bs) w)"
  "io_return x w = (x, w)"
  by (simp_all add: io_or_fail_def os_quiet io_return_def)

lemma flushFileToDisk_quiet: "quiet w \<Longrightarrow> flushFileToDisk w = (Inr (), w)"
  by (simp add: flushFileToDisk_def io_quiet)

lemma readFileBounded_quiet:
  "quiet w \<Longrightarrow> readFileBounded p m w =
     ((case w_disk w p of None \<Rightarrow> Inl NotFound
       | Some c \<Rightarrow> if length c > m then Inl OversizePayload else Inr c), w)"
  by (simp add: readFileBounded_def io_quiet split: option.splits)

lemmas quiet_simps = os_quiet io_quiet flushFileToDisk_quiet readFileBounded_quiet

subsection \<open>What a crash can leave\<close>

lemma exec_ops_simps [simp]:
  "exec_ops [] d = d"
  "exec_ops (oper # ops) d = exec_ops ops (exec_op oper d)"
  "exec_ops (xs @ ys) d = exec_ops ys (exec_ops xs d)"
  by (simp_all add: exec_ops_def)

lemma crash_disk_0:
  "crash_disk 0 k [] d = d"
  "crash_disk 0 k (oper # ops) d = exec_ops (torn_op k oper) d"
  by (simp_all add: crash_disk_def)

lemma crash_disk_Suc [simp]:
  "crash_disk (Suc i) k [] d = d"
  "crash_disk (Suc i) k (oper # ops) d = crash_disk i k ops (exec_op oper d)"
  by (simp_all add: crash_disk_def)

lemma crash_disk_Cons:
  "crash_disk i k (oper # ops) d =
     (if i = 0 then exec_ops (torn_op k oper) d else crash_disk (i - 1) k ops (exec_op oper d))"
  by (cases i) (simp_all add: crash_disk_0)

lemma crash_disk_Nil [simp]: "crash_disk i k [] d = d"
  by (simp add: crash_disk_def)

lemma torn_op_simps [simp]:
  "torn_op k (WriteAt p off bs) = [WriteAt p off (take k bs)]"
  "torn_op k (CreateFile p) = []" "torn_op k (TruncateTo p n) = []"
  "torn_op k (RenameFile p q) = []" "torn_op k (RemoveFile p) = []"
  by (simp_all add: torn_op_def)

text \<open>A change of one file leaves the others alone.\<close>

fun op_files :: "DiskOp \<Rightarrow> string set" where
  "op_files (CreateFile p) = {p}"
| "op_files (WriteAt p off bs) = {p}"
| "op_files (TruncateTo p n) = {p}"
| "op_files (RenameFile p q) = {p, q}"
| "op_files (RemoveFile p) = {p}"

lemma exec_op_other: "q \<notin> op_files oper \<Longrightarrow> exec_op oper d q = d q"
  by (cases oper) (auto split: option.splits)

lemma exec_ops_other: "q \<notin> \<Union> (op_files ` set ops) \<Longrightarrow> exec_ops ops d q = d q"
  by (induction ops arbitrary: d) (auto simp: exec_op_other)

lemma crash_disk_other:
  assumes "q \<notin> \<Union> (op_files ` set ops)"
  shows "crash_disk i k ops d q = d q"
proof -
  have "i < length ops \<Longrightarrow> q \<notin> \<Union> (op_files ` set (torn_op k (ops ! i)))"
    using assms nth_mem [of i ops] by (cases "ops ! i") auto
  moreover have "q \<notin> \<Union> (op_files ` set (take i ops))"
    using assms by (auto dest: in_set_takeD)
  ultimately show ?thesis by (simp add: crash_disk_def exec_ops_other)
qed

subsection \<open>Atomic replacement\<close>

definition temp_path :: "world \<Rightarrow> string \<Rightarrow> string" where
  "temp_path w path = path @ ''.part-'' @ toHex (w_random w (w_draws w))"

lemma temp_path_neq [simp]: "temp_path w path \<noteq> path" "path \<noteq> temp_path w path"
  by (simp_all add: temp_path_def)

definition atomic_ops :: "world \<Rightarrow> string \<Rightarrow> bytes \<Rightarrow> DiskOp list" where
  "atomic_ops w path content =
     CreateFile (temp_path w path)
     # (if content = [] then [] else [WriteAt (temp_path w path) 0 content])
     @ [RenameFile (temp_path w path) path]"

text \<open>A world after a list of changes.\<close>

definition after_ops :: "DiskOp list \<Rightarrow> world \<Rightarrow> world" where
  "after_ops ops w = w\<lparr>w_disk := exec_ops ops (w_disk w), w_trace := w_trace w @ ops\<rparr>"

lemma after_ops_simps [simp]:
  "w_disk (after_ops ops w) = exec_ops ops (w_disk w)"
  "w_trace (after_ops ops w) = w_trace w @ ops"
  "quiet (after_ops ops w) = quiet w"
  "w_random (after_ops ops w) = w_random w" "w_draws (after_ops ops w) = w_draws w"
  by (simp_all add: after_ops_def quiet_def)

lemma perform_after_ops: "perform oper (after_ops ops w) = after_ops (ops @ [oper]) w"
  "perform oper w = after_ops [oper] w" "after_ops [] w = w"
  by (simp_all add: perform_def after_ops_def)

lemma after_ops_append: "after_ops ys (after_ops xs w) = after_ops (xs @ ys) w"
  by (simp add: after_ops_def)

lemma writeFileAtomic_quiet:
  assumes "quiet w"
  shows "writeFileAtomic path content w =
    (Inr (), after_ops (atomic_ops w path content) (w\<lparr>w_draws := Suc (w_draws w)\<rparr>))"
proof -
  have q: "quiet (w\<lparr>w_draws := Suc (w_draws w)\<rparr>)" using assms by (simp add: quiet_def)
  show ?thesis
    using q
    by (simp add: writeFileAtomic_def tempSiblingPath_def draw_random_def rename_into_place_def
        quiet_simps perform_after_ops after_ops_append atomic_ops_def temp_path_def)
qed

lemma atomic_ops_result:
  "exec_ops (atomic_ops w path content) d = d(temp_path w path := None, path \<mapsto> content)"
  by (auto simp: atomic_ops_def fun_eq_iff)

lemma atomic_ops_files: "\<Union> (op_files ` set (atomic_ops w path content)) = {temp_path w path, path}"
  by (auto simp: atomic_ops_def)

text \<open>At every crash point the target holds its previous or its new content, and no third file changes.\<close>

lemma atomic_crash:
  "crash_disk i k (atomic_ops w path content) d path \<in> {d path, Some content}"
  by (auto simp: atomic_ops_def crash_disk_Cons)

lemma atomic_crash_other:
  "q \<noteq> path \<Longrightarrow> q \<noteq> temp_path w path \<Longrightarrow> crash_disk i k (atomic_ops w path content) d q = d q"
  by (rule crash_disk_other) (simp add: atomic_ops_files)

subsection \<open>Properties\<close>

text \<open>What a run of the atomic write does to the disk, whichever calls fail: the changes are made in these shapes.\<close>

lemma change_effect:
  "os_change oper w = (ok, w') \<Longrightarrow> w_trace w' = w_trace w @ (if ok then [oper] else [])
     \<and> w_disk w' = (if ok then exec_op oper (w_disk w) else w_disk w)"
  "os_call w = (ok, w') \<Longrightarrow> w_trace w' = w_trace w \<and> w_disk w' = w_disk w"
  "fwrite_at p off bs w = (ok, w') \<Longrightarrow> \<exists>k. w_trace w' = w_trace w @ [WriteAt p off (take k bs)]
     \<and> w_disk w' = exec_op (WriteAt p off (take k bs)) (w_disk w) \<and> (ok \<longrightarrow> take k bs = bs)"
proof -
  have out: "w_trace v' = w_trace v \<and> w_disk v' = w_disk v" if "os_outcome v = (x, v')" for v x v'
    using that by (auto simp: os_outcome_def split: list.splits)
  show "os_change oper w = (ok, w') \<Longrightarrow> w_trace w' = w_trace w @ (if ok then [oper] else [])
     \<and> w_disk w' = (if ok then exec_op oper (w_disk w) else w_disk w)"
    by (auto simp: os_change_def dest!: out split: prod.splits option.splits)
  show "os_call w = (ok, w') \<Longrightarrow> w_trace w' = w_trace w \<and> w_disk w' = w_disk w"
    by (auto simp: os_call_def dest!: out split: prod.splits)
  assume run: "fwrite_at p off bs w = (ok, w')"
  obtain x w0 where o: "os_outcome w = (x, w0)" by fastforce
  show "\<exists>k. w_trace w' = w_trace w @ [WriteAt p off (take k bs)]
     \<and> w_disk w' = exec_op (WriteAt p off (take k bs)) (w_disk w) \<and> (ok \<longrightarrow> take k bs = bs)"
  proof (cases x)
    case None
    with run o have "ok" "w' = perform (WriteAt p off bs) w0" by (simp_all add: fwrite_at_def)
    with out [OF o] show ?thesis by (intro exI [of _ "length bs"]) simp
  next
    case (Some k)
    with run o out [OF o] show ?thesis by (intro exI [of _ k]) (auto simp: fwrite_at_def)
  qed
qed

lemma flush_effect: "flushFileToDisk w = (st, w') \<Longrightarrow> w_trace w' = w_trace w \<and> w_disk w' = w_disk w"
  by (auto simp: flushFileToDisk_def io_or_fail_def io_return_def dest!: change_effect split: prod.splits if_splits)

lemma rename_effect:
  assumes "rename_into_place t path w = (st, w')"
  shows "\<exists>ops. w_trace w' = w_trace w @ ops \<and> w_disk w' = exec_ops ops (w_disk w)
    \<and> ops \<in> {[], [RenameFile t path], [RemoveFile t], [RemoveFile path], [RemoveFile path, RenameFile t path],
             [RemoveFile path, RemoveFile t]}
    \<and> (st = Inr () \<longrightarrow> last ops = RenameFile t path \<and> ops \<noteq> [])"
proof -
  obtain b1 w1 where 1: "os_change (RenameFile t path) w = (b1, w1)" by fastforce
  obtain b2 w2 where 2: "os_change (RemoveFile path) w1 = (b2, w2)" by fastforce
  obtain b3 w3 where 3: "os_change (RenameFile t path) w2 = (b3, w3)" by fastforce
  obtain b4 w4 where 4: "os_change (RemoveFile t) w3 = (b4, w4)" by fastforce
  show ?thesis
    using assms 1 2 3 4 change_effect(1) [OF 1] change_effect(1) [OF 2] change_effect(1) [OF 3] change_effect(1) [OF 4]
    by (cases b1; cases b2; cases b3; cases b4) (auto simp: rename_into_place_def)
qed

definition staged_ops :: "string \<Rightarrow> bytes option \<Rightarrow> DiskOp list" where
  "staged_ops t part = CreateFile t # (case part of None \<Rightarrow> [] | Some bs \<Rightarrow> [WriteAt t 0 bs])"

definition atomic_shape :: "status \<Rightarrow> string \<Rightarrow> string \<Rightarrow> bytes \<Rightarrow> DiskOp list \<Rightarrow> bool" where
  "atomic_shape st t path content ops \<longleftrightarrow>
     st \<noteq> Inr () \<and> ops = []
     \<or> (\<exists>part tail. ops = staged_ops t part @ tail
          \<and> (tail \<in> {[], [RemoveFile t]} \<and> st \<noteq> Inr ()
             \<or> part = (if content = [] then None else Some content)
                \<and> tail \<in> {[RenameFile t path], [RemoveFile path], [RemoveFile path, RenameFile t path], [RemoveFile path, RemoveFile t]}
                \<and> (st = Inr () \<longrightarrow> last tail = RenameFile t path)))"

lemma writeFileAtomic_effect:
  assumes "writeFileAtomic path content w = (st, w')"
  shows "\<exists>ops. w_trace w' = w_trace w @ ops \<and> w_disk w' = exec_ops ops (w_disk w)
    \<and> atomic_shape st (temp_path w path) path content ops"
proof -
  let ?t = "temp_path w path" and ?w0 = "w\<lparr>w_draws := Suc (w_draws w)\<rparr>"
  have t: "tempSiblingPath path w = (?t, ?w0)" by (simp add: tempSiblingPath_def draw_random_def temp_path_def)
  obtain b1 w1 where 1: "os_change (CreateFile ?t) ?w0 = (b1, w1)" by fastforce
  note e1 = change_effect(1) [OF 1]
  show ?thesis
  proof (cases b1)
    case False
    then show ?thesis using assms t 1 e1 by (auto simp: writeFileAtomic_def atomic_shape_def)
  next
    case True
    obtain written w2 where 2: "(if content = [] then (True, w1) else fwrite_at ?t 0 content w1) = (written, w2)" by fastforce
    obtain part where e2: "w_trace w2 = w_trace w @ staged_ops ?t part" "w_disk w2 = exec_ops (staged_ops ?t part) (w_disk w)"
      "written \<longrightarrow> part = (if content = [] then None else Some content)"
    proof (cases "content = []")
      case True
      then show thesis using that [of None] 2 e1 \<open>b1\<close> by (simp add: staged_ops_def)
    next
      case False
      with 2 have "fwrite_at ?t 0 content w1 = (written, w2)" by simp
      from change_effect(3) [OF this] obtain k where "w_trace w2 = w_trace w1 @ [WriteAt ?t 0 (take k content)]"
        "w_disk w2 = exec_op (WriteAt ?t 0 (take k content)) (w_disk w1)" "written \<longrightarrow> take k content = content" by blast
      then show thesis using that [of "Some (take k content)"] e1 \<open>b1\<close> False by (simp add: staged_ops_def)
    qed
    obtain f w3 where 3: "(if written then flushFileToDisk w2 else (Inl IoFailure, w2)) = (f, w3)" by fastforce
    then have e3: "w_trace w3 = w_trace w2" "w_disk w3 = w_disk w2" "f = Inr () \<longrightarrow> written"
      using flush_effect [of w2 f w3] by (auto split: if_splits)
    show ?thesis
    proof (cases f)
      case (Inl e)
      obtain b4 w4 where 4: "os_change (RemoveFile ?t) w3 = (b4, w4)" by fastforce
      have "st \<noteq> Inr ()" "w' = w4" using assms t 1 2 3 4 \<open>b1\<close> Inl by (auto simp: writeFileAtomic_def)
      then show ?thesis
        using change_effect(1) [OF 4] e2(1,2) e3(1,2)
        by (intro exI [of _ "staged_ops ?t part @ (if b4 then [RemoveFile ?t] else [])"]) (auto simp: atomic_shape_def)
    next
      case (Inr u)
      then have rn: "rename_into_place ?t path w3 = (st, w')"
        using assms t 1 2 3 \<open>b1\<close> by (auto simp: writeFileAtomic_def)
      from rename_effect [OF this] obtain ops where ops: "w_trace w' = w_trace w3 @ ops" "w_disk w' = exec_ops ops (w_disk w3)"
        "ops \<in> {[], [RenameFile ?t path], [RemoveFile ?t], [RemoveFile path], [RemoveFile path, RenameFile ?t path],
             [RemoveFile path, RemoveFile ?t]}" "st = Inr () \<longrightarrow> last ops = RenameFile ?t path \<and> ops \<noteq> []"
        by blast
      have part: "part = (if content = [] then None else Some content)" using Inr e2(3) e3(3) by auto
      have "atomic_shape st ?t path content (staged_ops ?t part @ ops)"
        unfolding atomic_shape_def using ops(3,4) part by (intro disjI2 exI [of _ part] exI [of _ ops]) auto
      then show ?thesis
        using ops(1,2) e2 e3 part by (intro exI [of _ "staged_ops ?t part @ ops"]) (auto simp del: exec_ops_simps(2))
    qed
  qed
qed

lemma staged_files: "\<Union> (op_files ` set (staged_ops t part)) = {t}"
  by (cases part) (simp_all add: staged_ops_def)

lemma atomic_files:
  assumes "atomic_shape st t path content ops"
  shows "\<Union> (op_files ` set ops) \<subseteq> {t, path}"
proof (cases "ops = []")
  case False
  then obtain part tail where o: "ops = staged_ops t part @ tail"
    and tail: "tail \<in> {[], [RemoveFile t]} \<or> tail \<in> {[RenameFile t path], [RemoveFile path], [RemoveFile path, RenameFile t path], [RemoveFile path, RemoveFile t]}"
    using assms unfolding atomic_shape_def by blast
  from tail have "\<Union> (op_files ` set tail) \<subseteq> {t, path}" by (elim disjE insertE emptyE) simp_all
  then show ?thesis unfolding o set_append image_Un Union_Un_distrib staged_files by simp
qed simp

lemma atomic_done:
  assumes "atomic_shape (Inr ()) t path content ops"
  shows "\<exists>tail. ops = staged_ops t (if content = [] then None else Some content) @ tail
    \<and> (tail = [RenameFile t path] \<or> tail = [RemoveFile path, RenameFile t path])"
  using assms unfolding atomic_shape_def by (elim disjE exE conjE insertE emptyE) simp_all

lemma atomic_kept:
  assumes "atomic_shape st t path content ops" and "RemoveFile path \<notin> set ops" and "ops \<noteq> []"
  shows "\<exists>part tail. ops = staged_ops t part @ tail
    \<and> (tail = [] \<or> tail = [RemoveFile t] \<or> tail = [RenameFile t path] \<and> part = (if content = [] then None else Some content))"
proof -
  from assms(1,3) obtain part tail where o: "ops = staged_ops t part @ tail"
    and tail: "tail \<in> {[], [RemoveFile t]} \<or> part = (if content = [] then None else Some content)
      \<and> tail \<in> {[RenameFile t path], [RemoveFile path], [RemoveFile path, RenameFile t path], [RemoveFile path, RemoveFile t]}"
    unfolding atomic_shape_def by blast
  have "RemoveFile path \<notin> set tail" using assms(2) o by simp
  with tail have "tail = [] \<or> tail = [RemoveFile t] \<or> tail = [RenameFile t path] \<and> part = (if content = [] then None else Some content)"
    by (elim disjE conjE insertE emptyE) simp_all
  with o show ?thesis by blast
qed

lemma staged_content:
  "exec_ops (staged_ops t (if content = [] then None else Some content)) d = d(t \<mapsto> content)"
  by (simp add: staged_ops_def)

lemma staged_crash:
  "path \<noteq> t \<Longrightarrow> crash_disk i k (staged_ops t part @ tail) d path =
     (if i < length (staged_ops t part) then d path
      else crash_disk (i - length (staged_ops t part)) k tail (exec_ops (staged_ops t part) d) path)"
  by (cases part) (auto simp: staged_ops_def crash_disk_Cons)

lemma crash_one: "crash_disk i k [oper] d = (if i = 0 then exec_ops (torn_op k oper) d else exec_op oper d)"
  by (simp add: crash_disk_Cons)

lemma staged_other: "path \<noteq> t \<Longrightarrow> exec_ops (staged_ops t part) d path = d path"
  by (simp add: staged_ops_def split: option.split)

text \<open>
  C23: what an atomic write leaves, whichever calls of the operating system fail. When it reports success the target has
  the new content. At every crash point of it, even inside the write of the temporary file, every file but the target and
  the temporary one is as before, and the target has its previous or its new content, never a mixture, unless a
  refused rename made the sources remove the target before renaming again. When no call fails that does not happen and
  the write succeeds.
\<close>

theorem writeFileAtomic_all_or_nothing:
  assumes "w_trace w = []" and "writeFileAtomic path content w = (st, w')"
  shows "(st = Inr () \<longrightarrow> w_disk w' path = Some content)
    \<and> (RemoveFile path \<notin> set (w_trace w') \<longrightarrow> crash_disk i k (w_trace w') (w_disk w) path \<in> {w_disk w path, Some content})
    \<and> (quiet w \<longrightarrow> st = Inr () \<and> RemoveFile path \<notin> set (w_trace w'))
    \<and> (q \<noteq> path \<longrightarrow> q \<noteq> temp_path w path \<longrightarrow> crash_disk i k (w_trace w') (w_disk w) q = w_disk w q)"
proof -
  let ?t = "temp_path w path"
  obtain ops where ops: "w_trace w' = ops" "w_disk w' = exec_ops ops (w_disk w)"
    and shape: "atomic_shape st ?t path content ops"
    using writeFileAtomic_effect [OF assms(2)] assms(1) by auto
  have files: "\<Union> (op_files ` set ops) \<subseteq> {?t, path}"
    by (rule atomic_files [OF shape])
  have new: "exec_ops ops (w_disk w) path = Some content" if good: "st = Inr ()"
  proof -
    obtain tail where o: "ops = staged_ops ?t (if content = [] then None else Some content) @ tail"
      and tail: "tail = [RenameFile ?t path] \<or> tail = [RemoveFile path, RenameFile ?t path]"
      using atomic_done [OF shape [unfolded good]] by blast
    from tail show ?thesis unfolding o exec_ops_simps(3) staged_content by (elim disjE) simp_all
  qed
  have crash: "crash_disk i k ops (w_disk w) path \<in> {w_disk w path, Some content}" if kept: "RemoveFile path \<notin> set ops"
  proof (cases "ops = []")
    case False
    then obtain part tail where o: "ops = staged_ops ?t part @ tail"
      and tail: "tail = [] \<or> tail = [RemoveFile ?t] \<or> tail = [RenameFile ?t path] \<and> part = (if content = [] then None else Some content)"
      using atomic_kept [OF shape kept False] by blast
    let ?d = "exec_ops (staged_ops ?t part) (w_disk w)"
    have "crash_disk n k tail ?d path \<in> {w_disk w path, Some content}" for n
      using tail
    proof (elim disjE conjE)
      assume "tail = []"
      then show ?thesis by (simp add: staged_other)
    next
      assume "tail = [RemoveFile ?t]"
      then show ?thesis by (simp add: crash_one staged_other)
    next
      assume "tail = [RenameFile ?t path]" "part = (if content = [] then None else Some content)"
      then show ?thesis by (simp only: staged_content crash_one) (simp split: if_split)
    qed
    then show ?thesis unfolding o staged_crash [OF temp_path_neq(2)] by (simp split: if_split)
  qed simp
  have "quiet w \<longrightarrow> st = Inr () \<and> RemoveFile path \<notin> set ops"
    using writeFileAtomic_quiet [of w path content] assms ops(1) by (auto simp: atomic_ops_def split: if_splits)
  then show ?thesis
    using new crash files crash_disk_other [of q ops i k "w_disk w"] unfolding ops by blast
qed

definition example_world :: world where
  "example_world =
     \<lparr>w_disk = [''f'' \<mapsto> [1, 2]], w_trace = [], w_outcomes = [], w_random = (\<lambda>_. [7]), w_draws = 0\<rparr>"

theorem writeFileAtomic_all_or_nothing_witness:
  "quiet example_world \<and>
   w_disk (snd (writeFileAtomic ''f'' [9, 9, 9] example_world)) ''f'' = Some [9, 9, 9] \<and>
   crash_disk 1 2 (w_trace (snd (writeFileAtomic ''f'' [9, 9, 9] example_world)))
     (w_disk example_world) ''f'' \<in> {Some [1, 2], Some [9, 9, 9]}"
proof -
  have q: "quiet example_world" and t: "w_trace example_world = []"
    and d: "w_disk example_world ''f'' = Some [1, 2]"
    by (simp_all add: quiet_def example_world_def)
  show ?thesis
    using writeFileAtomic_all_or_nothing [OF t surjective_pairing, of "''f''" "[9, 9, 9]" 1 2 "''f''"] q d
    by simp
qed

definition refusing_world :: world where
  "refusing_world = example_world\<lparr>w_outcomes := [None, None, None, None, Some 0]\<rparr>"

text \<open>
  when the first rename is refused the sources remove the target before renaming again, and a
  crash between the two leaves no file under the target's name. The world below has an old file, and
  its first rename fails.
\<close>

theorem remove_then_rename_loses_target:
  "fst (writeFileAtomic ''f'' [9, 9, 9] refusing_world) = Inr ()
   \<and> w_disk refusing_world ''f'' = Some [1, 2]
   \<and> crash_disk 3 0 (w_trace (snd (writeFileAtomic ''f'' [9, 9, 9] refusing_world)))
       (w_disk refusing_world) ''f'' = None"
  by (simp add: refusing_world_def example_world_def writeFileAtomic_def tempSiblingPath_def
      draw_random_def os_change_def os_outcome_def fwrite_at_def flushFileToDisk_def io_or_fail_def
      os_call_def io_return_def rename_into_place_def perform_def crash_disk_Cons)

end
