(* ===== verification/Journal.thy ===== *)
theory Journal
  imports Storage Frame
begin

text \<open>
  The durable log and the two-slot snapshot of \<^verbatim>\<open>include/cf/journal.hpp\<close> and \<^verbatim>\<open>src/journal.cpp\<close>, on the
  files of the storage model. A journal file is a header followed by records; the scan that recovers
  it is the loop of the sources over the bytes of the file.

  \<^verbatim>\<open>scanInto\<close> closes its stream before leaving the loop on a torn payload and uses and closes it again
  after the loop. Using a closed stream is undefined behaviour: the model answers \<^const>\<open>None\<close> there,
  as it does for an abort. Of an error's text only its code is kept; the detail of a refused header is
  the name of that code. The handle of an open journal is never null, so that guard has no branch.
\<close>

subsection \<open>Record types\<close>

definition kJournalMagic :: u32 where
  "kJournalMagic = 0x314A4643"

definition kJournalFormatVersion :: u16 where
  "kJournalFormatVersion = 1"

definition kJournalHeaderBytes :: nat where
  "kJournalHeaderBytes = 12"

definition kJournalRecordHeaderBytes :: nat where
  "kJournalRecordHeaderBytes = 20"

definition kMaxJournalRecordBytes :: nat where
  "kMaxJournalRecordBytes = 1 * 1024 * 1024"

definition kMaxNoteBytes :: nat where
  "kMaxNoteBytes = 256"

definition kSnapshotMagic :: u32 where
  "kSnapshotMagic = 0x31534643"

definition kSnapshotFormatVersion :: u16 where
  "kSnapshotFormatVersion = 1"

definition kSnapshotHeaderBytes :: nat where
  "kSnapshotHeaderBytes = 28"

definition kMaxSnapshotBytes :: nat where
  "kMaxSnapshotBytes = 64 * 1024 * 1024"

datatype (plugins only: code size) JournalRecordType =
    Invalid | SegmentStart
  | ControllerIdentity | ControllerEpoch
  | TargetUpsert | TargetRemove | DeliveryUpsert | DeliveryRemove
  | ArtifactUpsert | ArtifactRemove | DeploymentSetNote
  | AgentIdentity | AgentTargetCommit | AgentTransferUpsert | AgentTransferRemove
  | AgentFindingUpsert | AgentApplyPrepared | AgentApplyResolved | AgentControllerFence
  | AgentRollbackNote | Note

definition allJournalRecordTypes :: "JournalRecordType list" where
  "allJournalRecordTypes =
     [Invalid, SegmentStart, ControllerIdentity, ControllerEpoch, TargetUpsert, TargetRemove,
      DeliveryUpsert, DeliveryRemove, ArtifactUpsert, ArtifactRemove, DeploymentSetNote,
      AgentIdentity, AgentTargetCommit, AgentTransferUpsert, AgentTransferRemove,
      AgentFindingUpsert, AgentApplyPrepared, AgentApplyResolved, AgentControllerFence,
      AgentRollbackNote, Note]"

primrec journalRecordTypeValue :: "JournalRecordType \<Rightarrow> u32" where
  "journalRecordTypeValue Invalid = 0"
| "journalRecordTypeValue SegmentStart = 1"
| "journalRecordTypeValue ControllerIdentity = 10"
| "journalRecordTypeValue ControllerEpoch = 11"
| "journalRecordTypeValue TargetUpsert = 20"
| "journalRecordTypeValue TargetRemove = 21"
| "journalRecordTypeValue DeliveryUpsert = 30"
| "journalRecordTypeValue DeliveryRemove = 31"
| "journalRecordTypeValue ArtifactUpsert = 40"
| "journalRecordTypeValue ArtifactRemove = 41"
| "journalRecordTypeValue DeploymentSetNote = 42"
| "journalRecordTypeValue AgentIdentity = 60"
| "journalRecordTypeValue AgentTargetCommit = 61"
| "journalRecordTypeValue AgentTransferUpsert = 62"
| "journalRecordTypeValue AgentTransferRemove = 63"
| "journalRecordTypeValue AgentFindingUpsert = 64"
| "journalRecordTypeValue AgentApplyPrepared = 65"
| "journalRecordTypeValue AgentApplyResolved = 66"
| "journalRecordTypeValue AgentControllerFence = 67"
| "journalRecordTypeValue AgentRollbackNote = 68"
| "journalRecordTypeValue Note = 90"

primrec journalRecordTypeName :: "JournalRecordType \<Rightarrow> string" where
  "journalRecordTypeName Invalid = ''invalid''"
| "journalRecordTypeName SegmentStart = ''segment-start''"
| "journalRecordTypeName ControllerIdentity = ''controller-identity''"
| "journalRecordTypeName ControllerEpoch = ''controller-epoch''"
| "journalRecordTypeName TargetUpsert = ''target-upsert''"
| "journalRecordTypeName TargetRemove = ''target-remove''"
| "journalRecordTypeName DeliveryUpsert = ''delivery-upsert''"
| "journalRecordTypeName DeliveryRemove = ''delivery-remove''"
| "journalRecordTypeName ArtifactUpsert = ''artifact-upsert''"
| "journalRecordTypeName ArtifactRemove = ''artifact-remove''"
| "journalRecordTypeName DeploymentSetNote = ''deployment-set-note''"
| "journalRecordTypeName AgentIdentity = ''agent-identity''"
| "journalRecordTypeName AgentTargetCommit = ''agent-target-commit''"
| "journalRecordTypeName AgentTransferUpsert = ''agent-transfer-upsert''"
| "journalRecordTypeName AgentTransferRemove = ''agent-transfer-remove''"
| "journalRecordTypeName AgentFindingUpsert = ''agent-finding-upsert''"
| "journalRecordTypeName AgentApplyPrepared = ''agent-apply-prepared''"
| "journalRecordTypeName AgentApplyResolved = ''agent-apply-resolved''"
| "journalRecordTypeName AgentControllerFence = ''agent-controller-fence''"
| "journalRecordTypeName AgentRollbackNote = ''agent-rollback-note''"
| "journalRecordTypeName Note = ''note''"

text \<open>\<^verbatim>\<open>static_cast<JournalRecordType>\<close>; \<^const>\<open>None\<close> is a value without an enumerator.\<close>

definition journalRecordType_cast :: "u32 \<Rightarrow> JournalRecordType option" where
  "journalRecordType_cast raw = List.find (\<lambda>t. journalRecordTypeValue t = raw) allJournalRecordTypes"

definition isKnownRecordType :: "u32 \<Rightarrow> bool" where
  "isKnownRecordType raw =
     (case journalRecordType_cast raw of None \<Rightarrow> False | Some t \<Rightarrow> t \<noteq> Invalid)"

definition parseJournalRecordType :: "string \<Rightarrow> JournalRecordType option" where
  "parseJournalRecordType text =
     (case List.find (\<lambda>raw. isKnownRecordType (of_nat raw)
                            \<and> journalRecordTypeName (the (journalRecordType_cast (of_nat raw))) = text)
                     [1..<91] of
        None \<Rightarrow> None
      | Some raw \<Rightarrow> journalRecordType_cast (of_nat raw))"

subsection \<open>Headers and records\<close>

definition storeLe64 :: "u64 \<Rightarrow> bytes" where
  "storeLe64 v = le_store 8 v"

definition loadLe64 :: "bytes \<Rightarrow> u64" where
  "loadLe64 bs = le_load (take 8 bs)"

definition journalHeaderBytes :: bytes where
  "journalHeaderBytes =
     (let prefix = storeLe32 kJournalMagic @ storeLe16 kJournalFormatVersion @ storeLe16 0
      in prefix @ storeLe32 (crc32c prefix))"

definition validateJournalHeader :: "bytes \<Rightarrow> status" where
  "validateJournalHeader bs =
     fail_if (length bs < kJournalHeaderBytes) TruncatedFrame
     (fail_if (loadLe32 bs \<noteq> kJournalMagic) MalformedInput
     (fail_if (crc32c (take 8 bs) \<noteq> loadLe32 (drop 8 bs)) IntegrityFailure
     (fail_if (loadLe16 (drop 4 bs) \<noteq> kJournalFormatVersion) UnsupportedVersion
     (fail_if (loadLe16 (drop 6 bs) \<noteq> 0) ProtocolViolation
     (Inr ())))))"

record JournalRecord =
  jr_type :: JournalRecordType
  jr_sequence :: Sequence
  jr_payload :: bytes

definition recordChecksum :: "JournalRecordType \<Rightarrow> Sequence \<Rightarrow> bytes \<Rightarrow> u32" where
  "recordChecksum t sequence payload =
     Crc32c_update
       (Crc32c_update Crc32c_init (storeLe32 (journalRecordTypeValue t) @ storeLe64 sequence)) payload"

definition record_header :: "JournalRecordType \<Rightarrow> bytes \<Rightarrow> Sequence \<Rightarrow> bytes" where
  "record_header t payload sequence =
     storeLe32 (of_nat (length payload)) @ storeLe32 (journalRecordTypeValue t)
     @ storeLe32 (recordChecksum t sequence payload) @ storeLe64 sequence"

subsection \<open>Recovery by scanning\<close>

datatype JournalOutcome =
    Created | Clean | TruncatedTail | Corrupted | NotAJournal | UnsupportedFormatVersion

record JournalRecovery =
  rcv_outcome :: JournalOutcome
  rcv_discardedBytes :: nat
  rcv_recordsRecovered :: nat
  rcv_lastSequence :: Sequence
  rcv_detail :: string

definition emptyJournalRecovery :: JournalRecovery where
  "emptyJournalRecovery =
     \<lparr>rcv_outcome = Created, rcv_discardedBytes = 0, rcv_recordsRecovered = 0, rcv_lastSequence = 0,
      rcv_detail = []\<rparr>"

definition JournalRecovery_fatal :: "JournalRecovery \<Rightarrow> bool" where
  "JournalRecovery_fatal r \<longleftrightarrow>
     rcv_outcome r = Corrupted \<or> rcv_outcome r = NotAJournal
     \<or> rcv_outcome r = UnsupportedFormatVersion"

definition JournalRecovery_render :: "JournalRecovery \<Rightarrow> string" where
  "JournalRecovery_render r =
     (case rcv_outcome r of
        Created \<Rightarrow> ''created'' | Clean \<Rightarrow> ''clean'' | TruncatedTail \<Rightarrow> ''truncated-tail''
      | Corrupted \<Rightarrow> ''corrupted'' | NotAJournal \<Rightarrow> ''not-a-journal''
      | UnsupportedFormatVersion \<Rightarrow> ''unsupported-version'')
     @ '' records='' @ to_string (rcv_recordsRecovered r)
     @ '' last-sequence='' @ to_string (unat (rcv_lastSequence r))
     @ (if rcv_discardedBytes r > 0 then '' discarded-bytes='' @ to_string (rcv_discardedBytes r) else [])
     @ (if rcv_detail r \<noteq> [] then '' detail='' @ rcv_detail r else [])"

text \<open>How the loop over the records ended.\<close>

record ScanEnd =
  se_records :: "JournalRecord list"
  se_recovery :: JournalRecovery
  se_lastGood :: nat
  se_closed :: bool
  se_status :: status

definition failMidFile :: "JournalRecord list \<Rightarrow> JournalRecovery \<Rightarrow> nat \<Rightarrow> string \<Rightarrow> ScanEnd" where
  "failMidFile acc recovery offset detail =
     \<lparr>se_records = acc,
      se_recovery = recovery\<lparr>rcv_outcome := Corrupted, rcv_detail := detail\<rparr>,
      se_lastGood = offset, se_closed = True, se_status = Inl IntegrityFailure\<rparr>"

definition torn_recovery :: "JournalRecovery \<Rightarrow> nat \<Rightarrow> string \<Rightarrow> JournalRecovery" where
  "torn_recovery recovery discarded detail =
     recovery\<lparr>rcv_discardedBytes := discarded, rcv_outcome := TruncatedTail, rcv_detail := detail\<rparr>"

definition sequence_breaks :: "Sequence option \<Rightarrow> Sequence \<Rightarrow> bool" where
  "sequence_breaks expected sequence =
     (case expected of None \<Rightarrow> False
      | Some e \<Rightarrow> (case checkedAdd e 1 of None \<Rightarrow> True | Some n \<Rightarrow> sequence \<noteq> n))"

text \<open>One turn of the loop: how it ends the scan, or the record it accepts and the offset after it.\<close>

definition scan_record ::
  "nat \<Rightarrow> bytes \<Rightarrow> nat \<Rightarrow> Sequence option \<Rightarrow> JournalRecovery \<Rightarrow> JournalRecord list
     \<Rightarrow> ScanEnd + JournalRecord \<times> nat" where
  "scan_record maxRecordBytes file offset expected recovery acc =
     (let rest = drop offset file in
      if length rest < kJournalRecordHeaderBytes
      then Inl \<lparr>se_records = acc,
                se_recovery =
                  (if offset \<noteq> length file
                   then torn_recovery recovery (length file - offset)
                          ''torn record header at the end of the journal was discarded''
                   else recovery\<lparr>rcv_outcome := Clean\<rparr>),
                se_lastGood = offset, se_closed = False, se_status = Inr ()\<rparr>
      else
        (let payloadLength = unat (loadLe32 rest);
             rawType = loadLe32 (drop 4 rest);
             storedCrc = loadLe32 (drop 8 rest);
             sequence = loadLe64 (drop 12 rest);
             t = the (journalRecordType_cast rawType);
             payload = take payloadLength (drop kJournalRecordHeaderBytes rest)
         in
         if \<not> (payloadLength \<le> maxRecordBytes \<and> isKnownRecordType rawType \<and> sequence > 0)
         then Inl (failMidFile acc recovery offset
                (''record header at offset '' @ to_string offset @ '' is not a valid record''))
         else if payloadLength > 0 \<and> length (drop kJournalRecordHeaderBytes rest) < payloadLength
         then Inl \<lparr>se_records = acc,
                   se_recovery = torn_recovery recovery (length file - offset)
                     ''torn record payload at the end of the journal was discarded'',
                   se_lastGood = offset, se_closed = True, se_status = Inr ()\<rparr>
         else if recordChecksum t sequence payload \<noteq> storedCrc
         then Inl (failMidFile acc recovery offset
                (''record at offset '' @ to_string offset @ '' failed its checksum''))
         else if sequence_breaks expected sequence
         then Inl (failMidFile acc recovery offset
                (''record sequence '' @ to_string (unat sequence) @ '' does not follow ''
                 @ to_string (unat (the expected))))
         else Inr (\<lparr>jr_type = t, jr_sequence = sequence, jr_payload = payload\<rparr>,
                   offset + kJournalRecordHeaderBytes + payloadLength)))"

lemma scan_record_advances:
  "scan_record m file offset expected recovery acc = Inr (r, next) \<Longrightarrow> offset < next \<and> offset < length file"
  by (auto simp: scan_record_def Let_def kJournalRecordHeaderBytes_def not_less split: if_splits)

function scan_loop ::
  "nat \<Rightarrow> bytes \<Rightarrow> nat \<Rightarrow> Sequence option \<Rightarrow> JournalRecovery \<Rightarrow> JournalRecord list \<Rightarrow> ScanEnd" where
  "scan_loop maxRecordBytes file offset expected recovery acc =
     (case scan_record maxRecordBytes file offset expected recovery acc of
        Inl finished \<Rightarrow> finished
      | Inr (r, next) \<Rightarrow>
          scan_loop maxRecordBytes file next (Some (jr_sequence r))
            (recovery\<lparr>rcv_recordsRecovered := Suc (rcv_recordsRecovered recovery),
                      rcv_lastSequence := jr_sequence r\<rparr>)
            (acc @ [r]))"
  by pat_completeness auto

termination
  by (relation "measure (\<lambda>(_, file, offset, _). length file - offset)")
    (auto dest: scan_record_advances)

declare scan_loop.simps [simp del]

text \<open>The whole scan; \<open>wanted\<close> says whether the caller passed a vector for the records.\<close>

definition scanInto ::
  "string \<Rightarrow> nat \<Rightarrow> bool \<Rightarrow> bool \<Rightarrow> (JournalRecord list \<times> JournalRecovery \<times> status) option io" where
  "scanInto path maxRecordBytes wanted truncateTornTail w =
     (let fresh = emptyJournalRecovery;
          not_a_journal = (\<lambda>detail code w. (Some ([], fresh\<lparr>rcv_outcome := NotAJournal, rcv_detail := detail\<rparr>, Inl code), w))
      in
      case w_disk w path of
        None \<Rightarrow> not_a_journal ''cannot open journal file'' OpenFailed w
      | Some file \<Rightarrow>
          (case os_call w of
             (False, w1) \<Rightarrow> not_a_journal ''cannot open journal file'' OpenFailed w1
           | (True, w1) \<Rightarrow>
          (case os_call w1 of
             (False, w2) \<Rightarrow> not_a_journal [] IoFailure w2
           | (True, w2) \<Rightarrow>
          if length file < kJournalHeaderBytes
          then not_a_journal ''journal header is incomplete'' TruncatedFrame w2
          else
          (case validateJournalHeader (take kJournalHeaderBytes file) of
             Inl code \<Rightarrow>
               (Some ([], fresh\<lparr>rcv_outcome :=
                  (if code = UnsupportedVersion then UnsupportedFormatVersion else NotAJournal),
                  rcv_detail := errorCodeName code\<rparr>, Inl code), w2)
           | Inr _ \<Rightarrow>
               (let e = scan_loop maxRecordBytes file kJournalHeaderBytes None fresh [] in
                case se_status e of
                  Inl code \<Rightarrow> (Some (se_records e, se_recovery e, Inl code), w2)
                | Inr _ \<Rightarrow>
                    if se_closed e then (None, w2)
                    else if wanted \<and> \<not> list_all (\<lambda>r. isKnownRecordType (journalRecordTypeValue (jr_type r)))
                                       (se_records e)
                    then (Some (se_records e,
                                (se_recovery e)\<lparr>rcv_outcome := UnsupportedFormatVersion,
                                  rcv_detail := ''journal contains a record type this build does not understand''\<rparr>,
                                Inl UnsupportedVersion), w2)
                    else if truncateTornTail \<and> rcv_outcome (se_recovery e) = TruncatedTail
                    then
                      (case os_change (TruncateTo path (se_lastGood e)) w2 of
                         (False, w3) \<Rightarrow>
                           (Some (se_records e,
                                  (se_recovery e)\<lparr>rcv_outcome := Corrupted,
                                    rcv_detail := ''cannot truncate a torn tail from the journal: ''\<rparr>,
                                  Inl IoFailure), w3)
                       | (True, w3) \<Rightarrow> (Some (se_records e, se_recovery e, Inr ()), w3))
                    else (Some (se_records e, se_recovery e, Inr ()), w2))))))"

definition readFile :: "string \<Rightarrow> (JournalRecord list result \<times> JournalRecovery) option io" where
  "readFile path w =
     (case scanInto path kMaxJournalRecordBytes True False w of
        (None, w') \<Rightarrow> (None, w')
      | (Some (records, recovery, st), w') \<Rightarrow>
          (Some (cf_try st (\<lambda>_. Inr records), recovery), w'))"

subsection \<open>The open journal\<close>

record Journal =
  jn_path :: string
  jn_maxRecordBytes :: nat
  jn_durable :: bool
  jn_lastSequence :: Sequence
  jn_recordCount :: nat

definition rewriteHeader :: "string \<Rightarrow> status io" where
  "rewriteHeader path =
     io_or_fail os_call IoFailure
     (io_or_fail (fwrite_at path 0 journalHeaderBytes) IoFailure
     (io_return (Inr ())))"

definition writeRecord :: "string \<Rightarrow> bool \<Rightarrow> JournalRecordType \<Rightarrow> bytes \<Rightarrow> Sequence \<Rightarrow> status io" where
  "writeRecord path durable t payload sequence =
     (let flush = (if durable then flushFileToDisk
                   else io_or_fail os_call IoFailure (io_return (Inr ())))
      in
      io_or_fail (fwrite_end path (record_header t payload sequence)) IoFailure
      (if payload = [] then flush
       else io_or_fail (fwrite_end path payload) IoFailure flush))"

definition Journal_append :: "Journal \<Rightarrow> JournalRecordType \<Rightarrow> bytes \<Rightarrow> (status \<times> Journal) io" where
  "Journal_append j t payload w =
     (if \<not> isKnownRecordType (journalRecordTypeValue t) then ((Inl InvalidArgument, j), w)
      else if length payload > jn_maxRecordBytes j then ((Inl OversizePayload, j), w)
      else
        (case checkedAdd (jn_lastSequence j) 1 of
           None \<Rightarrow> ((Inl ArithmeticOverflow, j), w)
         | Some sequence \<Rightarrow>
             (case writeRecord (jn_path j) (jn_durable j) t payload sequence w of
                (Inl e, w') \<Rightarrow> ((Inl e, j), w')
              | (Inr _, w') \<Rightarrow>
                  ((Inr (), j\<lparr>jn_lastSequence := sequence, jn_recordCount := Suc (jn_recordCount j)\<rparr>), w'))))"

definition restartSegment :: "Journal \<Rightarrow> Sequence \<Rightarrow> (status \<times> Journal) io" where
  "restartSegment j base w =
     (if base = 0 then ((Inl InvalidArgument, j), w)
      else
        (let path = jn_path j;
             body =
               io_or_fail os_call IoFailure
               (io_try (rewriteHeader path) (\<lambda>_.
                io_or_fail os_call IoFailure
               (io_or_fail os_call IoFailure
               (io_or_fail (os_change (TruncateTo path kJournalHeaderBytes)) IoFailure
               (io_or_fail os_call IoFailure
               (writeRecord path (jn_durable j) SegmentStart (storeLe64 base) base))))))
         in
         case body w of
           (Inl e, w') \<Rightarrow> ((Inl e, j), w')
         | (Inr _, w') \<Rightarrow> ((Inr (), j\<lparr>jn_lastSequence := base, jn_recordCount := 1\<rparr>), w')))"

definition Journal_open ::
  "string \<Rightarrow> nat \<Rightarrow> bool \<Rightarrow> (Journal result \<times> JournalRecovery) option io" where
  "Journal_open path maxRecordBytes durable w =
     (let j = \<lparr>jn_path = path, jn_maxRecordBytes = maxRecordBytes, jn_durable = durable,
               jn_lastSequence = 0, jn_recordCount = 0\<rparr>;
          fresh = emptyJournalRecovery
      in
      if path = [] then (Some (Inl InvalidArgument, fresh), w)
      else if maxRecordBytes = 0 \<or> maxRecordBytes > kMaxJournalRecordBytes
      then (Some (Inl InvalidArgument, fresh), w)
      else
        (case w_disk w path of
           None \<Rightarrow>
             (case io_or_fail os_call OpenFailed
                   (io_or_fail (os_change (CreateFile path)) OpenFailed
                   (io_or_fail (fwrite_at path 0 journalHeaderBytes) IoFailure flushFileToDisk)) w of
                (Inl e, w1) \<Rightarrow> (Some (Inl e, fresh), w1)
              | (Inr _, w1) \<Rightarrow>
                  (case restartSegment j 1 w1 of
                     ((Inl e, _), w2) \<Rightarrow> (Some (Inl e, fresh), w2)
                   | ((Inr _, j'), w2) \<Rightarrow>
                       (Some (Inr j', fresh\<lparr>rcv_lastSequence := 1, rcv_recordsRecovered := 1\<rparr>), w2)))
         | Some _ \<Rightarrow>
             (case scanInto path maxRecordBytes False True w of
                (None, w1) \<Rightarrow> (None, w1)
              | (Some (_, recovery, Inl _), w1) \<Rightarrow>
                  (Some (Inl (if JournalRecovery_fatal recovery then IntegrityFailure else IoFailure),
                         recovery), w1)
              | (Some (_, recovery, Inr _), w1) \<Rightarrow>
                  (case io_or_fail os_call OpenFailed
                        (io_or_fail os_call IoFailure (io_return (Inr ()))) w1 of
                     (Inl e, w2) \<Rightarrow> (Some (Inl e, recovery), w2)
                   | (Inr _, w2) \<Rightarrow>
                       (Some (Inr (j\<lparr>jn_lastSequence := rcv_lastSequence recovery,
                                     jn_recordCount := rcv_recordsRecovered recovery\<rparr>), recovery), w2)))))"

definition Journal_sizeBytes :: "Journal \<Rightarrow> world \<Rightarrow> nat" where
  "Journal_sizeBytes j w = file_size (jn_path j) w"

subsection \<open>Snapshots\<close>

definition slotPath :: "string \<Rightarrow> char \<Rightarrow> string" where
  "slotPath path slot = path @ ''.'' @ [slot]"

record Loaded =
  ld_coveredSequence :: Sequence
  ld_payload :: bytes
  ld_slot :: char

definition snapshot_prefix :: "Sequence \<Rightarrow> bytes \<Rightarrow> bytes" where
  "snapshot_prefix covered payload =
     storeLe32 kSnapshotMagic @ storeLe16 kSnapshotFormatVersion @ storeLe16 0 @ storeLe64 covered
     @ storeLe32 (of_nat (length payload)) @ storeLe32 (if payload = [] then 0 else crc32c payload)"

definition snapshot_bytes :: "Sequence \<Rightarrow> bytes \<Rightarrow> bytes" where
  "snapshot_bytes covered payload =
     snapshot_prefix covered payload @ storeLe32 (crc32c (snapshot_prefix covered payload)) @ payload"

text \<open>The checks on one slot: the note for the report, or what the slot holds.\<close>

definition check_slot :: "nat \<Rightarrow> bytes \<Rightarrow> string + Sequence \<times> bytes" where
  "check_slot maxBytes bs =
     (if length bs < kSnapshotHeaderBytes then Inl ''=short''
      else if loadLe32 bs \<noteq> kSnapshotMagic then Inl ''=magic''
      else if loadLe16 (drop 4 bs) \<noteq> kSnapshotFormatVersion then Inl ''=version''
      else if crc32c (take (kSnapshotHeaderBytes - 4) bs) \<noteq> loadLe32 (drop (kSnapshotHeaderBytes - 4) bs)
      then Inl ''=header-crc''
      else if unat (loadLe32 (drop 16 bs)) > maxBytes then Inl ''=oversize''
      else if length bs \<noteq> kSnapshotHeaderBytes + unat (loadLe32 (drop 16 bs)) then Inl ''=length''
      else if crc32c (drop kSnapshotHeaderBytes bs) \<noteq> loadLe32 (drop 20 bs) then Inl ''=payload-crc''
      else Inr (loadLe64 (drop 8 bs), drop kSnapshotHeaderBytes bs))"

definition load_slot ::
  "string \<Rightarrow> nat \<Rightarrow> char \<Rightarrow> Loaded option \<times> string \<Rightarrow> (Loaded option \<times> string) io" where
  "load_slot path maxBytes slot best_notes w =
     (case best_notes of (best, notes) \<Rightarrow>
      case readFileBounded (slotPath path slot) (maxBytes + kSnapshotHeaderBytes) w of
        (Inl _, w') \<Rightarrow> ((best, notes), w')
      | (Inr bs, w') \<Rightarrow>
          (case check_slot maxBytes bs of
             Inl why \<Rightarrow> ((best, notes @ '' slot '' @ [slot] @ why), w')
           | Inr (covered, payload) \<Rightarrow>
               ((if best = None \<or> covered > ld_coveredSequence (the best)
                 then Some \<lparr>ld_coveredSequence = covered, ld_payload = payload, ld_slot = slot\<rparr>
                 else best, notes), w')))"

definition SnapshotFile_load :: "string \<Rightarrow> nat \<Rightarrow> (Loaded result \<times> string) io" where
  "SnapshotFile_load path maxBytes w =
     (case load_slot path maxBytes CHR ''a'' (None, []) w of (r, w1) \<Rightarrow>
      case load_slot path maxBytes CHR ''b'' r w1 of ((best, notes), w2) \<Rightarrow>
        (((case best of None \<Rightarrow> Inl NotFound | Some l \<Rightarrow> Inr l), notes), w2))"

definition SnapshotFile_write :: "string \<Rightarrow> nat \<Rightarrow> Sequence \<Rightarrow> bytes \<Rightarrow> char result io" where
  "SnapshotFile_write path maxBytes covered payload w =
     (if path = [] then (Inl InvalidArgument, w)
      else if length payload > maxBytes then (Inl OversizePayload, w)
      else
        (case SnapshotFile_load path maxBytes w of ((current, _), w1) \<Rightarrow>
         let target = (case current of Inr l \<Rightarrow> if ld_slot l = CHR ''a'' then CHR ''b'' else CHR ''a''
                       | Inl _ \<Rightarrow> CHR ''a'')
         in case writeFileAtomic (slotPath path target) (snapshot_bytes covered payload) w1 of
              (Inl e, w2) \<Rightarrow> (Inl e, w2)
            | (Inr _, w2) \<Rightarrow> (Inr target, w2)))"

subsection \<open>Fields of a record\<close>

lemma journalRecordTypes_complete: "t \<in> set allJournalRecordTypes"
  by (cases t) (simp_all add: allJournalRecordTypes_def)

lemma distinct_journalRecordTypeValues: "distinct (map journalRecordTypeValue allJournalRecordTypes)"
  by code_simp

lemma journalRecordType_cast_value [simp]:
  "journalRecordType_cast (journalRecordTypeValue t) = Some t"
proof -
  obtain u where u: "List.find (\<lambda>u. journalRecordTypeValue u = journalRecordTypeValue t)
      allJournalRecordTypes = Some u"
    using journalRecordTypes_complete [of t]
    by (cases "List.find (\<lambda>u. journalRecordTypeValue u = journalRecordTypeValue t) allJournalRecordTypes")
      (auto simp: find_None_iff)
  then have "journalRecordTypeValue u = journalRecordTypeValue t" by (auto dest: find_eq_Some_iff_mem)
  then have "u = t"
    using distinct_journalRecordTypeValues journalRecordTypes_complete
    by (auto simp: distinct_map dest: inj_onD)
  with u show ?thesis by (simp add: journalRecordType_cast_def)
qed

lemma journalRecordType_cast_Some:
  "journalRecordType_cast raw = Some t \<Longrightarrow> journalRecordTypeValue t = raw"
  by (auto simp: journalRecordType_cast_def dest: find_eq_Some_iff_mem)

lemma isKnownRecordType_value [simp]: "isKnownRecordType (journalRecordTypeValue t) \<longleftrightarrow> t \<noteq> Invalid"
  by (simp add: isKnownRecordType_def)

lemma length_storeLe64 [simp]: "length (storeLe64 v) = 8"
  by (simp add: storeLe64_def)

lemma loadLe64_store [simp]: "loadLe64 (storeLe64 v @ rest) = v" "loadLe64 (storeLe64 v) = v"
  by (simp_all add: loadLe64_def storeLe64_def le_load_store)

lemma length_record_header [simp]: "length (record_header t payload s) = 20"
  by (simp add: record_header_def)

lemma record_header_nonempty [simp]: "record_header t payload s \<noteq> []"
  by (simp flip: length_greater_0_conv)

lemma length_journalHeaderBytes [simp]: "length journalHeaderBytes = 12"
  by (simp add: journalHeaderBytes_def Let_def)

lemma validate_own_header: "validateJournalHeader journalHeaderBytes = Inr ()"
  by (simp add: validateJournalHeader_def journalHeaderBytes_def Let_def kJournalHeaderBytes_def)

definition record_bytes :: "JournalRecord \<Rightarrow> bytes" where
  "record_bytes r = record_header (jr_type r) (jr_payload r) (jr_sequence r) @ jr_payload r"

definition records_bytes :: "JournalRecord list \<Rightarrow> bytes" where
  "records_bytes rs = concat (map record_bytes rs)"

definition journal_file :: "JournalRecord list \<Rightarrow> bytes" where
  "journal_file rs = journalHeaderBytes @ records_bytes rs"

lemma length_record_bytes [simp]: "length (record_bytes r) = 20 + length (jr_payload r)"
  by (simp add: record_bytes_def)

lemma records_bytes_simps [simp]:
  "records_bytes [] = []" "records_bytes (r # rs) = record_bytes r @ records_bytes rs"
  "records_bytes (rs @ qs) = records_bytes rs @ records_bytes qs"
  by (simp_all add: records_bytes_def)

text \<open>Records a journal may hold: known types, set sequences, bounded payloads, no gap.\<close>

definition record_ok :: "nat \<Rightarrow> JournalRecord \<Rightarrow> bool" where
  "record_ok m r \<longleftrightarrow> jr_type r \<noteq> Invalid \<and> jr_sequence r > 0 \<and> length (jr_payload r) \<le> m"

fun consecutive :: "Sequence option \<Rightarrow> JournalRecord list \<Rightarrow> bool" where
  "consecutive e [] \<longleftrightarrow> True"
| "consecutive e (r # rs) \<longleftrightarrow> \<not> sequence_breaks e (jr_sequence r) \<and> consecutive (Some (jr_sequence r)) rs"

definition last_sequence :: "Sequence option \<Rightarrow> JournalRecord list \<Rightarrow> Sequence option" where
  "last_sequence e rs = (if rs = [] then e else Some (jr_sequence (last rs)))"

definition recovered :: "JournalRecovery \<Rightarrow> JournalRecord list \<Rightarrow> JournalRecovery" where
  "recovered rcv rs =
     rcv\<lparr>rcv_recordsRecovered := rcv_recordsRecovered rcv + length rs,
         rcv_lastSequence := (if rs = [] then rcv_lastSequence rcv else jr_sequence (last rs))\<rparr>"

lemma consecutive_append:
  "consecutive e (rs @ qs) \<longleftrightarrow> consecutive e rs \<and> consecutive (last_sequence e rs) qs"
  by (induction rs arbitrary: e) (auto simp: last_sequence_def)

subsection \<open>The scan reads back what was written\<close>

lemma record_fields:
  assumes "rest = record_bytes r @ tail"
  shows "loadLe32 rest = of_nat (length (jr_payload r))"
    and "loadLe32 (drop 4 rest) = journalRecordTypeValue (jr_type r)"
    and "loadLe32 (drop 8 rest) = recordChecksum (jr_type r) (jr_sequence r) (jr_payload r)"
    and "loadLe64 (drop 12 rest) = jr_sequence r"
    and "drop 20 rest = jr_payload r @ tail"
  using assms by (simp_all add: record_bytes_def record_header_def)

lemma unat_record_length:
  "record_ok m r \<Longrightarrow> m \<le> kMaxJournalRecordBytes \<Longrightarrow>
     unat (of_nat (length (jr_payload r)) :: u32) = length (jr_payload r)"
  by (simp add: record_ok_def kMaxJournalRecordBytes_def unat_of_nat)

lemma scan_record_next:
  assumes "drop offset file = record_bytes r @ rest" and "record_ok m r"
    and "m \<le> kMaxJournalRecordBytes" and "\<not> sequence_breaks e (jr_sequence r)"
  shows "scan_record m file offset e rcv acc = Inr (r, offset + length (record_bytes r))"
proof -
  have "unat (loadLe32 (drop offset file)) = length (jr_payload r)"
    using record_fields(1) [OF assms(1)] unat_record_length [OF assms(2,3)] by simp
  then show ?thesis
    using assms(2,4) record_fields(2-5) [OF assms(1)] assms(1)
    by (simp add: scan_record_def Let_def kJournalRecordHeaderBytes_def record_ok_def)
qed

lemma scan_loop_records:
  assumes "drop offset file = records_bytes rs @ tail" and "list_all (record_ok m) rs"
    and "m \<le> kMaxJournalRecordBytes" and "consecutive e rs" and "offset \<le> length file"
  shows "scan_loop m file offset e rcv acc =
    scan_loop m file (offset + length (records_bytes rs)) (last_sequence e rs) (recovered rcv rs) (acc @ rs)"
  using assms
proof (induction rs arbitrary: offset e rcv acc)
  case Nil
  then show ?case by (simp add: last_sequence_def recovered_def)
next
  case (Cons r rs)
  let ?o = "offset + length (record_bytes r)"
  have d: "drop offset file = record_bytes r @ records_bytes rs @ tail" using Cons.prems(1) by simp
  then have "drop ?o file = records_bytes rs @ tail"
    by (metis drop_drop add.commute drop_length_append)
  moreover have "?o \<le> length file"
    using arg_cong [OF d, of length] Cons.prems(5) by simp
  ultimately have ih: "scan_loop m file ?o (Some (jr_sequence r)) rcv' acc' =
      scan_loop m file (?o + length (records_bytes rs)) (last_sequence (Some (jr_sequence r)) rs)
        (recovered rcv' rs) (acc' @ rs)" for rcv' acc'
    using Cons.IH Cons.prems(2-4) by simp
  have "scan_record m file offset e rcv acc = Inr (r, ?o)"
    using scan_record_next [OF d] Cons.prems(2-4) by simp
  then have "scan_loop m file offset e rcv acc =
      scan_loop m file ?o (Some (jr_sequence r)) (recovered rcv [r]) (acc @ [r])"
    by (subst scan_loop.simps) (simp add: recovered_def)
  also have "\<dots> = scan_loop m file (?o + length (records_bytes rs))
      (last_sequence (Some (jr_sequence r)) rs) (recovered (recovered rcv [r]) rs) ((acc @ [r]) @ rs)"
    by (rule ih)
  finally show ?case by (simp add: last_sequence_def recovered_def add.assoc)
qed

lemma scan_end_clean:
  "scan_loop m file (length file) e rcv acc =
     \<lparr>se_records = acc, se_recovery = rcv\<lparr>rcv_outcome := Clean\<rparr>, se_lastGood = length file,
      se_closed = False, se_status = Inr ()\<rparr>"
  by (subst scan_loop.simps) (simp add: scan_record_def kJournalRecordHeaderBytes_def)

lemma scan_end_torn_header:
  assumes "0 < length (drop offset file)" and "length (drop offset file) < 20"
  shows "scan_loop m file offset e rcv acc =
    \<lparr>se_records = acc,
     se_recovery = torn_recovery rcv (length file - offset)
       ''torn record header at the end of the journal was discarded'',
     se_lastGood = offset, se_closed = False, se_status = Inr ()\<rparr>"
  using assms by (subst scan_loop.simps) (simp add: scan_record_def kJournalRecordHeaderBytes_def)

lemma scan_end_torn_payload:
  assumes "drop offset file = take k (record_bytes r)" and "record_ok m r"
    and "m \<le> kMaxJournalRecordBytes" and "20 \<le> k" and "k < length (record_bytes r)"
  shows "se_closed (scan_loop m file offset e rcv acc) \<and> se_status (scan_loop m file offset e rcv acc) = Inr ()"
proof -
  let ?rest = "drop offset file"
  have rest: "?rest = record_header (jr_type r) (jr_payload r) (jr_sequence r) @ take (k - 20) (jr_payload r)"
    using assms(1,4) by (simp add: record_bytes_def)
  have "loadLe32 ?rest = of_nat (length (jr_payload r))"
    and "loadLe32 (drop 4 ?rest) = journalRecordTypeValue (jr_type r)"
    and "loadLe64 (drop 12 ?rest) = jr_sequence r"
    and "drop 20 ?rest = take (k - 20) (jr_payload r)"
    unfolding rest by (simp_all add: record_header_def)
  moreover have "unat (of_nat (length (jr_payload r)) :: u32) = length (jr_payload r)"
    using assms(2,3) by (rule unat_record_length)
  moreover have "\<not> length ?rest < 20" and "0 < length (jr_payload r)"
    and "length (take (k - 20) (jr_payload r)) < length (jr_payload r)"
    unfolding rest using assms(4,5) by auto
  ultimately have "scan_record m file offset e rcv acc =
      Inl \<lparr>se_records = acc, se_recovery = torn_recovery rcv (length file - offset)
             ''torn record payload at the end of the journal was discarded'',
           se_lastGood = offset, se_closed = True, se_status = Inr ()\<rparr>"
    using assms(2) unfolding scan_record_def Let_def kJournalRecordHeaderBytes_def record_ok_def
    by (simp only: if_True if_False simp_thms isKnownRecordType_value not_False_eq_True)
  then show ?thesis by (subst (1 2) scan_loop.simps) simp
qed

subsection \<open>Scanning a file\<close>

definition journal_ok :: "nat \<Rightarrow> JournalRecord list \<Rightarrow> bool" where
  "journal_ok m rs \<longleftrightarrow>
     list_all (record_ok m) rs \<and> consecutive None rs \<and> m \<le> kMaxJournalRecordBytes"

lemma journal_file_simps:
  "length (journal_file rs) = 12 + length (records_bytes rs)"
  "take 12 (journal_file rs) = journalHeaderBytes"
  "drop 12 (journal_file rs) = records_bytes rs"
  "journal_file (rs @ qs) = journal_file rs @ records_bytes qs"
  by (simp_all add: journal_file_def)

lemma scan_loop_file:
  assumes "journal_ok m rs"
  shows "scan_loop m (journal_file rs @ tail) 12 None rcv [] =
    scan_loop m (journal_file rs @ tail) (length (journal_file rs)) (last_sequence None rs)
      (recovered rcv rs) rs"
  using assms scan_loop_records [of 12 "journal_file rs @ tail" rs tail m None rcv "[]"]
  by (simp add: journal_ok_def journal_file_simps)

lemma known_records: "journal_ok m rs \<Longrightarrow>
    list_all (\<lambda>r. isKnownRecordType (journalRecordTypeValue (jr_type r))) rs"
  by (auto simp: journal_ok_def record_ok_def list_all_iff)

lemmas scan_entry = scanInto_def Let_def kJournalHeaderBytes_def journal_file_simps validate_own_header

lemma scanInto_clean:
  assumes "quiet w" and "w_disk w path = Some (journal_file rs)" and "journal_ok m rs"
  shows "scanInto path m wanted trunc w =
    (Some (rs, (recovered emptyJournalRecovery rs)\<lparr>rcv_outcome := Clean\<rparr>, Inr ()), w)"
proof -
  have "scan_loop m (journal_file rs) 12 None emptyJournalRecovery [] =
      \<lparr>se_records = rs, se_recovery = (recovered emptyJournalRecovery rs)\<lparr>rcv_outcome := Clean\<rparr>,
       se_lastGood = length (journal_file rs), se_closed = False, se_status = Inr ()\<rparr>"
    using scan_loop_file [OF assms(3), of "[]"] by (simp add: scan_end_clean)
  then show ?thesis
    using assms(1,2) known_records [OF assms(3)]
    by (simp add: scan_entry os_quiet)
qed

lemma scanInto_torn_header:
  assumes "quiet w" and "w_disk w path = Some (journal_file rs @ torn)" and "journal_ok m rs"
    and "0 < length torn" and "length torn < 20"
  shows "scanInto path m wanted trunc w =
    (Some (rs, torn_recovery (recovered emptyJournalRecovery rs) (length torn)
             ''torn record header at the end of the journal was discarded'', Inr ()),
     if trunc then perform (TruncateTo path (length (journal_file rs))) w else w)"
proof -
  have "scan_loop m (journal_file rs @ torn) 12 None emptyJournalRecovery [] =
      \<lparr>se_records = rs,
       se_recovery = torn_recovery (recovered emptyJournalRecovery rs) (length torn)
         ''torn record header at the end of the journal was discarded'',
       se_lastGood = length (journal_file rs), se_closed = False, se_status = Inr ()\<rparr>"
    using scan_loop_file [OF assms(3), of torn] assms(4,5) by (simp add: scan_end_torn_header)
  then show ?thesis
    using assms(1,2) known_records [OF assms(3)]
    by (simp add: scan_entry os_quiet torn_recovery_def)
qed

lemma scanInto_torn_payload:
  assumes "quiet w" and "w_disk w path = Some (journal_file rs @ take k (record_bytes r))"
    and "journal_ok m rs" and "record_ok m r" and "20 \<le> k" and "k < length (record_bytes r)"
  shows "scanInto path m wanted trunc w = (None, w)"
proof -
  let ?file = "journal_file rs @ take k (record_bytes r)"
  have "se_closed (scan_loop m ?file 12 None emptyJournalRecovery [])
      \<and> se_status (scan_loop m ?file 12 None emptyJournalRecovery []) = Inr ()"
    unfolding scan_loop_file [OF assms(3)]
    using assms(3-6) by (intro scan_end_torn_payload [of _ _ k r]) (simp_all add: journal_ok_def)
  then show ?thesis using assms(1,2) by (simp add: scan_entry os_quiet)
qed

subsection \<open>Opening, appending, restarting\<close>

definition open_journal :: "string \<Rightarrow> nat \<Rightarrow> bool \<Rightarrow> JournalRecord list \<Rightarrow> Journal" where
  "open_journal path m durable rs =
     \<lparr>jn_path = path, jn_maxRecordBytes = m, jn_durable = durable,
      jn_lastSequence = (if rs = [] then 0 else jr_sequence (last rs)), jn_recordCount = length rs\<rparr>"

lemma Journal_open_clean:
  assumes "quiet w" and "w_disk w path = Some (journal_file rs)" and "journal_ok m rs"
    and "0 < m" and "path \<noteq> []"
  shows "Journal_open path m durable w =
    (Some (Inr (open_journal path m durable rs), (recovered emptyJournalRecovery rs)\<lparr>rcv_outcome := Clean\<rparr>), w)"
proof -
  have "\<not> kMaxJournalRecordBytes < m" using assms(3) by (simp add: journal_ok_def)
  then show ?thesis
    using assms scanInto_clean [OF assms(1-3)]
    by (simp add: Journal_open_def Let_def quiet_simps open_journal_def recovered_def
        emptyJournalRecovery_def)
qed

lemma Journal_open_torn_header:
  assumes "quiet w" and "w_disk w path = Some (journal_file rs @ torn)" and "journal_ok m rs"
    and "0 < m" and "path \<noteq> []" and "0 < length torn" and "length torn < 20"
  shows "Journal_open path m durable w =
    (Some (Inr (open_journal path m durable rs),
           torn_recovery (recovered emptyJournalRecovery rs) (length torn)
             ''torn record header at the end of the journal was discarded''),
     perform (TruncateTo path (length (journal_file rs))) w)"
proof -
  have "\<not> kMaxJournalRecordBytes < m" using assms(3) by (simp add: journal_ok_def)
  then show ?thesis
    using assms scanInto_torn_header [OF assms(1-3,6,7)]
    by (simp add: Journal_open_def Let_def quiet_simps open_journal_def recovered_def torn_recovery_def
        emptyJournalRecovery_def)
qed

lemma Journal_open_torn_payload:
  assumes "quiet w" and "w_disk w path = Some (journal_file rs @ take k (record_bytes r))"
    and "journal_ok m rs" and "record_ok m r" and "20 \<le> k" and "k < length (record_bytes r)"
    and "0 < m" and "path \<noteq> []"
  shows "Journal_open path m durable w = (None, w)"
proof -
  have "\<not> kMaxJournalRecordBytes < m" using assms(3) by (simp add: journal_ok_def)
  then show ?thesis
    using assms(2,7,8) scanInto_torn_payload [OF assms(1-6)]
    by (simp add: Journal_open_def Let_def)
qed

definition record_ops :: "string \<Rightarrow> nat \<Rightarrow> JournalRecord \<Rightarrow> DiskOp list" where
  "record_ops path at r =
     WriteAt path at (record_header (jr_type r) (jr_payload r) (jr_sequence r))
     # (if jr_payload r = [] then [] else [WriteAt path (at + 20) (jr_payload r)])"

lemma writeRecord_quiet:
  assumes "quiet w" and "w_disk w path = Some file"
  shows "writeRecord path durable t payload s w =
    (Inr (), after_ops (record_ops path (length file) \<lparr>jr_type = t, jr_sequence = s, jr_payload = payload\<rparr>) w)"
  using assms
  by (simp add: writeRecord_def record_ops_def Let_def quiet_simps file_size_def perform_after_ops
      after_ops_append)

lemma record_ops_result:
  "d path = Some file \<Longrightarrow>
     exec_ops (record_ops path (length file) r) d = d(path \<mapsto> file @ record_bytes r)"
  by (simp add: record_ops_def record_bytes_def fun_eq_iff)

lemma record_ops_files: "\<Union> (op_files ` set (record_ops path at r)) = {path}"
  by (simp add: record_ops_def)

text \<open>A crash while a record is appended leaves some prefix of it behind the previous contents.\<close>

lemma record_ops_crash:
  assumes "d path = Some file"
  obtains n where "n \<le> length (record_bytes r)"
    and "crash_disk i k (record_ops path (length file) r) d = d(path \<mapsto> file @ take n (record_bytes r))"
proof -
  let ?h = "record_header (jr_type r) (jr_payload r) (jr_sequence r)"
  let ?n = "case i of 0 \<Rightarrow> min k 20 | Suc 0 \<Rightarrow> 20 + min k (length (jr_payload r))
            | _ \<Rightarrow> length (record_bytes r)"
  have "take (min k 20) ?h = take k ?h"
    and "take (min k (length (jr_payload r))) (jr_payload r) = take k (jr_payload r)"
    by (simp_all add: min_def)
  then have "crash_disk i k (record_ops path (length file) r) d = d(path \<mapsto> file @ take ?n (record_bytes r))"
    using assms
    by (auto simp: record_ops_def record_bytes_def crash_disk_Cons fun_eq_iff split: nat.splits)
  moreover have "?n \<le> length (record_bytes r)" by (simp add: min_def split: nat.splits)
  ultimately show ?thesis using that by blast
qed

definition next_record :: "Journal \<Rightarrow> JournalRecordType \<Rightarrow> bytes \<Rightarrow> JournalRecord" where
  "next_record j t payload = \<lparr>jr_type = t, jr_sequence = jn_lastSequence j + 1, jr_payload = payload\<rparr>"

lemma checkedAdd_1:
  assumes "v \<noteq> - 1"
  shows "checkedAdd v 1 = Some (v + 1 :: u64)"
proof -
  have "unat v \<noteq> unat (- 1 :: u64)" using assms by (metis word_unat_eq_iff)
  then have "unat v + 1 < 2 ^ 64"
    using unsigned_less [of v, where 'a = nat] unat_max_word [where 'a = 64] by simp
  then show ?thesis by (simp add: checkedAdd_exact)
qed

lemma Journal_append_quiet:
  assumes "quiet w" and "w_disk w (jn_path j) = Some file" and "t \<noteq> Invalid"
    and "length payload \<le> jn_maxRecordBytes j" and "jn_lastSequence j \<noteq> - 1"
  shows "Journal_append j t payload w =
    ((Inr (), j\<lparr>jn_lastSequence := jn_lastSequence j + 1, jn_recordCount := Suc (jn_recordCount j)\<rparr>),
     after_ops (record_ops (jn_path j) (length file) (next_record j t payload)) w)"
proof -
  have "checkedAdd (jn_lastSequence j) 1 = Some (jn_lastSequence j + 1)"
    using assms(5) by (rule checkedAdd_1)
  then show ?thesis
    using assms(3,4) writeRecord_quiet [OF assms(1,2)]
    by (simp add: Journal_append_def next_record_def)
qed

definition segment_start :: "Sequence \<Rightarrow> JournalRecord" where
  "segment_start base = \<lparr>jr_type = SegmentStart, jr_sequence = base, jr_payload = storeLe64 base\<rparr>"

definition restart_ops :: "string \<Rightarrow> Sequence \<Rightarrow> DiskOp list" where
  "restart_ops path base =
     WriteAt path 0 journalHeaderBytes # TruncateTo path 12 # record_ops path 12 (segment_start base)"

lemma restartSegment_quiet:
  assumes "quiet w" and "w_disk w (jn_path j) = Some (journal_file rs)" and "base \<noteq> 0"
  shows "restartSegment j base w =
    ((Inr (), j\<lparr>jn_lastSequence := base, jn_recordCount := 1\<rparr>), after_ops (restart_ops (jn_path j) base) w)"
proof -
  let ?w = "after_ops [WriteAt (jn_path j) 0 journalHeaderBytes, TruncateTo (jn_path j) 12] w"
  have "w_disk ?w (jn_path j) = Some journalHeaderBytes"
    using assms(2) by (simp add: journal_file_def)
  then have "writeRecord (jn_path j) (jn_durable j) SegmentStart (storeLe64 base) base ?w =
      (Inr (), after_ops (record_ops (jn_path j) 12 (segment_start base)) ?w)"
    using writeRecord_quiet [of ?w] assms(1) by (simp add: segment_start_def)
  then show ?thesis
    using assms(1,3)
    by (simp add: restartSegment_def Let_def rewriteHeader_def io_try_def quiet_simps
        kJournalHeaderBytes_def perform_after_ops after_ops_append restart_ops_def)
qed

lemma exec_header_rewrite:
  "d path = Some (journal_file rs) \<Longrightarrow> exec_op (WriteAt path 0 (take k journalHeaderBytes)) d = d"
  "d path = Some (journal_file rs) \<Longrightarrow> exec_op (WriteAt path 0 journalHeaderBytes) d = d"
proof -
  have "take k journalHeaderBytes @ drop (length (take k journalHeaderBytes)) (journal_file rs) = journal_file rs"
    by (cases "k \<le> 12") (simp_all add: journal_file_def append_assoc [symmetric] del: append_assoc)
  then show "d path = Some (journal_file rs) \<Longrightarrow> exec_op (WriteAt path 0 (take k journalHeaderBytes)) d = d"
    by (simp add: fun_upd_idem)
  show "d path = Some (journal_file rs) \<Longrightarrow> exec_op (WriteAt path 0 journalHeaderBytes) d = d"
    by (simp add: fun_upd_idem journal_file_def)
qed

lemma exec_truncate_segment:
  "d path = Some (journal_file rs) \<Longrightarrow> exec_op (TruncateTo path 12) d = d(path \<mapsto> journal_file [])"
  by (simp add: journal_file_def)

lemma restart_ops_result:
  assumes "d path = Some (journal_file rs)"
  shows "exec_ops (restart_ops path base) d = d(path \<mapsto> journal_file [segment_start base])"
proof -
  let ?d = "d(path \<mapsto> journal_file [])"
  have "exec_ops (restart_ops path base) d = exec_ops (record_ops path 12 (segment_start base)) ?d"
    unfolding restart_ops_def exec_ops_simps exec_header_rewrite(2) [of d path rs, OF assms]
      exec_truncate_segment [of d path rs, OF assms] ..
  also have "\<dots> = ?d(path \<mapsto> journal_file [] @ record_bytes (segment_start base))"
    using record_ops_result [of ?d path "journal_file []"] by (simp add: journal_file_simps(1))
  finally show ?thesis by (simp add: journal_file_def)
qed

lemma restart_ops_files: "\<Union> (op_files ` set (restart_ops path base)) = {path}"
  by (simp add: restart_ops_def record_ops_files)

text \<open>
  A crash while the segment is restarted leaves the old journal, or a header with some prefix of
  the new first record.
\<close>

lemma restart_ops_crash:
  assumes "d path = Some (journal_file rs)"
  shows "crash_disk i k (restart_ops path base) d = d
    \<or> (\<exists>n \<le> 28. crash_disk i k (restart_ops path base) d =
          d(path \<mapsto> journal_file [] @ take n (record_bytes (segment_start base))))"
proof -
  let ?d = "d(path \<mapsto> journal_file [])"
  consider "i = 0" | "i = 1" | m where "i = Suc (Suc m)" by (metis One_nat_def old.nat.exhaust)
  then show ?thesis
  proof cases
    case 1
    then show ?thesis by (simp add: restart_ops_def crash_disk_0 exec_header_rewrite(1) [of d path rs, OF assms] del: exec_op.simps)
  next
    case 2
    then show ?thesis
      by (simp add: restart_ops_def crash_disk_0 exec_header_rewrite(2) [of d path rs, OF assms] del: exec_op.simps)
  next
    case 3
    obtain n where n: "n \<le> length (record_bytes (segment_start base))"
      and c: "crash_disk m k (record_ops path (length (journal_file [])) (segment_start base)) ?d =
        ?d(path \<mapsto> journal_file [] @ take n (record_bytes (segment_start base)))"
      by (rule record_ops_crash [of ?d path "journal_file []" "segment_start base" m k]) simp_all
    have "crash_disk i k (restart_ops path base) d =
        crash_disk m k (record_ops path 12 (segment_start base)) ?d"
      unfolding 3 restart_ops_def crash_disk_Suc exec_header_rewrite(2) [of d path rs, OF assms]
        exec_truncate_segment [of d path rs, OF assms] ..
    with c n show ?thesis by (auto simp: journal_file_simps(1) segment_start_def)
  qed
qed

subsection \<open>Snapshots are read back\<close>

lemma length_snapshot_prefix [simp]: "length (snapshot_prefix c p) = 24"
  by (simp add: snapshot_prefix_def)

lemma crc32c_Nil: "crc32c [] = 0"
  by (simp add: crc32c_def crc32cUpdate_def)

lemma check_slot_bytes:
  assumes "length payload \<le> m" and "m < 2 ^ 32"
  shows "check_slot m (snapshot_bytes covered payload) = Inr (covered, payload)"
proof -
  have "unat (of_nat (length payload) :: u32) = length payload"
    using assms by (simp add: unat_of_nat)
  moreover have "(if payload = [] then 0 else crc32c payload) = crc32c payload"
    by (simp add: crc32c_Nil)
  ultimately show ?thesis
    using assms(1)
    by (simp add: check_slot_def snapshot_bytes_def snapshot_prefix_def kSnapshotHeaderBytes_def)
qed

lemma append_record_ok:
  assumes "journal_ok m rs" and "rs \<noteq> []" and "jr_type r \<noteq> Invalid" and "length (jr_payload r) \<le> m"
    and "jr_sequence r = jr_sequence (last rs) + 1" and "jr_sequence (last rs) \<noteq> - 1"
  shows "journal_ok m (rs @ [r])"
proof -
  have c: "checkedAdd (jr_sequence (last rs)) 1 = Some (jr_sequence r)"
    using assms(5,6) by (simp add: checkedAdd_1)
  then have "jr_sequence r > 0"
    using checkedAdd_Some [OF c] by (simp add: word_less_nat_alt)
  then show ?thesis
    using assms(1-4) c
    by (simp add: journal_ok_def record_ok_def consecutive_append last_sequence_def sequence_breaks_def)
qed

subsection \<open>Damaged records\<close>

text \<open>A record as raw fields: length, type, checksum, sequence, payload.\<close>

lemma recordChecksum_raw:
  assumes "length ty = 4" and "length sq = 8" and "isKnownRecordType (loadLe32 ty)"
  shows "recordChecksum (the (journalRecordType_cast (loadLe32 ty))) (loadLe64 sq) pl =
    crc32c (ty @ sq @ pl) XOR 0xFFFFFFFF"
proof -
  obtain t where "journalRecordType_cast (loadLe32 ty) = Some t"
    using assms(3) by (auto simp: isKnownRecordType_def split: option.splits)
  moreover from this have "storeLe32 (journalRecordTypeValue t) = ty"
    using assms(1) le_store_load_length [of ty 4, where 'a = 32]
    by (simp add: journalRecordType_cast_Some storeLe32_def loadLe32_le_load)
  moreover have "storeLe64 (loadLe64 sq) = sq"
    using assms(2) le_store_load_length [of sq 8, where 'a = 64] by (simp add: storeLe64_def loadLe64_def)
  ultimately show ?thesis
    by (simp add: recordChecksum_def Crc32c_update_def Crc32c_init_def crc32c_def crc32cUpdate_def
        xor.assoc)
qed

lemma raw_fields:
  assumes "rest = storeLe32 n @ ty @ ck @ sq @ pl @ tail"
    and "length ty = 4" and "length ck = 4" and "length sq = 8"
  shows "loadLe32 rest = n" and "loadLe32 (drop 4 rest) = loadLe32 ty"
    and "loadLe32 (drop 8 rest) = loadLe32 ck" and "loadLe64 (drop 12 rest) = loadLe64 sq"
    and "drop 20 rest = pl @ tail"
  using assms by (simp_all add: loadLe32_le_load loadLe64_def)

definition is_corruption :: "ScanEnd \<Rightarrow> bool" where
  "is_corruption e \<longleftrightarrow>
     se_status e = Inl IntegrityFailure \<and> rcv_outcome (se_recovery e) = Corrupted"

lemma failMidFile_corruption [simp]: "is_corruption (failMidFile acc rcv offset detail)"
  by (simp add: is_corruption_def failMidFile_def)

lemma scan_record_mismatch:
  assumes "drop offset file = storeLe32 (of_nat (length pl)) @ ty @ ck @ sq @ pl @ tail"
    and "length ty = 4" and "length ck = 4" and "length sq = 8"
    and "length pl \<le> kMaxJournalRecordBytes"
    and "crc32c (ty @ sq @ pl) XOR 0xFFFFFFFF \<noteq> loadLe32 ck"
  shows "\<exists>e. scan_record m file offset ex rcv acc = Inl e \<and> is_corruption e"
proof -
  note f = raw_fields [OF assms(1-4)]
  have n: "unat (of_nat (length pl) :: u32) = length pl"
    using assms(5) by (simp add: kMaxJournalRecordBytes_def unat_of_nat)
  have long: "\<not> length (drop offset file) < 20" unfolding assms(1) using assms(2-4) by simp
  show ?thesis
  proof (cases "length pl \<le> m \<and> isKnownRecordType (loadLe32 ty) \<and> loadLe64 sq > 0")
    case True
    then have "recordChecksum (the (journalRecordType_cast (loadLe32 ty))) (loadLe64 sq) pl \<noteq> loadLe32 ck"
      using recordChecksum_raw [OF assms(2,4)] assms(6) by simp
    moreover have "take (length pl) (pl @ tail) = pl" and "\<not> length (pl @ tail) < length pl" by simp_all
    ultimately show ?thesis
      unfolding scan_record_def Let_def kJournalRecordHeaderBytes_def f n
      using True long by (simp del: length_drop drop_drop)
  next
    case False
    then show ?thesis
      unfolding scan_record_def Let_def kJournalRecordHeaderBytes_def f n
      using long by (simp del: length_drop drop_drop)
  qed
qed

text \<open>Changing one byte of the type, sequence, payload or checksum breaks the checksum.\<close>

lemma one_byte_mismatch:
  assumes "length ty = 4" and "length ck = 4" and "length sq = 8"
    and "crc32c (ty @ sq @ pl) XOR 0xFFFFFFFF = loadLe32 ck"
    and "i < 16 + length pl" and "b \<noteq> (ty @ ck @ sq @ pl) ! i"
  obtains ty' ck' sq' pl' where "(ty @ ck @ sq @ pl)[i := b] = ty' @ ck' @ sq' @ pl'"
    and "length ty' = 4" and "length ck' = 4" and "length sq' = 8" and "length pl' = length pl"
    and "crc32c (ty' @ sq' @ pl') XOR 0xFFFFFFFF \<noteq> loadLe32 ck'"
proof (cases "4 \<le> i \<and> i < 8")
  case True
  then obtain j where j: "i = 4 + j" "j < 4" by (metis add.commute le_iff_add add_less_cancel_left numeral_Bit0)
  let ?ck = "ck[j := b]"
  have "(ty @ ck @ sq @ pl)[i := b] = ty @ ?ck @ sq @ pl"
    using j assms(1,2) by (simp add: list_update_append)
  moreover have "loadLe32 ?ck \<noteq> loadLe32 ck"
  proof
    assume "loadLe32 ?ck = loadLe32 ck"
    then have "?ck = ck"
      using assms(2) le_load_inj [of ?ck ck, where 'a = 32] by (simp add: loadLe32_le_load)
    moreover have "ck ! j \<noteq> b" using j assms(1,2,6) by (simp add: nth_append)
    moreover have "?ck ! j = b" using j assms(2) by simp
    ultimately show False by simp
  qed
  ultimately show ?thesis using that [of ty ?ck sq pl] assms(1-4) by simp
next
  case False
  let ?q = "if i < 4 then i else i - 4"
  have q: "?q < length (ty @ sq @ pl)" and v: "b \<noteq> (ty @ sq @ pl) ! ?q"
    using False assms(1-3,5,6) by (auto simp: nth_append)
  have "crc32c ((ty @ sq @ pl)[?q := b]) \<noteq> crc32c (ty @ sq @ pl)"
    using crc32c_one_byte_change [of b "(ty @ sq @ pl) ! ?q" "take ?q (ty @ sq @ pl)" "drop (Suc ?q) (ty @ sq @ pl)"] v
    unfolding upd_conv_take_nth_drop [OF q] id_take_nth_drop [OF q, symmetric] by blast
  then have ne: "crc32c ((ty @ sq @ pl)[?q := b]) XOR 0xFFFFFFFF \<noteq> loadLe32 ck"
    using assms(4) by (metis xor_right_cancel_iff)
  have split: "i < 4 \<or> (\<exists>j. i = 8 + j \<and> j < 8) \<or> (\<exists>j. i = 16 + j)"
    using False by (cases "i < 16") (auto intro: exI [of _ "i - 8"] exI [of _ "i - 16"])
  then consider "i < 4" | j where "i = 8 + j" "j < 8" | j where "i = 16 + j" by blast
  then show ?thesis
  proof cases
    case 1
    with assms(1) have "(ty @ sq @ pl)[?q := b] = ty[i := b] @ sq @ pl"
      and "(ty @ ck @ sq @ pl)[i := b] = ty[i := b] @ ck @ sq @ pl"
      by (simp_all add: list_update_append)
    with ne show ?thesis using that [of "ty[i := b]" ck sq pl] assms(1-3) by simp
  next
    case 2
    with assms(1-3) have "(ty @ sq @ pl)[?q := b] = ty @ sq[j := b] @ pl"
      and "(ty @ ck @ sq @ pl)[i := b] = ty @ ck @ sq[j := b] @ pl"
      by (simp_all add: list_update_append)
    with ne show ?thesis using that [of ty ck "sq[j := b]" pl] assms(1-3) by simp
  next
    case 3
    with assms(1-3) have "(ty @ sq @ pl)[?q := b] = ty @ sq @ pl[j := b]"
      and "(ty @ ck @ sq @ pl)[i := b] = ty @ ck @ sq @ pl[j := b]"
      by (simp_all add: list_update_append)
    with ne show ?thesis using that [of ty ck sq "pl[j := b]"] assms(1-3) by simp
  qed
qed

subsection \<open>Properties\<close>

text \<open>
  a record appended to a sound journal is read back. The append reports success, and reading the
  file then returns the earlier records followed by the new one, numbered next, with no anomaly.
\<close>

theorem append_then_read:
  assumes "quiet w" and "w_disk w path = Some (journal_file rs)"
    and "journal_ok kMaxJournalRecordBytes rs" and "rs \<noteq> []" and "t \<noteq> Invalid"
    and "length payload \<le> kMaxJournalRecordBytes" and "jr_sequence (last rs) \<noteq> - 1"
    and "Journal_append (open_journal path kMaxJournalRecordBytes durable rs) t payload w = ((st, j'), w')"
  shows "st = Inr () \<and> (\<exists>rcv. fst (readFile path w') =
      Some (Inr (rs @ [\<lparr>jr_type = t, jr_sequence = jr_sequence (last rs) + 1, jr_payload = payload\<rparr>]), rcv)
      \<and> rcv_outcome rcv = Clean)"
proof -
  let ?j = "open_journal path kMaxJournalRecordBytes durable rs"
  let ?r = "next_record ?j t payload"
  have j: "jn_path ?j = path" "jn_lastSequence ?j = jr_sequence (last rs)"
    "jn_maxRecordBytes ?j = kMaxJournalRecordBytes"
    using assms(4) by (simp_all add: open_journal_def)
  then have st: "st = Inr ()" and w': "w' = after_ops (record_ops path (length (journal_file rs)) ?r) w"
    using Journal_append_quiet [of w ?j "journal_file rs" t payload] assms by auto
  have disk: "w_disk w' path = Some (journal_file (rs @ [?r]))"
    using record_ops_result [of "w_disk w" path "journal_file rs", OF assms(2)] by (simp add: w' journal_file_simps(4))
  have ok: "journal_ok kMaxJournalRecordBytes (rs @ [?r])"
    using assms(3-7) append_record_ok [OF assms(3,4), of ?r] by (simp add: next_record_def j)
  have "quiet w'" using assms(1) w' by simp
  then show ?thesis
    using st scanInto_clean [OF _ disk ok] by (simp add: readFile_def next_record_def j)
qed

definition example_records :: "JournalRecord list" where
  "example_records = [segment_start 1]"

definition example_journal_world :: world where
  "example_journal_world =
     \<lparr>w_disk = [''j'' \<mapsto> journal_file example_records], w_trace = [], w_outcomes = [],
      w_random = (\<lambda>_. []), w_draws = 0\<rparr>"

lemma example_journal:
  "quiet example_journal_world" "w_trace example_journal_world = []"
  "w_disk example_journal_world ''j'' = Some (journal_file example_records)"
  "journal_ok kMaxJournalRecordBytes example_records" "example_records \<noteq> []"
  "jr_sequence (last example_records) = 1"
  by (simp_all add: example_journal_world_def quiet_def example_records_def journal_ok_def
      record_ok_def segment_start_def sequence_breaks_def kMaxJournalRecordBytes_def)

theorem append_then_read_witness:
  "quiet example_journal_world \<and>
   fst (fst (Journal_append (open_journal ''j'' kMaxJournalRecordBytes True example_records) Note [5]
     example_journal_world)) = Inr ()"
  using append_then_read [OF example_journal(1,3,4,5), of Note "[5]" True]
    example_journal(1,6) kMaxJournalRecordBytes_def
  by (cases "Journal_append (open_journal ''j'' kMaxJournalRecordBytes True example_records) Note [5]
      example_journal_world") auto

text \<open>
  a crash at any point of an append leaves the old records and some first bytes of the new
  one. Opening the journal then gives the old records when the record's header is incomplete, and
  with the new record when it is whole; when the crash falls inside the payload the scan uses a
  stream it has closed, and the outcome is undefined.
\<close>

theorem crashed_append_recovery:
  assumes "quiet w" and "w_trace w = []" and "w_disk w path = Some (journal_file rs)"
    and "journal_ok kMaxJournalRecordBytes rs" and "rs \<noteq> []" and "t \<noteq> Invalid"
    and "length payload \<le> kMaxJournalRecordBytes" and "jr_sequence (last rs) \<noteq> - 1" and "path \<noteq> []"
    and "Journal_append (open_journal path kMaxJournalRecordBytes durable rs) t payload w = (result, w')"
    and "quiet w2" and "w_disk w2 = crash_disk i k (w_trace w') (w_disk w)"
    and "r = \<lparr>jr_type = t, jr_sequence = jr_sequence (last rs) + 1, jr_payload = payload\<rparr>"
  shows "\<exists>n \<le> length (record_bytes r). w_disk w2 path = Some (journal_file rs @ take n (record_bytes r))
    \<and> map_option fst (fst (Journal_open path kMaxJournalRecordBytes durable w2)) =
        (if n < 20 then Some (Inr (open_journal path kMaxJournalRecordBytes durable rs))
         else if n < length (record_bytes r) then None
         else Some (Inr (open_journal path kMaxJournalRecordBytes durable (rs @ [r]))))"
proof -
  let ?m = kMaxJournalRecordBytes
  let ?j = "open_journal path ?m durable rs"
  have m: "0 < ?m" by (simp add: kMaxJournalRecordBytes_def)
  have "next_record ?j t payload = r" and "jn_path ?j = path"
    using assms(5,13) by (simp_all add: next_record_def open_journal_def)
  then have tr: "w_trace w' = record_ops path (length (journal_file rs)) r"
    using Journal_append_quiet [of w ?j "journal_file rs" t payload] assms
    by (auto simp: open_journal_def)
  obtain n where n: "n \<le> length (record_bytes r)"
    and d: "w_disk w2 = (w_disk w)(path \<mapsto> journal_file rs @ take n (record_bytes r))"
    using record_ops_crash [of "w_disk w" path "journal_file rs", OF assms(3)] assms(12) tr by metis
  then have f: "w_disk w2 path = Some (journal_file rs @ take n (record_bytes r))" by simp
  have ok: "journal_ok ?m (rs @ [r])"
    using append_record_ok [OF assms(4,5), of r] assms(6-8,13) by simp
  consider "n = 0" | "0 < n" "n < 20" | "20 \<le> n" "n < length (record_bytes r)" | "n = length (record_bytes r)"
    using n by linarith
  then have "map_option fst (fst (Journal_open path ?m durable w2)) =
        (if n < 20 then Some (Inr (open_journal path ?m durable rs))
         else if n < length (record_bytes r) then None
         else Some (Inr (open_journal path ?m durable (rs @ [r]))))"
  proof cases
    case 1
    with f show ?thesis using Journal_open_clean [OF assms(11) _ assms(4) m assms(9)] by simp
  next
    case 2
    with f n show ?thesis using Journal_open_torn_header [OF assms(11) f assms(4) m assms(9)] by simp
  next
    case 3
    with ok show ?thesis
      using Journal_open_torn_payload [OF assms(11) f assms(4) _ _ _ m assms(9)] by (simp add: journal_ok_def)
  next
    case 4
    with f show ?thesis
      using Journal_open_clean [OF assms(11) _ ok m assms(9)] by (simp add: journal_file_simps(4))
  qed
  with n f show ?thesis by blast
qed

definition crashed_world :: world where
  "crashed_world =
     example_journal_world\<lparr>w_disk :=
       crash_disk 1 1 (w_trace (snd (Journal_append
          (open_journal ''j'' kMaxJournalRecordBytes True example_records) Note [5, 6] example_journal_world)))
         (w_disk example_journal_world)\<rparr>"

theorem crashed_append_recovery_witness:
  "\<exists>n \<le> length (record_bytes \<lparr>jr_type = Note, jr_sequence = 2, jr_payload = [5, 6]\<rparr>).
     w_disk crashed_world ''j'' = Some (journal_file example_records @
       take n (record_bytes \<lparr>jr_type = Note, jr_sequence = 2, jr_payload = [5, 6]\<rparr>))"
  using crashed_append_recovery [OF example_journal(1-5) _ _ _ _ surjective_pairing, of Note "[5, 6]"
      crashed_world 1 1 True "\<lparr>jr_type = Note, jr_sequence = 2, jr_payload = [5, 6]\<rparr>"]
    example_journal(1,6)
  by (auto simp: crashed_world_def quiet_def kMaxJournalRecordBytes_def)

text \<open>
  C22: one changed byte in the type, checksum, sequence or payload of any record, wherever it stands in
  the journal, is reported as corruption with an integrity failure; no record of the file is used.
\<close>

theorem changed_byte_is_corruption:
  assumes "quiet w" and "journal_ok m (rs @ r # qs)"
    and "4 \<le> i" and "i < length (record_bytes r)" and "b \<noteq> record_bytes r ! i"
    and "w_disk w path = Some (journal_file rs @ (record_bytes r)[i := b] @ records_bytes qs)"
    and "scanInto path m wanted trunc w = (result, w')"
  shows "\<exists>rcv read. result = Some (read, rcv, Inl IntegrityFailure) \<and> rcv_outcome rcv = Corrupted"
proof -
  let ?pl = "jr_payload r"
  let ?ty = "storeLe32 (journalRecordTypeValue (jr_type r))" and ?sq = "storeLe64 (jr_sequence r)"
  let ?ck = "storeLe32 (recordChecksum (jr_type r) (jr_sequence r) ?pl)"
  let ?file = "journal_file rs @ (record_bytes r)[i := b] @ records_bytes qs"
  have ok: "journal_ok m rs" "record_ok m r" "m \<le> kMaxJournalRecordBytes"
    using assms(2) by (auto simp: journal_ok_def consecutive_append)
  have rb: "record_bytes r = storeLe32 (of_nat (length ?pl)) @ ?ty @ ?ck @ ?sq @ ?pl"
    by (simp add: record_bytes_def record_header_def)
  have crc: "crc32c (?ty @ ?sq @ ?pl) XOR 0xFFFFFFFF = loadLe32 ?ck"
    using recordChecksum_raw [of ?ty ?sq ?pl] ok(2) by (simp add: record_ok_def)
  have i: "i - 4 < 16 + length ?pl" and b: "b \<noteq> (?ty @ ?ck @ ?sq @ ?pl) ! (i - 4)"
    using assms(3-5) by (auto simp: rb nth_append)
  obtain ty ck sq pl where u: "(?ty @ ?ck @ ?sq @ ?pl)[i - 4 := b] = ty @ ck @ sq @ pl"
    and l: "length ty = 4" "length ck = 4" "length sq = 8" "length pl = length ?pl"
    and ne: "crc32c (ty @ sq @ pl) XOR 0xFFFFFFFF \<noteq> loadLe32 ck"
    by (rule one_byte_mismatch [OF _ _ _ crc i b]) simp_all
  have "(record_bytes r)[i := b] = storeLe32 (of_nat (length pl)) @ ty @ ck @ sq @ pl"
    using assms(3) u l(4) by (simp add: rb list_update_append)
  then have rest: "drop (length (journal_file rs)) ?file =
      storeLe32 (of_nat (length pl)) @ ty @ ck @ sq @ pl @ records_bytes qs" by simp
  have "length pl \<le> kMaxJournalRecordBytes" using ok(2,3) l(4) by (simp add: record_ok_def)
  then obtain e where "scan_record m ?file (length (journal_file rs)) (last_sequence None rs)
      (recovered emptyJournalRecovery rs) rs = Inl e" and "is_corruption e"
    using scan_record_mismatch [OF rest l(1-3) _ ne] by blast
  then have "is_corruption (scan_loop m ?file 12 None emptyJournalRecovery [])"
    unfolding scan_loop_file [OF ok(1)] by (subst scan_loop.simps) simp
  then show ?thesis
    using assms(1,6,7) by (auto simp: scan_entry os_quiet is_corruption_def)
qed

lemma segment_payload: "jr_payload (segment_start base) \<noteq> []" "length (jr_payload (segment_start base)) = 8"
  by (simp_all add: segment_start_def flip: length_greater_0_conv)

theorem changed_byte_is_corruption_witness:
  "w_disk (example_journal_world\<lparr>w_disk := [''j'' \<mapsto> journal_file [] @ (record_bytes (segment_start 1))[20 := 9]]\<rparr>)
     ''j'' = Some (journal_file [] @ (record_bytes (segment_start 1))[20 := 9]) \<and>
   (\<exists>rcv read. fst (scanInto ''j'' kMaxJournalRecordBytes True False
      (example_journal_world\<lparr>w_disk := [''j'' \<mapsto> journal_file [] @ (record_bytes (segment_start 1))[20 := 9]]\<rparr>))
      = Some (read, rcv, Inl IntegrityFailure) \<and> rcv_outcome rcv = Corrupted)"
proof -
  let ?w = "example_journal_world\<lparr>w_disk := [''j'' \<mapsto> journal_file [] @ (record_bytes (segment_start 1))[20 := 9]]\<rparr>"
  have "record_bytes (segment_start 1) ! 20 = 1"
    by (simp add: record_bytes_def nth_append segment_start_def storeLe64_def le_store_def)
  then show ?thesis
    using changed_byte_is_corruption [OF _ _ _ _ _ _ surjective_pairing, of ?w kMaxJournalRecordBytes "[]"
        "segment_start 1" "[]" 20 9 "''j''" True False] example_journal(1,4)
    by (simp add: quiet_def example_records_def segment_payload)
qed

text \<open>
  the length of a record is not covered by its checksum. A length damaged so that it reaches past
  the end of the file is taken for a torn tail, whatever sound records follow it, and the scan ends in
  the use of a closed stream instead of reporting corruption.
\<close>

theorem damaged_length_not_reported:
  assumes "quiet w" and "journal_ok m rs" and "record_ok m r" and "unat n \<le> m"
    and "length (jr_payload r) + length tail < unat n"
    and "w_disk w path = Some (journal_file rs @ storeLe32 n @ drop 4 (record_bytes r) @ tail)"
  shows "scanInto path m wanted trunc w = (None, w)"
proof -
  let ?file = "journal_file rs @ storeLe32 n @ drop 4 (record_bytes r) @ tail"
  let ?rest = "drop (length (journal_file rs)) ?file"
  let ?ty = "storeLe32 (journalRecordTypeValue (jr_type r))"
  let ?ck = "storeLe32 (recordChecksum (jr_type r) (jr_sequence r) (jr_payload r))"
  have rest: "?rest = storeLe32 n @ ?ty @ ?ck @ storeLe64 (jr_sequence r) @ jr_payload r @ tail"
    by (simp add: record_bytes_def record_header_def)
  note f = raw_fields [OF rest]
  have "\<not> length ?rest < 20" unfolding rest by simp
  then have "scan_record m ?file (length (journal_file rs)) e rcv acc =
      Inl \<lparr>se_records = acc, se_recovery = torn_recovery rcv (length ?file - length (journal_file rs))
             ''torn record payload at the end of the journal was discarded'',
           se_lastGood = length (journal_file rs), se_closed = True, se_status = Inr ()\<rparr>" for e rcv acc
    unfolding scan_record_def Let_def kJournalRecordHeaderBytes_def
    using f assms(3-5) by (simp add: record_ok_def del: length_drop drop_drop drop_append)
  then have "se_closed (scan_loop m ?file 12 None emptyJournalRecovery [])
      \<and> se_status (scan_loop m ?file 12 None emptyJournalRecovery []) = Inr ()"
    unfolding scan_loop_file [OF assms(2)] by (subst (1 2) scan_loop.simps) simp
  then show ?thesis using assms(1,6) by (simp add: scan_entry os_quiet)
qed

definition damaged_world :: world where
  "damaged_world =
     example_journal_world\<lparr>w_disk :=
       [''j'' \<mapsto> journal_file [] @ storeLe32 256 @ drop 4 (record_bytes (segment_start 1)) @ []]\<rparr>"

theorem damaged_length_not_reported_witness:
  "fst (scanInto ''j'' kMaxJournalRecordBytes False True damaged_world) = None"
  using damaged_length_not_reported [of damaged_world kMaxJournalRecordBytes "[]" "segment_start 1" 256 "[]" "''j''" False True]
    example_journal(1,4)
  by (simp add: damaged_world_def quiet_def journal_ok_def example_records_def)
    (simp add: segment_start_def kMaxJournalRecordBytes_def)

end
