(* ===== verification/StateAgent.thy ===== *)
theory StateAgent
  imports StateRecords Journal
begin

text \<open>
  The durable state of a target agent: \<^verbatim>\<open>AgentState\<close> and \<^verbatim>\<open>AgentStateCodec\<close> of
  \<^verbatim>\<open>include/cf/state.hpp\<close> and \<^verbatim>\<open>src/state.cpp\<close>. Applying a journal record changes the state field by
  field while it is decoded, so a refused record may leave some of its fields behind; the model keeps
  those partial changes.
\<close>

subsection \<open>Codecs of a durable state\<close>

record 's StateCodec =
  sc_initial :: 's
  sc_encodeSnapshot :: "'s \<Rightarrow> bytes encoded"
  sc_decodeSnapshot :: "bytes \<Rightarrow> 's result"
  sc_apply :: "'s \<Rightarrow> JournalRecordType \<Rightarrow> bytes \<Rightarrow> 's \<times> status"

text \<open>Reading a field into the state, and the check that the payload is used up.\<close>

definition st_read ::
  "'a reader \<Rightarrow> ('a \<Rightarrow> 's \<Rightarrow> 's) \<Rightarrow> (bytes \<Rightarrow> 's \<Rightarrow> 's \<times> status) \<Rightarrow> bytes \<Rightarrow> 's \<Rightarrow> 's \<times> status" where
  "st_read r upd k bs s = (case r bs of Inl e \<Rightarrow> (s, Inl e) | Inr (x, rest) \<Rightarrow> k rest (upd x s))"

definition st_end :: "bytes \<Rightarrow> 's \<Rightarrow> 's \<times> status" where
  "st_end bs s = (s, cf_try (r_requireEnd bs) (\<lambda>_. Inr ()))"

subsection \<open>The agent's state\<close>

record AgentState =
  as_target :: TargetId
  as_klass :: TargetClass
  as_guarantee :: ApplyGuarantee
  as_term :: Term
  as_incarnation :: IncarnationId
  as_restartCount :: u32
  as_lastControllerEpoch :: Epoch
  as_lastControllerIncarnation :: IncarnationId
  as_lastControllerNode :: NodeId
  as_committedGeneration :: Generation
  as_committedDigest :: Digest
  as_committedArtifact :: ArtifactId
  as_applyPrepared :: bool
  as_preparedDeployment :: DeploymentId
  as_preparedGeneration :: Generation
  as_preparedDigest :: Digest
  as_transfers :: "(DeploymentId, TransferRecord) omap"
  as_findings :: "AppliedFinding list"
  as_activations :: u64
  as_duplicatesSuppressed :: u64
  as_staleOffersRefused :: u64
  as_digestRejections :: u64
  as_applyRollbacks :: u64

definition unset_identity :: bytes where
  "unset_identity = replicate 16 0"

definition emptyAgentState :: AgentState where
  "emptyAgentState =
     \<lparr>as_target = [], as_klass = Unspecified, as_guarantee = AtomicActivate, as_term = 0,
      as_incarnation = unset_identity, as_restartCount = 0, as_lastControllerEpoch = 0,
      as_lastControllerIncarnation = unset_identity, as_lastControllerNode = [],
      as_committedGeneration = 0, as_committedDigest = unset_digest, as_committedArtifact = [],
      as_applyPrepared = False, as_preparedDeployment = [], as_preparedGeneration = 0,
      as_preparedDigest = unset_digest, as_transfers = [], as_findings = [], as_activations = 0,
      as_duplicatesSuppressed = 0, as_staleOffersRefused = 0, as_digestRejections = 0,
      as_applyRollbacks = 0\<rparr>"

definition kMaxFindingsPerAgent :: nat where
  "kMaxFindingsPerAgent = 128"

definition findFinding :: "AgentState \<Rightarrow> ConfigKey \<Rightarrow> Digest \<Rightarrow> AppliedFinding option" where
  "findFinding s key digest = List.find (\<lambda>f. af_key f = key \<and> af_digest f = digest) (as_findings s)"

subsection \<open>Snapshots\<close>

definition kMaxStateEntries :: nat where
  "kMaxStateEntries = 100000"

definition agent_encodeSnapshot :: "AgentState \<Rightarrow> bytes encoded" where
  "agent_encodeSnapshot s =
     enc_fail_if (length (as_findings s) > kMaxFindingsPerAgent
                  \<or> length (as_transfers s) > kMaxStateEntries) LimitExceeded
     (encoded
       [w_u16 kStateFormatVersion, w_string kMaxIdentifierLength (as_target s),
        w_u8 (targetClassValue (as_klass s)), w_u8 (applyGuaranteeValue (as_guarantee s)),
        w_u64 (as_term s), w_opaque128 (as_incarnation s), w_u32 (as_restartCount s),
        w_u64 (as_lastControllerEpoch s), w_opaque128 (as_lastControllerIncarnation s),
        w_string kMaxIdentifierLength (as_lastControllerNode s), w_u64 (as_committedGeneration s),
        w_digest (as_committedDigest s), w_string kMaxIdentifierLength (as_committedArtifact s),
        w_boolean (as_applyPrepared s), w_string kMaxIdentifierLength (as_preparedDeployment s),
        w_u64 (as_preparedGeneration s), w_digest (as_preparedDigest s), w_u64 (as_activations s),
        w_u64 (as_duplicatesSuppressed s), w_u64 (as_staleOffersRefused s),
        w_u64 (as_digestRejections s), w_u64 (as_applyRollbacks s),
        w_u32 (of_nat (length (as_transfers s))),
        emit (map writeTransferRecord (om_values (as_transfers s))),
        w_u32 (of_nat (length (as_findings s))),
        emit (map writeAppliedFinding (as_findings s))])"

definition readOptionalTargetId :: "TargetId reader" where
  "readOptionalTargetId =
     r_narrow (r_string kMaxIdentifierLength) (\<lambda>text. if text = [] then Inr [] else parseId text)"

definition readOptionalNodeId :: "NodeId reader" where
  "readOptionalNodeId =
     r_narrow (r_string kMaxIdentifierLength) (\<lambda>text. if text = [] then Inr [] else parseId text)"

definition agent_decodeSnapshot :: "bytes \<Rightarrow> AgentState result" where
  "agent_decodeSnapshot payload = rd_run (
     rd r_u16 (\<lambda>version.
     rd_fail_if (version \<noteq> kStateFormatVersion) UnsupportedVersion (
     rd readOptionalTargetId (\<lambda>target.
     rd readTargetClass (\<lambda>klass.
     rd readApplyGuarantee (\<lambda>guarantee.
     rd r_u64 (\<lambda>term.
     rd readIncarnation (\<lambda>incarnation.
     rd r_u32 (\<lambda>restartCount.
     rd r_u64 (\<lambda>epoch.
     rd readIncarnation (\<lambda>controllerIncarnation.
     rd readOptionalNodeId (\<lambda>controllerNode.
     rd r_u64 (\<lambda>committed.
     rd readDigestField (\<lambda>committedDigest.
     rd readOptionalArtifactId (\<lambda>artifact.
     rd r_boolean (\<lambda>applyPrepared.
     rd readOptionalDeploymentId (\<lambda>preparedDeployment.
     rd r_u64 (\<lambda>preparedGeneration.
     rd readDigestField (\<lambda>preparedDigest.
     rd r_u64 (\<lambda>activations.
     rd r_u64 (\<lambda>duplicatesSuppressed.
     rd r_u64 (\<lambda>staleOffersRefused.
     rd r_u64 (\<lambda>digestRejections.
     rd r_u64 (\<lambda>applyRollbacks.
     rd (r_counted kMaxStateEntries readTransferRecord) (\<lambda>transfers.
     rd (r_counted kMaxFindingsPerAgent readAppliedFinding) (\<lambda>findings.
     rd r_requireEnd (\<lambda>_.
     rd_return
       \<lparr>as_target = target, as_klass = klass, as_guarantee = guarantee, as_term = term,
        as_incarnation = incarnation, as_restartCount = restartCount, as_lastControllerEpoch = epoch,
        as_lastControllerIncarnation = controllerIncarnation, as_lastControllerNode = controllerNode,
        as_committedGeneration = committed, as_committedDigest = committedDigest,
        as_committedArtifact = artifact, as_applyPrepared = applyPrepared,
        as_preparedDeployment = preparedDeployment, as_preparedGeneration = preparedGeneration,
        as_preparedDigest = preparedDigest, as_transfers = emplace_all xr_deployment transfers [],
        as_findings = findings, as_activations = activations,
        as_duplicatesSuppressed = duplicatesSuppressed, as_staleOffersRefused = staleOffersRefused,
        as_digestRejections = digestRejections, as_applyRollbacks = applyRollbacks\<rparr>))))))))))))))))))))))))))) payload"

subsection \<open>Applying journal records\<close>

text \<open>Replace the finding for the same key and digest, or append it, dropping the oldest at the bound.\<close>

fun replace_finding :: "AppliedFinding \<Rightarrow> AppliedFinding list \<Rightarrow> AppliedFinding list option" where
  "replace_finding f [] = None"
| "replace_finding f (x # xs) =
     (if af_key x = af_key f \<and> af_digest x = af_digest f then Some (f # xs)
      else map_option (\<lambda>ys. x # ys) (replace_finding f xs))"

definition upsert_finding :: "AppliedFinding \<Rightarrow> AppliedFinding list \<Rightarrow> AppliedFinding list" where
  "upsert_finding f fs =
     (case replace_finding f fs of
        Some fs' \<Rightarrow> fs'
      | None \<Rightarrow> (if length fs \<ge> kMaxFindingsPerAgent then tl fs else fs) @ [f])"

definition readTerm :: "Term reader" where
  "readTerm = r_narrow r_u64 (\<lambda>raw. if raw = 0 then Inl MalformedInput else Inr raw)"

definition agent_apply :: "AgentState \<Rightarrow> JournalRecordType \<Rightarrow> bytes \<Rightarrow> AgentState \<times> status" where
  "agent_apply s t payload =
     (case t of
        AgentIdentity \<Rightarrow>
          st_read readTargetId (\<lambda>x s. s\<lparr>as_target := x\<rparr>)
          (st_read readTargetClass (\<lambda>x s. s\<lparr>as_klass := x\<rparr>)
          (st_read readApplyGuarantee (\<lambda>x s. s\<lparr>as_guarantee := x\<rparr>)
          (st_read readTerm (\<lambda>x s. s\<lparr>as_term := x\<rparr>)
          (st_read readIncarnation (\<lambda>x s. s\<lparr>as_incarnation := x\<rparr>)
          (st_read r_u32 (\<lambda>x s. s\<lparr>as_restartCount := x\<rparr>) st_end))))) payload s
      | AgentControllerFence \<Rightarrow>
          st_read r_u64 (\<lambda>x s. s\<lparr>as_lastControllerEpoch := x\<rparr>)
          (st_read readIncarnation (\<lambda>x s. s\<lparr>as_lastControllerIncarnation := x\<rparr>)
          (st_read readOptionalNodeId
             (\<lambda>x s. if x = [] then s else s\<lparr>as_lastControllerNode := x\<rparr>) st_end)) payload s
      | AgentTargetCommit \<Rightarrow>
          st_read r_u64 (\<lambda>x s. s\<lparr>as_committedGeneration := x\<rparr>)
          (st_read readDigestField (\<lambda>x s. s\<lparr>as_committedDigest := x\<rparr>)
          (st_read readOptionalArtifactId
             (\<lambda>x s. if x = [] then s else s\<lparr>as_committedArtifact := x\<rparr>) st_end)) payload s
      | AgentTransferUpsert \<Rightarrow>
          st_read readTransferRecord
            (\<lambda>r s. s\<lparr>as_transfers := om_put (xr_deployment r) r (as_transfers s)\<rparr>) st_end payload s
      | AgentTransferRemove \<Rightarrow>
          st_read readDeploymentId (\<lambda>x s. s\<lparr>as_transfers := om_erase x (as_transfers s)\<rparr>) st_end payload s
      | AgentFindingUpsert \<Rightarrow>
          st_read readAppliedFinding
            (\<lambda>f s. s\<lparr>as_findings := upsert_finding f (as_findings s)\<rparr>) st_end payload s
      | AgentApplyPrepared \<Rightarrow>
          st_read readDeploymentId (\<lambda>x s. s\<lparr>as_preparedDeployment := x\<rparr>)
          (st_read r_u64 (\<lambda>x s. s\<lparr>as_preparedGeneration := x\<rparr>)
          (st_read readDigestField (\<lambda>x s. s\<lparr>as_preparedDigest := x, as_applyPrepared := True\<rparr>) st_end)) payload s
      | AgentApplyResolved \<Rightarrow>
          st_read r_u64 (\<lambda>x s. s\<lparr>as_activations := x\<rparr>) st_end payload
            (s\<lparr>as_applyPrepared := False, as_preparedDeployment := [], as_preparedGeneration := 0,
               as_preparedDigest := unset_digest\<rparr>)
      | AgentRollbackNote \<Rightarrow>
          st_read r_u64 (\<lambda>x s. s\<lparr>as_applyRollbacks := x\<rparr>)
          (st_read r_u64 (\<lambda>x s. s\<lparr>as_duplicatesSuppressed := x\<rparr>)
          (st_read r_u64 (\<lambda>x s. s\<lparr>as_staleOffersRefused := x\<rparr>)
          (st_read r_u64 (\<lambda>x s. s\<lparr>as_digestRejections := x\<rparr>) st_end))) payload s
      | Note \<Rightarrow> st_read (r_string kMaxNoteBytes) (\<lambda>_ s. s) st_end payload s
      | _ \<Rightarrow> (s, Inl UnexpectedMessage))"

definition AgentStateCodec :: "AgentState StateCodec" where
  "AgentStateCodec =
     \<lparr>sc_initial = emptyAgentState, sc_encodeSnapshot = agent_encodeSnapshot,
      sc_decodeSnapshot = agent_decodeSnapshot, sc_apply = agent_apply\<rparr>"

subsection \<open>Well-formed agent states\<close>

definition finding_id :: "AppliedFinding \<Rightarrow> ConfigKey \<times> Digest" where
  "finding_id f = (af_key f, af_digest f)"

definition agent_ok :: "AgentState \<Rightarrow> bool" where
  "agent_ok s \<longleftrightarrow>
     optionalIdentifier (as_target s) \<and> length (as_incarnation s) = 16
     \<and> length (as_lastControllerIncarnation s) = 16 \<and> optionalIdentifier (as_lastControllerNode s)
     \<and> length (as_committedDigest s) = 32 \<and> optionalIdentifier (as_committedArtifact s)
     \<and> optionalIdentifier (as_preparedDeployment s) \<and> length (as_preparedDigest s) = 32
     \<and> keyed xr_deployment (as_transfers s) \<and> list_all xfer_ok (om_values (as_transfers s))
     \<and> length (as_findings s) \<le> kMaxFindingsPerAgent \<and> list_all applied_ok (as_findings s)
     \<and> distinct (map finding_id (as_findings s))"

lemma unset_simps [simp]:
  "length unset_digest = 32" "length unset_identity = 16" "optionalIdentifier []"
  by (simp_all add: unset_digest_def unset_identity_def optionalIdentifier_def)

lemma emptyAgentState_ok: "agent_ok emptyAgentState"
  by (simp add: agent_ok_def emptyAgentState_def optionalIdentifier_def unset_identity_def
      unset_digest_def kMaxFindingsPerAgent_def om_values_def)

text \<open>Whatever a reader accepts is a value of its field.\<close>

lemma field_values:
  "readTargetId bs = Inr (x, rest) \<Longrightarrow> isValidIdentifier x"
  "readDeploymentId bs = Inr (x, rest) \<Longrightarrow> isValidIdentifier x"
  "readOptionalNodeId bs = Inr (x, rest) \<Longrightarrow> optionalIdentifier x"
  "readOptionalArtifactId bs = Inr (x, rest) \<Longrightarrow> optionalIdentifier x"
  "readIncarnation bs = Inr (i, rest) \<Longrightarrow> length i = 16"
  "readDigestField bs = Inr (d, rest) \<Longrightarrow> length d = 32"
  by (auto simp: readTargetId_def readDeploymentId_def readOptionalNodeId_def readOptionalArtifactId_def
      plain_readers readDigestField_def validId.narrowed_iff optionalId.narrowed_iff
      opaque128.get_iff digest.get_iff)

lemma st_read_pres:
  assumes "P s" and "\<And>x rest. r bs = Inr (x, rest) \<Longrightarrow> P (upd x s)"
    and "\<And>rest s'. P s' \<Longrightarrow> P (fst (k rest s'))"
  shows "P (fst (st_read r upd k bs s))"
  using assms by (auto simp: st_read_def split: sum.splits)

lemma st_end_pres: "P s \<Longrightarrow> P (fst (st_end bs s))"
  by (simp add: st_end_def)

lemma replace_finding_ids:
  "replace_finding f fs = Some gs \<Longrightarrow> map finding_id gs = map finding_id fs \<and> set gs \<subseteq> insert f (set fs)"
  by (induction fs arbitrary: gs) (auto simp: finding_id_def split: if_splits)

lemma replace_finding_None: "replace_finding f fs = None \<longleftrightarrow> finding_id f \<notin> finding_id ` set fs"
  by (induction fs) (auto simp: finding_id_def)

lemma upsert_finding_ok:
  assumes "length fs \<le> kMaxFindingsPerAgent" and "list_all applied_ok fs" and "applied_ok f"
    and "distinct (map finding_id fs)"
  shows "length (upsert_finding f fs) \<le> kMaxFindingsPerAgent \<and> list_all applied_ok (upsert_finding f fs)
    \<and> distinct (map finding_id (upsert_finding f fs))"
proof (cases "replace_finding f fs")
  case None
  then have "finding_id f \<notin> finding_id ` set fs" by (simp add: replace_finding_None)
  moreover have "set (tl fs) \<subseteq> set fs" by (cases fs) auto
  moreover have "distinct (map finding_id (tl fs))" using assms(4) by (cases fs) auto
  ultimately show ?thesis
    using None assms by (auto simp: upsert_finding_def list_all_iff kMaxFindingsPerAgent_def)
next
  case (Some gs)
  then have "map finding_id gs = map finding_id fs" and "set gs \<subseteq> insert f (set fs)"
    using replace_finding_ids by auto
  moreover from this(1) have "length gs = length fs" by (metis length_map)
  ultimately show ?thesis using Some assms by (auto simp: upsert_finding_def list_all_iff)
qed

lemmas agent_ok_intros = st_read_pres [where P = agent_ok] st_end_pres [where P = agent_ok]

lemma optionalIdentifierI: "isValidIdentifier x \<Longrightarrow> optionalIdentifier x"
  by (simp add: optionalIdentifier_def)

lemma agent_ok_updates:
  assumes "agent_ok s"
  shows "xfer_ok r \<Longrightarrow> agent_ok (s\<lparr>as_transfers := om_put (xr_deployment r) r (as_transfers s)\<rparr>)"
    and "agent_ok (s\<lparr>as_transfers := om_erase d (as_transfers s)\<rparr>)"
    and "applied_ok f \<Longrightarrow> agent_ok (s\<lparr>as_findings := upsert_finding f (as_findings s)\<rparr>)"
    and "agent_ok (s\<lparr>as_applyPrepared := False, as_preparedDeployment := [], as_preparedGeneration := 0,
               as_preparedDigest := unset_digest\<rparr>)"
  using assms upsert_finding_ok
  by (simp_all add: agent_ok_def optionalIdentifier_def unset_digest_def om_all_put om_all_erase keyed_inv [of xr_deployment])

lemma agent_apply_ok:
  assumes "agent_ok s"
  shows "agent_ok (fst (agent_apply s t payload))"
proof -
  have x: "readTransferRecord bs = Inr (r, rest) \<Longrightarrow> xfer_ok r"
    and f: "readAppliedFinding bs = Inr (g, rest) \<Longrightarrow> applied_ok g" for bs r g rest
    by (auto simp: readTransferRecord_iff readAppliedFinding_iff)
  note upd = agent_ok_updates [OF assms] x f
  show ?thesis
    using assms
    by (cases t; simp add: agent_apply_def;
        intro agent_ok_intros; (intro upd)?)
      (auto simp: agent_ok_def dest: field_values intro: optionalIdentifierI)
qed

subsection \<open>Snapshots are read back\<close>

lemma optionalIdentifier_length: "optionalIdentifier t \<Longrightarrow> length t \<le> kMaxIdentifierLength"
  by (auto simp: optionalIdentifier_def isValidIdentifier_def kMaxIdentifierLength_def split: if_splits)

lemma w_string_identifier: "optionalIdentifier t \<Longrightarrow> w_string kMaxIdentifierLength t \<noteq> None"
  by (auto dest!: optionalIdentifier_length simp: w_string_def emit.simps w_u32_def w_bytes_def
      kMaxIdentifierLength_def kAbsoluteMaxFieldBytes_def)

lemma emit_not_None: "emit ws \<noteq> None \<longleftrightarrow> None \<notin> set ws"
  by (induction ws) (auto simp: emit.simps split: option.splits)

lemmas writes_total =
  w_u8_def w_u16_def w_u32_def w_u64_def w_i64_def w_boolean_def w_digest_def w_opaque128_def w_bytes_def

lemma writeTransferRecord_total: "xfer_ok r \<Longrightarrow> writeTransferRecord r \<noteq> None"
  unfolding writeTransferRecord_def emit_not_None
  using w_string_identifier [of "xr_deployment r"] w_string_identifier [of "xr_key r"]
    w_string_identifier [of "xr_artifact r"]
  by (auto simp: xfer_ok_def writes_total optionalIdentifierI)

lemma writeAppliedFinding_total: "applied_ok f \<Longrightarrow> writeAppliedFinding f \<noteq> None"
  unfolding writeAppliedFinding_def emit_not_None
  using w_string_identifier [of "af_deployment f"] w_string_identifier [of "af_key f"]
    w_string_identifier [of "af_artifact f"]
  by (auto simp: applied_ok_def writes_total optionalIdentifierI)

lemma emit_map_total: "list_all ok xs \<Longrightarrow> (\<And>x. ok x \<Longrightarrow> f x \<noteq> None) \<Longrightarrow> \<exists>b. emit (map f xs) = Some b"
  by (induction xs) (auto simp: emit.simps split: option.splits)

lemma w_string_total: "optionalIdentifier t \<Longrightarrow> \<exists>b. w_string kMaxIdentifierLength t = Some b"
  using w_string_identifier by fastforce

lemma agent_encodeSnapshot_total:
  assumes "agent_ok s" and "length (as_transfers s) \<le> kMaxStateEntries"
  shows "\<exists>bs. agent_encodeSnapshot s = Some (Inr bs)"
proof -
  obtain a where "emit (map writeTransferRecord (om_values (as_transfers s))) = Some a"
    using assms(1) emit_map_total writeTransferRecord_total unfolding agent_ok_def by metis
  moreover obtain b where "emit (map writeAppliedFinding (as_findings s)) = Some b"
    using assms(1) emit_map_total writeAppliedFinding_total unfolding agent_ok_def by metis
  moreover obtain c d e f where "w_string kMaxIdentifierLength (as_target s) = Some c"
    "w_string kMaxIdentifierLength (as_lastControllerNode s) = Some d"
    "w_string kMaxIdentifierLength (as_committedArtifact s) = Some e"
    "w_string kMaxIdentifierLength (as_preparedDeployment s) = Some f"
    using assms(1) w_string_total unfolding agent_ok_def by meson
  ultimately show ?thesis
    using assms by (simp add: agent_encodeSnapshot_def enc_fail_if_def encoded_def agent_ok_def writes_total emit.simps)
qed

lemma agent_decode_encode:
  assumes "agent_ok s" and "agent_encodeSnapshot s = Some (Inr bs)"
  shows "agent_decodeSnapshot bs = Inr s"
proof -
  have b: "kMaxStateEntries < 2 ^ 32" "kMaxFindingsPerAgent < 2 ^ 32"
    by (simp_all add: kMaxStateEntries_def kMaxFindingsPerAgent_def)
  have e: "emplace_all xr_deployment (om_values (as_transfers s)) [] = as_transfers s"
    using assms(1) by (intro emplace_all_values) (simp add: agent_ok_def)
  show ?thesis
    using assms b e
    by (cases s)
      (simp add: agent_decodeSnapshot_def agent_encodeSnapshot_def agent_ok_def xferCodec.rd_counted_iff
        appliedCodec.rd_counted_iff emit_map_eq_Some record_rules not_less
        optionalId.narrowed.rd_get_iff [folded readOptionalTargetId_def]
        optionalId.narrowed.rd_get_iff [folded readOptionalNodeId_def], metis length_om_values)
qed

end
