(* ===== verification/StateController.thy ===== *)
theory StateController
  imports StateAgent
begin

text \<open>
  The durable state of the distributor: \<^verbatim>\<open>ControllerState\<close>, its queries and
  \<^verbatim>\<open>ControllerStateCodec\<close> of \<^verbatim>\<open>include/cf/state.hpp\<close> and \<^verbatim>\<open>src/state.cpp\<close>. The flag
  \<^verbatim>\<open>contactEstablishedThisProcess\<close> of a target lives in memory only: \<open>forget_contact\<close> is what a
  restart leaves of a state.
\<close>

subsection \<open>State and queries\<close>

record ControllerState =
  cs_nodeId :: NodeId
  cs_epoch :: Epoch
  cs_incarnation :: IncarnationId
  cs_startedAtMillis :: int
  cs_targets :: "(TargetId, TargetRuntime) omap"
  cs_deliveries :: "(DeploymentId, DeliveryRecord) omap"
  cs_artifacts :: "(Digest, ArtifactMetadata) omap"

definition emptyControllerState :: ControllerState where
  "emptyControllerState =
     \<lparr>cs_nodeId = [], cs_epoch = 0, cs_incarnation = unset_identity, cs_startedAtMillis = 0,
      cs_targets = [], cs_deliveries = [], cs_artifacts = []\<rparr>"

definition pendingDeliveries :: "ControllerState \<Rightarrow> DeliveryRecord list" where
  "pendingDeliveries s = filter (\<lambda>r. isPendingState (dr_state r)) (om_values (cs_deliveries s))"

definition findDelivery :: "ControllerState \<Rightarrow> DeploymentId \<Rightarrow> DeliveryRecord option" where
  "findDelivery s deployment = om_find (cs_deliveries s) deployment"

definition findTarget :: "ControllerState \<Rightarrow> TargetId \<Rightarrow> TargetRuntime option" where
  "findTarget s target = om_find (cs_targets s) target"

definition newer_delivery :: "DeliveryRecord \<Rightarrow> DeliveryRecord \<Rightarrow> bool" where
  "newer_delivery r newest \<longleftrightarrow>
     dr_generation r > dr_generation newest
     \<or> (dr_generation r = dr_generation newest \<and> dr_id r > dr_id newest)"

definition latestForLineage :: "ControllerState \<Rightarrow> TargetId \<Rightarrow> ConfigKey \<Rightarrow> DeliveryRecord option" where
  "latestForLineage s target key =
     fold (\<lambda>r newest.
       if dr_target r \<noteq> target \<or> dr_key r \<noteq> key then newest
       else (case newest of None \<Rightarrow> Some r | Some n \<Rightarrow> if newer_delivery r n then Some r else newest))
       (om_values (cs_deliveries s)) None"

subsection \<open>Snapshots\<close>

text \<open>An artifact entry is its encoded metadata as a string field.\<close>

fun writeArtifacts :: "ArtifactMetadata list \<Rightarrow> bytes encoded" where
  "writeArtifacts [] = Some (Inr [])"
| "writeArtifacts (m # ms) =
     (case encodeArtifactMetadata m of
        None \<Rightarrow> None
      | Some (Inl e) \<Rightarrow> Some (Inl e)
      | Some (Inr bs) \<Rightarrow>
          (case w_string kAbsoluteMaxFieldBytes (bytes_string bs) of
             None \<Rightarrow> None
           | Some a \<Rightarrow>
               (case writeArtifacts ms of
                  None \<Rightarrow> None
                | Some (Inl e) \<Rightarrow> Some (Inl e)
                | Some (Inr b) \<Rightarrow> Some (Inr (a @ b)))))"

definition controller_encodeSnapshot :: "ControllerState \<Rightarrow> bytes encoded" where
  "controller_encodeSnapshot s =
     enc_fail_if (length (cs_targets s) > kMaxStateEntries \<or> length (cs_deliveries s) > kMaxStateEntries)
       LimitExceeded
     (case emit
        [w_u16 kStateFormatVersion, w_string kMaxIdentifierLength (cs_nodeId s), w_u64 (cs_epoch s),
         w_opaque128 (cs_incarnation s), w_i64 (cs_startedAtMillis s),
         w_u32 (of_nat (length (cs_targets s))), emit (map writeTargetRuntime (om_values (cs_targets s))),
         w_u32 (of_nat (length (cs_deliveries s))),
         emit (map writeDeliveryRecord (om_values (cs_deliveries s))),
         w_u32 (of_nat (length (cs_artifacts s)))] of
        None \<Rightarrow> None
      | Some front \<Rightarrow>
          (case writeArtifacts (om_values (cs_artifacts s)) of
             None \<Rightarrow> None
           | Some (Inl e) \<Rightarrow> Some (Inl e)
           | Some (Inr back) \<Rightarrow> Some (Inr (front @ back))))"

definition readArtifactEntry :: "ArtifactMetadata reader" where
  "readArtifactEntry =
     r_narrow (r_string kAbsoluteMaxFieldBytes) (\<lambda>text. decodeArtifactMetadata (string_bytes text))"

definition controller_decodeSnapshot :: "bytes \<Rightarrow> ControllerState result" where
  "controller_decodeSnapshot payload = rd_run (
     rd r_u16 (\<lambda>version.
     rd_fail_if (version \<noteq> kStateFormatVersion) UnsupportedVersion (
     rd readOptionalNodeId (\<lambda>nodeId.
     rd r_u64 (\<lambda>epoch.
     rd readIncarnation (\<lambda>incarnation.
     rd r_i64 (\<lambda>startedAtMillis.
     rd (r_counted kMaxStateEntries readTargetRuntime) (\<lambda>targets.
     rd (r_counted kMaxStateEntries readDeliveryRecord) (\<lambda>deliveries.
     rd (r_counted kMaxStateEntries readArtifactEntry) (\<lambda>artifacts.
     rd r_requireEnd (\<lambda>_.
     rd_return
       \<lparr>cs_nodeId = nodeId, cs_epoch = epoch, cs_incarnation = incarnation,
        cs_startedAtMillis = startedAtMillis, cs_targets = emplace_all tr_id targets [],
        cs_deliveries = emplace_all dr_id deliveries [],
        cs_artifacts = emplace_all am_digest artifacts []\<rparr>))))))))))) payload"

subsection \<open>Applying journal records\<close>

definition keep_contact :: "TargetRuntime \<Rightarrow> (TargetId, TargetRuntime) omap \<Rightarrow> TargetRuntime" where
  "keep_contact r m =
     (case om_find m (tr_id r) of
        None \<Rightarrow> r
      | Some existing \<Rightarrow> r\<lparr>tr_contactEstablishedThisProcess := tr_contactEstablishedThisProcess existing\<rparr>)"

definition readEpoch :: "Epoch reader" where
  "readEpoch = r_narrow r_u64 (\<lambda>raw. if \<not> uint_isSet raw then Inl MalformedInput else Inr raw)"

definition controller_apply :: "ControllerState \<Rightarrow> JournalRecordType \<Rightarrow> bytes \<Rightarrow> ControllerState \<times> status" where
  "controller_apply s t payload =
     (case t of
        ControllerIdentity \<Rightarrow>
          st_read readNodeId (\<lambda>x s. s\<lparr>cs_nodeId := x\<rparr>)
          (st_read r_u64 (\<lambda>x s. s\<lparr>cs_epoch := x\<rparr>)
          (st_read readIncarnation (\<lambda>x s. s\<lparr>cs_incarnation := x\<rparr>)
          (st_read r_i64 (\<lambda>x s. s\<lparr>cs_startedAtMillis := x\<rparr>) st_end))) payload s
      | ControllerEpoch \<Rightarrow> st_read readEpoch (\<lambda>x s. s\<lparr>cs_epoch := x\<rparr>) st_end payload s
      | TargetUpsert \<Rightarrow>
          st_read readTargetRuntime
            (\<lambda>r s. s\<lparr>cs_targets := om_put (tr_id r) (keep_contact r (cs_targets s)) (cs_targets s)\<rparr>)
            st_end payload s
      | TargetRemove \<Rightarrow>
          st_read readTargetId (\<lambda>x s. s\<lparr>cs_targets := om_erase x (cs_targets s)\<rparr>) st_end payload s
      | DeliveryUpsert \<Rightarrow>
          st_read readDeliveryRecord
            (\<lambda>r s. s\<lparr>cs_deliveries := om_put (dr_id r) r (cs_deliveries s)\<rparr>) st_end payload s
      | DeliveryRemove \<Rightarrow>
          st_read readDeploymentId (\<lambda>x s. s\<lparr>cs_deliveries := om_erase x (cs_deliveries s)\<rparr>) st_end payload s
      | ArtifactUpsert \<Rightarrow>
          st_read readArtifactEntry
            (\<lambda>m s. s\<lparr>cs_artifacts := om_put (am_digest m) m (cs_artifacts s)\<rparr>) st_end payload s
      | ArtifactRemove \<Rightarrow>
          st_read readDigestField (\<lambda>x s. s\<lparr>cs_artifacts := om_erase x (cs_artifacts s)\<rparr>) st_end payload s
      | Note \<Rightarrow> st_read (r_string kMaxNoteBytes) (\<lambda>_ s. s) st_end payload s
      | _ \<Rightarrow> (s, Inl UnexpectedMessage))"

definition ControllerStateCodec :: "ControllerState StateCodec" where
  "ControllerStateCodec =
     \<lparr>sc_initial = emptyControllerState, sc_encodeSnapshot = controller_encodeSnapshot,
      sc_decodeSnapshot = controller_decodeSnapshot, sc_apply = controller_apply\<rparr>"

subsection \<open>Well-formed controller states\<close>

definition without_contact :: "TargetRuntime \<Rightarrow> TargetRuntime" where
  "without_contact r = r\<lparr>tr_contactEstablishedThisProcess := False\<rparr>"

definition forget_contact :: "ControllerState \<Rightarrow> ControllerState" where
  "forget_contact s = s\<lparr>cs_targets := map (\<lambda>(k, r). (k, without_contact r)) (cs_targets s)\<rparr>"

definition controller_ok :: "ControllerState \<Rightarrow> bool" where
  "controller_ok s \<longleftrightarrow>
     optionalIdentifier (cs_nodeId s) \<and> length (cs_incarnation s) = 16 \<and> i64_range (cs_startedAtMillis s)
     \<and> keyed tr_id (cs_targets s) \<and> list_all (\<lambda>r. target_ok (without_contact r)) (om_values (cs_targets s))
     \<and> keyed dr_id (cs_deliveries s) \<and> list_all delivery_ok (om_values (cs_deliveries s))
     \<and> keyed am_digest (cs_artifacts s) \<and> list_all metadata_ok (om_values (cs_artifacts s))"

lemma emptyControllerState_ok: "controller_ok emptyControllerState"
  by (simp add: controller_ok_def emptyControllerState_def i64_range_def)

lemma without_contact_simps [simp]:
  "tr_id (without_contact r) = tr_id r" "without_contact (without_contact r) = without_contact r"
  "writeTargetRuntime (without_contact r) = writeTargetRuntime r"
  "\<not> tr_contactEstablishedThisProcess (without_contact r)"
  by (simp_all add: without_contact_def writeTargetRuntime_def)

lemma without_contact_id: "\<not> tr_contactEstablishedThisProcess r \<Longrightarrow> without_contact r = r"
  by (simp add: without_contact_def)

lemma keep_contact_simps [simp]:
  "without_contact (keep_contact r m) = without_contact r" "tr_id (keep_contact r m) = tr_id r"
  by (simp_all add: keep_contact_def without_contact_def split: option.splits)

interpretation artifactEntry: narrowed_codec "w_string kAbsoluteMaxFieldBytes" "r_string kAbsoluteMaxFieldBytes"
  "\<lambda>_. True" "\<lambda>m. bytes_string (case encodeArtifactMetadata m of Some (Inr bs) \<Rightarrow> bs | _ \<Rightarrow> [])"
  "\<lambda>text. decodeArtifactMetadata (string_bytes text)" "\<lambda>m. metadata_ok m \<and> (\<exists>bs. encodeArtifactMetadata m = Some (Inr bs))"
  by unfold_locales (auto simp: decodeArtifactMetadata_iff)

lemma read_values:
  "readTargetRuntime bs = Inr (r, rest) \<Longrightarrow> target_ok r"
  "readDeliveryRecord bs = Inr (d, rest) \<Longrightarrow> delivery_ok d"
  "readArtifactEntry bs = Inr (m, rest) \<Longrightarrow> metadata_ok m"
  "readNodeId bs = Inr (x, rest) \<Longrightarrow> isValidIdentifier x"
  "r_i64 bs = Inr (i, rest) \<Longrightarrow> i64_range i"
  by (auto simp: readTargetRuntime_iff readDeliveryRecord_iff readArtifactEntry_def readNodeId_def
      artifactEntry.narrowed_iff validId.narrowed_iff i64.get_iff)

lemma controller_ok_updates:
  assumes "controller_ok s"
  shows "target_ok r \<Longrightarrow>
      controller_ok (s\<lparr>cs_targets := om_put (tr_id r) (keep_contact r (cs_targets s)) (cs_targets s)\<rparr>)"
    and "controller_ok (s\<lparr>cs_targets := om_erase t (cs_targets s)\<rparr>)"
    and "delivery_ok d \<Longrightarrow> controller_ok (s\<lparr>cs_deliveries := om_put (dr_id d) d (cs_deliveries s)\<rparr>)"
    and "controller_ok (s\<lparr>cs_deliveries := om_erase i (cs_deliveries s)\<rparr>)"
    and "metadata_ok m \<Longrightarrow> controller_ok (s\<lparr>cs_artifacts := om_put (am_digest m) m (cs_artifacts s)\<rparr>)"
    and "controller_ok (s\<lparr>cs_artifacts := om_erase g (cs_artifacts s)\<rparr>)"
proof -
  have k: "keyed tr_id (om_put (tr_id r) (keep_contact r (cs_targets s)) (cs_targets s))"
    using keyed_put [of tr_id "cs_targets s" "keep_contact r (cs_targets s)"] assms
    by (simp add: controller_ok_def)
  show "target_ok r \<Longrightarrow>
      controller_ok (s\<lparr>cs_targets := om_put (tr_id r) (keep_contact r (cs_targets s)) (cs_targets s)\<rparr>)"
    using assms k without_contact_id [of r]
    by (simp add: controller_ok_def om_all_put keyed_inv [of tr_id] target_ok_def)
qed (use assms in \<open>simp_all add: controller_ok_def om_all_put om_all_erase keyed_inv [of tr_id]
      keyed_inv [of dr_id] keyed_inv [of am_digest]\<close>)

lemmas controller_ok_intros = st_read_pres [where P = controller_ok] st_end_pres [where P = controller_ok]

lemma controller_apply_ok:
  assumes "controller_ok s"
  shows "controller_ok (fst (controller_apply s t payload))"
  using assms
  by (cases t; simp add: controller_apply_def;
      intro controller_ok_intros; (intro controller_ok_updates)?)
    (auto simp: controller_ok_def dest: field_values read_values intro: optionalIdentifierI)

subsection \<open>What a restart keeps\<close>

lemma om_put_map: "om_put k (f v) (map (\<lambda>(k, v). (k, f v)) m) = map (\<lambda>(k, v). (k, f v)) (om_put k v m)"
  by (induction k v m rule: om_put.induct) auto

lemma om_erase_map: "om_erase k (map (\<lambda>(k, v). (k, f v)) m) = map (\<lambda>(k, v). (k, f v)) (om_erase k m)"
  by (induction m) (auto simp: om_erase_def)

lemma om_find_map: "om_find (map (\<lambda>(k, v). (k, f v)) m) k = map_option f (om_find m k)"
  by (induction m) (auto simp: om_find_def)

lemma om_values_map: "om_values (map (\<lambda>(k, v). (k, f v)) m) = map f (om_values m)"
  by (induction m) (auto simp: om_values_def)

lemma keyed_map:
  assumes "keyed g m" and "\<And>v. g (f v) = g v"
  shows "keyed g (map (\<lambda>(k, v). (k, f v)) m)"
proof -
  have "map fst (map (\<lambda>(k, v). (k, f v)) m) = map fst m" by (induction m) auto
  then have "om_inv (map (\<lambda>(k, v). (k, f v)) m)"
    using assms(1) unfolding keyed_def om_inv_def by metis
  with assms show ?thesis by (auto simp: keyed_def list_all_iff)
qed

lemma keep_contact_forget:
  "without_contact (keep_contact r m) = keep_contact r (map (\<lambda>(k, r). (k, without_contact r)) m)"
  if "\<not> tr_contactEstablishedThisProcess r"
  using that by (auto simp: keep_contact_def om_find_map without_contact_def split: option.splits)

text \<open>Forgetting commutes with every field read and every journal record.\<close>

lemma st_read_forget:
  assumes "\<And>x rest. r bs = Inr (x, rest) \<Longrightarrow> F (upd x s) = upd x (F s)"
    and "\<And>rest s. map_prod F id (k rest s) = k rest (F s)"
  shows "map_prod F id (st_read r upd k bs s) = st_read r upd k bs (F s)"
  using assms by (auto simp: st_read_def split: sum.splits)

lemma st_end_forget: "map_prod F id (st_end bs s) = st_end bs (F s)"
  by (simp add: st_end_def)

lemma controller_apply_forget:
  "map_prod forget_contact id (controller_apply s t payload) = controller_apply (forget_contact s) t payload"
proof -
  have "target_ok r \<Longrightarrow>
      map (\<lambda>(k, r). (k, without_contact r)) (om_put (tr_id r) (keep_contact r m) m) =
      om_put (tr_id r) (keep_contact r (map (\<lambda>(k, r). (k, without_contact r)) m))
        (map (\<lambda>(k, r). (k, without_contact r)) m)" for r m
    by (simp add: om_put_map [symmetric] keep_contact_forget target_ok_def del: keep_contact_simps)
  then show ?thesis
    by (cases t; simp add: controller_apply_def; intro st_read_forget st_end_forget)
      (auto simp: forget_contact_def om_erase_map dest!: read_values)
qed

subsection \<open>Snapshots are read back without the contact flags\<close>

lemma writeArtifacts_eq:
  "writeArtifacts ms = Some (Inr b) \<Longrightarrow>
     list_all (\<lambda>m. \<exists>bs. encodeArtifactMetadata m = Some (Inr bs)) ms
     \<and> emit (map (\<lambda>m. w_string kAbsoluteMaxFieldBytes
          (bytes_string (case encodeArtifactMetadata m of Some (Inr bs) \<Rightarrow> bs | _ \<Rightarrow> []))) ms) = Some b"
proof (induction ms arbitrary: b)
  case (Cons m ms)
  from Cons.prems obtain bs a c where "encodeArtifactMetadata m = Some (Inr bs)"
    "w_string kAbsoluteMaxFieldBytes (bytes_string bs) = Some a" "writeArtifacts ms = Some (Inr c)" "b = a @ c"
    by (auto split: option.splits sum.splits)
  with Cons.IH [of c] show ?case by (simp add: emit.simps)
qed (simp add: emit.simps)

lemma forgotten_values:
  assumes "controller_ok s"
  shows "emplace_all tr_id (map without_contact (om_values (cs_targets s))) [] =
    map (\<lambda>(k, r). (k, without_contact r)) (cs_targets s)"
  using assms emplace_all_values [OF keyed_map [of tr_id "cs_targets s" without_contact]]
  by (simp add: controller_ok_def om_values_map)

text \<open>Running a reader on what its writer produced.\<close>

context field_codec
begin

lemma rd_put: "ok x \<Longrightarrow> put x = Some w \<Longrightarrow> rd get k (w @ rest) = k x rest"
  by (simp add: rd_def get_put)

lemma rd_counted_put:
  assumes "N < 2 ^ 32" and "length xs \<le> N" and "list_all ok xs" and "emit (map put xs) = Some w"
  shows "rd (r_counted N get) k (le_store 4 (of_nat (length xs) :: u32) @ w @ rest) = k xs rest"
proof -
  have "r_counted N get (le_store 4 (of_nat (length xs) :: u32) @ w @ rest) = Inr (xs, rest)"
    using assms by (simp add: counted_iff)
  then show ?thesis by (simp add: rd_def)
qed

end

lemma controller_decode_encode:
  assumes ok: "controller_ok s" and enc: "controller_encodeSnapshot s = Some (Inr bs)"
    and art: "length (cs_artifacts s) \<le> kMaxStateEntries"
  shows "controller_decodeSnapshot bs = Inr (forget_contact s)"
proof -
  let ?put = "\<lambda>m. w_string kAbsoluteMaxFieldBytes
      (bytes_string (case encodeArtifactMetadata m of Some (Inr bs) \<Rightarrow> bs | _ \<Rightarrow> []))"
  have b: "kMaxStateEntries < 2 ^ 32" by (simp add: kMaxStateEntries_def)
  from enc obtain n t d a where n: "w_string kMaxIdentifierLength (cs_nodeId s) = Some n"
    and t: "emit (map writeTargetRuntime (om_values (cs_targets s))) = Some t"
    and d: "emit (map writeDeliveryRecord (om_values (cs_deliveries s))) = Some d"
    and a: "writeArtifacts (om_values (cs_artifacts s)) = Some (Inr a)"
    and bs: "bs = le_store 2 kStateFormatVersion @ n @ le_store 8 (cs_epoch s) @ cs_incarnation s
      @ le_store 8 (word_of_int (cs_startedAtMillis s) :: u64)
      @ le_store 4 (of_nat (length (cs_targets s)) :: u32) @ t
      @ le_store 4 (of_nat (length (cs_deliveries s)) :: u32) @ d
      @ le_store 4 (of_nat (length (cs_artifacts s)) :: u32) @ a @ []"
    and len: "length (cs_targets s) \<le> kMaxStateEntries" "length (cs_deliveries s) \<le> kMaxStateEntries"
    by (auto simp: controller_encodeSnapshot_def enc_fail_if_eq_iff codec_dests writes_total w_u16_le_store
        simp del: w_u16_def split: option.splits sum.splits)
  have node: "rd readOptionalNodeId k (n @ rest) = k (cs_nodeId s) rest" for k rest
    unfolding readOptionalNodeId_def by (rule optionalId.narrowed.rd_put) (use ok n in \<open>auto simp: controller_ok_def\<close>)
  have incarnation: "rd readIncarnation k (cs_incarnation s @ rest) = k (cs_incarnation s) rest" for k rest
    unfolding plain_readers(1) by (rule opaque128.rd_put) (use ok in \<open>simp_all add: controller_ok_def w_opaque128_def w_bytes_def\<close>)
  have started: "rd r_i64 k (le_store 8 (word_of_int (cs_startedAtMillis s) :: u64) @ rest) = k (cs_startedAtMillis s) rest" for k rest
    by (rule i64.rd_put) (use ok in \<open>simp_all add: controller_ok_def w_i64_def w_u64_def\<close>)
  have targets: "rd (r_counted kMaxStateEntries readTargetRuntime) k
      (le_store 4 (of_nat (length (cs_targets s)) :: u32) @ t @ rest) = k (map without_contact (om_values (cs_targets s))) rest" for k rest
    using targetCodec.rd_counted_put [OF b, of "map without_contact (om_values (cs_targets s))" t k rest] ok len(1) t
    by (simp add: controller_ok_def list_all_iff comp_def)
  have deliveries: "rd (r_counted kMaxStateEntries readDeliveryRecord) k
      (le_store 4 (of_nat (length (cs_deliveries s)) :: u32) @ d @ rest) = k (om_values (cs_deliveries s)) rest" for k rest
    using deliveryCodec.rd_counted_put [OF b, of "om_values (cs_deliveries s)" d k rest] ok len(2) d
    by (simp add: controller_ok_def)
  have artifacts: "rd (r_counted kMaxStateEntries readArtifactEntry) k
      (le_store 4 (of_nat (length (cs_artifacts s)) :: u32) @ a @ rest) = k (om_values (cs_artifacts s)) rest" for k rest
    using artifactEntry.narrowed.rd_counted_put [OF b, of "om_values (cs_artifacts s)" a k rest] ok art
      writeArtifacts_eq [OF a] unfolding readArtifactEntry_def
    by (auto simp: controller_ok_def list_all_iff)
  have "emplace_all dr_id (om_values (cs_deliveries s)) [] = cs_deliveries s"
    and "emplace_all am_digest (om_values (cs_artifacts s)) [] = cs_artifacts s"
    using ok by (simp_all add: controller_ok_def emplace_all_values)
  then show ?thesis
    unfolding bs controller_decodeSnapshot_def rd_run_def forget_contact_def
    using ok by (simp add: node incarnation started targets deliveries artifacts [of _ "[]", simplified] u16.rd_put [OF _ w_u16_le_store] u64.rd_put [OF _ w_u64_def]
      rd_fail_if_def controller_ok_def forgotten_values [OF ok]
      r_requireEnd_def rd_def [of r_requireEnd] rd_return_def Result_map_def)
qed

end
