(* ===== verification/Files.thy ===== *)
theory Files
  imports Storage
begin

text \<open>
  The calls of \<^verbatim>\<open>std::filesystem\<close> and the file idioms that the target agent and the artifact store share:
  size, presence, removal and renaming with an error code, names and extensions of paths, and the
  blocks a reading loop sees.
\<close>

subsection \<open>Calls with an error code\<close>

text \<open>\<^verbatim>\<open>std::filesystem::file_size\<close>, \<^verbatim>\<open>exists\<close>, \<^verbatim>\<open>remove\<close> and \<^verbatim>\<open>rename\<close>.\<close>

definition fs_file_size :: "string \<Rightarrow> u64 option io" where
  "fs_file_size path w =
     (case w_disk w path of
        None \<Rightarrow> (None, w)
      | Some c \<Rightarrow> (case os_call w of (ok, w') \<Rightarrow> (if ok then Some (of_nat (length c)) else None, w')))"

definition fs_exists :: "string \<Rightarrow> bool io" where
  "fs_exists path w = (case os_call w of (ok, w') \<Rightarrow> (ok \<and> w_disk w path \<noteq> None, w'))"

definition fs_remove :: "string \<Rightarrow> bool io" where
  "fs_remove path w =
     (case w_disk w path of None \<Rightarrow> (False, w) | Some _ \<Rightarrow> os_change (RemoveFile path) w)"

definition fs_rename :: "string \<Rightarrow> string \<Rightarrow> bool io" where
  "fs_rename source destination w =
     (case w_disk w source of None \<Rightarrow> (False, w) | Some _ \<Rightarrow> os_change (RenameFile source destination) w)"

text \<open>A probe of a path: whether the call failed, and whether a regular file is there.\<close>

definition fs_probe :: "string \<Rightarrow> (bool \<times> bool) io" where
  "fs_probe path w = (case os_call w of (ok, w') \<Rightarrow> ((\<not> ok, ok \<and> w_disk w path \<noteq> None), w'))"

lemma fs_quiet:
  "quiet w \<Longrightarrow> fs_file_size path w = (map_option (\<lambda>c. of_nat (length c)) (w_disk w path), w)"
  "quiet w \<Longrightarrow> fs_exists path w = (w_disk w path \<noteq> None, w)"
  "quiet w \<Longrightarrow> fs_remove path w =
     (case w_disk w path of None \<Rightarrow> (False, w) | Some _ \<Rightarrow> (True, perform (RemoveFile path) w))"
  "quiet w \<Longrightarrow> fs_rename path q w =
     (case w_disk w path of None \<Rightarrow> (False, w) | Some _ \<Rightarrow> (True, perform (RenameFile path q) w))"
  "quiet w \<Longrightarrow> fs_probe path w = ((False, w_disk w path \<noteq> None), w)"
  by (simp_all add: fs_file_size_def fs_exists_def fs_remove_def fs_rename_def fs_probe_def os_quiet
      split: option.splits)

subsection \<open>What a call does to the disk\<close>

lemma os_outcome_disk [simp]: "w_disk (snd (os_outcome w)) = w_disk w"
  by (simp add: os_outcome_def split: list.splits)

lemma os_outcome_disk': "os_outcome w = (x, w') \<Longrightarrow> w_disk w' = w_disk w"
  using os_outcome_disk [of w] by simp

lemma os_call_disk: "os_call w = (ok, w') \<Longrightarrow> w_disk w' = w_disk w"
  by (auto simp: os_call_def dest: os_outcome_disk' split: prod.splits)

lemma os_change_disk:
  "os_change oper w = (ok, w') \<Longrightarrow> w_disk w' = (if ok then exec_op oper (w_disk w) else w_disk w)"
  by (auto simp: os_change_def dest: os_outcome_disk' split: prod.splits option.splits)

lemma fwrite_at_disk:
  assumes "fwrite_at p off bs w = (ok, w')"
  shows "q \<noteq> p \<Longrightarrow> w_disk w' q = w_disk w q"
    and "ok \<Longrightarrow> w_disk w' = exec_op (WriteAt p off bs) (w_disk w)"
  using assms
  by (auto simp: fwrite_at_def dest!: os_outcome_disk' split: prod.splits option.splits)

lemma fs_remove_disk: "fs_remove p w = (ok, w') \<Longrightarrow> q \<noteq> p \<Longrightarrow> w_disk w' q = w_disk w q"
  by (auto simp: fs_remove_def dest!: os_change_disk split: option.splits if_splits)

subsection \<open>Names\<close>

text \<open>\<^verbatim>\<open>path::filename\<close> and \<^verbatim>\<open>path::extension\<close>: a leading dot does not start an extension.\<close>

definition path_filename :: "string \<Rightarrow> string" where
  "path_filename p = rev (takeWhile (\<lambda>c. c \<noteq> CHR ''/'') (rev p))"

definition path_extension :: "string \<Rightarrow> string" where
  "path_extension p =
     (let name = path_filename p; tail = takeWhile (\<lambda>c. c \<noteq> CHR ''.'') (rev name) in
      if length tail + 1 < length name \<and> name \<noteq> ''..'' then CHR ''.'' # rev tail else [])"

subsection \<open>Blocks\<close>

function file_blocks :: "nat \<Rightarrow> bytes \<Rightarrow> bytes list" where
  "file_blocks n bs = (if n = 0 \<or> bs = [] then [] else take n bs # file_blocks n (drop n bs))"
  by pat_completeness auto

termination
  by (relation "measure (\<lambda>(n, bs). length bs)") auto

declare file_blocks.simps [simp del]

lemma concat_file_blocks: "0 < n \<Longrightarrow> concat (file_blocks n bs) = bs"
proof (induction n bs rule: file_blocks.induct)
  case (1 n bs)
  then show ?case by (subst file_blocks.simps) auto
qed

end
