(* ===== verification/Store.thy ===== *)
theory Store
  imports StateController Files
begin

text \<open>
  The durable store of \<^verbatim>\<open>include/cf/store.hpp\<close>: a state kept in memory, a journal of its changes and a
  two-slot snapshot, with the offline loaders of \<^verbatim>\<open>src/state.cpp\<close>. The class is a template over a state
  and its codec; the model takes the codec as a value. The outer option is undefined behaviour in the
  journal scan or an abort in an encoder.

  The locale \<open>state_codec\<close> states what the store needs of a codec; it is interpreted for the codecs of
  the agent and of the controller, and the recovery lemmas are proved once for both.
\<close>

subsection \<open>Opening\<close>

record StoreOptions =
  so_directory :: string
  so_name :: string
  so_compactAfterBytes :: nat
  so_durable :: bool

record StoreRecovery =
  sr_journal :: JournalRecovery
  sr_snapshotLoaded :: bool
  sr_snapshotSlot :: char
  sr_snapshotCovered :: Sequence
  sr_snapshotDetail :: string
  sr_recordsReplayed :: nat
  sr_compactedOnOpen :: bool

definition emptyStoreRecovery :: StoreRecovery where
  "emptyStoreRecovery =
     \<lparr>sr_journal = emptyJournalRecovery, sr_snapshotLoaded = False, sr_snapshotSlot = CHR ''?'',
      sr_snapshotCovered = 0, sr_snapshotDetail = [], sr_recordsReplayed = 0, sr_compactedOnOpen = False\<rparr>"

definition StoreRecovery_render :: "StoreRecovery \<Rightarrow> string" where
  "StoreRecovery_render r =
     ''snapshot='' @ (if sr_snapshotLoaded r then ''loaded'' else ''none'')
     @ (if sr_snapshotLoaded r
        then ''('' @ [sr_snapshotSlot r] @ '' covered='' @ to_string (unat (sr_snapshotCovered r)) @ '')''
        else [])
     @ '' journal='' @ JournalRecovery_render (sr_journal r)
     @ '' replayed='' @ to_string (sr_recordsReplayed r)
     @ (if sr_snapshotDetail r \<noteq> [] then '' snapshot-notes='' @ sr_snapshotDetail r else [])"

record 's DurableStore =
  ds_options :: StoreOptions
  ds_journal :: Journal
  ds_state :: 's
  ds_failed :: bool

definition snapshot_path :: "StoreOptions \<Rightarrow> string" where
  "snapshot_path options = so_directory options @ ''/'' @ so_name options @ ''.snapshot''"

definition journal_path :: "StoreOptions \<Rightarrow> string" where
  "journal_path options = so_directory options @ ''/'' @ so_name options @ ''.journal''"

text \<open>The base of the segment: the payload of the first segment-start record.\<close>

definition segment_base :: "JournalRecord list \<Rightarrow> Sequence result" where
  "segment_base records =
     (case List.find (\<lambda>r. jr_type r = SegmentStart) records of
        None \<Rightarrow> Inl IntegrityFailure
      | Some r \<Rightarrow>
          fail_if (length (jr_payload r) \<noteq> 8) IntegrityFailure
          (fail_if (le_load (jr_payload r) = (0 :: u64)) IntegrityFailure
          (Inr (le_load (jr_payload r)))))"

text \<open>Replaying the records beyond the snapshot; the count is of the records applied so far.\<close>

fun replay :: "'s StateCodec \<Rightarrow> Sequence \<Rightarrow> JournalRecord list \<Rightarrow> 's \<Rightarrow> nat \<Rightarrow> 's result \<times> nat" where
  "replay C covered [] s n = (Inr s, n)"
| "replay C covered (r # rs) s n =
     (if jr_type r = SegmentStart then replay C covered rs s n
      else if jr_sequence r \<le> covered then replay C covered rs s n
      else
        (case sc_apply C s (jr_type r) (jr_payload r) of
           (_, Inl e) \<Rightarrow> (Inl e, n)
         | (s', Inr _) \<Rightarrow> replay C covered rs s' (Suc n)))"

definition replay_journal ::
  "'s StateCodec \<Rightarrow> StoreOptions \<Rightarrow> Journal \<Rightarrow> JournalRecord list \<Rightarrow> 's \<Rightarrow> StoreRecovery
     \<Rightarrow> 's DurableStore result \<times> StoreRecovery" where
  "replay_journal C options journal records s recovery =
     (case segment_base records of
        Inl e \<Rightarrow> (Inl e, recovery)
      | Inr baseSequence \<Rightarrow>
          let covered = (if sr_snapshotLoaded recovery then sr_snapshotCovered recovery else 0) in
          if baseSequence > covered + 1 then (Inl IntegrityFailure, recovery)
          else
            (case replay C covered records s (sr_recordsReplayed recovery) of (result, n) \<Rightarrow>
               (cf_try result (\<lambda>s'. Inr \<lparr>ds_options = options, ds_journal = journal, ds_state = s',
                                         ds_failed = False\<rparr>),
                recovery\<lparr>sr_recordsReplayed := n\<rparr>)))"

definition open_journal_and_replay ::
  "'s StateCodec \<Rightarrow> StoreOptions \<Rightarrow> 's \<Rightarrow> StoreRecovery
     \<Rightarrow> ('s DurableStore result \<times> StoreRecovery) option io" where
  "open_journal_and_replay C options s recovery w =
     (case Journal_open (journal_path options) kMaxJournalRecordBytes (so_durable options) w of
        (None, w1) \<Rightarrow> (None, w1)
      | (Some (Inl e, jr), w1) \<Rightarrow> (Some (Inl e, recovery\<lparr>sr_journal := jr\<rparr>), w1)
      | (Some (Inr journal, jr), w1) \<Rightarrow>
          (case readFile (journal_path options) w1 of
             (None, w2) \<Rightarrow> (None, w2)
           | (Some (Inl e, jr2), w2) \<Rightarrow> (Some (Inl e, recovery\<lparr>sr_journal := jr2\<rparr>), w2)
           | (Some (Inr records, jr2), w2) \<Rightarrow>
               (Some (replay_journal C options journal records s
                  (recovery\<lparr>sr_journal :=
                     (if rcv_outcome jr = JournalOutcome.Created
                      then jr2\<lparr>rcv_outcome := JournalOutcome.Created\<rparr> else jr2)\<rparr>)), w2)))"

definition DurableStore_open ::
  "'s StateCodec \<Rightarrow> StoreOptions \<Rightarrow> StoreRecovery \<Rightarrow> ('s DurableStore result \<times> StoreRecovery) option io" where
  "DurableStore_open C options recovery w =
     (if so_directory options = [] then (Some (Inl InvalidArgument, recovery), w)
      else
        (case SnapshotFile_load (snapshot_path options) kMaxSnapshotBytes w of ((snapshot, detail), w1) \<Rightarrow>
         let recovery1 = recovery\<lparr>sr_snapshotDetail := detail\<rparr> in
         case snapshot of
           Inr l \<Rightarrow>
             (case sc_decodeSnapshot C (ld_payload l) of
                Inl e \<Rightarrow> (Some (Inl e, recovery1), w1)
              | Inr s \<Rightarrow>
                  open_journal_and_replay C options s
                    (recovery1\<lparr>sr_snapshotLoaded := True, sr_snapshotSlot := ld_slot l,
                               sr_snapshotCovered := ld_coveredSequence l\<rparr>) w1)
         | Inl e \<Rightarrow>
             if e \<noteq> NotFound then (Some (Inl e, recovery1), w1)
             else open_journal_and_replay C options (sc_initial C) recovery1 w1))"

subsection \<open>Committing and compacting\<close>

definition DurableStore_lastSequence :: "'s DurableStore \<Rightarrow> Sequence" where
  "DurableStore_lastSequence st = jn_lastSequence (ds_journal st)"

definition DurableStore_journalBytes :: "'s DurableStore \<Rightarrow> world \<Rightarrow> nat" where
  "DurableStore_journalBytes st w = Journal_sizeBytes (ds_journal st) w"

definition DurableStore_commit ::
  "'s StateCodec \<Rightarrow> 's DurableStore \<Rightarrow> JournalRecordType \<Rightarrow> bytes \<Rightarrow> (status \<times> 's DurableStore) io" where
  "DurableStore_commit C st t payload w =
     (if ds_failed st then ((Inl Internal, st), w)
      else if length payload > jn_maxRecordBytes (ds_journal st) then ((Inl OversizePayload, st), w)
      else
        (case sc_apply C (ds_state st) t payload of
           (s, Inl e) \<Rightarrow> ((Inl e, st\<lparr>ds_state := s\<rparr>), w)
         | (s, Inr _) \<Rightarrow>
             (case Journal_append (ds_journal st) t payload w of
                ((status, j), w1) \<Rightarrow> ((status, st\<lparr>ds_state := s, ds_journal := j\<rparr>), w1))))"

definition DurableStore_compact ::
  "'s StateCodec \<Rightarrow> 's DurableStore \<Rightarrow> (status \<times> 's DurableStore) option io" where
  "DurableStore_compact C st w =
     (if ds_failed st then (Some (Inl Internal, st), w)
      else
        (case sc_encodeSnapshot C (ds_state st) of
           None \<Rightarrow> (None, w)
         | Some (Inl e) \<Rightarrow> (Some (Inl e, st), w)
         | Some (Inr snapshot) \<Rightarrow>
             (let covered = jn_lastSequence (ds_journal st) in
              case SnapshotFile_write (snapshot_path (ds_options st)) kMaxSnapshotBytes covered snapshot w of
                (Inl e, w1) \<Rightarrow> (Some (Inl e, st), w1)
              | (Inr _, w1) \<Rightarrow>
                  (case restartSegment (ds_journal st) (covered + 1) w1 of
                     ((status, j), w2) \<Rightarrow> (Some (status, st\<lparr>ds_journal := j\<rparr>), w2)))))"

definition DurableStore_compactIfNeeded ::
  "'s StateCodec \<Rightarrow> 's DurableStore \<Rightarrow> (status \<times> 's DurableStore) option io" where
  "DurableStore_compactIfNeeded C st w =
     (if Journal_sizeBytes (ds_journal st) w < so_compactAfterBytes (ds_options st)
      then (Some (Inr (), st), w)
      else DurableStore_compact C st w)"

definition DurableStore_markFailed :: "'s DurableStore \<Rightarrow> 's DurableStore" where
  "DurableStore_markFailed st = st\<lparr>ds_failed := True\<rparr>"

subsection \<open>Offline loading\<close>

definition offline_base :: "JournalRecord list \<Rightarrow> Sequence" where
  "offline_base records =
     (case List.find (\<lambda>r. jr_type r = SegmentStart \<and> length (jr_payload r) = 8) records of
        None \<Rightarrow> 0 | Some r \<Rightarrow> le_load (jr_payload r))"

definition loadOffline :: "'s StateCodec \<Rightarrow> string \<Rightarrow> string \<Rightarrow> 's result option io" where
  "loadOffline C directory name w =
     (case SnapshotFile_load (directory @ ''/'' @ name @ ''.snapshot'') kMaxSnapshotBytes w of
        ((snapshot, _), w1) \<Rightarrow>
      case (case snapshot of
              Inl _ \<Rightarrow> Inr (sc_initial C, 0)
            | Inr l \<Rightarrow> cf_try (sc_decodeSnapshot C (ld_payload l)) (\<lambda>s. Inr (s, ld_coveredSequence l))) of
        Inl e \<Rightarrow> (Some (Inl e), w1)
      | Inr (s, covered) \<Rightarrow>
          (case readFile (directory @ ''/'' @ name @ ''.journal'') w1 of
             (None, w2) \<Rightarrow> (None, w2)
           | (Some (Inl e, _), w2) \<Rightarrow> (Some (Inl e), w2)
           | (Some (Inr records, _), w2) \<Rightarrow>
               (Some (fail_if (offline_base records > covered + 1) IntegrityFailure
                        (fst (replay C covered records s 0))), w2)))"

definition loadControllerStateOffline :: "string \<Rightarrow> ControllerState result option io" where
  "loadControllerStateOffline directory = loadOffline ControllerStateCodec directory ''controller''"

definition loadAgentStateOffline :: "string \<Rightarrow> AgentState result option io" where
  "loadAgentStateOffline directory = loadOffline AgentStateCodec directory ''agent''"

subsection \<open>What the disk holds\<close>

text \<open>A slot as the loader sees it, and the slot it prefers.\<close>

definition slot_view :: "disk \<Rightarrow> string \<Rightarrow> (Sequence \<times> bytes) option" where
  "slot_view d p =
     (case d p of
        None \<Rightarrow> None
      | Some c \<Rightarrow>
          if length c > kMaxSnapshotBytes + kSnapshotHeaderBytes then None
          else (case check_slot kMaxSnapshotBytes c of Inl _ \<Rightarrow> None | Inr x \<Rightarrow> Some x))"

definition better :: "char \<Rightarrow> (Sequence \<times> bytes) option \<Rightarrow> Loaded option \<Rightarrow> Loaded option" where
  "better slot v best =
     (case v of
        None \<Rightarrow> best
      | Some (c, p) \<Rightarrow>
          if best = None \<or> c > ld_coveredSequence (the best)
          then Some \<lparr>ld_coveredSequence = c, ld_payload = p, ld_slot = slot\<rparr> else best)"

definition best_snapshot :: "disk \<Rightarrow> string \<Rightarrow> Loaded option" where
  "best_snapshot d path =
     better CHR ''b'' (slot_view d (slotPath path CHR ''b''))
       (better CHR ''a'' (slot_view d (slotPath path CHR ''a'')) None)"

lemma load_slot_quiet:
  "quiet w \<Longrightarrow> \<exists>notes'. load_slot path kMaxSnapshotBytes slot (best, notes) w =
     ((better slot (slot_view (w_disk w) (slotPath path slot)) best, notes'), w)"
  by (auto simp: load_slot_def readFileBounded_quiet slot_view_def better_def split: option.splits sum.splits)

lemma SnapshotFile_load_quiet:
  assumes "quiet w"
  obtains detail where "SnapshotFile_load path kMaxSnapshotBytes w =
    ((case best_snapshot (w_disk w) path of None \<Rightarrow> Inl NotFound | Some l \<Rightarrow> Inr l, detail), w)"
proof -
  obtain n1 where a: "load_slot path kMaxSnapshotBytes CHR ''a'' (None, []) w =
      ((better CHR ''a'' (slot_view (w_disk w) (slotPath path CHR ''a'')) None, n1), w)"
    using load_slot_quiet [OF assms] by blast
  obtain n2 where "load_slot path kMaxSnapshotBytes CHR ''b''
      (better CHR ''a'' (slot_view (w_disk w) (slotPath path CHR ''a'')) None, n1) w =
      ((best_snapshot (w_disk w) path, n2), w)"
    unfolding best_snapshot_def using load_slot_quiet [OF assms] by blast
  with a show ?thesis using that by (simp add: SnapshotFile_load_def)
qed

definition target_slot :: "disk \<Rightarrow> string \<Rightarrow> char" where
  "target_slot d path =
     (case best_snapshot d path of
        Some l \<Rightarrow> if ld_slot l = CHR ''a'' then CHR ''b'' else CHR ''a'' | None \<Rightarrow> CHR ''a'')"

lemma SnapshotFile_write_quiet:
  assumes "quiet w" and "path \<noteq> []" and "length payload \<le> kMaxSnapshotBytes"
  shows "SnapshotFile_write path kMaxSnapshotBytes covered payload w =
    (Inr (target_slot (w_disk w) path),
     after_ops (atomic_ops w (slotPath path (target_slot (w_disk w) path)) (snapshot_bytes covered payload))
       (w\<lparr>w_draws := Suc (w_draws w)\<rparr>))"
  using assms(2,3) writeFileAtomic_quiet [OF assms(1)]
  by (rule_tac SnapshotFile_load_quiet [OF assms(1), of path])
    (auto simp: SnapshotFile_write_def target_slot_def Let_def split: option.splits)

text \<open>
  After the new image went to the other slot the loader finds it, unless the old one covers as much:
  then it finds one of the two.
\<close>

lemma slot_view_written:
  assumes "d p = Some (snapshot_bytes covered payload)" and "length payload \<le> kMaxSnapshotBytes"
  shows "slot_view d p = Some (covered, payload)"
proof -
  have "length (snapshot_bytes covered payload) = kSnapshotHeaderBytes + length payload"
    by (simp add: snapshot_bytes_def kSnapshotHeaderBytes_def)
  moreover have "check_slot kMaxSnapshotBytes (snapshot_bytes covered payload) = Inr (covered, payload)"
    using assms(2) by (intro check_slot_bytes) (simp_all add: kMaxSnapshotBytes_def)
  ultimately show ?thesis using assms by (simp add: slot_view_def)
qed

lemma slot_view_other: "d p = d' p \<Longrightarrow> slot_view d p = slot_view d' p"
  by (simp add: slot_view_def)

definition other_slot :: "char \<Rightarrow> char" where
  "other_slot slot = (if slot = CHR ''a'' then CHR ''b'' else CHR ''a'')"

lemma best_after_write:
  assumes "d' (slotPath path (target_slot d path)) = Some (snapshot_bytes covered payload)"
    and "length payload \<le> kMaxSnapshotBytes"
    and "d' (slotPath path (other_slot (target_slot d path))) = d (slotPath path (other_slot (target_slot d path)))"
    and "\<And>l. best_snapshot d path = Some l \<Longrightarrow> ld_coveredSequence l \<le> covered"
  shows "\<exists>l. best_snapshot d' path = Some l \<and> ld_coveredSequence l = covered
    \<and> (ld_payload l = payload \<or> best_snapshot d path = Some l)"
proof -
  have v: "slot_view d' (slotPath path (target_slot d path)) = Some (covered, payload)"
    using slot_view_written [of d' _ covered payload, OF assms(1,2)] .
  have o: "slot_view d' (slotPath path (other_slot (target_slot d path))) =
      slot_view d (slotPath path (other_slot (target_slot d path)))"
    by (rule slot_view_other [of d' _ d, OF assms(3)])
  show ?thesis
    using v o assms(4)
    by (cases "slot_view d (slotPath path CHR ''a'')"; cases "slot_view d (slotPath path CHR ''b'')")
      (auto simp: best_snapshot_def better_def target_slot_def other_slot_def simp flip: not_less)
qed

subsection \<open>The files of a store are different files\<close>

lemma store_paths:
  "journal_path opts \<noteq> slotPath (snapshot_path opts) slot"
  "journal_path opts \<noteq> temp_path w (slotPath (snapshot_path opts) slot)"
  "slotPath p slot = slotPath p slot' \<longleftrightarrow> slot = slot'"
  "slotPath p slot \<noteq> temp_path w (slotPath p slot')"
  by (simp_all add: journal_path_def snapshot_path_def slotPath_def temp_path_def)

lemma other_slot_neq [simp]: "other_slot slot \<noteq> slot"
  by (simp add: other_slot_def)

lemma target_slot_cases: "target_slot d path = CHR ''a'' \<or> target_slot d path = CHR ''b''"
  by (simp add: target_slot_def split: option.splits)

subsection \<open>Sequences of a sound journal\<close>

lemma next_sequence:
  assumes "(v :: u64) \<noteq> - 1"
  shows "v < v + 1"
  using checkedAdd_Some [OF checkedAdd_1 [OF assms]] by (simp add: word_less_nat_alt)

lemma sequence_follows: "\<not> sequence_breaks (Some v) s \<Longrightarrow> v < s"
  by (auto simp: sequence_breaks_def word_less_nat_alt dest: checkedAdd_Some split: option.splits)

lemma consecutive_le_last:
  "consecutive e rs \<Longrightarrow> r \<in> set rs \<Longrightarrow> jr_sequence r \<le> jr_sequence (last rs)"
proof (induction rs arbitrary: e r)
  case (Cons q rs)
  note prems = Cons.prems
  have c: "consecutive (Some (jr_sequence q)) rs" using Cons.prems(1) by simp
  have le: "p \<in> set rs \<Longrightarrow> jr_sequence p \<le> jr_sequence (last rs)" for p using c by (rule Cons.IH)
  show ?case
  proof (cases rs)
    case Nil
    with prems show ?thesis by simp
  next
    case (Cons q2 rs2)
    have "jr_sequence q < jr_sequence q2" using c Cons by (simp add: sequence_follows)
    moreover have "jr_sequence q2 \<le> jr_sequence (last rs)"
      by (rule le) (simp add: Cons)
    ultimately show ?thesis
      using le [of r] prems(2) Cons by auto
  qed
qed simp

subsection \<open>Replaying\<close>

lemma replay_count: "fst (replay C covered rs s n) = fst (replay C covered rs s m)"
  by (induction rs arbitrary: s n m) (auto split: prod.splits sum.splits)

lemma replay_covered:
  "(\<And>r. r \<in> set rs \<Longrightarrow> jr_sequence r \<le> covered) \<Longrightarrow> replay C covered rs s n = (Inr s, n)"
  by (induction rs) auto

lemma replay_snoc:
  assumes "fst (replay C covered rs s n) = Inr s'" and "jr_type r \<noteq> SegmentStart"
    and "covered < jr_sequence r" and "sc_apply C s' (jr_type r) (jr_payload r) = (s'', Inr ())"
  shows "fst (replay C covered (rs @ [r]) s n) = Inr s''"
  using assms(1)
proof (induction rs arbitrary: s n)
  case Nil
  have "\<not> jr_sequence r \<le> covered" using assms(3) by (simp add: not_le)
  with Nil show ?case using assms(2,4) by simp
next
  case (Cons q rs)
  then show ?case by (auto split: if_splits prod.splits sum.splits)
qed

subsection \<open>The contract of a state codec\<close>

text \<open>
  \<open>ok\<close> is the invariant of the state, \<open>forget\<close> what a restart loses of it (nothing for the agent, the
  contact flags for the controller) and \<open>fits\<close> what a snapshot can hold.
\<close>

locale state_codec =
  fixes C :: "'s StateCodec" and ok :: "'s \<Rightarrow> bool" and forget :: "'s \<Rightarrow> 's" and fits :: "'s \<Rightarrow> bool"
  assumes initial_ok: "ok (sc_initial C)"
    and apply_ok: "ok s \<Longrightarrow> ok (fst (sc_apply C s t payload))"
    and forget_ok: "ok s \<Longrightarrow> ok (forget s)"
    and forget_initial: "forget (sc_initial C) = sc_initial C"
    and forget_forget: "forget (forget s) = forget s"
    and apply_forget: "map_prod forget id (sc_apply C s t payload) = sc_apply C (forget s) t payload"
    and decode_encode: "ok s \<Longrightarrow> fits s \<Longrightarrow> sc_encodeSnapshot C s = Some (Inr bs) \<Longrightarrow>
      sc_decodeSnapshot C bs = Inr (forget s)"
    and apply_segment: "snd (sc_apply C s SegmentStart payload) \<noteq> Inr ()"

lemma forget_contact_idem [simp]: "forget_contact (forget_contact s) = forget_contact s"
  by (simp add: forget_contact_def case_prod_unfold comp_def)

lemma forget_contact_ok: "controller_ok s \<Longrightarrow> controller_ok (forget_contact s)"
  by (auto simp: controller_ok_def forget_contact_def om_values_map keyed_map list_all_iff)

lemma apply_segment_start:
  "agent_apply s SegmentStart payload = (s, Inl UnexpectedMessage)"
  "controller_apply c SegmentStart payload = (c, Inl UnexpectedMessage)"
  by (simp_all add: agent_apply_def controller_apply_def)

lemma map_prod_same: "map_prod (\<lambda>s. s) id p = p"
  by (cases p) simp

interpretation agentStore: state_codec AgentStateCodec agent_ok "\<lambda>s. s" "\<lambda>_. True"
  by unfold_locales
    (simp_all add: AgentStateCodec_def emptyAgentState_ok agent_apply_ok agent_decode_encode
      apply_segment_start map_prod_same)

lemma forget_emptyControllerState: "forget_contact emptyControllerState = emptyControllerState"
  by (simp add: forget_contact_def emptyControllerState_def)

interpretation controllerStore: state_codec ControllerStateCodec controller_ok forget_contact
  "\<lambda>s. length (cs_artifacts s) \<le> kMaxStateEntries"
  by unfold_locales
    (simp_all add: ControllerStateCodec_def emptyControllerState_ok controller_apply_ok forget_contact_ok
      controller_apply_forget controller_decode_encode apply_segment_start forget_emptyControllerState)

subsection \<open>What is stored, and that opening finds it\<close>

definition loaded :: "'s StateCodec \<Rightarrow> StoreOptions \<Rightarrow> disk \<Rightarrow> ('s \<times> Sequence) result" where
  "loaded C opts d =
     (case best_snapshot d (snapshot_path opts) of
        None \<Rightarrow> Inr (sc_initial C, 0)
      | Some l \<Rightarrow> cf_try (sc_decodeSnapshot C (ld_payload l)) (\<lambda>s. Inr (s, ld_coveredSequence l)))"

definition segment :: "Sequence \<Rightarrow> JournalRecord list \<Rightarrow> bool" where
  "segment base rs \<longleftrightarrow>
     journal_ok kMaxJournalRecordBytes (segment_start base # rs) \<and> (\<forall>r\<in>set rs. jr_type r \<noteq> SegmentStart)"

definition store_journal :: "StoreOptions \<Rightarrow> Sequence \<Rightarrow> JournalRecord list \<Rightarrow> Journal" where
  "store_journal opts base rs =
     open_journal (journal_path opts) kMaxJournalRecordBytes (so_durable opts) (segment_start base # rs)"

definition stored :: "'s StateCodec \<Rightarrow> StoreOptions \<Rightarrow> disk \<Rightarrow> Journal \<Rightarrow> 's \<Rightarrow> bool" where
  "stored C opts d j s \<longleftrightarrow>
     (\<exists>base rs covered s0.
        d (journal_path opts) = Some (journal_file (segment_start base # rs)) \<and> segment base rs
        \<and> j = store_journal opts base rs \<and> loaded C opts d = Inr (s0, covered)
        \<and> base \<le> covered + 1 \<and> covered \<le> jn_lastSequence j \<and> fst (replay C covered rs s0 0) = Inr s)"

lemma segment_base_start:
  assumes "segment base rs"
  shows "segment_base (segment_start base # rs) = Inr base"
    and "offline_base (segment_start base # rs) = base"
proof -
  have "base \<noteq> 0" using assms by (auto simp: segment_def journal_ok_def record_ok_def segment_start_def)
  moreover have "le_load (storeLe64 base) = base"
    using loadLe64_store(2) [of base] by (simp add: loadLe64_def)
  ultimately show "segment_base (segment_start base # rs) = Inr base"
    and "offline_base (segment_start base # rs) = base"
    by (simp_all add: segment_base_def offline_base_def segment_start_def)
qed

lemma replay_segment: "replay C covered (segment_start base # rs) s n = replay C covered rs s n"
  by (simp add: segment_start_def)

lemma readFile_clean:
  assumes "quiet w" and "w_disk w path = Some (journal_file rs)" and "journal_ok kMaxJournalRecordBytes rs"
  shows "readFile path w = (Some (Inr rs, (recovered emptyJournalRecovery rs)\<lparr>rcv_outcome := Clean\<rparr>), w)"
  using scanInto_clean [OF assms] by (simp add: readFile_def)

lemma journal_path_nonempty [simp]: "journal_path opts \<noteq> []" "snapshot_path opts \<noteq> []"
  by (simp_all add: journal_path_def snapshot_path_def)

definition opened :: "StoreOptions \<Rightarrow> Journal \<Rightarrow> 's \<Rightarrow> 's DurableStore" where
  "opened opts j s = \<lparr>ds_options = opts, ds_journal = j, ds_state = s, ds_failed = False\<rparr>"

lemma loaded_other:
  assumes "\<And>slot. d' (slotPath (snapshot_path opts) slot) = d (slotPath (snapshot_path opts) slot)"
  shows "loaded C opts d' = loaded C opts d"
  using assms by (simp add: loaded_def best_snapshot_def slot_view_def)

lemma loaded_journal: "loaded C opts (d(journal_path opts \<mapsto> file)) = loaded C opts d"
  by (rule loaded_other) (simp add: store_paths(1) [symmetric])

lemma DurableStore_open_loaded:
  assumes "quiet w" and "loaded C opts (w_disk w) = Inr (s0, covered)" and "so_directory opts \<noteq> []"
  obtains rcv where "(if sr_snapshotLoaded rcv then sr_snapshotCovered rcv else 0) = covered"
    and "DurableStore_open C opts emptyStoreRecovery w = open_journal_and_replay C opts s0 rcv w"
proof -
  obtain detail where d: "SnapshotFile_load (snapshot_path opts) kMaxSnapshotBytes w =
      ((case best_snapshot (w_disk w) (snapshot_path opts) of None \<Rightarrow> Inl NotFound | Some l \<Rightarrow> Inr l, detail), w)"
    using SnapshotFile_load_quiet [OF assms(1)] by blast
  show ?thesis
  proof (cases "best_snapshot (w_disk w) (snapshot_path opts)")
    case None
    then show ?thesis
      using that [of "emptyStoreRecovery\<lparr>sr_snapshotDetail := detail\<rparr>"] assms(2,3) d
      by (auto simp: DurableStore_open_def loaded_def emptyStoreRecovery_def)
  next
    case (Some l)
    then show ?thesis
      using that [of "emptyStoreRecovery\<lparr>sr_snapshotDetail := detail, sr_snapshotLoaded := True,
          sr_snapshotSlot := ld_slot l, sr_snapshotCovered := ld_coveredSequence l\<rparr>"] assms(2,3) d
      by (auto simp: DurableStore_open_def loaded_def emptyStoreRecovery_def cf_try_eq_Inr_iff Let_def)
  qed
qed

lemma replay_journal_segment:
  assumes "segment base rs" and "base \<le> covered + 1" and "fst (replay C covered rs s0 0) = Inr s"
    and "(if sr_snapshotLoaded rcv then sr_snapshotCovered rcv else 0) = covered"
  shows "\<exists>rcv'. replay_journal C opts j (segment_start base # rs) s0 rcv = (Inr (opened opts j s), rcv')"
proof -
  obtain n where "replay C covered (segment_start base # rs) s0 (sr_recordsReplayed rcv) = (Inr s, n)"
    using assms(3) replay_count unfolding replay_segment by (metis prod.collapse)
  then show ?thesis
    unfolding replay_journal_def segment_base_start(1) [OF assms(1)] assms(4)
    using assms(2) by (simp add: opened_def del: replay.simps)
qed

text \<open>Opening, given what the journal's own recovery leaves.\<close>

lemma open_after_journal:
  assumes "quiet w" and "loaded C opts (w_disk w) = Inr (s0, covered)" and "so_directory opts \<noteq> []"
    and "segment base rs" and "base \<le> covered + 1" and "fst (replay C covered rs s0 0) = Inr s"
    and "Journal_open (journal_path opts) kMaxJournalRecordBytes (so_durable opts) w =
      (Some (Inr (store_journal opts base rs), jr), w1)"
    and "quiet w1" and "w_disk w1 (journal_path opts) = Some (journal_file (segment_start base # rs))"
  shows "\<exists>rcv. DurableStore_open C opts emptyStoreRecovery w =
    (Some (Inr (opened opts (store_journal opts base rs) s), rcv), w1)"
proof -
  obtain rcv where rcv: "(if sr_snapshotLoaded rcv then sr_snapshotCovered rcv else 0) = covered"
    "DurableStore_open C opts emptyStoreRecovery w = open_journal_and_replay C opts s0 rcv w"
    by (rule DurableStore_open_loaded [OF assms(1-3)])
  have "journal_ok kMaxJournalRecordBytes (segment_start base # rs)"
    using assms(4) by (simp add: segment_def)
  then have "readFile (journal_path opts) w1 = (Some (Inr (segment_start base # rs),
      (recovered emptyJournalRecovery (segment_start base # rs))\<lparr>rcv_outcome := Clean\<rparr>), w1)"
    by (rule readFile_clean [OF assms(8,9)])
  moreover have "\<exists>rcv'. replay_journal C opts (store_journal opts base rs) (segment_start base # rs) s0
      (rcv\<lparr>sr_journal := x\<rparr>) = (Inr (opened opts (store_journal opts base rs) s), rcv')" for x
    by (rule replay_journal_segment [OF assms(4-6)]) (use rcv(1) in auto)
  ultimately show ?thesis
    unfolding rcv(2) open_journal_and_replay_def assms(7) by simp
qed

lemma open_stored:
  assumes "quiet w" and "stored C opts (w_disk w) j s" and "so_directory opts \<noteq> []"
  shows "\<exists>rcv. DurableStore_open C opts emptyStoreRecovery w = (Some (Inr (opened opts j s), rcv), w)"
proof -
  obtain base rs covered s0
    where f: "w_disk w (journal_path opts) = Some (journal_file (segment_start base # rs))" and g: "segment base rs"
      and j: "j = store_journal opts base rs" and l: "loaded C opts (w_disk w) = Inr (s0, covered)"
      and b: "base \<le> covered + 1" and r: "fst (replay C covered rs s0 0) = Inr s"
    using assms(2) by (auto simp: stored_def)
  have ok: "journal_ok kMaxJournalRecordBytes (segment_start base # rs)" and m: "0 < kMaxJournalRecordBytes"
    using g by (simp_all add: segment_def kMaxJournalRecordBytes_def)
  show ?thesis
    unfolding j
    by (rule open_after_journal [OF assms(1) l assms(3) g b r _ assms(1) f])
      (use Journal_open_clean [OF assms(1) f ok m journal_path_nonempty(1)] in \<open>simp add: store_journal_def\<close>)
qed

lemma open_stored_torn:
  assumes "quiet w" and "stored C opts d j s" and "so_directory opts \<noteq> []"
    and "w_disk w = d(journal_path opts \<mapsto> the (d (journal_path opts)) @ torn)"
    and "0 < length torn" and "length torn < 20"
  shows "\<exists>rcv w1. DurableStore_open C opts emptyStoreRecovery w = (Some (Inr (opened opts j s), rcv), w1)
    \<and> w_disk w1 = d"
proof -
  obtain base rs covered s0
    where f: "d (journal_path opts) = Some (journal_file (segment_start base # rs))" and g: "segment base rs"
      and j: "j = store_journal opts base rs" and l: "loaded C opts d = Inr (s0, covered)"
      and b: "base \<le> covered + 1" and r: "fst (replay C covered rs s0 0) = Inr s"
    using assms(2) by (auto simp: stored_def)
  let ?file = "journal_file (segment_start base # rs)"
  let ?w1 = "perform (TruncateTo (journal_path opts) (length ?file)) w"
  have ok: "journal_ok kMaxJournalRecordBytes (segment_start base # rs)" and m: "0 < kMaxJournalRecordBytes"
    using g by (simp_all add: segment_def kMaxJournalRecordBytes_def)
  have t: "w_disk w (journal_path opts) = Some (?file @ torn)" using assms(4) f by simp
  have l': "loaded C opts (w_disk w) = Inr (s0, covered)"
    using l assms(4) by (simp add: loaded_journal)
  have w1: "w_disk ?w1 = d" using assms(4) f by (simp add: fun_upd_idem)
  have "\<exists>rcv. DurableStore_open C opts emptyStoreRecovery w = (Some (Inr (opened opts j s), rcv), ?w1)"
    unfolding j
    by (rule open_after_journal [OF assms(1) l' assms(3) g b r])
      (use Journal_open_torn_header [OF assms(1) t ok m journal_path_nonempty(1) assms(5,6)] assms(1) w1 f
        in \<open>simp_all add: store_journal_def\<close>)
  with w1 show ?thesis by blast
qed

text \<open>The offline loader finds the same state.\<close>

lemma loadOffline_stored:
  assumes "quiet w" and "stored C opts (w_disk w) j s"
  shows "loadOffline C (so_directory opts) (so_name opts) w = (Some (Inr s), w)"
proof -
  obtain base rs covered s0
    where f: "w_disk w (journal_path opts) = Some (journal_file (segment_start base # rs))" "segment base rs"
      and l: "loaded C opts (w_disk w) = Inr (s0, covered)"
      and b: "base \<le> covered + 1" and r: "fst (replay C covered rs s0 0) = Inr s"
    using assms(2) by (auto simp: stored_def)
  obtain detail where d: "SnapshotFile_load (snapshot_path opts) kMaxSnapshotBytes w =
      ((case best_snapshot (w_disk w) (snapshot_path opts) of None \<Rightarrow> Inl NotFound | Some l \<Rightarrow> Inr l, detail), w)"
    using SnapshotFile_load_quiet [OF assms(1)] by blast
  have "journal_ok kMaxJournalRecordBytes (segment_start base # rs)" using f(2) by (simp add: segment_def)
  note read = readFile_clean [OF assms(1) f(1) this]
  have "(case (case best_snapshot (w_disk w) (snapshot_path opts) of None \<Rightarrow> Inl NotFound | Some l \<Rightarrow> Inr l) of
      Inl _ \<Rightarrow> Inr (sc_initial C, 0)
    | Inr l \<Rightarrow> cf_try (sc_decodeSnapshot C (ld_payload l)) (\<lambda>s. Inr (s, ld_coveredSequence l))) = Inr (s0, covered)"
    using l by (simp add: loaded_def split: option.splits)
  then show ?thesis
    using d read b r segment_base_start(2) [OF f(2)]
    unfolding loadOffline_def journal_path_def [symmetric] snapshot_path_def [symmetric]
    by (simp add: replay_segment fail_if_def del: replay.simps)
qed

subsection \<open>Every operation keeps what is stored\<close>

lemma store_journal_simps:
  "jn_path (store_journal opts base rs) = journal_path opts"
  "jn_maxRecordBytes (store_journal opts base rs) = kMaxJournalRecordBytes"
  "jn_lastSequence (store_journal opts base rs) = jr_sequence (last (segment_start base # rs))"
  "jn_recordCount (store_journal opts base rs) = Suc (length rs)"
  by (simp_all add: store_journal_def open_journal_def)

lemma store_journal_append:
  "(store_journal opts base rs)\<lparr>jn_lastSequence := jr_sequence r, jn_recordCount := Suc (jn_recordCount (store_journal opts base rs))\<rparr>
     = store_journal opts base (rs @ [r])"
  by (simp add: store_journal_def open_journal_def)

lemma Journal_append_success:
  assumes "Journal_append j t payload w = ((Inr (), j'), w')"
  shows "t \<noteq> Invalid" and "length payload \<le> jn_maxRecordBytes j" and "jn_lastSequence j \<noteq> - 1"
proof -
  have "checkedAdd (- 1 :: u64) 1 = None" by (simp add: checkedAdd_def)
  with assms show "t \<noteq> Invalid" and "length payload \<le> jn_maxRecordBytes j" and "jn_lastSequence j \<noteq> - 1"
    by (auto simp: Journal_append_def split: if_splits)
qed

lemma append_stored:
  assumes "stored C opts d j s" and "sc_apply C s t payload = (s', Inr ())" and "t \<noteq> Invalid"
    and "t \<noteq> SegmentStart" and "length payload \<le> kMaxJournalRecordBytes" and "jn_lastSequence j \<noteq> - 1"
  shows "stored C opts (d(journal_path opts \<mapsto> the (d (journal_path opts)) @ record_bytes (next_record j t payload)))
    (j\<lparr>jn_lastSequence := jn_lastSequence j + 1, jn_recordCount := Suc (jn_recordCount j)\<rparr>) s'"
proof -
  obtain base rs covered s0
    where f: "d (journal_path opts) = Some (journal_file (segment_start base # rs))" and g: "segment base rs"
      and j: "j = store_journal opts base rs" and l: "loaded C opts d = Inr (s0, covered)"
      and b: "base \<le> covered + 1" "covered \<le> jn_lastSequence j" and r: "fst (replay C covered rs s0 0) = Inr s"
    using assms(1) by (auto simp: stored_def)
  let ?r = "next_record j t payload"
  have nxt: "jr_sequence ?r = jn_lastSequence j + 1" "jn_lastSequence j < jn_lastSequence j + 1"
    using next_sequence [OF assms(6)] by (simp_all add: next_record_def)
  have "segment base (rs @ [?r])"
    using g assms(3-6) append_record_ok [of kMaxJournalRecordBytes "segment_start base # rs" ?r]
    by (simp add: segment_def next_record_def j store_journal_simps)
  moreover have "j\<lparr>jn_lastSequence := jn_lastSequence j + 1, jn_recordCount := Suc (jn_recordCount j)\<rparr>
      = store_journal opts base (rs @ [?r])"
    unfolding j store_journal_append [symmetric] by (simp add: next_record_def)
  moreover have "covered \<le> jn_lastSequence j + 1" and "covered < jr_sequence ?r"
    unfolding nxt(1) using order.strict_trans1 [OF b(2) nxt(2)] by (auto intro: less_imp_le)
  moreover have "fst (replay C covered (rs @ [?r]) s0 0) = Inr s'"
    using calculation(4) assms(2,4) by (intro replay_snoc [OF r]) (simp_all add: next_record_def)
  moreover have "the (d (journal_path opts)) @ record_bytes ?r = journal_file (segment_start base # (rs @ [?r]))"
    using f journal_file_simps(4) [of "segment_start base # rs" "[?r]"] by simp
  ultimately show ?thesis
    using l b(1) nxt(1) unfolding stored_def loaded_journal
    by (intro exI [of _ base] exI [of _ "rs @ [?r]"] exI [of _ covered] exI [of _ s0])
      (simp add: store_journal_simps)
qed

lemma stored_last:
  assumes "stored C opts d j s" and "loaded C opts d = Inr (s0, jn_lastSequence j)"
  shows "s = s0"
proof -
  obtain base rs where "segment base rs" and "j = store_journal opts base rs"
    and r: "fst (replay C (jn_lastSequence j) rs s0 0) = Inr s"
    using assms by (auto simp: stored_def)
  then have "r \<in> set rs \<Longrightarrow> jr_sequence r \<le> jn_lastSequence j" for r
    using consecutive_le_last [of None "segment_start base # rs" r]
    by (simp add: segment_def journal_ok_def store_journal_simps)
  with r show ?thesis by (simp add: replay_covered)
qed

lemma restart_stored:
  assumes "loaded C opts d = Inr (s, covered)" and "covered \<noteq> - 1"
  shows "stored C opts (d(journal_path opts \<mapsto> journal_file [segment_start (covered + 1)]))
    (store_journal opts (covered + 1) []) s"
proof -
  have "covered < covered + 1" using assms(2) by (rule next_sequence)
  then have "segment (covered + 1) []"
    by (auto simp: segment_def journal_ok_def record_ok_def segment_start_def sequence_breaks_def
        kMaxJournalRecordBytes_def word_gt_0)
  then show ?thesis
    using assms(1) \<open>covered < covered + 1\<close> unfolding stored_def loaded_journal
    by (intro exI [of _ "covered + 1"] exI [of _ "[]"] exI [of _ covered] exI [of _ s])
      (simp add: store_journal_simps segment_start_def)
qed

text \<open>The first open of a store creates its journal.\<close>

lemma Journal_open_created:
  assumes "quiet w" and "w_disk w path = None" and "path \<noteq> []"
  shows "\<exists>rcv w1. Journal_open path kMaxJournalRecordBytes durable w =
      (Some (Inr (open_journal path kMaxJournalRecordBytes durable [segment_start 1]), rcv), w1)
    \<and> quiet w1 \<and> w_disk w1 = (w_disk w)(path \<mapsto> journal_file [segment_start 1])"
proof -
  let ?w = "perform (WriteAt path 0 journalHeaderBytes) (perform (CreateFile path) w)"
  let ?j = "\<lparr>jn_path = path, jn_maxRecordBytes = kMaxJournalRecordBytes, jn_durable = durable,
      jn_lastSequence = 0, jn_recordCount = 0\<rparr>"
  have d: "w_disk ?w = (w_disk w)(path \<mapsto> journal_file [])" by (simp add: journal_file_def)
  then have f: "w_disk ?w path = Some (journal_file [])" by simp
  have "restartSegment ?j 1 ?w =
      ((Inr (), ?j\<lparr>jn_lastSequence := 1, jn_recordCount := 1\<rparr>), after_ops (restart_ops path 1) ?w)"
    using restartSegment_quiet [of ?w ?j "[]" 1] f assms(1) by simp
  moreover have "exec_ops (restart_ops path 1) (w_disk ?w) = (w_disk w)(path \<mapsto> journal_file [segment_start 1])"
    using restart_ops_result [of "w_disk ?w" path "[]", OF f] d by simp
  ultimately show ?thesis
    using assms
    by (simp add: Journal_open_def Let_def quiet_simps kMaxJournalRecordBytes_def open_journal_def
        segment_start_def del: exec_op.simps)
qed

definition no_store_files :: "StoreOptions \<Rightarrow> disk \<Rightarrow> bool" where
  "no_store_files opts d \<longleftrightarrow>
     d (journal_path opts) = None \<and> d (slotPath (snapshot_path opts) CHR ''a'') = None
     \<and> d (slotPath (snapshot_path opts) CHR ''b'') = None"

lemma open_created:
  assumes "quiet w" and "no_store_files opts (w_disk w)" and "so_directory opts \<noteq> []"
  shows "\<exists>rcv j w1. DurableStore_open C opts emptyStoreRecovery w =
      (Some (Inr (opened opts j (sc_initial C)), rcv), w1)
    \<and> quiet w1 \<and> stored C opts (w_disk w1) j (sc_initial C)"
proof -
  have l: "loaded C opts (w_disk w) = Inr (sc_initial C, 0)"
    using assms(2) by (simp add: loaded_def best_snapshot_def slot_view_def better_def no_store_files_def)
  have s: "stored C opts ((w_disk w)(journal_path opts \<mapsto> journal_file [segment_start (0 + 1)]))
      (store_journal opts (0 + 1) []) (sc_initial C)"
    by (rule restart_stored [OF l]) simp
  have g: "segment 1 []"
    by (simp add: segment_def journal_ok_def record_ok_def segment_start_def sequence_breaks_def
        kMaxJournalRecordBytes_def)
  obtain jr w1 where o: "Journal_open (journal_path opts) kMaxJournalRecordBytes (so_durable opts) w =
      (Some (Inr (store_journal opts 1 []), jr), w1)"
    and q: "quiet w1" and d: "w_disk w1 = (w_disk w)(journal_path opts \<mapsto> journal_file [segment_start 1])"
    using Journal_open_created [OF assms(1), of "journal_path opts" "so_durable opts"] assms(2)
    by (auto simp: no_store_files_def store_journal_def)
  then have "\<exists>rcv. DurableStore_open C opts emptyStoreRecovery w =
      (Some (Inr (opened opts (store_journal opts 1 []) (sc_initial C)), rcv), w1)"
    by (intro open_after_journal [OF assms(1) l assms(3) g _ _ o]) simp_all
  with s q d show ?thesis by auto
qed

subsection \<open>Reachable stores\<close>

text \<open>
  A store opened on files that do not exist yet, and every store reached from it by changes that were
  committed, by compactions and by restarts, as long as no call fails and the process does not crash.
\<close>

inductive store_reachable ::
  "'s StateCodec \<Rightarrow> ('s \<Rightarrow> bool) \<Rightarrow> StoreOptions \<Rightarrow> 's DurableStore \<Rightarrow> world \<Rightarrow> bool"
  for C :: "'s StateCodec" and fits :: "'s \<Rightarrow> bool" and opts :: StoreOptions where
  created: "quiet w \<Longrightarrow> so_directory opts \<noteq> [] \<Longrightarrow> no_store_files opts (w_disk w) \<Longrightarrow>
    DurableStore_open C opts emptyStoreRecovery w = (Some (Inr st, rcv), w') \<Longrightarrow>
    store_reachable C fits opts st w'"
| committed: "store_reachable C fits opts st w \<Longrightarrow>
    DurableStore_commit C st t payload w = ((Inr (), st'), w') \<Longrightarrow> store_reachable C fits opts st' w'"
| compacted: "store_reachable C fits opts st w \<Longrightarrow> fits (ds_state st) \<Longrightarrow>
    DurableStore_compactIfNeeded C st w = (Some (Inr (), st'), w') \<Longrightarrow> store_reachable C fits opts st' w'"
| reopened: "store_reachable C fits opts st w \<Longrightarrow>
    DurableStore_open C opts emptyStoreRecovery w = (Some (Inr st', rcv), w') \<Longrightarrow>
    store_reachable C fits opts st' w'"

lemma opened_simps [simp]:
  "ds_options (opened opts j s) = opts" "ds_journal (opened opts j s) = j"
  "ds_state (opened opts j s) = s" "\<not> ds_failed (opened opts j s)"
  "(opened opts j s)\<lparr>ds_state := s'\<rparr> = opened opts j s'"
  "(opened opts j s)\<lparr>ds_journal := j'\<rparr> = opened opts j' s"
  "opened opts j s = opened opts' j' s' \<longleftrightarrow> opts = opts' \<and> j = j' \<and> s = s'"
  by (simp_all add: opened_def)

lemma stored_journal:
  assumes "stored C opts d j s"
  obtains base rs where "d (journal_path opts) = Some (journal_file (segment_start base # rs))"
    and "segment base rs" and "j = store_journal opts base rs"
  using assms by (auto simp: stored_def)

text \<open>The changes a compaction makes: the snapshot's slot, then the journal.\<close>

definition compact_ops :: "StoreOptions \<Rightarrow> Journal \<Rightarrow> world \<Rightarrow> bytes \<Rightarrow> DiskOp list" where
  "compact_ops opts j w bs =
     atomic_ops w (slotPath (snapshot_path opts) (target_slot (w_disk w) (snapshot_path opts)))
       (snapshot_bytes (jn_lastSequence j) bs)
     @ restart_ops (journal_path opts) (jn_lastSequence j + 1)"

text \<open>What a snapshot write, complete or cut short, means for the files of the store.\<close>

lemma snapshot_write_files:
  assumes "slot = target_slot d (snapshot_path opts)" and "d' = exec_ops (atomic_ops w (slotPath (snapshot_path opts) slot) c) d
    \<or> d' = crash_disk i k (atomic_ops w (slotPath (snapshot_path opts) slot) c) d"
  shows "slot' \<noteq> slot \<Longrightarrow> d' (slotPath (snapshot_path opts) slot') = d (slotPath (snapshot_path opts) slot')"
    and "d' (journal_path opts) = d (journal_path opts)"
    and "d' (slotPath (snapshot_path opts) slot) \<in> {d (slotPath (snapshot_path opts) slot), Some c}"
proof -
  let ?ops = "atomic_ops w (slotPath (snapshot_path opts) slot) c"
  have "exec_ops ?ops d q = d q \<and> crash_disk i k ?ops d q = d q"
    if "q \<noteq> slotPath (snapshot_path opts) slot" "q \<noteq> temp_path w (slotPath (snapshot_path opts) slot)" for q
    using that atomic_crash_other [OF that] by (simp add: atomic_ops_result)
  then show "slot' \<noteq> slot \<Longrightarrow> d' (slotPath (snapshot_path opts) slot') = d (slotPath (snapshot_path opts) slot')"
    and "d' (journal_path opts) = d (journal_path opts)"
    using assms(2) store_paths by metis+
  show "d' (slotPath (snapshot_path opts) slot) \<in> {d (slotPath (snapshot_path opts) slot), Some c}"
    using assms(2) atomic_crash [of i k w "slotPath (snapshot_path opts) slot" c d] by (auto simp: atomic_ops_result)
qed

lemma stored_other:
  assumes "stored C opts d j s" and "d' (journal_path opts) = d (journal_path opts)"
    and "\<And>slot. d' (slotPath (snapshot_path opts) slot) = d (slotPath (snapshot_path opts) slot)"
  shows "stored C opts d' j s"
  using assms(1,2) loaded_other [of d' opts d C] assms(3) by (simp add: stored_def)

lemma restartSegment_success:
  assumes "restartSegment j base w = ((Inr (), j'), w')"
  shows "base \<noteq> 0"
  using assms by (auto simp: restartSegment_def)

text \<open>The changes a call made, and crashes in the first or the second of two groups of changes.\<close>

definition changes :: "world \<Rightarrow> world \<Rightarrow> DiskOp list" where
  "changes w w' = drop (length (w_trace w)) (w_trace w')"

lemma changes_after_ops [simp]: "changes w (after_ops ops (w\<lparr>w_draws := n\<rparr>)) = ops" "changes w (after_ops ops w) = ops"
  by (simp_all add: changes_def)

lemma crash_disk_append:
  "crash_disk i k (xs @ ys) d =
     (if i < length xs then crash_disk i k xs d else crash_disk (i - length xs) k ys (exec_ops xs d))"
  by (auto simp: crash_disk_def nth_append)

text \<open>A journal without its first record is refused, and refused again on the next attempt.\<close>

lemma open_headless:
  assumes "quiet w" and "loaded C opts (w_disk w) = Inr (s0, covered)" and "so_directory opts \<noteq> []"
    and "w_disk w (journal_path opts) = Some (journal_file [] @ torn)" and "length torn < 20"
  shows "\<exists>rcv w1. DurableStore_open C opts emptyStoreRecovery w = (Some (Inl IntegrityFailure, rcv), w1)
    \<and> quiet w1 \<and> w_disk w1 = (w_disk w)(journal_path opts \<mapsto> journal_file [])"
proof -
  let ?m = kMaxJournalRecordBytes
  have m: "0 < ?m" "journal_ok ?m []" by (simp_all add: kMaxJournalRecordBytes_def journal_ok_def)
  obtain rcv where rcv: "DurableStore_open C opts emptyStoreRecovery w = open_journal_and_replay C opts s0 rcv w"
    by (rule DurableStore_open_loaded [OF assms(1-3)])
  obtain j jr w1 where o: "Journal_open (journal_path opts) ?m (so_durable opts) w = (Some (Inr j, jr), w1)"
    and q: "quiet w1" and d: "w_disk w1 = (w_disk w)(journal_path opts \<mapsto> journal_file [])"
  proof (cases "torn = []")
    case True
    then have f: "w_disk w (journal_path opts) = Some (journal_file [])" using assms(4) by simp
    then show ?thesis
      using that [OF Journal_open_clean [OF assms(1) f m(2,1) journal_path_nonempty(1)] assms(1)]
      by (simp add: fun_upd_idem)
  next
    case False
    then show ?thesis
      using that [OF Journal_open_torn_header [OF assms(1,4) m(2,1) journal_path_nonempty(1) _ assms(5)]]
        assms(1,4) by simp
  qed
  have "readFile (journal_path opts) w1 =
      (Some (Inr [], (recovered emptyJournalRecovery [])\<lparr>rcv_outcome := Clean\<rparr>), w1)"
    by (rule readFile_clean [OF q _ m(2)]) (simp add: d)
  then show ?thesis
    using q d by (simp add: rcv open_journal_and_replay_def o replay_journal_def segment_base_def)
qed

lemma open_torn_undefined:
  assumes "quiet w" and "loaded C opts (w_disk w) = Inr (s0, covered)" and "so_directory opts \<noteq> []"
    and "w_disk w (journal_path opts) = Some (journal_file rs @ take n (record_bytes r))"
    and "journal_ok kMaxJournalRecordBytes rs" and "record_ok kMaxJournalRecordBytes r"
    and "20 \<le> n" and "n < length (record_bytes r)"
  shows "DurableStore_open C opts emptyStoreRecovery w = (None, w)"
proof -
  obtain rcv where rcv: "DurableStore_open C opts emptyStoreRecovery w = open_journal_and_replay C opts s0 rcv w"
    by (rule DurableStore_open_loaded [OF assms(1-3)])
  have "Journal_open (journal_path opts) kMaxJournalRecordBytes (so_durable opts) w = (None, w)"
    using Journal_open_torn_payload [OF assms(1,4-8)] by (simp add: kMaxJournalRecordBytes_def)
  then show ?thesis by (simp add: rcv open_journal_and_replay_def)
qed

context state_codec
begin

lemma apply_forget_success:
  assumes "sc_apply C s t payload = (s', Inr ())"
  shows "sc_apply C (forget s) t payload = (forget s', Inr ())" and "t \<noteq> SegmentStart"
  using apply_forget [of s t payload] apply_segment [of s payload] assms by auto

text \<open>A successful commit is one journal record.\<close>

lemma commit_success:
  assumes "quiet w" and "stored C opts (w_disk w) j (forget s)"
    and "DurableStore_commit C (opened opts j s) t payload w = ((Inr (), st'), w')"
  obtains s' where "sc_apply C s t payload = (s', Inr ())" and "t \<noteq> Invalid" and "t \<noteq> SegmentStart"
    and "length payload \<le> kMaxJournalRecordBytes" and "jn_lastSequence j \<noteq> - 1"
    and "st' = opened opts (j\<lparr>jn_lastSequence := jn_lastSequence j + 1, jn_recordCount := Suc (jn_recordCount j)\<rparr>) s'"
    and "w' = after_ops (record_ops (journal_path opts) (length (the (w_disk w (journal_path opts))))
          (next_record j t payload)) w"
proof -
  obtain base rs where f: "w_disk w (journal_path opts) = Some (journal_file (segment_start base # rs))"
    and j: "j = store_journal opts base rs"
    by (rule stored_journal [OF assms(2)])
  obtain s' j' where a: "sc_apply C s t payload = (s', Inr ())"
    and app: "Journal_append j t payload w = ((Inr (), j'), w')" and st': "st' = opened opts j' s'"
    using assms(3) by (auto simp: DurableStore_commit_def split: if_splits prod.splits sum.splits)
  note ok = Journal_append_success [OF app]
  have "w_disk w (jn_path j) = Some (journal_file (segment_start base # rs))" using f j by (simp add: store_journal_simps)
  note q = Journal_append_quiet [OF assms(1) this ok]
  have "length payload \<le> kMaxJournalRecordBytes" using ok(2) j by (simp add: store_journal_simps)
  with a app st' ok q f j show ?thesis
    by (intro that [OF a ok(1) apply_forget_success(2) [OF a] _ ok(3)]) (auto simp: store_journal_simps)
qed

lemma commit_stored:
  assumes "quiet w" and "stored C opts (w_disk w) j (forget s)" and "ok s"
    and "DurableStore_commit C (opened opts j s) t payload w = ((Inr (), st'), w')"
  shows "\<exists>j' s'. st' = opened opts j' s' \<and> ok s' \<and> quiet w' \<and> stored C opts (w_disk w') j' (forget s')"
proof -
  obtain s' where a: "sc_apply C s t payload = (s', Inr ())" and t: "t \<noteq> Invalid" "t \<noteq> SegmentStart"
    and l: "length payload \<le> kMaxJournalRecordBytes" "jn_lastSequence j \<noteq> - 1"
    and st': "st' = opened opts (j\<lparr>jn_lastSequence := jn_lastSequence j + 1, jn_recordCount := Suc (jn_recordCount j)\<rparr>) s'"
    and w': "w' = after_ops (record_ops (journal_path opts) (length (the (w_disk w (journal_path opts))))
          (next_record j t payload)) w"
    by (rule commit_success [OF assms(1,2,4)])
  obtain old where f: "w_disk w (journal_path opts) = Some old"
    using stored_journal [OF assms(2)] by metis
  have "w_disk w' = (w_disk w)(journal_path opts \<mapsto> old @ record_bytes (next_record j t payload))"
    using record_ops_result [of "w_disk w" "journal_path opts" old, OF f] f by (simp add: w')
  then have "stored C opts (w_disk w')
      (j\<lparr>jn_lastSequence := jn_lastSequence j + 1, jn_recordCount := Suc (jn_recordCount j)\<rparr>) (forget s')"
    using append_stored [OF assms(2) apply_forget_success(1) [OF a] t l] f by simp
  moreover have "ok s'" using apply_ok [OF assms(3), of t payload] a by simp
  ultimately show ?thesis using st' assms(1) w' by auto
qed

text \<open>A snapshot of the current state in the other slot leaves the same state stored.\<close>

lemma snapshot_stored:
  assumes "stored C opts d j (forget s)" and "ok s" and "fits s"
    and "sc_encodeSnapshot C s = Some (Inr bs)" and "length bs \<le> kMaxSnapshotBytes"
    and "slot = target_slot d (snapshot_path opts)"
    and "d' (slotPath (snapshot_path opts) slot) = Some (snapshot_bytes (jn_lastSequence j) bs)"
    and "d' (slotPath (snapshot_path opts) (other_slot slot)) = d (slotPath (snapshot_path opts) (other_slot slot))"
    and "d' (journal_path opts) = d (journal_path opts)" and "jn_lastSequence j \<noteq> - 1"
  shows "loaded C opts d' = Inr (forget s, jn_lastSequence j)" and "stored C opts d' j (forget s)"
proof -
  obtain base rs covered s0
    where f: "d (journal_path opts) = Some (journal_file (segment_start base # rs))" and g: "segment base rs"
      and j: "j = store_journal opts base rs" and l: "loaded C opts d = Inr (s0, covered)"
      and b: "covered \<le> jn_lastSequence j"
    using assms(1) by (auto simp: stored_def)
  have "ld_coveredSequence i \<le> jn_lastSequence j" if "best_snapshot d (snapshot_path opts) = Some i" for i
    using l b that by (auto simp: loaded_def cf_try_eq_Inr_iff)
  then obtain i where i: "best_snapshot d' (snapshot_path opts) = Some i" "ld_coveredSequence i = jn_lastSequence j"
    "ld_payload i = bs \<or> best_snapshot d (snapshot_path opts) = Some i"
    using best_after_write [of d' "snapshot_path opts" d "jn_lastSequence j" bs] assms(5-8) by blast
  have "sc_decodeSnapshot C (ld_payload i) = Inr (forget s)"
    using i(3)
  proof
    assume "ld_payload i = bs"
    then show ?thesis using decode_encode [OF assms(2-4)] by simp
  next
    assume "best_snapshot d (snapshot_path opts) = Some i"
    then have "sc_decodeSnapshot C (ld_payload i) = Inr s0" and "covered = jn_lastSequence j"
      using l i(2) by (auto simp: loaded_def cf_try_eq_Inr_iff)
    then show ?thesis using stored_last [OF assms(1)] l by simp
  qed
  then show l': "loaded C opts d' = Inr (forget s, jn_lastSequence j)"
    using i(1,2) by (simp add: loaded_def)
  have le: "r \<in> set (segment_start base # rs) \<Longrightarrow> jr_sequence r \<le> jn_lastSequence j" for r
    using consecutive_le_last [of None "segment_start base # rs" r] g
    by (simp add: segment_def journal_ok_def j store_journal_simps)
  have "base \<le> jn_lastSequence j + 1"
    using order.strict_trans1 [OF le [of "segment_start base"] next_sequence [OF assms(10)]]
    by (auto simp: segment_start_def intro: less_imp_le)
  moreover have "fst (replay C (jn_lastSequence j) rs (forget s) 0) = Inr (forget s)"
    using le by (simp add: replay_covered)
  ultimately show "stored C opts d' j (forget s)"
    using f g j l' assms(9) unfolding stored_def by fastforce
qed

lemma compact_success:
  assumes "quiet w" and "stored C opts (w_disk w) j (forget s)"
    and "DurableStore_compact C (opened opts j s) w = (Some (Inr (), st'), w')"
  obtains bs where "sc_encodeSnapshot C s = Some (Inr bs)" and "length bs \<le> kMaxSnapshotBytes"
    and "jn_lastSequence j \<noteq> - 1" and "st' = opened opts (store_journal opts (jn_lastSequence j + 1) []) s"
    and "w' = after_ops (compact_ops opts j w bs) (w\<lparr>w_draws := Suc (w_draws w)\<rparr>)"
proof -
  obtain base rs where f: "w_disk w (journal_path opts) = Some (journal_file (segment_start base # rs))"
    and j: "j = store_journal opts base rs"
    by (rule stored_journal [OF assms(2)])
  let ?slot = "target_slot (w_disk w) (snapshot_path opts)"
  obtain bs slot w1 j' where e: "sc_encodeSnapshot C s = Some (Inr bs)"
    and sw: "SnapshotFile_write (snapshot_path opts) kMaxSnapshotBytes (jn_lastSequence j) bs w = (Inr slot, w1)"
    and r: "restartSegment j (jn_lastSequence j + 1) w1 = ((Inr (), j'), w')" and st': "st' = opened opts j' s"
    using assms(3) by (auto simp: DurableStore_compact_def Let_def split: option.splits prod.splits sum.splits)
  have len: "length bs \<le> kMaxSnapshotBytes"
    using sw by (auto simp: SnapshotFile_write_def split: if_splits)
  let ?ops = "atomic_ops w (slotPath (snapshot_path opts) ?slot) (snapshot_bytes (jn_lastSequence j) bs)"
  have w1: "w1 = after_ops ?ops (w\<lparr>w_draws := Suc (w_draws w)\<rparr>)"
    using sw SnapshotFile_write_quiet [OF assms(1) _ len, of "snapshot_path opts"] by auto
  have f1: "w_disk w1 (jn_path j) = Some (journal_file (segment_start base # rs))"
    using snapshot_write_files(2) [where d = "w_disk w" and opts = opts and w = w and
      c = "snapshot_bytes (jn_lastSequence j) bs", OF refl disjI1, OF refl] f
    unfolding w1 by (simp add: store_journal_simps(1) j)
  have q1: "quiet w1" using assms(1) by (simp add: w1 quiet_def after_ops_def)
  have nz: "jn_lastSequence j + 1 \<noteq> 0" by (rule restartSegment_success [OF r])
  then have last: "jn_lastSequence j \<noteq> - 1" by (metis add.commute add_neg_numeral_special(7))
  have "j' = j\<lparr>jn_lastSequence := jn_lastSequence j + 1, jn_recordCount := 1\<rparr>"
    and "w' = after_ops (restart_ops (journal_path opts) (jn_lastSequence j + 1)) w1"
    using r restartSegment_quiet [OF q1 f1 nz] by (simp_all add: j store_journal_simps)
  then have "j' = store_journal opts (jn_lastSequence j + 1) []"
    and "w' = after_ops (compact_ops opts j w bs) (w\<lparr>w_draws := Suc (w_draws w)\<rparr>)"
    by (simp_all add: j store_journal_def open_journal_def segment_start_def w1 after_ops_append compact_ops_def)
  then show ?thesis using that [OF e len last] st' by simp
qed

lemma compact_stored:
  assumes "quiet w" and "stored C opts (w_disk w) j (forget s)" and "ok s" and "fits s"
    and "DurableStore_compact C (opened opts j s) w = (Some (Inr (), st'), w')"
  shows "\<exists>j'. st' = opened opts j' s \<and> quiet w' \<and> stored C opts (w_disk w') j' (forget s)"
proof -
  obtain bs where e: "sc_encodeSnapshot C s = Some (Inr bs)" "length bs \<le> kMaxSnapshotBytes"
    and last: "jn_lastSequence j \<noteq> - 1" and st': "st' = opened opts (store_journal opts (jn_lastSequence j + 1) []) s"
    and w': "w' = after_ops (compact_ops opts j w bs) (w\<lparr>w_draws := Suc (w_draws w)\<rparr>)"
    by (rule compact_success [OF assms(1,2,5)])
  let ?slot = "target_slot (w_disk w) (snapshot_path opts)"
  let ?d = "exec_ops (atomic_ops w (slotPath (snapshot_path opts) ?slot) (snapshot_bytes (jn_lastSequence j) bs)) (w_disk w)"
  note files = snapshot_write_files [where d = "w_disk w" and opts = opts and w = w and
      c = "snapshot_bytes (jn_lastSequence j) bs", OF refl disjI1, OF refl]
  have slot: "?d (slotPath (snapshot_path opts) ?slot) = Some (snapshot_bytes (jn_lastSequence j) bs)"
    by (simp add: atomic_ops_result)
  have "loaded C opts ?d = Inr (forget s, jn_lastSequence j)"
    using files slot by (intro snapshot_stored(1) [OF assms(2-4) e refl _ _ _ last]) simp_all
  then have "stored C opts (?d(journal_path opts \<mapsto> journal_file [segment_start (jn_lastSequence j + 1)]))
      (store_journal opts (jn_lastSequence j + 1) []) (forget s)"
    by (rule restart_stored [OF _ last])
  moreover obtain rs where "?d (journal_path opts) = Some (journal_file rs)"
    using files(2) stored_journal [OF assms(2)] by metis
  note restart_ops_result [of ?d "journal_path opts" rs "jn_lastSequence j + 1", OF this]
  ultimately have "stored C opts (w_disk w') (store_journal opts (jn_lastSequence j + 1) []) (forget s)"
    by (simp add: w' compact_ops_def)
  with st' assms(1) w' show ?thesis by (auto simp: quiet_def after_ops_def)
qed

text \<open>The invariant of reachable stores.\<close>

lemma compactIfNeeded_stored:
  assumes "quiet w" and "stored C opts (w_disk w) j (forget s)" and "ok s" and "fits s"
    and "DurableStore_compactIfNeeded C (opened opts j s) w = (Some (Inr (), st'), w')"
  shows "\<exists>j'. st' = opened opts j' s \<and> quiet w' \<and> stored C opts (w_disk w') j' (forget s)"
  using assms(5) compact_stored [OF assms(1-4)] assms(1,2)
  by (auto simp: DurableStore_compactIfNeeded_def split: if_splits)

lemma reachable_stored:
  assumes "store_reachable C fits opts st w"
  shows "so_directory opts \<noteq> [] \<and> quiet w
    \<and> (\<exists>j s. st = opened opts j s \<and> ok s \<and> stored C opts (w_disk w) j (forget s))"
  using assms
proof induction
  case (created w st rcv w')
  obtain j where "st = opened opts j (sc_initial C)" "quiet w'" "stored C opts (w_disk w') j (sc_initial C)"
    using open_created [OF created(1,3,2), of C] created(4) by auto
  with created(2) show ?case using initial_ok by (auto simp: forget_initial)
next
  case (committed st w t payload st' w')
  then show ?case using commit_stored by blast
next
  case (compacted st w st' w')
  then show ?case using compactIfNeeded_stored by (metis opened_simps(3))
next
  case (reopened st w st' rcv w')
  then obtain j s where j: "ok s" "stored C opts (w_disk w) j (forget s)" "quiet w" "so_directory opts \<noteq> []" by blast
  then have "st' = opened opts j (forget s)" "w' = w"
    using reopened(2) open_stored [OF j(3,2,4)] by auto
  with j show ?case using forget_ok by (auto simp: forget_forget)
qed

lemma reachable_reopens:
  assumes "store_reachable C fits opts st w"
  shows "\<exists>rcv. DurableStore_open C opts emptyStoreRecovery w = (Some (Inr (st\<lparr>ds_state := forget (ds_state st)\<rparr>), rcv), w)"
    and "loadOffline C (so_directory opts) (so_name opts) w = (Some (Inr (forget (ds_state st))), w)"
  using reachable_stored [OF assms] open_stored loadOffline_stored by fastforce+

text \<open>A crash while a change is committed.\<close>

lemma commit_crash:
  assumes "store_reachable C fits opts st w"
    and "DurableStore_commit C st t payload w = ((Inr (), st'), w')"
    and "quiet w2" and "w_disk w2 = crash_disk i k (changes w w') (w_disk w)"
  shows "fst (DurableStore_open C opts emptyStoreRecovery w2) = None
    \<or> (\<exists>now \<in> {st, st'}. \<exists>rcv. fst (DurableStore_open C opts emptyStoreRecovery w2) =
          Some (Inr (now\<lparr>ds_state := forget (ds_state now)\<rparr>), rcv))"
proof -
  obtain j s where st: "st = opened opts j s" "ok s" "stored C opts (w_disk w) j (forget s)"
    and q: "quiet w" and dir: "so_directory opts \<noteq> []"
    using reachable_stored [OF assms(1)] by blast
  obtain base rs where f: "w_disk w (journal_path opts) = Some (journal_file (segment_start base # rs))"
    and g: "segment base rs" and j: "j = store_journal opts base rs"
    by (rule stored_journal [OF st(3)])
  obtain s' where a: "sc_apply C s t payload = (s', Inr ())" and t: "t \<noteq> Invalid" "t \<noteq> SegmentStart"
    and l: "length payload \<le> kMaxJournalRecordBytes" "jn_lastSequence j \<noteq> - 1"
    and st': "st' = opened opts (j\<lparr>jn_lastSequence := jn_lastSequence j + 1, jn_recordCount := Suc (jn_recordCount j)\<rparr>) s'"
    and w': "w' = after_ops (record_ops (journal_path opts) (length (the (w_disk w (journal_path opts))))
          (next_record j t payload)) w"
    using commit_success [OF q st(3)] assms(2) st(1) by metis
  let ?r = "next_record j t payload"
  obtain n where n: "n \<le> length (record_bytes ?r)"
    and d: "w_disk w2 = (w_disk w)(journal_path opts \<mapsto> journal_file (segment_start base # rs) @ take n (record_bytes ?r))"
    using record_ops_crash [of "w_disk w" "journal_path opts", OF f] assms(4) f by (metis changes_after_ops(2) option.sel w')
  consider "n = 0" | "0 < n" "n < 20" | "20 \<le> n" "n < length (record_bytes ?r)" | "n = length (record_bytes ?r)"
    using n by linarith
  then show ?thesis
  proof cases
    case 1
    then have "w_disk w2 = w_disk w" using d f by (simp add: fun_upd_idem)
    then show ?thesis using open_stored [OF assms(3) _ dir] st by fastforce
  next
    case 2
    then have "0 < length (take n (record_bytes ?r))" and "length (take n (record_bytes ?r)) < 20" using n by auto
    then obtain rcv w3 where "DurableStore_open C opts emptyStoreRecovery w2 =
        (Some (Inr (opened opts j (forget s)), rcv), w3)"
      using open_stored_torn [OF assms(3) st(3) dir] d f by (metis option.sel)
    then show ?thesis using st(1) by auto
  next
    case 3
    obtain s0 covered where "loaded C opts (w_disk w) = Inr (s0, covered)" using st(3) by (auto simp: stored_def)
    then have "loaded C opts (w_disk w2) = Inr (s0, covered)" by (simp add: d loaded_journal)
    moreover have "record_ok kMaxJournalRecordBytes ?r"
      using t(1) l next_sequence [OF l(2)] by (auto simp: record_ok_def next_record_def word_gt_0)
    ultimately show ?thesis
      using open_torn_undefined [OF assms(3) _ dir _ _ _ 3] d g by (fastforce simp: segment_def)
  next
    case 4
    then have "stored C opts (w_disk w2) (ds_journal st') (forget s')"
      using append_stored [OF st(3) apply_forget_success(1) [OF a] t l] d f st' by simp
    then show ?thesis using open_stored [OF assms(3) _ dir] st' by fastforce
  qed
qed

text \<open>
  A crash while the store is compacted. Between the truncation and the end of the first record the
  journal has no segment-start record.
\<close>

lemma compact_crash_disk:
  assumes "quiet w" and "stored C opts (w_disk w) j (forget s)" and "ok s" and "fits s"
    and e: "sc_encodeSnapshot C s = Some (Inr bs)" "length bs \<le> kMaxSnapshotBytes" and last: "jn_lastSequence j \<noteq> - 1"
    and d2: "d2 = crash_disk i k (compact_ops opts j w bs) (w_disk w)"
  shows "stored C opts d2 j (forget s) \<or> (\<exists>n \<le> 28. \<exists>d. loaded C opts d = Inr (forget s, jn_lastSequence j)
    \<and> d2 = d(journal_path opts \<mapsto> journal_file [] @ take n (record_bytes (segment_start (jn_lastSequence j + 1)))))"
proof -
  let ?slot = "target_slot (w_disk w) (snapshot_path opts)"
  let ?A = "atomic_ops w (slotPath (snapshot_path opts) ?slot) (snapshot_bytes (jn_lastSequence j) bs)"
  let ?d = "exec_ops ?A (w_disk w)"
  have after: "stored C opts d' j (forget s) \<and> loaded C opts d' = Inr (forget s, jn_lastSequence j)"
    if "d' = ?d \<or> d' = crash_disk i k ?A (w_disk w)"
      "d' (slotPath (snapshot_path opts) ?slot) = Some (snapshot_bytes (jn_lastSequence j) bs)" for d'
    using snapshot_stored [where d' = d', OF assms(2-4) e refl that(2) _ _ last]
      snapshot_write_files(1,2) [OF refl that(1)] by simp
  have old: "stored C opts d' j (forget s)"
    if "d' = crash_disk i k ?A (w_disk w)"
      "d' (slotPath (snapshot_path opts) ?slot) = w_disk w (slotPath (snapshot_path opts) ?slot)" for d'
    using stored_other [OF assms(2), of d'] snapshot_write_files(1,2) [OF refl disjI2 [OF that(1)]] that(2) by metis
  have slot: "?d (slotPath (snapshot_path opts) ?slot) = Some (snapshot_bytes (jn_lastSequence j) bs)"
    by (simp add: atomic_ops_result)
  obtain rs where jf: "?d (journal_path opts) = Some (journal_file rs)"
    using snapshot_write_files(2) [where d = "w_disk w" and opts = opts and w = w, OF refl disjI1, OF refl] stored_journal [OF assms(2)] by metis
  consider "d2 = crash_disk i k ?A (w_disk w)" | "d2 = ?d"
    | n where "n \<le> 28" "d2 = ?d(journal_path opts \<mapsto>
        journal_file [] @ take n (record_bytes (segment_start (jn_lastSequence j + 1))))"
    using d2 restart_ops_crash [of ?d "journal_path opts" rs "i - length ?A" k "jn_lastSequence j + 1", OF jf]
    unfolding compact_ops_def crash_disk_append by metis
  then show ?thesis
  proof cases
    case 1
    then show ?thesis
      using after [of d2] old [of d2] snapshot_write_files(3) [where d = "w_disk w" and opts = opts and w = w
        and i = i and k = k, OF refl disjI2, OF refl] by auto
  next
    case 2
    then show ?thesis using after [of ?d] slot by simp
  next
    case 3
    then show ?thesis using after [of ?d] slot by blast
  qed
qed

lemma open_cut_segment:
  assumes "quiet w" and "loaded C opts d = Inr (s, c)" and "c \<noteq> - 1" and "so_directory opts \<noteq> []" and "n \<le> 28"
    and "w_disk w = d(journal_path opts \<mapsto> journal_file [] @ take n (record_bytes (segment_start (c + 1))))"
  shows "fst (DurableStore_open C opts emptyStoreRecovery w) = None
    \<or> (\<exists>rcv. fst (DurableStore_open C opts emptyStoreRecovery w) = Some (Inl IntegrityFailure, rcv))
    \<or> (\<exists>rcv. fst (DurableStore_open C opts emptyStoreRecovery w) =
          Some (Inr (opened opts (store_journal opts (c + 1) []) s), rcv))"
proof -
  let ?r = "segment_start (c + 1)"
  have l: "loaded C opts (w_disk w) = Inr (s, c)" using assms(2,6) by (simp add: loaded_journal)
  have r: "record_ok kMaxJournalRecordBytes ?r" "length (record_bytes ?r) = 28"
    using next_sequence [OF assms(3)]
    by (auto simp: record_ok_def segment_start_def word_gt_0 kMaxJournalRecordBytes_def)
  consider "n < 20" | "20 \<le> n" "n < 28" | "n = 28" using assms(5) by linarith
  then show ?thesis
  proof cases
    case 1
    then have "length (take n (record_bytes ?r)) < 20" by simp
    then have "\<exists>rcv w1. DurableStore_open C opts emptyStoreRecovery w = (Some (Inl IntegrityFailure, rcv), w1)"
      using open_headless [OF assms(1) l assms(4), of "take n (record_bytes ?r)"] assms(6) by (metis fun_upd_same)
    then show ?thesis by auto
  next
    case 2
    then show ?thesis
      using open_torn_undefined [OF assms(1) l assms(4), of "[]" n ?r] assms(6) r by (simp add: journal_ok_def)
  next
    case 3
    have "journal_file [] @ record_bytes ?r = journal_file [?r]" by (simp add: journal_file_def)
    then have "stored C opts (w_disk w) (store_journal opts (c + 1) []) s"
      using restart_stored [OF assms(2,3)] assms(6) 3 r(2) by simp
    then show ?thesis using open_stored [OF assms(1) _ assms(4)] by fastforce
  qed
qed

lemma compact_crash:
  assumes "store_reachable C fits opts st w" and "fits (ds_state st)"
    and "DurableStore_compact C st w = (Some (Inr (), st'), w')"
    and "quiet w2" and "w_disk w2 = crash_disk i k (changes w w') (w_disk w)"
  shows "fst (DurableStore_open C opts emptyStoreRecovery w2) = None
    \<or> (\<exists>rcv. fst (DurableStore_open C opts emptyStoreRecovery w2) = Some (Inl IntegrityFailure, rcv))
    \<or> (\<exists>now \<in> {st, st'}. \<exists>rcv. fst (DurableStore_open C opts emptyStoreRecovery w2) =
          Some (Inr (now\<lparr>ds_state := forget (ds_state st)\<rparr>), rcv))"
proof -
  obtain j s where st: "st = opened opts j s" "ok s" "stored C opts (w_disk w) j (forget s)"
    and q: "quiet w" and dir: "so_directory opts \<noteq> []"
    using reachable_stored [OF assms(1)] by blast
  then have "fits s" using assms(2) by simp
  obtain bs where e: "sc_encodeSnapshot C s = Some (Inr bs)" "length bs \<le> kMaxSnapshotBytes"
    and last: "jn_lastSequence j \<noteq> - 1" and st': "st' = opened opts (store_journal opts (jn_lastSequence j + 1) []) s"
    and w': "w' = after_ops (compact_ops opts j w bs) (w\<lparr>w_draws := Suc (w_draws w)\<rparr>)"
    using compact_success [OF q st(3)] assms(3) st(1) by metis
  have "w_disk w2 = crash_disk i k (compact_ops opts j w bs) (w_disk w)" using assms(5) by (simp add: w')
  from compact_crash_disk [OF q st(3,2) \<open>fits s\<close> e last this] show ?thesis
  proof
    assume "stored C opts (w_disk w2) j (forget s)"
    then show ?thesis using open_stored [OF assms(4) _ dir] st(1) by fastforce
  next
    assume "\<exists>n \<le> 28. \<exists>d. loaded C opts d = Inr (forget s, jn_lastSequence j) \<and> w_disk w2 =
      d(journal_path opts \<mapsto> journal_file [] @ take n (record_bytes (segment_start (jn_lastSequence j + 1))))"
    then show ?thesis using open_cut_segment [OF assms(4) _ last dir] st(1) st' by fastforce
  qed
qed

lemma compact_crash_refused:
  assumes "store_reachable C fits opts st w" and "fits (ds_state st)"
    and "DurableStore_compact C st w = (Some (Inr (), st'), w')"
    and "quiet w2" and "w_disk w2 = crash_disk (length (changes w w') - 2) 0 (changes w w') (w_disk w)"
  shows "w_disk w2 (journal_path opts) = Some journalHeaderBytes
    \<and> loaded C opts (w_disk w2) = Inr (forget (ds_state st), jn_lastSequence (ds_journal st))
    \<and> (\<exists>rcv w3. DurableStore_open C opts emptyStoreRecovery
      (((\<lambda>w. snd (DurableStore_open C opts emptyStoreRecovery w)) ^^ n) w2) = (Some (Inl IntegrityFailure, rcv), w3))"
proof -
  obtain j s where st: "st = opened opts j s" "ok s" "stored C opts (w_disk w) j (forget s)"
    and q: "quiet w" and dir: "so_directory opts \<noteq> []"
    using reachable_stored [OF assms(1)] by blast
  then have "fits s" using assms(2) by simp
  obtain bs where e: "sc_encodeSnapshot C s = Some (Inr bs)" "length bs \<le> kMaxSnapshotBytes"
    and last: "jn_lastSequence j \<noteq> - 1"
    and w': "w' = after_ops (compact_ops opts j w bs) (w\<lparr>w_draws := Suc (w_draws w)\<rparr>)"
    using compact_success [OF q st(3)] assms(3) st(1) by metis
  let ?slot = "target_slot (w_disk w) (snapshot_path opts)"
  let ?c = "snapshot_bytes (jn_lastSequence j) bs"
  let ?d = "exec_ops (atomic_ops w (slotPath (snapshot_path opts) ?slot) ?c) (w_disk w)"
  note files = snapshot_write_files [where d = "w_disk w" and opts = opts and w = w and c = ?c, OF refl disjI1, OF refl]
  have slot: "?d (slotPath (snapshot_path opts) ?slot) = Some ?c" by (simp add: atomic_ops_result)
  have l: "loaded C opts ?d = Inr (forget s, jn_lastSequence j)"
    using snapshot_stored(1) [where d' = ?d, OF st(3,2) \<open>fits s\<close> e refl slot _ _ last] files(1,2) by simp
  obtain rs where jf: "?d (journal_path opts) = Some (journal_file rs)"
    using files(2) stored_journal [OF st(3)] by metis
  have "length (restart_ops (journal_path opts) (jn_lastSequence j + 1)) = 4"
    by (simp add: restart_ops_def record_ops_def segment_payload)
  then have "w_disk w2 = crash_disk 2 0 (restart_ops (journal_path opts) (jn_lastSequence j + 1)) ?d"
    using assms(5) by (simp add: w' compact_ops_def crash_disk_append)
  also have "\<dots> = ?d(journal_path opts \<mapsto> journal_file [])"
    unfolding restart_ops_def numeral_2_eq_2 crash_disk_Suc exec_header_rewrite(2) [of ?d _ rs, OF jf]
      exec_truncate_segment [of ?d _ rs, OF jf]
    by (simp add: record_ops_def crash_disk_0 journal_file_def)
  finally have d2: "w_disk w2 = ?d(journal_path opts \<mapsto> journal_file [])" .
  let ?open = "DurableStore_open C opts emptyStoreRecovery"
  have refused: "\<exists>rcv w3. ?open w = (Some (Inl IntegrityFailure, rcv), w3) \<and> quiet w3 \<and> w_disk w3 = w_disk w"
    if "quiet w" "w_disk w = ?d(journal_path opts \<mapsto> journal_file [])" for w
    using open_headless [OF that(1) _ dir, of C "forget s" "jn_lastSequence j" "[]"] that(2) l by (auto simp: loaded_journal)
  have "quiet (((\<lambda>w. snd (?open w)) ^^ n) w2) \<and> w_disk (((\<lambda>w. snd (?open w)) ^^ n) w2) = w_disk w2"
  proof (induction n)
    case (Suc n)
    with refused d2 show ?case by fastforce
  qed (simp add: assms(4))
  then have "\<exists>rcv w3. ?open (((\<lambda>w. snd (?open w)) ^^ n) w2) = (Some (Inl IntegrityFailure, rcv), w3)"
    using refused d2 by fastforce
  moreover have "loaded C opts (w_disk w2) = Inr (forget (ds_state st), jn_lastSequence (ds_journal st))"
    using l st(1) by (simp add: d2 loaded_journal opened_def)
  ultimately show ?thesis by (simp add: d2 journal_file_def)
qed

text \<open>
  A commit whose append fails in any way: the state has changed in memory, the journal object has not, the store is not
  marked failed, and the journal file is still there. When the first write fails before any byte, the files are untouched.
\<close>

lemma append_keeps_file:
  assumes "Journal_append j t payload w = (x, w')" and "w_disk w (jn_path j) \<noteq> None"
  shows "w_disk w' (jn_path j) \<noteq> None"
proof -
  have wrote: "w_disk v' p \<noteq> None" if "fwrite_end p bs v = (b, v')" "w_disk v p \<noteq> None" for p bs v b v'
    using that by (auto simp: fwrite_end_def fwrite_at_def dest!: os_outcome_disk' split: prod.splits option.splits)
  have flush: "w_disk v' = w_disk v" if "flushFileToDisk v = (y, v')" for v y v'
    using that by (auto simp: flushFileToDisk_def io_or_fail_def io_return_def dest!: os_call_disk split: prod.splits if_splits)
  have "w_disk v' (jn_path j) \<noteq> None" if "writeRecord (jn_path j) d t payload q w = (y, v')" for d q y v'
    using that assms(2)
    by (auto simp: writeRecord_def Let_def io_or_fail_def io_return_def dest!: wrote flush os_call_disk split: prod.splits if_splits)
  with assms show ?thesis by (auto simp: Journal_append_def split: option.splits prod.splits sum.splits if_splits)
qed

lemma commit_append_failed:
  assumes "store_reachable C fits opts st w" and "sc_apply C (ds_state st) t payload = (s', Inr ())"
    and "length payload \<le> kMaxJournalRecordBytes"
    and "DurableStore_commit C st t payload (w\<lparr>w_outcomes := os\<rparr>) = ((Inl e, st'), w')"
  shows "st' = st\<lparr>ds_state := s'\<rparr> \<and> w_disk w' (jn_path (ds_journal st)) \<noteq> None"
proof -
  obtain j s where st: "st = opened opts j s" "stored C opts (w_disk w) j (forget s)"
    using reachable_stored [OF assms(1)] by blast
  obtain base rs where f: "w_disk w (journal_path opts) = Some (journal_file (segment_start base # rs))"
    and j: "j = store_journal opts base rs"
    by (rule stored_journal [OF st(2)])
  have max: "length payload \<le> jn_maxRecordBytes j" using assms(3) j by (simp add: store_journal_simps)
  obtain st1 j1 where a: "Journal_append j t payload (w\<lparr>w_outcomes := os\<rparr>) = ((st1, j1), w')"
    "st1 = Inl e" "st' = st\<lparr>ds_state := s', ds_journal := j1\<rparr>"
    using assms(2,4) max st(1) by (auto simp: DurableStore_commit_def split: prod.splits)
  then have "j1 = j" by (auto simp: Journal_append_def split: option.splits prod.splits sum.splits if_splits)
  moreover have "w_disk w' (jn_path j) \<noteq> None"
    using append_keeps_file [OF a(1)] f j by (simp add: store_journal_simps)
  ultimately show ?thesis using a(3) st(1) by simp
qed

lemma commit_write_failed:
  assumes "store_reachable C fits opts st w" and "sc_apply C (ds_state st) t payload = (s', Inr ())"
    and "t \<noteq> Invalid" and "length payload \<le> kMaxJournalRecordBytes" and "jn_lastSequence (ds_journal st) \<noteq> - 1"
    and "DurableStore_commit C st t payload (w\<lparr>w_outcomes := Some 0 # os\<rparr>) = ((result, st'), w')"
  shows "result = Inl IoFailure \<and> w_disk w' = w_disk w"
proof -
  obtain j s where st: "st = opened opts j s" "stored C opts (w_disk w) j (forget s)"
    using reachable_stored [OF assms(1)] by blast
  obtain base rs where f: "w_disk w (journal_path opts) = Some (journal_file (segment_start base # rs))"
    and j: "j = store_journal opts base rs"
    by (rule stored_journal [OF st(2)])
  have c: "checkedAdd (jn_lastSequence j) 1 = Some (jn_lastSequence j + 1)"
    using assms(5) st(1) by (intro checkedAdd_1) simp
  let ?w = "w\<lparr>w_outcomes := Some 0 # os\<rparr>" and ?w' = "perform (WriteAt (journal_path opts) (file_size (journal_path opts) w) []) (w\<lparr>w_outcomes := os\<rparr>)"
  have "fwrite_end (journal_path opts) bs ?w = (False, ?w')" for bs
    by (simp add: fwrite_end_def fwrite_at_def os_outcome_def file_size_def)
  then have "writeRecord (journal_path opts) d t payload q ?w = (Inl IoFailure, ?w')" for d q
    by (simp add: writeRecord_def Let_def io_or_fail_def)
  then have "Journal_append j t payload ?w = ((Inl IoFailure, j), ?w')"
    using c assms(3,4) j by (simp add: Journal_append_def store_journal_simps)
  moreover have "w_disk ?w' = w_disk w" using f by (simp add: file_size_def fun_upd_idem)
  ultimately show ?thesis
    using assms(2,4,6) st(1) j by (auto simp: DurableStore_commit_def store_journal_simps)
qed

text \<open>Commits and compactions that are not refused.\<close>

lemma commit_accepted:
  assumes "quiet w" and "stored C opts (w_disk w) j s0" and "sc_apply C s t payload = (s', Inr ())"
    and "t \<noteq> Invalid" and "length payload \<le> kMaxJournalRecordBytes" and "jn_lastSequence j \<noteq> - 1"
  shows "\<exists>st' w'. DurableStore_commit C (opened opts j s) t payload w = ((Inr (), st'), w') \<and> ds_state st' = s'"
proof -
  obtain base rs where "w_disk w (journal_path opts) = Some (journal_file (segment_start base # rs))"
    and j: "j = store_journal opts base rs"
    by (rule stored_journal [OF assms(2)])
  then have "w_disk w (jn_path j) = Some (journal_file (segment_start base # rs))"
    and "length payload \<le> jn_maxRecordBytes j"
    using assms(5) by (simp_all add: store_journal_simps)
  then show ?thesis
    using Journal_append_quiet [OF assms(1) _ assms(4) _ assms(6)] assms(3) by (simp add: DurableStore_commit_def)
qed

lemma compact_accepted:
  assumes "quiet w" and "stored C opts (w_disk w) j s0" and "sc_encodeSnapshot C s = Some (Inr bs)"
    and "length bs \<le> kMaxSnapshotBytes" and "jn_lastSequence j \<noteq> - 1"
  shows "\<exists>st' w'. DurableStore_compact C (opened opts j s) w = (Some (Inr (), st'), w')"
proof -
  obtain base rs where f: "w_disk w (journal_path opts) = Some (journal_file (segment_start base # rs))"
    and j: "j = store_journal opts base rs"
    by (rule stored_journal [OF assms(2)])
  let ?slot = "target_slot (w_disk w) (snapshot_path opts)"
  let ?w1 = "after_ops (atomic_ops w (slotPath (snapshot_path opts) ?slot) (snapshot_bytes (jn_lastSequence j) bs))
      (w\<lparr>w_draws := Suc (w_draws w)\<rparr>)"
  have sw: "SnapshotFile_write (snapshot_path opts) kMaxSnapshotBytes (jn_lastSequence j) bs w = (Inr ?slot, ?w1)"
    using SnapshotFile_write_quiet [OF assms(1) _ assms(4)] by simp
  have q: "quiet ?w1" using assms(1) by (simp add: quiet_def after_ops_def)
  have d: "w_disk ?w1 (jn_path j) = Some (journal_file (segment_start base # rs))"
    using snapshot_write_files(2) [where d = "w_disk w" and opts = opts and w = w and
      c = "snapshot_bytes (jn_lastSequence j) bs", OF refl disjI1, OF refl] f
    by (simp add: j store_journal_simps(1))
  have "jn_lastSequence j + 1 \<noteq> 0" using assms(5) unfolding eq_neg_iff_add_eq_0 .
  then show ?thesis
    using sw restartSegment_quiet [OF q d] assms(3) by (simp add: DurableStore_compact_def Let_def)
qed

lemma reachable_accepts:
  assumes "store_reachable C fits opts st w" and "jn_lastSequence (ds_journal st) \<noteq> - 1"
  shows "sc_apply C (ds_state st) t payload = (s', Inr ()) \<Longrightarrow> t \<noteq> Invalid \<Longrightarrow>
      length payload \<le> kMaxJournalRecordBytes \<Longrightarrow>
      \<exists>st' w'. DurableStore_commit C st t payload w = ((Inr (), st'), w') \<and> ds_state st' = s'"
    and "sc_encodeSnapshot C (ds_state st) = Some (Inr bs) \<Longrightarrow> length bs \<le> kMaxSnapshotBytes \<Longrightarrow>
      \<exists>st' w'. DurableStore_compact C st w = (Some (Inr (), st'), w')"
  using reachable_stored [OF assms(1)] assms(2) commit_accepted [of w opts _ _ _ t payload s'] compact_accepted [of w opts]
  by auto

text \<open>Once the calls succeed again, the commits after a failed one go through.\<close>

lemma failed_commit_accepts:
  assumes "store_reachable C fits opts st w" and "sc_apply C (ds_state st) t payload = (s', Inr ())"
    and "length payload \<le> kMaxJournalRecordBytes" and "jn_lastSequence (ds_journal st) \<noteq> - 1"
    and "DurableStore_commit C st t payload (w\<lparr>w_outcomes := os\<rparr>) = ((Inl e, st1), w1)"
    and "sc_apply C s' t2 payload2 = (s2, Inr ())" and "t2 \<noteq> Invalid" and "length payload2 \<le> kMaxJournalRecordBytes"
  shows "\<exists>st2 w2. DurableStore_commit C st1 t2 payload2 (w1\<lparr>w_outcomes := []\<rparr>) = ((Inr (), st2), w2) \<and> ds_state st2 = s2"
proof -
  obtain j s where st: "st = opened opts j s" and d: "stored C opts (w_disk w) j (forget s)"
    using reachable_stored [OF assms(1)] by blast
  obtain base rs where j: "j = store_journal opts base rs" by (rule stored_journal [OF d])
  have f: "st1 = opened opts j s'" "w_disk w1 (jn_path j) \<noteq> None"
    using commit_append_failed [OF assms(1-3,5)] st by simp_all
  then obtain content where content: "w_disk (w1\<lparr>w_outcomes := []\<rparr>) (jn_path j) = Some content" by auto
  have "length payload2 \<le> jn_maxRecordBytes j" using assms(8) j by (simp add: store_journal_simps)
  then show ?thesis
    using Journal_append_quiet [OF _ content assms(7)] assms(4,6) st f(1) by (simp add: DurableStore_commit_def quiet_def)
qed

end

subsection \<open>Properties\<close>

text \<open>
  C14: the agent's store recovers exactly what was committed. Whatever sequence of committed changes,
  compactions and restarts led to a store, opening its files again gives the same store, state and
  journal, the offline loader reads the same state, and that state satisfies the agent's invariant.
\<close>

theorem agent_store_recovers:
  assumes "store_reachable AgentStateCodec (\<lambda>_. True) opts st w"
  shows "(\<exists>rcv. DurableStore_open AgentStateCodec opts emptyStoreRecovery w = (Some (Inr st, rcv), w))
    \<and> loadOffline AgentStateCodec (so_directory opts) (so_name opts) w = (Some (Inr (ds_state st)), w)
    \<and> agent_ok (ds_state st)"
  using agentStore.reachable_reopens [OF assms] agentStore.reachable_stored [OF assms] by auto

definition example_options :: "string \<Rightarrow> StoreOptions" where
  "example_options name = \<lparr>so_directory = ''d'', so_name = name, so_compactAfterBytes = 0, so_durable = True\<rparr>"

definition empty_world :: world where
  "empty_world = \<lparr>w_disk = Map.empty, w_trace = [], w_outcomes = [], w_random = (\<lambda>_. []), w_draws = 0\<rparr>"

lemma example_store:
  "\<exists>st w. store_reachable C fits (example_options name) st w \<and> ds_state st = sc_initial C
     \<and> jn_lastSequence (ds_journal st) = 1"
proof -
  have e: "quiet empty_world" "no_store_files (example_options name) (w_disk empty_world)"
    "so_directory (example_options name) \<noteq> []"
    by (simp_all add: empty_world_def quiet_def no_store_files_def example_options_def)
  let ?o = "example_options name"
  have l: "loaded C ?o (w_disk empty_world) = Inr (sc_initial C, 0)"
    by (simp add: loaded_def best_snapshot_def slot_view_def better_def empty_world_def)
  have g: "segment 1 []"
    by (simp add: segment_def journal_ok_def record_ok_def segment_start_def sequence_breaks_def
        kMaxJournalRecordBytes_def)
  obtain jr w1 where o: "Journal_open (journal_path ?o) kMaxJournalRecordBytes (so_durable ?o) empty_world =
      (Some (Inr (store_journal ?o 1 []), jr), w1)" "quiet w1"
      "w_disk w1 (journal_path ?o) = Some (journal_file [segment_start 1])"
    using Journal_open_created [OF e(1), of "journal_path ?o" "so_durable ?o"] e(2)
    by (auto simp: no_store_files_def store_journal_def)
  obtain rcv where "DurableStore_open C ?o emptyStoreRecovery empty_world =
      (Some (Inr (opened ?o (store_journal ?o 1 []) (sc_initial C)), rcv), w1)"
    using open_after_journal [OF e(1) l e(3) g _ _ o(1,2)] o(3) by auto
  from store_reachable.created [OF e(1,3,2) this] show ?thesis
    by (intro exI) (auto simp: store_journal_simps segment_start_def)
qed

lemma codec_initial: "sc_initial AgentStateCodec = emptyAgentState" "sc_initial ControllerStateCodec = emptyControllerState"
  by (simp_all add: AgentStateCodec_def ControllerStateCodec_def)

definition activations_record :: bytes where
  "activations_record = le_store 8 (5 :: u64)"

lemma activations_applied:
  "sc_apply AgentStateCodec emptyAgentState AgentApplyResolved activations_record =
     (emptyAgentState\<lparr>as_activations := 5\<rparr>, Inr ())" "length activations_record = 8"
  by code_simp+

lemma example_agent_commit:
  obtains st w st' w' where "store_reachable AgentStateCodec (\<lambda>_. True) (example_options ''agent'') st w"
    and "DurableStore_commit AgentStateCodec st AgentApplyResolved activations_record w = ((Inr (), st'), w')"
    and "as_activations (ds_state st') = 5" and "ds_state st = emptyAgentState"
    and "jn_lastSequence (ds_journal st) = 1"
proof -
  obtain st w where r: "store_reachable AgentStateCodec (\<lambda>_. True) (example_options ''agent'') st w"
    and st: "ds_state st = emptyAgentState" "jn_lastSequence (ds_journal st) = 1"
    using example_store codec_initial(1) by metis
  then show ?thesis
    using that [OF r] agentStore.reachable_accepts(1) [OF r, of AgentApplyResolved activations_record]
      activations_applied by (auto simp: kMaxJournalRecordBytes_def)
qed

theorem agent_store_recovers_witness:
  "\<exists>st w rcv. store_reachable AgentStateCodec (\<lambda>_. True) (example_options ''agent'') st w
     \<and> as_activations (ds_state st) = 5
     \<and> DurableStore_open AgentStateCodec (example_options ''agent'') emptyStoreRecovery w = (Some (Inr st, rcv), w)"
proof -
  obtain st w st' w' where r: "store_reachable AgentStateCodec (\<lambda>_. True) (example_options ''agent'') st w"
    "DurableStore_commit AgentStateCodec st AgentApplyResolved activations_record w = ((Inr (), st'), w')"
    and "as_activations (ds_state st') = 5"
    by (rule example_agent_commit)
  then show ?thesis
    using agent_store_recovers [OF store_reachable.committed [OF r]] store_reachable.committed [OF r] by auto
qed


definition epoch_record :: bytes where
  "epoch_record = le_store 8 (7 :: u64)"

lemma epoch_applied:
  "sc_apply ControllerStateCodec emptyControllerState ControllerEpoch epoch_record =
     (emptyControllerState\<lparr>cs_epoch := 7\<rparr>, Inr ())" "length epoch_record = 8"
  by code_simp+

lemma example_controller:
  obtains st w where "store_reachable ControllerStateCodec (\<lambda>s. length (cs_artifacts s) \<le> kMaxStateEntries)
      (example_options ''controller'') st w"
    and "ds_state st = emptyControllerState" and "jn_lastSequence (ds_journal st) = 1"
  using example_store codec_initial(2) by metis


text \<open>
  C16: a crash at any point of a commit of the agent loses at most that commit. Opening the store then
  gives the state before or after it, or runs into the undefined behaviour of the journal scan on a
  record torn inside its payload; it is never refused and never yields a third state.
\<close>

theorem agent_commit_crash:
  assumes "store_reachable AgentStateCodec (\<lambda>_. True) opts st w"
    and "DurableStore_commit AgentStateCodec st t payload w = ((Inr (), st'), w')"
    and "quiet w2" and "w_disk w2 = crash_disk i k (changes w w') (w_disk w)"
  shows "fst (DurableStore_open AgentStateCodec opts emptyStoreRecovery w2) = None
    \<or> (\<exists>now \<in> {st, st'}. \<exists>rcv. fst (DurableStore_open AgentStateCodec opts emptyStoreRecovery w2) = Some (Inr now, rcv))"
  using agentStore.commit_crash [OF assms] by simp

theorem agent_commit_crash_witness:
  "\<exists>st st' w w'. as_activations (ds_state st) = 0 \<and> as_activations (ds_state st') = 5
    \<and> (let w2 = w\<lparr>w_disk := crash_disk 0 3 (changes w w') (w_disk w)\<rparr>;
           again = fst (DurableStore_open AgentStateCodec (example_options ''agent'') emptyStoreRecovery w2)
       in again = None \<or> (\<exists>now \<in> {st, st'}. \<exists>rcv. again = Some (Inr now, rcv)))"
proof -
  obtain st w st' w' where r: "store_reachable AgentStateCodec (\<lambda>_. True) (example_options ''agent'') st w"
    "DurableStore_commit AgentStateCodec st AgentApplyResolved activations_record w = ((Inr (), st'), w')"
    and "as_activations (ds_state st') = 5" and "ds_state st = emptyAgentState"
    by (rule example_agent_commit)
  moreover have "quiet (w\<lparr>w_disk := crash_disk 0 3 (changes w w') (w_disk w)\<rparr>)"
    using agentStore.reachable_stored [OF r(1)] by (simp add: quiet_def)
  ultimately show ?thesis
    unfolding Let_def
    by (intro exI [of _ st] exI [of _ st'] exI [of _ w] exI [of _ w'] conjI agent_commit_crash [OF r])
      (simp_all add: emptyAgentState_def)
qed

text \<open>
  C17: a crash at any point of a compaction of the controller keeps the state or stops recovery. Opening
  the store then gives the compacted state, or is refused with an integrity failure, or runs into the
  undefined behaviour of the scan; no other state and no other error comes out of it.
\<close>

theorem controller_compaction_crash:
  assumes "store_reachable ControllerStateCodec (\<lambda>s. length (cs_artifacts s) \<le> kMaxStateEntries) opts st w"
    and "length (cs_artifacts (ds_state st)) \<le> kMaxStateEntries"
    and "DurableStore_compact ControllerStateCodec st w = (Some (Inr (), st'), w')"
    and "quiet w2" and "w_disk w2 = crash_disk i k (changes w w') (w_disk w)"
  shows "fst (DurableStore_open ControllerStateCodec opts emptyStoreRecovery w2) = None
    \<or> (\<exists>rcv. fst (DurableStore_open ControllerStateCodec opts emptyStoreRecovery w2) = Some (Inl IntegrityFailure, rcv))
    \<or> (\<exists>now \<in> {st, st'}. \<exists>rcv. fst (DurableStore_open ControllerStateCodec opts emptyStoreRecovery w2) =
          Some (Inr (now\<lparr>ds_state := forget_contact (ds_state st)\<rparr>), rcv))"
  using controllerStore.compact_crash [OF assms] .

lemma empty_controller_snapshot:
  "\<exists>bs. sc_encodeSnapshot ControllerStateCodec emptyControllerState = Some (Inr bs) \<and> length bs \<le> kMaxSnapshotBytes"
proof -
  have "case sc_encodeSnapshot ControllerStateCodec emptyControllerState of
      Some (Inr bs) \<Rightarrow> length bs \<le> 100 | _ \<Rightarrow> False"
    by (simp add: ControllerStateCodec_def controller_encodeSnapshot_def emptyControllerState_def enc_fail_if_def
        writes_total om_values_def w_string_def unset_identity_def emit.simps string_bytes_def)
  then show ?thesis
    by (auto simp: kMaxSnapshotBytes_def split: option.splits sum.splits intro: order.trans)
qed

lemma example_compaction:
  obtains st w st' w' where "store_reachable ControllerStateCodec (\<lambda>s. length (cs_artifacts s) \<le> kMaxStateEntries)
      (example_options ''controller'') st w"
    and "length (cs_artifacts (ds_state st)) \<le> kMaxStateEntries"
    and "DurableStore_compact ControllerStateCodec st w = (Some (Inr (), st'), w')"
    and "quiet (w\<lparr>w_disk := d\<rparr>)"
proof -
  obtain st w where r: "store_reachable ControllerStateCodec (\<lambda>s. length (cs_artifacts s) \<le> kMaxStateEntries)
      (example_options ''controller'') st w"
    and st: "ds_state st = emptyControllerState" "jn_lastSequence (ds_journal st) = 1"
    by (rule example_controller)
  moreover have "quiet (w\<lparr>w_disk := d\<rparr>)" using controllerStore.reachable_stored [OF r] by (simp add: quiet_def)
  moreover obtain st' w' where "DurableStore_compact ControllerStateCodec st w = (Some (Inr (), st'), w')"
    using controllerStore.reachable_accepts(2) [OF r] empty_controller_snapshot st by auto
  ultimately show ?thesis using that by (simp add: emptyControllerState_def)
qed

theorem controller_compaction_crash_witness:
  "\<exists>st st' w w'. DurableStore_compact ControllerStateCodec st w = (Some (Inr (), st'), w')
    \<and> (let w2 = w\<lparr>w_disk := crash_disk 1 9 (changes w w') (w_disk w)\<rparr>;
           again = fst (DurableStore_open ControllerStateCodec (example_options ''controller'') emptyStoreRecovery w2)
       in again = None \<or> (\<exists>rcv. again = Some (Inl IntegrityFailure, rcv))
          \<or> (\<exists>now \<in> {st, st'}. \<exists>rcv. again = Some (Inr (now\<lparr>ds_state := forget_contact (ds_state st)\<rparr>), rcv)))"
proof -
  obtain st w st' w' where r: "store_reachable ControllerStateCodec
        (\<lambda>s. length (cs_artifacts s) \<le> kMaxStateEntries) (example_options ''controller'') st w"
      "length (cs_artifacts (ds_state st)) \<le> kMaxStateEntries"
      "DurableStore_compact ControllerStateCodec st w = (Some (Inr (), st'), w')"
    and q: "quiet (w\<lparr>w_disk := Map.empty\<rparr>)"
    by (rule example_compaction)
  have "quiet (w\<lparr>w_disk := crash_disk 1 9 (changes w w') (w_disk w)\<rparr>)" using q by (simp add: quiet_def)
  then show ?thesis
    unfolding Let_def
    by (intro exI [of _ st] exI [of _ st'] exI [of _ w] exI [of _ w'] conjI r(3) controller_compaction_crash [OF r])
      simp_all
qed

text \<open>
  C18: between the truncation of the journal and the writing of its first record, the last two changes, a
  compaction of a controller's store has a point where a crash loses the store. The store is any reachable one with at
  most the permitted number of artifacts, and the compaction succeeds when it is not interrupted. At that point the
  journal is a bare header, and the snapshots read back the whole state (without the contact flags a restart drops)
  up to the last record. When no call of the operating system fails, opening the files is nevertheless refused with an
  integrity failure, and so is every later attempt, however often opening them was tried before.
\<close>

theorem compaction_crash_refused:
  assumes "store_reachable ControllerStateCodec (\<lambda>s. length (cs_artifacts s) \<le> kMaxStateEntries) opts st w"
    and "length (cs_artifacts (ds_state st)) \<le> kMaxStateEntries"
    and "DurableStore_compact ControllerStateCodec st w = (Some (Inr (), st'), w')"
    and "quiet w2" and "w_disk w2 = crash_disk (length (changes w w') - 2) 0 (changes w w') (w_disk w)"
  shows "w_disk w2 (journal_path opts) = Some journalHeaderBytes
    \<and> loaded ControllerStateCodec opts (w_disk w2) = Inr (forget_contact (ds_state st), jn_lastSequence (ds_journal st))
    \<and> (\<exists>rcv w3. DurableStore_open ControllerStateCodec opts emptyStoreRecovery
        (((\<lambda>w. snd (DurableStore_open ControllerStateCodec opts emptyStoreRecovery w)) ^^ n) w2)
      = (Some (Inl IntegrityFailure, rcv), w3))"
  using controllerStore.compact_crash_refused [OF assms] .

theorem compaction_crash_refused_witness:
  "\<exists>w2. w_disk w2 (journal_path (example_options ''controller'')) = Some journalHeaderBytes
     \<and> (\<forall>n. \<exists>rcv w3. DurableStore_open ControllerStateCodec (example_options ''controller'') emptyStoreRecovery
       (((\<lambda>w. snd (DurableStore_open ControllerStateCodec (example_options ''controller'') emptyStoreRecovery w)) ^^ n) w2)
     = (Some (Inl IntegrityFailure, rcv), w3))"
proof -
  obtain st w st' w' where r: "store_reachable ControllerStateCodec
        (\<lambda>s. length (cs_artifacts s) \<le> kMaxStateEntries) (example_options ''controller'') st w"
      "length (cs_artifacts (ds_state st)) \<le> kMaxStateEntries"
      "DurableStore_compact ControllerStateCodec st w = (Some (Inr (), st'), w')"
    and q: "quiet (w\<lparr>w_disk := Map.empty\<rparr>)"
    by (rule example_compaction)
  let ?w2 = "w\<lparr>w_disk := crash_disk (length (changes w w') - 2) 0 (changes w w') (w_disk w)\<rparr>"
  have "quiet ?w2" using q by (simp add: quiet_def)
  then have "w_disk ?w2 (journal_path (example_options ''controller'')) = Some journalHeaderBytes
     \<and> (\<exists>rcv w3. DurableStore_open ControllerStateCodec (example_options ''controller'') emptyStoreRecovery
       (((\<lambda>w. snd (DurableStore_open ControllerStateCodec (example_options ''controller'') emptyStoreRecovery w)) ^^ n) ?w2)
     = (Some (Inl IntegrityFailure, rcv), w3))" for n
    using compaction_crash_refused [OF r, of ?w2 n] by simp
  then show ?thesis by blast
qed

text \<open>
  C19: a commit whose append fails is not undone and does not mark the store failed. Take any reachable agent store
  whose sequence numbers are not used up and a record that applies and fits the journal. In whatever way the writing of
  the record fails, the caller gets the error, but the state in memory has changed, and once the calls of the operating
  system succeed again the next record that applies and fits is accepted on top of it. When it was the first write that
  failed, before its first byte, opening the files finds the store as it was, without the change.
\<close>

theorem failed_append_not_sticky:
  assumes "store_reachable AgentStateCodec (\<lambda>_. True) opts st w"
    and "sc_apply AgentStateCodec (ds_state st) t payload = (s', Inr ())" and "t \<noteq> Invalid"
    and "length payload \<le> kMaxJournalRecordBytes" and "jn_lastSequence (ds_journal st) \<noteq> - 1"
    and "DurableStore_commit AgentStateCodec st t payload (w\<lparr>w_outcomes := os\<rparr>) = ((Inl e, st1), w1)"
    and "sc_apply AgentStateCodec s' t2 payload2 = (s2, Inr ())" and "t2 \<noteq> Invalid"
    and "length payload2 \<le> kMaxJournalRecordBytes"
  shows "ds_state st1 = s' \<and> \<not> ds_failed st1
    \<and> (\<exists>st2 w2. DurableStore_commit AgentStateCodec st1 t2 payload2 (w1\<lparr>w_outcomes := []\<rparr>) = ((Inr (), st2), w2)
         \<and> ds_state st2 = s2)
    \<and> (\<forall>os'. os = Some 0 # os' \<longrightarrow> (\<exists>rcv. DurableStore_open AgentStateCodec opts emptyStoreRecovery (w1\<lparr>w_outcomes := []\<rparr>)
         = (Some (Inr st, rcv), w1\<lparr>w_outcomes := []\<rparr>)))"
proof -
  let ?w = "w1\<lparr>w_outcomes := []\<rparr>"
  obtain j s where st: "st = opened opts j s" "stored AgentStateCodec opts (w_disk w) j s" "so_directory opts \<noteq> []"
    using agentStore.reachable_stored [OF assms(1)] by blast
  have f: "st1 = st\<lparr>ds_state := s'\<rparr>" using agentStore.commit_append_failed [OF assms(1,2,4,6)] by simp
  have "\<exists>rcv. DurableStore_open AgentStateCodec opts emptyStoreRecovery ?w = (Some (Inr st, rcv), ?w)"
    if os: "os = Some 0 # os'" for os'
  proof -
    have "w_disk w1 = w_disk w" using agentStore.commit_write_failed [OF assms(1-5) assms(6) [unfolded os]] by simp
    then show ?thesis using open_stored [of ?w _ opts j s] st by (simp add: quiet_def)
  qed
  then show ?thesis
    using f st(1) agentStore.failed_commit_accepts [OF assms(1,2,4-9)] by simp
qed

theorem failed_append_not_sticky_witness:
  "\<exists>st (st1 :: AgentState DurableStore) w1 rcv. as_activations (ds_state st) = 0 \<and> as_activations (ds_state st1) = 5 \<and> \<not> ds_failed st1
    \<and> DurableStore_open AgentStateCodec (example_options ''agent'') emptyStoreRecovery w1 = (Some (Inr st, rcv), w1)"
proof -
  obtain st w where r: "store_reachable AgentStateCodec (\<lambda>_. True) (example_options ''agent'') st w"
    and st: "ds_state st = emptyAgentState" "jn_lastSequence (ds_journal st) = 1"
    by (rule example_agent_commit)
  let ?commit = "DurableStore_commit AgentStateCodec st AgentApplyResolved activations_record (w\<lparr>w_outcomes := [Some 0]\<rparr>)"
  obtain result st1 w1 where c: "?commit = ((result, st1), w1)" by (metis prod.collapse)
  have "result = Inl IoFailure"
    using agentStore.commit_write_failed [OF r _ _ _ _ c] activations_applied st by (simp add: kMaxJournalRecordBytes_def)
  with c have c: "?commit = ((Inl IoFailure, st1), w1)" by simp
  have again: "sc_apply AgentStateCodec (emptyAgentState\<lparr>as_activations := 5\<rparr>) AgentApplyResolved activations_record =
      (emptyAgentState\<lparr>as_activations := 5\<rparr>, Inr ())"
    by code_simp
  have f: "ds_state st1 = emptyAgentState\<lparr>as_activations := 5\<rparr>" "\<not> ds_failed st1"
    "\<exists>rcv. DurableStore_open AgentStateCodec (example_options ''agent'') emptyStoreRecovery (w1\<lparr>w_outcomes := []\<rparr>)
       = (Some (Inr st, rcv), w1\<lparr>w_outcomes := []\<rparr>)"
    using failed_append_not_sticky [OF r _ _ _ _ c again] activations_applied st
    by (simp_all add: kMaxJournalRecordBytes_def)
  then have "as_activations (ds_state st1) = 5" by simp
  moreover have "as_activations (ds_state st) = 0" using st(1) by (simp add: emptyAgentState_def)
  ultimately show ?thesis using f(2,3) by blast
qed

end
