(* ===== verification/Connection.thy ===== *)
theory Connection
  imports Frame
begin

text \<open>
  \<^verbatim>\<open>FramedConnection\<close> of \<^verbatim>\<open>include/cf/transport.hpp\<close> and \<^verbatim>\<open>src/transport.cpp\<close>: frames over a socket.
  The socket is the operating system's: what its reads and writes will answer is part of the state,
  as lists that are consumed in order (a socket with no further answer is closed by the peer). The two
  directions do not share anything but the socket and are two records. Deadlines only choose the
  answer of the socket.
\<close>

subsection \<open>Sending\<close>

record FrameOutput =
  fo_maxPayloadBytes :: u32
  fo_bytesSent :: u64
  fo_answers :: "ErrorCode option list"
  fo_written :: "bytes list"

definition Socket_writeAll :: "bytes \<Rightarrow> FrameOutput \<Rightarrow> status \<times> FrameOutput" where
  "Socket_writeAll data c =
     (case fo_answers c of
        Some e # rest \<Rightarrow> (Inl e, c\<lparr>fo_answers := rest\<rparr>)
      | None # rest \<Rightarrow> (Inr (), c\<lparr>fo_answers := rest, fo_written := fo_written c @ [data]\<rparr>)
      | [] \<Rightarrow> (Inr (), c\<lparr>fo_written := fo_written c @ [data]\<rparr>))"

definition FramedConnection_send :: "FrameType \<Rightarrow> u16 \<Rightarrow> bytes \<Rightarrow> FrameOutput \<Rightarrow> status \<times> FrameOutput" where
  "FramedConnection_send t flags payload c =
     (case encodeFrame t flags payload (fo_maxPayloadBytes c) of
        Inl e \<Rightarrow> (Inl e, c)
      | Inr data \<Rightarrow>
          (case Socket_writeAll data c of
             (Inl e, c1) \<Rightarrow> (Inl e, c1)
           | (Inr _, c1) \<Rightarrow>
               (Inr (), c1\<lparr>fo_bytesSent :=
                  (case checkedAdd (fo_bytesSent c1) (of_nat (length data)) of
                     None \<Rightarrow> fo_bytesSent c1 | Some n \<Rightarrow> n)\<rparr>)))"

subsection \<open>Receiving\<close>

record FrameInput =
  fi_decoder :: FrameDecoder
  fi_ready :: "Frame list"
  fi_bytesReceived :: u64
  fi_reads :: "bytes result list"

definition FrameInput_open :: "u32 \<Rightarrow> bytes result list \<Rightarrow> FrameInput" where
  "FrameInput_open maxPayload reads =
     \<lparr>fi_decoder = FrameDecoder_init maxPayload, fi_ready = [], fi_bytesReceived = 0, fi_reads = reads\<rparr>"

text \<open>A read of the socket and what it makes of the ready frames.\<close>

definition read_once :: "FrameInput \<Rightarrow> status \<times> FrameInput" where
  "read_once c =
     (case fi_reads c of
        [] \<Rightarrow> (cf_try (FrameDecoder_finish (fi_decoder c)) (\<lambda>_. Inl ConnectionClosed), c)
      | Inl e # rest \<Rightarrow>
          (if e = ConnectionClosed
           then cf_try (FrameDecoder_finish (fi_decoder c)) (\<lambda>_. Inl e) else Inl e, c\<lparr>fi_reads := rest\<rparr>)
      | Inr data # rest \<Rightarrow>
          (case FrameDecoder_feed (fi_decoder c) data of
             (d, frames, st) \<Rightarrow>
               (st, c\<lparr>fi_reads := rest, fi_decoder := d, fi_ready := fi_ready c @ frames,
                      fi_bytesReceived :=
                        (case checkedAdd (fi_bytesReceived c) (of_nat (length data)) of
                           None \<Rightarrow> fi_bytesReceived c | Some n \<Rightarrow> n)\<rparr>)))"

lemma read_once_reads: "read_once c = (Inr (), c') \<Longrightarrow> length (fi_reads c') < length (fi_reads c)"
  by (auto simp: read_once_def cf_try_eq_Inr_iff split: list.splits sum.splits prod.splits if_splits)

function FramedConnection_receive :: "FrameInput \<Rightarrow> Frame result \<times> FrameInput" where
  "FramedConnection_receive c =
     (case fi_ready c of
        f # fs \<Rightarrow> (Inr f, c\<lparr>fi_ready := fs\<rparr>)
      | [] \<Rightarrow>
          (case read_once c of
             (Inl e, c') \<Rightarrow> (Inl e, c')
           | (Inr _, c') \<Rightarrow> FramedConnection_receive c'))"
  by pat_completeness auto

termination
  by (relation "measure (\<lambda>c. length (fi_reads c))") (auto dest!: sym [of _ "read_once _"] read_once_reads)

declare FramedConnection_receive.simps [simp del]

subsection \<open>A session reads finitely many frames\<close>

text \<open>
  The bytes that are still to be read or to be decoded, and the frames that are ready: every received
  frame makes this smaller.
\<close>

fun future_bytes :: "bytes result list \<Rightarrow> nat" where
  "future_bytes [] = 0"
| "future_bytes (Inl e # rs) = future_bytes rs"
| "future_bytes (Inr data # rs) = length data + future_bytes rs"

definition input_size :: "FrameInput \<Rightarrow> nat" where
  "input_size c = future_bytes (fi_reads c) + FrameDecoder_buffered (fi_decoder c) + length (fi_ready c)"

lemma feed_loop_rest:
  assumes "feed_loop m buffer offset = (frames, offset', st)"
  shows "frames = [] \<and> offset' = offset
    \<or> (\<exists>f rest total. 0 < total \<and> total \<le> length buffer - offset \<and> frames = f # rest
         \<and> feed_loop m buffer (offset + total) = (rest, offset', st))"
proof (cases "frames = []")
  case True
  then show ?thesis
    using assms unfolding feed_loop.simps [of m buffer offset] Let_def
    by (auto split: if_splits sum.splits prod.splits)
next
  case False
  then obtain h :: FrameHeader and rest f where "24 + unat (fh_payloadLength h) \<le> length buffer - offset" and "frames = f # rest"
    and "feed_loop m buffer (offset + (24 + unat (fh_payloadLength h))) = (rest, offset', st)"
    using assms unfolding feed_loop.simps [of m buffer offset] Let_def kFrameHeaderBytes_def
    by (auto simp: not_less simp del: take_eq_Nil drop_eq_Nil split: if_splits sum.splits prod.splits)
  then show ?thesis by (intro disjI2 exI [of _ f] exI [of _ rest] exI [of _ "24 + unat (fh_payloadLength h)"]) simp
qed

lemma feed_loop_consumes:
  "feed_loop m buffer offset = (frames, offset', st) \<Longrightarrow>
     length frames + (length buffer - offset') \<le> length buffer - offset"
proof (induction "length buffer - offset" arbitrary: offset frames rule: less_induct)
  case less
  from feed_loop_rest [OF less.prems] show ?case
  proof (elim disjE exE conjE)
    fix f rest total
    assume t: "0 < total" "total \<le> length buffer - offset" "frames = f # rest"
      and r: "feed_loop m buffer (offset + total) = (rest, offset', st)"
    have "length buffer - (offset + total) < length buffer - offset" using t(1,2) by linarith
    from less.hyps [OF this r] t show ?thesis by simp
  qed simp
qed

lemma FrameDecoder_feed_consumes:
  assumes "FrameDecoder_feed d data = (d', frames, st)"
  shows "length frames + FrameDecoder_buffered d' \<le> FrameDecoder_buffered d + length data"
  using assms
  by (auto simp: FrameDecoder_feed_def FrameDecoder_compact_def FrameDecoder_buffered_def Let_def
      dest!: feed_loop_consumes split: if_splits option.splits prod.splits sum.splits)

lemma receive_smaller:
  "FramedConnection_receive c = (Inr f, c') \<Longrightarrow> input_size c' < input_size c"
proof (induction c rule: FramedConnection_receive.induct)
  case (1 c)
  show ?case
  proof (cases "fi_ready c")
    case Nil
    obtain c1 where o: "read_once c = (Inr (), c1)" and r: "FramedConnection_receive c1 = (Inr f, c')"
      using "1.prems" Nil
      by (subst (asm) FramedConnection_receive.simps) (auto split: prod.splits sum.splits)
    have "input_size c1 \<le> input_size c"
      using o by (auto simp: read_once_def input_size_def cf_try_eq_Inr_iff split: list.splits sum.splits prod.splits if_splits
          dest!: FrameDecoder_feed_consumes)
    moreover have "input_size c' < input_size c1"
      using "1.IH" [OF Nil o [symmetric] refl r] by simp
    ultimately show ?thesis by simp
  next
    case (Cons g gs)
    with "1.prems" show ?thesis
      by (subst (asm) FramedConnection_receive.simps) (auto simp: input_size_def)
  qed
qed

end
