(* ===== verification/Actions.thy ===== *)
theory Actions
  imports Protocol
begin

text \<open>
  Sequencing of the operations of a long-lived object (the target agent, the distributor) over its
  state: an operation returns a value, fails with an error code (a failed \<^verbatim>\<open>Status\<close> or
  \<^verbatim>\<open>Result\<close>), ends the process with an exit code (fault injection), or stops in a failed contract.
\<close>

datatype 'a outcome = Returned 'a | Failed ErrorCode | Exited nat | Stopped

type_synonym ('s, 'a) action = "'s \<Rightarrow> 'a outcome \<times> 's"

definition a_return :: "'a \<Rightarrow> ('s, 'a) action" where
  "a_return x r = (Returned x, r)"

definition a_fail :: "ErrorCode \<Rightarrow> ('s, 'a) action" where
  "a_fail e r = (Failed e, r)"

definition a_exit :: "nat \<Rightarrow> ('s, 'a) action" where
  "a_exit code r = (Exited code, r)"

text \<open>\<^verbatim>\<open>CF_TRY\<close> and \<^verbatim>\<open>CF_TRY_ASSIGN\<close>: go on with the value, pass every other outcome on.\<close>

definition a_then :: "('s, 'a) action \<Rightarrow> ('a \<Rightarrow> ('s, 'b) action) \<Rightarrow> ('s, 'b) action" where
  "a_then m k r =
     (case m r of
        (Returned x, r') \<Rightarrow> k x r'
      | (Failed e, r') \<Rightarrow> (Failed e, r')
      | (Exited c, r') \<Rightarrow> (Exited c, r')
      | (Stopped, r') \<Rightarrow> (Stopped, r'))"

text \<open>A status that the caller inspects instead of returning it.\<close>

definition a_attempt :: "('s, 'a) action \<Rightarrow> ('s, 'a result) action" where
  "a_attempt m r =
     (case m r of
        (Returned x, r') \<Rightarrow> (Returned (Inr x), r')
      | (Failed e, r') \<Rightarrow> (Returned (Inl e), r')
      | (Exited c, r') \<Rightarrow> (Exited c, r')
      | (Stopped, r') \<Rightarrow> (Stopped, r'))"

definition a_get :: "('s \<Rightarrow> ('s, 'a) action) \<Rightarrow> ('s, 'a) action" where
  "a_get f r = f r r"

definition a_modify :: "('s \<Rightarrow> 's) \<Rightarrow> ('s, unit) action" where
  "a_modify f r = (Returned (), f r)"

definition a_result :: "'a result \<Rightarrow> ('s, 'a) action" where
  "a_result x = (case x of Inl e \<Rightarrow> a_fail e | Inr v \<Rightarrow> a_return v)"

definition a_encoded :: "'a encoded \<Rightarrow> ('s, 'a) action" where
  "a_encoded x r = (case x of None \<Rightarrow> (Stopped, r) | Some v \<Rightarrow> a_result v r)"

text \<open>The bytes of a \<^verbatim>\<open>ByteWriter\<close>; its contract aborts.\<close>

definition a_written :: "bytes option list \<Rightarrow> ('s, bytes) action" where
  "a_written ws r = (case emit ws of None \<Rightarrow> (Stopped, r) | Some bs \<Rightarrow> (Returned bs, r))"

text \<open>A status that is only logged, and a loop that stops at the first outcome that is not a value.\<close>

definition a_ignore :: "('s, 'a) action \<Rightarrow> ('s, unit) action" where
  "a_ignore m = a_then (a_attempt m) (\<lambda>_. a_return ())"

fun a_each :: "('a \<Rightarrow> ('s, unit) action) \<Rightarrow> 'a list \<Rightarrow> ('s, unit) action" where
  "a_each f [] = a_return ()"
| "a_each f (x # xs) = a_then (f x) (\<lambda>_. a_each f xs)"

lemma a_thenE:
  assumes "a_then m k r = (Returned y, r'')"
  obtains x r' where "m r = (Returned x, r')" and "k x r' = (Returned y, r'')"
  using assms by (auto simp: a_then_def split: prod.splits outcome.splits)

subsection \<open>Relations between the states before and after an operation\<close>

text \<open>
  A reflexive and transitive relation that the steps of an operation respect is respected by the operation,
  whatever its outcome: what was done before a failure stays done.
\<close>

named_theorems rel_rules \<open>operations that respect a relation\<close>

locale action_relation =
  fixes R :: "'s \<Rightarrow> 's \<Rightarrow> bool"
  assumes rel_refl: "R s s"
    and rel_trans: "R s t \<Longrightarrow> R t u \<Longrightarrow> R s u"
begin

definition at :: "'s \<Rightarrow> ('s, 'a) action \<Rightarrow> bool" where
  "at s m \<longleftrightarrow> (\<forall>x s'. m s = (x, s') \<longrightarrow> R s s')"

lemma atD: "at s m \<Longrightarrow> m s = (x, s') \<Longrightarrow> R s s'"
  by (auto simp: at_def)

lemma at_same: "(\<And>x s'. m s = (x, s') \<Longrightarrow> s' = s) \<Longrightarrow> at s m"
  using rel_refl by (auto simp: at_def)

lemma at_pure:
  "at s (a_return x)" "at s (a_fail e)" "at s (a_exit c)" "at s (a_result y)" "at s (a_encoded z)"
  "at s (a_written ws)"
  by (rule at_same; auto simp: a_return_def a_fail_def a_exit_def a_result_def a_encoded_def a_written_def
      split: sum.splits option.splits)+

lemma at_then:
  assumes "at s m" and "\<And>x s'. m s = (Returned x, s') \<Longrightarrow> at s' (k x)"
  shows "at s (a_then m k)"
  unfolding at_def
proof (intro allI impI)
  fix y s''
  assume run: "a_then m k s = (y, s'')"
  obtain x s' where m: "m s = (x, s')" by fastforce
  then have R: "R s s'" using assms(1) by (auto simp: at_def)
  show "R s s''"
  proof (cases x)
    case (Returned v)
    with run m have "k v s' = (y, s'')" by (simp add: a_then_def)
    then show ?thesis using R assms(2) m Returned by (auto simp: at_def intro: rel_trans)
  qed (use run m R in \<open>auto simp: a_then_def\<close>)
qed

lemma at_get: "at s (f s) \<Longrightarrow> at s (a_get f)"
  by (simp add: at_def a_get_def)

lemma at_modify: "R s (f s) \<Longrightarrow> at s (a_modify f)"
  by (simp add: at_def a_modify_def)

lemma at_attempt: "at s m \<Longrightarrow> at s (a_attempt m)"
  unfolding at_def a_attempt_def by (fastforce split: prod.splits outcome.splits)

lemma at_ignore: "at s m \<Longrightarrow> at s (a_ignore m)"
  unfolding a_ignore_def by (intro at_then at_attempt at_pure)

lemma at_if: "(P \<Longrightarrow> at s m) \<Longrightarrow> (\<not> P \<Longrightarrow> at s m') \<Longrightarrow> at s (if P then m else m')"
  by simp

lemma at_each: "(\<And>x s. x \<in> set xs \<Longrightarrow> at s (f x)) \<Longrightarrow> at s (a_each f xs)"
  by (induction xs arbitrary: s) (auto intro!: at_then at_pure)

lemmas at_intros = at_pure at_then at_get at_attempt at_ignore at_if at_each

end

end
