(* ===== verification/AgentCore.thy ===== *)
theory AgentCore
  imports Store Connection Files Actions
begin

text \<open>
  The target agent of \<^verbatim>\<open>include/cf/agent.hpp\<close> and \<^verbatim>\<open>src/agent.cpp\<close>, first part: fault plans, the live
  pointer, the state of a running agent and the operations on transfers and on the live area that the
  message handlers use.

  A running agent is a record: its options, its durable store, the directories, the session, the
  files, the outgoing half of the connection, and what the operating system will answer (the clock,
  directory listings and modification times). An operation returns, fails (the early return of
  \<^verbatim>\<open>CF_TRY\<close>), exits the process (fault injection) or stops (a contract abort or undefined behaviour).
  Log lines are left out. The text of an error is a parameter where the sources send it.
\<close>

subsection \<open>Text helpers\<close>

fun split_on :: "char \<Rightarrow> string \<Rightarrow> string list" where
  "split_on c [] = [[]]"
| "split_on c (x # xs) =
     (if x = c then [] # split_on c xs
      else (case split_on c xs of [] \<Rightarrow> [[x]] | p # ps \<Rightarrow> (x # p) # ps))"

definition trim_right :: "(char \<Rightarrow> bool) \<Rightarrow> string \<Rightarrow> string" where
  "trim_right p s = rev (dropWhile p (rev s))"

text \<open>The loop over decimal digits with checked arithmetic; \<open>code\<close> is the error for another character.\<close>

fun parse_decimal :: "ErrorCode \<Rightarrow> string \<Rightarrow> 'a::len word \<Rightarrow> 'a word result" where
  "parse_decimal code [] n = Inr n"
| "parse_decimal code (c # cs) n =
     (if c < CHR ''0'' \<or> CHR ''9'' < c then Inl code
      else
        (case checkedMul n 10 of
           None \<Rightarrow> Inl ArithmeticOverflow
         | Some multiplied \<Rightarrow>
             (case checkedAdd multiplied (of_nat (of_char c - of_char CHR ''0'')) of
                None \<Rightarrow> Inl ArithmeticOverflow
              | Some next \<Rightarrow> parse_decimal code cs next)))"

subsection \<open>Fault plans\<close>

definition kAfterOffer :: string where "kAfterOffer = ''after-offer''"
definition kAfterChunk :: string where "kAfterChunk = ''after-chunk''"
definition kAfterVerify :: string where "kAfterVerify = ''after-verify''"
definition kAfterStage :: string where "kAfterStage = ''after-stage''"
definition kAfterPrepare :: string where "kAfterPrepare = ''after-prepare''"
definition kBeforeCommit :: string where "kBeforeCommit = ''before-commit''"
definition kAfterSwitch :: string where "kAfterSwitch = ''after-switch''"
definition kAfterCommit :: string where "kAfterCommit = ''after-commit''"
definition kWithholdAck :: string where "kWithholdAck = ''withhold-ack''"
definition kCorruptChunk :: string where "kCorruptChunk = ''corrupt-chunk''"
definition kTruncateTransfer :: string where "kTruncateTransfer = ''truncate-transfer''"
definition kDropAfterPrepare :: string where "kDropAfterPrepare = ''drop-after-prepare''"
definition kStaleCommit :: string where "kStaleCommit = ''stale-commit''"
definition kDuplicateChunk :: string where "kDuplicateChunk = ''duplicate-chunk''"
definition kReorderChunk :: string where "kReorderChunk = ''reorder-chunk''"
definition kOversizeDeclare :: string where "kOversizeDeclare = ''oversize-declare''"

type_synonym FaultPlan = "(string \<times> u32) list"

definition knownFaults :: "string list" where
  "knownFaults =
     [kAfterOffer, kAfterChunk, kAfterVerify, kAfterStage, kAfterPrepare, kBeforeCommit, kAfterSwitch,
      kAfterCommit, kWithholdAck, kCorruptChunk, kTruncateTransfer, kDropAfterPrepare, kStaleCommit,
      kDuplicateChunk, kOversizeDeclare]"

definition parse_fault :: "string \<Rightarrow> (string \<times> u32) result" where
  "parse_fault entry =
     (let name = takeWhile (\<lambda>c. c \<noteq> CHR '':'') entry;
          rest = dropWhile (\<lambda>c. c \<noteq> CHR '':'') entry
      in
      cf_try (case rest of
                [] \<Rightarrow> Inr 0
              | _ # countText \<Rightarrow>
                  fail_if (countText = []) InvalidArgument (parse_decimal InvalidArgument countText 0))
        (\<lambda>count. fail_if (name \<notin> set knownFaults) InvalidArgument (Inr (name, count))))"

fun parse_faults :: "string list \<Rightarrow> FaultPlan result" where
  "parse_faults [] = Inr []"
| "parse_faults (e # es) =
     (let entry = trim_right (\<lambda>c. c = CHR '' '') (dropWhile (\<lambda>c. c = CHR '' '') e) in
      if entry = [] then parse_faults es
      else cf_try (parse_fault entry) (\<lambda>p. cf_try (parse_faults es) (\<lambda>ps. Inr (p # ps))))"

definition FaultPlan_parse :: "string \<Rightarrow> FaultPlan result" where
  "FaultPlan_parse text = (if text = [] then Inr [] else parse_faults (split_on CHR '','' text))"

definition FaultPlan_armed :: "FaultPlan \<Rightarrow> string \<Rightarrow> bool" where
  "FaultPlan_armed plan point \<longleftrightarrow> list_ex (\<lambda>e. fst e = point) plan"

definition FaultPlan_countFor :: "FaultPlan \<Rightarrow> string \<Rightarrow> u32" where
  "FaultPlan_countFor plan point =
     (case List.find (\<lambda>e. fst e = point) plan of None \<Rightarrow> 0 | Some e \<Rightarrow> snd e)"

fun render_faults :: "FaultPlan \<Rightarrow> string \<Rightarrow> string" where
  "render_faults [] out = out"
| "render_faults ((name, count) # es) out =
     render_faults es
       (out @ (if out \<noteq> [] then '','' else []) @ name
        @ (if count \<noteq> 0 then '':'' @ to_string (unat count) else []))"

definition FaultPlan_render :: "FaultPlan \<Rightarrow> string" where
  "FaultPlan_render plan = (let out = render_faults plan [] in if out = [] then ''none'' else out)"

subsection \<open>The live pointer\<close>

definition kMaxLiveValueBytes :: nat where
  "kMaxLiveValueBytes = 512"

definition pointerText :: "Generation \<Rightarrow> Digest \<Rightarrow> ArtifactId \<Rightarrow> string" where
  "pointerText generation digest artifact =
     to_string (unat generation) @ '' '' @ Digest_hex digest @ '' '' @ artifact @ [CHR 0x0A]"

record PointerValue =
  pv_generation :: Generation
  pv_digest :: Digest
  pv_artifact :: ArtifactId

definition parsePointer :: "string \<Rightarrow> PointerValue result" where
  "parsePointer text =
     (case dropWhile (\<lambda>c. c \<noteq> CHR '' '') text of
        [] \<Rightarrow> Inl MalformedInput
      | _ # rest \<Rightarrow>
          (case dropWhile (\<lambda>c. c \<noteq> CHR '' '') rest of
             [] \<Rightarrow> Inl MalformedInput
           | _ # artifactRaw \<Rightarrow>
               (let generationText = takeWhile (\<lambda>c. c \<noteq> CHR '' '') text;
                    digestText = takeWhile (\<lambda>c. c \<noteq> CHR '' '') rest;
                    artifactText = trim_right (\<lambda>c. c = CHR 0x0A \<or> c = CHR 0x0D \<or> c = CHR '' '') artifactRaw
                in
                cf_try (parse_decimal MalformedInput generationText 0) (\<lambda>generation.
                cf_try (Digest_parse digestText) (\<lambda>digest.
                cf_try (if artifactText = [] then Inr [] else parseId artifactText) (\<lambda>artifact.
                Inr \<lparr>pv_generation = generation, pv_digest = digest, pv_artifact = artifact\<rparr>))))))"

definition readLiveValue :: "string \<Rightarrow> string result io" where
  "readLiveValue path w =
     (case readFileBounded path kMaxLiveValueBytes w of
        (Inl e, w') \<Rightarrow> (Inl e, w')
      | (Inr bs, w') \<Rightarrow> (Inr (bytes_string bs), w'))"

subsection \<open>File helpers\<close>

definition kArtifactCopyChunk :: nat where
  "kArtifactCopyChunk = 256 * 1024"

text \<open>The copying loop: a block is read and written; the status is that of the first failure.\<close>

fun copy_blocks :: "string \<Rightarrow> nat \<Rightarrow> bytes list \<Rightarrow> status io" where
  "copy_blocks temporary at [] w = io_or_fail os_call IoFailure (io_return (Inr ())) w"
| "copy_blocks temporary at (b # bs) w =
     io_or_fail os_call IoFailure
       (io_or_fail (fwrite_at temporary at b) IoFailure (copy_blocks temporary (at + length b) bs)) w"

definition copyFileAtomic :: "string \<Rightarrow> string \<Rightarrow> status io" where
  "copyFileAtomic source destination w =
     (case tempSiblingPath destination w of (temporary, w0) \<Rightarrow>
      case w_disk w0 source of
        None \<Rightarrow> (Inl ArtifactUnavailable, w0)
      | Some content \<Rightarrow>
          (case os_call w0 of
             (False, w1) \<Rightarrow> (Inl ArtifactUnavailable, w1)
           | (True, w1) \<Rightarrow>
               (case os_change (CreateFile temporary) w1 of
                  (False, w2) \<Rightarrow> (Inl OpenFailed, w2)
                | (True, w2) \<Rightarrow>
                    (case copy_blocks temporary 0 (file_blocks kArtifactCopyChunk content) w2 of
                       (result, w3) \<Rightarrow>
                     (case flushFileToDisk w3 of (flushed, w4) \<Rightarrow>
                      case cf_try result (\<lambda>_. flushed) of
                        Inl e \<Rightarrow> (case os_change (RemoveFile temporary) w4 of (_, w5) \<Rightarrow> (Inl e, w5))
                      | Inr _ \<Rightarrow>
                          (case os_change (RenameFile temporary destination) w4 of
                             (True, w5) \<Rightarrow> (Inr (), w5)
                           | (False, w5) \<Rightarrow>
                               (case os_change (RemoveFile temporary) w5 of
                                  (_, w6) \<Rightarrow> (Inl IoFailure, w6))))))))"

text \<open>The file is hashed in blocks of 64 KiB; an expected size of zero is no expectation.\<close>

definition hashStagingFile :: "string \<Rightarrow> u64 \<Rightarrow> Digest result io" where
  "hashStagingFile path expectedBytes w =
     (case w_disk w path of
        None \<Rightarrow> (Inl ArtifactUnavailable, w)
      | Some content \<Rightarrow>
          (case os_call w of
             (False, w1) \<Rightarrow> (Inl ArtifactUnavailable, w1)
           | (True, w1) \<Rightarrow>
               if length content \<ge> 2 ^ 64 then (Inl ArithmeticOverflow, w1)
               else
                 (case os_call w1 of
                    (False, w2) \<Rightarrow> (Inl IoFailure, w2)
                  | (True, w2) \<Rightarrow>
                      if expectedBytes \<noteq> 0 \<and> length content \<noteq> unat expectedBytes
                      then (Inl SizeMismatch, w2)
                      else (Inr (Sha256_finish (fold (\<lambda>b h. Sha256_update h b)
                                  (file_blocks (64 * 1024) content) Sha256_init)), w2))))"

subsection \<open>A running agent\<close>

record AgentOptions =
  ao_stateDirectory :: string
  ao_liveDirectory :: string
  ao_target :: TargetId
  ao_klass :: TargetClass
  ao_guarantee :: ApplyGuarantee
  ao_maxArtifactBytes :: u64
  ao_retainedPayloadsPerKey :: nat
  ao_sessionIdleTimeoutMillis :: int
  ao_key :: bytes
  ao_authenticate :: bool
  ao_verifyCommittedPayloadOnStart :: bool
  ao_faults :: FaultPlan

record Session =
  se_peerMaxPayload :: u32
  se_authorityEpoch :: Epoch
  se_authorityIncarnation :: IncarnationId
  se_authorityNode :: NodeId

definition emptySession :: Session where
  "emptySession =
     \<lparr>se_peerMaxPayload = kDefaultMaxPayloadBytes, se_authorityEpoch = 0,
      se_authorityIncarnation = unset_identity, se_authorityNode = []\<rparr>"

record TargetAgent =
  ta_options :: AgentOptions
  ta_store :: "AgentState DurableStore"
  ta_liveRoot :: string
  ta_stagingRoot :: string
  ta_chunkCounter :: u64
  ta_session :: Session
  ta_world :: world
  ta_out :: FrameOutput
  ta_now :: "nat \<Rightarrow> 64 word"
  ta_ticks :: nat
  ta_text :: "ErrorCode \<Rightarrow> string"
  ta_list :: "disk \<Rightarrow> string \<Rightarrow> string list"
  ta_tree :: "disk \<Rightarrow> string \<Rightarrow> string list"
  ta_mtime :: "disk \<Rightarrow> string \<Rightarrow> int option"

definition agent_state :: "TargetAgent \<Rightarrow> AgentState" where
  "agent_state r = ds_state (ta_store r)"

definition with_state :: "(AgentState \<Rightarrow> AgentState) \<Rightarrow> TargetAgent \<Rightarrow> TargetAgent" where
  "with_state f r = r\<lparr>ta_store := (ta_store r)\<lparr>ds_state := f (ds_state (ta_store r))\<rparr>\<rparr>"

type_synonym 'a act = "(TargetAgent, 'a) action"

definition a_io :: "'a io \<Rightarrow> 'a act" where
  "a_io m r = (case m (ta_world r) of (x, w) \<Rightarrow> (Returned x, r\<lparr>ta_world := w\<rparr>))"

definition a_send :: "FrameType \<Rightarrow> u16 \<Rightarrow> bytes \<Rightarrow> unit act" where
  "a_send t flags payload r =
     (case FramedConnection_send t flags payload (ta_out r) of
        (st, out) \<Rightarrow> a_result st (r\<lparr>ta_out := out\<rparr>))"

definition a_now :: "int act" where
  "a_now r = (Returned (sint (ta_now r (ta_ticks r))), r\<lparr>ta_ticks := Suc (ta_ticks r)\<rparr>)"

definition a_faulty :: "string \<Rightarrow> nat \<Rightarrow> unit act" where
  "a_faulty point code r =
     (if FaultPlan_armed (ao_faults (ta_options r)) point then (Exited code, r) else (Returned (), r))"

text \<open>\<^verbatim>\<open>store_->commit\<close>\<close>

definition a_commit :: "JournalRecordType \<Rightarrow> bytes \<Rightarrow> unit act" where
  "a_commit t payload r =
     (case DurableStore_commit AgentStateCodec (ta_store r) t payload (ta_world r) of
        ((st, store), w) \<Rightarrow> a_result st (r\<lparr>ta_store := store, ta_world := w\<rparr>))"

definition commit_written :: "JournalRecordType \<Rightarrow> bytes option list \<Rightarrow> unit act" where
  "commit_written t ws = a_then (a_written ws) (a_commit t)"

subsection \<open>Notes, transfers and payloads\<close>

definition liveKeyDirectory :: "TargetAgent \<Rightarrow> ConfigKey \<Rightarrow> string" where
  "liveKeyDirectory r key = ta_liveRoot r @ ''/'' @ key"

definition stagingPath :: "TargetAgent \<Rightarrow> DeploymentId \<Rightarrow> string" where
  "stagingPath r deployment = ta_stagingRoot r @ ''/'' @ deployment @ ''.part''"

definition payloadPath :: "string \<Rightarrow> Generation \<Rightarrow> Digest \<Rightarrow> string" where
  "payloadPath directory generation digest =
     directory @ ''/payload/'' @ to_string (unat generation) @ ''-'' @ take 12 (Digest_hex digest) @ ''.cfg''"

definition agent_note :: "string \<Rightarrow> unit act" where
  "agent_note t =
     (if length t > kMaxNoteBytes then a_fail LimitExceeded
      else commit_written Note [w_string kMaxNoteBytes t])"

definition recordNote :: "string \<Rightarrow> unit act" where
  "recordNote t = agent_note t"

definition commit_rollback_note :: "unit act" where
  "commit_rollback_note =
     a_get (\<lambda>r. let s = agent_state r in
       commit_written AgentRollbackNote
         [w_u64 (as_applyRollbacks s), w_u64 (as_duplicatesSuppressed s), w_u64 (as_staleOffersRefused s),
          w_u64 (as_digestRejections s)])"

definition commit_target :: "Generation \<Rightarrow> Digest \<Rightarrow> ArtifactId \<Rightarrow> unit act" where
  "commit_target generation digest artifact =
     commit_written AgentTargetCommit
       [w_u64 generation, w_digest digest, w_string kMaxIdentifierLength artifact]"

definition commit_resolved :: "u64 \<Rightarrow> unit act" where
  "commit_resolved activations = commit_written AgentApplyResolved [w_u64 activations]"

definition commit_prepared :: "TransferRecord \<Rightarrow> unit act" where
  "commit_prepared t =
     commit_written AgentApplyPrepared
       [w_string kMaxIdentifierLength (xr_deployment t), w_u64 (xr_generation t), w_digest (xr_digest t)]"

definition prunePayloads :: "ConfigKey \<Rightarrow> unit act" where
  "prunePayloads key =
     a_get (\<lambda>r. let d = w_disk (ta_world r);
                    files = ta_list r d (liveKeyDirectory r key @ ''/payload'');
                    entries = List.map_filter (\<lambda>p. map_option (\<lambda>t. (p, t)) (ta_mtime r d p)) files;
                    kept = ao_retainedPayloadsPerKey (ta_options r)
                in
                if length entries \<le> kept then a_return ()
                else a_io (\<lambda>w. ((), fold (\<lambda>e w. snd (fs_remove (fst e) w))
                                       (drop kept (sort_key (\<lambda>e. - snd e) entries)) w)))"

record LivePointer =
  lp_generation :: Generation
  lp_digest :: Digest
  lp_present :: bool

definition readLivePointer :: "ConfigKey \<Rightarrow> LivePointer act" where
  "readLivePointer key =
     a_get (\<lambda>r. a_then (a_io (readLiveValue (liveKeyDirectory r key @ ''/current''))) (\<lambda>text.
       case text of
         Inl _ \<Rightarrow> a_return \<lparr>lp_generation = 0, lp_digest = unset_digest, lp_present = False\<rparr>
       | Inr t \<Rightarrow>
           a_then (a_result (parsePointer t)) (\<lambda>p.
             a_return \<lparr>lp_generation = pv_generation p, lp_digest = pv_digest p, lp_present = True\<rparr>)))"

definition checkpointTransfer :: "TransferRecord \<Rightarrow> unit act" where
  "checkpointTransfer t =
     commit_written AgentTransferUpsert
       [w_string kMaxIdentifierLength (xr_deployment t), w_u64 (xr_stream t),
        w_string kMaxIdentifierLength (xr_key t), w_string kMaxIdentifierLength (xr_artifact t),
        w_u64 (xr_generation t), w_digest (xr_digest t), w_u64 (xr_totalBytes t),
        w_u64 (xr_bytesReceived t), w_boolean (xr_verified t), w_boolean (xr_staged t),
        w_i64 (xr_updatedAtMillis t)]"

definition destroyTransfer :: "DeploymentId \<Rightarrow> unit act" where
  "destroyTransfer deployment =
     a_get (\<lambda>r. a_then (a_io (fs_remove (stagingPath r deployment))) (\<lambda>_.
       if om_find (as_transfers (agent_state r)) deployment = None then a_return ()
       else commit_written AgentTransferRemove [w_string kMaxIdentifierLength deployment]))"

definition beginTransfer :: "PrepareMessage \<Rightarrow> u64 \<Rightarrow> unit act" where
  "beginTransfer m resumeFrom =
     a_then a_now (\<lambda>now.
       checkpointTransfer
         \<lparr>xr_deployment = prepare_deployment m, xr_stream = prepare_stream m, xr_key = prepare_key m,
          xr_artifact = prepare_artifact m, xr_generation = prepare_generation m,
          xr_digest = prepare_digest m, xr_totalBytes = prepare_sizeBytes m,
          xr_bytesReceived = resumeFrom, xr_verified = False, xr_staged = False,
          xr_updatedAtMillis = now\<rparr>)"

subsection \<open>Activation\<close>

definition commitGeneration ::
  "DeploymentId \<Rightarrow> ConfigKey \<Rightarrow> Generation \<Rightarrow> Digest \<Rightarrow> ArtifactId \<Rightarrow> unit act" where
  "commitGeneration deployment key generation digest artifact =
     a_then (a_get (\<lambda>r. if as_applyPrepared (agent_state r)
                        then commit_resolved (as_activations (agent_state r) + 1) else a_return ())) (\<lambda>_.
     a_then (commit_target generation digest artifact) (\<lambda>_.
     a_then a_now (\<lambda>now.
     a_then (commit_written AgentFindingUpsert
        [w_string kMaxIdentifierLength key, w_u64 generation, w_digest digest,
         w_string kMaxIdentifierLength artifact, w_string kMaxIdentifierLength deployment,
         w_u8 (deliveryStateValue Applied), w_i64 now]) (\<lambda>_.
     a_then (a_modify (with_state (\<lambda>s. if as_activations s \<noteq> - 1
                                       then s\<lparr>as_activations := as_activations s + 1\<rparr> else s))) (\<lambda>_.
     commit_rollback_note)))))"

definition activate :: "TransferRecord \<Rightarrow> bool \<Rightarrow> unit act" where
  "activate t explicitPrepare =
     a_get (\<lambda>r.
       let directory = liveKeyDirectory r (xr_key t);
           currentPath = directory @ ''/current'';
           pendingPath = directory @ ''/pending'';
           marker = string_bytes (pointerText (xr_generation t) (xr_digest t) (xr_artifact t))
       in
       a_then (if explicitPrepare \<and> \<not> as_applyPrepared (agent_state r)
               then a_then (a_then (a_io (writeFileAtomic pendingPath marker)) a_result) (\<lambda>_. commit_prepared t)
               else a_return ()) (\<lambda>_.
       a_then (a_faulty kBeforeCommit 77) (\<lambda>_.
       a_then (a_then (a_io (writeFileAtomic currentPath marker)) a_result) (\<lambda>_.
       a_then (if explicitPrepare then a_then (a_io (fs_remove pendingPath)) (\<lambda>_. a_return ())
               else a_return ()) (\<lambda>_.
       a_then (a_faulty kAfterSwitch 78) (\<lambda>_.
       a_then (commitGeneration (xr_deployment t) (xr_key t) (xr_generation t) (xr_digest t) (xr_artifact t)) (\<lambda>_.
       prunePayloads (xr_key t))))))))"

end
