(* ===== verification/AgentSession.thy ===== *)
theory AgentSession
  imports AgentCore
begin

text \<open>
  The target agent, second part: the handshake, one definition per message handler, the dispatch over
  frame types and the session loop of \<^verbatim>\<open>src/agent.cpp\<close>. A handler that answers with a refusal returns
  normally: the session goes on.
\<close>

subsection \<open>Answers\<close>

definition send_encoded :: "FrameType \<Rightarrow> u16 \<Rightarrow> bytes encoded \<Rightarrow> unit act" where
  "send_encoded t flags x = a_then (a_encoded x) (a_send t flags)"

definition sendNack ::
  "DeploymentId \<Rightarrow> ConfigKey \<Rightarrow> Generation \<Rightarrow> Digest \<Rightarrow> ErrorCode \<Rightarrow> string \<Rightarrow> unit act" where
  "sendNack deployment key generation digest code detail =
     a_get (\<lambda>r. send_encoded DeliveryNack 0 (encodeDeliveryNack
       \<lparr>deliveryNack_deployment = deployment, deliveryNack_key = key,
        deliveryNack_generation = (if uint_isSet generation then generation else 1),
        deliveryNack_digest = (if Digest_isSet digest then digest else Digest_ofText ''no-digest''),
        deliveryNack_code = code, deliveryNack_directive = retryDirectiveFor code,
        deliveryNack_term = as_term (agent_state r), deliveryNack_incarnation = as_incarnation (agent_state r),
        deliveryNack_detail = take kMaxMessageDetailBytes detail\<rparr>))"

definition sendAck ::
  "DeploymentId \<Rightarrow> ConfigKey \<Rightarrow> Generation \<Rightarrow> Digest \<Rightarrow> DeliveryState \<Rightarrow> u64 \<Rightarrow> bool \<Rightarrow> unit act" where
  "sendAck deployment key generation digest state bytesTransferred fromReconcile =
     a_get (\<lambda>r.
       if FaultPlan_armed (ao_faults (ta_options r)) kWithholdAck then a_return ()
       else
         a_then a_now (\<lambda>now.
         send_encoded DeliveryAck 0 (encodeDeliveryAck
           \<lparr>deliveryAck_deployment = deployment, deliveryAck_key = key, deliveryAck_generation = generation,
            deliveryAck_digest = digest, deliveryAck_artifact = as_committedArtifact (agent_state r),
            deliveryAck_state = state, deliveryAck_term = as_term (agent_state r),
            deliveryAck_incarnation = as_incarnation (agent_state r),
            deliveryAck_authorityEpoch = se_authorityEpoch (ta_session r),
            deliveryAck_guarantee = as_guarantee (agent_state r),
            deliveryAck_bytesTransferred = bytesTransferred,
            deliveryAck_targetTimestampMillis = now, deliveryAck_evidenceFromReconcile = fromReconcile\<rparr>)))"

definition refusePrepare :: "PrepareMessage \<Rightarrow> ErrorCode \<Rightarrow> string \<Rightarrow> DeliveryState \<Rightarrow> unit act" where
  "refusePrepare m code detail observed =
     a_get (\<lambda>r. send_encoded PrepareReject kFrameFlagResponse (encodePrepareReject
       \<lparr>prepareReject_deployment = prepare_deployment m, prepareReject_code = code,
        prepareReject_detail = take kMaxMessageDetailBytes detail, prepareReject_observedState = observed,
        prepareReject_committedGeneration = as_committedGeneration (agent_state r)\<rparr>))"

subsection \<open>Offers and chunks\<close>

definition committed_set :: "TargetAgent \<Rightarrow> bool" where
  "committed_set r \<longleftrightarrow> uint_isSet (as_committedGeneration (agent_state r))"

definition count_stale :: "unit act" where
  "count_stale =
     a_then (a_modify (with_state (\<lambda>s. s\<lparr>as_staleOffersRefused := as_staleOffersRefused s + 1\<rparr>)))
       (\<lambda>_. commit_rollback_note)"

definition count_duplicate :: "unit act" where
  "count_duplicate =
     a_then (a_modify (with_state (\<lambda>s. s\<lparr>as_duplicatesSuppressed := as_duplicatesSuppressed s + 1\<rparr>)))
       (\<lambda>_. commit_rollback_note)"

definition offer_ack :: "TargetAgent \<Rightarrow> PrepareMessage \<Rightarrow> PrepareAckMessage" where
  "offer_ack r m =
     (let s = agent_state r in
      \<lparr>prepareAck_deployment = prepare_deployment m, prepareAck_stream = prepare_stream m,
       prepareAck_resumeFromOffset = 0, prepareAck_committedGeneration = as_committedGeneration s,
       prepareAck_committedDigest = as_committedDigest s, prepareAck_duplicateSuppressed = False,
       prepareAck_priorState = (if committed_set r then Applied else Prepared),
       prepareAck_priorGeneration = as_committedGeneration s,
       prepareAck_priorDigest = as_committedDigest s\<rparr>)"

text \<open>Where an accepted offer resumes, discarding a transfer that does not fit it.\<close>

definition resume_point :: "PrepareMessage \<Rightarrow> u64 act" where
  "resume_point m =
     a_get (\<lambda>r.
       case om_find (as_transfers (agent_state r)) (prepare_deployment m) of
         None \<Rightarrow> a_return 0
       | Some t \<Rightarrow>
           if xr_digest t = prepare_digest m \<and> xr_generation t = prepare_generation m
              \<and> xr_totalBytes t = prepare_sizeBytes m
           then
             a_then (a_io (fs_file_size (stagingPath r (prepare_deployment m)))) (\<lambda>onDisk.
               if xr_verified t
               then (if onDisk = Some (xr_totalBytes t) then a_return (xr_totalBytes t)
                     else a_then (destroyTransfer (prepare_deployment m)) (\<lambda>_. a_return 0))
               else a_return (case onDisk of None \<Rightarrow> 0 | Some n \<Rightarrow> min (xr_bytesReceived t) n))
           else a_then (destroyTransfer (prepare_deployment m)) (\<lambda>_. a_return 0))"

definition accept_offer :: "PrepareMessage \<Rightarrow> PrepareAckMessage \<Rightarrow> unit act" where
  "accept_offer m ack =
     a_then (resume_point m) (\<lambda>resumeFrom.
     a_then (beginTransfer m resumeFrom) (\<lambda>_.
     a_then (send_encoded PrepareAck kFrameFlagResponse
               (encodePrepareAck (ack\<lparr>prepareAck_resumeFromOffset := resumeFrom\<rparr>))) (\<lambda>_.
     a_faulty kAfterOffer 71)))"

definition onPrepare :: "bytes \<Rightarrow> unit act" where
  "onPrepare payload =
     a_then (a_result (decodePrepare payload)) (\<lambda>m.
     a_get (\<lambda>r.
       let s = agent_state r in
       if prepare_sizeBytes m > ao_maxArtifactBytes (ta_options r)
       then refusePrepare m OversizePayload ''artifact exceeds this target's size bound''
              (if committed_set r then Applied else Prepared)
       else if committed_set r \<and> prepare_generation m < as_committedGeneration s
       then a_then count_stale (\<lambda>_.
              refusePrepare m StaleGeneration ''offered generation is older than the committed generation'' Applied)
       else if committed_set r \<and> prepare_generation m = as_committedGeneration s
               \<and> prepare_digest m \<noteq> as_committedDigest s
       then a_then count_stale (\<lambda>_.
              refusePrepare m GenerationConflict
                ''a different content digest is already committed for this generation'' Applied)
       else if \<not> guaranteeSatisfies (as_guarantee s) (prepare_requirement m)
       then refusePrepare m GuaranteeUnsupported
              (''target offers '' @ [CHR 0x27] @ applyGuaranteeName (as_guarantee s) @ [CHR 0x27]
               @ '' which cannot satisfy '' @ [CHR 0x27] @ guaranteeRequirementName (prepare_requirement m)
               @ [CHR 0x27]) Prepared
       else if as_applyPrepared s
       then refusePrepare m Busy ''an unresolved prepare window is open on this target'' Staged
       else
         (let ack = offer_ack r m in
          case findFinding s (prepare_key m) (prepare_digest m) of
            Some f \<Rightarrow>
              if isActivationState (af_state f) \<and> af_generation f = prepare_generation m
              then a_then count_duplicate (\<lambda>_.
                     send_encoded PrepareAck kFrameFlagResponse (encodePrepareAck
                       (ack\<lparr>prepareAck_duplicateSuppressed := True, prepareAck_priorState := af_state f,
                            prepareAck_priorGeneration := af_generation f,
                            prepareAck_priorDigest := af_digest f,
                            prepareAck_resumeFromOffset := prepare_sizeBytes m\<rparr>)))
              else accept_offer m ack
          | None \<Rightarrow> accept_offer m ack)))"

definition kTransferCheckpointChunks :: u64 where
  "kTransferCheckpointChunks = 16"

definition send_chunk_ack :: "ChunkMessage \<Rightarrow> u64 \<Rightarrow> ErrorCode \<Rightarrow> string \<Rightarrow> unit act" where
  "send_chunk_ack c bytesReceived code detail =
     send_encoded ChunkAck kFrameFlagResponse (encodeChunkAck
       \<lparr>chunkAck_stream = chunk_stream c, chunkAck_sequence = chunk_sequence c, chunkAck_code = code,
        chunkAck_bytesReceived = bytesReceived, chunkAck_detail = detail\<rparr>)"

text \<open>Opening the staging file, and writing a chunk at its offset with the flush that follows.\<close>

definition open_staging :: "string \<Rightarrow> bool \<Rightarrow> bool io" where
  "open_staging path fresh w =
     (if fresh then os_change (CreateFile path) w
      else case w_disk w path of None \<Rightarrow> (False, w) | Some _ \<Rightarrow> os_call w)"

definition write_chunk :: "string \<Rightarrow> nat \<Rightarrow> bytes \<Rightarrow> bool io" where
  "write_chunk path offset data w =
     (case os_call w of (seekOk, w1) \<Rightarrow>
      case (if seekOk \<and> data \<noteq> [] then fwrite_at path offset data w1 else (data = [], w1)) of (written, w2) \<Rightarrow>
      case os_call w2 of (flushed, w3) \<Rightarrow> (seekOk \<and> written \<and> flushed, w3))"

definition store_chunk :: "ChunkMessage \<Rightarrow> DeploymentId \<Rightarrow> TransferRecord \<Rightarrow> u64 \<Rightarrow> unit act" where
  "store_chunk c deployment t end =
     a_then a_now (\<lambda>now.
       let updated = t\<lparr>xr_bytesReceived := end, xr_updatedAtMillis := now\<rparr> in
     a_then (a_modify (\<lambda>r. r\<lparr>ta_chunkCounter := ta_chunkCounter r + 1\<rparr>)) (\<lambda>_.
     a_then (a_get (\<lambda>r. if ta_chunkCounter r mod kTransferCheckpointChunks = 0 \<or> end = xr_totalBytes t
                        then checkpointTransfer updated
                        else a_modify (with_state (\<lambda>s. s\<lparr>as_transfers := om_put deployment updated (as_transfers s)\<rparr>))))
       (\<lambda>_.
     a_get (\<lambda>r. let injected = FaultPlan_countFor (ao_faults (ta_options r)) kAfterChunk in
       if injected \<noteq> 0 \<and> ta_chunkCounter r \<ge> ucast injected then a_exit 72
       else send_chunk_ack c end Ok []))))"

definition onChunk :: "bytes \<Rightarrow> unit act" where
  "onChunk payload =
     a_then (a_result (decodeChunk payload)) (\<lambda>c.
     a_get (\<lambda>r.
       case List.find (\<lambda>e. xr_stream (snd e) = chunk_stream c) (as_transfers (agent_state r)) of
         None \<Rightarrow> send_chunk_ack c 0 NotFound ''no transfer is open for this stream''
       | Some (deployment, t) \<Rightarrow>
           if deployment = [] then send_chunk_ack c 0 NotFound ''no transfer is open for this stream''
           else if chunk_offset c \<noteq> xr_bytesReceived t
           then send_chunk_ack c (xr_bytesReceived t) ReorderedFrame
                  (if chunk_offset c < xr_bytesReceived t then ''duplicate chunk''
                   else ''chunk arrived out of order'')
           else
             (case checkedAdd (chunk_offset c) (of_nat (length (chunk_data c))) of
                None \<Rightarrow> send_chunk_ack c (xr_bytesReceived t) SizeMismatch
                          ''chunk would extend past the declared artifact size''
              | Some end \<Rightarrow>
                  if end > xr_totalBytes t
                  then send_chunk_ack c (xr_bytesReceived t) SizeMismatch
                         ''chunk would extend past the declared artifact size''
                  else
                    (let data = chunk_data c;
                         written = (if FaultPlan_armed (ao_faults (ta_options r)) kCorruptChunk \<and> data \<noteq> []
                                    then (hd data XOR 0xFF) # tl data else data);
                         path = stagingPath r deployment
                     in
                     a_then (a_io (open_staging path (xr_bytesReceived t = 0))) (\<lambda>opened.
                     if \<not> opened
                     then send_chunk_ack c (xr_bytesReceived t) IoFailure ''cannot open the staging file''
                     else a_then (a_io (write_chunk path (unat (chunk_offset c)) written)) (\<lambda>persisted.
                     if \<not> persisted
                     then send_chunk_ack c (xr_bytesReceived t) IoFailure ''cannot persist the chunk''
                     else store_chunk c deployment t end))))))"

subsection \<open>Verifying and staging\<close>

definition send_transfer_result ::
  "TransferCompleteMessage \<Rightarrow> bool \<Rightarrow> u64 \<Rightarrow> ErrorCode \<Rightarrow> string \<Rightarrow> unit act" where
  "send_transfer_result m verified bytesReceived code detail =
     send_encoded TransferResult kFrameFlagResponse (encodeTransferResult
       \<lparr>transferResult_deployment = transferComplete_deployment m,
        transferResult_stream = transferComplete_stream m, transferResult_verified = verified,
        transferResult_bytesReceived = bytesReceived, transferResult_code = code,
        transferResult_detail = detail\<rparr>)"

definition reject_digest :: "TransferCompleteMessage \<Rightarrow> TransferRecord \<Rightarrow> ErrorCode \<Rightarrow> unit act" where
  "reject_digest m t code =
     a_then (a_modify (with_state (\<lambda>s. s\<lparr>as_digestRejections := as_digestRejections s + 1\<rparr>))) (\<lambda>_.
     a_then commit_rollback_note (\<lambda>_.
     a_then (destroyTransfer (transferComplete_deployment m)) (\<lambda>_.
     a_then (send_transfer_result m False (xr_bytesReceived t) code
               ''the staged content does not hash to the declared digest'') (\<lambda>_.
     sendNack (transferComplete_deployment m) (xr_key t) (xr_generation t) (xr_digest t) DigestMismatch
       ''digest mismatch at the target''))))"

definition onTransferComplete :: "bytes \<Rightarrow> unit act" where
  "onTransferComplete payload =
     a_then (a_result (decodeTransferComplete payload)) (\<lambda>m.
     a_get (\<lambda>r.
       case om_find (as_transfers (agent_state r)) (transferComplete_deployment m) of
         None \<Rightarrow> send_transfer_result m False 0 NotFound ''no transfer is open for this deployment''
       | Some t \<Rightarrow>
           if xr_bytesReceived t \<noteq> xr_totalBytes t
           then send_transfer_result m False (xr_bytesReceived t) SizeMismatch
                  ''the transfer is incomplete at the target''
           else if transferComplete_digest m \<noteq> xr_digest t \<or> transferComplete_sizeBytes m \<noteq> xr_totalBytes t
           then send_transfer_result m False (xr_bytesReceived t) Conflict
                  ''the completion message describes different content''
           else
             a_then (a_io (hashStagingFile (stagingPath r (transferComplete_deployment m)) (xr_totalBytes t)))
               (\<lambda>actual.
             case actual of
               Inl e \<Rightarrow> reject_digest m t e
             | Inr d \<Rightarrow>
                 if d \<noteq> xr_digest t then reject_digest m t DigestMismatch
                 else
                   a_then a_now (\<lambda>now.
                   a_then (checkpointTransfer (t\<lparr>xr_verified := True, xr_updatedAtMillis := now\<rparr>)) (\<lambda>_.
                   a_then (send_transfer_result m True (xr_bytesReceived t) Ok []) (\<lambda>_.
                   a_faulty kAfterVerify 73))))))"

definition send_stage_ack :: "StageMessage \<Rightarrow> bool \<Rightarrow> ErrorCode \<Rightarrow> string \<Rightarrow> unit act" where
  "send_stage_ack m staged code detail =
     send_encoded StageAck kFrameFlagResponse (encodeStageAck
       \<lparr>stageAck_deployment = stage_deployment m, stageAck_staged = staged, stageAck_code = code,
        stageAck_detail = detail\<rparr>)"

definition onStage :: "bytes \<Rightarrow> unit act" where
  "onStage payload =
     a_then (a_result (decodeStage payload)) (\<lambda>m.
     a_get (\<lambda>r.
       case om_find (as_transfers (agent_state r)) (stage_deployment m) of
         None \<Rightarrow> send_stage_ack m False NotFound ''no transfer is open for this deployment''
       | Some t \<Rightarrow>
           if \<not> xr_verified t
           then send_stage_ack m False NotPrepared ''the staged artifact has not been verified''
           else if stage_digest m \<noteq> xr_digest t \<or> stage_generation m \<noteq> xr_generation t
           then send_stage_ack m False Conflict ''the stage message describes different content''
           else if committed_set r \<and> stage_generation m < as_committedGeneration (agent_state r)
           then send_stage_ack m False StaleGeneration
                  ''staging a generation older than the committed one is refused''
           else
             a_then (a_io os_call) (\<lambda>created.
             if \<not> created
             then send_stage_ack m False OpenFailed ''cannot create the live payload directory''
             else
               a_then (a_io (copyFileAtomic (stagingPath r (stage_deployment m))
                  (payloadPath (liveKeyDirectory r (xr_key t)) (xr_generation t) (xr_digest t)))) (\<lambda>copied.
               case copied of
                 Inl e \<Rightarrow> send_stage_ack m False e ''cannot place the artifact into the live area''
               | Inr _ \<Rightarrow>
                   a_then a_now (\<lambda>now.
                   a_then (checkpointTransfer (t\<lparr>xr_staged := True, xr_updatedAtMillis := now\<rparr>)) (\<lambda>_.
                   a_then (send_stage_ack m True Ok []) (\<lambda>_.
                   a_faulty kAfterStage 74)))))))"

subsection \<open>The prepare window and the commit\<close>

definition send_prepare_window_ack :: "ApplyPrepareMessage \<Rightarrow> bool \<Rightarrow> ErrorCode \<Rightarrow> string \<Rightarrow> unit act" where
  "send_prepare_window_ack m prepared code detail =
     send_encoded ApplyPrepareAck kFrameFlagResponse (encodeApplyPrepareAck
       \<lparr>applyPrepareAck_deployment = applyPrepare_deployment m, applyPrepareAck_prepared = prepared,
        applyPrepareAck_code = code, applyPrepareAck_detail = detail\<rparr>)"

text \<open>The pending marker and its durable record, then the answer and the two fault points.\<close>

definition open_window :: "ApplyPrepareMessage \<Rightarrow> TransferRecord \<Rightarrow> unit act" where
  "open_window m t =
     a_get (\<lambda>r.
     a_then (a_io (writeFileAtomic (liveKeyDirectory r (xr_key t) @ ''/pending'')
                     (string_bytes (pointerText (xr_generation t) (xr_digest t) [])))) (\<lambda>written.
     case written of
       Inl e \<Rightarrow> send_prepare_window_ack m False e ''cannot write the prepare marker''
     | Inr _ \<Rightarrow>
         a_then (commit_prepared t) (\<lambda>_.
         a_then (send_prepare_window_ack m True Ok []) (\<lambda>_.
         a_then (a_faulty kAfterPrepare 75) (\<lambda>_.
         if FaultPlan_armed (ao_faults (ta_options r)) kDropAfterPrepare
         then a_fail ConnectionClosed else a_return ())))))"

definition onApplyPrepare :: "bytes \<Rightarrow> unit act" where
  "onApplyPrepare payload =
     a_then (a_result (decodeApplyPrepare payload)) (\<lambda>m.
     a_get (\<lambda>r.
       let s = agent_state r;
           unstaged = send_prepare_window_ack m False NotPrepared
                        ''no staged artifact is available for this deployment''
       in
       if as_guarantee s = AtomicActivate
       then send_prepare_window_ack m False UnexpectedMessage
              ''this target activates atomically; a prepare/commit window would weaken its contract''
       else
         (case om_find (as_transfers s) (applyPrepare_deployment m) of
            None \<Rightarrow> unstaged
          | Some t \<Rightarrow>
              if \<not> xr_staged t then unstaged
              else if committed_set r \<and> applyPrepare_generation m < as_committedGeneration s
              then send_prepare_window_ack m False StaleGeneration
                     ''prepare refused: the generation is older than the committed one''
              else if applyPrepare_digest m \<noteq> xr_digest t \<or> applyPrepare_generation m \<noteq> xr_generation t
              then send_prepare_window_ack m False Conflict ''prepare describes different content''
              else if as_applyPrepared s
              then send_prepare_window_ack m False Busy ''a prepare window is already open''
              else open_window m t)))"

text \<open>
  The acknowledgement of a commit starts from the committed generation at entry; \<open>commit_ack\<close> is that
  record with the fields a branch sets.
\<close>

definition send_commit_ack ::
  "ApplyCommitMessage \<Rightarrow> TargetAgent \<Rightarrow> bool \<Rightarrow> DeliveryState \<Rightarrow> ErrorCode \<Rightarrow> string \<Rightarrow> unit act" where
  "send_commit_ack m r committed state code detail =
     send_encoded ApplyCommitAck kFrameFlagResponse (encodeApplyCommitAck
       \<lparr>applyCommitAck_deployment = applyCommit_deployment m, applyCommitAck_committed = committed,
        applyCommitAck_state = state,
        applyCommitAck_committedGeneration = as_committedGeneration (agent_state r),
        applyCommitAck_committedDigest = as_committedDigest (agent_state r),
        applyCommitAck_code = code, applyCommitAck_detail = detail\<rparr>)"

text \<open>A refused commit is answered and then reported by a nack; \<open>key\<close> is the key the nack names.\<close>

definition refuse_commit ::
  "ApplyCommitMessage \<Rightarrow> TargetAgent \<Rightarrow> ConfigKey \<Rightarrow> ErrorCode \<Rightarrow> string \<Rightarrow> string \<Rightarrow> unit act" where
  "refuse_commit m r key code detail nackDetail =
     a_then (send_commit_ack m r False (if committed_set r then Applied else Prepared) code detail) (\<lambda>_.
     sendNack (applyCommit_deployment m) key (applyCommit_generation m) (applyCommit_digest m) code nackDetail)"

definition suppress_commit :: "ApplyCommitMessage \<Rightarrow> TargetAgent \<Rightarrow> string \<Rightarrow> unit act" where
  "suppress_commit m r detail =
     a_then (send_commit_ack m r True Applied DuplicateSuppressed detail) (\<lambda>_.
     sendAck (applyCommit_deployment m) [] (applyCommit_generation m) (applyCommit_digest m) Applied 0 False)"

definition commit_unstaged :: "ApplyCommitMessage \<Rightarrow> TargetAgent \<Rightarrow> unit act" where
  "commit_unstaged m r =
     (if list_ex (\<lambda>f. af_generation f = applyCommit_generation m \<and> af_digest f = applyCommit_digest m
                      \<and> isActivationState (af_state f)) (as_findings (agent_state r))
      then suppress_commit m r ''activation for this content is already recorded''
      else refuse_commit m r [] NotPrepared ''no staged artifact is available for this deployment''
             ''commit without a staged artifact'')"

definition commit_staged :: "ApplyCommitMessage \<Rightarrow> TargetAgent \<Rightarrow> TransferRecord \<Rightarrow> unit act" where
  "commit_staged m r t =
     (let s = agent_state r;
          needsWindow = ''this target requires an explicit prepare window before a commit'';
          otherWindow = ''a different deployment holds the open prepare window''
      in
      if applyCommit_digest m \<noteq> xr_digest t \<or> applyCommit_generation m \<noteq> xr_generation t
      then refuse_commit m r (xr_key t) Conflict
             ''commit describes different content than the staged artifact'' ''commit content conflict''
      else if as_guarantee s = PrepareCommitAbort \<and> \<not> as_applyPrepared s
      then refuse_commit m r (xr_key t) NotPrepared needsWindow needsWindow
      else if as_applyPrepared s \<and> as_preparedDeployment s \<noteq> applyCommit_deployment m
      then refuse_commit m r (xr_key t) Conflict otherWindow otherWindow
      else
        a_then (a_attempt (activate t (as_guarantee s = PrepareCommitAbort))) (\<lambda>activated.
        case activated of
          Inl e \<Rightarrow> refuse_commit m r (xr_key t) e (ta_text r e) (ta_text r e)
        | Inr _ \<Rightarrow>
            a_then (a_get (\<lambda>r'. send_commit_ack m r' True Applied Ok [])) (\<lambda>_.
            a_then (a_faulty kAfterCommit 76) (\<lambda>_.
            sendAck (applyCommit_deployment m) (xr_key t) (xr_generation t) (xr_digest t) Applied
              (xr_totalBytes t) False))))"

definition onApplyCommit :: "bytes \<Rightarrow> unit act" where
  "onApplyCommit payload =
     a_then (a_result (decodeApplyCommit payload)) (\<lambda>m.
     a_get (\<lambda>r.
       let s = agent_state r in
       if committed_set r \<and> applyCommit_generation m < as_committedGeneration s
       then a_then count_stale (\<lambda>_.
              refuse_commit m r [] StaleGeneration
                ''commit refused: the generation is older than the committed one''
                ''stale commit refused at the target'')
       else if committed_set r \<and> applyCommit_generation m = as_committedGeneration s
               \<and> applyCommit_digest m = as_committedDigest s
       then a_then count_duplicate (\<lambda>_.
              suppress_commit m r ''the generation is already active; the commit was not re-applied'')
       else if committed_set r \<and> applyCommit_generation m = as_committedGeneration s
               \<and> applyCommit_digest m \<noteq> as_committedDigest s
       then refuse_commit m r [] GenerationConflict
              ''a different digest is already committed for this generation''
              ''generation conflict at the target''
       else
         (case om_find (as_transfers s) (applyCommit_deployment m) of
            None \<Rightarrow> commit_unstaged m r
          | Some t \<Rightarrow> if xr_staged t then commit_staged m r t else commit_unstaged m r)))"

definition send_abort_ack :: "ApplyAbortMessage \<Rightarrow> bool \<Rightarrow> ErrorCode \<Rightarrow> string \<Rightarrow> unit act" where
  "send_abort_ack m aborted code detail =
     send_encoded ApplyAbortAck kFrameFlagResponse (encodeApplyAbortAck
       \<lparr>applyAbortAck_deployment = applyAbort_deployment m, applyAbortAck_aborted = aborted,
        applyAbortAck_code = code, applyAbortAck_detail = detail\<rparr>)"

definition count_rollback :: "unit act" where
  "count_rollback =
     a_then (a_modify (with_state (\<lambda>s. s\<lparr>as_applyRollbacks := as_applyRollbacks s + 1\<rparr>)))
       (\<lambda>_. commit_rollback_note)"

definition resolve_window :: "unit act" where
  "resolve_window = a_get (\<lambda>r. commit_resolved (as_activations (agent_state r)))"

definition onApplyAbort :: "bytes \<Rightarrow> unit act" where
  "onApplyAbort payload =
     a_then (a_result (decodeApplyAbort payload)) (\<lambda>m.
     a_get (\<lambda>r.
       let s = agent_state r in
       if \<not> as_applyPrepared s
       then send_abort_ack m False NotPrepared ''no prepare window is open''
       else if applyAbort_deployment m \<noteq> as_preparedDeployment s
               \<or> applyAbort_generation m \<noteq> as_preparedGeneration s
       then send_abort_ack m False Conflict ''the abort describes a different prepare window''
       else
         a_then (case List.find (\<lambda>e. xr_deployment (snd e) = as_preparedDeployment s) (as_transfers s) of
                   None \<Rightarrow> a_return ()
                 | Some (_, t) \<Rightarrow>
                     a_then (a_io (fs_remove (liveKeyDirectory r (xr_key t) @ ''/pending'')))
                       (\<lambda>_. a_return ())) (\<lambda>_.
         a_then count_rollback (\<lambda>_.
         a_then resolve_window (\<lambda>_.
         send_abort_ack m True Ok [])))))"

subsection \<open>Reports\<close>

definition transfer_status :: "TargetAgent \<Rightarrow> TransferRecord \<Rightarrow> TransferStatusRecord io" where
  "transfer_status r t w =
     (case fs_file_size (stagingPath r (xr_deployment t)) w of (onDisk, w') \<Rightarrow>
      let bytesReceived = min (xr_bytesReceived t) (case onDisk of None \<Rightarrow> 0 | Some n \<Rightarrow> n) in
      (\<lparr>transfer_deployment = xr_deployment t, transfer_stream = xr_stream t, transfer_key = xr_key t,
        transfer_generation = xr_generation t, transfer_digest = xr_digest t,
        transfer_bytesReceived = bytesReceived, transfer_totalBytes = xr_totalBytes t,
        transfer_verified = (xr_verified t \<and> bytesReceived = xr_totalBytes t),
        transfer_staged = xr_staged t\<rparr>, w'))"

fun transfer_statuses :: "TargetAgent \<Rightarrow> TransferRecord list \<Rightarrow> TransferStatusRecord list io" where
  "transfer_statuses r [] w = ([], w)"
| "transfer_statuses r (t # ts) w =
     (case transfer_status r t w of (x, w1) \<Rightarrow>
      case transfer_statuses r ts w1 of (xs, w2) \<Rightarrow> (x # xs, w2))"

definition report_finding :: "AppliedFinding \<Rightarrow> ReconcileFinding" where
  "report_finding f =
     \<lparr>finding_key = af_key f, finding_generation = af_generation f, finding_digest = af_digest f,
      finding_artifact = af_artifact f, finding_deployment = af_deployment f, finding_state = af_state f,
      finding_recordedAtMillis = af_recordedAtMillis f\<rparr>"

definition onReconcileRequest :: "bytes \<Rightarrow> unit act" where
  "onReconcileRequest payload =
     a_then (a_result (decodeReconcileRequest payload)) (\<lambda>m.
     a_get (\<lambda>r.
       let s = agent_state r;
           requested = min (unat (reconcileRequest_maxFindings m)) kMaxFindingsInReport;
           available = length (as_findings s)
       in
       a_then (a_io (transfer_statuses r (take kMaxTransfersInReport (map snd (as_transfers s))))) (\<lambda>ts.
       send_encoded ReconcileReport kFrameFlagResponse (encodeReconcileReport
         \<lparr>report_target = as_target s, report_targetClass = as_klass s, report_guarantee = as_guarantee s,
          report_term = as_term s, report_incarnation = as_incarnation s,
          report_committedGeneration = as_committedGeneration s,
          report_committedDigest = as_committedDigest s, report_committedArtifact = as_committedArtifact s,
          report_applyPrepared = as_applyPrepared s, report_preparedDeployment = as_preparedDeployment s,
          report_preparedGeneration = as_preparedGeneration s, report_preparedDigest = as_preparedDigest s,
          report_restartCount = as_restartCount s,
          report_applyRollbacks = ucast (min (as_applyRollbacks s) 0xFFFFFFFF),
          report_transfers = ts,
          report_findings = map report_finding (drop (available - min requested available) (as_findings s))\<rparr>))))"

definition send_retire_ack :: "RetireMessage \<Rightarrow> bool \<Rightarrow> unit act" where
  "send_retire_ack m retired =
     send_encoded RetireAck kFrameFlagResponse (encodeRetireAck
       \<lparr>retireAck_deployment = retire_deployment m, retireAck_retired = retired\<rparr>)"

definition onRetire :: "bytes \<Rightarrow> unit act" where
  "onRetire payload =
     a_then (a_result (decodeRetire payload)) (\<lambda>m.
     a_get (\<lambda>r.
       if committed_set r \<and> retire_generation m \<ge> as_committedGeneration (agent_state r)
       then send_retire_ack m False
       else a_then (destroyTransfer (retire_deployment m)) (\<lambda>_. send_retire_ack m True)))"

definition onPing :: "bytes \<Rightarrow> unit act" where
  "onPing payload =
     a_then (a_result (decodePing payload)) (\<lambda>m.
     send_encoded Pong kFrameFlagResponse (encodePong \<lparr>pong_nonce = ping_nonce m\<rparr>))"

subsection \<open>The session\<close>

text \<open>The value says whether the session goes on.\<close>

definition dispatch :: "Frame \<Rightarrow> bool act" where
  "dispatch f =
     (let payload = fr_payload f; go_on = (\<lambda>m. a_then m (\<lambda>_. a_return True)) in
      case fh_type (fr_header f) of
        Prepare \<Rightarrow> go_on (onPrepare payload)
      | Chunk \<Rightarrow> go_on (onChunk payload)
      | TransferComplete \<Rightarrow> go_on (onTransferComplete payload)
      | Stage \<Rightarrow> go_on (onStage payload)
      | ApplyPrepare \<Rightarrow> go_on (onApplyPrepare payload)
      | ApplyCommit \<Rightarrow> go_on (onApplyCommit payload)
      | ApplyAbort \<Rightarrow> go_on (onApplyAbort payload)
      | ReconcileRequest \<Rightarrow> go_on (onReconcileRequest payload)
      | FrameType.Retire \<Rightarrow> go_on (onRetire payload)
      | Ping \<Rightarrow> go_on (onPing payload)
      | Goodbye \<Rightarrow> a_then (a_result (decodeGoodbye payload)) (\<lambda>_. a_return False)
      | _ \<Rightarrow> a_fail UnexpectedMessage)"

definition refuse_session :: "ErrorCode \<Rightarrow> string \<Rightarrow> 'a act" where
  "refuse_session code detail =
     a_then (a_attempt (send_encoded AuthReject kFrameFlagResponse (encodeAuthReject
       \<lparr>authReject_code = code, authReject_detail = detail\<rparr>))) (\<lambda>_. a_fail code)"

text \<open>The checks on the hello, in the order of the code.\<close>

definition check_hello :: "HelloMessage \<Rightarrow> bytes \<Rightarrow> unit act" where
  "check_hello m payload =
     a_get (\<lambda>r.
       let s = agent_state r in
       if hello_minWireVersion m > kWireVersion \<or> hello_maxWireVersion m < kWireVersion
       then refuse_session UnsupportedVersion ''no mutually supported wire version''
       else if ao_authenticate (ta_options r) \<and> verifyAuthenticated payload (ao_key (ta_options r)) \<noteq> Inr ()
       then refuse_session Unauthenticated ''peer authentication tag did not verify''
       else if uint_isSet (as_lastControllerEpoch s) \<and> hello_epoch m < as_lastControllerEpoch s
       then refuse_session StaleEpoch
              (''controller authority epoch is older than the accepted one: ''
               @ to_string (unat (hello_epoch m)) @ '' < '' @ to_string (unat (as_lastControllerEpoch s)))
       else if uint_isSet (as_lastControllerEpoch s) \<and> hello_epoch m = as_lastControllerEpoch s
               \<and> OpaqueIdentity_isSet (as_lastControllerIncarnation s)
               \<and> hello_incarnation m \<noteq> as_lastControllerIncarnation s
       then refuse_session FencedIncarnation
              ''a different controller incarnation claims an already accepted epoch''
       else a_return ())"

definition adopt_authority :: "HelloMessage \<Rightarrow> unit act" where
  "adopt_authority m =
     a_then (commit_written AgentControllerFence
       [w_u64 (hello_epoch m), w_opaque128 (hello_incarnation m),
        w_string kMaxIdentifierLength (hello_nodeId m)]) (\<lambda>_.
     a_modify (\<lambda>r. r\<lparr>ta_session := (ta_session r)
       \<lparr>se_authorityEpoch := hello_epoch m, se_authorityIncarnation := hello_incarnation m,
        se_authorityNode := hello_nodeId m,
        se_peerMaxPayload := min (hello_maxPayloadBytes m) kAbsoluteMaxPayloadBytes\<rparr>\<rparr>))"

definition hello_ack :: "TargetAgent \<Rightarrow> SessionNonce \<Rightarrow> HelloAckMessage" where
  "hello_ack r nonce =
     (let s = agent_state r in
      \<lparr>helloAck_wireVersion = kWireVersion, helloAck_target = as_target s, helloAck_targetClass = as_klass s,
       helloAck_guarantee = as_guarantee s, helloAck_term = as_term s,
       helloAck_incarnation = as_incarnation s, helloAck_nonce = nonce,
       helloAck_maxPayloadBytes = kDefaultMaxPayloadBytes,
       helloAck_capabilities = capabilitiesFor (as_guarantee s),
       helloAck_committedGeneration = as_committedGeneration s,
       helloAck_committedDigest = as_committedDigest s,
       helloAck_committedArtifact = as_committedArtifact s, helloAck_restartCount = as_restartCount s,
       helloAck_authTag = replicate kAuthTagBytes 0\<rparr>)"

definition answer_hello :: "SessionNonce \<Rightarrow> bytes act" where
  "answer_hello nonce =
     a_get (\<lambda>r.
     a_then (a_encoded (encodeHelloAck (hello_ack r nonce))) (\<lambda>plain.
     a_then (if ao_authenticate (ta_options r)
             then a_result (sealAuthenticated plain (ao_key (ta_options r))) else a_return plain) (\<lambda>sealed.
     a_then (a_send HelloAck kFrameFlagResponse sealed) (\<lambda>_. a_return sealed))))"

definition with_tag :: "bytes \<Rightarrow> bytes \<Rightarrow> bytes" where
  "with_tag payload tag = take (length payload - kAuthTagBytes) payload @ tag"

definition check_confirm :: "bytes \<Rightarrow> HelloConfirmMessage \<Rightarrow> unit act" where
  "check_confirm sealed c =
     a_get (\<lambda>r.
       if ao_authenticate (ta_options r)
       then (if verifyAuthenticated (with_tag sealed (helloConfirm_authTag c)) (ao_key (ta_options r)) = Inr ()
             then a_return ()
             else refuse_session Unauthenticated ''controller failed to confirm the session transcript'')
       else if list_ex (\<lambda>b. b \<noteq> 0) (helloConfirm_authTag c)
       then refuse_session Unauthenticated ''authentication is disabled but the controller sent a tag''
       else a_return ())"

text \<open>The incoming half of the connection is passed along; \<open>nonce\<close> is the random session nonce.\<close>

definition handshake :: "SessionNonce \<Rightarrow> FrameInput \<Rightarrow> FrameInput act" where
  "handshake nonce input =
     (case FramedConnection_receive input of
        (Inl e, input1) \<Rightarrow> a_fail e
      | (Inr f, input1) \<Rightarrow>
          if fh_type (fr_header f) \<noteq> Hello then a_fail UnexpectedMessage
          else
            a_then (a_result (decodeHello (fr_payload f))) (\<lambda>m.
            a_then (check_hello m (fr_payload f)) (\<lambda>_.
            a_then (adopt_authority m) (\<lambda>_.
            a_then (answer_hello nonce) (\<lambda>sealed.
            case FramedConnection_receive input1 of
              (Inl e, input2) \<Rightarrow> a_fail e
            | (Inr g, input2) \<Rightarrow>
                if fh_type (fr_header g) \<noteq> HelloConfirm then a_fail UnexpectedMessage
                else
                  a_then (a_result (decodeHelloConfirm (fr_payload g))) (\<lambda>c.
                  a_then (check_confirm sealed c) (\<lambda>_.
                  a_return input2)))))))"

text \<open>
  The loop over received frames. Every received frame makes the remaining input smaller, so the loop
  ends whatever the peer sends.
\<close>

function serve_loop :: "FrameInput \<Rightarrow> unit act" where
  "serve_loop input r =
     (case FramedConnection_receive input of
        (Inl e, input') \<Rightarrow>
          (if e = PeerIdleTimeout \<or> e = ConnectionClosed then (Returned (), r) else (Failed e, r))
      | (Inr f, input') \<Rightarrow>
          (case dispatch f r of
             (Returned True, r') \<Rightarrow> serve_loop input' r'
           | (Returned False, r') \<Rightarrow> (Returned (), r')
           | (Failed e, r') \<Rightarrow> (Failed e, r')
           | (Exited c, r') \<Rightarrow> (Exited c, r')
           | (Stopped, r') \<Rightarrow> (Stopped, r')))"
  by pat_completeness auto

termination
  by (relation "measure (\<lambda>(input, r). input_size input)")
     (auto dest!: sym [of _ "FramedConnection_receive _"] receive_smaller)

declare serve_loop.simps [simp del]

definition serve :: "SessionNonce \<Rightarrow> FrameInput \<Rightarrow> unit act" where
  "serve nonce input =
     a_then (a_modify (\<lambda>r. r\<lparr>ta_session := emptySession\<rparr>)) (\<lambda>_.
     a_then (handshake nonce input) serve_loop)"

end
