(* ===== verification/AgentInvariants.thy ===== *)
theory AgentInvariants
  imports AgentSession
begin

text \<open>
  What the handlers of the agent do to its state. The locale \<open>state_preorder\<close> has the rules for the
  combinators that handlers are built from, for any reflexive and transitive relation on agent states.
  It is interpreted twice: for the changes that leave the fences of the agent alone (the committed
  generation and the accepted controller), and for the steps of \<open>fence_step\<close>, the abstract automaton
  that a session refines.
\<close>

subsection \<open>Rules for the combinators\<close>

named_theorems act_rules \<open>how operations of the agent change its state\<close>

locale state_preorder =
  fixes S :: "AgentState \<Rightarrow> AgentState \<Rightarrow> bool"
  assumes refl: "S s s"
    and trans: "S s t \<Longrightarrow> S t u \<Longrightarrow> S s u"
begin

definition at :: "TargetAgent \<Rightarrow> 'a act \<Rightarrow> bool" where
  "at r m \<longleftrightarrow> S (agent_state r) (agent_state (snd (m r)))"

lemma at_trivial [act_rules]:
  "at r (a_return x)" "at r (a_fail e)" "at r (a_exit c)" "at r a_now" "at r (a_faulty p c)"
  "at r (a_io io)" "at r (a_result res)" "at r (a_encoded enc)" "at r (a_written ws)"
  by (simp_all add: at_def refl a_return_def a_fail_def a_exit_def a_now_def a_faulty_def a_io_def
      a_result_def a_encoded_def a_written_def agent_state_def split: sum.splits option.splits prod.splits)

lemma at_get [act_rules]: "at r (f r) \<Longrightarrow> at r (a_get f)"
  by (simp add: at_def a_get_def)

lemma at_modify [act_rules]: "S (agent_state r) (agent_state (f r)) \<Longrightarrow> at r (a_modify f)"
  by (simp add: at_def a_modify_def)

lemma at_then [act_rules]:
  assumes "at r m" and "\<And>x r'. m r = (Returned x, r') \<Longrightarrow> at r' (k x)"
  shows "at r (a_then m k)"
  using assms trans by (auto simp: at_def a_then_def split: prod.splits outcome.splits)

lemma at_attempt [act_rules]: "at r m \<Longrightarrow> at r (a_attempt m)"
  by (auto simp: at_def a_attempt_def split: prod.splits outcome.splits)

lemma at_send [act_rules]: "at r (a_send t flags payload)"
  by (auto simp: at_def a_send_def a_result_def a_fail_def a_return_def agent_state_def refl
      split: prod.splits sum.splits)

lemma at_commit:
  "S (agent_state r) (fst (agent_apply (agent_state r) t payload)) \<Longrightarrow> at r (a_commit t payload)"
  by (auto simp: at_def a_commit_def DurableStore_commit_def AgentStateCodec_def a_result_def a_fail_def
      a_return_def agent_state_def refl split: prod.splits sum.splits if_splits)

lemma at_commit_written:
  assumes "\<And>bs. emit ws = Some bs \<Longrightarrow> S (agent_state r) (fst (agent_apply (agent_state r) t bs))"
  shows "at r (commit_written t ws)"
  unfolding commit_written_def
proof (rule at_then)
  fix bs r' assume "a_written ws r = (Returned bs, r')"
  then have "emit ws = Some bs" "r' = r" by (auto simp: a_written_def split: option.splits)
  then show "at r' (a_commit t bs)" using assms by (simp add: at_commit)
qed (rule at_trivial)

lemma at_send_encoded [act_rules]: "at r (send_encoded t flags x)"
  unfolding send_encoded_def by (intro act_rules)

end

subsection \<open>Quiet operations\<close>

text \<open>
  What fences the agent: the generation it has committed, with its digest, and the controller epoch it
  has accepted, with its incarnation.
\<close>

type_synonym fence = "Generation \<times> Digest \<times> Epoch \<times> IncarnationId"

definition fence_of :: "AgentState \<Rightarrow> fence" where
  "fence_of s = (as_committedGeneration s, as_committedDigest s, as_lastControllerEpoch s, as_lastControllerIncarnation s)"

text \<open>
  A transfer in the table is well formed; it is verified only when all its bytes have arrived, and
  staged only when it is verified.
\<close>

definition transfer_sound :: "TransferRecord \<Rightarrow> bool" where
  "transfer_sound t \<longleftrightarrow>
     xfer_ok t \<and> (xr_verified t \<longrightarrow> xr_bytesReceived t = xr_totalBytes t) \<and> (xr_staged t \<longrightarrow> xr_verified t)"

definition agent_sound :: "AgentState \<Rightarrow> bool" where
  "agent_sound s \<longleftrightarrow> agent_ok s \<and> list_all transfer_sound (om_values (as_transfers s))"

text \<open>
  No transfer becomes verified or staged: one that is verified afterwards was verified before with the
  same content, and staged before if it is staged.
\<close>

definition inherited :: "AgentState \<Rightarrow> DeploymentId \<Rightarrow> TransferRecord \<Rightarrow> bool" where
  "inherited s d t' \<longleftrightarrow>
     (\<exists>t. om_find (as_transfers s) d = Some t \<and> xr_verified t \<and> (xr_staged t' \<longrightarrow> xr_staged t)
        \<and> xr_generation t' = xr_generation t \<and> xr_digest t' = xr_digest t \<and> xr_totalBytes t' = xr_totalBytes t)"

definition keeps_transfers :: "AgentState \<Rightarrow> AgentState \<Rightarrow> bool" where
  "keeps_transfers s s' \<longleftrightarrow>
     (\<forall>d t'. om_find (as_transfers s') d = Some t' \<longrightarrow> xr_verified t' \<longrightarrow> inherited s d t')"

definition quiet_change :: "AgentState \<Rightarrow> AgentState \<Rightarrow> bool" where
  "quiet_change s s' \<longleftrightarrow>
     (agent_sound s \<longrightarrow> agent_sound s' \<and> fence_of s' = fence_of s \<and> keeps_transfers s s')"

lemma keeps_transfers_refl: "as_transfers s' = as_transfers s \<Longrightarrow> keeps_transfers s s'"
  by (auto simp: keeps_transfers_def inherited_def)

lemma keeps_transfers_trans: "keeps_transfers s t \<Longrightarrow> keeps_transfers t u \<Longrightarrow> keeps_transfers s u"
  unfolding keeps_transfers_def inherited_def by (smt (verit, ccfv_threshold))

interpretation quiet: state_preorder quiet_change
  by unfold_locales (auto simp: quiet_change_def keeps_transfers_refl intro: keeps_transfers_trans)

lemma agent_state_with_state [simp]: "agent_state (with_state f r) = f (agent_state r)"
  by (simp add: agent_state_def with_state_def)

lemma agent_sound_inv: "agent_sound s \<Longrightarrow> om_inv (as_transfers s) \<and> keyed xr_deployment (as_transfers s)"
  by (simp add: agent_sound_def agent_ok_def keyed_inv [of xr_deployment])

lemma agent_sound_mem:
  assumes "agent_sound s" and "(d, t) \<in> set (as_transfers s)"
  shows "transfer_sound t" "xr_deployment t = d"
proof -
  have "om_find (as_transfers s) d = Some t" using assms agent_sound_inv by (blast intro: om_find_mem)
  then show "xr_deployment t = d" using assms(1) agent_sound_inv by (blast intro: keyed_find)
  show "transfer_sound t"
    using assms by (force simp: agent_sound_def list_all_iff om_values_def)
qed

lemma agent_sound_find: "agent_sound s \<Longrightarrow> om_find (as_transfers s) d = Some t \<Longrightarrow> transfer_sound t"
  by (blast dest: om_find_Some_mem intro: agent_sound_mem)

lemma agent_sound_put:
  assumes "agent_sound s" and "transfer_sound t"
  shows "agent_sound (s\<lparr>as_transfers := om_put (xr_deployment t) t (as_transfers s)\<rparr>)"
proof -
  have ok: "agent_ok s" and "xfer_ok t" using assms by (simp_all add: agent_sound_def transfer_sound_def)
  moreover have "om_inv (as_transfers s)" using ok by (simp add: agent_ok_def keyed_inv [of xr_deployment])
  ultimately show ?thesis
    using assms agent_ok_updates(1) [OF ok] by (simp add: agent_sound_def om_all_put)
qed

text \<open>Records whose replay touches neither the fences nor the table of transfers.\<close>

definition quiet_records :: "JournalRecordType set" where
  "quiet_records = {Note, AgentRollbackNote, AgentApplyResolved, AgentApplyPrepared, AgentFindingUpsert}"

lemma quiet_apply_fields:
  assumes "t \<in> quiet_records"
  shows "fence_of (fst (agent_apply s t bs)) = fence_of s
    \<and> as_transfers (fst (agent_apply s t bs)) = as_transfers s"
  using assms
  by (auto simp: quiet_records_def agent_apply_def fence_of_def st_read_def st_end_def split: sum.splits)

lemma quiet_apply: "t \<in> quiet_records \<Longrightarrow> quiet_change s (fst (agent_apply s t bs))"
  using quiet_apply_fields [of t s bs] agent_apply_ok [of s t bs]
  by (simp add: quiet_change_def agent_sound_def keeps_transfers_refl)

lemma keeps_erase: "keeps_transfers s (s\<lparr>as_transfers := om_erase d (as_transfers s)\<rparr>)"
  by (auto simp: keeps_transfers_def inherited_def split: if_splits)

lemma keeps_put:
  "(xr_verified t \<Longrightarrow> inherited s d t) \<Longrightarrow> keeps_transfers s (s\<lparr>as_transfers := om_put d t (as_transfers s)\<rparr>)"
  by (auto simp: keeps_transfers_def inherited_def split: if_splits)

lemma quiet_remove: "quiet_change s (fst (agent_apply s AgentTransferRemove bs))"
proof -
  have "agent_sound s \<Longrightarrow> agent_sound (s\<lparr>as_transfers := om_erase d (as_transfers s)\<rparr>)" for d
    using agent_ok_updates(2) [of s d] agent_sound_inv [of s]
    by (simp add: agent_sound_def om_all_erase)
  then show ?thesis
    using keeps_erase
    by (auto simp: agent_apply_def quiet_change_def fence_of_def st_read_def st_end_def
        keeps_transfers_refl split: sum.splits)
qed

text \<open>The record of a sound transfer is replayed as that transfer.\<close>

lemma apply_upsert:
  assumes "transfer_sound t" and "writeTransferRecord t = Some bs"
  shows "fst (agent_apply s AgentTransferUpsert bs) =
    s\<lparr>as_transfers := om_put (xr_deployment t) t (as_transfers s)\<rparr>"
proof -
  have "readTransferRecord (bs @ []) = Inr (t, [])"
    using assms by (intro xferCodec.get_put) (simp_all add: transfer_sound_def)
  then show ?thesis by (simp add: agent_apply_def st_read_def st_end_def)
qed

lemma quiet_put:
  assumes "transfer_sound t" and "xr_deployment t = d" and "xr_verified t \<Longrightarrow> inherited s d t"
  shows "quiet_change s (s\<lparr>as_transfers := om_put d t (as_transfers s)\<rparr>)"
  using agent_sound_put [of s t] keeps_put [of t s d] assms by (auto simp: quiet_change_def fence_of_def)

lemma quiet_fields:
  "quiet_change s (s\<lparr>as_activations := n\<rparr>)" "quiet_change s (s\<lparr>as_staleOffersRefused := n\<rparr>)"
  "quiet_change s (s\<lparr>as_duplicatesSuppressed := n\<rparr>)" "quiet_change s (s\<lparr>as_digestRejections := n\<rparr>)"
  "quiet_change s (s\<lparr>as_applyRollbacks := n\<rparr>)"
  by (simp_all add: quiet_change_def fence_of_def agent_sound_def agent_ok_def keeps_transfers_refl)

text \<open>A value read from the state may be assumed to come from a sound one.\<close>

lemma quiet_get: "(agent_sound (agent_state r) \<Longrightarrow> quiet.at r (f r)) \<Longrightarrow> quiet.at r (a_get f)"
  by (cases "agent_sound (agent_state r)") (auto simp: quiet.at_def quiet_change_def a_get_def)

lemma quiet_written: "t \<in> quiet_records \<Longrightarrow> quiet.at r (commit_written t ws)"
  by (rule quiet.at_commit_written) (rule quiet_apply)

lemma quiet_commits [act_rules]:
  "quiet.at r commit_rollback_note" "quiet.at r (commit_resolved n)" "quiet.at r (commit_prepared t)"
  "quiet.at r (agent_note text)" "quiet.at r (commit_written AgentFindingUpsert ws)"
  "quiet.at r (commit_written AgentTransferRemove ws)"
  by (auto simp: commit_rollback_note_def commit_resolved_def commit_prepared_def agent_note_def Let_def
      quiet_records_def
      intro!: quiet.at_get quiet_written quiet.at_trivial quiet.at_commit_written [OF quiet_remove])

lemma quiet_modify [act_rules]:
  assumes "\<And>s. quiet_change s (f s)" shows "quiet.at r (a_modify (with_state f))"
  by (rule quiet.at_modify) (simp add: assms)

lemma quiet_checkpoint:
  assumes "transfer_sound t" and "xr_verified t \<Longrightarrow> inherited (agent_state r) (xr_deployment t) t"
  shows "quiet.at r (checkpointTransfer t)"
  unfolding checkpointTransfer_def
proof (rule quiet.at_commit_written, fold writeTransferRecord_def)
  fix bs assume "writeTransferRecord t = Some bs"
  then show "quiet_change (agent_state r) (fst (agent_apply (agent_state r) AgentTransferUpsert bs))"
    using assms quiet_put [OF assms(1) refl assms(2)] by (simp add: apply_upsert)
qed

lemma quiet_destroy [act_rules]: "quiet.at r (destroyTransfer d)"
  unfolding destroyTransfer_def
  by (intro act_rules) (simp split: if_split, intro conjI impI act_rules)

lemma quiet_counts [act_rules]:
  "quiet.at r count_stale" "quiet.at r count_duplicate"
  unfolding count_stale_def count_duplicate_def by (intro act_rules quiet_fields)+

lemma quiet_answers [act_rules]:
  "quiet.at r (sendNack d key g dig code detail)" "quiet.at r (sendAck d key g dig st n b)"
  "quiet.at r (refusePrepare m code detail observed)" "quiet.at r (send_chunk_ack c n code detail)"
  "quiet.at r (send_transfer_result tm v n code detail)" "quiet.at r (send_stage_ack sm b code detail)"
  "quiet.at r (send_prepare_window_ack pm b code detail)" "quiet.at r (send_abort_ack am b code detail)"
  "quiet.at r (send_commit_ack cm r0 b st code detail)" "quiet.at r (send_retire_ack rm b)"
  unfolding sendNack_def sendAck_def refusePrepare_def send_chunk_ack_def send_transfer_result_def
    send_stage_ack_def send_prepare_window_ack_def send_abort_ack_def send_commit_ack_def send_retire_ack_def
  by (auto intro!: act_rules)

lemma sint_i64: "i64_range (sint (w :: 64 word))"
  using sint_range_size [of w] by (simp add: i64_range_def word_size)

lemma a_now_Returned: "a_now r = (Returned now, r') \<Longrightarrow> i64_range now \<and> agent_state r' = agent_state r"
  by (auto simp: a_now_def sint_i64 agent_state_def)

lemma quiet_now:
  assumes "\<And>now r'. i64_range now \<Longrightarrow> agent_state r' = agent_state r \<Longrightarrow> quiet.at r' (k now)"
  shows "quiet.at r (a_then a_now k)"
  by (intro quiet.at_then quiet.at_trivial) (auto dest: a_now_Returned intro: assms)

lemma a_io_Returned: "a_io io r = (Returned x, r') \<Longrightarrow> agent_state r' = agent_state r \<and> (\<exists>w. io (ta_world r) = (x, w) \<and> r' = r\<lparr>ta_world := w\<rparr>)"
  by (auto simp: a_io_def agent_state_def split: prod.splits)

subsection \<open>The handlers\<close>

lemma quiet_resume_point [act_rules]: "quiet.at r (resume_point m)"
  unfolding resume_point_def
  by (rule quiet.at_get) (auto split: option.split intro!: act_rules)

lemma resume_point_bound:
  assumes "resume_point m r = (Returned n, r')" and "agent_sound (agent_state r)"
  shows "n \<le> prepare_sizeBytes m"
proof (cases "om_find (as_transfers (agent_state r)) (prepare_deployment m)")
  case None
  then show ?thesis using assms(1) by (simp add: resume_point_def a_get_def a_return_def)
next
  case (Some t)
  then have "xr_bytesReceived t \<le> xr_totalBytes t"
    using agent_sound_find [OF assms(2) Some] by (simp add: transfer_sound_def xfer_ok_def)
  then show ?thesis
    using assms(1) Some
    by (auto simp: resume_point_def a_get_def min_le_iff_disj a_return_def
        elim!: a_thenE split: if_splits option.splits)
qed

lemma quiet_beginTransfer:
  assumes "prepare_ok m" and "n \<le> prepare_sizeBytes m"
  shows "quiet.at r (beginTransfer m n)"
  unfolding beginTransfer_def using assms
  by (intro quiet_now quiet_checkpoint) (simp_all add: transfer_sound_def xfer_ok_def prepare_ok_def optionalIdentifierI)

lemma quiet_accept_offer:
  assumes "prepare_ok m" and "agent_sound (agent_state r)"
  shows "quiet.at r (accept_offer m ack)"
  unfolding accept_offer_def
  by (intro act_rules quiet_beginTransfer assms(1); erule resume_point_bound) (rule assms(2))

lemma a_result_Returned: "a_result x r = (Returned y, r') \<Longrightarrow> x = Inr y \<and> r' = r"
  by (auto simp: a_result_def a_fail_def a_return_def split: sum.splits)

lemma quiet_decoded:
  assumes "\<And>m. x = Inr m \<Longrightarrow> agent_sound (agent_state r) \<Longrightarrow> quiet.at r (f m r)"
  shows "quiet.at r (a_then (a_result x) (\<lambda>m. a_get (f m)))"
  by (intro quiet.at_then quiet.at_trivial quiet_get) (auto dest: a_result_Returned intro: assms)

lemma quiet_onPrepare [act_rules]: "quiet.at r (onPrepare payload)"
  unfolding onPrepare_def
proof (rule quiet_decoded, goal_cases)
  case (1 m)
  then have "prepare_ok m" by (simp add: decodePrepare_iff)
  with 1(2) have [act_rules]: "quiet.at r (accept_offer m ack)" for ack
    by (intro quiet_accept_offer)
  show ?case
    unfolding Let_def by (auto split: option.split intro!: act_rules \<open>\<And>ack. quiet.at r (accept_offer m ack)\<close>)
qed

lemma transfer_sound_progress:
  assumes "transfer_sound t" and "i64_range now" and "xr_bytesReceived t \<le> n" and "n \<le> xr_totalBytes t"
  shows "transfer_sound (t\<lparr>xr_bytesReceived := n, xr_updatedAtMillis := now\<rparr>)"
  using assms by (auto simp: transfer_sound_def xfer_ok_def)

lemma quiet_store_chunk:
  assumes "transfer_sound t" and "xr_deployment t = d" and "xr_bytesReceived t \<le> n" and "n \<le> xr_totalBytes t"
    and "om_find (as_transfers (agent_state r)) d = Some t"
  shows "quiet.at r (store_chunk c d t n)"
  unfolding store_chunk_def
proof (rule quiet_now, goal_cases)
  case (1 now r')
  let ?t = "t\<lparr>xr_bytesReceived := n, xr_updatedAtMillis := now\<rparr>"
  have upd: "transfer_sound ?t" using assms 1 by (intro transfer_sound_progress)
  have inh: "xr_verified t \<Longrightarrow> inherited (agent_state r) d ?t"
    using assms(5) by (simp add: inherited_def)
  have store: "quiet.at u (checkpointTransfer ?t)"
    "quiet.at u (a_modify (with_state (\<lambda>s. s\<lparr>as_transfers := om_put d ?t (as_transfers s)\<rparr>)))"
    if "agent_state u = agent_state r" for u
    using upd inh assms(2) that quiet_put [OF upd, of d "agent_state r"]
    by (intro quiet_checkpoint quiet.at_modify; simp)+
  have either: "quiet.at u (if p then checkpointTransfer ?t
      else a_modify (with_state (\<lambda>s. s\<lparr>as_transfers := om_put d ?t (as_transfers s)\<rparr>)))"
    if "agent_state u = agent_state r" for u p
    using store [OF that] by simp
  have counter: "quiet_change (agent_state u) (agent_state (u\<lparr>ta_chunkCounter := k\<rparr>))" for u k
    by (simp add: agent_state_def quiet.refl)
  show ?case
    unfolding Let_def using counter 1(2)
    by (intro quiet.at_then quiet.at_get either quiet.at_modify [where f = "\<lambda>r. r\<lparr>ta_chunkCounter := _ r\<rparr>"])
       (auto intro!: quiet_answers quiet.at_trivial simp: a_modify_def agent_state_def)
qed

lemma find_entry: "List.find P xs = Some e \<Longrightarrow> e \<in> set xs \<and> P e"
  by (auto simp: find_Some_iff)

lemma checkedAdd_ge: "checkedAdd a b = Some n \<Longrightarrow> a \<le> n"
  by (drule checkedAdd_Some) (simp add: word_le_nat_alt)

lemma quiet_onChunk [act_rules]: "quiet.at r (onChunk payload)"
  unfolding onChunk_def
proof (rule quiet_decoded, goal_cases)
  case (1 c)
  show ?case
  proof (cases "List.find (\<lambda>e. xr_stream (snd e) = chunk_stream c) (as_transfers (agent_state r))")
    case None
    then show ?thesis by (simp add: quiet_answers)
  next
    case (Some e)
    obtain d t where e: "e = (d, t)" by (cases e)
    then have "transfer_sound t" "xr_deployment t = d"
      using agent_sound_mem [OF 1(2), of d t] find_entry [OF Some] by simp_all
    moreover have "om_find (as_transfers (agent_state r)) d = Some t"
      using find_entry [OF Some] e agent_sound_inv [OF 1(2)] by (auto intro: om_find_mem)
    ultimately have "quiet.at r' (store_chunk c d t n)"
      if "checkedAdd (xr_bytesReceived t) k = Some n" "n \<le> xr_totalBytes t" "agent_state r' = agent_state r" for r' n k
      using that checkedAdd_ge by (intro quiet_store_chunk) simp_all
    then show ?thesis
      unfolding Some e Let_def
      by (auto split: option.split intro!: act_rules dest!: a_io_Returned)
  qed
qed

lemma quiet_reject_digest [act_rules]: "quiet.at r (reject_digest m t code)"
  unfolding reject_digest_def by (intro act_rules quiet_fields)

lemma quiet_windows [act_rules]:
  "quiet.at r count_rollback" "quiet.at r resolve_window" "quiet.at r (open_window m t)"
  unfolding count_rollback_def resolve_window_def open_window_def
  by (auto split: sum.split intro!: act_rules quiet_fields)

lemma quiet_onApplyPrepare [act_rules]: "quiet.at r (onApplyPrepare payload)"
  unfolding onApplyPrepare_def Let_def
  by (rule quiet_decoded) (auto split: option.split intro!: act_rules)

lemma quiet_onApplyAbort [act_rules]: "quiet.at r (onApplyAbort payload)"
  unfolding onApplyAbort_def Let_def
  by (rule quiet_decoded) (auto split: option.split intro!: act_rules)

lemma quiet_others [act_rules]:
  "quiet.at r (onReconcileRequest payload)" "quiet.at r (onRetire payload)" "quiet.at r (onPing payload)"
  unfolding onReconcileRequest_def onRetire_def onPing_def Let_def
  by (auto intro!: act_rules)

lemma quiet_handshake_parts [act_rules]:
  "quiet.at r (refuse_session code detail)" "quiet.at r (check_hello m payload)"
  "quiet.at r (answer_hello nonce)" "quiet.at r (check_confirm sealed c)"
  unfolding refuse_session_def check_hello_def answer_hello_def check_confirm_def Let_def
  by (auto intro!: act_rules)

lemma quiet_prunePayloads [act_rules]: "quiet.at r (prunePayloads key)"
  unfolding prunePayloads_def Let_def by (auto intro!: act_rules)

lemma quiet_commit_replies [act_rules]:
  "quiet.at r (refuse_commit m r0 key code detail nackDetail)" "quiet.at r (suppress_commit m r0 detail)"
  "quiet.at r (commit_unstaged m r0)"
  unfolding refuse_commit_def suppress_commit_def commit_unstaged_def by (auto intro!: act_rules)

subsection \<open>The fence automaton\<close>

text \<open>
  What a session may do to the fences: commit a generation above the committed one, or accept a
  controller that is not older than the accepted one. The sets bound the contents that may be committed
  and the controllers that may be accepted.
\<close>

inductive fence_step :: "(Generation \<times> Digest) set \<Rightarrow> (Epoch \<times> IncarnationId) set \<Rightarrow> fence \<Rightarrow> fence \<Rightarrow> bool"
  for A B where
  commit: "(g', d') \<in> A \<Longrightarrow> g = 0 \<or> g < g' \<Longrightarrow> fence_step A B (g, d, e, i) (g', d', e, i)"
| accept: "(e', i') \<in> B \<Longrightarrow> e = 0 \<or> e < e' \<or> e = e' \<and> (i = i' \<or> \<not> OpaqueIdentity_isSet i) \<Longrightarrow>
    fence_step A B (g, d, e, i) (g, d, e', i')"

inductive_simps fence_step_simps: "fence_step A B (g, d, e, i) (g', d', e', i')"

lemma fence_step_none: "fence_step {} {} f f' \<longleftrightarrow> False"
  by (auto elim: fence_step.cases)

lemma fence_steps_none: "(fence_step {} {})\<^sup>*\<^sup>* f f' \<longleftrightarrow> f' = f"
  by (auto simp: fence_step_none elim: rtranclp.cases)

lemma fence_steps_mono:
  assumes "(fence_step A B)\<^sup>*\<^sup>* f f'" and "A \<subseteq> A'" and "B \<subseteq> B'"
  shows "(fence_step A' B')\<^sup>*\<^sup>* f f'"
  using assms(1)
proof (rule rtranclp_mono [THEN predicate2D, rotated])
  show "fence_step A B \<le> fence_step A' B'" using assms(2,3) by (auto elim!: fence_step.cases intro: fence_step.intros)
qed

definition fenced_change ::
  "(Generation \<times> Digest) set \<Rightarrow> (Epoch \<times> IncarnationId) set \<Rightarrow> AgentState \<Rightarrow> AgentState \<Rightarrow> bool" where
  "fenced_change A B s s' \<longleftrightarrow>
     (agent_sound s \<longrightarrow> agent_sound s' \<and> (fence_step A B)\<^sup>*\<^sup>* (fence_of s) (fence_of s'))"

interpretation fenced: state_preorder "fenced_change A B" for A B
  by unfold_locales (auto simp: fenced_change_def)

text \<open>
  Where a verified transfer comes from, for changes that may verify contents in \<open>W\<close> and stage the
  deployments in \<open>Z\<close>.
\<close>

definition traced :: "(DeploymentId \<times> Digest \<times> u64) set \<Rightarrow> DeploymentId set \<Rightarrow> AgentState \<Rightarrow> DeploymentId \<Rightarrow> TransferRecord \<Rightarrow> bool" where
  "traced W Z s d t' \<longleftrightarrow>
     (\<exists>t. om_find (as_transfers s) d = Some t \<and> xr_verified t \<and> (xr_staged t' \<longrightarrow> xr_staged t \<or> d \<in> Z)
        \<and> xr_generation t' = xr_generation t \<and> xr_digest t' = xr_digest t \<and> xr_totalBytes t' = xr_totalBytes t)
     \<or> (d, xr_digest t', xr_totalBytes t') \<in> W \<and> (xr_staged t' \<longrightarrow> d \<in> Z)"

definition tracked_change ::
  "(DeploymentId \<times> Digest \<times> u64) set \<Rightarrow> DeploymentId set \<Rightarrow> AgentState \<Rightarrow> AgentState \<Rightarrow> bool" where
  "tracked_change W Z s s' \<longleftrightarrow>
     (agent_sound s \<longrightarrow> agent_sound s' \<and>
        (\<forall>d t'. om_find (as_transfers s') d = Some t' \<longrightarrow> xr_verified t' \<longrightarrow> traced W Z s d t'))"

lemma traced_refl: "om_find (as_transfers s) d = Some t \<Longrightarrow> xr_verified t \<Longrightarrow> traced W Z s d t"
  by (auto simp: traced_def)

lemma traced_trans:
  assumes "traced W Z t d x" and "\<And>y. om_find (as_transfers t) d = Some y \<Longrightarrow> xr_verified y \<Longrightarrow> traced W Z s d y"
  shows "traced W Z s d x"
  using assms(1) unfolding traced_def
proof (elim disjE exE conjE)
  fix y
  assume "om_find (as_transfers t) d = Some y" and v: "xr_verified y"
    and eqs: "xr_staged x \<longrightarrow> xr_staged y \<or> d \<in> Z" "xr_generation x = xr_generation y"
      "xr_digest x = xr_digest y" "xr_totalBytes x = xr_totalBytes y"
  from assms(2) [OF this(1) v] eqs
  show "(\<exists>t. om_find (as_transfers s) d = Some t \<and> xr_verified t \<and> (xr_staged x \<longrightarrow> xr_staged t \<or> d \<in> Z)
        \<and> xr_generation x = xr_generation t \<and> xr_digest x = xr_digest t \<and> xr_totalBytes x = xr_totalBytes t)
     \<or> (d, xr_digest x, xr_totalBytes x) \<in> W \<and> (xr_staged x \<longrightarrow> d \<in> Z)"
    by (auto simp: traced_def)
qed blast

interpretation tracked: state_preorder "tracked_change W Z" for W Z
proof
  show "tracked_change W Z s s" for s by (simp add: tracked_change_def traced_refl)
  show "tracked_change W Z s t \<Longrightarrow> tracked_change W Z t u \<Longrightarrow> tracked_change W Z s u" for s t u
    unfolding tracked_change_def using traced_trans [of W Z t _ _ s] by blast
qed

lemma quiet_fenced: "quiet.at r m \<Longrightarrow> fenced.at A B r m"
  by (auto simp: quiet.at_def fenced.at_def quiet_change_def fenced_change_def)

lemma quiet_tracked: "quiet.at r m \<Longrightarrow> tracked.at W Z r m"
  by (auto simp: quiet.at_def tracked.at_def quiet_change_def tracked_change_def keeps_transfers_def
      inherited_def traced_def)

lemma fenced_mono: "fenced.at A B r m \<Longrightarrow> A \<subseteq> A' \<Longrightarrow> B \<subseteq> B' \<Longrightarrow> fenced.at A' B' r m"
  by (auto simp: fenced.at_def fenced_change_def intro: fence_steps_mono)

lemma fenced_get: "(agent_sound (agent_state r) \<Longrightarrow> fenced.at A B r (f r)) \<Longrightarrow> fenced.at A B r (a_get f)"
  by (cases "agent_sound (agent_state r)") (auto simp: fenced.at_def fenced_change_def a_get_def)

lemma fenced_checkpoint:
  assumes "transfer_sound t" shows "fenced.at A B r (checkpointTransfer t)"
  unfolding checkpointTransfer_def
proof (rule fenced.at_commit_written, fold writeTransferRecord_def)
  fix bs assume "writeTransferRecord t = Some bs"
  then show "fenced_change A B (agent_state r) (fst (agent_apply (agent_state r) AgentTransferUpsert bs))"
    using assms agent_sound_put [of "agent_state r" t] by (simp add: apply_upsert fenced_change_def fence_of_def)
qed

lemma fenced_now:
  assumes "\<And>now r'. i64_range now \<Longrightarrow> agent_state r' = agent_state r \<Longrightarrow> fenced.at A B r' (k now)"
  shows "fenced.at A B r (a_then a_now k)"
  by (intro fenced.at_then fenced.at_trivial) (auto dest: a_now_Returned intro: assms)

lemma fenced_found:
  assumes "\<And>m t. x = Inr m \<Longrightarrow> om_find (as_transfers (agent_state r)) (dep m) = Some t \<Longrightarrow> transfer_sound t
      \<Longrightarrow> fenced.at A B r (f m r t)"
    and "\<And>m. fenced.at A B r (g m)"
  shows "fenced.at A B r (a_then (a_result x) (\<lambda>m. a_get (\<lambda>r.
     case om_find (as_transfers (agent_state r)) (dep m) of None \<Rightarrow> g m | Some t \<Rightarrow> f m r t)))"
  using assms
  by (intro fenced.at_then fenced.at_trivial fenced_get)
     (auto dest!: a_result_Returned split: option.split intro: agent_sound_find)

lemmas fenced_replies = quiet_answers [THEN quiet_fenced] quiet_reject_digest [THEN quiet_fenced]

lemma fenced_onTransferComplete: "fenced.at {} {} r (onTransferComplete payload)"
  unfolding onTransferComplete_def
  by (rule fenced_found)
     (auto split: sum.split intro!: fenced_now fenced_checkpoint fenced_replies fenced.at_then fenced.at_trivial
       simp: transfer_sound_def xfer_ok_def)

lemma fenced_onStage: "fenced.at {} {} r (onStage payload)"
  unfolding onStage_def
  by (rule fenced_found)
     (auto split: sum.split intro!: fenced_now fenced_checkpoint fenced_replies fenced.at_then fenced.at_trivial
       simp: transfer_sound_def xfer_ok_def)

text \<open>An agent that may still commit the generation \<open>g\<close>.\<close>

definition behind :: "Generation \<Rightarrow> TargetAgent \<Rightarrow> bool" where
  "behind g r \<longleftrightarrow> agent_sound (agent_state r)
     \<and> (as_committedGeneration (agent_state r) = 0 \<or> as_committedGeneration (agent_state r) < g)"

lemma fenced_after_quiet:
  assumes "behind g r" and "quiet.at r m" and "\<And>x r'. behind g r' \<Longrightarrow> fenced.at A B r' (k x)"
  shows "fenced.at A B r (a_then m k)"
proof (rule fenced.at_then)
  show "fenced.at A B r m" using assms(2) by (rule quiet_fenced)
  fix x r' assume "m r = (Returned x, r')"
  then have "behind g r'"
    using assms(1,2) by (auto simp: quiet.at_def quiet_change_def behind_def fence_of_def)
  then show "fenced.at A B r' (k x)" by (rule assms(3))
qed

lemma fence_of_commit:
  assumes "emit [w_u64 g, w_digest d, w_string kMaxIdentifierLength a] = Some bs" and "length d = 32"
  shows "fence_of (fst (agent_apply s AgentTargetCommit bs)) =
     (g, d, as_lastControllerEpoch s, as_lastControllerIncarnation s)
    \<and> as_transfers (fst (agent_apply s AgentTargetCommit bs)) = as_transfers s"
proof -
  obtain x y z where "w_u64 g = Some x" "w_digest d = Some y" "bs = x @ y @ z"
    using assms(1) by (auto simp: codec_dests)
  then have "r_u64 bs = Inr (g, y @ z)" "readDigestField (y @ z) = Inr (d, z)"
    using u64.get_put [of g x "y @ z"] digest.get_put [of d y z] assms(2)
    by (simp_all add: readDigestField_def)
  then show ?thesis
    by (auto simp: agent_apply_def st_read_def st_end_def fence_of_def split: sum.splits)
qed

lemma fenced_commit_target:
  assumes "behind g r" and "length d = 32" and "(g, d) \<in> A"
  shows "fenced.at A B r (commit_target g d a)"
  unfolding commit_target_def
proof (rule fenced.at_commit_written)
  fix bs assume "emit [w_u64 g, w_digest d, w_string kMaxIdentifierLength a] = Some bs"
  note c = fence_of_commit [OF this assms(2), of "agent_state r"]
  show "fenced_change A B (agent_state r) (fst (agent_apply (agent_state r) AgentTargetCommit bs))"
    using assms(1,3) c agent_apply_ok [of "agent_state r" AgentTargetCommit bs]
    by (auto simp: fenced_change_def agent_sound_def behind_def fence_of_def intro!: r_into_rtranclp fence_step.commit)
qed

lemma fenced_commitGeneration:
  assumes "behind g r" and "length d = 32" and "(g, d) \<in> A"
  shows "fenced.at A B r (commitGeneration deployment key g d artifact)"
  unfolding commitGeneration_def
proof (rule fenced_after_quiet [OF assms(1)], goal_cases)
  case 1
  show ?case by (auto intro!: act_rules)
next
  case (2 x r')
  show ?case
  proof (rule fenced.at_then)
    show "fenced.at A B r' (commit_target g d artifact)" using 2 assms(2,3) by (rule fenced_commit_target)
  qed (rule quiet_fenced, auto intro!: quiet_now act_rules quiet_fields simp: quiet.refl)
qed

lemma fenced_activate:
  assumes "behind (xr_generation t) r" and "transfer_sound t" and "(xr_generation t, xr_digest t) \<in> A"
  shows "fenced.at A B r (activate t explicit)"
proof -
  have len: "length (xr_digest t) = 32" using assms(2) by (simp add: transfer_sound_def xfer_ok_def)
  show ?thesis
    unfolding activate_def Let_def
  proof (rule fenced.at_get, rule fenced_after_quiet [OF assms(1)], goal_cases)
    case 1
    show ?case by (auto intro!: act_rules)
  next
    case (2 x r1)
    show ?case
    proof (rule fenced_after_quiet [OF 2 quiet.at_trivial(5)], rule fenced_after_quiet, assumption, goal_cases)
      case (1 y r2)
      show ?case by (intro act_rules)
    next
      case (2 y r2 z r3)
      show ?case
      proof (rule fenced_after_quiet [OF 2(2)], goal_cases)
        case 1
        show ?case by (auto intro!: act_rules)
      next
        case (2 u r4)
        show ?case
          by (rule fenced_after_quiet [OF 2 quiet.at_trivial(5)], rule fenced.at_then)
             (auto intro: fenced_commitGeneration len assms(3) quiet_fenced quiet_prunePayloads)
      qed
    qed
  qed
qed

text \<open>The contents of the staged transfers, the only ones a commit can choose from.\<close>

definition staged_contents :: "AgentState \<Rightarrow> (Generation \<times> Digest) set" where
  "staged_contents s =
     {(xr_generation t, xr_digest t) |t d. om_find (as_transfers s) d = Some t \<and> xr_staged t \<and> xr_verified t}"

lemma fenced_commit_staged:
  assumes "behind (applyCommit_generation m) r" and "om_find (as_transfers (agent_state r)) d = Some t"
    and "xr_staged t"
  shows "fenced.at (staged_contents (agent_state r)) B r (commit_staged m r t)"
proof -
  have t: "transfer_sound t" using assms(1,2) by (auto simp: behind_def intro: agent_sound_find)
  then have "(xr_generation t, xr_digest t) \<in> staged_contents (agent_state r)"
    using assms(2,3) by (auto simp: staged_contents_def transfer_sound_def)
  then have "fenced.at (staged_contents (agent_state r)) B r (a_attempt (activate t e))"
    if "applyCommit_generation m = xr_generation t" for e
    using assms(1) t that by (intro fenced.at_attempt fenced_activate) simp_all
  then show ?thesis
    unfolding commit_staged_def Let_def
    by (auto intro!: fenced.at_then intro: quiet_fenced quiet_commit_replies split: sum.split)
       (auto intro!: quiet_fenced act_rules)
qed

lemma fenced_onApplyCommit: "fenced.at (staged_contents (agent_state r)) B r (onApplyCommit payload)"
  unfolding onApplyCommit_def Let_def
proof (intro fenced.at_then fenced.at_trivial fenced_get, goal_cases)
  case (1 m r')
  note s = 1(2)
  have r': "r' = r" using 1(1) by (auto dest: a_result_Returned)
  have q: "quiet.at r' (commit_unstaged m r')"
    "quiet.at r' (a_then count_stale (\<lambda>_. refuse_commit m r' key code detail nackDetail))"
    "quiet.at r' (a_then count_duplicate (\<lambda>_. suppress_commit m r' detail))"
    "quiet.at r' (refuse_commit m r' key code detail nackDetail)" for key code detail nackDetail
    by (auto intro!: act_rules)
  show ?case
    using s
    by (auto intro!: q [THEN quiet_fenced] fenced_commit_staged split: option.split
        simp: behind_def committed_set_def uint_isSet_def r' [symmetric])
qed

lemma tracked_commit_target: "tracked.at W Z r (commit_target g d a)"
  unfolding commit_target_def
  using agent_apply_ok [of "agent_state r" AgentTargetCommit]
  by (intro tracked.at_commit_written)
     (auto simp: tracked_change_def agent_sound_def agent_apply_def st_read_def st_end_def
       intro: traced_refl split: sum.splits)

lemma tracked_activate: "tracked.at W Z r (activate t explicit)"
proof -
  have "tracked.at W Z r' (commitGeneration d key g dig a)" for r' d key g dig a
    unfolding commitGeneration_def
  proof (rule tracked.at_then, goal_cases)
    case 1
    show ?case by (rule quiet_tracked) (auto intro!: act_rules)
  next
    case (2 x r'')
    show ?case
      by (rule tracked.at_then [OF tracked_commit_target], rule quiet_tracked)
         (auto intro!: quiet_now act_rules quiet_fields simp: quiet.refl)
  qed
  then show ?thesis
    unfolding activate_def Let_def
    by (auto intro!: tracked.at_then tracked.at_get tracked.at_trivial quiet_commits [THEN quiet_tracked]
        quiet_prunePayloads [THEN quiet_tracked])
qed

lemma tracked_onApplyCommit: "tracked.at W Z r (onApplyCommit payload)"
  unfolding onApplyCommit_def commit_staged_def Let_def
  by (auto intro!: tracked.at_then tracked.at_get tracked.at_trivial tracked.at_attempt tracked_activate
      quiet_commit_replies [THEN quiet_tracked] quiet_counts [THEN quiet_tracked]
      quiet_answers [THEN quiet_tracked] split: option.split sum.split)

end
