(* ===== verification/AgentRecovery.thy ===== *)
theory AgentRecovery
  imports AgentSession
begin

text \<open>
  The target agent, third part: opening it on its durable store and bringing the live area back into
  agreement with the durable state (\<^verbatim>\<open>TargetAgent::open\<close> and \<^verbatim>\<open>TargetAgent::recoverLiveArea\<close> of
  \<^verbatim>\<open>src/agent.cpp\<close>). The listings of the staging area and of the live tree are answers of the operating
  system, like the outcome of every probe.
\<close>

subsection \<open>The staging area\<close>

record LiveRecovery =
  lr_rolledBackUnresolvedPrepare :: bool
  lr_adoptedCompletedSwitch :: bool
  lr_clearedUnverifiableCommit :: bool
  lr_removedStagingFiles :: nat
  lr_verifiedPayloads :: nat
  lr_detail :: string

definition emptyLiveRecovery :: LiveRecovery where
  "emptyLiveRecovery =
     \<lparr>lr_rolledBackUnresolvedPrepare = False, lr_adoptedCompletedSwitch = False,
      lr_clearedUnverifiableCommit = False, lr_removedStagingFiles = 0, lr_verifiedPayloads = 0,
      lr_detail = []\<rparr>"

definition lr_append :: "string \<Rightarrow> LiveRecovery \<Rightarrow> LiveRecovery" where
  "lr_append t v = v\<lparr>lr_detail := lr_detail v @ t\<rparr>"

text \<open>The part of a name before the first occurrence of a suffix.\<close>

fun stem_before :: "string \<Rightarrow> string \<Rightarrow> string" where
  "stem_before p [] = []"
| "stem_before p (c # cs) = (if take (length p) (c # cs) = p then [] else c # stem_before p cs)"

fun remove_strays :: "string list \<Rightarrow> string list \<Rightarrow> nat \<Rightarrow> nat io" where
  "remove_strays known [] n w = (n, w)"
| "remove_strays known (p # ps) n w =
     (if stem_before ''.part'' (path_filename p) \<in> set known then remove_strays known ps n w
      else (case fs_remove p w of (removed, w') \<Rightarrow>
              remove_strays known ps (if removed then n + 1 else n) w'))"

datatype transfer_check = KeepTransfer | DiscardTransfer | ResizedTransfer

definition check_transfer :: "TargetAgent \<Rightarrow> TransferRecord \<Rightarrow> transfer_check io" where
  "check_transfer r t w =
     (let path = stagingPath r (xr_deployment t) in
      case fs_file_size path w of
        (None, w1) \<Rightarrow> (DiscardTransfer, w1)
      | (Some onDisk, w1) \<Rightarrow>
          if onDisk < xr_bytesReceived t then (DiscardTransfer, w1)
          else if onDisk > xr_bytesReceived t
          then (case os_change (TruncateTo path (unat (xr_bytesReceived t))) w1 of
                  (resized, w2) \<Rightarrow> (if resized then ResizedTransfer else DiscardTransfer, w2))
          else (KeepTransfer, w1))"

fun check_transfers ::
  "TargetAgent \<Rightarrow> TransferRecord list \<Rightarrow> DeploymentId list \<Rightarrow> TransferRecord list
     \<Rightarrow> (DeploymentId list \<times> TransferRecord list) io" where
  "check_transfers r [] discard resized w = ((discard, resized), w)"
| "check_transfers r (t # ts) discard resized w =
     (case check_transfer r t w of
        (DiscardTransfer, w') \<Rightarrow> check_transfers r ts (discard @ [xr_deployment t]) resized w'
      | (ResizedTransfer, w') \<Rightarrow> check_transfers r ts discard (resized @ [t]) w'
      | (KeepTransfer, w') \<Rightarrow> check_transfers r ts discard resized w')"

definition recover_staging :: "LiveRecovery \<Rightarrow> LiveRecovery act" where
  "recover_staging v =
     a_get (\<lambda>r.
       let transfers = as_transfers (agent_state r) in
       a_then (a_io (remove_strays (map fst transfers)
                       (ta_list r (w_disk (ta_world r)) (ta_stagingRoot r)) 0)) (\<lambda>removed.
       a_then (a_io (check_transfers r (map snd transfers) [] [])) (\<lambda>(discard, resized).
       a_then (a_each destroyTransfer discard) (\<lambda>_.
       a_then (a_each checkpointTransfer resized) (\<lambda>_.
       a_return (lr_append (concat (map (\<lambda>d. ''discarded-transfer='' @ d @ '' '') discard))
                   (v\<lparr>lr_removedStagingFiles := lr_removedStagingFiles v + removed\<rparr>)))))))"

subsection \<open>The live tree\<close>

definition clear_commit :: "unit act" where
  "clear_commit = commit_target 0 unset_digest []"

text \<open>The pointer of a key directory; one that does not parse is removed.\<close>

definition recover_pointer :: "string \<Rightarrow> LiveRecovery \<Rightarrow> (PointerValue option \<times> LiveRecovery) act" where
  "recover_pointer directory v =
     a_then (a_io (readLiveValue (directory @ ''/current''))) (\<lambda>pointer.
     case pointer of
       Inl _ \<Rightarrow> a_return (None, v)
     | Inr text \<Rightarrow>
         (case parsePointer text of
            Inr p \<Rightarrow> a_return (Some p, v)
          | Inl _ \<Rightarrow>
              a_then (a_io (fs_remove (directory @ ''/current''))) (\<lambda>_.
              a_return (None, lr_append (''unreadable-live-pointer='' @ directory @ '' '')
                                (v\<lparr>lr_clearedUnverifiableCommit := True\<rparr>)))))"

definition recover_pending :: "string \<Rightarrow> PointerValue option \<Rightarrow> LiveRecovery \<Rightarrow> LiveRecovery act" where
  "recover_pending directory pointer v =
     a_get (\<lambda>r.
       let s = agent_state r;
           switched = (case pointer of None \<Rightarrow> False
                       | Some p \<Rightarrow> pv_generation p = as_preparedGeneration s \<and> pv_digest p = as_preparedDigest s)
       in
       a_then (if switched
               then a_return (lr_append ''adopted-completed-switch='' (v\<lparr>lr_adoptedCompletedSwitch := True\<rparr>))
               else a_then count_rollback (\<lambda>_.
                    a_return (lr_append ''aborted-unresolved-prepare='' (v\<lparr>lr_rolledBackUnresolvedPrepare := True\<rparr>))))
         (\<lambda>v1.
       a_then (a_io (fs_remove (directory @ ''/pending''))) (\<lambda>_.
       a_then (a_get (\<lambda>r'. if as_applyPrepared (agent_state r') then resolve_window else a_return ())) (\<lambda>_.
       a_return (lr_append (directory @ '' '') v1)))))"

definition recover_commit :: "string \<Rightarrow> PointerValue option \<Rightarrow> LiveRecovery \<Rightarrow> LiveRecovery act" where
  "recover_commit directory pointer v =
     a_get (\<lambda>r.
       let s = agent_state r in
       case pointer of
         None \<Rightarrow>
           if committed_set r
           then a_then clear_commit (\<lambda>_.
                a_return (lr_append (''missing-live-pointer='' @ directory @ '' '')
                            (v\<lparr>lr_clearedUnverifiableCommit := True\<rparr>)))
           else a_return v
       | Some p \<Rightarrow>
           (let path = payloadPath directory (pv_generation p) (pv_digest p) in
            a_then (if ao_verifyCommittedPayloadOnStart (ta_options r)
                    then a_then (a_io (hashStagingFile path 0)) (\<lambda>actual.
                         a_return (actual = Inr (pv_digest p),
                                   v\<lparr>lr_verifiedPayloads := lr_verifiedPayloads v + 1\<rparr>))
                    else a_return (True, v)) (\<lambda>(verified, v1).
            if \<not> verified
            then a_then clear_commit (\<lambda>_.
                 a_return (lr_append (''unverifiable-payload='' @ path @ '' '')
                             (v1\<lparr>lr_clearedUnverifiableCommit := True\<rparr>)))
            else if \<not> (pv_generation p = as_committedGeneration s \<and> pv_digest p = as_committedDigest s
                       \<and> committed_set r)
            then a_then (commit_target (pv_generation p) (pv_digest p) (pv_artifact p)) (\<lambda>_.
                 a_return (lr_append (''adopted-live-pointer='' @ directory @ '' '')
                             (v1\<lparr>lr_adoptedCompletedSwitch := True\<rparr>)))
            else a_return v1)))"

text \<open>One directory of the walk; the value says whether a probe failed, which ends the walk.\<close>

definition recover_directory :: "string \<Rightarrow> LiveRecovery \<Rightarrow> (bool \<times> LiveRecovery) act" where
  "recover_directory directory v =
     a_then (a_io (fs_probe (directory @ ''/current''))) (\<lambda>(_, current).
     a_then (if current then a_return True
             else a_then (a_io (fs_probe (directory @ ''/pending''))) (\<lambda>(_, pending). a_return pending)) (\<lambda>marked.
     if \<not> marked \<or> path_filename directory = ''payload'' then a_return (False, v)
     else
       a_then (a_io (fs_probe (directory @ ''/pending''))) (\<lambda>(ec, pendingPresent).
       a_then (recover_pointer directory v) (\<lambda>(pointer, v1).
       a_then (if pendingPresent then recover_pending directory pointer v1 else a_return v1) (\<lambda>v2.
       a_then (recover_commit directory pointer v2) (\<lambda>v3.
       a_return (ec, v3)))))))"

fun recover_tree :: "string list \<Rightarrow> LiveRecovery \<Rightarrow> LiveRecovery act" where
  "recover_tree [] v = a_return v"
| "recover_tree (d # ds) v =
     a_then (recover_directory d v) (\<lambda>(ec, v'). if ec then a_return v' else recover_tree ds v')"

text \<open>A durable prepare marker with no live area behind it is resolved as an abort.\<close>

definition recover_window :: "LiveRecovery \<Rightarrow> LiveRecovery act" where
  "recover_window v =
     a_get (\<lambda>r.
       if as_applyPrepared (agent_state r)
       then a_then count_rollback (\<lambda>_. a_then resolve_window (\<lambda>_.
            a_return (v\<lparr>lr_rolledBackUnresolvedPrepare := True\<rparr>)))
       else a_return v)"

definition recoverLiveArea :: "LiveRecovery \<Rightarrow> LiveRecovery act" where
  "recoverLiveArea v =
     a_then (recover_staging v) (\<lambda>v1.
     a_then (a_get (\<lambda>r. recover_tree (ta_tree r (w_disk (ta_world r)) (ta_liveRoot r)) v1)) (\<lambda>v2.
     recover_window v2))"

subsection \<open>Opening an agent\<close>

definition agent_store_options :: "AgentOptions \<Rightarrow> StoreOptions" where
  "agent_store_options options =
     \<lparr>so_directory = ao_stateDirectory options, so_name = ''agent'',
      so_compactAfterBytes = 4 * 1024 * 1024, so_durable = True\<rparr>"

definition open_store :: "AgentOptions \<Rightarrow> StoreRecovery \<Rightarrow> StoreRecovery act" where
  "open_store options recovery r =
     (case DurableStore_open AgentStateCodec (agent_store_options options) recovery (ta_world r) of
        (None, w) \<Rightarrow> (Stopped, r\<lparr>ta_world := w\<rparr>)
      | (Some (Inl e, _), w) \<Rightarrow> (Failed e, r\<lparr>ta_world := w\<rparr>)
      | (Some (Inr store, recovery'), w) \<Rightarrow> (Returned recovery', r\<lparr>ta_world := w, ta_store := store\<rparr>))"

definition a_compactIfNeeded :: "unit act" where
  "a_compactIfNeeded r =
     (case DurableStore_compactIfNeeded AgentStateCodec (ta_store r) (ta_world r) of
        (None, w) \<Rightarrow> (Stopped, r\<lparr>ta_world := w\<rparr>)
      | (Some (st, store), w) \<Rightarrow> a_result st (r\<lparr>ta_world := w, ta_store := store\<rparr>))"

text \<open>The durable state must belong to this target, with the class and the guarantee it was created with.\<close>

definition check_identity :: "AgentOptions \<Rightarrow> AgentState \<Rightarrow> status" where
  "check_identity options s =
     fail_if (as_target s \<noteq> [] \<and> as_target s \<noteq> ao_target options) Conflict
     (fail_if (uint_isSet (as_term s) \<and> as_klass s \<noteq> ao_klass options) Conflict
     (fail_if (uint_isSet (as_term s) \<and> as_guarantee s \<noteq> ao_guarantee options) GuaranteeUnsupported
     (Inr ())))"

definition commit_identity :: "AgentOptions \<Rightarrow> bytes \<Rightarrow> unit act" where
  "commit_identity options incarnation =
     a_get (\<lambda>r. let s = agent_state r in
       case checkedAdd (as_term s) 1 of
         None \<Rightarrow> a_fail ArithmeticOverflow
       | Some nextTerm \<Rightarrow>
           (case checkedAdd (as_restartCount s) 1 of
              None \<Rightarrow> a_fail ArithmeticOverflow
            | Some nextRestarts \<Rightarrow>
                commit_written AgentIdentity
                  [w_string kMaxIdentifierLength (ao_target options), w_u8 (targetClassValue (ao_klass options)),
                   w_u8 (applyGuaranteeValue (ao_guarantee options)), w_u64 nextTerm,
                   w_opaque128 incarnation, w_u32 nextRestarts]))"

text \<open>
  The record it runs on carries the files and the answers of the operating system; every other field
  is set here. \<open>incarnation\<close> is the random identity of the new process.
\<close>

definition TargetAgent_open ::
  "AgentOptions \<Rightarrow> bytes \<Rightarrow> StoreRecovery \<Rightarrow> LiveRecovery \<Rightarrow> (StoreRecovery \<times> LiveRecovery) act" where
  "TargetAgent_open options incarnation recovery live =
     (if ao_stateDirectory options = [] \<or> ao_target options = []
         \<or> ao_maxArtifactBytes options = 0 \<or> ao_retainedPayloadsPerKey options = 0
      then a_fail InvalidArgument
      else
        a_then (a_modify (\<lambda>r. r\<lparr>ta_options := options,
          ta_liveRoot := (if ao_liveDirectory options = [] then ao_stateDirectory options @ ''/live''
                          else ao_liveDirectory options),
          ta_stagingRoot := ao_stateDirectory options @ ''/staging'', ta_chunkCounter := 0,
          ta_session := emptySession\<rparr>)) (\<lambda>_.
        a_then (a_io os_call) (\<lambda>liveCreated.
        if \<not> liveCreated then a_fail OpenFailed
        else
          a_then (a_io os_call) (\<lambda>stagingCreated.
          if \<not> stagingCreated then a_fail OpenFailed
          else
            a_then (open_store options recovery) (\<lambda>recovery'.
            a_then (a_get (\<lambda>r. a_result (check_identity options (agent_state r)))) (\<lambda>_.
            a_then (commit_identity options incarnation) (\<lambda>_.
            a_then (recoverLiveArea live) (\<lambda>live'.
            a_then a_compactIfNeeded (\<lambda>_.
            a_return (recovery', live'))))))))))"

end
