(* ===== verification/AgentProperties.thy ===== *)
theory AgentProperties
  imports AgentInvariants AgentRecovery
begin

text \<open>
  The properties of the target agent: what a frame, a handshake and a session can change, what a
  verified transfer and a committed generation rest on, and what recovery makes of the live area.
\<close>

subsection \<open>The fences of a session\<close>

lemma fence_of_accept:
  assumes "emit [w_u64 e, w_opaque128 i, w_string kMaxIdentifierLength n] = Some bs" and "length i = 16"
  shows "fence_of (fst (agent_apply s AgentControllerFence bs)) =
     (as_committedGeneration s, as_committedDigest s, e, i)
    \<and> as_transfers (fst (agent_apply s AgentControllerFence bs)) = as_transfers s"
proof -
  obtain x y z where "w_u64 e = Some x" "w_opaque128 i = Some y" "bs = x @ y @ z"
    using assms(1) by (auto simp: codec_dests)
  then have "r_u64 bs = Inr (e, y @ z)" "readIncarnation (y @ z) = Inr (i, z)"
    using u64.get_put [of e x "y @ z"] opaque128.get_put [of i y z] assms(2)
    by (simp_all add: plain_readers)
  then show ?thesis
    by (auto simp: agent_apply_def st_read_def st_end_def fence_of_def split: sum.splits)
qed

definition acceptable :: "AgentState \<Rightarrow> HelloMessage \<Rightarrow> bool" where
  "acceptable s m \<longleftrightarrow>
     (let e = as_lastControllerEpoch s; i = as_lastControllerIncarnation s in
      e = 0 \<or> e < hello_epoch m
      \<or> e = hello_epoch m \<and> (i = hello_incarnation m \<or> \<not> OpaqueIdentity_isSet i))"

lemma refuse_session_not_Returned: "refuse_session code detail r \<noteq> (Returned x, r')"
  by (auto simp: refuse_session_def a_fail_def elim!: a_thenE)

text \<open>A hello that passes its checks leaves the state as it is.\<close>

lemma check_hello_Returned:
  assumes "check_hello m payload r = (Returned (), r')"
  shows "r' = r \<and> acceptable (agent_state r) m
    \<and> (ao_authenticate (ta_options r) \<longrightarrow> verifyAuthenticated payload (ao_key (ta_options r)) = Inr ())
    \<and> hello_minWireVersion m \<le> kWireVersion \<and> kWireVersion \<le> hello_maxWireVersion m"
  using assms
  by (auto simp: check_hello_def a_get_def Let_def acceptable_def uint_isSet_def a_return_def
      refuse_session_not_Returned not_less split: if_splits)

lemma fenced_adopt_authority:
  assumes "acceptable (agent_state r) m" and "length (hello_incarnation m) = 16"
    and "(hello_epoch m, hello_incarnation m) \<in> B"
  shows "fenced.at A B r (adopt_authority m)"
  unfolding adopt_authority_def
proof (intro fenced.at_then fenced.at_commit_written fenced.at_modify, goal_cases)
  case (1 bs)
  note c = fence_of_accept [OF 1 assms(2), of "agent_state r"]
  show ?case
    using assms(1,3) c agent_apply_ok [of "agent_state r" AgentControllerFence bs]
    by (auto simp: fenced_change_def agent_sound_def acceptable_def Let_def fence_of_def
        intro!: r_into_rtranclp fence_step.accept)
qed (simp add: agent_state_def fenced.refl)

lemma fenced_handshake: "fenced.at {} UNIV r (handshake nonce input)"
proof -
  have "fenced.at {} UNIV r'' (adopt_authority m)"
    if "decodeHello payload = Inr m" "check_hello m payload r' = (Returned (), r'')" for m payload r' r''
    using that check_hello_Returned [OF that(2)]
    by (intro fenced_adopt_authority) (auto simp: decodeHello_iff hello_ok_def)
  then show ?thesis
    unfolding handshake_def
    by (auto split: prod.split sum.split intro!: fenced.at_then fenced.at_trivial
        quiet_handshake_parts [THEN quiet_fenced] dest!: a_result_Returned)
qed

lemma quiet_go_on: "quiet.at r m \<Longrightarrow> quiet.at r (a_then m (\<lambda>_. a_return True))"
  by (intro quiet.at_then quiet.at_trivial)

definition commit_set :: "Frame \<Rightarrow> AgentState \<Rightarrow> (Generation \<times> Digest) set" where
  "commit_set f s = (if fh_type (fr_header f) = ApplyCommit then staged_contents s else {})"

lemma fenced_dispatch: "fenced.at (commit_set f (agent_state r)) {} r (dispatch f)"
proof -
  have "fenced.at A B r (a_then (onApplyCommit p) (\<lambda>_. a_return True))" if "A = staged_contents (agent_state r)" for p A B
    unfolding that by (intro fenced.at_then fenced.at_trivial fenced_onApplyCommit)
  moreover have "fenced.at {} {} r (a_then (onTransferComplete p) (\<lambda>_. a_return True))"
    "fenced.at {} {} r (a_then (onStage p) (\<lambda>_. a_return True))" for p
    by (intro fenced.at_then fenced.at_trivial fenced_onTransferComplete fenced_onStage)+
  ultimately show ?thesis
    unfolding dispatch_def Let_def commit_set_def
    by (cases "fh_type (fr_header f)"; simp; intro quiet_fenced)
       (auto intro!: quiet_go_on act_rules)
qed

lemma fenced_serve_loop: "fenced_change UNIV {} (agent_state r) (agent_state (snd (serve_loop input r)))"
proof (induction input r rule: serve_loop.induct)
  case (1 input r)
  obtain res input' where recv: "FramedConnection_receive input = (res, input')" by fastforce
  show ?case
  proof (cases res)
    case (Inl e)
    then show ?thesis using recv by (simp add: serve_loop.simps [of input r] fenced.refl)
  next
    case (Inr f)
    obtain x r' where d: "dispatch f r = (x, r')" by (cases "dispatch f r")
    have step: "fenced_change UNIV {} (agent_state r) (agent_state r')"
      using fenced_mono [OF fenced_dispatch, of f r UNIV "{}"] d by (simp add: fenced.at_def)
    show ?thesis
    proof (cases "x = Returned True")
      case True
      then have "fenced_change UNIV {} (agent_state r') (agent_state (snd (serve_loop input' r')))"
        using "1.IH" [OF recv [symmetric] Inr d [symmetric]] by simp
      then show ?thesis
        using fenced.trans [OF step] recv Inr d True by (simp add: serve_loop.simps [of input r])
    next
      case False
      then show ?thesis
        using step recv Inr d by (auto simp: serve_loop.simps [of input r] split: outcome.splits bool.splits)
    qed
  qed
qed

lemma fenced_serve: "fenced_change UNIV UNIV (agent_state r) (agent_state (snd (serve nonce input r)))"
proof -
  have "fenced.at UNIV UNIV r' (serve_loop input')" for r' input'
    using fenced_serve_loop [of r' input'] fence_steps_mono [of UNIV "{}" _ _ UNIV UNIV]
    by (auto simp: fenced.at_def fenced_change_def)
  moreover have "fenced.at UNIV UNIV r' (handshake nonce input)" for r'
    by (rule fenced_mono [OF fenced_handshake]) auto
  ultimately have "fenced.at UNIV UNIV r (serve nonce input)"
    unfolding serve_def
    by (intro fenced.at_then fenced.at_modify) (auto simp: agent_state_def fenced.refl)
  then show ?thesis by (simp add: fenced.at_def)
qed

text \<open>What the automaton keeps.\<close>

fun not_behind :: "fence \<Rightarrow> fence \<Rightarrow> bool" where
  "not_behind (g, d, e, i) (g', d', e', i') \<longleftrightarrow>
     (g \<noteq> 0 \<longrightarrow> g \<le> g' \<and> (g' = g \<longrightarrow> d' = d))
     \<and> (e \<noteq> 0 \<longrightarrow> e \<le> e' \<and> (e' = e \<longrightarrow> OpaqueIdentity_isSet i \<longrightarrow> i' = i))"

lemma fence_step_not_behind: "fence_step A B f f' \<Longrightarrow> not_behind f f'"
  by (auto elim!: fence_step.cases)

lemma not_behind_trans:
  assumes "not_behind f1 f2" and "not_behind f2 f3" shows "not_behind f1 f3"
proof -
  obtain g1 d1 e1 i1 g2 d2 e2 i2 g3 d3 e3 i3
    where "f1 = (g1, d1, e1, i1)" "f2 = (g2, d2, e2, i2)" "f3 = (g3, d3, e3, i3)"
    by (metis prod_cases4)
  moreover have "a \<noteq> 0 \<Longrightarrow> a \<le> b \<Longrightarrow> b \<noteq> 0" for a b :: u64
    by (metis order.antisym word_zero_le)
  ultimately show ?thesis using assms by (auto dest: order.trans order.antisym)
qed

lemma fence_steps_not_behind: "(fence_step A B)\<^sup>*\<^sup>* f f' \<Longrightarrow> not_behind f f'"
proof (induction rule: rtranclp_induct)
  case base
  then show ?case by (cases f) auto
next
  case (step y z)
  then show ?case using fence_step_not_behind not_behind_trans by blast
qed

lemma fence_steps_committed:
  assumes "(fence_step A {})\<^sup>*\<^sup>* f f'"
  shows "snd (snd f') = snd (snd f)
    \<and> ((fst f', fst (snd f')) = (fst f, fst (snd f)) \<or> (fst f', fst (snd f')) \<in> A)"
  using assms by (induction rule: rtranclp_induct) (auto elim!: fence_step.cases)

subsection \<open>What verified and staged transfers rest on\<close>

lemma hashStagingFile_Inr:
  assumes "hashStagingFile path expected w = (Inr d, w')"
  shows "\<exists>c. w_disk w path = Some c \<and> d = sha256 c \<and> (expected \<noteq> 0 \<longrightarrow> length c = unat expected)"
proof -
  obtain c where c: "w_disk w path = Some c" "expected \<noteq> 0 \<longrightarrow> length c = unat expected"
    "d = Sha256_finish (foldl Sha256_update Sha256_init (file_blocks (64 * 1024) c))"
    using assms by (auto simp: hashStagingFile_def foldl_conv_fold split: option.splits prod.splits bool.splits if_splits)
  then have "d = sha256 c"
    using Sha256_stream_correct [of "file_blocks (64 * 1024) c"] by (simp add: concat_file_blocks sha256_eq_spec)
  with c show ?thesis by blast
qed

lemma tracked_checkpoint:
  assumes "transfer_sound t"
    and "agent_sound (agent_state r) \<Longrightarrow> xr_verified t \<Longrightarrow> traced W Z (agent_state r) (xr_deployment t) t"
  shows "tracked.at W Z r (checkpointTransfer t)"
  unfolding checkpointTransfer_def
proof (rule tracked.at_commit_written, fold writeTransferRecord_def)
  fix bs assume "writeTransferRecord t = Some bs"
  then have "fst (agent_apply (agent_state r) AgentTransferUpsert bs) =
      (agent_state r)\<lparr>as_transfers := om_put (xr_deployment t) t (as_transfers (agent_state r))\<rparr>"
    by (rule apply_upsert [OF assms(1)])
  then show "tracked_change W Z (agent_state r) (fst (agent_apply (agent_state r) AgentTransferUpsert bs))"
    using assms agent_sound_put [of "agent_state r" t] traced_refl
    by (auto simp: tracked_change_def split: if_splits)
qed

lemma tracked_found:
  assumes "\<And>m t. x = Inr m \<Longrightarrow> om_find (as_transfers (agent_state r)) (dep m) = Some t \<Longrightarrow> transfer_sound t
      \<Longrightarrow> xr_deployment t = dep m \<Longrightarrow> tracked.at W Z r (f m r t)"
    and "\<And>m. tracked.at W Z r (g m)"
  shows "tracked.at W Z r (a_then (a_result x) (\<lambda>m. a_get (\<lambda>r.
     case om_find (as_transfers (agent_state r)) (dep m) of None \<Rightarrow> g m | Some t \<Rightarrow> f m r t)))"
proof (intro tracked.at_then tracked.at_trivial, goal_cases)
  case (1 m r')
  then have m: "x = Inr m" "r' = r" by (auto dest: a_result_Returned)
  show ?case
  proof (cases "agent_sound (agent_state r)")
    case True
    show ?thesis
    proof (cases "om_find (as_transfers (agent_state r)) (dep m)")
      case None
      then show ?thesis using assms(2) m(2) by (simp add: tracked.at_def a_get_def)
    next
      case (Some t)
      with assms(1) [OF m(1) Some] show ?thesis
        using agent_sound_mem [OF True om_find_Some_mem [OF Some]] m(2)
        by (simp add: tracked.at_def a_get_def)
    qed
  qed (auto simp: tracked.at_def tracked_change_def m(2))
qed

text \<open>The contents that hash to their declared digest in the staging area.\<close>

definition hashed_contents :: "TargetAgent \<Rightarrow> (DeploymentId \<times> Digest \<times> u64) set" where
  "hashed_contents r = {(d, digest, n).
     \<exists>c. w_disk (ta_world r) (stagingPath r d) = Some c \<and> sha256 c = digest \<and> (n \<noteq> 0 \<longrightarrow> length c = unat n)}"

lemmas tracked_replies = quiet_answers [THEN quiet_tracked] quiet_reject_digest [THEN quiet_tracked]

lemma tracked_onTransferComplete: "tracked.at (hashed_contents r) Z r (onTransferComplete payload)"
  unfolding onTransferComplete_def
proof (rule tracked_found, goal_cases)
  case (1 m t)
  let ?path = "stagingPath r (transferComplete_deployment m)"
  have "tracked.at (hashed_contents r) Z u (checkpointTransfer (t\<lparr>xr_verified := True, xr_updatedAtMillis := now\<rparr>))"
    if "agent_state u = agent_state r" "i64_range now" "xr_bytesReceived t = xr_totalBytes t"
      "hashStagingFile ?path (xr_totalBytes t) (ta_world r) = (Inr (xr_digest t), w)" for u now w
  proof (rule tracked_checkpoint)
    show "transfer_sound (t\<lparr>xr_verified := True, xr_updatedAtMillis := now\<rparr>)"
      using 1(3) that by (simp add: transfer_sound_def xfer_ok_def)
    show "traced (hashed_contents r) Z (agent_state u) (xr_deployment (t\<lparr>xr_verified := True, xr_updatedAtMillis := now\<rparr>))
        (t\<lparr>xr_verified := True, xr_updatedAtMillis := now\<rparr>)"
      using 1 hashStagingFile_Inr [OF that(4)] that(1)
      by (auto simp: traced_def hashed_contents_def transfer_sound_def)
  qed
  then show ?case
    by (auto intro!: tracked.at_then tracked.at_trivial tracked_replies split: sum.split
        dest!: a_io_Returned a_now_Returned)
qed (rule tracked_replies)

lemma tracked_onStage: "tracked.at W UNIV r (onStage payload)"
  unfolding onStage_def
proof (rule tracked_found, goal_cases)
  case (1 m t)
  have "tracked.at W UNIV u (checkpointTransfer (t\<lparr>xr_staged := True, xr_updatedAtMillis := now\<rparr>))"
    if "agent_state u = agent_state r" "i64_range now" "xr_verified t" for u now
    using 1 that
    by (intro tracked_checkpoint) (auto simp: transfer_sound_def xfer_ok_def traced_def)
  then show ?case
    by (auto intro!: tracked.at_then tracked.at_trivial tracked_replies split: sum.split
        dest!: a_io_Returned a_now_Returned)
qed (rule tracked_replies)

definition verify_set :: "Frame \<Rightarrow> TargetAgent \<Rightarrow> (DeploymentId \<times> Digest \<times> u64) set" where
  "verify_set f r = (if fh_type (fr_header f) = TransferComplete then hashed_contents r else {})"

definition stage_set :: "Frame \<Rightarrow> DeploymentId set" where
  "stage_set f = (if fh_type (fr_header f) = Stage then UNIV else {})"

lemma tracked_dispatch: "tracked.at (verify_set f r) (stage_set f) r (dispatch f)"
proof -
  have "tracked.at W Z r (a_then (onApplyCommit p) (\<lambda>_. a_return True))" for p W Z
    by (intro tracked.at_then tracked.at_trivial tracked_onApplyCommit)
  moreover have "tracked.at (hashed_contents r) {} r (a_then (onTransferComplete p) (\<lambda>_. a_return True))"
    "tracked.at {} UNIV r (a_then (onStage p) (\<lambda>_. a_return True))" for p
    by (intro tracked.at_then tracked.at_trivial tracked_onTransferComplete tracked_onStage)+
  ultimately show ?thesis
    unfolding dispatch_def Let_def verify_set_def stage_set_def
    by (cases "fh_type (fr_header f)"; simp; intro quiet_tracked)
       (auto intro!: quiet_go_on act_rules)
qed

subsection \<open>What one frame can change\<close>

text \<open>
  C20: Provenance of every change that matters, for a frame handled in a sound state, whatever the frame
  holds and whatever the operating system answers: the state stays sound; the committed generation and
  digest change only on a commit, to those of a staged and verified transfer above the committed
  generation; no frame changes the accepted controller; a transfer is verified afterwards only if it was
  before, or the frame completes the transfer and the bytes in the staging file hash to its digest and
  have its size; a transfer becomes staged only on a stage message, and only if it was verified.
\<close>

theorem dispatch_provenance:
  assumes "agent_sound (agent_state r)" and "dispatch f r = (x, r')"
  shows "agent_sound (agent_state r')
    \<and> as_lastControllerEpoch (agent_state r') = as_lastControllerEpoch (agent_state r)
    \<and> as_lastControllerIncarnation (agent_state r') = as_lastControllerIncarnation (agent_state r)
    \<and> (as_committedGeneration (agent_state r') = as_committedGeneration (agent_state r)
         \<and> as_committedDigest (agent_state r') = as_committedDigest (agent_state r)
       \<or> fh_type (fr_header f) = ApplyCommit
         \<and> (\<exists>d t. om_find (as_transfers (agent_state r)) d = Some t \<and> xr_staged t \<and> xr_verified t
              \<and> (committed_set r \<longrightarrow> as_committedGeneration (agent_state r) < xr_generation t)
              \<and> as_committedGeneration (agent_state r') = xr_generation t
              \<and> as_committedDigest (agent_state r') = xr_digest t))
    \<and> (\<forall>d t'. om_find (as_transfers (agent_state r')) d = Some t' \<and> xr_verified t' \<longrightarrow>
         (\<exists>t. om_find (as_transfers (agent_state r)) d = Some t \<and> xr_verified t
            \<and> (xr_staged t' \<longrightarrow> xr_staged t \<or> fh_type (fr_header f) = Stage)
            \<and> xr_generation t' = xr_generation t \<and> xr_digest t' = xr_digest t)
       \<or> fh_type (fr_header f) = TransferComplete \<and> \<not> xr_staged t'
         \<and> (\<exists>c. w_disk (ta_world r) (stagingPath r d) = Some c \<and> sha256 c = xr_digest t'
              \<and> (xr_totalBytes t' \<noteq> 0 \<longrightarrow> length c = unat (xr_totalBytes t'))))"
proof -
  have f: "agent_sound (agent_state r')"
    "(fence_step (commit_set f (agent_state r)) {})\<^sup>*\<^sup>* (fence_of (agent_state r)) (fence_of (agent_state r'))"
    using fenced_dispatch [of f r] assms by (auto simp: fenced.at_def fenced_change_def)
  have t: "traced (verify_set f r) (stage_set f) (agent_state r) d t'"
    if "om_find (as_transfers (agent_state r')) d = Some t'" "xr_verified t'" for d t'
    using tracked_dispatch [of f r] assms that by (auto simp: tracked.at_def tracked_change_def)
  have g: "as_committedGeneration (agent_state r) < as_committedGeneration (agent_state r')"
    if "committed_set r" "(as_committedGeneration (agent_state r'), as_committedDigest (agent_state r'))
      \<noteq> (as_committedGeneration (agent_state r), as_committedDigest (agent_state r))"
    using fence_steps_not_behind [OF f(2)] that
    by (auto simp: fence_of_def committed_set_def uint_isSet_def order.strict_iff_order)
  then have c: "as_committedGeneration (agent_state r') = as_committedGeneration (agent_state r)
         \<and> as_committedDigest (agent_state r') = as_committedDigest (agent_state r)
       \<or> fh_type (fr_header f) = ApplyCommit
         \<and> (\<exists>d t. om_find (as_transfers (agent_state r)) d = Some t \<and> xr_staged t \<and> xr_verified t
              \<and> (committed_set r \<longrightarrow> as_committedGeneration (agent_state r) < xr_generation t)
              \<and> as_committedGeneration (agent_state r') = xr_generation t
              \<and> as_committedDigest (agent_state r') = xr_digest t)"
    using fence_steps_committed [OF f(2)]
    by (simp add: fence_of_def commit_set_def staged_contents_def split: if_splits) metis
  show ?thesis
    using f(1) fence_steps_committed [OF f(2)] c
    by (auto simp: fence_of_def dest!: t simp: traced_def verify_set_def stage_set_def hashed_contents_def
        split: if_splits)
qed

text \<open>An agent with one staged transfer, above its committed generation.\<close>

definition example_transfer :: TransferRecord where
  "example_transfer =
     \<lparr>xr_deployment = ''dep-1'', xr_stream = 1, xr_key = ''app'', xr_artifact = ''art'', xr_generation = 7,
      xr_digest = replicate 32 1, xr_totalBytes = 3, xr_bytesReceived = 3, xr_verified = True,
      xr_staged = True, xr_updatedAtMillis = 0\<rparr>"

definition example_state :: AgentState where
  "example_state =
     emptyAgentState\<lparr>as_target := ''t1'', as_committedGeneration := 5, as_committedDigest := replicate 32 2,
       as_lastControllerEpoch := 3, as_lastControllerIncarnation := replicate 16 4,
       as_transfers := [(''dep-1'', example_transfer)]\<rparr>"

definition example_agent :: "AgentState \<Rightarrow> TargetAgent" where
  "example_agent s =
     \<lparr>ta_options = \<lparr>ao_stateDirectory = ''d'', ao_liveDirectory = [], ao_target = ''t1'',
        ao_klass = Unspecified, ao_guarantee = AtomicActivate, ao_maxArtifactBytes = 100,
        ao_retainedPayloadsPerKey = 4, ao_sessionIdleTimeoutMillis = 1000, ao_key = [1],
        ao_authenticate = True, ao_verifyCommittedPayloadOnStart = True, ao_faults = []\<rparr>,
      ta_store = \<lparr>ds_options = example_options ''agent'',
        ds_journal = open_journal ''d/agent.journal'' kMaxJournalRecordBytes True [segment_start 1],
        ds_state = s, ds_failed = False\<rparr>,
      ta_liveRoot = ''d/live'', ta_stagingRoot = ''d/staging'', ta_chunkCounter = 0,
      ta_session = emptySession, ta_world = empty_world,
      ta_out = \<lparr>fo_maxPayloadBytes = 1024, fo_bytesSent = 0, fo_answers = [], fo_written = []\<rparr>,
      ta_now = (\<lambda>_. 0), ta_ticks = 0, ta_text = (\<lambda>_. []), ta_list = (\<lambda>_ _. []),
      ta_tree = (\<lambda>_ _. []), ta_mtime = (\<lambda>_ _. None)\<rparr>"

lemma example_agent_state [simp]: "agent_state (example_agent s) = s"
  by (simp add: example_agent_def agent_state_def)

lemma example_sound: "agent_sound example_state"
proof -
  have "transfer_sound example_transfer" by code_simp
  moreover have "optionalIdentifier ''t1''" by code_simp
  ultimately show ?thesis
    by (simp add: agent_sound_def agent_ok_def example_state_def emptyAgentState_def keyed_def om_inv_def
        om_values_def kMaxFindingsPerAgent_def transfer_sound_def)
       (simp add: example_transfer_def)
qed

definition example_frame :: "FrameType \<Rightarrow> bytes \<Rightarrow> Frame" where
  "example_frame t payload =
     \<lparr>fr_header = \<lparr>fh_wireVersion = 1, fh_type = t, fh_flags = 0, fh_reserved = 0,
        fh_payloadLength = of_nat (length payload), fh_headerCrc = 0, fh_payloadCrc = 0\<rparr>, fr_payload = payload\<rparr>"

definition ping_frame :: Frame where
  "ping_frame = example_frame Ping [1, 0, 0, 0, 0, 0, 0, 0]"

theorem dispatch_provenance_witness:
  "agent_sound (agent_state (example_agent example_state))
   \<and> agent_sound (agent_state (snd (dispatch ping_frame (example_agent example_state))))
   \<and> as_committedGeneration (agent_state (snd (dispatch ping_frame (example_agent example_state)))) = 5"
  using dispatch_provenance [OF _ prod.collapse [symmetric], of "example_agent example_state" ping_frame]
    example_sound
  by (simp add: ping_frame_def example_frame_def) (simp add: example_state_def)

subsection \<open>What a session can change\<close>

text \<open>
  C2: A session refines the fence automaton. From a sound state, whatever frames the peer sends and
  whatever the operating system answers, the session ends in a sound state whose committed generation
  and accepted controller are reached by steps of the automaton.
\<close>

theorem session_refines_fences:
  assumes "agent_sound (agent_state r)"
  shows "agent_sound (agent_state (snd (serve nonce input r)))
    \<and> (fence_step UNIV UNIV)\<^sup>*\<^sup>* (fence_of (agent_state r)) (fence_of (agent_state (snd (serve nonce input r))))"
  using fenced_serve [of r nonce input] assms by (simp add: fenced_change_def)

theorem session_refines_fences_witness:
  "agent_sound (agent_state (snd (serve [] (FrameInput_open 1024 [Inr [1, 2, 3]]) (example_agent example_state))))"
  using session_refines_fences [of "example_agent example_state"] example_sound by simp

text \<open>
  No session lowers what the agent has committed to. Once a generation is committed it never goes
  down, and its digest never changes under the same generation; once a controller epoch is accepted it
  never goes down, and no other incarnation takes over the same epoch.
\<close>

theorem session_never_regresses:
  assumes "agent_sound (agent_state r)" and "serve nonce input r = (x, r')"
  shows "(committed_set r \<longrightarrow>
      as_committedGeneration (agent_state r) \<le> as_committedGeneration (agent_state r')
      \<and> (as_committedGeneration (agent_state r') = as_committedGeneration (agent_state r) \<longrightarrow>
         as_committedDigest (agent_state r') = as_committedDigest (agent_state r)))
   \<and> (as_lastControllerEpoch (agent_state r) \<noteq> 0 \<longrightarrow>
      as_lastControllerEpoch (agent_state r) \<le> as_lastControllerEpoch (agent_state r')
      \<and> (as_lastControllerEpoch (agent_state r') = as_lastControllerEpoch (agent_state r)
         \<and> OpaqueIdentity_isSet (as_lastControllerIncarnation (agent_state r)) \<longrightarrow>
         as_lastControllerIncarnation (agent_state r') = as_lastControllerIncarnation (agent_state r)))"
proof -
  have "(fence_step UNIV UNIV)\<^sup>*\<^sup>* (fence_of (agent_state r)) (fence_of (agent_state r'))"
    using fenced_serve [of r nonce input] assms by (simp add: fenced_change_def)
  from fence_steps_not_behind [OF this] show ?thesis
    by (simp add: fence_of_def committed_set_def uint_isSet_def)
qed

theorem session_never_regresses_witness:
  "5 \<le> as_committedGeneration (agent_state
     (snd (serve [] (FrameInput_open 1024 [Inr [1, 2, 3]]) (example_agent example_state))))"
  using session_never_regresses [OF _ prod.collapse [symmetric],
      of "example_agent example_state" "[]" "FrameInput_open 1024 [Inr [1, 2, 3]]"] example_sound
  by (simp add: committed_set_def uint_isSet_def) (simp add: example_state_def)

subsection \<open>The handshake\<close>

lemma encodeAuthReject_total: "encodeAuthReject m \<noteq> None"
  by (auto simp: encodeAuthReject_def enc_try_def checkDetail_def encoded_def emit.simps w_u16_def
      writeDetail_def w_string_def w_u32_def w_bytes_def kMaxMessageDetailBytes_def kAbsoluteMaxFieldBytes_def
      split: option.splits sum.splits)

lemma refuse_session_fails: "\<exists>out. refuse_session code detail r = (Failed code, r\<lparr>ta_out := out\<rparr>)"
proof -
  let ?m = "\<lparr>authReject_code = code, authReject_detail = detail\<rparr>"
  obtain e where e: "encodeAuthReject ?m = Some e" using encodeAuthReject_total by blast
  have "\<exists>x out. send_encoded AuthReject kFrameFlagResponse (Some e) r = (x, r\<lparr>ta_out := out\<rparr>)
      \<and> ((\<exists>y. x = Returned y) \<or> (\<exists>z. x = Failed z))"
    by (cases e; cases "FramedConnection_send AuthReject kFrameFlagResponse (projr e) (ta_out r)")
       (auto simp: send_encoded_def a_then_def a_encoded_def a_send_def a_result_def a_fail_def a_return_def
         split: sum.splits intro: exI [of _ "ta_out r"])
  then show ?thesis
    by (auto simp: refuse_session_def e a_then_def a_attempt_def a_fail_def)
qed

text \<open>
  An older controller is refused. A well-formed and authenticated hello whose epoch is below the
  accepted one, or that claims the accepted epoch for another incarnation, ends the session with
  a stale-epoch or a fenced-incarnation error, and nothing but the connection has changed.
\<close>

theorem older_controller_refused:
  assumes "FramedConnection_receive input = (Inr f, input')" and "fh_type (fr_header f) = Hello"
    and "decodeHello (fr_payload f) = Inr m"
    and "hello_minWireVersion m \<le> kWireVersion" and "kWireVersion \<le> hello_maxWireVersion m"
    and "ao_authenticate (ta_options r) \<Longrightarrow> verifyAuthenticated (fr_payload f) (ao_key (ta_options r)) = Inr ()"
    and "uint_isSet (as_lastControllerEpoch (agent_state r))"
    and "hello_epoch m < as_lastControllerEpoch (agent_state r)
      \<or> hello_epoch m = as_lastControllerEpoch (agent_state r)
        \<and> OpaqueIdentity_isSet (as_lastControllerIncarnation (agent_state r))
        \<and> hello_incarnation m \<noteq> as_lastControllerIncarnation (agent_state r)"
  shows "\<exists>out. handshake nonce input r =
    (Failed (if hello_epoch m < as_lastControllerEpoch (agent_state r) then StaleEpoch else FencedIncarnation),
     r\<lparr>ta_out := out\<rparr>)"
proof -
  have dec: "a_result (decodeHello (fr_payload f)) r = (Returned m, r)"
    by (simp add: assms(3) a_result_def a_return_def)
  have "\<exists>out. check_hello m (fr_payload f) r =
    (Failed (if hello_epoch m < as_lastControllerEpoch (agent_state r) then StaleEpoch else FencedIncarnation),
     r\<lparr>ta_out := out\<rparr>)"
    using assms(4-8) refuse_session_fails
    by (auto simp: check_hello_def a_get_def Let_def)
  then show ?thesis
    by (auto simp: handshake_def assms(1,2) a_then_def dec)
qed

definition older_hello_payload :: bytes where
  "older_hello_payload = (case encodeHello example_hello of Some (Inr bs) \<Rightarrow> bs | _ \<Rightarrow> [])"

lemma older_hello: "decodeHello older_hello_payload = Inr example_hello"
proof -
  have "isValidIdentifier ''node-1''" by code_simp
  then have "hello_ok example_hello"
    by (simp add: hello_ok_def example_hello_def kCapabilityKnownMask_def kAbsoluteMaxPayloadBytes_def)
  moreover have "\<exists>bs. encodeHello example_hello = Some (Inr bs)"
    by (simp add: encodeHello_def codec_rules example_hello_def kMaxIdentifierLength_def kAbsoluteMaxFieldBytes_def)
  ultimately show ?thesis by (auto simp: decodeHello_iff older_hello_payload_def)
qed

definition older_input :: FrameInput where
  "older_input = (FrameInput_open 1024 [])\<lparr>fi_ready := [example_frame Hello older_hello_payload]\<rparr>"

definition open_agent :: "AgentState \<Rightarrow> TargetAgent" where
  "open_agent s = (example_agent s)\<lparr>ta_options := (ta_options (example_agent s))\<lparr>ao_authenticate := False\<rparr>\<rparr>"

theorem older_controller_refused_witness:
  "\<exists>out. handshake [] older_input (open_agent (example_state\<lparr>as_lastControllerEpoch := 9\<rparr>)) =
     (Failed StaleEpoch, (open_agent (example_state\<lparr>as_lastControllerEpoch := 9\<rparr>))\<lparr>ta_out := out\<rparr>)"
proof -
  let ?r = "open_agent (example_state\<lparr>as_lastControllerEpoch := 9\<rparr>)"
  have s: "agent_state ?r = example_state\<lparr>as_lastControllerEpoch := 9\<rparr>"
    by (simp add: open_agent_def agent_state_def example_agent_def)
  show ?thesis
    using older_controller_refused [of older_input "example_frame Hello older_hello_payload"
        "older_input\<lparr>fi_ready := []\<rparr>" example_hello ?r "[]"] older_hello
    by (simp add: s older_input_def FramedConnection_receive.simps example_frame_def uint_isSet_def kWireVersion_def)
       (simp add: open_agent_def example_hello_def)
qed

text \<open>
  C21: The confirmation of a session proves nothing about its sender. The agent accepts a confirmation
  exactly when its tag is the tag that the agent itself has just sent at the end of its own answer, so a
  peer that echoes those bytes is confirmed without the shared key.
\<close>

theorem confirm_is_echo:
  assumes "ao_authenticate (ta_options r)" and "sealAuthenticated plain (ao_key (ta_options r)) = Inr sealed"
    and "length (helloConfirm_authTag c) = kAuthTagBytes"
  shows "check_confirm sealed c r = (Returned (), r)
    \<longleftrightarrow> helloConfirm_authTag c = drop (length sealed - kAuthTagBytes) sealed"
proof -
  let ?key = "ao_key (ta_options r)" and ?body = "take (length plain - kAuthTagBytes) plain"
  have s: "sealed = ?body @ hmacSha256 ?key (zero_tag plain)" "kAuthTagBytes \<le> length plain"
    using assms(2) by (auto simp: sealAuthenticated_Inr_iff)
  have b: "with_tag sealed tag = ?body @ tag" "zero_tag (?body @ tag) = zero_tag plain"
    if "length tag = kAuthTagBytes" for tag
    using s that by (simp_all add: with_tag_def zero_tag_def kAuthTagBytes_def)
  have "verifyAuthenticated (with_tag sealed (helloConfirm_authTag c)) ?key = Inr ()
      \<longleftrightarrow> helloConfirm_authTag c = hmacSha256 ?key (zero_tag plain)"
    using b [OF assms(3)] assms(3)
    by (auto simp: verifyAuthenticated_def result_simps constantTimeEquals_iff)
  moreover have "drop (length sealed - kAuthTagBytes) sealed = hmacSha256 ?key (zero_tag plain)"
    by (simp add: s(1) kAuthTagBytes_def)
  ultimately show ?thesis
    using assms(1) by (simp add: check_confirm_def a_get_def a_return_def refuse_session_not_Returned)
qed

theorem confirm_is_echo_witness:
  "\<exists>sealed. sealAuthenticated (replicate 40 0) [1] = Inr sealed
     \<and> check_confirm sealed \<lparr>helloConfirm_authTag = drop (length sealed - kAuthTagBytes) sealed\<rparr>
         (example_agent example_state) = (Returned (), example_agent example_state)"
proof -
  have "\<exists>sealed. sealAuthenticated (replicate 40 0) [1] = Inr sealed"
    by (simp add: sealAuthenticated_Inr_iff kAuthTagBytes_def)
  then obtain sealed where s: "sealAuthenticated (replicate 40 0) [1] = Inr sealed" by blast
  then have "length sealed = 40"
    by (auto simp: sealAuthenticated_Inr_iff kAuthTagBytes_def)
  with s show ?thesis
    using confirm_is_echo [of "example_agent example_state" "replicate 40 0" sealed
        "\<lparr>helloConfirm_authTag = drop (length sealed - kAuthTagBytes) sealed\<rparr>"]
    by (auto simp: example_agent_def kAuthTagBytes_def)
qed

end
