(* ===== verification/AgentActivation.thy ===== *)
theory AgentActivation
  imports AgentProperties
begin

text \<open>
  Activation and what survives it: the text of the live pointer is read back, the durable effect of an
  activation, and the recovery of a target that stopped between the switch of the pointer and its record.
\<close>

subsection \<open>The live pointer is read back\<close>

lemma parse_decimal_value:
  fixes n :: u64
  assumes "list_all is_digit cs" and "decimal_value (unat n) cs < 2 ^ 64"
  shows "parse_decimal code cs n = Inr (of_nat (decimal_value (unat n) cs))"
  using assms
proof (induction cs arbitrary: n)
  case (Cons c cs)
  let ?v = "unat n * 10 + digit_value c"
  have d: "is_digit c" using Cons.prems by simp
  have le: "?v < 2 ^ 64"
    using Cons.prems(2) decimal_value_mono [of ?v cs] by (simp add: le_less_trans)
  then have m: "checkedMul n 10 = Some (n * 10)" "unat (n * 10) = unat n * 10"
    by (simp_all add: checkedMul_exact unat_word_ariths)
  have v: "unat (of_nat (digit_value c) :: u64) = digit_value c"
    using digit_value_less [OF d] by (simp add: unat_of_nat)
  then have a: "checkedAdd (n * 10) (of_nat (digit_value c)) = Some (n * 10 + of_nat (digit_value c))"
    "unat (n * 10 + of_nat (digit_value c)) = ?v"
    using le m(2) by (simp_all add: checkedAdd_exact unat_word_ariths)
  have "digit_value c = of_char c - of_char CHR ''0''" by (simp add: digit_value_def)
  then show ?case
    using Cons.IH [of "n * 10 + of_nat (digit_value c)"] Cons.prems d m(1) a
    by (simp add: is_digit_def not_less)
qed simp

lemma is_digit_not_space: "is_digit c \<Longrightarrow> c \<noteq> CHR '' ''"
  by (auto simp: is_digit_def less_eq_char_def)

lemma takeWhile_word:
  assumes "list_all (\<lambda>c. c \<noteq> x) xs"
  shows "takeWhile (\<lambda>c. c \<noteq> x) (xs @ x # ys) = xs" "dropWhile (\<lambda>c. c \<noteq> x) (xs @ x # ys) = x # ys"
  using assms by (induction xs) auto

lemma toHex_no_space: "list_all (\<lambda>c. c \<noteq> CHR '' '') (toHex bs)"
proof -
  have "nibble CHR '' '' = None" by code_simp
  then have "hex_digit (b AND 0x0F) \<noteq> CHR '' ''" for b
    using nibble_hex_digit_word [of b] by auto
  then show ?thesis by (auto simp: toHex_def list_all_iff)
qed

lemma identifier_no_trim:
  assumes "optionalIdentifier a"
  shows "trim_right (\<lambda>c. c = CHR 0x0A \<or> c = CHR 0x0D \<or> c = CHR '' '') (a @ [CHR 0x0A]) = a"
proof -
  have "\<not> identifier_char CHR 0x0A" "\<not> identifier_char CHR 0x0D" "\<not> identifier_char CHR '' ''"
    by code_simp+
  moreover have "list_all identifier_char a"
    using assms by (auto simp: optionalIdentifier_def isValidIdentifier_def split: if_splits)
  ultimately have "list_all (\<lambda>c. \<not> (c = CHR 0x0A \<or> c = CHR 0x0D \<or> c = CHR '' '')) (rev a)"
    by (auto simp: list_all_iff)
  then have "dropWhile (\<lambda>c. c = CHR 0x0A \<or> c = CHR 0x0D \<or> c = CHR '' '') (rev a) = rev a"
    by (cases "rev a") auto
  then show ?thesis by (simp add: trim_right_def)
qed

lemma pointer_text_read:
  assumes "length d = 32" and "optionalIdentifier a"
  shows "parsePointer (pointerText g d a) = Inr \<lparr>pv_generation = g, pv_digest = d, pv_artifact = a\<rparr>"
proof -
  have g: "parse_decimal code (to_string (unat g)) 0 = Inr g" for code
    using parse_decimal_value [of "to_string (unat g)" 0 code] to_string_digits [of "unat g"]
      unsigned_less [of g] by (simp add: decimal_value_to_string)
  have digits: "list_all (\<lambda>c. c \<noteq> CHR '' '') (to_string (unat g))"
    using to_string_digits [of "unat g"] by (auto simp: list_all_iff is_digit_not_space)
  note w = takeWhile_word [OF digits] takeWhile_word [OF toHex_no_space]
  have "(if a = [] then Inr [] else parseId a) = Inr a"
    using assms(2) by (auto simp: parseId_def optionalIdentifier_def)
  then show ?thesis
    using g Digest_parse_hex [OF assms(1)] identifier_no_trim [OF assms(2)]
    by (simp add: parsePointer_def pointerText_def Digest_hex_def w cf_try_def)
qed

text \<open>
  The live pointer is read back as it was written: parsing the text of a generation, a digest and an
  artifact name, which may be empty, returns exactly those three.
\<close>

theorem pointer_roundtrip:
  assumes "length d = 32" and "optionalIdentifier a"
  shows "parsePointer (pointerText g d a) = Inr \<lparr>pv_generation = g, pv_digest = d, pv_artifact = a\<rparr>"
  by (rule pointer_text_read [OF assms])

theorem pointer_roundtrip_witness:
  "parsePointer (pointerText 7 (replicate 32 1) ''art'') =
     Inr \<lparr>pv_generation = 7, pv_digest = replicate 32 1, pv_artifact = ''art''\<rparr>"
proof -
  have "optionalIdentifier ''art''" by code_simp
  then show ?thesis by (intro pointer_roundtrip) simp_all
qed

subsection \<open>Which files an operation leaves alone\<close>

text \<open>A call that leaves a file alone, and makes no later call fail when none was going to.\<close>

definition leaves :: "string \<Rightarrow> 'a io \<Rightarrow> bool" where
  "leaves q m \<longleftrightarrow> (\<forall>w x w'. m w = (x, w') \<longrightarrow> w_disk w' q = w_disk w q \<and> (quiet w \<longrightarrow> quiet w'))"

lemma stays_quiet:
  "os_call w = (b, w') \<Longrightarrow> quiet w \<Longrightarrow> quiet w'" "os_change oper w = (b, w') \<Longrightarrow> quiet w \<Longrightarrow> quiet w'"
  "fwrite_at p off bs w = (b, w') \<Longrightarrow> quiet w \<Longrightarrow> quiet w'"
  by (auto simp: os_call_def os_change_def fwrite_at_def os_outcome_def quiet_def perform_def split: prod.splits option.splits)

lemma leaves_os:
  "leaves q os_call" "q \<noteq> p \<Longrightarrow> leaves q (fwrite_at p off bs)" "q \<noteq> p \<Longrightarrow> leaves q (fwrite_end p bs)"
  "leaves q (io_return x)"
  by (auto simp: leaves_def fwrite_end_def io_return_def dest: os_call_disk fwrite_at_disk(1) stays_quiet)

lemma leaves_remove: "q \<noteq> p \<Longrightarrow> leaves q (fs_remove p)"
  by (auto simp: leaves_def fs_remove_def dest: os_change_disk stays_quiet split: option.splits)

lemma leaves_io_or_fail: "leaves q c \<Longrightarrow> leaves q k \<Longrightarrow> leaves q (io_or_fail c code k)"
  by (fastforce simp: leaves_def io_or_fail_def split: prod.splits if_splits)

lemma leaves_append: "q \<noteq> jn_path j \<Longrightarrow> leaves q (Journal_append j t payload)"
proof -
  assume q: "q \<noteq> jn_path j"
  then have "leaves q (writeRecord (jn_path j) durable t payload n)" for durable n
    unfolding writeRecord_def Let_def flushFileToDisk_def
    by (auto intro!: leaves_io_or_fail leaves_os)
  then show ?thesis
    by (fastforce simp: leaves_def Journal_append_def split: option.splits prod.splits sum.splits if_splits)
qed

lemma flush_disk: "flushFileToDisk w = (x, w') \<Longrightarrow> w_disk w' = w_disk w"
  by (auto simp: flushFileToDisk_def io_or_fail_def io_return_def dest!: os_call_disk split: prod.splits if_splits)

text \<open>A successful atomic write has put the content in place, whichever calls failed on the way.\<close>

lemma writeFileAtomic_Inr:
  assumes "writeFileAtomic path content w = (Inr (), w')"
  shows "w_disk w' path = Some content"
proof -
  obtain temporary w0 where t: "tempSiblingPath path w = (temporary, w0)" by fastforce
  then have tp: "temporary \<noteq> path" by (auto simp: tempSiblingPath_def split: prod.splits)
  obtain w1 where c: "os_change (CreateFile temporary) w0 = (True, w1)"
    using assms t by (auto simp: writeFileAtomic_def split: prod.splits bool.splits)
  obtain written w2 where wr: "(if content = [] then (True, w1) else fwrite_at temporary 0 content w1) = (written, w2)"
    by fastforce
  obtain w3 where f: "written" "flushFileToDisk w2 = (Inr (), w3)"
    and rn: "rename_into_place temporary path w3 = (Inr (), w')"
    using assms t c wr by (auto simp: writeFileAtomic_def split: prod.splits bool.splits sum.splits if_splits)
  have "w_disk w2 temporary = Some content"
    using os_change_disk [OF c] wr f(1) fwrite_at_disk(2) [of temporary 0 content w1 True w2]
    by (auto split: if_splits)
  then have "w_disk w3 temporary = Some content" using flush_disk [OF f(2)] by simp
  then show ?thesis
    using rn tp
    by (auto simp: rename_into_place_def dest!: os_change_disk split: prod.splits bool.splits if_splits)
qed

text \<open>
  A file that is neither the journal of the agent nor an entry of the payload directory of a key keeps its
  content through the operations after the switch of that key.
\<close>

definition sheltered :: "ConfigKey \<Rightarrow> string \<Rightarrow> TargetAgent \<Rightarrow> bool" where
  "sheltered key q r \<longleftrightarrow> q \<noteq> jn_path (ds_journal (ta_store r))
     \<and> (\<forall>d. q \<notin> set (ta_list r d (liveKeyDirectory r key @ ''/payload'')))"

definition stable :: "ConfigKey \<Rightarrow> string \<Rightarrow> 'a act \<Rightarrow> bool" where
  "stable key q m \<longleftrightarrow>
     (\<forall>r x r'. m r = (x, r') \<longrightarrow> sheltered key q r \<longrightarrow> sheltered key q r' \<and> w_disk (ta_world r') q = w_disk (ta_world r) q)"

lemma stable_then: "stable key q m \<Longrightarrow> (\<And>x. stable key q (k x)) \<Longrightarrow> stable key q (a_then m k)"
  by (fastforce simp: stable_def a_then_def split: prod.splits outcome.splits)

lemma stable_get: "(\<And>r. stable key q (f r)) \<Longrightarrow> stable key q (a_get f)"
  by (auto simp: stable_def a_get_def)

lemma stable_plain:
  "stable key q (a_return x)" "stable key q (a_fail e)" "stable key q a_now" "stable key q (a_faulty p c)"
  "stable key q (a_written ws)" "stable key q (a_modify (with_state f))" "stable key q (a_result res)"
  by (auto simp: stable_def sheltered_def liveKeyDirectory_def a_return_def a_fail_def a_now_def a_faulty_def a_written_def a_modify_def
      with_state_def a_result_def split: option.splits sum.splits if_splits)

lemma stable_io: "leaves q io \<Longrightarrow> stable key q (a_io io)"
  by (auto simp: stable_def sheltered_def liveKeyDirectory_def leaves_def a_io_def split: prod.splits)

lemma append_path: "Journal_append j t payload w = ((st, j'), w') \<Longrightarrow> jn_path j' = jn_path j"
  by (auto simp: Journal_append_def split: option.splits prod.splits sum.splits if_splits)

lemma stable_commit: "stable key q (a_commit t payload)"
  unfolding stable_def
proof (intro allI impI)
  fix r x r' assume "a_commit t payload r = (x, r')" and q: "sheltered key q r"
  then show "sheltered key q r' \<and> w_disk (ta_world r') q = w_disk (ta_world r) q"
    using leaves_append [of q "ds_journal (ta_store r)" t payload]
    by (auto simp: a_commit_def DurableStore_commit_def a_result_def a_fail_def a_return_def sheltered_def liveKeyDirectory_def leaves_def
        dest: append_path split: prod.splits sum.splits if_splits)
qed

lemma stable_written: "stable key q (commit_written t ws)"
  unfolding commit_written_def by (intro stable_then stable_plain stable_commit)

lemma fold_remove_disk:
  "\<forall>e\<in>set es. fst e \<noteq> q \<Longrightarrow> w_disk (fold (\<lambda>e w. snd (fs_remove (fst e) w)) es w) q = w_disk w q"
proof (induction es arbitrary: w)
  case (Cons e es)
  then show ?case using fs_remove_disk [of "fst e" w _ _ q] by (metis (mono_tags, lifting) fold_simps(2) list.set_intros prod.collapse)
qed simp

lemma stable_prunePayloads: "stable key q (prunePayloads key)"
  unfolding stable_def
proof (intro allI impI)
  fix r x r' assume p: "prunePayloads key r = (x, r')" and q: "sheltered key q r"
  let ?d = "w_disk (ta_world r)"
  let ?entries = "List.map_filter (\<lambda>p. map_option (\<lambda>t. (p, t)) (ta_mtime r ?d p)) (ta_list r ?d (liveKeyDirectory r key @ ''/payload''))"
  have "\<forall>e\<in>set (drop k (sort_key (\<lambda>e. - snd e) ?entries)). fst e \<noteq> q" for k
    using q by (auto simp: sheltered_def liveKeyDirectory_def map_filter_def dest!: in_set_dropD)
  note f = fold_remove_disk [OF this]
  show "sheltered key q r' \<and> w_disk (ta_world r') q = w_disk (ta_world r) q"
    using p q f
    by (simp add: prunePayloads_def a_get_def Let_def a_io_def a_return_def split: if_splits)
       (auto simp: sheltered_def liveKeyDirectory_def f)
qed

lemma stable_commitGeneration: "stable key q (commitGeneration d key' g dig a)"
  unfolding commitGeneration_def commit_target_def commit_resolved_def commit_rollback_note_def Let_def
  by (auto intro!: stable_then stable_get stable_written stable_plain)

text \<open>The iteration over a directory gives paths below it.\<close>

definition lists_below :: "TargetAgent \<Rightarrow> bool" where
  "lists_below r \<longleftrightarrow> (\<forall>d dir p. p \<in> set (ta_list r d dir) \<longrightarrow> (\<exists>name. p = dir @ ''/'' @ name))"

lemma pointer_sheltered:
  assumes "lists_below r" and "jn_path (ds_journal (ta_store r)) \<noteq> liveKeyDirectory r key @ ''/current''"
  shows "sheltered key (liveKeyDirectory r key @ ''/current'') r"
proof -
  have "liveKeyDirectory r key @ ''/current'' \<noteq> (liveKeyDirectory r key @ ''/payload'') @ ''/'' @ name" for name by simp
  then have "liveKeyDirectory r key @ ''/current'' \<notin> set (ta_list r d (liveKeyDirectory r key @ ''/payload''))" for d
    using assms(1) unfolding lists_below_def by metis
  with assms(2) show ?thesis by (simp add: sheltered_def)
qed

subsection \<open>The durable effect of an activation\<close>

lemma commit_written_Returned:
  assumes "commit_written t ws r = (Returned (), r')"
  shows "\<exists>bs. emit ws = Some bs \<and> agent_apply (agent_state r) t bs = (agent_state r', Inr ())"
  using assms
  by (auto simp: commit_written_def a_written_def a_commit_def DurableStore_commit_def AgentStateCodec_def
      a_result_def a_fail_def a_return_def agent_state_def elim!: a_thenE
      split: option.splits prod.splits sum.splits if_splits)

lemma commit_resolved_Returned:
  assumes "commit_resolved n r = (Returned (), r')"
  shows "agent_state r' = (agent_state r)\<lparr>as_applyPrepared := False, as_preparedDeployment := [],
    as_preparedGeneration := 0, as_preparedDigest := unset_digest, as_activations := n\<rparr>"
proof -
  obtain bs where "emit [w_u64 n] = Some bs"
    and a: "agent_apply (agent_state r) AgentApplyResolved bs = (agent_state r', Inr ())"
    using commit_written_Returned assms unfolding commit_resolved_def by blast
  then have "w_u64 n = Some bs" by (auto simp: codec_dests)
  from u64.get_put [OF TrueI this, of "[]"] a show ?thesis
    by (simp add: agent_apply_def st_read_def st_end_def split: if_splits sum.splits)
qed

text \<open>What the activation watches besides the fences, and the records that leave it alone.\<close>

definition window_of :: "AgentState \<Rightarrow> bool \<times> AppliedFinding list \<times> u64" where
  "window_of s = (as_applyPrepared s, as_findings s, as_activations s)"

lemma window_apply:
  "window_of (fst (agent_apply s AgentTargetCommit bs)) = window_of s"
  "window_of (fst (agent_apply s AgentRollbackNote bs)) = window_of s"
  by (auto simp: window_of_def agent_apply_def st_read_def st_end_def split: sum.splits)

lemma commit_target_Returned:
  assumes "commit_target g d a r = (Returned (), r')" and "length d = 32"
  shows "as_committedGeneration (agent_state r') = g \<and> as_committedDigest (agent_state r') = d
    \<and> window_of (agent_state r') = window_of (agent_state r)"
proof -
  obtain bs where e: "emit [w_u64 g, w_digest d, w_string kMaxIdentifierLength a] = Some bs"
    and a: "agent_apply (agent_state r) AgentTargetCommit bs = (agent_state r', Inr ())"
    using commit_written_Returned assms(1) unfolding commit_target_def by blast
  from fence_of_commit [OF e assms(2), of "agent_state r"] window_apply(1) [of "agent_state r" bs] a
  show ?thesis by (simp add: fence_of_def)
qed

lemma commit_rollback_note_Returned:
  assumes "commit_rollback_note r = (Returned (), r')"
  shows "fence_of (agent_state r') = fence_of (agent_state r) \<and> window_of (agent_state r') = window_of (agent_state r)"
proof -
  obtain bs where "agent_apply (agent_state r) AgentRollbackNote bs = (agent_state r', Inr ())"
    using commit_written_Returned assms unfolding commit_rollback_note_def a_get_def Let_def by blast
  then show ?thesis
    using quiet_apply_fields [of AgentRollbackNote "agent_state r" bs] window_apply(2) [of "agent_state r" bs]
    by (simp add: quiet_records_def)
qed

lemma find_replaced:
  "replace_finding f fs = Some gs \<Longrightarrow> List.find (\<lambda>x. af_key x = af_key f \<and> af_digest x = af_digest f) gs = Some f"
  by (induction fs arbitrary: gs) (auto split: if_splits)

lemma find_last: "\<forall>x\<in>set xs. \<not> P x \<Longrightarrow> P y \<Longrightarrow> List.find P (xs @ [y]) = Some y"
  by (induction xs) auto

lemma find_upserted: "findFinding (s\<lparr>as_findings := upsert_finding f fs\<rparr>) (af_key f) (af_digest f) = Some f"
proof (cases "replace_finding f fs")
  case None
  then have "\<forall>x\<in>set fs. finding_id x \<noteq> finding_id f" by (metis image_eqI replace_finding_None)
  then have "\<forall>x\<in>set (tl fs) \<union> set fs. \<not> (af_key x = af_key f \<and> af_digest x = af_digest f)"
    by (cases fs) (auto simp: finding_id_def)
  then have "List.find (\<lambda>x. af_key x = af_key f \<and> af_digest x = af_digest f)
      ((if kMaxFindingsPerAgent \<le> length fs then tl fs else fs) @ [f]) = Some f"
    by (intro find_last) auto
  then show ?thesis by (simp add: findFinding_def upsert_finding_def None)
qed (simp add: findFinding_def upsert_finding_def find_replaced)

lemma commit_finding_Returned:
  assumes "commit_written AgentFindingUpsert ws r = (Returned (), r')" and "emit ws = writeAppliedFinding f"
    and "applied_ok f"
  shows "agent_state r' = (agent_state r)\<lparr>as_findings := upsert_finding f (as_findings (agent_state r))\<rparr>"
proof -
  obtain bs where "writeAppliedFinding f = Some bs"
    and a: "agent_apply (agent_state r) AgentFindingUpsert bs = (agent_state r', Inr ())"
    using commit_written_Returned [OF assms(1)] assms(2) by auto
  from appliedCodec.get_put [OF assms(3) this(1), of "[]"] a show ?thesis
    by (simp add: agent_apply_def st_read_def st_end_def split: sum.splits)
qed

definition activation_finding :: "TransferRecord \<Rightarrow> int \<Rightarrow> AppliedFinding" where
  "activation_finding t now =
     \<lparr>af_key = xr_key t, af_generation = xr_generation t, af_digest = xr_digest t, af_artifact = xr_artifact t,
      af_deployment = xr_deployment t, af_state = Applied, af_recordedAtMillis = now\<rparr>"

lemma commitGeneration_Returned:
  assumes "commitGeneration (xr_deployment t) (xr_key t) (xr_generation t) (xr_digest t) (xr_artifact t) r = (Returned (), r')"
    and "transfer_sound t"
  shows "as_committedGeneration (agent_state r') = xr_generation t \<and> as_committedDigest (agent_state r') = xr_digest t
    \<and> \<not> as_applyPrepared (agent_state r')
    \<and> (\<exists>now. findFinding (agent_state r') (xr_key t) (xr_digest t) = Some (activation_finding t now))
    \<and> as_activations (agent_state r') =
        (let n = as_activations (agent_state r) + (if as_applyPrepared (agent_state r) then 1 else 0)
         in if n \<noteq> - 1 then n + 1 else n)"
proof -
  have len: "length (xr_digest t) = 32" using assms(2) by (simp add: transfer_sound_def xfer_ok_def)
  obtain u1 r1 u2 r2 now r3 u4 r4 u5 r5 where
    raw1: "a_get (\<lambda>r. if as_applyPrepared (agent_state r) then commit_resolved (as_activations (agent_state r) + 1)
         else a_return ()) r = (Returned u1, r1)"
    and raw2: "commit_target (xr_generation t) (xr_digest t) (xr_artifact t) r1 = (Returned u2, r2)"
    and 3: "a_now r2 = (Returned now, r3)"
    and raw4: "commit_written AgentFindingUpsert
        [w_string kMaxIdentifierLength (xr_key t), w_u64 (xr_generation t), w_digest (xr_digest t),
         w_string kMaxIdentifierLength (xr_artifact t), w_string kMaxIdentifierLength (xr_deployment t),
         w_u8 (deliveryStateValue Applied), w_i64 now] r3 = (Returned u4, r4)"
    and raw5: "a_modify (with_state (\<lambda>s. if as_activations s \<noteq> - 1
         then s\<lparr>as_activations := as_activations s + 1\<rparr> else s)) r4 = (Returned u5, r5)"
    and 6: "commit_rollback_note r5 = (Returned (), r')"
    using assms(1) unfolding commitGeneration_def by (elim a_thenE) (rule that)
  have 1: "(if as_applyPrepared (agent_state r) then commit_resolved (as_activations (agent_state r) + 1)
      else a_return ()) r = (Returned (), r1)" using raw1 by (simp add: a_get_def)
  have 2: "commit_target (xr_generation t) (xr_digest t) (xr_artifact t) r1 = (Returned (), r2)"
    using raw2 by simp
  note 4 = raw4 [unfolded unit_eq [of u4]]
  have 5: "agent_state r5 = (let s = agent_state r4 in if as_activations s \<noteq> - 1
                              then s\<lparr>as_activations := as_activations s + 1\<rparr> else s)"
    using raw5 by (auto simp: a_modify_def Let_def)
  let ?f = "activation_finding t now"
  have ok: "applied_ok ?f"
    using assms(2) a_now_Returned [OF 3]
    by (simp add: applied_ok_def activation_finding_def transfer_sound_def xfer_ok_def)
  have s4: "agent_state r4 = (agent_state r3)\<lparr>as_findings := upsert_finding ?f (as_findings (agent_state r3))\<rparr>"
    using 4 by (rule commit_finding_Returned [OF _ _ ok]) (simp add: writeAppliedFinding_def activation_finding_def)
  have s1: "as_applyPrepared (agent_state r1) = False"
    "as_activations (agent_state r1) = as_activations (agent_state r) + (if as_applyPrepared (agent_state r) then 1 else 0)"
    using 1 commit_resolved_Returned by (auto simp: a_return_def split: if_splits)
  note s2 = commit_target_Returned [OF 2 len] and s3 = a_now_Returned [OF 3]
    and s6 = commit_rollback_note_Returned [OF 6]
  have "findFinding (agent_state r') (xr_key t) (xr_digest t) = Some ?f"
    using s6 5 s4 find_upserted [where s = "agent_state r3" and f = ?f and fs = "as_findings (agent_state r3)"]
    by (simp add: window_of_def findFinding_def Let_def activation_finding_def)
  then show ?thesis
    using s6 5 s4 s3 s2 s1 by (auto simp: window_of_def fence_of_def Let_def)
qed

subsection \<open>An activation that meets no failure succeeds\<close>

text \<open>
  An agent whose calls all succeed, with an intact journal that has room for \<open>k\<close> more records.
\<close>

definition healthy :: "nat \<Rightarrow> TargetAgent \<Rightarrow> bool" where
  "healthy k r \<longleftrightarrow>
     quiet (ta_world r) \<and> \<not> ds_failed (ta_store r) \<and> w_disk (ta_world r) (jn_path (ds_journal (ta_store r))) \<noteq> None
     \<and> unat (jn_lastSequence (ds_journal (ta_store r))) + k < 2 ^ 64
     \<and> 2048 \<le> jn_maxRecordBytes (ds_journal (ta_store r))
     \<and> (\<exists>p. jn_path (ds_journal (ta_store r)) = p @ ''.journal'')"

definition same_paths :: "TargetAgent \<Rightarrow> TargetAgent \<Rightarrow> bool" where
  "same_paths r r' \<longleftrightarrow> ta_liveRoot r' = ta_liveRoot r \<and> ta_options r' = ta_options r
     \<and> jn_path (ds_journal (ta_store r')) = jn_path (ds_journal (ta_store r))"

lemma healthy_less: "healthy k r \<Longrightarrow> k' \<le> k \<Longrightarrow> healthy k' r"
  by (auto simp: healthy_def)

lemma commit_healthy:
  assumes "healthy (Suc k) r" and "t \<noteq> JournalRecordType.Invalid" and "emit ws = Some bs" and "length bs \<le> 2048"
    and "agent_apply (agent_state r) t bs = (s', Inr ())"
  obtains r' where "commit_written t ws r = (Returned (), r')" "healthy k r'" "agent_state r' = s'" "same_paths r r'"
proof -
  let ?j = "ds_journal (ta_store r)"
  obtain content where f: "w_disk (ta_world r) (jn_path ?j) = Some content" using assms(1) by (auto simp: healthy_def)
  have room: "jn_lastSequence ?j \<noteq> - 1" "unat (jn_lastSequence ?j + 1) = Suc (unat (jn_lastSequence ?j))"
  proof -
    show n: "jn_lastSequence ?j \<noteq> - 1" using assms(1) unsigned_minus_1_eq_mask [where 'a = nat and 'b = 64] by (auto simp: healthy_def mask_eq_exp_minus_1)
    show "unat (jn_lastSequence ?j + 1) = Suc (unat (jn_lastSequence ?j))"
      using assms(1) by (simp add: healthy_def unat_word_ariths)
  qed
  have a: "Journal_append ?j t bs (ta_world r) =
    ((Inr (), ?j\<lparr>jn_lastSequence := jn_lastSequence ?j + 1, jn_recordCount := Suc (jn_recordCount ?j)\<rparr>),
     after_ops (record_ops (jn_path ?j) (length content) (next_record ?j t bs)) (ta_world r))"
    using assms(1,2,4) room f by (intro Journal_append_quiet) (auto simp: healthy_def)
  let ?r = "r\<lparr>ta_store := (ta_store r)\<lparr>ds_state := s', ds_journal :=
      ?j\<lparr>jn_lastSequence := jn_lastSequence ?j + 1, jn_recordCount := Suc (jn_recordCount ?j)\<rparr>\<rparr>,
    ta_world := after_ops (record_ops (jn_path ?j) (length content) (next_record ?j t bs)) (ta_world r)\<rparr>"
  have "commit_written t ws r = (Returned (), ?r)"
    using assms a
    by (simp add: commit_written_def a_then_def a_written_def a_commit_def DurableStore_commit_def AgentStateCodec_def
        healthy_def agent_state_def a_result_def a_return_def)
  moreover have "healthy k ?r"
    using assms(1) room f by (auto simp: healthy_def record_ops_def)
  ultimately show thesis
    using that by (simp add: agent_state_def same_paths_def)
qed

lemma commits:
  assumes "healthy (Suc k) r" and "t \<noteq> JournalRecordType.Invalid"
    and "\<exists>bs s'. emit ws = Some bs \<and> length bs \<le> 2048 \<and> agent_apply (agent_state r) t bs = (s', Inr ())"
  shows "\<exists>r'. commit_written t ws r = (Returned (), r') \<and> healthy k r'"
  using assms commit_healthy by metis

lemma w_string_bound:
  "optionalIdentifier a \<Longrightarrow> \<exists>w. w_string kMaxIdentifierLength a = Some w \<and> length w \<le> 132"
  using optionalIdentifier_length [of a]
  by (simp add: w_string_def emit.simps w_u32_def w_bytes_def string_bytes_def kMaxIdentifierLength_def
      kAbsoluteMaxFieldBytes_def)

lemma read_back:
  "w_u64 n = Some w \<Longrightarrow> r_u64 (w @ rest) = Inr (n, rest)"
  "w_digest d = Some w \<Longrightarrow> length d = 32 \<Longrightarrow> readDigestField (w @ rest) = Inr (d, rest)"
  "w_string kMaxIdentifierLength a = Some w \<Longrightarrow> optionalIdentifier a \<Longrightarrow> readOptionalArtifactId (w @ rest) = Inr (a, rest)"
  using u64.get_put [of n w rest] digest.get_put [of d w rest] optionalId.narrowed.get_put [of a w rest]
  by (simp_all add: readDigestField_def readOptionalArtifactId_def)

lemma w_u64_length: "w_u64 n = Some w \<Longrightarrow> length w = 8"
  by (auto simp: w_u64_def)

lemma end_ok [simp]: "st_end [] s = (s, Inr ())"
  by (simp add: st_end_def r_requireEnd_def)

lemma resolved_succeeds:
  "\<exists>bs s'. emit [w_u64 n] = Some bs \<and> length bs \<le> 2048 \<and> agent_apply s AgentApplyResolved bs = (s', Inr ())"
proof -
  obtain w where w: "w_u64 n = Some w" by (simp add: w_u64_def)
  then show ?thesis
    using read_back(1) [OF w, of "[]"] w_u64_length [OF w]
    by (simp add: emit.simps agent_apply_def st_read_def)
qed

lemma target_succeeds:
  assumes "length d = 32" and "optionalIdentifier a"
  shows "\<exists>bs s'. emit [w_u64 g, w_digest d, w_string kMaxIdentifierLength a] = Some bs \<and> length bs \<le> 2048
      \<and> agent_apply s AgentTargetCommit bs = (s', Inr ())"
proof -
  obtain w1 w2 where w: "w_u64 g = Some w1" "w_digest d = Some w2" "length w2 = 32"
    using assms(1) by (simp add: w_u64_def w_digest_def w_bytes_def)
  obtain w3 where w3: "w_string kMaxIdentifierLength a = Some w3" "length w3 \<le> 132"
    using w_string_bound [OF assms(2)] by blast
  show ?thesis
    using w w3 w_u64_length [OF w(1)] read_back(1) [OF w(1), of "w2 @ w3"] read_back(2) [OF w(2) assms(1), of w3]
      read_back(3) [OF w3(1) assms(2), of "[]"]
    by (simp add: emit.simps agent_apply_def st_read_def)
qed

lemma note_succeeds:
  "\<exists>bs s'. emit [w_u64 n1, w_u64 n2, w_u64 n3, w_u64 n4] = Some bs \<and> length bs \<le> 2048
      \<and> agent_apply s AgentRollbackNote bs = (s', Inr ())"
proof -
  obtain w1 w2 w3 w4 where w: "w_u64 n1 = Some w1" "w_u64 n2 = Some w2" "w_u64 n3 = Some w3" "w_u64 n4 = Some w4"
    by (simp add: w_u64_def)
  show ?thesis
    using w w [THEN w_u64_length] read_back(1) [OF w(1), of "w2 @ w3 @ w4"] read_back(1) [OF w(2), of "w3 @ w4"]
      read_back(1) [OF w(3), of w4] read_back(1) [OF w(4), of "[]"]
    by (simp add: emit.simps agent_apply_def st_read_def)
qed

lemma finding_succeeds:
  assumes "applied_ok f"
  shows "\<exists>bs s'. writeAppliedFinding f = Some bs \<and> length bs \<le> 2048
      \<and> agent_apply s AgentFindingUpsert bs = (s', Inr ())"
proof -
  have ids: "optionalIdentifier (af_key f)" "optionalIdentifier (af_artifact f)" "optionalIdentifier (af_deployment f)"
    and d: "length (af_digest f) = 32"
    using assms by (auto simp: applied_ok_def intro: optionalIdentifierI)
  obtain bs where bs: "writeAppliedFinding f = Some bs" "length bs \<le> 2048"
    using w_string_bound [OF ids(1)] w_string_bound [OF ids(2)] w_string_bound [OF ids(3)] d
    by (auto simp: writeAppliedFinding_def emit.simps w_u64_def w_digest_def w_bytes_def w_u8_def w_i64_def)
  from appliedCodec.get_put [OF assms bs(1), of "[]"] bs show ?thesis
    by (simp add: agent_apply_def st_read_def)
qed

lemma healthy_world:
  assumes "healthy k r" and "quiet w" and "w_disk w (jn_path (ds_journal (ta_store r))) \<noteq> None"
  shows "healthy k (r\<lparr>ta_world := w\<rparr>)"
  using assms by (simp add: healthy_def)

lemma temp_not_journal: "path @ ''.part-'' @ toHex bs \<noteq> p @ ''.journal''"
proof
  assume "path @ ''.part-'' @ toHex bs = p @ ''.journal''"
  then have "last (path @ ''.part-'' @ toHex bs) = last (p @ ''.journal'')" by (rule arg_cong)
  then have "last (''.part-'' @ toHex bs) = CHR ''l''" by simp
  moreover have "nibble CHR ''l'' = None" by code_simp
  then have "CHR ''l'' \<notin> set (toHex bs)"
    using nibble_hex_digit_word by (force simp: toHex_def)
  ultimately show False by (cases "toHex bs = []") (auto dest: last_in_set)
qed

text \<open>An atomic write to a file other than the journal succeeds and keeps the agent healthy.\<close>

lemma write_healthy:
  assumes "healthy k r" and "path \<noteq> jn_path (ds_journal (ta_store r))"
  obtains w where "a_io (writeFileAtomic path content) r = (Returned (Inr ()), r\<lparr>ta_world := w\<rparr>)"
    "healthy k (r\<lparr>ta_world := w\<rparr>)"
proof -
  let ?w = "ta_world r" and ?p = "jn_path (ds_journal (ta_store r))"
  have q: "quiet ?w" and d: "w_disk ?w ?p \<noteq> None" using assms(1) by (auto simp: healthy_def)
  have "?p \<noteq> temp_path ?w path"
    using assms(1) temp_not_journal by (auto simp: healthy_def temp_path_def)
  then have "w_disk (after_ops (atomic_ops ?w path content) (?w\<lparr>w_draws := Suc (w_draws ?w)\<rparr>)) ?p \<noteq> None"
    using d assms(2) by (auto simp: atomic_ops_result)
  then show thesis
    using healthy_world [OF assms(1), of "after_ops (atomic_ops ?w path content) (?w\<lparr>w_draws := Suc (w_draws ?w)\<rparr>)"] q
    by (intro that) (simp_all add: a_io_def writeFileAtomic_quiet, simp add: quiet_def)
qed

lemma same_paths_trans: "same_paths r s \<Longrightarrow> same_paths s t \<Longrightarrow> same_paths r t"
  by (simp add: same_paths_def)

lemma commitGeneration_succeeds:
  assumes "healthy 4 r" and "transfer_sound t"
  shows "\<exists>r'. commitGeneration (xr_deployment t) (xr_key t) (xr_generation t) (xr_digest t) (xr_artifact t) r = (Returned (), r')
    \<and> quiet (ta_world r')"
proof -
  have t: "length (xr_digest t) = 32" "optionalIdentifier (xr_artifact t)"
    using assms(2) by (auto simp: transfer_sound_def xfer_ok_def)
  obtain r1 where 1: "a_get (\<lambda>r. if as_applyPrepared (agent_state r) then commit_resolved (as_activations (agent_state r) + 1)
      else a_return ()) r = (Returned (), r1)" and h1: "healthy 3 r1"
  proof (cases "as_applyPrepared (agent_state r)")
    case True
    have "\<exists>r1. commit_written AgentApplyResolved [w_u64 (as_activations (agent_state r) + 1)] r = (Returned (), r1) \<and> healthy 3 r1"
      using assms(1) by (intro commits resolved_succeeds) simp_all
    then show thesis using that True by (auto simp: a_get_def commit_resolved_def)
  next
    case False
    moreover have "healthy 3 r" by (rule healthy_less [OF assms(1)]) simp
    ultimately show thesis using that by (simp add: a_get_def a_return_def)
  qed
  have "\<exists>r2. commit_target (xr_generation t) (xr_digest t) (xr_artifact t) r1 = (Returned (), r2) \<and> healthy 2 r2"
    unfolding commit_target_def using h1 t by (intro commits target_succeeds) simp_all
  then obtain r2 where 2: "commit_target (xr_generation t) (xr_digest t) (xr_artifact t) r1 = (Returned (), r2)" and h2: "healthy 2 r2"
    by blast
  obtain now r3 where 3: "a_now r2 = (Returned now, r3)" and h3: "healthy 2 r3"
    using h2 by (auto simp: a_now_def healthy_def)
  have ok: "applied_ok (activation_finding t now)"
    using assms(2) a_now_Returned [OF 3] by (simp add: applied_ok_def activation_finding_def transfer_sound_def xfer_ok_def)
  let ?ws = "[w_string kMaxIdentifierLength (xr_key t), w_u64 (xr_generation t), w_digest (xr_digest t),
         w_string kMaxIdentifierLength (xr_artifact t), w_string kMaxIdentifierLength (xr_deployment t),
         w_u8 (deliveryStateValue Applied), w_i64 now]"
  have "\<exists>r4. commit_written AgentFindingUpsert ?ws r3 = (Returned (), r4) \<and> healthy 1 r4"
    using h3 finding_succeeds [OF ok, of "agent_state r3"]
    by (intro commits) (simp_all add: writeAppliedFinding_def activation_finding_def numeral_2_eq_2)
  then obtain r4 where 4: "commit_written AgentFindingUpsert ?ws r3 = (Returned (), r4)" and h4: "healthy 1 r4" by blast
  obtain r5 where 5: "a_modify (with_state (\<lambda>s. if as_activations s \<noteq> - 1
      then s\<lparr>as_activations := as_activations s + 1\<rparr> else s)) r4 = (Returned (), r5)" and h5: "healthy 1 r5"
    using h4 by (auto simp: a_modify_def with_state_def healthy_def)
  have "\<exists>r6. commit_rollback_note r5 = (Returned (), r6) \<and> healthy 0 r6"
    unfolding commit_rollback_note_def a_get_def Let_def
    using h5 by (intro commits note_succeeds) simp_all
  then obtain r6 where 6: "commit_rollback_note r5 = (Returned (), r6)" and h6: "healthy 0 r6" by blast
  show ?thesis
    using 1 2 3 4 5 6 h6 by (auto simp: commitGeneration_def a_then_def healthy_def)
qed

lemma a_then_eq: "m r = (Returned x, r') \<Longrightarrow> a_then m k r = k x r'"
  by (simp add: a_then_def)

lemma prune_returns: "\<exists>r'. prunePayloads key r = (Returned (), r')"
  by (auto simp: prunePayloads_def a_get_def Let_def a_return_def a_io_def)

lemma activate_returns:
  assumes "healthy 4 r" and "transfer_sound t" and "explicit \<Longrightarrow> as_applyPrepared (agent_state r)"
    and "\<not> FaultPlan_armed (ao_faults (ta_options r)) kBeforeCommit"
    and "\<not> FaultPlan_armed (ao_faults (ta_options r)) kAfterSwitch"
    and "jn_path (ds_journal (ta_store r)) \<noteq> liveKeyDirectory r (xr_key t) @ ''/current''"
    and "jn_path (ds_journal (ta_store r)) \<noteq> liveKeyDirectory r (xr_key t) @ ''/pending''"
  shows "\<exists>r'. activate t explicit r = (Returned (), r')"
proof -
  let ?current = "liveKeyDirectory r (xr_key t) @ ''/current''" and ?pending = "liveKeyDirectory r (xr_key t) @ ''/pending''"
  let ?marker = "string_bytes (pointerText (xr_generation t) (xr_digest t) (xr_artifact t))"
  obtain w where 3: "a_io (writeFileAtomic ?current ?marker) r = (Returned (Inr ()), r\<lparr>ta_world := w\<rparr>)"
    and h3: "healthy 4 (r\<lparr>ta_world := w\<rparr>)"
    by (rule write_healthy [OF assms(1) assms(6) [symmetric]])
  let ?r3 = "r\<lparr>ta_world := w\<rparr>"
  obtain u w' where rm: "fs_remove ?pending w = (u, w')" by fastforce
  have "quiet w" using h3 by (simp add: healthy_def)
  then have "quiet w'" using rm by (auto simp: fs_remove_def os_quiet split: option.splits)
  moreover have "w_disk w' (jn_path (ds_journal (ta_store r))) \<noteq> None"
    using fs_remove_disk [OF rm assms(7)] h3 by (simp add: healthy_def)
  ultimately have h4: "healthy 4 (r\<lparr>ta_world := w'\<rparr>)" by (rule healthy_world [OF assms(1)])
  obtain r4 where 4: "(if explicit then a_then (a_io (fs_remove ?pending)) (\<lambda>_. a_return ()) else a_return ()) ?r3 = (Returned (), r4)"
    and h: "healthy 4 r4" and f: "ta_options r4 = ta_options r"
    using that h3 h4 rm by (cases explicit) (auto simp: a_then_def a_io_def a_return_def)
  obtain r6 where 6: "commitGeneration (xr_deployment t) (xr_key t) (xr_generation t) (xr_digest t) (xr_artifact t) r4 = (Returned (), r6)"
    using commitGeneration_succeeds [OF h assms(2)] by blast
  obtain r7 where 7: "prunePayloads (xr_key t) r6 = (Returned (), r7)" using prune_returns by blast
  have p: "\<not> (explicit \<and> \<not> as_applyPrepared (agent_state r))" using assms(3) by blast
  have written: "a_then (a_io (writeFileAtomic ?current ?marker)) a_result r = (Returned (), ?r3)"
    by (simp add: a_then_eq 3 a_result_def a_return_def)
  have no_fault: "a_faulty kBeforeCommit 77 r = (Returned (), r)" "a_faulty kAfterSwitch 78 r4 = (Returned (), r4)"
    using assms(4,5) f by (simp_all add: a_faulty_def)
  have "activate t explicit r = (Returned (), r7)"
    unfolding activate_def a_get_def Let_def if_not_P [OF p]
    by (simp only: a_then_eq a_return_def no_fault written 4 6 7)
  then show ?thesis by blast
qed

text \<open>
  C8: An activation that meets no failure completes. When the calls of the operating system succeed, the
  journal has room for its records, no fault is injected, and a target with a prepare window has opened
  it, the activation of a sound transfer returns successfully.
\<close>

theorem activation_completes:
  assumes "healthy 4 r" and "transfer_sound t" and "explicit \<Longrightarrow> as_applyPrepared (agent_state r)"
    and "ao_faults (ta_options r) = []"
    and "jn_path (ds_journal (ta_store r)) \<notin> {liveKeyDirectory r (xr_key t) @ ''/current'', liveKeyDirectory r (xr_key t) @ ''/pending''}"
  shows "\<exists>r'. activate t explicit r = (Returned (), r')"
  using assms by (intro activate_returns) (auto simp: FaultPlan_armed_def)

definition healthy_agent :: TargetAgent where
  "healthy_agent = (example_agent example_state)\<lparr>ta_world := empty_world\<lparr>w_disk := [''d/agent.journal'' \<mapsto> []]\<rparr>,
     ta_list := \<lambda>_ dir. [dir @ ''/current'', dir @ ''/old'']\<rparr>"

lemma healthy_agent_ok:
  "healthy 4 healthy_agent" "transfer_sound example_transfer"
  "lists_below healthy_agent" "ta_list healthy_agent (w_disk (ta_world healthy_agent)) ''d/live/app'' = [''d/live/app/current'', ''d/live/app/old'']"
  "jn_path (ds_journal (ta_store healthy_agent)) = ''d/agent.journal''"
  "liveKeyDirectory healthy_agent ''app'' = ''d/live/app''"
  "ao_faults (ta_options healthy_agent) = []" "xr_key example_transfer = ''app''"
proof -
  have "''d/agent.journal'' = ''d/agent'' @ ''.journal''" by simp
  then have "\<exists>p. ''d/agent.journal'' = p @ ''.journal''" by blast
  then show "healthy 4 healthy_agent"
    by (simp add: healthy_def healthy_agent_def example_agent_def empty_world_def quiet_def open_journal_def
        segment_start_def kMaxJournalRecordBytes_def)
  show "transfer_sound example_transfer" by code_simp
qed (simp_all add: healthy_agent_def example_agent_def lists_below_def liveKeyDirectory_def open_journal_def
    example_transfer_def)

theorem activation_completes_witness:
  "\<exists>r'. activate example_transfer False healthy_agent = (Returned (), r')"
  by (rule activation_completes [OF healthy_agent_ok(1,2)])
     (simp_all add: healthy_agent_ok(5-8))

text \<open>
  C9: What an activation leaves behind. When the activation of a sound transfer succeeds, its generation
  and digest are committed, no prepare window is open, the activation is recorded as a finding for its
  key and digest, and the live pointer of its key holds exactly the text of that generation, whichever
  calls of the operating system failed on the way. The transfer's identifiers, digest and progress are consistent; an
  explicit commit comes with an open prepare window, listing a directory gives only paths below it, and the journal is
  not the pointer file. The record of a resolved window adds one to the count of activations (wrapping around), and the
  activation adds one more unless the count is then the largest 64-bit value: an activation that resolves a window
  counts twice.
\<close>

theorem activation_effect:
  assumes "activate t explicit r = (Returned (), r')" and "transfer_sound t"
    and "explicit \<Longrightarrow> as_applyPrepared (agent_state r)"
    and "lists_below r" and "jn_path (ds_journal (ta_store r)) \<noteq> liveKeyDirectory r (xr_key t) @ ''/current''"
  shows "as_committedGeneration (agent_state r') = xr_generation t \<and> as_committedDigest (agent_state r') = xr_digest t
    \<and> \<not> as_applyPrepared (agent_state r')
    \<and> (\<exists>now. findFinding (agent_state r') (xr_key t) (xr_digest t) = Some (activation_finding t now))
    \<and> as_activations (agent_state r') =
        (let n = as_activations (agent_state r) + (if as_applyPrepared (agent_state r) then 1 else 0)
         in if n \<noteq> - 1 then n + 1 else n)
    \<and> w_disk (ta_world r') (liveKeyDirectory r (xr_key t) @ ''/current'') =
        Some (string_bytes (pointerText (xr_generation t) (xr_digest t) (xr_artifact t)))"
proof -
  let ?current = "liveKeyDirectory r (xr_key t) @ ''/current''" and ?pending = "liveKeyDirectory r (xr_key t) @ ''/pending''"
  let ?marker = "string_bytes (pointerText (xr_generation t) (xr_digest t) (xr_artifact t))"
  obtain u1 r1 u2 r2 st ra u3 r3 u4 r4 u5 r5 u6 r6 where
    1: "(if explicit \<and> \<not> as_applyPrepared (agent_state r)
         then a_then (a_then (a_io (writeFileAtomic ?pending ?marker)) a_result) (\<lambda>_. commit_prepared t)
         else a_return ()) r = (Returned u1, r1)"
    and 2: "a_faulty kBeforeCommit 77 r1 = (Returned u2, r2)"
    and 3: "a_io (writeFileAtomic ?current ?marker) r2 = (Returned st, ra)" "a_result st ra = (Returned u3, r3)"
    and 4: "(if explicit then a_then (a_io (fs_remove ?pending)) (\<lambda>_. a_return ()) else a_return ()) r3 = (Returned u4, r4)"
    and 5: "a_faulty kAfterSwitch 78 r4 = (Returned u5, r5)"
    and raw6: "commitGeneration (xr_deployment t) (xr_key t) (xr_generation t) (xr_digest t) (xr_artifact t) r5 = (Returned u6, r6)"
    and 7: "prunePayloads (xr_key t) r6 = (Returned (), r')"
    using assms(1) unfolding activate_def a_get_def Let_def by (elim a_thenE) (rule that)
  have 6: "commitGeneration (xr_deployment t) (xr_key t) (xr_generation t) (xr_digest t) (xr_artifact t) r5 = (Returned (), r6)"
    using raw6 by simp
  have r2: "r2 = r" using 1 2 assms(3) by (auto simp: a_return_def a_faulty_def split: if_splits)
  have w: "w_disk (ta_world r3) ?current = Some ?marker" "agent_state r3 = agent_state r" "sheltered (xr_key t) ?current r3"
    using 3 pointer_sheltered [OF assms(4,5)] unfolding r2
    by (auto simp: agent_state_def sheltered_def liveKeyDirectory_def a_io_def dest!: a_result_Returned intro: writeFileAtomic_Inr
        split: prod.splits)
  have leave: "leaves ?current (fs_remove ?pending)" 
    by (rule leaves_remove) simp
  have s4: "stable (xr_key t) ?current (if explicit then a_then (a_io (fs_remove ?pending)) (\<lambda>_. a_return ()) else a_return ())"
    using leave by (auto intro!: stable_then stable_io stable_plain)
  have w4: "w_disk (ta_world r4) ?current = Some ?marker" "sheltered (xr_key t) ?current r4"
    using s4 4 w unfolding stable_def by metis+
  have r4: "agent_state r4 = agent_state r" "r5 = r4"
    using 4 5 w(2) by (auto simp: a_return_def a_faulty_def dest: a_io_Returned elim!: a_thenE split: if_splits)
  have w6: "w_disk (ta_world r6) ?current = Some ?marker" "sheltered (xr_key t) ?current r6"
    using stable_commitGeneration 6 w4 unfolding stable_def r4(2) by metis+
  have "w_disk (ta_world r') ?current = Some ?marker"
    using stable_prunePayloads 7 w6 unfolding stable_def by metis
  moreover have "agent_state r' = agent_state r6"
    using 7 by (auto simp: prunePayloads_def a_get_def Let_def a_return_def dest: a_io_Returned split: if_splits)
  ultimately show ?thesis
    using commitGeneration_Returned [OF 6 assms(2)] unfolding r4 by simp
qed

theorem activation_effect_witness:
  "\<exists>r'. activate example_transfer False healthy_agent = (Returned (), r')
     \<and> as_committedGeneration (agent_state r') = 7
     \<and> w_disk (ta_world r') ''d/live/app/current'' = Some (string_bytes (pointerText 7 (replicate 32 1) ''art''))"
proof -
  have "\<exists>r'. activate example_transfer False healthy_agent = (Returned (), r')"
    by (rule activate_returns [OF healthy_agent_ok(1,2)])
       (simp_all add: healthy_agent_ok(5-8) FaultPlan_armed_def)
  then obtain r' where a: "activate example_transfer False healthy_agent = (Returned (), r')" by blast
  from activation_effect [OF a healthy_agent_ok(2)] a show ?thesis
    using healthy_agent_ok(3,5,6,8) by (simp add: example_transfer_def)
qed

end
