(* ===== verification/AgentRestart.thy ===== *)
theory AgentRestart
  imports AgentActivation
begin

text \<open>
  What opening an agent makes of the live area: a switch that was interrupted before its record is adopted,
  and after a recovery that verifies payloads a committed generation is that of a pointer whose payload
  is on disk with the right digest, unless no directory had anything to read, in which case the recorded
  commit is kept as it was.
\<close>

lemma clear_commit_Returned:
  "clear_commit r = (Returned (), r') \<Longrightarrow> as_committedGeneration (agent_state r') = 0"
  unfolding clear_commit_def using commit_target_Returned [of 0 unset_digest "[]" r r'] by simp

subsection \<open>Adopting an interrupted switch\<close>

lemma pointerText_length:
  assumes "length d = 32" and "optionalIdentifier a"
  shows "length (pointerText g d a) \<le> kMaxLiveValueBytes"
  using assms to_string_length_u64 [of g] optionalIdentifier_length [OF assms(2)]
  by (simp add: pointerText_def kMaxLiveValueBytes_def kMaxIdentifierLength_def Digest_hex_def)

lemma target_commits:
  assumes "healthy (Suc k) r" and "length d = 32" and "optionalIdentifier a"
  shows "\<exists>r'. commit_target g d a r = (Returned (), r') \<and> healthy k r'
    \<and> as_committedGeneration (agent_state r') = g \<and> as_committedDigest (agent_state r') = d
    \<and> window_of (agent_state r') = window_of (agent_state r)"
proof -
  have "\<exists>r'. commit_target g d a r = (Returned (), r') \<and> healthy k r'"
    unfolding commit_target_def using assms by (intro commits target_succeeds) simp_all
  then show ?thesis using commit_target_Returned [OF _ assms(2)] by blast
qed

lemma hashStagingFile_quiet:
  "quiet w \<Longrightarrow> w_disk w path = Some c \<Longrightarrow> length c < 2 ^ 64 \<Longrightarrow> hashStagingFile path 0 w = (Inr (sha256 c), w)"
  using Sha256_stream_correct [of "file_blocks (64 * 1024) c"]
  by (simp add: hashStagingFile_def os_quiet concat_file_blocks sha256_eq_spec foldl_conv_fold)

text \<open>
  A target that stopped after the switch of its live pointer and before the record of it: the pointer of
  a key directory names a generation whose payload is on disk and verified, with no prepare marker.
\<close>

definition switched :: "string \<Rightarrow> Generation \<Rightarrow> Digest \<Rightarrow> ArtifactId \<Rightarrow> disk \<Rightarrow> bool" where
  "switched directory g d a disk \<longleftrightarrow>
     disk (directory @ ''/current'') = Some (string_bytes (pointerText g d a))
     \<and> disk (directory @ ''/pending'') = None
     \<and> (\<exists>c. disk (payloadPath directory g d) = Some c \<and> sha256 c = d \<and> length c < 2 ^ 64)"

lemma recover_commit_adopts:
  assumes "healthy (Suc k) r" and "length d = 32" and "optionalIdentifier a"
    and "w_disk (ta_world r) (payloadPath directory g d) = Some c" "sha256 c = d" "length c < 2 ^ 64"
  shows "\<exists>v' r'. recover_commit directory (Some \<lparr>pv_generation = g, pv_digest = d, pv_artifact = a\<rparr>) v r = (Returned v', r')
    \<and> as_committedGeneration (agent_state r') = g \<and> as_committedDigest (agent_state r') = d
    \<and> window_of (agent_state r') = window_of (agent_state r)
    \<and> ((as_committedGeneration (agent_state r), as_committedDigest (agent_state r)) \<noteq> (g, d) \<longrightarrow> lr_adoptedCompletedSwitch v')"
proof -
  have "quiet (ta_world r)" using assms(1) by (simp add: healthy_def)
  then have h: "hashStagingFile (payloadPath directory g d) 0 (ta_world r) = (Inr d, ta_world r)"
    using hashStagingFile_quiet assms(4-6) by simp
  obtain r' where c: "commit_target g d a r = (Returned (), r')" "as_committedGeneration (agent_state r') = g"
    "as_committedDigest (agent_state r') = d" "window_of (agent_state r') = window_of (agent_state r)"
    using target_commits [OF assms(1-3)] by blast
  have h': "a_io (hashStagingFile (payloadPath directory g d) 0) r = (Returned (Inr d), r)"
    by (simp add: a_io_def h)
  show ?thesis
  proof (cases "ao_verifyCommittedPayloadOnStart (ta_options r)")
    case True
    then show ?thesis
      using c by (auto simp: recover_commit_def a_get_def Let_def a_then_eq h' a_return_def lr_append_def)
  next
    case False
    then show ?thesis
      using c by (auto simp: recover_commit_def a_get_def Let_def a_then_eq a_return_def lr_append_def)
  qed
qed

text \<open>
  An interrupted switch is adopted. When recovery meets a switched key directory and the calls of
  the operating system succeed, it returns with the generation and the digest of the live pointer
  committed, and reports an adopted switch unless they were recorded already.
\<close>

theorem interrupted_switch_adopted:
  assumes "healthy 1 r" and "switched directory g d a (w_disk (ta_world r))"
    and "optionalIdentifier a" and "path_filename directory \<noteq> ''payload''"
  shows "\<exists>v' r'. recover_directory directory v r = (Returned (False, v'), r')
    \<and> as_committedGeneration (agent_state r') = g \<and> as_committedDigest (agent_state r') = d
    \<and> window_of (agent_state r') = window_of (agent_state r)
    \<and> ((as_committedGeneration (agent_state r), as_committedDigest (agent_state r)) \<noteq> (g, d) \<longrightarrow> lr_adoptedCompletedSwitch v')"
proof -
  obtain c where disk: "w_disk (ta_world r) (directory @ ''/current'') = Some (string_bytes (pointerText g d a))"
    "w_disk (ta_world r) (directory @ ''/pending'') = None"
    "w_disk (ta_world r) (payloadPath directory g d) = Some c" "sha256 c = d" "length c < 2 ^ 64"
    using assms(2) by (auto simp: switched_def)
  have len: "length d = 32" using disk(4) by auto
  have q: "quiet (ta_world r)" using assms(1) by (simp add: healthy_def)
  have probe: "a_io (fs_probe p) r = (Returned (False, w_disk (ta_world r) p \<noteq> None), r)" for p
    using q by (simp add: a_io_def fs_probe_def os_quiet)
  have read: "recover_pointer directory v r = (Returned (Some \<lparr>pv_generation = g, pv_digest = d, pv_artifact = a\<rparr>, v), r)"
    using q disk(1) pointerText_length [OF len assms(3), of g] pointer_text_read [OF len assms(3), of g]
    by (simp add: recover_pointer_def a_then_def a_io_def a_return_def readLiveValue_def readFileBounded_quiet
        string_bytes_def [symmetric])
  obtain v' r' where c: "recover_commit directory (Some \<lparr>pv_generation = g, pv_digest = d, pv_artifact = a\<rparr>) v r = (Returned v', r')"
    "as_committedGeneration (agent_state r') = g" "as_committedDigest (agent_state r') = d"
    "window_of (agent_state r') = window_of (agent_state r)"
    "(as_committedGeneration (agent_state r), as_committedDigest (agent_state r)) \<noteq> (g, d) \<longrightarrow> lr_adoptedCompletedSwitch v'"
    using recover_commit_adopts [of 0 r d a directory g c v] assms(1,3) disk len by auto
  then show ?thesis
    using assms(4) disk(1,2)
    by (auto simp: recover_directory_def a_then_eq probe read a_return_def)
qed

text \<open>An agent that restarts on a switched directory.\<close>

definition switched_digest :: Digest where
  "switched_digest = sha256 [1, 2]"

definition switched_agent :: TargetAgent where
  "switched_agent = (example_agent (example_state\<lparr>as_transfers := []\<rparr>))\<lparr>ta_tree := \<lambda>_ root. [root @ ''/app''], ta_world := empty_world\<lparr>w_disk :=
     [''d/agent.journal'' \<mapsto> [], ''d/live/app/current'' \<mapsto> string_bytes (pointerText 8 switched_digest ''art''),
      payloadPath ''d/live/app'' 8 switched_digest \<mapsto> [1, 2]]\<rparr>\<rparr>"

lemma switched_agent_ok:
  "healthy 1 switched_agent" "switched ''d/live/app'' 8 switched_digest ''art'' (w_disk (ta_world switched_agent))"
  "optionalIdentifier ''art''" "path_filename ''d/live/app'' \<noteq> ''payload''"
  "ao_verifyCommittedPayloadOnStart (ta_options switched_agent)" "length switched_digest = 32"
proof -
  have "''d/agent.journal'' = ''d/agent'' @ ''.journal''" by simp
  then have "\<exists>p. ''d/agent.journal'' = p @ ''.journal''" by blast
  then show "healthy 1 switched_agent"
    by (simp add: healthy_def switched_agent_def example_agent_def empty_world_def quiet_def open_journal_def
        segment_start_def kMaxJournalRecordBytes_def)
  show "switched ''d/live/app'' 8 switched_digest ''art'' (w_disk (ta_world switched_agent))"
    by (simp add: switched_def switched_agent_def payloadPath_def switched_digest_def)
  show "optionalIdentifier ''art''" by code_simp
  show "path_filename ''d/live/app'' \<noteq> ''payload''" by code_simp
qed (simp_all add: switched_agent_def example_agent_def switched_digest_def)

theorem interrupted_switch_adopted_witness:
  "\<exists>v' r'. recover_directory ''d/live/app'' emptyLiveRecovery switched_agent = (Returned (False, v'), r')
    \<and> as_committedGeneration (agent_state r') = 8 \<and> as_committedDigest (agent_state r') = switched_digest"
  using interrupted_switch_adopted [OF switched_agent_ok(1-4)] by blast

subsection \<open>The whole recovery\<close>

text \<open>
  What the steps of the recovery around a commit keep: the settings of the agent, an operating system that lets every
  call succeed, the commit when \<open>C\<close> holds, and the files of \<open>Q\<close> that are not the journal.
\<close>

abbreviation journal_path :: "TargetAgent \<Rightarrow> string" where
  "journal_path r \<equiv> jn_path (ds_journal (ta_store r))"

definition settings :: "TargetAgent \<Rightarrow> AgentOptions \<times> (disk \<Rightarrow> string \<Rightarrow> string list) \<times> string \<times> string" where
  "settings r = (ta_options r, ta_tree r, ta_liveRoot r, journal_path r)"

definition commit_of :: "TargetAgent \<Rightarrow> Generation \<times> Digest" where
  "commit_of r = (as_committedGeneration (agent_state r), as_committedDigest (agent_state r))"

definition steady :: "bool \<Rightarrow> string set \<Rightarrow> TargetAgent \<Rightarrow> TargetAgent \<Rightarrow> bool" where
  "steady C Q r r' \<longleftrightarrow>
     settings r' = settings r \<and> (quiet (ta_world r) \<longrightarrow> quiet (ta_world r')) \<and> (C \<longrightarrow> commit_of r' = commit_of r)
     \<and> (\<forall>q\<in>Q. q \<noteq> journal_path r \<longrightarrow> w_disk (ta_world r') q = w_disk (ta_world r) q)"

interpretation st: action_relation "steady C Q" for C Q
  by unfold_locales (auto simp: steady_def settings_def)

lemma steady_subset: "steady C Q r r' \<Longrightarrow> (C' \<Longrightarrow> C) \<Longrightarrow> Q' \<subseteq> Q \<Longrightarrow> steady C' Q' r r'"
  by (auto simp: steady_def)

lemma steady_io: "(\<And>q. q \<in> Q \<Longrightarrow> leaves q m) \<Longrightarrow> (\<And>w x w'. m w = (x, w') \<Longrightarrow> quiet w \<Longrightarrow> quiet w') \<Longrightarrow> st.at C Q r (a_io m)"
  by (auto simp: st.at_def steady_def settings_def commit_of_def agent_state_def leaves_def a_io_def split: prod.splits)

lemma steady_commit_written:
  assumes "C \<Longrightarrow> \<forall>s bs. fence_of (fst (agent_apply s t bs)) = fence_of s"
  shows "st.at C Q r (commit_written t ws)"
proof -
  have "st.at C Q s (a_commit t payload)" for payload s
    unfolding st.at_def
  proof (intro allI impI)
    fix x s' assume run: "a_commit t payload s = (x, s')"
    have "leaves q (Journal_append (ds_journal (ta_store s)) t payload)" if "q \<noteq> journal_path s" for q
      using that by (rule leaves_append)
    moreover have "\<exists>q. q \<noteq> journal_path s" by (metis not_Cons_self2)
    moreover have "C \<Longrightarrow> fence_of (fst (agent_apply (ds_state (ta_store s)) t payload)) = fence_of (ds_state (ta_store s))"
      using assms by blast
    ultimately show "steady C Q s s'"
      using run
      by (fastforce simp: steady_def settings_def commit_of_def fence_of_def agent_state_def a_commit_def DurableStore_commit_def
          AgentStateCodec_def a_result_def a_fail_def a_return_def leaves_def dest: append_path
          split: prod.splits sum.splits if_splits)
  qed
  then show ?thesis unfolding commit_written_def by (intro st.at_then st.at_pure)
qed

lemma fence_kept:
  "t \<in> {AgentRollbackNote, AgentApplyResolved, AgentTransferRemove, AgentTransferUpsert} \<Longrightarrow>
     fence_of (fst (agent_apply s t bs)) = fence_of s"
  by (auto simp: agent_apply_def fence_of_def st_read_def st_end_def split: sum.splits)

lemma steady_records:
  "st.at C Q r commit_rollback_note" "st.at C Q r (commit_resolved n)" "st.at C Q r (checkpointTransfer t)"
  "st.at C Q r (commit_written AgentTransferRemove ws)"
  unfolding commit_rollback_note_def commit_resolved_def checkpointTransfer_def Let_def
  by (auto intro!: st.at_get steady_commit_written fence_kept)

lemma steady_commit_target: "st.at False Q r (commit_target g d a)"
  unfolding commit_target_def by (rule steady_commit_written) simp

lemma steady_rollback: "st.at C Q r count_rollback" "st.at C Q r resolve_window"
  unfolding count_rollback_def resolve_window_def
  by (auto intro!: st.at_then st.at_get st.at_modify steady_records
      simp: steady_def settings_def commit_of_def with_state_def agent_state_def)

lemma quiet_calls:
  "fs_probe p w = (x, w') \<Longrightarrow> quiet w \<Longrightarrow> quiet w'" "fs_remove p w = (y, w') \<Longrightarrow> quiet w \<Longrightarrow> quiet w'"
  "fs_file_size p w = (z, w') \<Longrightarrow> quiet w \<Longrightarrow> quiet w'"
  by (auto simp: fs_probe_def fs_remove_def fs_file_size_def dest: stays_quiet split: prod.splits option.splits)

lemma quiet_hash: "hashStagingFile p n w = (x, w') \<Longrightarrow> quiet w \<Longrightarrow> quiet w' \<and> w' = w"
  by (auto simp: hashStagingFile_def os_quiet split: option.splits prod.splits if_splits)

lemma hash_disk: "hashStagingFile p n w = (x, w') \<Longrightarrow> w_disk w' = w_disk w"
  by (auto simp: hashStagingFile_def dest!: os_call_disk split: option.splits prod.splits bool.splits if_splits)

lemma steady_calls:
  "st.at C Q r (a_io (fs_probe p))" "p \<notin> Q \<Longrightarrow> st.at C Q r (a_io (fs_remove p))" "st.at C Q r (a_io (hashStagingFile p n))"
proof -
  show "st.at C Q r (a_io (fs_probe p))"
    by (rule steady_io) (auto simp: leaves_def fs_probe_def dest: os_call_disk stays_quiet split: prod.splits)
  show "p \<notin> Q \<Longrightarrow> st.at C Q r (a_io (fs_remove p))"
    by (rule steady_io) (auto intro: leaves_remove quiet_calls)
  show "st.at C Q r (a_io (hashStagingFile p n))"
    by (rule steady_io) (auto simp: leaves_def dest: hash_disk quiet_hash)
qed

text \<open>The staging area: any file may go, the commit stays.\<close>

lemma remove_strays_quiet: "remove_strays known ps n w = (x, w') \<Longrightarrow> quiet w \<Longrightarrow> quiet w'"
  by (induction known ps n w rule: remove_strays.induct) (auto split: if_splits prod.splits dest: quiet_calls)

lemma check_transfer_quiet: "check_transfer r t w = (x, w') \<Longrightarrow> quiet w \<Longrightarrow> quiet w'"
  by (auto simp: check_transfer_def Let_def dest!: quiet_calls stays_quiet split: prod.splits option.splits if_splits)

lemma check_transfers_quiet: "check_transfers r ts xs ys w = (x, w') \<Longrightarrow> quiet w \<Longrightarrow> quiet w'"
  by (induction r ts xs ys w rule: check_transfers.induct)
     (auto split: prod.splits transfer_check.splits dest: check_transfer_quiet)

lemma steady_staging: "st.at C {} r (recover_staging v)"
  unfolding recover_staging_def destroyTransfer_def Let_def
  by (auto intro!: st.at_get st.at_then st.at_pure st.at_each steady_records steady_calls steady_io
      dest: remove_strays_quiet check_transfers_quiet split: prod.split)

lemma steady_window: "st.at C UNIV r (recover_window v)"
  unfolding recover_window_def by (auto intro!: st.at_get st.at_then st.at_pure steady_rollback)

subsection \<open>One directory\<close>

definition pointer_at :: "disk \<Rightarrow> string \<Rightarrow> PointerValue \<Rightarrow> bool" where
  "pointer_at disk directory p \<longleftrightarrow>
     (\<exists>text. disk (directory @ ''/current'') = Some text \<and> parsePointer (bytes_string text) = Inr p)"

text \<open>The commit is that of the pointer of the directory, and its payload is on disk with the right digest.\<close>

definition backed :: "disk \<Rightarrow> string \<Rightarrow> AgentState \<Rightarrow> bool" where
  "backed disk directory s \<longleftrightarrow>
     (\<exists>p c. pointer_at disk directory p
        \<and> as_committedGeneration s = pv_generation p \<and> as_committedDigest s = pv_digest p
        \<and> disk (payloadPath directory (pv_generation p) (pv_digest p)) = Some c \<and> sha256 c = pv_digest p)"

lemma recover_pointer_reads:
  assumes "recover_pointer directory v r = (Returned (pointer, v'), r')"
  shows "agent_state r' = agent_state r \<and> settings r' = settings r
    \<and> (\<forall>p. pointer = Some p \<longrightarrow> pointer_at (w_disk (ta_world r')) directory p)"
proof -
  have disk: "w_disk w' = w_disk w \<and> (\<forall>bs. x = Inr bs \<longrightarrow> w_disk w p = Some bs)" if "readFileBounded p n w = (x, w')" for p n w x w'
    using that by (auto simp: readFileBounded_def io_or_fail_def io_return_def dest!: os_call_disk split: option.splits prod.splits if_splits)
  show ?thesis
    using assms
    by (auto simp: recover_pointer_def a_io_def a_return_def readLiveValue_def pointer_at_def agent_state_def settings_def
        dest!: disk elim!: a_thenE split: prod.splits sum.splits)
qed

lemma recover_pointer_quiet:
  "st.at C {} r (recover_pointer directory v)"
proof -
  have "quiet w'" if "readLiveValue p w = (x, w')" "quiet w" for p w x w'
    using that by (auto simp: readLiveValue_def readFileBounded_def io_or_fail_def io_return_def dest!: stays_quiet
        split: option.splits prod.splits if_splits)
  then show ?thesis
    unfolding recover_pointer_def
    by (auto intro!: st.at_then st.at_pure steady_io steady_calls split: sum.split)
qed

lemma steady_pending: "st.at C (- {directory @ ''/pending''}) r (recover_pending directory pointer v)"
  unfolding recover_pending_def Let_def
  by (auto intro!: st.at_get st.at_then st.at_pure steady_rollback steady_calls)

lemma steady_commit: "st.at False UNIV r (recover_commit directory pointer v)"
  unfolding recover_commit_def clear_commit_def Let_def
  by (auto intro!: st.at_get st.at_then st.at_pure steady_commit_target steady_calls split: option.split)

lemma recover_commit_backs:
  assumes "recover_commit directory pointer v r = (Returned v', r')"
    and "ao_verifyCommittedPayloadOnStart (ta_options r)"
    and "\<And>p. pointer = Some p \<Longrightarrow> length (pv_digest p) = 32"
  shows "as_committedGeneration (agent_state r') = 0
    \<or> (\<exists>p c. pointer = Some p \<and> as_committedGeneration (agent_state r') = pv_generation p
         \<and> as_committedDigest (agent_state r') = pv_digest p
         \<and> w_disk (ta_world r) (payloadPath directory (pv_generation p) (pv_digest p)) = Some c
         \<and> sha256 c = pv_digest p)"
proof (cases pointer)
  case None
  then show ?thesis
    using assms(1)
    by (auto simp: recover_commit_def a_get_def Let_def a_return_def committed_set_def uint_isSet_def
        dest!: clear_commit_Returned elim!: a_thenE split: if_splits)
next
  case (Some p)
  let ?path = "payloadPath directory (pv_generation p) (pv_digest p)"
  obtain res w where h: "hashStagingFile ?path 0 (ta_world r) = (res, w)" by fastforce
  let ?r = "r\<lparr>ta_world := w\<rparr>" and ?s = "agent_state r"
  have s: "agent_state ?r = ?s" by (simp add: agent_state_def)
  show ?thesis
  proof (cases "res = Inr (pv_digest p)")
    case True
    then obtain c where c: "w_disk (ta_world r) ?path = Some c" "sha256 c = pv_digest p"
      using hashStagingFile_Inr [of ?path 0 "ta_world r" "pv_digest p" w] h by auto
    have "as_committedGeneration (agent_state r') = pv_generation p \<and> as_committedDigest (agent_state r') = pv_digest p"
      using assms(1,2) h True Some assms(3) [OF Some]
      by (auto simp: recover_commit_def a_get_def Let_def a_return_def a_io_def s committed_set_def
          dest!: commit_target_Returned elim!: a_thenE split: if_splits)
    with c Some show ?thesis by blast
  next
    case False
    then show ?thesis
      using assms(1,2) h Some
      by (auto simp: recover_commit_def a_get_def Let_def a_return_def a_io_def
          dest!: clear_commit_Returned elim!: a_thenE split: if_splits)
  qed
qed

lemma parsePointer_digest: "parsePointer text = Inr p \<Longrightarrow> length (pv_digest p) = 32"
  by (auto simp: parsePointer_def cf_try_def Let_def dest: Digest_parse_length split: list.splits sum.splits if_splits)

lemma below_apart:
  assumes "\<forall>name. p \<noteq> d @ ''/'' @ name"
  shows "d @ ''/current'' \<noteq> p" "d @ ''/pending'' \<noteq> p" "payloadPath d g x \<noteq> p"
  using spec [OF assms, of "''current''"] spec [OF assms, of "''pending''"]
    spec [OF assms, of "''payload/'' @ to_string (unat g) @ ''-'' @ take 12 (Digest_hex x) @ ''.cfg''"]
  by (auto simp: payloadPath_def)

lemma recover_directory_backs:
  assumes "recover_directory d v r = (Returned (ec, v'), r')" and "ao_verifyCommittedPayloadOnStart (ta_options r)"
    and "\<forall>name. journal_path r \<noteq> d @ ''/'' @ name"
  shows "(steady True UNIV r r' \<and> (quiet (ta_world r) \<longrightarrow> \<not> ec \<and> (path_filename d \<noteq> ''payload'' \<longrightarrow>
            w_disk (ta_world r) (d @ ''/current'') = None \<and> w_disk (ta_world r) (d @ ''/pending'') = None)))
     \<or> (steady False {} r r' \<and> (as_committedGeneration (agent_state r') = 0 \<or> backed (w_disk (ta_world r')) d (agent_state r')))"
proof -
  obtain ec1 current r1 marked r2 where
    probe: "a_io (fs_probe (d @ ''/current'')) r = (Returned (ec1, current), r1)"
    and marked: "(if current then a_return True
       else a_then (a_io (fs_probe (d @ ''/pending''))) (\<lambda>(_, pending). a_return pending)) r1 = (Returned marked, r2)"
    and rest: "(if \<not> marked \<or> path_filename d = ''payload'' then a_return (False, v)
     else
       a_then (a_io (fs_probe (d @ ''/pending''))) (\<lambda>(ec, pendingPresent).
       a_then (recover_pointer d v) (\<lambda>(pointer, v1).
       a_then (if pendingPresent then recover_pending d pointer v1 else a_return v1) (\<lambda>v2.
       a_then (recover_commit d pointer v2) (\<lambda>v3.
       a_return (ec, v3)))))) r2 = (Returned (ec, v'), r')"
    using assms(1) unfolding recover_directory_def by (auto elim!: a_thenE split: prod.splits simp del: de_Morgan_conj)
  have "st.at True UNIV r1 (if current then a_return True
       else a_then (a_io (fs_probe (d @ ''/pending''))) (\<lambda>(_, pending). a_return pending))"
    by (auto intro!: st.at_then st.at_pure steady_calls split: prod.split)
  then have s1: "steady True UNIV r r1" and s12: "steady True UNIV r1 r2"
    using st.atD [OF steady_calls(1) probe] st.atD marked by blast+
  then have s2: "steady True UNIV r r2" using st.rel_trans by blast
  show ?thesis
  proof (cases "\<not> marked \<or> path_filename d = ''payload''")
    case True
    then have r': "ec = False" "r' = r2" using rest by (simp_all add: a_return_def)
    have "w_disk (ta_world r) (d @ ''/current'') = None \<and> w_disk (ta_world r) (d @ ''/pending'') = None"
      if "quiet (ta_world r)" "path_filename d \<noteq> ''payload''"
      using that True probe marked
      by (auto simp: a_io_def fs_probe_def os_quiet a_return_def split: if_splits prod.splits elim!: a_thenE)
    with r' s2 show ?thesis by blast
  next
    case False
    then obtain pendingPresent r3 pointer v1 r4 v2 r5 where
      p3: "a_io (fs_probe (d @ ''/pending'')) r2 = (Returned (ec, pendingPresent), r3)"
      and p4: "recover_pointer d v r3 = (Returned (pointer, v1), r4)"
      and p5: "(if pendingPresent then recover_pending d pointer v1 else a_return v1) r4 = (Returned v2, r5)"
      and p6: "recover_commit d pointer v2 r5 = (Returned v', r')"
      using rest by (auto simp: a_return_def elim!: a_thenE split: prod.splits)
    let ?Q = "- {d @ ''/pending''}"
    have s3: "steady True UNIV r2 r3" using st.atD [OF steady_calls(1) p3] .
    have s4: "steady False {} r3 r4" using st.atD [OF recover_pointer_quiet p4] .
    have "st.at False ?Q r4 (if pendingPresent then recover_pending d pointer v1 else a_return v1)"
      by (auto intro: steady_pending st.at_pure)
    then have s5: "steady False ?Q r4 r5" using st.atD p5 by blast
    have s6: "steady False UNIV r5 r'" using st.atD [OF steady_commit p6] .
    have all: "steady False {} r r5" "steady False {} r r'" "steady False {} r r4"
      using s2 s3 s4 s5 s6 steady_subset [of _ _ _ _ False "{}"] st.rel_trans [of False "{}"] by (meson empty_subsetI)+
    have opt: "ta_options r5 = ta_options r" "journal_path r4 = journal_path r" "journal_path r5 = journal_path r"
      using all by (simp_all add: steady_def settings_def)
    have at4: "\<forall>p. pointer = Some p \<longrightarrow> pointer_at (w_disk (ta_world r4)) d p" using recover_pointer_reads [OF p4] by blast
    have len: "length (pv_digest p) = 32" if "pointer = Some p" for p
      using at4 that by (auto simp: pointer_at_def dest: parsePointer_digest)
    have keep: "w_disk (ta_world r') (d @ ''/current'') = w_disk (ta_world r4) (d @ ''/current'')"
      "w_disk (ta_world r') (payloadPath d g x) = w_disk (ta_world r5) (payloadPath d g x)" for g x
      using s5 s6 below_apart [OF assms(3)] opt by (simp_all add: steady_def payloadPath_def)
    from recover_commit_backs [OF p6 _ len] assms(2) opt(1)
    have "as_committedGeneration (agent_state r') = 0 \<or> backed (w_disk (ta_world r')) d (agent_state r')"
      using at4 keep unfolding backed_def pointer_at_def by fastforce
    with all(2) show ?thesis by blast
  qed
qed

subsection \<open>The walk\<close>

lemma backed_steady:
  assumes "backed (w_disk (ta_world r)) d (agent_state r)" and "steady True UNIV r r'" and "\<forall>name. journal_path r \<noteq> d @ ''/'' @ name"
  shows "backed (w_disk (ta_world r')) d (agent_state r')"
proof -
  have "w_disk (ta_world r') (d @ ''/current'') = w_disk (ta_world r) (d @ ''/current'')"
    "w_disk (ta_world r') (payloadPath d g x) = w_disk (ta_world r) (payloadPath d g x)" for g x
    using assms(2) below_apart [OF assms(3)] by (simp_all add: steady_def)
  moreover have "as_committedGeneration (agent_state r') = as_committedGeneration (agent_state r)"
    "as_committedDigest (agent_state r') = as_committedDigest (agent_state r)"
    using assms(2) by (simp_all add: steady_def commit_of_def)
  ultimately show ?thesis using assms(1) unfolding backed_def pointer_at_def by simp
qed

text \<open>After a walk the commit is none, or backed by a directory of the walk, or every directory was passed over.\<close>

definition settled :: "string list \<Rightarrow> TargetAgent \<Rightarrow> TargetAgent \<Rightarrow> bool" where
  "settled ds r r' \<longleftrightarrow>
     as_committedGeneration (agent_state r') = 0
     \<or> (\<exists>d\<in>set ds. backed (w_disk (ta_world r')) d (agent_state r'))
     \<or> (commit_of r' = commit_of r \<and> (quiet (ta_world r) \<longrightarrow> (\<forall>d\<in>set ds. path_filename d \<noteq> ''payload'' \<longrightarrow>
          w_disk (ta_world r') (d @ ''/current'') = None \<and> w_disk (ta_world r') (d @ ''/pending'') = None)))"

lemma recover_tree_settles:
  assumes "recover_tree ds v r = (Returned v', r')" and "ao_verifyCommittedPayloadOnStart (ta_options r)"
    and "\<forall>d\<in>set ds. \<forall>name. journal_path r \<noteq> d @ ''/'' @ name"
  shows "settings r' = settings r \<and> (steady True UNIV r r' \<and> settled ds r r'
     \<or> as_committedGeneration (agent_state r') = 0 \<or> (\<exists>d\<in>set ds. backed (w_disk (ta_world r')) d (agent_state r')))"
  using assms
proof (induction ds arbitrary: v r)
  case Nil
  then show ?case by (auto simp: a_return_def settled_def intro: st.rel_refl)
next
  case (Cons d ds)
  then obtain ec v1 r1 where d: "recover_directory d v r = (Returned (ec, v1), r1)"
    and rest: "(if ec then a_return v1 else recover_tree ds v1) r1 = (Returned v', r')"
    by (auto elim!: a_thenE split: prod.splits)
  have apart: "\<forall>name. journal_path r \<noteq> d @ ''/'' @ name" using Cons.prems(3) by simp
  note dir = recover_directory_backs [OF d Cons.prems(2) apart]
  then have set1: "settings r1 = settings r" by (auto simp: steady_def)
  then have same: "ta_options r1 = ta_options r" "journal_path r1 = journal_path r" by (simp_all add: settings_def)
  show ?case
  proof (cases ec)
    case True
    then have "r' = r1" using rest by (simp add: a_return_def)
    then show ?thesis using dir True set1 by (auto simp: settled_def steady_def)
  next
    case False
    then have tree: "recover_tree ds v1 r1 = (Returned v', r')" using rest by simp
    from Cons.IH [OF tree] Cons.prems(2,3) same
    have ih: "settings r' = settings r1" "steady True UNIV r1 r' \<and> settled ds r1 r'
     \<or> as_committedGeneration (agent_state r') = 0 \<or> (\<exists>d\<in>set ds. backed (w_disk (ta_world r')) d (agent_state r'))" by auto
    have set': "settings r' = settings r" using ih(1) set1 by simp
    show ?thesis
      using ih(2)
    proof (elim disjE conjE)
      assume steady: "steady True UNIV r1 r'" and walk: "settled ds r1 r'"
      have gen: "as_committedGeneration (agent_state r') = as_committedGeneration (agent_state r1)" and commit: "commit_of r' = commit_of r1"
        using steady by (simp_all add: steady_def commit_of_def)
      from dir show ?thesis
      proof (elim disjE conjE)
        assume passed: "steady True UNIV r r1" "quiet (ta_world r) \<longrightarrow> \<not> ec \<and> (path_filename d \<noteq> ''payload'' \<longrightarrow>
            w_disk (ta_world r) (d @ ''/current'') = None \<and> w_disk (ta_world r) (d @ ''/pending'') = None)"
        have all: "steady True UNIV r r'" using st.rel_trans passed(1) steady by blast
        have disk: "w_disk (ta_world r') (d @ ''/current'') = w_disk (ta_world r) (d @ ''/current'')"
          "w_disk (ta_world r') (d @ ''/pending'') = w_disk (ta_world r) (d @ ''/pending'')"
          using all below_apart [OF apart] by (simp_all add: steady_def)
        have "commit_of r1 = commit_of r" "quiet (ta_world r) \<longrightarrow> quiet (ta_world r1)" using passed(1) by (simp_all add: steady_def)
        then have "settled (d # ds) r r'"
          using walk passed(2) disk unfolding settled_def by auto
        with all set' show ?thesis by blast
      next
        assume "as_committedGeneration (agent_state r1) = 0"
        with gen set' show ?thesis by simp
      next
        assume "backed (w_disk (ta_world r1)) d (agent_state r1)"
        then have "backed (w_disk (ta_world r')) d (agent_state r')"
          using backed_steady steady apart unfolding same(2) [symmetric] by blast
        with set' show ?thesis by simp
      qed
    next
      assume "as_committedGeneration (agent_state r') = 0"
      with set' show ?thesis by simp
    next
      assume "\<exists>d\<in>set ds. backed (w_disk (ta_world r')) d (agent_state r')"
      with set' show ?thesis by simp
    qed
  qed
qed



text \<open>
  With the live area gone there is nothing to reconcile the commit with: a recorded commit stays, whatever became of its
  payload.
\<close>

theorem lost_live_area_keeps_commit:
  assumes "recoverLiveArea v r = (Returned v', r')" and "\<And>disk. ta_tree r disk (ta_liveRoot r) = []"
  shows "commit_of r' = commit_of r"
proof -
  obtain v1 r1 v2 r2 where 1: "recover_staging v r = (Returned v1, r1)"
    and 2: "recover_tree (ta_tree r1 (w_disk (ta_world r1)) (ta_liveRoot r1)) v1 r1 = (Returned v2, r2)"
    and 3: "recover_window v2 r2 = (Returned v', r')"
    using assms(1) by (auto simp: recoverLiveArea_def a_get_def elim!: a_thenE)
  have s1: "steady True {} r r1" using st.atD [OF steady_staging 1] .
  then have "r2 = r1" using 2 assms(2) by (simp add: steady_def settings_def a_return_def)
  then show ?thesis using s1 st.atD [OF steady_window [of True] 3] by (simp add: steady_def)
qed

end
