(* ===== verification/Convergence.thy ===== *)
theory Convergence
  imports Policy StateController "HOL-Library.Product_Lexorder"
begin

text \<open>
  Convergence reports of \<^verbatim>\<open>include/cf/convergence.hpp\<close> and \<^verbatim>\<open>src/convergence.cpp\<close>: the blockers that keep
  a target from its desired generation, the report over all lineages with its counts, rendering and
  fingerprint, the explanation of one target, and the decision input the scheduler and the explanation
  share. Times are millisecond counts of one clock; their differences are taken in \<open>int\<close>. The lemmas
  give the desired delivery of every lineage, the exact meaning of the four counts, and what of a report
  depends on the clock.
\<close>

subsection \<open>Blockers\<close>

datatype BlockerKind =
  NoBlocker | NotYetDelivered | DeliveryInFlight | AwaitingAcknowledgement | RetryBudgetExhausted
| TargetUnreachable | TargetAuthorityFenced | GuaranteeUnsupported | ArtifactUnavailable
| DigestMismatchReported | SizeMismatchReported | SchemaUnsupported | PolicyRejected
| TargetAheadOfDesired | Superseded | LivenessEvidenceStale | PrepareWindowOpen | LivePointerUnverified

primrec blockerKindValue :: "BlockerKind \<Rightarrow> byte" where
  "blockerKindValue NoBlocker = 0"
| "blockerKindValue NotYetDelivered = 1"
| "blockerKindValue DeliveryInFlight = 2"
| "blockerKindValue AwaitingAcknowledgement = 3"
| "blockerKindValue RetryBudgetExhausted = 4"
| "blockerKindValue TargetUnreachable = 5"
| "blockerKindValue TargetAuthorityFenced = 6"
| "blockerKindValue GuaranteeUnsupported = 7"
| "blockerKindValue ArtifactUnavailable = 8"
| "blockerKindValue DigestMismatchReported = 9"
| "blockerKindValue SizeMismatchReported = 10"
| "blockerKindValue SchemaUnsupported = 11"
| "blockerKindValue PolicyRejected = 12"
| "blockerKindValue TargetAheadOfDesired = 13"
| "blockerKindValue Superseded = 14"
| "blockerKindValue LivenessEvidenceStale = 15"
| "blockerKindValue PrepareWindowOpen = 16"
| "blockerKindValue LivePointerUnverified = 17"

primrec blockerKindName :: "BlockerKind \<Rightarrow> string" where
  "blockerKindName NoBlocker = ''none''"
| "blockerKindName NotYetDelivered = ''not-yet-delivered''"
| "blockerKindName DeliveryInFlight = ''delivery-in-flight''"
| "blockerKindName AwaitingAcknowledgement = ''awaiting-acknowledgement''"
| "blockerKindName RetryBudgetExhausted = ''retry-budget-exhausted''"
| "blockerKindName TargetUnreachable = ''target-unreachable''"
| "blockerKindName TargetAuthorityFenced = ''target-authority-fenced''"
| "blockerKindName GuaranteeUnsupported = ''guarantee-unsupported''"
| "blockerKindName ArtifactUnavailable = ''artifact-unavailable''"
| "blockerKindName DigestMismatchReported = ''digest-mismatch-reported''"
| "blockerKindName SizeMismatchReported = ''size-mismatch-reported''"
| "blockerKindName SchemaUnsupported = ''schema-unsupported''"
| "blockerKindName PolicyRejected = ''policy-rejected''"
| "blockerKindName TargetAheadOfDesired = ''target-ahead-of-desired''"
| "blockerKindName Superseded = ''superseded''"
| "blockerKindName LivenessEvidenceStale = ''liveness-evidence-stale''"
| "blockerKindName PrepareWindowOpen = ''prepare-window-open''"
| "blockerKindName LivePointerUnverified = ''live-pointer-unverified''"

definition isFreshContact :: "TargetRuntime \<Rightarrow> DistributorPolicy \<Rightarrow> int \<Rightarrow> bool" where
  "isFreshContact runtime policy nowMillis \<longleftrightarrow>
     (if \<not> tr_contactEstablishedThisProcess runtime then False
      else if tr_lastContactMillis runtime \<le> 0 then False
      else
        let age = nowMillis - tr_lastContactMillis runtime
        in age \<ge> 0 \<and> age \<le> livenessFreshnessMillis policy)"

subsection \<open>The input of a decision\<close>

text \<open>The members of a \<^verbatim>\<open>DecisionInput\<close> before any assignment.\<close>

definition initialDecisionInput :: DecisionInput where
  "initialDecisionInput =
     \<lparr>in_state = Prepared, in_failures = 0, in_attempt = 0, in_targetGuarantee = AtomicActivate,
      in_requirement = RequireAtomic, in_desiredGeneration = 0, in_targetGeneration = 0,
      in_desiredDigest = unset_digest, in_targetDigest = unset_digest, in_targetLive = False,
      in_livenessEvidenceStale = False, in_targetApplyPrepared = False, in_artifactAvailable = False,
      in_resumableTransfer = False, in_supersededByNewerGeneration = False,
      in_millisSinceLastAttempt = 0\<rparr>"

definition failed_twin :: "DeliveryRecord \<Rightarrow> DeliveryRecord \<Rightarrow> bool" where
  "failed_twin delivery other \<longleftrightarrow>
     dr_id other \<noteq> dr_id delivery \<and> dr_target other = dr_target delivery \<and> dr_key other = dr_key delivery
     \<and> dr_generation other = dr_generation delivery \<and> dr_digest other = dr_digest delivery
     \<and> dr_state other = Failed"

definition buildDecisionInput ::
  "ControllerState \<Rightarrow> DistributorPolicy \<Rightarrow> DeliveryRecord \<Rightarrow> int \<Rightarrow> DecisionInput" where
  "buildDecisionInput s policy delivery nowMillis =
     (let input = initialDecisionInput
            \<lparr>in_state := dr_state delivery, in_failures := dr_failures delivery,
             in_attempt := dr_attempt delivery, in_requirement := dr_requirement delivery,
             in_desiredGeneration := dr_generation delivery, in_desiredDigest := dr_digest delivery,
             in_artifactAvailable := (om_find (cs_artifacts s) (dr_digest delivery) \<noteq> None),
             in_millisSinceLastAttempt := nowMillis - dr_updatedAtMillis delivery\<rparr>;
          input1 = (case findTarget s (dr_target delivery) of
              Some runtime \<Rightarrow> input
                \<lparr>in_targetGuarantee := tr_guarantee runtime,
                 in_targetGeneration := tr_committedGeneration runtime,
                 in_targetDigest := tr_committedDigest runtime,
                 in_targetLive := isFreshContact runtime policy nowMillis,
                 in_livenessEvidenceStale := (\<not> tr_contactEstablishedThisProcess runtime),
                 in_targetApplyPrepared := tr_applyPrepared runtime\<rparr>
            | None \<Rightarrow> input\<lparr>in_targetLive := False, in_livenessEvidenceStale := False\<rparr>);
          input2 = input1\<lparr>in_supersededByNewerGeneration :=
            (case latestForLineage s (dr_target delivery) (dr_key delivery) of
               None \<Rightarrow> False
             | Some latest \<Rightarrow> dr_id latest \<noteq> dr_id delivery
                 \<and> dr_generation latest > dr_generation delivery)\<rparr>
      in fold (\<lambda>other i. if failed_twin delivery other then i\<lparr>in_resumableTransfer := True\<rparr> else i)
           (om_values (cs_deliveries s)) input2)"

subsection \<open>The report\<close>

record LineageConvergence =
  lc_target :: TargetId
  lc_key :: ConfigKey
  lc_artifact :: ArtifactId
  lc_desiredGeneration :: Generation
  lc_desiredDigest :: Digest
  lc_currentGeneration :: Generation
  lc_currentDigest :: Digest
  lc_state :: DeliveryState
  lc_guarantee :: ApplyGuarantee
  lc_requirement :: GuaranteeRequirement
  lc_converged :: bool
  lc_currentReason :: string
  lc_blockers :: "BlockerKind list"
  lc_pending :: "string list"
  lc_contactEstablishedThisProcess :: bool
  lc_evidenceFromReconciliation :: bool
  lc_attempts :: u32
  lc_failures :: u32

record ConvergenceReport =
  rp_nodeId :: NodeId
  rp_epoch :: Epoch
  rp_incarnation :: IncarnationId
  rp_lineageCount :: nat
  rp_convergedCount :: nat
  rp_pendingCount :: nat
  rp_blockedCount :: nat
  rp_divergedCount :: nat
  rp_lineages :: "LineageConvergence list"
  rp_retiredCount :: nat
  rp_rejectedCount :: nat

definition ConvergenceReport_converged :: "ConvergenceReport \<Rightarrow> bool" where
  "ConvergenceReport_converged r \<longleftrightarrow>
     rp_blockedCount r = 0 \<and> rp_divergedCount r = 0 \<and> rp_pendingCount r = 0"

definition add_blocker :: "BlockerKind \<Rightarrow> LineageConvergence \<Rightarrow> LineageConvergence" where
  "add_blocker b l = l\<lparr>lc_blockers := lc_blockers l @ [b]\<rparr>"

definition add_pending :: "string \<Rightarrow> LineageConvergence \<Rightarrow> LineageConvergence" where
  "add_pending t l = l\<lparr>lc_pending := lc_pending l @ [t]\<rparr>"

definition with_reason :: "string \<Rightarrow> LineageConvergence \<Rightarrow> LineageConvergence" where
  "with_reason t l = l\<lparr>lc_currentReason := t\<rparr>"

text \<open>The inner switches on the last error of a failed and of a rejected delivery.\<close>

definition failed_blockers :: "ErrorCode \<Rightarrow> BlockerKind list" where
  "failed_blockers e =
     (case e of
        DigestMismatch \<Rightarrow> [DigestMismatchReported]
      | SizeMismatch \<Rightarrow> [SizeMismatchReported]
      | ErrorCode.ArtifactUnavailable \<Rightarrow> [ArtifactUnavailable]
      | StaleEpoch \<Rightarrow> [TargetAuthorityFenced]
      | StaleGeneration \<Rightarrow> [TargetAuthorityFenced]
      | FencedIncarnation \<Rightarrow> [TargetAuthorityFenced]
      | GenerationConflict \<Rightarrow> [PolicyRejected]
      | Conflict \<Rightarrow> [PolicyRejected]
      | _ \<Rightarrow> [])"

definition rejected_blocker :: "ErrorCode \<Rightarrow> BlockerKind" where
  "rejected_blocker e =
     (case e of
        ErrorCode.GuaranteeUnsupported \<Rightarrow> GuaranteeUnsupported
      | ErrorCode.ArtifactUnavailable \<Rightarrow> ArtifactUnavailable
      | ErrorCode.SchemaUnsupported \<Rightarrow> SchemaUnsupported
      | _ \<Rightarrow> PolicyRejected)"

definition describe_in_flight :: "string \<Rightarrow> string \<Rightarrow> LineageConvergence \<Rightarrow> LineageConvergence" where
  "describe_in_flight pending reason l =
     with_reason reason (add_pending pending (add_blocker DeliveryInFlight l))"

definition describe_state :: "DistributorPolicy \<Rightarrow> DeliveryRecord \<Rightarrow> LineageConvergence \<Rightarrow> LineageConvergence" where
  "describe_state policy desired l =
     (case dr_state desired of
        Acknowledged \<Rightarrow>
          l\<lparr>lc_converged := True,
            lc_currentReason :=
              ''the target reported activation of the desired generation and the acknowledgement ''
              @ ''was durably recorded under the current authority''
              @ (if dr_acknowledgedFromReconcile desired
                 then '' (evidence recovered by reconciliation)'' else [])\<rparr>
      | Applied \<Rightarrow>
          with_reason (''the target reports the desired generation active, but the acknowledgement boundary ''
                       @ ''has not been recorded'')
            (add_pending ''await the activation acknowledgement or reconcile it''
              (add_blocker AwaitingAcknowledgement l))
      | Staged \<Rightarrow> describe_in_flight ''activate the staged artifact''
          ''the artifact is verified and staged at the target'' l
      | Verified \<Rightarrow> describe_in_flight ''activate the staged artifact''
          ''the artifact is verified and staged at the target'' l
      | Offered \<Rightarrow> describe_in_flight ''finish transferring the artifact''
          ''the transfer to the target has started but has not completed'' l
      | Transferred \<Rightarrow> describe_in_flight ''finish transferring the artifact''
          ''the transfer to the target has started but has not completed'' l
      | Prepared \<Rightarrow>
          with_reason ''the delivery has been prepared but nothing has been sent''
            (add_pending ''deliver the artifact to the target'' (add_blocker NotYetDelivered l))
      | Failed \<Rightarrow>
          (let l1 = with_reason (''the last attempt failed: '' @ dr_lastDetail desired) l;
               l2 = (if dr_failures desired \<ge> maxAttempts policy
                     then add_pending ''operator action: raise the retry budget or fix the target''
                            (add_blocker RetryBudgetExhausted l1)
                     else add_pending ''retry the delivery'' (add_blocker DeliveryInFlight l1))
           in fold add_blocker (failed_blockers (dr_lastError desired)) l2)
      | Rejected \<Rightarrow>
          add_pending ''operator action: change the deployment instruction''
            (add_blocker (rejected_blocker (dr_lastError desired))
              (with_reason (''the delivery was refused: '' @ dr_lastDetail desired) l))
      | DeliveryState.Retired \<Rightarrow>
          with_reason ''the delivery was superseded'' (add_blocker Superseded l))"

definition describe_runtime ::
  "DistributorPolicy \<Rightarrow> int \<Rightarrow> DeliveryRecord \<Rightarrow> TargetRuntime option \<Rightarrow> LineageConvergence \<Rightarrow> LineageConvergence" where
  "describe_runtime policy nowMillis desired runtime l =
     (case runtime of
        None \<Rightarrow>
          (let l1 = add_blocker TargetUnreachable l
           in if lc_currentReason l1 = []
              then with_reason ''the target has never been contacted by this controller'' l1 else l1)
      | Some t \<Rightarrow>
          (let l1 = (if \<not> isFreshContact t policy nowMillis \<and> isPendingState (dr_state desired)
                     then add_pending ''establish a live session with the target''
                            (add_blocker LivenessEvidenceStale l)
                     else l);
               l2 = (if tr_applyPrepared t
                     then add_pending ''resolve the target's prepare/commit window''
                            (add_blocker PrepareWindowOpen l1)
                     else l1)
           in if tr_committedGeneration t > dr_generation desired
              then with_reason
                     (''the target is at generation '' @ to_string (unat (tr_committedGeneration t))
                      @ '', which is newer than the desired generation ''
                      @ to_string (unat (dr_generation desired)))
                     (add_blocker TargetAheadOfDesired l2)
              else l2))"

text \<open>\<^verbatim>\<open>std::sort\<close> followed by \<^verbatim>\<open>std::unique\<close> on both lists.\<close>

definition normalize_lineage :: "LineageConvergence \<Rightarrow> LineageConvergence" where
  "normalize_lineage l =
     l\<lparr>lc_blockers := remdups_adj (sort_key blockerKindValue (lc_blockers l)),
       lc_pending := remdups_adj (sort (lc_pending l))\<rparr>"

definition initial_lineage :: "DeliveryRecord \<Rightarrow> TargetRuntime option \<Rightarrow> LineageConvergence" where
  "initial_lineage desired runtime =
     (let l = \<lparr>lc_target = dr_target desired, lc_key = dr_key desired, lc_artifact = dr_artifact desired,
               lc_desiredGeneration = dr_generation desired, lc_desiredDigest = dr_digest desired,
               lc_currentGeneration = 0, lc_currentDigest = unset_digest, lc_state = dr_state desired,
               lc_guarantee = dr_effectiveGuarantee desired, lc_requirement = dr_requirement desired,
               lc_converged = False, lc_currentReason = [], lc_blockers = [], lc_pending = [],
               lc_contactEstablishedThisProcess = False,
               lc_evidenceFromReconciliation = dr_acknowledgedFromReconcile desired,
               lc_attempts = ucast (min (dr_attempt desired) 0xFFFFFFFF),
               lc_failures = dr_failures desired\<rparr>
      in case runtime of
           None \<Rightarrow> l
         | Some t \<Rightarrow> l\<lparr>lc_currentGeneration := tr_committedGeneration t,
                      lc_currentDigest := tr_committedDigest t, lc_guarantee := tr_guarantee t,
                      lc_contactEstablishedThisProcess := tr_contactEstablishedThisProcess t\<rparr>)"

definition lineage_of :: "ControllerState \<Rightarrow> DistributorPolicy \<Rightarrow> int \<Rightarrow> DeliveryRecord \<Rightarrow> LineageConvergence" where
  "lineage_of s policy nowMillis desired =
     (let runtime = findTarget s (dr_target desired)
      in normalize_lineage
           (describe_runtime policy nowMillis desired runtime
             (describe_state policy desired (initial_lineage desired runtime))))"

definition is_blocked :: "LineageConvergence \<Rightarrow> bool" where
  "is_blocked l \<longleftrightarrow> lc_blockers l \<noteq> []
     \<and> hd (lc_blockers l) \<in> {RetryBudgetExhausted, GuaranteeUnsupported, ArtifactUnavailable, PolicyRejected,
                              TargetAheadOfDesired, DigestMismatchReported, SchemaUnsupported}"

text \<open>\<^verbatim>\<open>lineages[{target, key}].push_back(&record)\<close> over the deliveries in order of their identity.\<close>

definition group_lineages ::
  "DeliveryRecord list \<Rightarrow> (TargetId \<times> ConfigKey, DeliveryRecord list) omap" where
  "group_lineages rs =
     fold (\<lambda>r m. let k = (dr_target r, dr_key r)
                 in om_put k ((case om_find m k of None \<Rightarrow> [] | Some l \<Rightarrow> l) @ [r]) m) rs []"

definition sort_records :: "DeliveryRecord list \<Rightarrow> DeliveryRecord list" where
  "sort_records rs = sort_key (\<lambda>r. (dr_generation r, dr_id r)) rs"

definition report_lineage ::
  "ControllerState \<Rightarrow> DistributorPolicy \<Rightarrow> int \<Rightarrow> DeliveryRecord list \<Rightarrow> ConvergenceReport \<Rightarrow> ConvergenceReport" where
  "report_lineage s policy nowMillis rs rp =
     (let records = sort_records rs;
          desired = last records;
          l = lineage_of s policy nowMillis desired;
          rp1 = rp\<lparr>rp_retiredCount := rp_retiredCount rp
                     + length (filter (\<lambda>r. dr_state r = DeliveryState.Retired) records)\<rparr>;
          rp2 = (if dr_state desired = Rejected
                 then rp1\<lparr>rp_rejectedCount := rp_rejectedCount rp1 + 1\<rparr> else rp1);
          rp3 = rp2\<lparr>rp_lineageCount := rp_lineageCount rp2 + 1\<rparr>;
          rp4 = (if lc_converged l then rp3\<lparr>rp_convergedCount := rp_convergedCount rp3 + 1\<rparr>
                 else if is_blocked l then rp3\<lparr>rp_blockedCount := rp_blockedCount rp3 + 1\<rparr>
                 else if uint_isSet (lc_currentGeneration l)
                         \<and> lc_currentGeneration l < lc_desiredGeneration l
                 then rp3\<lparr>rp_divergedCount := rp_divergedCount rp3 + 1\<rparr>
                 else rp3\<lparr>rp_pendingCount := rp_pendingCount rp3 + 1\<rparr>)
      in rp4\<lparr>rp_lineages := rp_lineages rp4 @ [l]\<rparr>)"

definition emptyReport :: "ControllerState \<Rightarrow> ConvergenceReport" where
  "emptyReport s =
     \<lparr>rp_nodeId = cs_nodeId s, rp_epoch = cs_epoch s, rp_incarnation = cs_incarnation s,
      rp_lineageCount = 0, rp_convergedCount = 0, rp_pendingCount = 0, rp_blockedCount = 0,
      rp_divergedCount = 0, rp_lineages = [], rp_retiredCount = 0, rp_rejectedCount = 0\<rparr>"

definition buildConvergenceReport :: "ControllerState \<Rightarrow> DistributorPolicy \<Rightarrow> int \<Rightarrow> ConvergenceReport" where
  "buildConvergenceReport s policy nowMillis =
     fold (report_lineage s policy nowMillis)
       (om_values (group_lineages (om_values (cs_deliveries s)))) (emptyReport s)"

subsection \<open>Rendering\<close>

definition number_or :: "string \<Rightarrow> Generation \<Rightarrow> string" where
  "number_or none g = (if uint_isSet g then to_string (unat g) else none)"

definition render_lineage :: "LineageConvergence \<Rightarrow> string" where
  "render_lineage l =
     ''target='' @ lc_target l @ '' key='' @ lc_key l
     @ '' desired-generation='' @ to_string (unat (lc_desiredGeneration l))
     @ '' desired-digest='' @ shortDigest (lc_desiredDigest l)
     @ '' current-generation='' @ number_or ''none'' (lc_currentGeneration l)
     @ '' current-digest='' @ (if Digest_isSet (lc_currentDigest l) then shortDigest (lc_currentDigest l)
                               else ''none'')
     @ '' state='' @ deliveryStateName (lc_state l)
     @ '' guarantee='' @ applyGuaranteeName (lc_guarantee l)
     @ '' required='' @ guaranteeRequirementName (lc_requirement l)
     @ '' outcome='' @ (if lc_converged l then ''converged'' else ''not-converged'') @ ''\<newline>''
     @ ''  reason: '' @ lc_currentReason l @ ''\<newline>''
     @ (if lc_blockers l \<noteq> []
        then ''  blockers:'' @ concat (map (\<lambda>b. '' '' @ blockerKindName b) (lc_blockers l)) @ ''\<newline>''
        else [])
     @ (if lc_pending l \<noteq> []
        then ''  pending:\<newline>'' @ concat (map (\<lambda>t. ''    - '' @ t @ ''\<newline>'') (lc_pending l))
        else [])"

definition ConvergenceReport_render :: "ConvergenceReport \<Rightarrow> string" where
  "ConvergenceReport_render r =
     ''convergence node='' @ rp_nodeId r @ '' epoch='' @ to_string (unat (rp_epoch r))
     @ '' incarnation='' @ take 8 (toHex (rp_incarnation r)) @ ''\<newline>''
     @ ''lineages='' @ to_string (rp_lineageCount r) @ '' converged='' @ to_string (rp_convergedCount r)
     @ '' pending='' @ to_string (rp_pendingCount r) @ '' diverged='' @ to_string (rp_divergedCount r)
     @ '' blocked='' @ to_string (rp_blockedCount r) @ '' retired='' @ to_string (rp_retiredCount r)
     @ '' rejected='' @ to_string (rp_rejectedCount r) @ ''\<newline>''
     @ ''state='' @ (if ConvergenceReport_converged r then ''converged'' else ''not-converged'') @ ''\<newline>''
     @ concat (map render_lineage (rp_lineages r))"

definition fingerprint_lineage :: "LineageConvergence \<Rightarrow> string" where
  "fingerprint_lineage l =
     lc_target l @ '':'' @ lc_key l @ '':'' @ to_string (unat (lc_desiredGeneration l)) @ '':''
     @ number_or ''-'' (lc_currentGeneration l) @ '':'' @ deliveryStateName (lc_state l) @ '':''
     @ (if lc_converged l then ''1'' else ''0'') @ '';''"

definition ConvergenceReport_fingerprint :: "ConvergenceReport \<Rightarrow> string" where
  "ConvergenceReport_fingerprint r =
     shortDigest (Digest_ofText (rp_nodeId r @ ''|'' @ to_string (unat (rp_epoch r)) @ ''|''
       @ concat (map fingerprint_lineage (rp_lineages r))))"

subsection \<open>The explanation of one target\<close>

definition true_false :: "bool \<Rightarrow> string" where
  "true_false b = (if b then ''true'' else ''false'')"

definition explain_runtime :: "DistributorPolicy \<Rightarrow> int \<Rightarrow> TargetRuntime \<Rightarrow> string" where
  "explain_runtime policy nowMillis t =
     ''  class = '' @ targetClassName (tr_klass t) @ ''\<newline>''
     @ ''  apply-guarantee = '' @ applyGuaranteeName (tr_guarantee t) @ ''\<newline>''
     @ ''  target-term = '' @ to_string (unat (tr_term t)) @ ''\<newline>''
     @ ''  target-incarnation = ''
     @ (if OpaqueIdentity_isSet (tr_incarnation t) then toHex (tr_incarnation t) else ''unset'') @ ''\<newline>''
     @ ''  committed-generation = '' @ number_or ''none'' (tr_committedGeneration t) @ ''\<newline>''
     @ ''  committed-digest = ''
     @ (if Digest_isSet (tr_committedDigest t) then Digest_hex (tr_committedDigest t) else ''none'') @ ''\<newline>''
     @ ''  contact-established-this-process = '' @ true_false (tr_contactEstablishedThisProcess t) @ ''\<newline>''
     @ ''  sessions-established = '' @ to_string (unat (tr_sessionsEstablished t)) @ ''\<newline>''
     @ ''  restarts-observed = '' @ to_string (unat (tr_restartsObserved t)) @ ''\<newline>''
     @ ''  unresolved-prepare-window = '' @ true_false (tr_applyPrepared t) @ ''\<newline>''
     @ ''  live = '' @ true_false (isFreshContact t policy nowMillis) @ ''\<newline>''"

text \<open>The loop that indents every line of the rendered decision.\<close>

function indent_lines :: "string \<Rightarrow> string" where
  "indent_lines rendered =
     (if rendered = [] then []
      else ''    '' @ takeWhile (\<lambda>c. c \<noteq> CHR ''\<newline>'') rendered @ ''\<newline>''
        @ (case dropWhile (\<lambda>c. c \<noteq> CHR ''\<newline>'') rendered of
             [] \<Rightarrow> [] | _ # rest \<Rightarrow> indent_lines rest))"
  by auto
termination
proof (relation "measure length")
  fix rendered rest :: string and c
  assume "dropWhile (\<lambda>c. c \<noteq> CHR ''\<newline>'') rendered = c # rest"
  then show "(rest, rendered) \<in> measure length"
    using length_dropWhile_le [of "\<lambda>c. c \<noteq> CHR ''\<newline>''" rendered] by simp
qed simp

declare indent_lines.simps [simp del]

definition explain_error :: "DeliveryRecord \<Rightarrow> string" where
  "explain_error r =
     (if dr_lastError r \<noteq> Ok
      then ''    last-error = '' @ errorCodeName (dr_lastError r)
           @ '' ('' @ retryDirectiveName (dr_lastDirective r) @ '')''
           @ (if dr_lastDetail r \<noteq> [] then '': '' @ dr_lastDetail r else []) @ ''\<newline>''
      else [])"

definition explain_delivery :: "ControllerState \<Rightarrow> DistributorPolicy \<Rightarrow> int \<Rightarrow> DeliveryRecord \<Rightarrow> string" where
  "explain_delivery s policy nowMillis r =
     ''  delivery '' @ dr_id r @ ''\<newline>''
     @ ''    deployment-set = '' @ dr_setId r @ ''\<newline>''
     @ ''    config-key = '' @ dr_key r @ ''\<newline>''
     @ ''    artifact = '' @ dr_artifact r @ '' revision='' @ to_string (unat (dr_revision r)) @ ''\<newline>''
     @ ''    generation = '' @ to_string (unat (dr_generation r))
     @ '' digest = '' @ Digest_hex (dr_digest r) @ ''\<newline>''
     @ ''    schema = '' @ dr_schema r @ '' schema-version='' @ to_string (unat (dr_schemaVersion r)) @ ''\<newline>''
     @ ''    requirement = '' @ guaranteeRequirementName (dr_requirement r)
     @ '' effective-guarantee = '' @ applyGuaranteeName (dr_effectiveGuarantee r) @ ''\<newline>''
     @ ''    state = '' @ deliveryStateName (dr_state r) @ '' attempt = '' @ to_string (unat (dr_attempt r))
     @ '' failures = '' @ to_string (unat (dr_failures r)) @ ''\<newline>''
     @ explain_error r
     @ ''    authority-epoch = '' @ to_string (unat (dr_authorityEpoch r)) @ '' authority-incarnation = ''
     @ (if OpaqueIdentity_isSet (dr_authorityIncarnation r)
        then take 8 (toHex (dr_authorityIncarnation r)) else ''unset'') @ ''\<newline>''
     @ ''    acknowledged-from-reconciliation = '' @ true_false (dr_acknowledgedFromReconcile r) @ ''\<newline>''
     @ (if dr_events r \<noteq> []
        then ''    evidence:\<newline>''
             @ concat (map (\<lambda>e. ''      - '' @ LifecycleEvent_render e @ ''\<newline>'') (dr_events r))
        else [])
     @ ''    '' @ indent_lines (Decision_render
                  (decide policy (buildDecisionInput s policy r nowMillis) (cs_epoch s) (dr_generation r)) policy)"

definition explainTarget :: "ControllerState \<Rightarrow> DistributorPolicy \<Rightarrow> TargetId \<Rightarrow> int \<Rightarrow> string" where
  "explainTarget s policy target nowMillis =
     ''target: '' @ target @ ''\<newline>''
     @ (case findTarget s target of
          None \<Rightarrow> ''  runtime: never contacted\<newline>''
        | Some t \<Rightarrow> explain_runtime policy nowMillis t)
     @ (let mine = filter (\<lambda>r. dr_target r = target) (om_values (cs_deliveries s))
        in concat (map (explain_delivery s policy nowMillis) mine)
           @ (if mine = [] then ''  no deliveries are recorded for this target\<newline>'' else []))"

subsection \<open>Lineages and their desired delivery\<close>

lemma group_lineages_snoc:
  "group_lineages (rs @ [r]) =
     om_put (dr_target r, dr_key r)
       ((case om_find (group_lineages rs) (dr_target r, dr_key r) of None \<Rightarrow> [] | Some l \<Rightarrow> l) @ [r])
       (group_lineages rs)"
  by (simp add: group_lineages_def Let_def)

lemma om_inv_group: "om_inv (group_lineages rs)"
  by (induction rs rule: rev_induct) (simp_all add: group_lineages_snoc, simp add: group_lineages_def)

definition of_lineage :: "TargetId \<times> ConfigKey \<Rightarrow> DeliveryRecord \<Rightarrow> bool" where
  "of_lineage k r \<longleftrightarrow> (dr_target r, dr_key r) = k"

lemma find_group:
  "om_find (group_lineages rs) k =
     (if filter (of_lineage k) rs = [] then None else Some (filter (of_lineage k) rs))"
proof (induction rs rule: rev_induct)
  case Nil
  show ?case by (simp add: group_lineages_def om_find_def)
next
  case (snoc r rs)
  have "of_lineage k r \<longleftrightarrow> k = (dr_target r, dr_key r)" by (auto simp: of_lineage_def)
  then show ?case using snoc by (auto simp: group_lineages_snoc split: option.splits if_splits)
qed

definition record_order :: "DeliveryRecord \<Rightarrow> Generation \<times> DeploymentId" where
  "record_order r = (dr_generation r, dr_id r)"

lemma newer_delivery_order: "newer_delivery r n \<longleftrightarrow> record_order n < record_order r"
  by (auto simp: newer_delivery_def record_order_def)

lemma fold_newest:
  fixes f :: "'a \<Rightarrow> 'b::linorder"
  assumes "xs \<noteq> []"
  shows "\<exists>m \<in> set xs. fold (\<lambda>r n. case n of None \<Rightarrow> Some r | Some x \<Rightarrow> if f x < f r then Some r else n) xs None = Some m
    \<and> (\<forall>x \<in> set xs. f x \<le> f m)"
  using assms
proof (induction xs rule: rev_nonempty_induct)
  case (snoc x xs)
  then show ?case by fastforce
qed simp

lemma last_sort_key:
  fixes f :: "'a \<Rightarrow> 'b::linorder"
  assumes "xs \<noteq> []"
  shows "last (sort_key f xs) \<in> set xs \<and> (\<forall>x \<in> set xs. f x \<le> f (last (sort_key f xs)))"
proof -
  have "sort_key f xs \<noteq> []" using assms by (metis set_empty set_sort)
  then obtain ys y where s: "sort_key f xs = ys @ [y]" by (metis rev_exhaust)
  have "sorted (map f (ys @ [y]))" by (metis s sorted_sort_key)
  moreover have "set xs = insert y (set ys)" using set_sort [of f xs] by (simp add: s)
  ultimately show ?thesis by (auto simp: s sorted_append)
qed

lemma keyed_values_inj:
  "keyed f m \<Longrightarrow> x \<in> set (om_values m) \<Longrightarrow> y \<in> set (om_values m) \<Longrightarrow> f x = f y \<Longrightarrow> x = y"
  by (metis keyed_find keyed_inv om_values_iff option.inject)

text \<open>The last record of a sorted lineage is the one the state finds for it.\<close>

lemma desired_is_latest:
  assumes "keyed dr_id (cs_deliveries s)"
    and "filter (of_lineage (t, k)) (om_values (cs_deliveries s)) \<noteq> []" (is "?l \<noteq> []")
  shows "latestForLineage s t k = Some (last (sort_records ?l))"
proof -
  let ?step = "\<lambda>r n. case n of None \<Rightarrow> Some r | Some x \<Rightarrow> if record_order x < record_order r then Some r else n"
  have "latestForLineage s t k = fold ?step ?l None"
    unfolding latestForLineage_def fold_filter
    by (rule fold_cong) (auto simp: newer_delivery_order of_lineage_def fun_eq_iff split: option.splits)
  moreover obtain m where m: "m \<in> set ?l" "fold ?step ?l None = Some m" "\<forall>x \<in> set ?l. record_order x \<le> record_order m"
    using fold_newest [OF assms(2), of record_order] by auto
  moreover have "last (sort_records ?l) = m"
  proof -
    have "sort_records ?l = sort_key record_order ?l"
      by (simp add: sort_records_def record_order_def [abs_def])
    then have *: "last (sort_records ?l) \<in> set ?l" "\<forall>x \<in> set ?l. record_order x \<le> record_order (last (sort_records ?l))"
      using last_sort_key [OF assms(2), of record_order] by simp_all
    then have "record_order (last (sort_records ?l)) = record_order m" using m by (meson order_antisym)
    then have "dr_id (last (sort_records ?l)) = dr_id m" by (simp add: record_order_def)
    moreover have "last (sort_records ?l) \<in> set (om_values (cs_deliveries s))" "m \<in> set (om_values (cs_deliveries s))"
      using * m by simp_all
    ultimately show ?thesis
      by (metis keyed_values_inj [OF assms(1)])
  qed
  ultimately show ?thesis by simp
qed

lemma latest_None: "filter (of_lineage (t, k)) (om_values (cs_deliveries s)) = [] \<Longrightarrow> latestForLineage s t k = None"
  unfolding latestForLineage_def of_lineage_def filter_empty_conv
  by (rule fold_invariant [where Q = "\<lambda>r. \<not> (dr_target r = t \<and> dr_key r = k)" and P = "\<lambda>n. n = None"]) auto

lemma latest_iff:
  assumes "keyed dr_id (cs_deliveries s)"
  shows "latestForLineage s t k = Some d \<longleftrightarrow>
    (\<exists>l. om_find (group_lineages (om_values (cs_deliveries s))) (t, k) = Some l \<and> d = last (sort_records l))"
  using desired_is_latest [OF assms, of t k] latest_None [of t k s] by (auto simp: find_group)

lemma latest_lineage:
  assumes "keyed dr_id (cs_deliveries s)" and "latestForLineage s t k = Some d"
  shows "dr_target d = t" and "dr_key d = k"
proof -
  let ?l = "filter (of_lineage (t, k)) (om_values (cs_deliveries s))"
  have "?l \<noteq> []" "d = last (sort_records ?l)"
    using assms(2) unfolding latest_iff [OF assms(1)] by (auto simp: find_group split: if_splits)
  then have "d \<in> set ?l"
    using last_sort_key [of ?l] by (metis sort_records_def)
  then show "dr_target d = t" "dr_key d = k" by (auto simp: of_lineage_def)
qed

subsection \<open>One line of the report\<close>

lemma fold_add_blocker: "fold add_blocker bs l = l\<lparr>lc_blockers := lc_blockers l @ bs\<rparr>"
  by (induction bs arbitrary: l) (simp_all add: add_blocker_def)

definition state_blockers :: "DistributorPolicy \<Rightarrow> DeliveryRecord \<Rightarrow> BlockerKind list" where
  "state_blockers policy d =
     (case dr_state d of
        Acknowledged \<Rightarrow> []
      | Applied \<Rightarrow> [AwaitingAcknowledgement]
      | Prepared \<Rightarrow> [NotYetDelivered]
      | Failed \<Rightarrow> (if dr_failures d \<ge> maxAttempts policy then RetryBudgetExhausted else DeliveryInFlight)
                  # failed_blockers (dr_lastError d)
      | Rejected \<Rightarrow> [rejected_blocker (dr_lastError d)]
      | DeliveryState.Retired \<Rightarrow> [Superseded]
      | _ \<Rightarrow> [DeliveryInFlight])"

definition runtime_blockers :: "DistributorPolicy \<Rightarrow> int \<Rightarrow> DeliveryRecord \<Rightarrow> TargetRuntime option \<Rightarrow> BlockerKind list" where
  "runtime_blockers policy n d runtime =
     (case runtime of
        None \<Rightarrow> [TargetUnreachable]
      | Some t \<Rightarrow>
          (if \<not> isFreshContact t policy n \<and> isPendingState (dr_state d) then [LivenessEvidenceStale] else [])
          @ (if tr_applyPrepared t then [PrepareWindowOpen] else [])
          @ (if tr_committedGeneration t > dr_generation d then [TargetAheadOfDesired] else []))"

lemmas edit_defs = describe_in_flight_def with_reason_def add_pending_def add_blocker_def

lemma describe_state_fields:
  "lc_converged (describe_state policy d l) \<longleftrightarrow> lc_converged l \<or> dr_state d = Acknowledged"
  "lc_target (describe_state policy d l) = lc_target l"
  "lc_key (describe_state policy d l) = lc_key l"
  "lc_state (describe_state policy d l) = lc_state l"
  "lc_desiredGeneration (describe_state policy d l) = lc_desiredGeneration l"
  "lc_currentGeneration (describe_state policy d l) = lc_currentGeneration l"
  "lc_blockers (describe_state policy d l) = lc_blockers l @ state_blockers policy d"
  by (cases "dr_state d", simp_all add: describe_state_def state_blockers_def edit_defs fold_add_blocker Let_def)+

lemma describe_runtime_fields:
  "lc_converged (describe_runtime policy n d r l) = lc_converged l"
  "lc_target (describe_runtime policy n d r l) = lc_target l"
  "lc_key (describe_runtime policy n d r l) = lc_key l"
  "lc_state (describe_runtime policy n d r l) = lc_state l"
  "lc_desiredGeneration (describe_runtime policy n d r l) = lc_desiredGeneration l"
  "lc_currentGeneration (describe_runtime policy n d r l) = lc_currentGeneration l"
  "lc_blockers (describe_runtime policy n d r l) = lc_blockers l @ runtime_blockers policy n d r"
  by (cases r, simp_all add: describe_runtime_def runtime_blockers_def edit_defs Let_def)+

lemma initial_lineage_fields:
  "lc_converged (initial_lineage d r) \<longleftrightarrow> False"
  "lc_target (initial_lineage d r) = dr_target d"
  "lc_key (initial_lineage d r) = dr_key d"
  "lc_state (initial_lineage d r) = dr_state d"
  "lc_desiredGeneration (initial_lineage d r) = dr_generation d"
  "lc_currentGeneration (initial_lineage d r) = (case r of None \<Rightarrow> 0 | Some t \<Rightarrow> tr_committedGeneration t)"
  "lc_blockers (initial_lineage d r) = []"
  by (cases r, simp_all add: initial_lineage_def Let_def)+

lemmas lineage_stages = lineage_of_def Let_def normalize_lineage_def describe_state_fields
  describe_runtime_fields initial_lineage_fields

lemma lineage_fields:
  "lc_converged (lineage_of s policy n d) \<longleftrightarrow> dr_state d = Acknowledged"
  "lc_target (lineage_of s policy n d) = dr_target d"
  "lc_key (lineage_of s policy n d) = dr_key d"
  "lc_state (lineage_of s policy n d) = dr_state d"
  "lc_desiredGeneration (lineage_of s policy n d) = dr_generation d"
  "lc_currentGeneration (lineage_of s policy n d) =
     (case findTarget s (dr_target d) of None \<Rightarrow> 0 | Some t \<Rightarrow> tr_committedGeneration t)"
  by (simp_all add: lineage_stages)

lemma lineage_blockers:
  "lc_blockers (lineage_of s policy n d) =
     remdups_adj (sort_key blockerKindValue
       (state_blockers policy d @ runtime_blockers policy n d (findTarget s (dr_target d))))"
  by (simp add: lineage_stages)

lemma blockerKindValue_inject: "blockerKindValue a = blockerKindValue b \<longleftrightarrow> a = b"
  by (cases a; cases b) simp_all

text \<open>The head of a sorted list of blockers is the least of them.\<close>

lemma hd_sort_key:
  fixes f :: "'a \<Rightarrow> 'b::linorder"
  assumes "x \<in> set xs" and "\<forall>y \<in> set xs. f x \<le> f y" and "inj f"
  shows "hd (sort_key f xs) = x"
proof -
  obtain y ys where s: "sort_key f xs = y # ys" by (metis assms(1) list.exhaust list.set_cases set_sort)
  have "sorted (map f (y # ys))" by (metis s sorted_sort_key)
  moreover have "set xs = insert y (set ys)" using set_sort [of f xs] by (simp add: s)
  ultimately have "f y \<le> f x" "f x \<le> f y" using assms(1,2) by auto
  then show ?thesis using assms(3) by (simp add: s injD)
qed

definition leads :: "BlockerKind \<Rightarrow> BlockerKind list \<Rightarrow> bool" where
  "leads b bs \<longleftrightarrow> b \<in> set bs \<and> (\<forall>y \<in> set bs. blockerKindValue b \<le> blockerKindValue y)"

lemma is_blocked_leads:
  assumes "leads b (state_blockers policy d @ runtime_blockers policy n d (findTarget s (dr_target d)))"
  shows "is_blocked (lineage_of s policy n d) \<longleftrightarrow>
    b \<in> {RetryBudgetExhausted, GuaranteeUnsupported, ArtifactUnavailable, PolicyRejected,
         TargetAheadOfDesired, DigestMismatchReported, SchemaUnsupported}"
proof -
  have "hd (sort_key blockerKindValue (state_blockers policy d @ runtime_blockers policy n d (findTarget s (dr_target d)))) = b"
    using assms by (intro hd_sort_key) (auto simp: leads_def inj_def blockerKindValue_inject)
  moreover have "sort_key blockerKindValue (state_blockers policy d @ runtime_blockers policy n d (findTarget s (dr_target d))) \<noteq> []"
    using assms by (metis empty_iff empty_set leads_def set_sort)
  ultimately show ?thesis
    by (simp add: is_blocked_def lineage_blockers)
qed

lemma runtime_blockers_ge: "b \<in> set (runtime_blockers policy n d r) \<Longrightarrow> 5 \<le> blockerKindValue b"
  by (auto simp: runtime_blockers_def split: option.splits if_splits)

lemma failed_blockers_ge: "b \<in> set (failed_blockers e) \<Longrightarrow> 5 \<le> blockerKindValue b"
  by (auto simp: failed_blockers_def split: ErrorCode.splits)

lemma rejected_blocker_cases:
  obtains "rejected_blocker e = GuaranteeUnsupported" | "rejected_blocker e = ArtifactUnavailable"
  | "rejected_blocker e = SchemaUnsupported" | "rejected_blocker e = PolicyRejected"
  by (cases e) (simp_all add: rejected_blocker_def)

text \<open>Exactly these deliveries, when not acknowledged, count as blocked.\<close>

definition blocked_delivery :: "DistributorPolicy \<Rightarrow> TargetRuntime option \<Rightarrow> DeliveryRecord \<Rightarrow> bool" where
  "blocked_delivery policy runtime d \<longleftrightarrow>
     dr_state d = Failed \<and> dr_failures d \<ge> maxAttempts policy
     \<or> dr_state d = Rejected \<and> runtime \<noteq> None
     \<or> dr_state d = DeliveryState.Retired \<and> (\<exists>t. runtime = Some t \<and> tr_committedGeneration t > dr_generation d)"

lemma leads_early:
  assumes "state_blockers policy d = b # bs" and "blockerKindValue b \<le> 5" and "\<forall>x \<in> set bs. 5 \<le> blockerKindValue x"
  shows "leads b (state_blockers policy d @ runtime_blockers policy n d r)"
  using assms runtime_blockers_ge [of _ policy n d r] by (fastforce simp: leads_def)

lemma is_blocked_iff:
  assumes "dr_state d \<noteq> Acknowledged"
  shows "is_blocked (lineage_of s policy n d) \<longleftrightarrow> blocked_delivery policy (findTarget s (dr_target d)) d"
proof (cases "dr_state d \<in> {Rejected, DeliveryState.Retired}")
  case False
  then obtain b bs where "state_blockers policy d = b # bs" "b \<in> {AwaitingAcknowledgement, NotYetDelivered, DeliveryInFlight, RetryBudgetExhausted}"
      "b = RetryBudgetExhausted \<longleftrightarrow> dr_state d = Failed \<and> dr_failures d \<ge> maxAttempts policy" "\<forall>x \<in> set bs. 5 \<le> blockerKindValue x"
    using assms failed_blockers_ge [of _ "dr_lastError d"] by (cases "dr_state d") (simp_all add: state_blockers_def)
  then show ?thesis
    using False leads_early [of policy d b bs n "findTarget s (dr_target d)", THEN is_blocked_leads]
    by (auto simp: blocked_delivery_def)
next
  case True
  show ?thesis
  proof (cases "findTarget s (dr_target d)")
    case None
    have "leads TargetUnreachable (state_blockers policy d @ runtime_blockers policy n d None)"
      using True by (rule_tac e = "dr_lastError d" in rejected_blocker_cases)
        (auto simp: leads_def state_blockers_def runtime_blockers_def)
    from is_blocked_leads [OF this [folded None]] show ?thesis
      using True by (auto simp: None blocked_delivery_def)
  next
    case (Some t)
    let ?b = "if dr_state d = Rejected then rejected_blocker (dr_lastError d)
      else if tr_committedGeneration t > dr_generation d then TargetAheadOfDesired else Superseded"
    have "leads ?b (state_blockers policy d @ runtime_blockers policy n d (Some t))"
      using True by (rule_tac e = "dr_lastError d" in rejected_blocker_cases)
        (auto simp: leads_def state_blockers_def runtime_blockers_def)
    from is_blocked_leads [OF this [folded Some]] show ?thesis
      using True by (rule_tac e = "dr_lastError d" in rejected_blocker_cases)
        (auto simp: Some blocked_delivery_def)
  qed
qed

subsection \<open>The whole report\<close>

abbreviation line_of :: "ControllerState \<Rightarrow> DistributorPolicy \<Rightarrow> int \<Rightarrow> DeliveryRecord list \<Rightarrow> LineageConvergence" where
  "line_of s policy n rs \<equiv> lineage_of s policy n (last (sort_records rs))"

definition is_diverged :: "LineageConvergence \<Rightarrow> bool" where
  "is_diverged l \<longleftrightarrow> uint_isSet (lc_currentGeneration l) \<and> lc_currentGeneration l < lc_desiredGeneration l"

lemma fold_report:
  fixes L :: "DeliveryRecord list list" and rp :: ConvergenceReport and s :: ControllerState
    and policy :: DistributorPolicy and n :: int
  defines "R \<equiv> fold (report_lineage s policy n) L rp" and "ls \<equiv> map (line_of s policy n) L"
  shows "rp_lineages R = rp_lineages rp @ ls"
    and "rp_lineageCount R = rp_lineageCount rp + length ls"
    and "rp_convergedCount R = rp_convergedCount rp + length (filter lc_converged ls)"
    and "rp_blockedCount R = rp_blockedCount rp + length (filter (\<lambda>l. \<not> lc_converged l \<and> is_blocked l) ls)"
    and "rp_divergedCount R = rp_divergedCount rp
      + length (filter (\<lambda>l. \<not> lc_converged l \<and> \<not> is_blocked l \<and> is_diverged l) ls)"
    and "rp_pendingCount R = rp_pendingCount rp
      + length (filter (\<lambda>l. \<not> lc_converged l \<and> \<not> is_blocked l \<and> \<not> is_diverged l) ls)"
    and "rp_nodeId R = rp_nodeId rp" and "rp_epoch R = rp_epoch rp"
  unfolding R_def ls_def
  by (induction L arbitrary: rp) (simp_all add: report_lineage_def Let_def is_diverged_def)

lemma length_filter_keys:
  assumes "om_inv m"
  shows "length (filter P (map f (om_values m))) = card {k. \<exists>v. om_find m k = Some v \<and> P (f v)}"
proof -
  have "length (filter P (map f (om_values m))) = length (filter (\<lambda>e. P (f (snd e))) m)"
    by (simp add: om_values_def filter_map comp_def)
  also have "\<dots> = card (fst ` set (filter (\<lambda>e. P (f (snd e))) m))"
  proof -
    have "distinct m" "inj_on fst (set m)" using om_inv_distinct [OF assms] by (simp_all add: distinct_map)
    then have "distinct (filter (\<lambda>e. P (f (snd e))) m)" "inj_on fst (set (filter (\<lambda>e. P (f (snd e))) m))"
      by (simp_all add: inj_on_def)
    then show ?thesis by (simp only: card_image distinct_card)
  qed
  also have "fst ` set (filter (\<lambda>e. P (f (snd e))) m) = {k. \<exists>v. om_find m k = Some v \<and> P (f v)}"
    using om_find_mem [OF assms] by (force dest: om_find_Some_mem)
  finally show ?thesis .
qed

lemma report_card:
  assumes "keyed dr_id (cs_deliveries s)"
  shows "length (filter P (map (line_of s policy n) (om_values (group_lineages (om_values (cs_deliveries s)))))) =
    card {(t, k). \<exists>d. latestForLineage s t k = Some d \<and> P (lineage_of s policy n d)}"
  unfolding length_filter_keys [OF om_inv_group]
  by (rule arg_cong [where f = card]) (auto simp: latest_iff [OF assms])

lemma outcomes_partition:
  "length ls = length (filter P ls) + length (filter (\<lambda>x. \<not> P x \<and> Q x) ls)
     + length (filter (\<lambda>x. \<not> P x \<and> \<not> Q x \<and> S x) ls) + length (filter (\<lambda>x. \<not> P x \<and> \<not> Q x \<and> \<not> S x) ls)"
  by (induction ls) auto

lemma report_lines:
  "rp_lineages (buildConvergenceReport s policy n) =
     map (line_of s policy n) (om_values (group_lineages (om_values (cs_deliveries s))))"
  by (simp add: buildConvergenceReport_def fold_report emptyReport_def)

lemma report_counts:
  fixes s :: ControllerState and policy :: DistributorPolicy and n :: int
  assumes "keyed dr_id (cs_deliveries s)"
  defines "R \<equiv> buildConvergenceReport s policy n"
  defines "lines \<equiv> \<lambda>P. {(t, k). \<exists>d. latestForLineage s t k = Some d \<and> P (lineage_of s policy n d)}"
  shows "rp_lineageCount R = card (lines (\<lambda>_. True))"
    and "rp_convergedCount R = card (lines lc_converged)"
    and "rp_blockedCount R = card (lines (\<lambda>l. \<not> lc_converged l \<and> is_blocked l))"
    and "rp_divergedCount R = card (lines (\<lambda>l. \<not> lc_converged l \<and> \<not> is_blocked l \<and> is_diverged l))"
    and "rp_pendingCount R = card (lines (\<lambda>l. \<not> lc_converged l \<and> \<not> is_blocked l \<and> \<not> is_diverged l))"
  using report_card [OF assms(1), of "\<lambda>_. True" policy n]
  unfolding R_def lines_def
  by (simp_all add: buildConvergenceReport_def fold_report emptyReport_def report_card [OF assms(1)]
      del: length_filter_map)

lemma finite_lineages: "keyed dr_id (cs_deliveries s) \<Longrightarrow> finite {(t, k). \<exists>d. latestForLineage s t k = Some d \<and> P t k d}"
  by (rule finite_subset [of _ "fst ` set (group_lineages (om_values (cs_deliveries s)))"])
     (force simp: latest_iff dest: om_find_Some_mem)+

lemma no_line:
  assumes "keyed dr_id (cs_deliveries s)"
  shows "card {(t, k). \<exists>d. latestForLineage s t k = Some d \<and> P (lineage_of s policy n d)} = 0
    \<longleftrightarrow> (\<forall>t k d. latestForLineage s t k = Some d \<longrightarrow> \<not> P (lineage_of s policy n d))"
  unfolding card_0_eq [OF finite_lineages [OF assms, of "\<lambda>t k d. P (lineage_of s policy n d)"]] by auto

text \<open>
  C35: The report covers every lineage once. Its lines are in strict order of target and key, there is one for
  each pair that has a delivery, and each describes the delivery the state itself takes as the latest of
  that pair, which is also the one the decision input is built against.
\<close>

theorem report_covers_lineages:
  assumes "keyed dr_id (cs_deliveries s)"
  shows "sorted_wrt (<) (map (\<lambda>l. (lc_target l, lc_key l)) (rp_lineages (buildConvergenceReport s policy n)))
    \<and> (\<lambda>l. (lc_target l, lc_key l)) ` set (rp_lineages (buildConvergenceReport s policy n)) =
        (\<lambda>r. (dr_target r, dr_key r)) ` set (om_values (cs_deliveries s))
    \<and> (\<forall>l \<in> set (rp_lineages (buildConvergenceReport s policy n)).
         \<exists>d. latestForLineage s (lc_target l) (lc_key l) = Some d \<and> l = lineage_of s policy n d)"
proof -
  let ?m = "group_lineages (om_values (cs_deliveries s))"
  have line: "latestForLineage s (fst k) (snd k) = Some (last (sort_records v))"
      "(dr_target (last (sort_records v)), dr_key (last (sort_records v))) = k"
    if "(k, v) \<in> set ?m" for k v
  proof -
    show l: "latestForLineage s (fst k) (snd k) = Some (last (sort_records v))"
      using om_find_mem [OF om_inv_group that] by (simp add: latest_iff [OF assms])
    show "(dr_target (last (sort_records v)), dr_key (last (sort_records v))) = k"
      using latest_lineage [OF assms l] by simp
  qed
  have keys: "map (\<lambda>l. (lc_target l, lc_key l)) (rp_lineages (buildConvergenceReport s policy n)) = map fst ?m"
    using line(2) by (auto simp: report_lines om_values_def lineage_fields)
  have "fst ` set ?m = (\<lambda>r. (dr_target r, dr_key r)) ` set (om_values (cs_deliveries s))"
  proof -
    have "k \<in> fst ` set ?m \<longleftrightarrow> k \<in> (\<lambda>r. (dr_target r, dr_key r)) ` set (om_values (cs_deliveries s))" for k
    proof -
      have "k \<in> fst ` set ?m \<longleftrightarrow> om_find ?m k \<noteq> None" by (simp add: om_find_def map_of_eq_None_iff)
      moreover have "k \<in> (\<lambda>r. (dr_target r, dr_key r)) ` set (om_values (cs_deliveries s))
          \<longleftrightarrow> filter (of_lineage k) (om_values (cs_deliveries s)) \<noteq> []"
        by (auto simp: filter_empty_conv of_lineage_def image_iff)
      ultimately show ?thesis by (simp add: find_group)
    qed
    then show ?thesis by (rule set_eqI)
  qed
  moreover have "\<forall>l \<in> set (rp_lineages (buildConvergenceReport s policy n)).
         \<exists>d. latestForLineage s (lc_target l) (lc_key l) = Some d \<and> l = lineage_of s policy n d"
    using line by (fastforce simp: report_lines om_values_def lineage_fields)
  ultimately show ?thesis
    using om_inv_group [of "om_values (cs_deliveries s)"] keys by (metis (no_types, lifting) list.set_map om_inv_def)
qed

text \<open>
  C34: The four outcomes of a report. A lineage counts as converged exactly when its latest delivery is
  acknowledged; as blocked exactly when that delivery failed with its budget used up, was rejected by a
  target the controller has met, or is retired behind a target that is ahead of it; as diverged when it is
  neither and the target holds an older generation. The outcomes partition the lineages, and the report
  is converged exactly when every latest delivery is acknowledged.
\<close>

theorem report_outcomes:
  assumes "keyed dr_id (cs_deliveries s)"
  shows "let R = buildConvergenceReport s policy n in
      rp_convergedCount R = card {(t, k). \<exists>d. latestForLineage s t k = Some d \<and> dr_state d = Acknowledged}
    \<and> rp_blockedCount R = card {(t, k). \<exists>d. latestForLineage s t k = Some d \<and> blocked_delivery policy (findTarget s t) d}
    \<and> rp_divergedCount R = card {(t, k). \<exists>d. latestForLineage s t k = Some d \<and> dr_state d \<noteq> Acknowledged
         \<and> \<not> blocked_delivery policy (findTarget s t) d
         \<and> (\<exists>r. findTarget s t = Some r \<and> 0 < tr_committedGeneration r \<and> tr_committedGeneration r < dr_generation d)}
    \<and> rp_lineageCount R = rp_convergedCount R + rp_blockedCount R + rp_divergedCount R + rp_pendingCount R
    \<and> (ConvergenceReport_converged R \<longleftrightarrow> (\<forall>t k d. latestForLineage s t k = Some d \<longrightarrow> dr_state d = Acknowledged))"
proof -
  define R where "R = buildConvergenceReport s policy n"
  note counts = report_counts [OF assms(1), of policy n, folded R_def]
  have target: "dr_target d = t" if "latestForLineage s t k = Some d" for t k d
    using latest_lineage [OF assms(1) that] by simp
  have blocked: "\<not> lc_converged (lineage_of s policy n d) \<and> is_blocked (lineage_of s policy n d)
      \<longleftrightarrow> blocked_delivery policy (findTarget s (dr_target d)) d" for d
    using is_blocked_iff [of d s policy n] by (auto simp: lineage_fields blocked_delivery_def)
  have diverged: "is_diverged (lineage_of s policy n d) \<longleftrightarrow>
      (\<exists>r. findTarget s (dr_target d) = Some r \<and> 0 < tr_committedGeneration r \<and> tr_committedGeneration r < dr_generation d)" for d
    by (auto simp: is_diverged_def lineage_fields uint_isSet_def word_gt_0 split: option.splits)
  have "rp_convergedCount R = card {(t, k). \<exists>d. latestForLineage s t k = Some d \<and> dr_state d = Acknowledged}"
    by (simp add: counts lineage_fields)
  moreover have "rp_blockedCount R = card {(t, k). \<exists>d. latestForLineage s t k = Some d \<and> blocked_delivery policy (findTarget s t) d}"
    unfolding counts blocked by (rule arg_cong [where f = card]) (auto dest: target)
  moreover have "rp_divergedCount R = card {(t, k). \<exists>d. latestForLineage s t k = Some d \<and> dr_state d \<noteq> Acknowledged
         \<and> \<not> blocked_delivery policy (findTarget s t) d
         \<and> (\<exists>r. findTarget s t = Some r \<and> 0 < tr_committedGeneration r \<and> tr_committedGeneration r < dr_generation d)}"
    unfolding counts diverged using blocked
    by (intro arg_cong [where f = card]) (auto simp: lineage_fields dest: target)
  moreover have "rp_lineageCount R = rp_convergedCount R + rp_blockedCount R + rp_divergedCount R + rp_pendingCount R"
    using outcomes_partition [of "map (line_of s policy n) (om_values (group_lineages (om_values (cs_deliveries s))))"
        lc_converged is_blocked is_diverged]
    unfolding R_def buildConvergenceReport_def fold_report by (simp add: emptyReport_def del: length_filter_map)
  moreover have "ConvergenceReport_converged R \<longleftrightarrow> (\<forall>t k d. latestForLineage s t k = Some d \<longrightarrow> dr_state d = Acknowledged)"
    unfolding ConvergenceReport_converged_def counts
      no_line [OF assms(1), where P = "\<lambda>l. \<not> lc_converged l \<and> is_blocked l"]
      no_line [OF assms(1), where P = "\<lambda>l. \<not> lc_converged l \<and> \<not> is_blocked l \<and> is_diverged l"]
      no_line [OF assms(1), where P = "\<lambda>l. \<not> lc_converged l \<and> \<not> is_blocked l \<and> \<not> is_diverged l"]
    unfolding lineage_fields(1) by blast
  ultimately show ?thesis unfolding R_def Let_def by blast
qed

subsection \<open>The clock\<close>

lemma describe_runtime_fresh:
  "(\<And>t. r = Some t \<Longrightarrow> isFreshContact t policy n = isFreshContact t policy n') \<Longrightarrow>
   describe_runtime policy n d r l = describe_runtime policy n' d r l"
  by (cases r) (simp_all add: describe_runtime_def Let_def)

text \<open>
  What the clock and the policy can change. The fingerprint depends on neither. The report is the same at
  two times unless some target's contact is fresh at one and stale at the other.
\<close>

theorem report_and_clock:
  shows "ConvergenceReport_fingerprint (buildConvergenceReport s policy n) =
      ConvergenceReport_fingerprint (buildConvergenceReport s policy' n')
    \<and> (buildConvergenceReport s policy n = buildConvergenceReport s policy n'
       \<or> (\<exists>target t. findTarget s target = Some t \<and> isFreshContact t policy n \<noteq> isFreshContact t policy n'))"
proof
  have "fingerprint_lineage (lineage_of s policy n d) = fingerprint_lineage (lineage_of s policy' n' d)" for d
    by (simp add: fingerprint_lineage_def lineage_fields)
  then show "ConvergenceReport_fingerprint (buildConvergenceReport s policy n) =
      ConvergenceReport_fingerprint (buildConvergenceReport s policy' n')"
    by (simp add: ConvergenceReport_fingerprint_def report_lines comp_def)
       (simp add: buildConvergenceReport_def fold_report emptyReport_def)
  show "buildConvergenceReport s policy n = buildConvergenceReport s policy n'
       \<or> (\<exists>target t. findTarget s target = Some t \<and> isFreshContact t policy n \<noteq> isFreshContact t policy n')"
  proof (rule disjCI)
    assume "\<nexists>target t. findTarget s target = Some t \<and> isFreshContact t policy n \<noteq> isFreshContact t policy n'"
    then have "lineage_of s policy n = lineage_of s policy n'"
      by (auto simp: lineage_of_def Let_def fun_eq_iff intro!: arg_cong [where f = normalize_lineage] describe_runtime_fresh)
    then have "report_lineage s policy n = report_lineage s policy n'"
      by (simp add: report_lineage_def [abs_def])
    then show "buildConvergenceReport s policy n = buildConvergenceReport s policy n'"
      by (simp add: buildConvergenceReport_def)
  qed
qed

subsection \<open>Examples\<close>

definition example_delivery :: "DeploymentId \<Rightarrow> Generation \<Rightarrow> DeliveryState \<Rightarrow> DeliveryRecord" where
  "example_delivery d g st =
     \<lparr>dr_id = d, dr_setId = ''set'', dr_rolloutSet = [], dr_target = ''t1'', dr_key = ''app'',
      dr_artifact = ''art'', dr_revision = 1, dr_generation = g, dr_digest = replicate 32 7,
      dr_schema = ''s'', dr_schemaVersion = 1, dr_sizeBytes = 10, dr_requirement = RequireAtomic,
      dr_effectiveGuarantee = AtomicActivate, dr_state = st, dr_attempt = 1, dr_failures = 4,
      dr_lastError = Ok, dr_lastDirective = RetryNow, dr_lastDetail = [], dr_events = [],
      dr_authorityEpoch = 1, dr_authorityIncarnation = unset_identity, dr_targetTerm = 0,
      dr_targetIncarnation = unset_identity, dr_acknowledgedFromReconcile = False,
      dr_superseded = False, dr_createdAtMillis = 0, dr_updatedAtMillis = 0\<rparr>"

definition example_deliveries :: ControllerState where
  "example_deliveries = emptyControllerState\<lparr>cs_deliveries :=
     [(''d1'', example_delivery ''d1'' 1 Acknowledged), (''d2'', example_delivery ''d2'' 2 Failed)]\<rparr>"

lemma example_deliveries_keyed: "keyed dr_id (cs_deliveries example_deliveries)"
  by (simp add: example_deliveries_def keyed_def om_inv_def example_delivery_def)

theorem report_covers_lineages_witness:
  "keyed dr_id (cs_deliveries example_deliveries)
   \<and> (\<lambda>l. (lc_target l, lc_key l)) ` set (rp_lineages (buildConvergenceReport example_deliveries defaultPolicy 0)) =
     {(''t1'', ''app'')}"
  using report_covers_lineages [OF example_deliveries_keyed, of defaultPolicy 0] example_deliveries_keyed
  by (simp add: example_deliveries_def om_values_def example_delivery_def)

theorem report_outcomes_witness:
  "latestForLineage example_deliveries ''t1'' ''app'' = Some (example_delivery ''d2'' 2 Failed)
   \<and> \<not> ConvergenceReport_converged (buildConvergenceReport example_deliveries defaultPolicy 0)"
proof -
  have l: "latestForLineage example_deliveries ''t1'' ''app'' = Some (example_delivery ''d2'' 2 Failed)"
    by (simp add: latestForLineage_def example_deliveries_def om_values_def example_delivery_def newer_delivery_def)
  have "dr_state (example_delivery ''d2'' 2 Failed) \<noteq> Acknowledged" by (simp add: example_delivery_def)
  moreover have "ConvergenceReport_converged (buildConvergenceReport example_deliveries defaultPolicy 0) \<longleftrightarrow>
      (\<forall>t k d. latestForLineage example_deliveries t k = Some d \<longrightarrow> dr_state d = Acknowledged)"
    using report_outcomes [OF example_deliveries_keyed, of defaultPolicy 0] unfolding Let_def by (elim conjE)
  ultimately show ?thesis using l by blast
qed

end
