(* ===== verification/Plan.thy ===== *)
theory Plan
  imports StateRecords Storage
begin

text \<open>
  Deployment plans of \<^verbatim>\<open>include/cf/plan.hpp\<close> and \<^verbatim>\<open>src/plan.cpp\<close>: the line-oriented text in which an
  upstream system lists the targets of a deployment set, its parser with every bound and every refusal,
  and its rendering. The parser is a state machine over the lines; its state is the record
  \<open>PlanParser\<close>, which holds the locals of \<^verbatim>\<open>parseDeploymentPlan\<close>. The lemmas show that every accepted
  plan is well formed, and what parsing the rendering of a well-formed plan gives.
\<close>

subsection \<open>Plans\<close>

definition kDeploymentPlanFormatVersion :: u32 where
  "kDeploymentPlanFormatVersion = 1"

definition kMaxPlanBytes :: nat where
  "kMaxPlanBytes = 4 * 1024 * 1024"

definition kMaxPlanLineBytes :: nat where
  "kMaxPlanLineBytes = 4096"

definition kMaxPlanTargets :: nat where
  "kMaxPlanTargets = 4096"

definition kMaxPlanSourcePathBytes :: nat where
  "kMaxPlanSourcePathBytes = 512"

record DeploymentInstruction =
  di_target :: TargetId
  di_targetClass :: TargetClass
  di_declaredGuarantee :: ApplyGuarantee
  di_configKey :: ConfigKey
  di_artifact :: ArtifactId
  di_revision :: Revision
  di_generation :: Generation
  di_schema :: SchemaId
  di_schemaVersion :: SchemaVersion
  di_digest :: Digest
  di_sizeBytes :: u64
  di_requirement :: GuaranteeRequirement
  di_mediaType :: string
  di_producer :: string
  di_sourcePath :: string
  di_endpoint :: string

record DeploymentPlan =
  dp_setId :: DeploymentSetId
  dp_rolloutSet :: RolloutSetId
  dp_instructions :: "DeploymentInstruction list"

definition emptyInstruction :: DeploymentInstruction where
  "emptyInstruction =
     \<lparr>di_target = [], di_targetClass = Unspecified, di_declaredGuarantee = AtomicActivate,
      di_configKey = [], di_artifact = [], di_revision = 0, di_generation = 0, di_schema = [],
      di_schemaVersion = 0, di_digest = unset_digest, di_sizeBytes = 0, di_requirement = RequireAtomic,
      di_mediaType = ''application/octet-stream'', di_producer = [], di_sourcePath = [],
      di_endpoint = []\<rparr>"

subsection \<open>Lines\<close>

definition is_blank :: "char \<Rightarrow> bool" where
  "is_blank c \<longleftrightarrow> c = CHR '' '' \<or> c = CHR 0x09 \<or> c = CHR 0x0D"

definition trim :: "string \<Rightarrow> string" where
  "trim text = rev (dropWhile is_blank (rev (dropWhile is_blank text)))"

fun unsigned_loop :: "u64 \<Rightarrow> string \<Rightarrow> u64 result" where
  "unsigned_loop v [] = Inr v"
| "unsigned_loop v (c # cs) =
     (if \<not> is_digit c then Inl InvalidArgument
      else case checkedMul v 10 of
             None \<Rightarrow> Inl ArithmeticOverflow
           | Some multiplied \<Rightarrow>
               (case checkedAdd multiplied (of_nat (digit_value c)) of
                  None \<Rightarrow> Inl ArithmeticOverflow
                | Some added \<Rightarrow> unsigned_loop added cs))"

definition parseUnsigned :: "string \<Rightarrow> u64 result" where
  "parseUnsigned text = (if text = [] then Inl MissingField else unsigned_loop 0 text)"

record Line =
  ln_number :: nat
  ln_text :: string

function split_loop :: "nat \<Rightarrow> string \<Rightarrow> Line list result" where
  "split_loop number text =
     (let raw = takeWhile (\<lambda>c. c \<noteq> CHR ''\<newline>'') text;
          number' = number + 1
      in
      if length raw > kMaxPlanLineBytes then Inl LimitExceeded
      else if number' > kMaxPlanTargets * 16 + 64 then Inl LimitExceeded
      else case dropWhile (\<lambda>c. c \<noteq> CHR ''\<newline>'') text of
             [] \<Rightarrow> Inr [\<lparr>ln_number = number', ln_text = trim raw\<rparr>]
           | _ # rest \<Rightarrow>
               cf_try (split_loop number' rest)
                 (\<lambda>ls. Inr (\<lparr>ln_number = number', ln_text = trim raw\<rparr> # ls)))"
  by auto
termination
proof (relation "measure (\<lambda>(number, text). length text)")
  fix number number' :: nat and t rest :: string and c raw
  assume "dropWhile (\<lambda>c. c \<noteq> CHR ''\<newline>'') t = c # rest"
  then show "((number', rest), number, t) \<in> measure (\<lambda>(number, text). length text)"
    using length_dropWhile_le [of "\<lambda>c. c \<noteq> CHR ''\<newline>''" t] by simp
qed simp

declare split_loop.simps [simp del]

definition splitLines :: "string \<Rightarrow> Line list result" where
  "splitLines text = split_loop 0 text"

subsection \<open>The parser\<close>

record PlanParser =
  pp_plan :: DeploymentPlan
  pp_haveHeader :: bool
  pp_haveSetId :: bool
  pp_inTarget :: bool
  pp_current :: DeploymentInstruction
  pp_seenFields :: "string set"
  pp_seenTargets :: "string set"

definition initialParser :: PlanParser where
  "initialParser =
     \<lparr>pp_plan = \<lparr>dp_setId = [], dp_rolloutSet = [], dp_instructions = []\<rparr>, pp_haveHeader = False,
      pp_haveSetId = False, pp_inTarget = False, pp_current = emptyInstruction,
      pp_seenFields = {}, pp_seenTargets = {}\<rparr>"

definition mandatory_fields :: "string list" where
  "mandatory_fields =
     [''class'', ''guarantee'', ''config-key'', ''artifact'', ''revision'', ''generation'', ''schema'',
      ''schema-version'', ''digest'', ''size'', ''requires'', ''target'']"

definition finishTarget :: "PlanParser \<Rightarrow> PlanParser result" where
  "finishTarget p =
     (let i = pp_current p in
      fail_if (\<not> list_all (\<lambda>f. f \<in> pp_seenFields p) mandatory_fields) MalformedInput
      (fail_if (di_sizeBytes i = 0) MalformedInput
      (fail_if (\<not> Digest_isSet (di_digest i)) MalformedInput
      (fail_if (di_generation i = 0) MalformedInput
      (fail_if (di_target i \<in> pp_seenTargets p) MalformedInput
      (Inr (p\<lparr>pp_seenTargets := insert (di_target i) (pp_seenTargets p),
              pp_plan := (pp_plan p)\<lparr>dp_instructions := dp_instructions (pp_plan p) @ [i]\<rparr>\<rparr>)))))))"

text \<open>One field of a target block.\<close>

definition plan_endpoint :: "string \<Rightarrow> DeploymentInstruction \<Rightarrow> DeploymentInstruction result" where
  "plan_endpoint value i =
     (case parseEndpoint value of
        Inl e \<Rightarrow> Inl e
      | Inr e \<Rightarrow> if ep_host e = [] \<or> ep_port e = 0 then Inl OutOfRange
                else Inr (i\<lparr>di_endpoint := value\<rparr>))"

definition plan_field :: "string \<Rightarrow> string \<Rightarrow> DeploymentInstruction \<Rightarrow> DeploymentInstruction result" where
  "plan_field keyword value i =
     (if keyword = ''class''
      then (case parseTargetClass value of None \<Rightarrow> Inl InvalidArgument | Some c \<Rightarrow> Inr (i\<lparr>di_targetClass := c\<rparr>))
      else if keyword = ''guarantee''
      then (case parseApplyGuarantee value of
              None \<Rightarrow> Inl InvalidArgument | Some g \<Rightarrow> Inr (i\<lparr>di_declaredGuarantee := g\<rparr>))
      else if keyword = ''config-key'' then cf_try (parseId value) (\<lambda>k. Inr (i\<lparr>di_configKey := k\<rparr>))
      else if keyword = ''artifact'' then cf_try (parseId value) (\<lambda>a. Inr (i\<lparr>di_artifact := a\<rparr>))
      else if keyword = ''revision'' then cf_try (parseUnsigned value) (\<lambda>n. Inr (i\<lparr>di_revision := n\<rparr>))
      else if keyword = ''generation'' then cf_try (parseUnsigned value) (\<lambda>n. Inr (i\<lparr>di_generation := n\<rparr>))
      else if keyword = ''schema'' then cf_try (parseId value) (\<lambda>a. Inr (i\<lparr>di_schema := a\<rparr>))
      else if keyword = ''schema-version''
      then cf_try (parseUnsigned value) (\<lambda>n.
             case checkedCast_unsigned n of None \<Rightarrow> Inl OutOfRange | Some v \<Rightarrow> Inr (i\<lparr>di_schemaVersion := v\<rparr>))
      else if keyword = ''digest'' then cf_try (Digest_parse value) (\<lambda>d. Inr (i\<lparr>di_digest := d\<rparr>))
      else if keyword = ''size'' then cf_try (parseUnsigned value) (\<lambda>n. Inr (i\<lparr>di_sizeBytes := n\<rparr>))
      else if keyword = ''requires''
      then (case parseGuaranteeRequirement value of
              None \<Rightarrow> Inl InvalidArgument | Some g \<Rightarrow> Inr (i\<lparr>di_requirement := g\<rparr>))
      else if keyword = ''media-type''
      then fail_if (value = [] \<or> length value > kMaxMediaTypeBytes) InvalidArgument (Inr (i\<lparr>di_mediaType := value\<rparr>))
      else if keyword = ''producer''
      then fail_if (length value > kMaxProducerBytes) InvalidArgument (Inr (i\<lparr>di_producer := value\<rparr>))
      else if keyword = ''source''
      then fail_if (value = [] \<or> length value > kMaxPlanSourcePathBytes) InvalidArgument
             (Inr (i\<lparr>di_sourcePath := value\<rparr>))
      else if keyword = ''endpoint'' then plan_endpoint value i
      else Inl MalformedInput)"

definition open_target :: "string \<Rightarrow> PlanParser \<Rightarrow> PlanParser result" where
  "open_target value p =
     fail_if (\<not> pp_haveSetId p) MalformedInput
     (fail_if (length (dp_instructions (pp_plan p)) \<ge> kMaxPlanTargets) LimitExceeded
     (fail_if (value = []) MissingField
     (cf_try (parseId value) (\<lambda>t.
        Inr (p\<lparr>pp_current := emptyInstruction\<lparr>di_target := t\<rparr>, pp_seenFields := {''target''},
               pp_inTarget := True\<rparr>)))))"

text \<open>One line that is neither empty nor a comment, split into keyword and value.\<close>

definition parse_keyword :: "string \<Rightarrow> string \<Rightarrow> PlanParser \<Rightarrow> PlanParser result" where
  "parse_keyword keyword value p =
     (if \<not> pp_haveHeader p
      then fail_if (keyword \<noteq> ''cf-plan'') MalformedInput
             (cf_try (parseUnsigned value) (\<lambda>version.
                fail_if (version \<noteq> ucast kDeploymentPlanFormatVersion) UnsupportedVersion
                  (Inr (p\<lparr>pp_haveHeader := True\<rparr>))))
      else if keyword = ''set-id''
      then fail_if (pp_inTarget p) MalformedInput
             (cf_try (parseId value) (\<lambda>d.
                Inr (p\<lparr>pp_plan := (pp_plan p)\<lparr>dp_setId := d\<rparr>, pp_haveSetId := True\<rparr>)))
      else if keyword = ''rollout-set''
      then fail_if (pp_inTarget p) MalformedInput
             (cf_try (parseId value) (\<lambda>d. Inr (p\<lparr>pp_plan := (pp_plan p)\<lparr>dp_rolloutSet := d\<rparr>\<rparr>)))
      else if keyword = ''target''
      then cf_try (if pp_inTarget p then finishTarget p else Inr p) (open_target value)
      else if keyword = ''end''
      then fail_if (\<not> pp_inTarget p) MalformedInput
             (cf_try (finishTarget p) (\<lambda>p'. Inr (p'\<lparr>pp_inTarget := False\<rparr>)))
      else if \<not> pp_inTarget p then Inl MalformedInput
      else if keyword \<in> pp_seenFields p then Inl AlreadyExists
      else cf_try (plan_field keyword value (pp_current p)) (\<lambda>i.
             Inr (p\<lparr>pp_seenFields := insert keyword (pp_seenFields p), pp_current := i\<rparr>)))"

definition parse_line :: "Line \<Rightarrow> PlanParser \<Rightarrow> PlanParser result" where
  "parse_line line p =
     (let text = ln_text line in
      if text = [] \<or> hd text = CHR ''#'' then Inr p
      else
        let keyword = takeWhile (\<lambda>c. c \<noteq> CHR '' '') text;
            value = (case dropWhile (\<lambda>c. c \<noteq> CHR '' '') text of [] \<Rightarrow> [] | _ # rest \<Rightarrow> trim rest)
        in parse_keyword keyword value p)"

fun parse_lines :: "Line list \<Rightarrow> PlanParser \<Rightarrow> PlanParser result" where
  "parse_lines [] p = Inr p"
| "parse_lines (l # ls) p = cf_try (parse_line l p) (parse_lines ls)"

definition parseDeploymentPlan :: "string \<Rightarrow> DeploymentPlan result" where
  "parseDeploymentPlan text =
     fail_if (length text > kMaxPlanBytes) OversizePayload
     (cf_try (splitLines text) (\<lambda>ls.
      cf_try (parse_lines ls initialParser) (\<lambda>p.
        fail_if (\<not> pp_haveHeader p) MalformedInput
        (fail_if (pp_inTarget p) TruncatedFrame
        (fail_if (\<not> pp_haveSetId p) MissingField
        (fail_if (dp_instructions (pp_plan p) = []) MissingField
        (Inr (pp_plan p))))))))"

definition loadDeploymentPlanFile :: "string \<Rightarrow> DeploymentPlan result io" where
  "loadDeploymentPlanFile path w =
     (case readFileBounded path kMaxPlanBytes w of
        (Inl e, w') \<Rightarrow> (Inl e, w')
      | (Inr bs, w') \<Rightarrow> (parseDeploymentPlan (bytes_string bs), w'))"

subsection \<open>Rendering\<close>

definition render_field :: "string \<Rightarrow> string \<Rightarrow> string" where
  "render_field name value = ''  '' @ name @ '' '' @ value @ ''\<newline>''"

definition render_instruction :: "DeploymentInstruction \<Rightarrow> string" where
  "render_instruction i =
     ''target '' @ di_target i @ ''\<newline>''
     @ render_field ''class'' (targetClassName (di_targetClass i))
     @ render_field ''guarantee'' (applyGuaranteeName (di_declaredGuarantee i))
     @ render_field ''config-key'' (di_configKey i)
     @ render_field ''artifact'' (di_artifact i)
     @ render_field ''revision'' (to_string (unat (di_revision i)))
     @ render_field ''generation'' (to_string (unat (di_generation i)))
     @ render_field ''schema'' (di_schema i)
     @ render_field ''schema-version'' (to_string (unat (di_schemaVersion i)))
     @ render_field ''digest'' (Digest_hex (di_digest i))
     @ render_field ''size'' (to_string (unat (di_sizeBytes i)))
     @ render_field ''requires'' (guaranteeRequirementName (di_requirement i))
     @ render_field ''media-type'' (di_mediaType i)
     @ (if di_producer i \<noteq> [] then render_field ''producer'' (di_producer i) else [])
     @ (if di_sourcePath i \<noteq> [] then render_field ''source'' (di_sourcePath i) else [])
     @ (if di_endpoint i \<noteq> [] then render_field ''endpoint'' (di_endpoint i) else [])
     @ ''end\<newline>''"

definition renderDeploymentPlan :: "DeploymentPlan \<Rightarrow> string" where
  "renderDeploymentPlan p =
     ''cf-plan '' @ to_string (unat kDeploymentPlanFormatVersion) @ ''\<newline>''
     @ ''set-id '' @ dp_setId p @ ''\<newline>''
     @ (if string_isSet (dp_rolloutSet p) then ''rollout-set '' @ dp_rolloutSet p @ ''\<newline>'' else [])
     @ concat (map render_instruction (dp_instructions p))"

subsection \<open>Trimming and splitting\<close>

definition trimmed :: "string \<Rightarrow> bool" where
  "trimmed s \<longleftrightarrow> s = [] \<or> \<not> is_blank (hd s) \<and> \<not> is_blank (last s)"

lemma trim_trimmed: "trimmed (trim s)"
proof -
  let ?t = "dropWhile is_blank s"
  have last: "trim s \<noteq> [] \<Longrightarrow> \<not> is_blank (last (trim s))"
    using hd_dropWhile [of is_blank "rev ?t"] by (simp add: trim_def last_rev)
  obtain u where u: "?t = trim s @ u"
    using takeWhile_dropWhile_id [of is_blank "rev ?t"] by (metis rev_append rev_rev_ident trim_def)
  have "trim s \<noteq> [] \<Longrightarrow> \<not> is_blank (hd (trim s))"
    using hd_dropWhile [of is_blank s] u by (metis append_is_Nil_conv hd_append2)
  with last show ?thesis by (auto simp: trimmed_def)
qed

lemma dropWhile_kept: "xs = [] \<or> \<not> P (hd xs) \<Longrightarrow> dropWhile P xs = xs"
  by (cases xs) auto

lemma trim_id: "trimmed s \<Longrightarrow> trim s = s"
  by (auto simp: trimmed_def trim_def dropWhile_kept hd_rev)

lemma trim_blank [simp]: "is_blank c \<Longrightarrow> trim (c # s) = trim s"
  by (simp add: trim_def)

lemma set_trim: "set (trim s) \<subseteq> set s"
  by (auto simp: trim_def dest!: set_dropWhileD)

lemma trimmed_append: "a \<noteq> [] \<Longrightarrow> b \<noteq> [] \<Longrightarrow> \<not> is_blank (hd a) \<Longrightarrow> \<not> is_blank (last b) \<Longrightarrow> trimmed (a @ c @ b)"
  by (simp add: trimmed_def)

definition text_of_lines :: "string list \<Rightarrow> string" where
  "text_of_lines ls = concat (map (\<lambda>l. l @ ''\<newline>'') ls)"

definition plan_line :: "string \<Rightarrow> bool" where
  "plan_line l \<longleftrightarrow> CHR ''\<newline>'' \<notin> set l \<and> length l \<le> kMaxPlanLineBytes"

fun numbered :: "nat \<Rightarrow> string list \<Rightarrow> Line list" where
  "numbered n [] = [\<lparr>ln_number = n + 1, ln_text = []\<rparr>]"
| "numbered n (l # ls) = \<lparr>ln_number = n + 1, ln_text = trim l\<rparr> # numbered (n + 1) ls"

lemma takeWhile_line: "CHR ''\<newline>'' \<notin> set l \<Longrightarrow> takeWhile (\<lambda>c. c \<noteq> CHR ''\<newline>'') (l @ CHR ''\<newline>'' # rest) = l"
  and dropWhile_line: "CHR ''\<newline>'' \<notin> set l \<Longrightarrow>
    dropWhile (\<lambda>c. c \<noteq> CHR ''\<newline>'') (l @ CHR ''\<newline>'' # rest) = CHR ''\<newline>'' # rest"
  by (induction l) auto

lemma split_text_of_lines:
  "list_all plan_line ls \<Longrightarrow>
   split_loop n (text_of_lines ls) =
     (if n + length ls + 1 > kMaxPlanTargets * 16 + 64 then Inl LimitExceeded else Inr (numbered n ls))"
proof (induction ls arbitrary: n)
  case Nil
  show ?case by (subst split_loop.simps) (simp add: text_of_lines_def trim_def Let_def)
next
  case (Cons l ls)
  have "text_of_lines (l # ls) = l @ CHR ''\<newline>'' # text_of_lines ls" by (simp add: text_of_lines_def)
  with Cons show ?case
    by (subst split_loop.simps)
       (auto simp: takeWhile_line dropWhile_line plan_line_def Let_def cf_try_def)
qed

lemma split_loop_lines: "split_loop n t = Inr ls \<Longrightarrow> l \<in> set ls \<Longrightarrow> trimmed (ln_text l) \<and> CHR ''\<newline>'' \<notin> set (ln_text l)"
proof (induction n t arbitrary: ls rule: split_loop.induct)
  case (1 n t)
  have trim: "trimmed (trim r) \<and> CHR ''\<newline>'' \<notin> set (trim r)" if "r = takeWhile (\<lambda>c. c \<noteq> CHR ''\<newline>'') t" for r
    using that trim_trimmed [of r] set_trim [of r] by (auto dest: set_takeWhileD)
  let ?raw = "takeWhile (\<lambda>c. c \<noteq> CHR ''\<newline>'') t"
  have ok: "length ?raw \<le> kMaxPlanLineBytes" "n + 1 \<le> kMaxPlanTargets * 16 + 64"
    using "1.prems"(1) by (auto simp: split_loop.simps [of n t] Let_def split: if_splits)
  show ?case
  proof (cases "dropWhile (\<lambda>c. c \<noteq> CHR ''\<newline>'') t")
    case Nil
    have "ls = [\<lparr>ln_number = n + 1, ln_text = trim ?raw\<rparr>]"
      using "1.prems"(1) ok unfolding split_loop.simps [of n t] Let_def Nil by simp
    then show ?thesis using "1.prems"(2) trim [OF refl] by simp
  next
    case (Cons c rest)
    then obtain ls' where ls': "split_loop (n + 1) rest = Inr ls'"
        "ls = \<lparr>ln_number = n + 1, ln_text = trim ?raw\<rparr> # ls'"
      using "1.prems"(1) ok by (auto simp: split_loop.simps [of n t] Let_def cf_try_eq_Inr_iff)
    then consider "l \<in> set ls'" | "l = \<lparr>ln_number = n + 1, ln_text = trim ?raw\<rparr>"
      using "1.prems"(2) by auto
    then show ?thesis
      using "1.IH" [OF refl refl _ _ Cons ls'(1)] ok trim [OF refl] by cases auto
  qed
qed

lemma parse_lines_append: "parse_lines (a @ b) p = cf_try (parse_lines a p) (parse_lines b)"
  by (induction a arbitrary: p) (auto simp: cf_try_def split: sum.splits)

subsection \<open>Reading what was rendered\<close>

definition field_keyword :: "string \<Rightarrow> bool" where
  "field_keyword k \<longleftrightarrow> k \<noteq> [] \<and> hd k \<noteq> CHR ''#'' \<and> \<not> is_blank (hd k) \<and> CHR '' '' \<notin> set k"

definition text_value :: "string \<Rightarrow> bool" where
  "text_value v \<longleftrightarrow> v \<noteq> [] \<and> trimmed v \<and> CHR ''\<newline>'' \<notin> set v"

lemma keyword_takeWhile: "CHR '' '' \<notin> set k \<Longrightarrow> takeWhile (\<lambda>c. c \<noteq> CHR '' '') (k @ CHR '' '' # v) = k"
  and keyword_dropWhile: "CHR '' '' \<notin> set k \<Longrightarrow> dropWhile (\<lambda>c. c \<noteq> CHR '' '') (k @ CHR '' '' # v) = CHR '' '' # v"
  by (induction k) auto

lemma parse_line_field:
  assumes "field_keyword k" and "text_value v"
  shows "parse_line \<lparr>ln_number = n, ln_text = trim (k @ '' '' @ v)\<rparr> p = parse_keyword k v p"
    and "parse_line \<lparr>ln_number = n, ln_text = trim (''  '' @ k @ '' '' @ v)\<rparr> p = parse_keyword k v p"
proof -
  have t: "trim (k @ '' '' @ v) = k @ '' '' @ v"
    using assms by (intro trim_id) (auto simp: field_keyword_def text_value_def trimmed_def)
  have "parse_line \<lparr>ln_number = n, ln_text = k @ '' '' @ v\<rparr> p = parse_keyword k v p"
    using assms
    by (simp add: parse_line_def field_keyword_def text_value_def keyword_takeWhile keyword_dropWhile trim_id)
  then show "parse_line \<lparr>ln_number = n, ln_text = trim (k @ '' '' @ v)\<rparr> p = parse_keyword k v p"
    and "parse_line \<lparr>ln_number = n, ln_text = trim (''  '' @ k @ '' '' @ v)\<rparr> p = parse_keyword k v p"
    using t by (simp_all add: is_blank_def)
qed

text \<open>The lines of a plan, and its text as those lines.\<close>

definition instruction_fields :: "DeploymentInstruction \<Rightarrow> (string \<times> string) list" where
  "instruction_fields i =
     [(''class'', targetClassName (di_targetClass i)), (''guarantee'', applyGuaranteeName (di_declaredGuarantee i)),
      (''config-key'', di_configKey i), (''artifact'', di_artifact i), (''revision'', to_string (unat (di_revision i))),
      (''generation'', to_string (unat (di_generation i))), (''schema'', di_schema i),
      (''schema-version'', to_string (unat (di_schemaVersion i))), (''digest'', Digest_hex (di_digest i)),
      (''size'', to_string (unat (di_sizeBytes i))), (''requires'', guaranteeRequirementName (di_requirement i)),
      (''media-type'', di_mediaType i)]
     @ (if di_producer i \<noteq> [] then [(''producer'', di_producer i)] else [])
     @ (if di_sourcePath i \<noteq> [] then [(''source'', di_sourcePath i)] else [])
     @ (if di_endpoint i \<noteq> [] then [(''endpoint'', di_endpoint i)] else [])"

definition field_line :: "string \<times> string \<Rightarrow> string" where
  "field_line f = ''  '' @ fst f @ '' '' @ snd f"

definition instruction_lines :: "DeploymentInstruction \<Rightarrow> string list" where
  "instruction_lines i = (''target '' @ di_target i) # map field_line (instruction_fields i) @ [''end'']"

definition plan_lines :: "DeploymentPlan \<Rightarrow> string list" where
  "plan_lines p = [''cf-plan 1'', ''set-id '' @ dp_setId p]
     @ (if dp_rolloutSet p \<noteq> [] then [''rollout-set '' @ dp_rolloutSet p] else [])
     @ concat (map instruction_lines (dp_instructions p))"

lemma text_of_lines_simps [simp]:
  "text_of_lines [] = []" "text_of_lines (l # ls) = l @ ''\<newline>'' @ text_of_lines ls"
  "text_of_lines (ls @ ls') = text_of_lines ls @ text_of_lines ls'"
  by (simp_all add: text_of_lines_def)

lemma render_instruction_lines: "render_instruction i = text_of_lines (instruction_lines i)"
  by (simp add: render_instruction_def instruction_lines_def instruction_fields_def field_line_def render_field_def)

lemma render_lines: "renderDeploymentPlan p = text_of_lines (plan_lines p)"
proof -
  have "concat (map render_instruction xs) = text_of_lines (concat (map instruction_lines xs))" for xs
    by (induction xs) (simp_all add: render_instruction_lines)
  moreover have "to_string (unat kDeploymentPlanFormatVersion) = ''1''" by code_simp
  ultimately show ?thesis by (simp add: renderDeploymentPlan_def plan_lines_def string_isSet_def)
qed

text \<open>A well-formed instruction, and a well-formed plan.\<close>

definition instruction_ok :: "DeploymentInstruction \<Rightarrow> bool" where
  "instruction_ok i \<longleftrightarrow>
     isValidIdentifier (di_target i) \<and> isValidIdentifier (di_configKey i) \<and> isValidIdentifier (di_artifact i)
     \<and> isValidIdentifier (di_schema i) \<and> length (di_digest i) = 32 \<and> Digest_isSet (di_digest i)
     \<and> di_sizeBytes i \<noteq> 0 \<and> di_generation i \<noteq> 0
     \<and> text_value (di_mediaType i) \<and> length (di_mediaType i) \<le> kMaxMediaTypeBytes
     \<and> (di_producer i \<noteq> [] \<longrightarrow> text_value (di_producer i)) \<and> length (di_producer i) \<le> kMaxProducerBytes
     \<and> (di_sourcePath i \<noteq> [] \<longrightarrow> text_value (di_sourcePath i)) \<and> length (di_sourcePath i) \<le> kMaxPlanSourcePathBytes
     \<and> (di_endpoint i \<noteq> [] \<longrightarrow> text_value (di_endpoint i) \<and> length (di_endpoint i) \<le> 128
          \<and> (\<exists>e. parseEndpoint (di_endpoint i) = Inr e \<and> ep_host e \<noteq> [] \<and> ep_port e \<noteq> 0))"

definition plan_ok :: "DeploymentPlan \<Rightarrow> bool" where
  "plan_ok p \<longleftrightarrow>
     isValidIdentifier (dp_setId p) \<and> (dp_rolloutSet p \<noteq> [] \<longrightarrow> isValidIdentifier (dp_rolloutSet p))
     \<and> dp_instructions p \<noteq> [] \<and> length (dp_instructions p) \<le> kMaxPlanTargets
     \<and> list_all instruction_ok (dp_instructions p) \<and> distinct (map di_target (dp_instructions p))"

definition visible :: "char \<Rightarrow> bool" where
  "visible c \<longleftrightarrow> \<not> is_blank c \<and> c \<noteq> CHR ''\<newline>''"

lemma visible_text_value: "list_all visible t \<Longrightarrow> t \<noteq> [] \<Longrightarrow> text_value t"
  by (auto simp: text_value_def trimmed_def list_all_iff visible_def)

lemma visible_chars: "identifier_char c \<Longrightarrow> visible c" "is_digit c \<Longrightarrow> visible c" "is_host_char c \<Longrightarrow> visible c"
  by (auto simp: visible_def is_blank_def identifier_char_def is_digit_def is_host_char_def less_eq_char_def)

lemma visible_all:
  "list_all identifier_char t \<Longrightarrow> list_all visible t" "list_all is_digit t \<Longrightarrow> list_all visible t"
  "list_all is_host_char t \<Longrightarrow> list_all visible t"
  by (auto simp: list_all_iff visible_chars)

lemma identifier_text_value: "isValidIdentifier t \<Longrightarrow> text_value t"
  by (intro visible_text_value visible_all) (auto simp: isValidIdentifier_def split: if_splits)

lemma number_text_value: "text_value (to_string n)"
  by (intro visible_text_value visible_all to_string_digits) simp

lemma unsigned_loop_value:
  "list_all is_digit cs \<Longrightarrow> decimal_value (unat v) cs < 2 ^ 64 \<Longrightarrow>
   unsigned_loop v cs = Inr (of_nat (decimal_value (unat v) cs))"
proof (induction v cs rule: unsigned_loop.induct)
  case (2 v c cs)
  let ?d = "digit_value c"
  have d: "is_digit c" "?d < 10" using "2.prems"(1) by (simp_all add: digit_value_less)
  have lt: "unat v * 10 + ?d < 2 ^ 64"
    using "2.prems"(2) decimal_value_mono [of "unat v * 10 + ?d" cs] by simp
  have m: "checkedMul v 10 = Some (v * 10)" "unat (v * 10) = unat v * 10"
    using lt by (simp_all add: checkedMul_exact unat_word_ariths)
  have a: "checkedAdd (v * 10) (of_nat ?d) = Some (v * 10 + of_nat ?d)"
    "unat (v * 10 + of_nat ?d) = unat v * 10 + ?d"
    using lt d by (simp_all add: checkedAdd_exact m unat_word_ariths unsigned_of_nat take_bit_nat_eq_self)
  show ?case
    using "2.IH" [OF _ m(1) a(1)] "2.prems" d by (simp add: m a)
qed simp

lemma parseUnsigned_to_string: "parseUnsigned (to_string (unat n)) = Inr n" for n :: u64
  using unsigned_loop_value [of "to_string (unat n)" 0] unsigned_less [of n]
  by (simp add: parseUnsigned_def to_string_digits decimal_value_to_string)

lemma parseUnsigned_schema:
  "cf_try (parseUnsigned (to_string (unat v))) (\<lambda>n. case checkedCast_unsigned n of None \<Rightarrow> Inl e | Some w \<Rightarrow> f w) = f v"
  for v :: u32
proof -
  have "unat v < 2 ^ 64" using unsigned_less [of v, where 'a = nat] by simp
  then have "take_bit 64 (unat v) = unat v" by (rule take_bit_nat_eq_self)
  then have "unat v = unat (ucast v :: u64)" by (simp add: unsigned_ucast_eq)
  then show ?thesis
    using parseUnsigned_to_string [of "ucast v"] checkedCast_unsigned_exact [of "ucast v :: u64" v]
    by (simp add: cf_try_def)
qed

lemma hex_text_value: "length d = 32 \<Longrightarrow> text_value (Digest_hex d)"
  using length_toHex [of d] list.size(3) [where 'a = char]
  by (intro visible_text_value visible_all) (auto simp: Digest_hex_def toHex_identifier_chars simp del: length_toHex)

lemma name_text_values:
  "text_value (targetClassName c)" "text_value (applyGuaranteeName g)" "text_value (guaranteeRequirementName q)"
  by (cases c; cases g; cases q; simp add: text_value_def trimmed_def is_blank_def)+

fun apply_fields :: "(string \<times> string) list \<Rightarrow> DeploymentInstruction \<Rightarrow> DeploymentInstruction result" where
  "apply_fields [] i = Inr i"
| "apply_fields ((k, v) # fs) i = cf_try (plan_field k v i) (apply_fields fs)"

lemma plan_endpoint_again:
  "parseEndpoint t = Inr e \<Longrightarrow> ep_host e \<noteq> [] \<Longrightarrow> ep_port e \<noteq> 0 \<Longrightarrow> plan_endpoint t i = Inr (i\<lparr>di_endpoint := t\<rparr>)"
  by (simp add: plan_endpoint_def)

lemma parse_valid: "isValidIdentifier t \<Longrightarrow> parseId t = Inr t"
  by (simp add: parseId_Inr_iff)

lemma apply_instruction_fields:
  assumes "instruction_ok i"
  shows "apply_fields (instruction_fields i) (emptyInstruction\<lparr>di_target := di_target i\<rparr>) = Inr i"
proof -
  note ok = assms [unfolded instruction_ok_def text_value_def]
  have e: "plan_endpoint (di_endpoint i) j = Inr (j\<lparr>di_endpoint := di_endpoint i\<rparr>)" if "di_endpoint i \<noteq> []" for j
    using ok that by (auto simp: plan_endpoint_again)
  show ?thesis
    using ok
    by (cases "di_producer i = []"; cases "di_sourcePath i = []"; cases "di_endpoint i = []")
       (simp_all add: instruction_fields_def plan_field_def targetClasses.parse_name applyGuarantees.parse_name
          guaranteeRequirements.parse_name parse_valid parseUnsigned_to_string parseUnsigned_schema
          Digest_parse_hex e emptyInstruction_def cf_try_simps fail_if_def)
qed


lemma instruction_keywords:
  "list_all (\<lambda>f. field_keyword (fst f) \<and> fst f \<notin> {''set-id'', ''rollout-set'', ''target'', ''end''}) (instruction_fields i)"
  "distinct (map fst (instruction_fields i))"
  "set mandatory_fields \<subseteq> insert ''target'' (fst ` set (instruction_fields i))"
  by (simp_all add: instruction_fields_def field_keyword_def is_blank_def mandatory_fields_def)

lemma instruction_values: "instruction_ok i \<Longrightarrow> list_all (\<lambda>f. text_value (snd f)) (instruction_fields i)"
  by (auto simp: instruction_fields_def instruction_ok_def name_text_values number_text_value hex_text_value
      identifier_text_value)

definition read_lines :: "string list \<Rightarrow> PlanParser \<Rightarrow> PlanParser result" where
  "read_lines ls = parse_lines (map (\<lambda>l. \<lparr>ln_number = 0, ln_text = trim l\<rparr>) ls)"

lemma read_lines_simps:
  "read_lines [] p = Inr p"
  "read_lines (l # ls) p = cf_try (parse_line \<lparr>ln_number = 0, ln_text = trim l\<rparr> p) (read_lines ls)"
  "read_lines (ls @ ls') p = cf_try (read_lines ls p) (read_lines ls')"
  by (simp_all add: read_lines_def parse_lines_append)

lemma parse_numbered: "parse_lines (numbered n ls) p = read_lines ls p"
proof (induction ls arbitrary: n p)
  case (Cons l ls)
  have "parse_line \<lparr>ln_number = n + 1, ln_text = trim l\<rparr> p = parse_line \<lparr>ln_number = 0, ln_text = trim l\<rparr> p"
    by (simp add: parse_line_def)
  with Cons show ?case by (auto simp: read_lines_simps cf_try_def split: sum.splits)
qed (simp add: read_lines_simps parse_line_def cf_try_simps)

lemma read_fields:
  assumes "list_all (\<lambda>f. field_keyword (fst f) \<and> fst f \<notin> {''set-id'', ''rollout-set'', ''target'', ''end''}) fs"
    and "list_all (\<lambda>f. text_value (snd f)) fs" and "distinct (map fst fs)"
    and "fst ` set fs \<inter> pp_seenFields p = {}" and "pp_haveHeader p" and "pp_inTarget p"
    and "apply_fields fs (pp_current p) = Inr i"
  shows "read_lines (map field_line fs) p =
    Inr (p\<lparr>pp_seenFields := fst ` set fs \<union> pp_seenFields p, pp_current := i\<rparr>)"
  using assms
proof (induction fs arbitrary: p)
  case (Cons f fs)
  obtain k v where f: "f = (k, v)" by force
  from Cons.prems(7) obtain j where j: "plan_field k v (pp_current p) = Inr j" "apply_fields fs j = Inr i"
    by (auto simp: f cf_try_eq_Inr_iff)
  let ?p = "p\<lparr>pp_seenFields := insert k (pp_seenFields p), pp_current := j\<rparr>"
  have "parse_keyword k v p = Inr ?p"
    using Cons.prems by (auto simp: f parse_keyword_def j cf_try_simps)
  then have "parse_line \<lparr>ln_number = 0, ln_text = trim (field_line f)\<rparr> p = Inr ?p"
    using Cons.prems(1,2) parse_line_field(2) [of k v 0 p] by (simp add: f field_line_def)
  moreover have "read_lines (map field_line fs) ?p =
      Inr (?p\<lparr>pp_seenFields := fst ` set fs \<union> pp_seenFields ?p, pp_current := i\<rparr>)"
    using Cons.prems j by (intro Cons.IH) (auto simp: f)
  ultimately show ?case by (simp add: f read_lines_simps cf_try_simps)
qed (simp add: read_lines_simps)

definition with_instruction :: "DeploymentInstruction \<Rightarrow> PlanParser \<Rightarrow> PlanParser" where
  "with_instruction i p =
     p\<lparr>pp_current := i, pp_seenFields := insert ''target'' (fst ` set (instruction_fields i)),
       pp_seenTargets := insert (di_target i) (pp_seenTargets p),
       pp_plan := (pp_plan p)\<lparr>dp_instructions := dp_instructions (pp_plan p) @ [i]\<rparr>\<rparr>"

lemma read_instruction:
  assumes "instruction_ok i" and "pp_haveHeader p" and "pp_haveSetId p" and "\<not> pp_inTarget p"
    and "length (dp_instructions (pp_plan p)) < kMaxPlanTargets" and "di_target i \<notin> pp_seenTargets p"
  shows "read_lines (instruction_lines i) p = Inr (with_instruction i p)"
proof -
  let ?p1 = "p\<lparr>pp_current := emptyInstruction\<lparr>di_target := di_target i\<rparr>, pp_seenFields := {''target''}, pp_inTarget := True\<rparr>"
  let ?p2 = "?p1\<lparr>pp_seenFields := insert ''target'' (fst ` set (instruction_fields i)), pp_current := i\<rparr>"
  have v: "isValidIdentifier (di_target i)" using assms(1) by (simp add: instruction_ok_def)
  then have ne: "di_target i \<noteq> []" by (auto simp: isValidIdentifier_def)
  have "parse_line \<lparr>ln_number = 0, ln_text = trim (''target'' @ '' '' @ di_target i)\<rparr> p = parse_keyword ''target'' (di_target i) p"
    using identifier_text_value [OF v] by (intro parse_line_field) (simp_all add: field_keyword_def is_blank_def)
  also have "\<dots> = Inr ?p1"
    using assms(2-5) ne by (simp add: parse_keyword_def open_target_def parse_valid [OF v] cf_try_simps fail_if_def)
  finally have 1: "parse_line \<lparr>ln_number = 0, ln_text = trim (''target '' @ di_target i)\<rparr> p = Inr ?p1" by simp
  have 2: "read_lines (map field_line (instruction_fields i)) ?p1 = Inr ?p2"
  proof -
    have "''target'' \<notin> fst ` set (instruction_fields i)" using instruction_keywords(1) [of i] by (auto simp: list_all_iff)
    then show ?thesis
      using read_fields [OF instruction_keywords(1) instruction_values [OF assms(1)] instruction_keywords(2), of ?p1 i]
        apply_instruction_fields [OF assms(1)] assms(2)
      by simp
  qed
  have f: "finishTarget ?p2 = Inr ((with_instruction i p)\<lparr>pp_inTarget := True\<rparr>)"
    using assms(1,6) instruction_keywords(3) [of i]
    by (auto simp: finishTarget_def with_instruction_def instruction_ok_def fail_if_def list_all_iff Let_def)
  have closed: "(with_instruction i p)\<lparr>pp_inTarget := False\<rparr> = with_instruction i p"
    using assms(4) by (cases p) (simp add: with_instruction_def)
  have "trim ''end'' = ''end''" by code_simp
  then have 3: "parse_line \<lparr>ln_number = 0, ln_text = trim ''end''\<rparr> ?p2 = Inr (with_instruction i p)"
    using assms(2,4) f by (simp add: parse_line_def parse_keyword_def cf_try_simps fail_if_def closed)
  show ?thesis
    by (simp only: instruction_lines_def read_lines_simps 1 2 3 cf_try_simps)
qed

lemma with_instruction_simps [simp]:
  "pp_haveHeader (with_instruction i p) = pp_haveHeader p" "pp_haveSetId (with_instruction i p) = pp_haveSetId p"
  "pp_inTarget (with_instruction i p) = pp_inTarget p"
  "dp_instructions (pp_plan (with_instruction i p)) = dp_instructions (pp_plan p) @ [i]"
  "dp_setId (pp_plan (with_instruction i p)) = dp_setId (pp_plan p)"
  "dp_rolloutSet (pp_plan (with_instruction i p)) = dp_rolloutSet (pp_plan p)"
  "pp_seenTargets (with_instruction i p) = insert (di_target i) (pp_seenTargets p)"
  by (simp_all add: with_instruction_def)

lemma read_instructions:
  assumes "list_all instruction_ok xs" and "pp_haveHeader p" and "pp_haveSetId p" and "\<not> pp_inTarget p"
    and "length (dp_instructions (pp_plan p)) + length xs \<le> kMaxPlanTargets"
    and "distinct (map di_target xs)" and "di_target ` set xs \<inter> pp_seenTargets p = {}"
  shows "read_lines (concat (map instruction_lines xs)) p = Inr (fold with_instruction xs p)"
  using assms
proof (induction xs arbitrary: p)
  case (Cons i xs)
  have "read_lines (instruction_lines i) p = Inr (with_instruction i p)"
    using Cons.prems by (intro read_instruction) auto
  moreover have "read_lines (concat (map instruction_lines xs)) (with_instruction i p) = Inr (fold with_instruction xs (with_instruction i p))"
    using Cons.prems by (intro Cons.IH) auto
  ultimately show ?case by (simp add: read_lines_simps cf_try_simps)
qed (simp add: read_lines_simps)

lemma fold_with_instruction:
  "pp_haveHeader (fold with_instruction xs p) = pp_haveHeader p"
  "pp_haveSetId (fold with_instruction xs p) = pp_haveSetId p"
  "pp_inTarget (fold with_instruction xs p) = pp_inTarget p"
  "pp_plan (fold with_instruction xs p) = (pp_plan p)\<lparr>dp_instructions := dp_instructions (pp_plan p) @ xs\<rparr>"
  by (induction xs arbitrary: p) (simp_all add: with_instruction_def)

lemma read_plan:
  assumes "plan_ok p"
  shows "\<exists>q. read_lines (plan_lines p) initialParser = Inr q \<and> pp_haveHeader q \<and> pp_haveSetId q \<and> \<not> pp_inTarget q \<and> pp_plan q = p"
proof -
  let ?p1 = "initialParser\<lparr>pp_haveHeader := True\<rparr>"
  let ?p2 = "?p1\<lparr>pp_plan := \<lparr>dp_setId = dp_setId p, dp_rolloutSet = [], dp_instructions = []\<rparr>, pp_haveSetId := True\<rparr>"
  let ?p3 = "?p2\<lparr>pp_plan := \<lparr>dp_setId = dp_setId p, dp_rolloutSet = dp_rolloutSet p, dp_instructions = []\<rparr>\<rparr>"
  have v: "isValidIdentifier (dp_setId p)" "dp_rolloutSet p \<noteq> [] \<Longrightarrow> isValidIdentifier (dp_rolloutSet p)"
    using assms by (simp_all add: plan_ok_def)
  have 1: "parse_line \<lparr>ln_number = 0, ln_text = trim ''cf-plan 1''\<rparr> initialParser = Inr ?p1"
    by code_simp
  have "parse_line \<lparr>ln_number = 0, ln_text = trim (''set-id'' @ '' '' @ dp_setId p)\<rparr> ?p1 = parse_keyword ''set-id'' (dp_setId p) ?p1"
    using identifier_text_value [OF v(1)] by (intro parse_line_field) (simp_all add: field_keyword_def is_blank_def)
  then have 2: "parse_line \<lparr>ln_number = 0, ln_text = trim (''set-id '' @ dp_setId p)\<rparr> ?p1 = Inr ?p2"
    by (simp add: parse_keyword_def parse_valid [OF v(1)] cf_try_simps fail_if_def initialParser_def)
  have 3: "read_lines (if dp_rolloutSet p \<noteq> [] then [''rollout-set '' @ dp_rolloutSet p] else []) ?p2 = Inr ?p3"
  proof (cases "dp_rolloutSet p = []")
    case False
    then have "parse_line \<lparr>ln_number = 0, ln_text = trim (''rollout-set'' @ '' '' @ dp_rolloutSet p)\<rparr> ?p2 = parse_keyword ''rollout-set'' (dp_rolloutSet p) ?p2"
      using identifier_text_value [OF v(2)] by (intro parse_line_field) (simp_all add: field_keyword_def is_blank_def)
    with False show ?thesis
      by (simp add: parse_keyword_def parse_valid [OF v(2)] cf_try_simps fail_if_def initialParser_def read_lines_simps)
  qed (simp add: read_lines_simps)
  have 4: "read_lines (concat (map instruction_lines (dp_instructions p))) ?p3 = Inr (fold with_instruction (dp_instructions p) ?p3)"
    using assms by (intro read_instructions) (auto simp: plan_ok_def initialParser_def)
  have "read_lines (plan_lines p) initialParser = Inr (fold with_instruction (dp_instructions p) ?p3)"
    using 2 3 4 by (simp add: plan_lines_def read_lines_simps 1 cf_try_simps)
  then show ?thesis by (simp add: fold_with_instruction initialParser_def)
qed

subsection \<open>What is accepted\<close>

definition optional_text :: "nat \<Rightarrow> string \<Rightarrow> bool" where
  "optional_text m v \<longleftrightarrow> (v \<noteq> [] \<longrightarrow> text_value v) \<and> length v \<le> m"

definition endpoint_text :: "string \<Rightarrow> bool" where
  "endpoint_text v \<longleftrightarrow> v = [] \<or>
     text_value v \<and> length v \<le> 128 \<and> (\<exists>e. parseEndpoint v = Inr e \<and> ep_host e \<noteq> [] \<and> ep_port e \<noteq> 0)"

text \<open>What a target block has established after the given fields.\<close>

definition partial_ok :: "string set \<Rightarrow> DeploymentInstruction \<Rightarrow> bool" where
  "partial_ok F i \<longleftrightarrow>
     isValidIdentifier (di_target i) \<and> (''config-key'' \<in> F \<longrightarrow> isValidIdentifier (di_configKey i))
     \<and> (''artifact'' \<in> F \<longrightarrow> isValidIdentifier (di_artifact i)) \<and> (''schema'' \<in> F \<longrightarrow> isValidIdentifier (di_schema i))
     \<and> (''digest'' \<in> F \<longrightarrow> length (di_digest i) = 32)
     \<and> di_mediaType i \<noteq> [] \<and> optional_text kMaxMediaTypeBytes (di_mediaType i)
     \<and> optional_text kMaxProducerBytes (di_producer i) \<and> optional_text kMaxPlanSourcePathBytes (di_sourcePath i)
     \<and> endpoint_text (di_endpoint i)"

definition parser_ok :: "PlanParser \<Rightarrow> bool" where
  "parser_ok p \<longleftrightarrow>
     (pp_haveSetId p \<longrightarrow> isValidIdentifier (dp_setId (pp_plan p)))
     \<and> (dp_rolloutSet (pp_plan p) \<noteq> [] \<longrightarrow> isValidIdentifier (dp_rolloutSet (pp_plan p)))
     \<and> list_all instruction_ok (dp_instructions (pp_plan p)) \<and> distinct (map di_target (dp_instructions (pp_plan p)))
     \<and> pp_seenTargets p = di_target ` set (dp_instructions (pp_plan p))
     \<and> length (dp_instructions (pp_plan p)) \<le> kMaxPlanTargets
     \<and> (pp_inTarget p \<longrightarrow> length (dp_instructions (pp_plan p)) < kMaxPlanTargets \<and> partial_ok (pp_seenFields p) (pp_current p))"

lemma instruction_ok_complete:
  assumes "partial_ok F i" and "set mandatory_fields \<subseteq> F"
    and "di_sizeBytes i \<noteq> 0" and "Digest_isSet (di_digest i)" and "di_generation i \<noteq> 0"
  shows "instruction_ok i"
  using assms
  by (auto simp: instruction_ok_def partial_ok_def optional_text_def endpoint_text_def mandatory_fields_def)

lemma parseEndpoint_length: "parseEndpoint v = Inr e \<Longrightarrow> v \<noteq> [] \<and> length v \<le> 128"
  by (auto simp: parseEndpoint_def Let_def split: if_splits)

lemma partial_ok_insert:
  "partial_ok F i \<Longrightarrow> k \<notin> {''config-key'', ''artifact'', ''schema'', ''digest''} \<Longrightarrow> partial_ok (insert k F) i"
  by (auto simp: partial_ok_def)

lemma partial_ok_updates:
  assumes "partial_ok F i"
  shows "partial_ok F (i\<lparr>di_targetClass := c\<rparr>)" "partial_ok F (i\<lparr>di_declaredGuarantee := g\<rparr>)"
    "partial_ok F (i\<lparr>di_revision := n\<rparr>)" "partial_ok F (i\<lparr>di_generation := n\<rparr>)"
    "partial_ok F (i\<lparr>di_schemaVersion := u\<rparr>)" "partial_ok F (i\<lparr>di_sizeBytes := n\<rparr>)"
    "partial_ok F (i\<lparr>di_requirement := q\<rparr>)"
    "isValidIdentifier v \<Longrightarrow> partial_ok (insert ''config-key'' F) (i\<lparr>di_configKey := v\<rparr>)"
    "isValidIdentifier v \<Longrightarrow> partial_ok (insert ''artifact'' F) (i\<lparr>di_artifact := v\<rparr>)"
    "isValidIdentifier v \<Longrightarrow> partial_ok (insert ''schema'' F) (i\<lparr>di_schema := v\<rparr>)"
    "length d = 32 \<Longrightarrow> partial_ok (insert ''digest'' F) (i\<lparr>di_digest := d\<rparr>)"
    "v \<noteq> [] \<Longrightarrow> optional_text kMaxMediaTypeBytes v \<Longrightarrow> partial_ok F (i\<lparr>di_mediaType := v\<rparr>)"
    "optional_text kMaxProducerBytes v \<Longrightarrow> partial_ok F (i\<lparr>di_producer := v\<rparr>)"
    "optional_text kMaxPlanSourcePathBytes v \<Longrightarrow> partial_ok F (i\<lparr>di_sourcePath := v\<rparr>)"
    "endpoint_text v \<Longrightarrow> partial_ok F (i\<lparr>di_endpoint := v\<rparr>)"
  using assms by (simp_all add: partial_ok_def)

lemma plan_field_ok:
  assumes "partial_ok F i" and "plan_field k v i = Inr j" and "trimmed v" and "CHR ''\<newline>'' \<notin> set v"
  shows "partial_ok (insert k F) j"
proof -
  have bounded: "optional_text m v" if "length v \<le> m" for m
    using assms(3,4) that by (simp add: optional_text_def text_value_def)
  have endpoint: "endpoint_text v" if "plan_endpoint v i = Inr j"
    using assms(3,4) that parseEndpoint_length [of v]
    by (auto simp: endpoint_text_def text_value_def plan_endpoint_def split: sum.splits if_splits)
  have endpoint_j: "j = i\<lparr>di_endpoint := v\<rparr>" if "plan_endpoint v i = Inr j"
    using that by (auto simp: plan_endpoint_def split: sum.splits if_splits)
  note updates = partial_ok_updates [OF assms(1)]
  note result = cf_try_eq_Inr_iff fail_if_eq_Inr_iff parseId_Inr_iff
  show ?thesis
  proof (cases "k \<in> {''config-key'', ''artifact'', ''schema'', ''digest''}")
    case True
    with assms(2) show ?thesis by (auto simp: plan_field_def result updates Digest_parse_length)
  next
    case False
    have "partial_ok F j"
    proof (cases "k = ''endpoint''")
      case True
      then have "plan_endpoint v i = Inr j" using assms(2) by (simp add: plan_field_def)
      then show ?thesis using endpoint endpoint_j updates by metis
    next
      case False
      with assms(2) \<open>k \<notin> _\<close> show ?thesis
        unfolding plan_field_def
        by (auto simp: result updates bounded split: if_split_asm option.splits)
    qed
    then show ?thesis using False by (rule partial_ok_insert)
  qed
qed

lemma finishTarget_ok:
  assumes "parser_ok p" and "pp_inTarget p" and "finishTarget p = Inr q"
  shows "parser_ok (q\<lparr>pp_inTarget := False\<rparr>)"
proof -
  have "partial_ok (pp_seenFields p) (pp_current p)" using assms(1,2) by (simp add: parser_ok_def)
  moreover have "set mandatory_fields \<subseteq> pp_seenFields p" "di_sizeBytes (pp_current p) \<noteq> 0"
      "Digest_isSet (di_digest (pp_current p))" "di_generation (pp_current p) \<noteq> 0"
    using assms(3) by (auto simp: finishTarget_def Let_def fail_if_eq_Inr_iff list_all_iff)
  ultimately have "instruction_ok (pp_current p)" by (rule instruction_ok_complete)
  then show ?thesis
    using assms by (auto simp: finishTarget_def Let_def fail_if_eq_Inr_iff parser_ok_def)
qed

lemma emptyInstruction_ok: "isValidIdentifier t \<Longrightarrow> partial_ok {''target''} (emptyInstruction\<lparr>di_target := t\<rparr>)"
  by (simp add: partial_ok_def emptyInstruction_def optional_text_def endpoint_text_def text_value_def trimmed_def
      is_blank_def kMaxMediaTypeBytes_def)

lemma open_target_ok:
  assumes "parser_ok (p\<lparr>pp_inTarget := False\<rparr>)" and "open_target v p = Inr q"
  shows "parser_ok q"
  using assms
  by (auto simp: open_target_def parser_ok_def fail_if_eq_Inr_iff cf_try_eq_Inr_iff parseId_Inr_iff emptyInstruction_ok)

lemma parse_keyword_ok:
  assumes "parser_ok p" and "parse_keyword k v p = Inr q" and "trimmed v" and "CHR ''\<newline>'' \<notin> set v"
  shows "parser_ok q"
proof (cases "k = ''target'' \<and> pp_haveHeader p")
  case True
  then obtain p' where p': "(if pp_inTarget p then finishTarget p else Inr p) = Inr p'" "open_target v p' = Inr q"
    using assms(2) by (auto simp: parse_keyword_def cf_try_eq_Inr_iff)
  then have "parser_ok (p'\<lparr>pp_inTarget := False\<rparr>)"
    using assms(1) finishTarget_ok [OF assms(1)] by (auto simp: parser_ok_def split: if_splits)
  then show ?thesis using p'(2) by (rule open_target_ok)
next
  case False
  show ?thesis
  proof (cases "k = ''end'' \<and> pp_haveHeader p")
    case True
    then show ?thesis
      using assms(2) finishTarget_ok [OF assms(1)]
      by (auto simp: parse_keyword_def cf_try_eq_Inr_iff fail_if_eq_Inr_iff)
  next
    case False
    then show ?thesis
      using assms \<open>\<not> (k = ''target'' \<and> pp_haveHeader p)\<close> plan_field_ok [OF _ _ assms(3,4)]
      by (auto simp: parse_keyword_def cf_try_eq_Inr_iff fail_if_eq_Inr_iff parseId_Inr_iff parser_ok_def
          split: if_splits)
  qed
qed

lemma parse_line_ok:
  assumes "parser_ok p" and "parse_line l p = Inr q" and "trimmed (ln_text l)" and "CHR ''\<newline>'' \<notin> set (ln_text l)"
  shows "parser_ok q"
proof (cases "ln_text l = [] \<or> hd (ln_text l) = CHR ''#''")
  case False
  let ?v = "case dropWhile (\<lambda>c. c \<noteq> CHR '' '') (ln_text l) of [] \<Rightarrow> [] | _ # rest \<Rightarrow> trim rest"
  have "trimmed ?v" using trim_trimmed trimmed_def by (auto split: list.split)
  moreover have "set ?v \<subseteq> set (ln_text l)"
    using set_trim by (auto split: list.splits dest!: subsetD [OF set_trim]) (metis list.set_intros(2) set_dropWhileD)
  ultimately show ?thesis
    using parse_keyword_ok [OF assms(1) assms(2) [unfolded parse_line_def Let_def if_not_P [OF False]]] assms(4) by blast
qed (use assms(1,2) in \<open>simp add: parse_line_def\<close>)

lemma parse_lines_ok:
  "parser_ok p \<Longrightarrow> parse_lines ls p = Inr q \<Longrightarrow>
   (\<And>l. l \<in> set ls \<Longrightarrow> trimmed (ln_text l) \<and> CHR ''\<newline>'' \<notin> set (ln_text l)) \<Longrightarrow> parser_ok q"
  by (induction ls arbitrary: p) (auto simp: cf_try_eq_Inr_iff dest: parse_line_ok)

lemma accepted_plan_ok:
  assumes "parseDeploymentPlan t = Inr p"
  shows "plan_ok p"
proof -
  obtain ls q where q: "splitLines t = Inr ls" "parse_lines ls initialParser = Inr q" "pp_plan q = p"
      "pp_haveSetId q" "dp_instructions p \<noteq> []"
    using assms by (auto simp: parseDeploymentPlan_def cf_try_eq_Inr_iff fail_if_eq_Inr_iff)
  have "parser_ok initialParser" by (simp add: parser_ok_def initialParser_def)
  then have "parser_ok q"
    using q(1,2) split_loop_lines [of 0 t ls] by (intro parse_lines_ok [of initialParser ls q]) (auto simp: splitLines_def)
  then show ?thesis using q by (auto simp: parser_ok_def plan_ok_def)
qed

subsection \<open>Rendering and parsing again\<close>

lemma name_lengths:
  shows "length (targetClassName c) \<le> 30" and "length (applyGuaranteeName g) \<le> 30"
    and "length (guaranteeRequirementName q) \<le> 30"
proof -
  show "length (targetClassName c) \<le> 30" by (cases c) simp_all
  show "length (applyGuaranteeName g) \<le> 30" by (cases g) simp_all
  show "length (guaranteeRequirementName q) \<le> 30" by (cases q) simp_all
qed

lemma to_string_length_u32: "length (to_string (unat v)) \<le> 20" for v :: u32
proof -
  have "unat v < 10 ^ Suc 19" using unsigned_less [of v] by (rule order.strict_trans2) simp
  from to_string_length [OF this] show ?thesis by simp
qed

lemma short_values:
  assumes "instruction_ok i" and "f \<in> set (instruction_fields i)"
  shows "length (fst f) + length (snd f) \<le> 1000"
proof -
  have "length (di_configKey i) \<le> 128" "length (di_artifact i) \<le> 128" "length (di_schema i) \<le> 128"
    using assms(1) valid_identifier_length by (force simp: instruction_ok_def kMaxIdentifierLength_def)+
  moreover have "length (Digest_hex (di_digest i)) = 64"
    using assms(1) by (simp add: instruction_ok_def Digest_hex_def)
  moreover have "length (di_mediaType i) \<le> 900" "length (di_producer i) \<le> 900" "length (di_sourcePath i) \<le> 900"
      "length (di_endpoint i) \<le> 900"
    using assms(1) by (auto simp: instruction_ok_def kMaxMediaTypeBytes_def kMaxProducerBytes_def kMaxPlanSourcePathBytes_def)
  ultimately show ?thesis
    using assms(2) name_lengths(1) [of "di_targetClass i"] name_lengths(2) [of "di_declaredGuarantee i"]
      name_lengths(3) [of "di_requirement i"] to_string_length_u64 [of "di_revision i"]
      to_string_length_u64 [of "di_generation i"] to_string_length_u64 [of "di_sizeBytes i"]
      to_string_length_u32 [of "di_schemaVersion i"]
    unfolding instruction_fields_def by (auto split: if_splits)
qed

lemma rendered_instruction_lines:
  assumes "instruction_ok i"
  shows "list_all plan_line (instruction_lines i)"
proof -
  have t: "text_value (di_target i)" "length (di_target i) \<le> 128"
    using assms valid_identifier_length [of "di_target i"]
    by (auto simp: instruction_ok_def kMaxIdentifierLength_def identifier_text_value)
  have "plan_line (field_line f)" if "f \<in> set (instruction_fields i)" for f
  proof -
    have "CHR ''\<newline>'' \<notin> set (fst f)" using that by (auto simp: instruction_fields_def split: if_splits)
    then show ?thesis
      using that short_values [OF assms that] instruction_values [OF assms]
      by (auto simp: list_all_iff plan_line_def field_line_def kMaxPlanLineBytes_def text_value_def)
  qed
  then show ?thesis
    using t by (auto simp: instruction_lines_def list_all_iff plan_line_def kMaxPlanLineBytes_def text_value_def)
qed

lemma rendered_lines:
  assumes "plan_ok p"
  shows "list_all plan_line (plan_lines p)"
proof -
  have "plan_line (''set-id '' @ dp_setId p)" "dp_rolloutSet p \<noteq> [] \<Longrightarrow> plan_line (''rollout-set '' @ dp_rolloutSet p)"
    using assms valid_identifier_length [of "dp_setId p"] valid_identifier_length [of "dp_rolloutSet p"]
      identifier_text_value [of "dp_setId p"] identifier_text_value [of "dp_rolloutSet p"]
    by (auto simp: plan_ok_def plan_line_def text_value_def kMaxPlanLineBytes_def kMaxIdentifierLength_def)
  moreover have "plan_line ''cf-plan 1''" by (simp add: plan_line_def kMaxPlanLineBytes_def)
  moreover have "list_all plan_line (concat (map instruction_lines (dp_instructions p)))"
    using assms rendered_instruction_lines by (auto simp: plan_ok_def list_all_iff)
  ultimately show ?thesis by (simp add: plan_lines_def)
qed

definition newlines :: "string \<Rightarrow> nat" where
  "newlines t = length (filter (\<lambda>c. c = CHR ''\<newline>'') t)"

lemma newlines_text: "list_all plan_line ls \<Longrightarrow> newlines (text_of_lines ls) = length ls"
  by (induction ls) (auto simp: newlines_def plan_line_def filter_empty_conv)

lemma parse_rendered:
  assumes "plan_ok p"
  shows "parseDeploymentPlan (renderDeploymentPlan p) =
        (if length (renderDeploymentPlan p) > kMaxPlanBytes then Inl OversizePayload
         else if newlines (renderDeploymentPlan p) \<ge> kMaxPlanTargets * 16 + 64 then Inl LimitExceeded
         else Inr p)"
proof -
  note lines = rendered_lines [OF assms]
  obtain q where q: "read_lines (plan_lines p) initialParser = Inr q" "pp_haveHeader q" "pp_haveSetId q"
      "\<not> pp_inTarget q" "pp_plan q = p"
    using read_plan [OF assms] by blast
  have "dp_instructions p \<noteq> []" using assms by (simp add: plan_ok_def)
  then show ?thesis
    using q by (auto simp: parseDeploymentPlan_def render_lines newlines_text [OF lines] splitLines_def
        split_text_of_lines [OF lines] fail_if_def cf_try_simps parse_numbered)
qed

text \<open>
  C33: Every accepted plan is well formed, and parsing its rendering gives it back exactly, unless the
  rendering exceeds one of the two bounds of the parser: its size, or its number of lines. Both are
  reported as such. The rendering of an instruction with all optional fields takes seventeen lines, while
  the parser admits sixteen for each of the permitted targets.
\<close>

theorem plan_roundtrip:
  assumes "parseDeploymentPlan t = Inr p"
  shows "plan_ok p
    \<and> parseDeploymentPlan (renderDeploymentPlan p) =
        (if length (renderDeploymentPlan p) > kMaxPlanBytes then Inl OversizePayload
         else if newlines (renderDeploymentPlan p) \<ge> kMaxPlanTargets * 16 + 64 then Inl LimitExceeded
         else Inr p)"
  using accepted_plan_ok [OF assms] parse_rendered by blast

definition example_plan :: DeploymentPlan where
  "example_plan = \<lparr>dp_setId = ''rollout-7'', dp_rolloutSet = [], dp_instructions =
     [emptyInstruction\<lparr>di_target := ''edge-1'', di_targetClass := NetworkDevice, di_configKey := ''app'',
        di_artifact := ''art'', di_revision := 7, di_generation := 3, di_schema := ''s'',
        di_schemaVersion := 1, di_digest := replicate 32 1, di_sizeBytes := 10\<rparr>]\<rparr>"

lemma example_plan_ok: "plan_ok example_plan"
  by (simp add: plan_ok_def example_plan_def instruction_ok_def emptyInstruction_def kMaxPlanTargets_def
      kMaxMediaTypeBytes_def text_value_def trimmed_def is_blank_def Digest_isSet_def list_ex_iff isValidIdentifier_def
      identifier_char_def kMaxIdentifierLength_def less_eq_char_def)

lemma example_plan_accepted: "parseDeploymentPlan (renderDeploymentPlan example_plan) = Inr example_plan"
proof -
  have "newlines (renderDeploymentPlan example_plan) = 16"
    by (simp add: render_lines newlines_text rendered_lines example_plan_ok)
       (simp add: plan_lines_def instruction_lines_def instruction_fields_def example_plan_def emptyInstruction_def)
  moreover have "length (renderDeploymentPlan example_plan) < 1000" by code_simp
  ultimately show ?thesis
    by (simp add: parse_rendered [OF example_plan_ok] kMaxPlanBytes_def)
qed

theorem plan_roundtrip_witness:
  "parseDeploymentPlan (renderDeploymentPlan example_plan) = Inr example_plan \<and> plan_ok example_plan"
  using plan_roundtrip [OF example_plan_accepted] example_plan_accepted by blast

end

