(* ===== verification/ArtifactStore.thy ===== *)
theory ArtifactStore
  imports Files StateRecords
begin

text \<open>
  The content-addressed artifact store and its reader (\<^verbatim>\<open>ArtifactStore\<close> and \<^verbatim>\<open>ArtifactReader\<close> of
  \<^verbatim>\<open>src/artifact.cpp\<close>). The index is the list of metadata records sorted by digest; payloads and
  metadata records are files under the root. Every operation is a function of the store and the world;
  a value \<^const>\<open>None\<close> is the failed contract of an encoder. Each block that the sources run under the
  mutex is a definition of its own, so that two publishes can be interleaved between them.

  The recursive listing of the root is an answer of the operating system and a parameter
  \<open>tree\<close> of the operations that walk it.
\<close>

subsection \<open>State\<close>

record ArtifactStoreOptions =
  aso_root :: string
  aso_maxArtifactBytes :: u64
  aso_maxTotalBytes :: u64
  aso_maxArtifacts :: nat
  aso_readChunkBytes :: nat

record ArtifactRecoveryReport =
  arr_removedPartialFiles :: nat
  arr_unreadableMetadataFiles :: nat
  arr_artifactsIndexed :: nat
  arr_indexedBytes :: u64

record ArtifactStore =
  ats_options :: ArtifactStoreOptions
  ats_index :: "ArtifactMetadata list"
  ats_usedBytes :: u64

definition shardOf :: "Digest \<Rightarrow> string" where
  "shardOf digest = take 2 (Digest_hex digest)"

fun contains_text :: "string \<Rightarrow> string \<Rightarrow> bool" where
  "contains_text p [] = (p = [])"
| "contains_text p (c # cs) = (take (length p) (c # cs) = p \<or> contains_text p cs)"

definition isPartialFileName :: "string \<Rightarrow> bool" where
  "isPartialFileName name \<longleftrightarrow>
     contains_text ''.part-'' name \<or> take 9 name = ''.staging-''
     \<or> (length name > 5 \<and> drop (length name - 5) name = ''.part'')"

definition payload_file :: "string \<Rightarrow> Digest \<Rightarrow> string" where
  "payload_file root digest = root @ ''/payload/'' @ shardOf digest @ ''/'' @ Digest_hex digest @ ''.bin''"

definition ArtifactStore_payloadPath :: "ArtifactStore \<Rightarrow> Digest \<Rightarrow> string" where
  "ArtifactStore_payloadPath s digest = payload_file (aso_root (ats_options s)) digest"

definition ArtifactStore_metadataPath :: "ArtifactStore \<Rightarrow> Digest \<Rightarrow> string" where
  "ArtifactStore_metadataPath s digest =
     aso_root (ats_options s) @ ''/payload/'' @ shardOf digest @ ''/'' @ Digest_hex digest @ ''.meta''"

subsection \<open>The sorted index\<close>

text \<open>\<^verbatim>\<open>std::lower_bound\<close> by digest: the entries from the first one that is not below the key.\<close>

definition index_lower_bound :: "ArtifactMetadata list \<Rightarrow> Digest \<Rightarrow> ArtifactMetadata list" where
  "index_lower_bound ms digest = dropWhile (\<lambda>m. am_digest m < digest) ms"

definition index_lookup :: "ArtifactMetadata list \<Rightarrow> Digest \<Rightarrow> ArtifactMetadata option" where
  "index_lookup ms digest =
     (case index_lower_bound ms digest of
        [] \<Rightarrow> None
      | m # _ \<Rightarrow> if am_digest m = digest then Some m else None)"

definition index_insert :: "ArtifactMetadata \<Rightarrow> Digest \<Rightarrow> ArtifactMetadata list \<Rightarrow> ArtifactMetadata list" where
  "index_insert m digest ms =
     takeWhile (\<lambda>e. am_digest e < digest) ms @ m # index_lower_bound ms digest"

definition index_erase :: "Digest \<Rightarrow> ArtifactMetadata list \<Rightarrow> ArtifactMetadata list" where
  "index_erase digest ms = takeWhile (\<lambda>e. am_digest e < digest) ms @ tl (index_lower_bound ms digest)"

definition ArtifactStore_metadata :: "ArtifactStore \<Rightarrow> Digest \<Rightarrow> ArtifactMetadata result" where
  "ArtifactStore_metadata s digest =
     (if \<not> Digest_isSet digest then Inl InvalidArgument
      else case index_lookup (ats_index s) digest of None \<Rightarrow> Inl NotFound | Some m \<Rightarrow> Inr m)"

definition ArtifactStore_contains :: "ArtifactStore \<Rightarrow> Digest \<Rightarrow> bool" where
  "ArtifactStore_contains s digest \<longleftrightarrow> index_lookup (ats_index s) digest \<noteq> None"

definition ArtifactStore_list :: "ArtifactStore \<Rightarrow> ArtifactMetadata list result" where
  "ArtifactStore_list s = Inr (ats_index s)"

definition ArtifactStore_usedBytes :: "ArtifactStore \<Rightarrow> u64" where
  "ArtifactStore_usedBytes s = ats_usedBytes s"

definition ArtifactStore_artifactCount :: "ArtifactStore \<Rightarrow> nat" where
  "ArtifactStore_artifactCount s = length (ats_index s)"

text \<open>The entry leaves the index and its bytes leave the account, which does not go below zero.\<close>

definition drop_entry :: "Digest \<Rightarrow> ArtifactStore \<Rightarrow> ArtifactStore" where
  "drop_entry digest s =
     (case index_lookup (ats_index s) digest of
        None \<Rightarrow> s
      | Some m \<Rightarrow>
          s\<lparr>ats_usedBytes := (if ats_usedBytes s > am_sizeBytes m then ats_usedBytes s - am_sizeBytes m else 0),
            ats_index := index_erase digest (ats_index s)\<rparr>)"

subsection \<open>The reader\<close>

text \<open>
  An open reader holds the file it was opened on; a later rename or removal of the path does not
  reach an open handle.
\<close>

record ArtifactReader =
  rdr_file :: "bytes option"
  rdr_hasher :: Sha256
  rdr_size :: u64
  rdr_bytesRead :: u64
  rdr_expected :: Digest
  rdr_verified :: bool

definition ArtifactReader_open :: "ArtifactStore \<Rightarrow> Digest \<Rightarrow> ArtifactReader result io" where
  "ArtifactReader_open s digest w =
     (case ArtifactStore_metadata s digest of
        Inl e \<Rightarrow> (Inl e, w)
      | Inr m \<Rightarrow>
          (case w_disk w (ArtifactStore_payloadPath s digest) of
             None \<Rightarrow> (Inl ArtifactUnavailable, w)
           | Some content \<Rightarrow>
               io_or_fail os_call ArtifactUnavailable
                 (io_return (Inr \<lparr>rdr_file = Some content, rdr_hasher = Sha256_init,
                    rdr_size = am_sizeBytes m, rdr_bytesRead = 0, rdr_expected = digest,
                    rdr_verified = False\<rparr>)) w))"

text \<open>The hashing object after \<^verbatim>\<open>finish\<close>: the final blocks are compressed into it.\<close>

definition Sha256_finished :: "Sha256 \<Rightarrow> Sha256" where
  "Sha256_finished s =
     s\<lparr>sha_state := fst (sha_blocks (sha_state s)
         (sha_final (take (sha_buffered s) (sha_buffer s)) (sha_totalBytes s * 8))),
       sha_buffered := 0\<rparr>"

definition reader_account :: "ArtifactReader \<Rightarrow> u64 \<Rightarrow> bytes \<Rightarrow> status \<times> ArtifactReader" where
  "reader_account r offset chunk =
     (if offset = rdr_bytesRead r
      then
        let h = Sha256_update (rdr_hasher r) chunk;
            n = rdr_bytesRead r + of_nat (length chunk);
            r1 = r\<lparr>rdr_hasher := h, rdr_bytesRead := n\<rparr>
        in
        if n = rdr_size r
        then if Sha256_finish h \<noteq> rdr_expected r
             then (Inl DigestMismatch, r1\<lparr>rdr_hasher := Sha256_finished h, rdr_verified := False\<rparr>)
             else (Inr (), r1\<lparr>rdr_hasher := Sha256_finished h, rdr_verified := True\<rparr>)
        else (Inr (), r1)
      else
        let n = offset + of_nat (length chunk) in
        (Inr (), r\<lparr>rdr_bytesRead := n,
                   rdr_verified := (if n \<noteq> rdr_size r then False else rdr_verified r)\<rparr>))"

definition readAt :: "ArtifactReader \<Rightarrow> u64 \<Rightarrow> nat \<Rightarrow> (bytes result \<times> ArtifactReader) io" where
  "readAt r offset len w =
     (case rdr_file r of
        None \<Rightarrow> ((Inl Internal, r), w)
      | Some content \<Rightarrow>
          if offset > rdr_size r then ((Inl OutOfRange, r), w)
          else
            let wanted = min (unat (rdr_size r - offset)) len in
            (case (if unat offset < 2 ^ 63 then os_call w else (False, w)) of
               (False, w1) \<Rightarrow> ((Inl IoFailure, r), w1)
             | (True, w1) \<Rightarrow>
                 (case (if 0 < wanted then os_call w1 else (True, w1)) of
                    (complete, w2) \<Rightarrow>
                      let chunk = take wanted (drop (unat offset) content) in
                      if \<not> complete \<or> length chunk \<noteq> wanted then ((Inl IntegrityFailure, r), w2)
                      else (case reader_account r offset chunk of
                              (st, r') \<Rightarrow> ((cf_try st (\<lambda>_. Inr chunk), r'), w2)))))"

subsection \<open>Verification and quarantine\<close>

definition quarantine :: "Digest \<Rightarrow> ArtifactStore \<Rightarrow> ArtifactStore io" where
  "quarantine digest s w =
     (let payload = ArtifactStore_payloadPath s digest; target = payload @ ''.corrupt'' in
      case fs_remove target w of (_, w1) \<Rightarrow>
      case fs_rename payload target w1 of
        (False, w2) \<Rightarrow> (s, w2)
      | (True, w2) \<Rightarrow> (drop_entry digest s, w2))"

lemma reader_account_keeps:
  "reader_account r offset chunk = (st, r') \<Longrightarrow>
     rdr_size r' = rdr_size r \<and> rdr_file r' = rdr_file r \<and> rdr_expected r' = rdr_expected r"
  by (auto simp: reader_account_def Let_def split: if_splits)

lemma readAt_ok:
  assumes "readAt r offset len w = ((Inr chunk, r'), w')"
  obtains content where "rdr_file r = Some content" "offset \<le> rdr_size r"
    "length chunk = min (unat (rdr_size r - offset)) len"
    "chunk = take (length chunk) (drop (unat offset) content)"
    "reader_account r offset chunk = (Inr (), r')"
proof -
  from assms obtain content where c: "rdr_file r = Some content"
    by (auto simp: readAt_def split: option.splits)
  with assms have "offset \<le> rdr_size r" by (auto simp: readAt_def not_less split: if_splits)
  with assms c show ?thesis
    by (intro that [OF c]) (auto simp: readAt_def Let_def cf_try_def split: if_splits prod.splits bool.splits sum.splits)
qed

lemma readAt_keeps:
  "readAt r offset len w = ((Inr chunk, r'), w') \<Longrightarrow>
     rdr_size r' = rdr_size r \<and> rdr_file r' = rdr_file r \<and> rdr_expected r' = rdr_expected r"
  by (elim readAt_ok reader_account_keeps)

text \<open>A chunk ends within the size, so the next offset does not wrap.\<close>

lemma readAt_advance:
  assumes "readAt r offset len w = ((Inr chunk, r'), w')"
  shows "unat (offset + of_nat (length chunk)) = unat offset + length chunk
    \<and> unat offset + length chunk \<le> unat (rdr_size r)"
proof -
  from assms have le: "offset \<le> rdr_size r" and "length chunk \<le> unat (rdr_size r - offset)"
    by (auto elim: readAt_ok)
  then have *: "unat offset + length chunk \<le> unat (rdr_size r)"
    by (simp add: unat_sub word_le_nat_alt)
  also have "\<dots> < 2 ^ 64" using unsigned_less [of "rdr_size r"] by simp
  finally have "unat (offset + of_nat (length chunk)) = unat offset + length chunk"
    by (simp add: unat_word_ariths unat_of_nat)
  with * show ?thesis by simp
qed

lemma readAt_progress:
  assumes "readAt r offset len w = ((Inr chunk, r'), w')" and "chunk \<noteq> []" and "offset < rdr_size r"
  shows "unat (rdr_size r') - unat (offset + of_nat (length chunk)) < unat (rdr_size r) - unat offset"
proof -
  have "0 < length chunk" using assms(2) by simp
  moreover note readAt_advance [OF assms(1), THEN conjunct1] readAt_advance [OF assms(1), THEN conjunct2]
    readAt_keeps [OF assms(1), THEN conjunct1]
  ultimately show ?thesis using assms(3) unfolding word_less_nat_alt
    by (simp del: length_greater_0_conv)
qed

text \<open>The reading loop of \<^verbatim>\<open>verify\<close>: its status, and whether the artifact is corrupt.\<close>

function verify_loop :: "nat \<Rightarrow> ArtifactReader \<Rightarrow> u64 \<Rightarrow> ((status \<times> bool) \<times> ArtifactReader) io" where
  "verify_loop len r offset w =
     (if offset < rdr_size r
      then
        case readAt r offset len w of
          ((Inl e, r'), w') \<Rightarrow> (((Inl e, isIntegrityCode e), r'), w')
        | ((Inr chunk, r'), w') \<Rightarrow>
            if chunk = [] then (((Inl IntegrityFailure, True), r'), w')
            else verify_loop len r' (offset + of_nat (length chunk)) w'
      else (((Inr (), False), r), w))"
  by pat_completeness auto

termination
  by (relation "measure (\<lambda>(len, r, offset, w). unat (rdr_size r) - unat offset)")
    (auto intro: readAt_progress [OF sym])

declare verify_loop.simps [simp del]

definition ArtifactStore_verify :: "Digest \<Rightarrow> ArtifactStore \<Rightarrow> (status \<times> ArtifactStore) io" where
  "ArtifactStore_verify digest s w =
     (case ArtifactReader_open s digest w of
        (Inl e, w1) \<Rightarrow> ((Inl e, s), w1)
      | (Inr reader, w1) \<Rightarrow>
          (case verify_loop (aso_readChunkBytes (ats_options s)) reader 0 w1 of
             (((st, corrupt), reader'), w2) \<Rightarrow>
               (let (outcome, corrupt') =
                      (if st = Inr () \<and> \<not> rdr_verified reader' then (Inl DigestMismatch, True)
                       else (st, corrupt))
                in if \<not> corrupt' then ((Inr (), s), w2)
                   else case quarantine digest s w2 of (s', w3) \<Rightarrow> ((outcome, s'), w3))))"

fun verify_each :: "ArtifactMetadata list \<Rightarrow> ArtifactStore \<Rightarrow> ((Digest \<times> status) list \<times> ArtifactStore) io" where
  "verify_each [] s w = (([], s), w)"
| "verify_each (m # ms) s w =
     (case ArtifactStore_verify (am_digest m) s w of ((st, s1), w1) \<Rightarrow>
      case verify_each ms s1 w1 of ((results, s2), w2) \<Rightarrow> (((am_digest m, st) # results, s2), w2))"

definition ArtifactStore_verifyAll :: "ArtifactStore \<Rightarrow> ((Digest \<times> status) list \<times> ArtifactStore) io" where
  "ArtifactStore_verifyAll s = verify_each (ats_index s) s"

subsection \<open>Publishing\<close>

text \<open>The first block under the mutex: the budget check, and whether the digest is indexed.\<close>

definition publish_budget :: "ArtifactStore \<Rightarrow> Digest \<Rightarrow> u64 \<Rightarrow> bool result" where
  "publish_budget s actualDigest actualSize =
     (if ArtifactStore_contains s actualDigest then Inr True
      else if length (ats_index s) \<ge> aso_maxArtifacts (ats_options s) then Inl StoreFull
      else if actualSize > aso_maxTotalBytes (ats_options s)
              \<or> ats_usedBytes s > aso_maxTotalBytes (ats_options s) - actualSize then Inl StoreFull
      else Inr False)"

text \<open>The second block: the entry is inserted unless a concurrent publish did so.\<close>

definition publish_index :: "ArtifactMetadata \<Rightarrow> Digest \<Rightarrow> u64 \<Rightarrow> ArtifactStore \<Rightarrow> ArtifactStore" where
  "publish_index stored actualDigest actualSize s =
     (if ArtifactStore_contains s actualDigest then s
      else s\<lparr>ats_index := index_insert stored actualDigest (ats_index s),
             ats_usedBytes := ats_usedBytes s + actualSize\<rparr>)"

definition removeStaged :: "string \<Rightarrow> world \<Rightarrow> world" where
  "removeStaged stagedPath w = snd (fs_remove stagedPath w)"

definition publish_again :: "Digest \<Rightarrow> bytes \<Rightarrow> ArtifactStore \<Rightarrow> (status \<times> ArtifactStore) io" where
  "publish_again actualDigest record s w =
     (case ArtifactStore_verify actualDigest s w of
        ((Inl e, s1), w1) \<Rightarrow> ((Inl e, s1), w1)
      | ((Inr _, s1), w1) \<Rightarrow>
          (case fs_exists (ArtifactStore_metadataPath s actualDigest) w1 of
             (True, w2) \<Rightarrow> ((Inr (), s1), w2)
           | (False, w2) \<Rightarrow>
               (case writeFileAtomic (ArtifactStore_metadataPath s actualDigest) record w2 of
                  (written, w3) \<Rightarrow> ((written, s1), w3))))"

definition publish_files :: "string \<Rightarrow> Digest \<Rightarrow> bytes \<Rightarrow> ArtifactStore \<Rightarrow> status io" where
  "publish_files stagedPath actualDigest record s w =
     (case fs_rename stagedPath (ArtifactStore_payloadPath s actualDigest) w of
        (False, w1) \<Rightarrow> (Inl IoFailure, removeStaged stagedPath w1)
      | (True, w1) \<Rightarrow>
          (case writeFileAtomic (ArtifactStore_metadataPath s actualDigest) record w1 of
             (Inl e, w2) \<Rightarrow> (Inl e, snd (fs_remove (ArtifactStore_payloadPath s actualDigest) w2))
           | (Inr _, w2) \<Rightarrow> (Inr (), w2)))"

definition publish ::
  "ArtifactMetadata \<Rightarrow> string \<Rightarrow> Digest \<Rightarrow> u64 \<Rightarrow> ArtifactStore \<Rightarrow> (status \<times> ArtifactStore) option io" where
  "publish metadata stagedPath actualDigest actualSize s w =
     (case publish_budget s actualDigest actualSize of
        Inl e \<Rightarrow> (Some (Inl e, s), removeStaged stagedPath w)
      | Inr alreadyPresent \<Rightarrow>
          (case os_call w of
             (False, w1) \<Rightarrow> (Some (Inl OpenFailed, s), removeStaged stagedPath w1)
           | (True, w1) \<Rightarrow>
               (let stored = metadata\<lparr>am_digest := actualDigest, am_sizeBytes := actualSize\<rparr> in
                case encodeArtifactMetadata stored of
                  None \<Rightarrow> (None, w1)
                | Some (Inl e) \<Rightarrow> (Some (Inl e, s), removeStaged stagedPath w1)
                | Some (Inr record) \<Rightarrow>
                    if alreadyPresent
                    then (case publish_again actualDigest record s (removeStaged stagedPath w1) of
                            (r, w2) \<Rightarrow> (Some r, w2))
                    else (case publish_files stagedPath actualDigest record s w1 of
                            (Inl e, w2) \<Rightarrow> (Some (Inl e, s), w2)
                          | (Inr _, w2) \<Rightarrow>
                              (Some (Inr (), publish_index stored actualDigest actualSize s), w2)))))"

subsection \<open>Ingestion\<close>

definition staging_file :: "ArtifactStore \<Rightarrow> string io" where
  "staging_file s w =
     (case draw_random w of (suffix, w') \<Rightarrow>
        (aso_root (ats_options s) @ ''/payload/.staging-'' @ toHex suffix @ ''.part'', w'))"

text \<open>The copying loop over the blocks that the reads return; the last read finds the end of the file.\<close>

fun stage_blocks :: "string \<Rightarrow> u64 \<Rightarrow> bytes list \<Rightarrow> Sha256 \<Rightarrow> u64 \<Rightarrow> (status \<times> Sha256 \<times> u64) io" where
  "stage_blocks temporary maxBytes [] h sofar w =
     (case os_call w of (ok, w') \<Rightarrow> ((if ok then Inr () else Inl IoFailure, h, sofar), w'))"
| "stage_blocks temporary maxBytes (b # bs) h sofar w =
     (case os_call w of
        (False, w1) \<Rightarrow> ((Inl IoFailure, h, sofar), w1)
      | (True, w1) \<Rightarrow>
          (let h' = Sha256_update h b in
           case fwrite_at temporary (unat sofar) b w1 of
             (False, w2) \<Rightarrow> ((Inl IoFailure, h', sofar), w2)
           | (True, w2) \<Rightarrow>
               (case checkedAdd sofar (of_nat (length b)) of
                  None \<Rightarrow> ((Inl ArithmeticOverflow, h', sofar), w2)
                | Some sofar' \<Rightarrow>
                    if sofar' > maxBytes then ((Inl OversizePayload, h', sofar'), w2)
                    else stage_blocks temporary maxBytes bs h' sofar' w2)))"

definition stage_source :: "string \<Rightarrow> bytes \<Rightarrow> ArtifactStore \<Rightarrow> (status \<times> Sha256 \<times> u64) io" where
  "stage_source temporary content s w =
     (case stage_blocks temporary (aso_maxArtifactBytes (ats_options s))
             (file_blocks (aso_readChunkBytes (ats_options s)) content) Sha256_init 0 w of
        ((st, h, sofar), w1) \<Rightarrow>
          (case os_call w1 of
             (flushed, w2) \<Rightarrow> ((if flushed \<and> st \<noteq> Inr () then Inl IoFailure else st, h, sofar), w2)))"

definition ingestFromFile ::
  "string \<Rightarrow> ArtifactMetadata \<Rightarrow> ArtifactStore \<Rightarrow> (status \<times> ArtifactStore) option io" where
  "ingestFromFile sourcePath declared s w =
     (case fs_file_size sourcePath w of
        (None, w1) \<Rightarrow> (Some (Inl NotFound, s), w1)
      | (Some declaredSize, w1) \<Rightarrow>
          if declaredSize > aso_maxArtifactBytes (ats_options s) then (Some (Inl OversizePayload, s), w1)
          else if declaredSize \<noteq> am_sizeBytes declared then (Some (Inl SizeMismatch, s), w1)
          else
            (case os_call w1 of (_, w2) \<Rightarrow>
             case staging_file s w2 of (temporary, w3) \<Rightarrow>
             case os_call w3 of
               (False, w4) \<Rightarrow> (Some (Inl OpenFailed, s), w4)
             | (True, w4) \<Rightarrow>
                 (case os_change (CreateFile temporary) w4 of
                    (False, w5) \<Rightarrow> (Some (Inl OpenFailed, s), w5)
                  | (True, w5) \<Rightarrow>
                      (case w_disk w5 sourcePath of
                         None \<Rightarrow> (Some (Inl IoFailure, s), w5)
                       | Some content \<Rightarrow>
                           (case stage_source temporary content s w5 of
                              ((Inl e, h, sofar), w6) \<Rightarrow> (Some (Inl e, s), removeStaged temporary w6)
                            | ((Inr _, h, sofar), w6) \<Rightarrow>
                                if sofar \<noteq> am_sizeBytes declared
                                then (Some (Inl SizeMismatch, s), removeStaged temporary w6)
                                else if Sha256_finish h \<noteq> am_digest declared
                                then (Some (Inl DigestMismatch, s), removeStaged temporary w6)
                                else publish declared temporary (Sha256_finish h) sofar s w6)))))"

definition ingestBytes ::
  "bytes \<Rightarrow> ArtifactMetadata \<Rightarrow> ArtifactStore \<Rightarrow> (status \<times> ArtifactStore) option io" where
  "ingestBytes content declared s w =
     (if length content > unat (aso_maxArtifactBytes (ats_options s)) then (Some (Inl OversizePayload, s), w)
      else if length content \<noteq> unat (am_sizeBytes declared) then (Some (Inl SizeMismatch, s), w)
      else if Digest_ofContent content \<noteq> am_digest declared then (Some (Inl DigestMismatch, s), w)
      else
        (case os_call w of (_, w1) \<Rightarrow>
         case staging_file s w1 of (temporary, w2) \<Rightarrow>
         case os_change (CreateFile temporary) w2 of
           (False, w3) \<Rightarrow> (Some (Inl OpenFailed, s), w3)
         | (True, w3) \<Rightarrow>
             (case (if content = [] then (True, w3) else fwrite_at temporary 0 content w3) of
                (written, w4) \<Rightarrow>
                  (case (if written then os_call w4 else (False, w4)) of
                     (False, w5) \<Rightarrow> (Some (Inl IoFailure, s), removeStaged temporary w5)
                   | (True, w5) \<Rightarrow>
                       publish declared temporary (Digest_ofContent content) (of_nat (length content)) s w5))))"

subsection \<open>Garbage collection\<close>

fun collect_each :: "ArtifactMetadata list \<Rightarrow> nat \<Rightarrow> ArtifactStore \<Rightarrow> (nat \<times> ArtifactStore) io" where
  "collect_each [] removed s w = ((removed, s), w)"
| "collect_each (m # ms) removed s w =
     (case fs_remove (ArtifactStore_payloadPath s (am_digest m)) w of (_, w1) \<Rightarrow>
      case fs_remove (ArtifactStore_metadataPath s (am_digest m)) w1 of (_, w2) \<Rightarrow>
      collect_each ms (removed + 1) (drop_entry (am_digest m) s) w2)"

definition collectGarbage :: "Digest list \<Rightarrow> nat \<Rightarrow> ArtifactStore \<Rightarrow> (nat \<times> ArtifactStore) io" where
  "collectGarbage live removed s =
     collect_each (filter (\<lambda>m. am_digest m \<notin> set live) (ats_index s)) removed s"

subsection \<open>Opening a store\<close>

fun remove_partials :: "string list \<Rightarrow> bool \<Rightarrow> nat \<Rightarrow> nat io" where
  "remove_partials [] ec n w = (n, w)"
| "remove_partials (p # ps) ec n w =
     (if ec then (n, w)
      else case fs_probe p w of ((ec', regular), w1) \<Rightarrow>
        if regular \<and> isPartialFileName (path_filename p)
        then (case fs_remove p w1 of (removed, w2) \<Rightarrow>
                remove_partials ps ec' (if removed then n + 1 else n) w2)
        else remove_partials ps ec' n w1)"

text \<open>A metadata file: its record, when it decodes and its payload has a size.\<close>

definition load_metadata :: "string \<Rightarrow> string \<Rightarrow> ArtifactMetadata option io" where
  "load_metadata root path w =
     (case readFileBounded path kAbsoluteMaxFieldBytes w of
        (Inl _, w1) \<Rightarrow> (None, w1)
      | (Inr record, w1) \<Rightarrow>
          (case decodeArtifactMetadata record of
             Inl _ \<Rightarrow> (None, w1)
           | Inr m \<Rightarrow>
               (case fs_file_size (payload_file root (am_digest m)) w1 of
                  (None, w2) \<Rightarrow> (None, w2)
                | (Some _, w2) \<Rightarrow> (Some m, w2))))"

fun load_entries ::
  "string \<Rightarrow> string list \<Rightarrow> bool \<Rightarrow> ArtifactMetadata list \<Rightarrow> ArtifactMetadata list result io" where
  "load_entries root [] ec loaded w = (Inr loaded, w)"
| "load_entries root (p # ps) ec loaded w =
     (if ec then (Inl IoFailure, w)
      else case fs_probe p w of ((ec', regular), w1) \<Rightarrow>
        if regular \<and> path_extension p = ''.meta''
        then (case load_metadata root p w1 of
                (None, w2) \<Rightarrow> load_entries root ps ec' loaded w2
              | (Some m, w2) \<Rightarrow> load_entries root ps ec' (loaded @ [m]) w2)
        else load_entries root ps ec' loaded w1)"

text \<open>\<^verbatim>\<open>std::unique\<close> by digest: of neighbours with one digest the first stays.\<close>

fun unique_digests :: "ArtifactMetadata list \<Rightarrow> ArtifactMetadata list" where
  "unique_digests (m # m' # ms) =
     (if am_digest m = am_digest m' then unique_digests (m # ms) else m # unique_digests (m' # ms))"
| "unique_digests ms = ms"

text \<open>
  The listing of an iterator that cannot be constructed is empty. The total counts every loaded record,
  also one that the removal of duplicates drops. Records with one digest may stay in any order after
  \<^verbatim>\<open>std::sort\<close>; here they keep theirs.
\<close>

definition loadIndex :: "(disk \<Rightarrow> string \<Rightarrow> string list) \<Rightarrow> ArtifactStore \<Rightarrow> (status \<times> ArtifactStore) io" where
  "loadIndex tree s w =
     (let root = aso_root (ats_options s) in
      case os_call w of
        (False, w1) \<Rightarrow> ((Inr (), s), w1)
      | (True, w1) \<Rightarrow>
          (case os_call w1 of
             (listed, w2) \<Rightarrow>
               (case load_entries root (if listed then tree (w_disk w2) root else []) False [] w2 of
                  (Inl e, w3) \<Rightarrow> ((Inl e, s), w3)
                | (Inr loaded, w3) \<Rightarrow>
                    ((Inr (), s\<lparr>ats_index := unique_digests (sort_key am_digest loaded),
                                ats_usedBytes := sum_list (map am_sizeBytes loaded)\<rparr>), w3))))"

definition ArtifactStore_open ::
  "(disk \<Rightarrow> string \<Rightarrow> string list) \<Rightarrow> ArtifactStoreOptions \<Rightarrow> ArtifactRecoveryReport
     \<Rightarrow> (ArtifactStore result \<times> ArtifactRecoveryReport) io" where
  "ArtifactStore_open tree options report w =
     (if aso_root options = [] then ((Inl InvalidArgument, report), w)
      else if aso_maxArtifactBytes options = 0 \<or> aso_readChunkBytes options = 0
      then ((Inl InvalidArgument, report), w)
      else
        (case os_call w of
           (False, w1) \<Rightarrow> ((Inl OpenFailed, report), w1)
         | (True, w1) \<Rightarrow>
             (case os_call w1 of (listed, w2) \<Rightarrow>
              case remove_partials (if listed then tree (w_disk w2) (aso_root options) else []) False
                     (arr_removedPartialFiles report) w2 of
                (removed, w3) \<Rightarrow>
                  (let report1 = report\<lparr>arr_removedPartialFiles := removed\<rparr> in
                   case loadIndex tree \<lparr>ats_options = options, ats_index = [], ats_usedBytes = 0\<rparr> w3 of
                     ((Inl e, s), w4) \<Rightarrow> ((Inl e, report1), w4)
                   | ((Inr _, s), w4) \<Rightarrow>
                       ((Inr s, report1\<lparr>arr_artifactsIndexed := length (ats_index s),
                                        arr_indexedBytes := ats_usedBytes s\<rparr>), w4)))))"

end
