(* ===== verification/ArtifactProperties.thy ===== *)
theory ArtifactProperties
  imports ArtifactStore
begin

text \<open>
  Properties of the artifact store: the index stays sorted, free of duplicates and within its budget,
  and the account of used bytes stays exact, through every operation and whatever the operating system
  answers; what was ingested is read back and verified; what the reader verifies; and the behaviours of
  verification, resumed reading and concurrent publishing that depart from their documentation.
\<close>

subsection \<open>The sorted index\<close>

definition index_sorted :: "ArtifactMetadata list \<Rightarrow> bool" where
  "index_sorted ms \<longleftrightarrow> sorted_wrt (<) (map am_digest ms)"

definition index_bytes :: "ArtifactMetadata list \<Rightarrow> nat" where
  "index_bytes ms = sum_list (map (\<lambda>m. unat (am_sizeBytes m)) ms)"

lemma index_bytes_simps [simp]:
  "index_bytes [] = 0" "index_bytes (m # ms) = unat (am_sizeBytes m) + index_bytes ms"
  "index_bytes (xs @ ys) = index_bytes xs + index_bytes ys"
  by (simp_all add: index_bytes_def)

lemma index_split_lookup:
  assumes "index_lookup ms digest = Some m"
  obtains xs ys where "ms = xs @ m # ys" "am_digest m = digest" "\<forall>x\<in>set xs. am_digest x < digest"
    "index_erase digest ms = xs @ ys"
proof -
  let ?P = "\<lambda>e. am_digest e < digest"
  from assms obtain ys where ys: "dropWhile ?P ms = m # ys" and d: "am_digest m = digest"
    by (auto simp: index_lookup_def index_lower_bound_def split: list.splits if_splits)
  have "ms = takeWhile ?P ms @ m # ys" by (metis takeWhile_dropWhile_id ys)
  moreover have "index_erase digest ms = takeWhile ?P ms @ ys"
    by (simp add: index_erase_def index_lower_bound_def ys)
  ultimately show ?thesis using d that by (metis set_takeWhileD)
qed

lemma index_split_insert:
  assumes "index_lookup ms digest = None" and "index_sorted ms"
  obtains xs ys where "ms = xs @ ys" "\<forall>x\<in>set xs. am_digest x < digest"
    "\<forall>y\<in>set ys. digest < am_digest y" "index_insert m digest ms = xs @ m # ys"
proof -
  let ?P = "\<lambda>e. am_digest e < digest"
  let ?xs = "takeWhile ?P ms" and ?ys = "dropWhile ?P ms"
  have eq: "ms = ?xs @ ?ys" by simp
  have "sorted_wrt (<) (map am_digest ?xs @ map am_digest ?ys)"
    using assms(2) unfolding index_sorted_def by (metis eq map_append)
  then have sorted: "sorted_wrt (<) (map am_digest ?ys)" by (simp add: sorted_wrt_append)
  have "\<forall>y\<in>set ?ys. digest < am_digest y"
  proof (cases ?ys)
    case (Cons z zs)
    then have "\<not> ?P z" using hd_dropWhile [of ?P ms] by simp
    moreover have "am_digest z \<noteq> digest"
      using assms(1) Cons by (simp add: index_lookup_def index_lower_bound_def split: if_splits)
    ultimately have "digest < am_digest z" by simp
    with sorted show ?thesis unfolding Cons by (auto intro: order.strict_trans)
  qed (simp only: list.set ball_empty)
  moreover have "index_insert m digest ms = ?xs @ m # ?ys"
    by (simp add: index_insert_def index_lower_bound_def)
  ultimately show ?thesis using that [OF eq] by (metis set_takeWhileD)
qed

lemma index_lookup_iff:
  assumes "index_sorted ms"
  shows "index_lookup ms digest = Some m \<longleftrightarrow> m \<in> set ms \<and> am_digest m = digest"
proof
  assume "index_lookup ms digest = Some m"
  then show "m \<in> set ms \<and> am_digest m = digest" by (rule index_split_lookup) simp
next
  assume m: "m \<in> set ms \<and> am_digest m = digest"
  show "index_lookup ms digest = Some m"
  proof (cases "index_lookup ms digest")
    case None
    then show ?thesis using m index_split_insert [OF None assms] by (metis Un_iff less_irrefl set_append)
  next
    case (Some m')
    then obtain xs ys where "ms = xs @ m' # ys" "am_digest m' = digest" by (rule index_split_lookup)
    with m assms have "m = m'" by (auto simp: index_sorted_def sorted_wrt_append dest: less_imp_neq)
    with Some show ?thesis by simp
  qed
qed

subsection \<open>The invariant\<close>

definition store_inv :: "ArtifactStore \<Rightarrow> bool" where
  "store_inv s \<longleftrightarrow>
     index_sorted (ats_index s) \<and> (\<forall>m\<in>set (ats_index s). length (am_digest m) = 32)
     \<and> unat (ats_usedBytes s) = index_bytes (ats_index s)
     \<and> length (ats_index s) \<le> aso_maxArtifacts (ats_options s)
     \<and> ats_usedBytes s \<le> aso_maxTotalBytes (ats_options s)"

lemma drop_entry_options [simp]: "ats_options (drop_entry digest s) = ats_options s"
  by (simp add: drop_entry_def split: option.splits)

lemma drop_entry_inv:
  assumes "store_inv s"
  shows "store_inv (drop_entry digest s)"
proof (cases "index_lookup (ats_index s) digest")
  case (Some m)
  from Some obtain xs ys where eq: "ats_index s = xs @ m # ys"
    and er: "index_erase digest (ats_index s) = xs @ ys" by (rule index_split_lookup)
  let ?u = "if ats_usedBytes s > am_sizeBytes m then ats_usedBytes s - am_sizeBytes m else 0"
  have used: "unat (ats_usedBytes s) = index_bytes xs + unat (am_sizeBytes m) + index_bytes ys"
    using assms by (simp add: store_inv_def eq)
  then have u: "unat ?u = index_bytes (xs @ ys)"
    by (auto simp: word_less_nat_alt word_le_nat_alt unat_sub not_less)
  moreover have "?u \<le> aso_maxTotalBytes (ats_options s)"
    using assms used u by (simp only: store_inv_def word_le_nat_alt) simp
  moreover have "index_sorted (xs @ ys) \<and> (\<forall>m\<in>set (xs @ ys). length (am_digest m) = 32)"
    using assms by (auto simp: store_inv_def index_sorted_def eq sorted_wrt_append)
  moreover have "length (xs @ ys) \<le> aso_maxArtifacts (ats_options s)"
    using assms by (simp add: store_inv_def eq)
  ultimately show ?thesis by (simp add: store_inv_def drop_entry_def Some er)
qed (use assms in \<open>simp add: drop_entry_def\<close>)

lemma drop_entry_lookup:
  assumes "index_sorted (ats_index s)"
  shows "index_lookup (ats_index (drop_entry digest s)) d =
    (if d = digest then None else index_lookup (ats_index s) d)"
proof (cases "index_lookup (ats_index s) digest")
  case (Some m)
  from Some obtain xs ys where eq: "ats_index s = xs @ m # ys" and m: "am_digest m = digest"
    and er: "index_erase digest (ats_index s) = xs @ ys" by (rule index_split_lookup)
  have srt: "index_sorted (xs @ ys)" and ne: "\<forall>x\<in>set (xs @ ys). am_digest x \<noteq> digest"
    using assms m by (auto simp: index_sorted_def eq sorted_wrt_append)
  have "index_lookup (xs @ ys) d = Some m' \<longleftrightarrow> d \<noteq> digest \<and> index_lookup (ats_index s) d = Some m'" for m'
    using ne m unfolding index_lookup_iff [OF srt] index_lookup_iff [OF assms] by (auto simp: eq)
  then have "index_lookup (xs @ ys) d = (if d = digest then None else index_lookup (ats_index s) d)"
    by (cases "index_lookup (ats_index s) d"; cases "index_lookup (xs @ ys) d") auto
  then show ?thesis by (simp add: drop_entry_def Some er)
qed (simp add: drop_entry_def)

lemma publish_index_inv:
  assumes "store_inv s" and "publish_budget s digest n = Inr False"
    and "am_digest stored = digest" "length digest = 32" "am_sizeBytes stored = n"
  shows "store_inv (publish_index stored digest n s)"
proof -
  from assms(2) have none: "index_lookup (ats_index s) digest = None"
    and count: "length (ats_index s) < aso_maxArtifacts (ats_options s)"
    and fits: "n \<le> aso_maxTotalBytes (ats_options s)"
    and used: "ats_usedBytes s \<le> aso_maxTotalBytes (ats_options s) - n"
    by (auto simp: publish_budget_def ArtifactStore_contains_def not_less split: if_splits)
  from none assms(1) obtain xs ys where eq: "ats_index s = xs @ ys"
    and lt: "\<forall>x\<in>set xs. am_digest x < digest" "\<forall>y\<in>set ys. digest < am_digest y"
    and ins: "index_insert stored digest (ats_index s) = xs @ stored # ys"
    unfolding store_inv_def by (metis index_split_insert)
  have le: "unat (ats_usedBytes s) + unat n \<le> unat (aso_maxTotalBytes (ats_options s))"
    using used fits by (simp add: word_le_nat_alt unat_sub)
  also have "\<dots> < 2 ^ 64" using unsigned_less [of "aso_maxTotalBytes (ats_options s)"] by simp
  finally have add: "unat (ats_usedBytes s + n) = unat (ats_usedBytes s) + unat n"
    by (simp add: unat_word_ariths)
  have "index_sorted (xs @ stored # ys)"
    using assms(1,3) lt by (auto simp: store_inv_def index_sorted_def eq sorted_wrt_append
        intro: order.strict_trans)
  then show ?thesis
    using assms(1,3-) none count le add eq ins [unfolded eq]
    by (simp add: publish_index_def ArtifactStore_contains_def store_inv_def word_le_nat_alt)
qed


subsection \<open>Every operation keeps it\<close>

lemma quarantine_store:
  "quarantine digest s w = (s', w') \<Longrightarrow> s' = s \<or> s' = drop_entry digest s"
  by (auto simp: quarantine_def Let_def split: prod.splits bool.splits)

lemma verify_store:
  assumes "ArtifactStore_verify digest s w = ((st, s'), w')"
  shows "s' = s \<or> s' = drop_entry digest s"
  using assms
  by (auto simp: ArtifactStore_verify_def Let_def dest: quarantine_store
      split: prod.splits sum.splits if_splits)

lemma verify_inv:
  "ArtifactStore_verify digest s w = ((st, s'), w') \<Longrightarrow> store_inv s \<Longrightarrow>
     store_inv s' \<and> ats_options s' = ats_options s"
  by (auto dest!: verify_store intro: drop_entry_inv)

lemma verify_each_inv:
  "verify_each ms s w = ((rs, s'), w') \<Longrightarrow> store_inv s \<Longrightarrow>
     store_inv s' \<and> ats_options s' = ats_options s \<and> map fst rs = map am_digest ms"
proof (induction ms arbitrary: s w rs s' w')
  case (Cons m ms)
  from Cons.prems obtain st s1 w1 rs' where 1: "ArtifactStore_verify (am_digest m) s w = ((st, s1), w1)"
    and 2: "verify_each ms s1 w1 = ((rs', s'), w')" and rs: "rs = (am_digest m, st) # rs'"
    by (auto split: prod.splits)
  from verify_inv [OF 1 Cons.prems(2)] Cons.IH [OF 2] rs show ?case by simp
qed simp

lemma publish_again_inv:
  "publish_again digest record s w = ((st, s'), w') \<Longrightarrow> store_inv s \<Longrightarrow>
     store_inv s' \<and> ats_options s' = ats_options s"
  by (auto simp: publish_again_def dest!: verify_inv split: prod.splits sum.splits bool.splits)

lemma publish_index_options [simp]: "ats_options (publish_index stored digest n s) = ats_options s"
  by (simp add: publish_index_def)

lemma publish_inv:
  assumes "publish metadata staged digest n s w = (Some (st, s'), w')" and "store_inv s"
    and "length digest = 32"
  shows "store_inv s' \<and> ats_options s' = ats_options s"
proof (cases "publish_budget s digest n")
  case (Inr present)
  show ?thesis
  proof (cases present)
    case True
    with assms Inr show ?thesis
      by (auto simp: publish_def Let_def dest: publish_again_inv
          split: prod.splits bool.splits option.splits sum.splits)
  next
    case False
    with Inr have budget: "publish_budget s digest n = Inr False" by simp
    let ?stored = "metadata\<lparr>am_digest := digest, am_sizeBytes := n\<rparr>"
    have "store_inv (publish_index ?stored digest n s)"
      by (rule publish_index_inv [OF assms(2) budget]) (simp_all add: assms(3))
    with assms Inr False show ?thesis
      by (auto simp: publish_def Let_def split: prod.splits bool.splits option.splits sum.splits)
  qed
qed (use assms in \<open>simp add: publish_def\<close>)

text \<open>An ingestion changes the store only through a publish under the declared digest.\<close>

lemma ingestBytes_publish:
  "ingestBytes content declared s w = (Some (st, s'), w') \<Longrightarrow>
     s' = s \<or> (length (am_digest declared) = 32
       \<and> (\<exists>staged n w1. publish declared staged (am_digest declared) n s w1 = (Some (st, s'), w')))"
  by (auto simp: ingestBytes_def Digest_ofContent_def
      dest: arg_cong [where f = length and x = "sha256 c" for c]
      split: prod.splits bool.splits if_splits)

lemma ingestBytes_inv:
  "ingestBytes content declared s w = (Some (st, s'), w') \<Longrightarrow> store_inv s \<Longrightarrow>
     store_inv s' \<and> ats_options s' = ats_options s"
  by (auto dest!: ingestBytes_publish dest: publish_inv)

lemma length_Sha256_finish_stream: "length (Sha256_finish (foldl Sha256_update Sha256_init chunks)) = 32"
  by (simp add: Sha256_stream_correct)

lemma stage_blocks_hash:
  "stage_blocks temporary maxBytes bs h n w = ((st, h', n'), w') \<Longrightarrow>
     \<exists>ds. h' = foldl Sha256_update h ds"
proof (induction bs arbitrary: h n w)
  case Nil
  then have "h' = foldl Sha256_update h []" by (auto split: prod.splits)
  then show ?case by blast
next
  case (Cons b bs)
  show ?case
  proof (cases "h' = h \<or> h' = Sha256_update h b")
    case True
    then have "h' = foldl Sha256_update h [] \<or> h' = foldl Sha256_update h [b]" by simp
    then show ?thesis by blast
  next
    case False
    with Cons.prems obtain n1 w1 where "stage_blocks temporary maxBytes bs (Sha256_update h b) n1 w1 = ((st, h', n'), w')"
      by (auto simp: Let_def split: prod.splits bool.splits option.splits if_splits)
    from Cons.IH [OF this] obtain ds where "h' = foldl Sha256_update h (b # ds)" by auto
    then show ?thesis by blast
  qed
qed

lemma stage_source_hash:
  "stage_source temporary content s w = ((st, h, n), w') \<Longrightarrow> length (Sha256_finish h) = 32"
  by (auto simp: stage_source_def length_Sha256_finish_stream dest!: stage_blocks_hash split: prod.splits)

lemma ingestFromFile_publish:
  "ingestFromFile source declared s w = (Some (st, s'), w') \<Longrightarrow>
     s' = s \<or> (length (am_digest declared) = 32
       \<and> (\<exists>staged n w1. publish declared staged (am_digest declared) n s w1 = (Some (st, s'), w')))"
  by (auto simp: ingestFromFile_def dest!: stage_source_hash
      split: prod.splits bool.splits option.splits sum.splits if_splits)

lemma ingestFromFile_inv:
  "ingestFromFile source declared s w = (Some (st, s'), w') \<Longrightarrow> store_inv s \<Longrightarrow>
     store_inv s' \<and> ats_options s' = ats_options s"
  by (auto dest!: ingestFromFile_publish dest: publish_inv)

lemma collect_each_inv:
  "collect_each ms n s w = ((n', s'), w') \<Longrightarrow> store_inv s \<Longrightarrow>
     store_inv s' \<and> ats_options s' = ats_options s \<and> n' = n + length ms
     \<and> (\<forall>d. index_lookup (ats_index s') d =
          (if d \<in> am_digest ` set ms then None else index_lookup (ats_index s) d))"
proof (induction ms arbitrary: n s w)
  case (Cons m ms)
  from Cons.prems(1) obtain w1 where 1: "collect_each ms (n + 1) (drop_entry (am_digest m) s) w1 = ((n', s'), w')"
    by (auto split: prod.splits)
  have "index_sorted (ats_index s)" using Cons.prems(2) by (simp add: store_inv_def)
  from Cons.IH [OF 1 drop_entry_inv [OF Cons.prems(2)]] drop_entry_lookup [OF this]
  show ?case by auto
qed simp

inductive store_step :: "ArtifactStore \<Rightarrow> ArtifactStore \<Rightarrow> bool" where
  step_ingestBytes: "ingestBytes content declared s w = (Some (st, s'), w') \<Longrightarrow> store_step s s'"
| step_ingestFromFile: "ingestFromFile source declared s w = (Some (st, s'), w') \<Longrightarrow> store_step s s'"
| step_verify: "ArtifactStore_verify digest s w = ((st, s'), w') \<Longrightarrow> store_step s s'"
| step_verifyAll: "ArtifactStore_verifyAll s w = ((rs, s'), w') \<Longrightarrow> store_step s s'"
| step_collectGarbage: "collectGarbage live n s w = ((n', s'), w') \<Longrightarrow> store_step s s'"

lemma store_step_inv: "store_step s s' \<Longrightarrow> store_inv s \<Longrightarrow> store_inv s' \<and> ats_options s' = ats_options s"
  by (cases rule: store_step.cases)
    (auto simp: ArtifactStore_verifyAll_def collectGarbage_def
      dest: ingestBytes_inv ingestFromFile_inv verify_inv verify_each_inv collect_each_inv)

lemma store_steps_inv:
  "store_step\<^sup>*\<^sup>* s s' \<Longrightarrow> store_inv s \<Longrightarrow> store_inv s' \<and> ats_options s' = ats_options s"
  by (induction rule: rtranclp_induct) (auto dest: store_step_inv)

subsection \<open>Opening\<close>

lemma unique_digests_sorted:
  "sorted (map am_digest ms) \<Longrightarrow>
     index_sorted (unique_digests ms) \<and> set (unique_digests ms) \<subseteq> set ms
     \<and> (ms \<noteq> [] \<longrightarrow> unique_digests ms \<noteq> [] \<and> hd (unique_digests ms) = hd ms)"
proof (induction ms rule: unique_digests.induct)
  case (1 m m' ms)
  show ?case
  proof (cases "am_digest m = am_digest m'")
    case True
    with 1 show ?thesis by auto
  next
    case False
    with 1 have IH: "index_sorted (unique_digests (m' # ms))" "set (unique_digests (m' # ms)) \<subseteq> set (m' # ms)"
      by auto
    have "am_digest m < am_digest x" if "x \<in> set (m' # ms)" for x
      using 1(3) False that by (auto simp: order.strict_iff_order intro: order.trans)
    with IH False show ?thesis by (auto simp: index_sorted_def)
  qed
qed (simp_all add: index_sorted_def)

lemma load_entries_digests:
  "load_entries root ps ec ms w = (Inr ms', w') \<Longrightarrow> (\<forall>m\<in>set ms. length (am_digest m) = 32) \<Longrightarrow>
     (\<forall>m\<in>set ms'. length (am_digest m) = 32)"
proof (induction ps arbitrary: ec ms w)
  case (Cons p ps)
  have loaded: "length (am_digest m) = 32" if "load_metadata root p w1 = (Some m, w2)" for m w1 w2
    using that by (auto simp: load_metadata_def decodeArtifactMetadata_iff metadata_ok_def
        split: prod.splits sum.splits option.splits)
  obtain ec' regular w1 where probe: "fs_probe p w = ((ec', regular), w1)" by (metis prod.exhaust)
  show ?case
  proof (cases "regular \<and> path_extension p = ''.meta''")
    case True
    obtain found w2 where load: "load_metadata root p w1 = (found, w2)" by fastforce
    show ?thesis
    proof (cases found)
      case None
      with Cons.prems(1) True probe load have "load_entries root ps ec' ms w2 = (Inr ms', w')"
        by (simp split: if_splits)
      then show ?thesis using Cons.prems(2) by (rule Cons.IH)
    next
      case (Some m)
      with Cons.prems(1) True probe load have "load_entries root ps ec' (ms @ [m]) w2 = (Inr ms', w')"
        by (simp split: if_splits)
      moreover have "\<forall>m\<in>set (ms @ [m]). length (am_digest m) = 32"
        using Cons.prems(2) loaded load Some by auto
      ultimately show ?thesis by (rule Cons.IH)
    qed
  next
    case False
    with Cons.prems(1) probe have "load_entries root ps ec' ms w1 = (Inr ms', w')"
      by (simp split: if_splits)
    then show ?thesis using Cons.prems(2) by (rule Cons.IH)
  qed
qed simp

lemma ArtifactStore_open_index:
  assumes "ArtifactStore_open tree options report w = ((Inr s, report'), w')"
  shows "ats_options s = options \<and> index_sorted (ats_index s)
    \<and> (\<forall>m\<in>set (ats_index s). length (am_digest m) = 32)"
proof -
  from assms obtain st w1 where "loadIndex tree \<lparr>ats_options = options, ats_index = [], ats_usedBytes = 0\<rparr> w1 = ((Inr st, s), w')"
    by (auto simp: ArtifactStore_open_def Let_def split: prod.splits bool.splits sum.splits if_splits)
  then consider "s = \<lparr>ats_options = options, ats_index = [], ats_usedBytes = 0\<rparr>"
    | loaded ps w2 where "load_entries (aso_root options) ps False [] w2 = (Inr loaded, w')"
        "ats_index s = unique_digests (sort_key am_digest loaded)" "ats_options s = options"
    by (auto simp: loadIndex_def Let_def split: prod.splits bool.splits sum.splits)
  then show ?thesis
  proof cases
    case 2
    then show ?thesis
      using unique_digests_sorted [of "sort_key am_digest loaded"] load_entries_digests [OF 2(1)] by auto
  qed (simp add: index_sorted_def)
qed

subsection \<open>Reading\<close>

text \<open>A reader that has handed out the first bytes of its file in order.\<close>

definition reader_seq :: "ArtifactReader \<Rightarrow> bytes \<Rightarrow> nat \<Rightarrow> bool" where
  "reader_seq r content n \<longleftrightarrow>
     rdr_file r = Some content \<and> unat (rdr_bytesRead r) = n
     \<and> (\<exists>chunks. rdr_hasher r = foldl Sha256_update Sha256_init chunks \<and> concat chunks = take n content)"

definition fresh_reader :: "bytes \<Rightarrow> u64 \<Rightarrow> Digest \<Rightarrow> ArtifactReader" where
  "fresh_reader content n digest =
     \<lparr>rdr_file = Some content, rdr_hasher = Sha256_init, rdr_size = n, rdr_bytesRead = 0,
      rdr_expected = digest, rdr_verified = False\<rparr>"

lemma reader_seq_fresh: "reader_seq (fresh_reader content n digest) content 0"
  by (auto simp: reader_seq_def fresh_reader_def intro: exI [of _ "[]"])

lemma readAt_quiet:
  assumes "quiet w" and "rdr_file r = Some content" and "offset \<le> rdr_size r" and "unat offset < 2 ^ 63"
  shows "readAt r offset len w =
    (let wanted = min (unat (rdr_size r - offset)) len;
         chunk = take wanted (drop (unat offset) content)
     in if length chunk \<noteq> wanted then ((Inl IntegrityFailure, r), w)
        else case reader_account r offset chunk of (st, r') \<Rightarrow> ((cf_try st (\<lambda>_. Inr chunk), r'), w))"
  using assms leD [OF assms(3)] by (simp add: readAt_def os_quiet Let_def)

text \<open>A read in order either stops short of the end or decides the digest.\<close>

lemma reader_account_seq:
  assumes "reader_seq r content n" and "chunk = take k (drop n content)" and "length chunk = k"
    and "n + k \<le> unat (rdr_size r)" and "offset = rdr_bytesRead r"
  obtains r' where "reader_account r offset chunk =
      (if n + k = unat (rdr_size r) \<and> sha256 (take (n + k) content) \<noteq> rdr_expected r
       then Inl DigestMismatch else Inr (), r')"
    "rdr_file r' = Some content" "rdr_size r' = rdr_size r" "rdr_expected r' = rdr_expected r"
    "unat (rdr_bytesRead r') = n + k"
    "n + k = unat (rdr_size r) \<Longrightarrow> rdr_verified r' = (sha256 (take (n + k) content) = rdr_expected r)"
    "n + k \<noteq> unat (rdr_size r) \<Longrightarrow> reader_seq r' content (n + k) \<and> rdr_verified r' = rdr_verified r"
proof -
  from assms(1) obtain chunks where c: "rdr_file r = Some content" "unat (rdr_bytesRead r) = n"
    "rdr_hasher r = foldl Sha256_update Sha256_init chunks" "concat chunks = take n content"
    by (auto simp: reader_seq_def)
  have h: "Sha256_update (rdr_hasher r) chunk = foldl Sha256_update Sha256_init (chunks @ [chunk])"
    by (simp add: c)
  have cat: "concat (chunks @ [chunk]) = take (n + k) content" by (simp add: c assms(2) take_add)
  have fin: "Sha256_finish (Sha256_update (rdr_hasher r) chunk) = sha256 (take (n + k) content)"
    by (simp only: h Sha256_stream_correct cat sha256_eq_spec)
  have "unat (rdr_size r) < 2 ^ 64" using unsigned_less [of "rdr_size r"] by simp
  then have n: "unat (rdr_bytesRead r + of_nat (length chunk)) = n + k"
    using assms(3,4) c(2) by (simp add: unat_word_ariths unat_of_nat)
  then have sz: "rdr_bytesRead r + of_nat (length chunk) = rdr_size r \<longleftrightarrow> n + k = unat (rdr_size r)"
    by (metis word_unat_eq_iff)
  have "reader_seq (r\<lparr>rdr_hasher := Sha256_update (rdr_hasher r) chunk,
      rdr_bytesRead := rdr_bytesRead r + of_nat (length chunk)\<rparr>) content (n + k)"
    using c(1) n h cat unfolding reader_seq_def by (intro conjI exI [of _ "chunks @ [chunk]"]) simp_all
  then show ?thesis
    using c(1) n
    by (intro that [of "snd (reader_account r offset chunk)"])
      (simp_all add: reader_account_def Let_def assms(5) sz fin)
qed

lemma verify_loop_step:
  "offset < rdr_size r \<Longrightarrow> readAt r offset len w = ((Inr chunk, r'), w') \<Longrightarrow> chunk \<noteq> [] \<Longrightarrow>
     verify_loop len r offset w = verify_loop len r' (offset + of_nat (length chunk)) w'"
  by (subst verify_loop.simps) simp

lemma verify_loop_quiet:
  assumes "quiet w" and "reader_seq r content (unat offset)" and "rdr_bytesRead r = offset"
    and "offset < rdr_size r" and "0 < len" and "unat (rdr_size r) < 2 ^ 63" and "\<not> rdr_verified r"
  shows "\<exists>r'. if unat (rdr_size r) \<le> length content
                 \<and> sha256 (take (unat (rdr_size r)) content) = rdr_expected r
              then verify_loop len r offset w = (((Inr (), False), r'), w) \<and> rdr_verified r'
              else \<exists>e. verify_loop len r offset w = (((Inl e, True), r'), w) \<and> isIntegrityCode e"
  using assms
proof (induction len r offset w rule: verify_loop.induct)
  case (1 len r offset w)
  let ?n = "unat offset"
  let ?k = "min (unat (rdr_size r - offset)) len"
  let ?chunk = "take ?k (drop ?n content)"
  have opened: "rdr_file r = Some content" using 1(3) by (simp add: reader_seq_def)
  have le: "?n + ?k \<le> unat (rdr_size r)" and k: "0 < ?k"
    using 1(5,6) by (auto simp: unat_sub word_le_nat_alt word_less_nat_alt)
  have small: "?n < 2 ^ 63" using 1(5,7) by (simp add: word_less_nat_alt)
  note read = readAt_quiet [OF 1(2) opened less_imp_le [OF 1(5)] small, of len]
  show ?case
  proof (cases "length ?chunk = ?k")
    case False
    then have "\<not> unat (rdr_size r) \<le> length content" using le by auto
    moreover have "readAt r offset len w = ((Inl IntegrityFailure, r), w)"
      using read False by (simp add: Let_def)
    ultimately show ?thesis using 1(5) by (subst (1 2) verify_loop.simps) (auto simp: isIntegrityCode_def)
  next
    case True
    then have long: "?n + ?k \<le> length content"
      using k unfolding length_take length_drop by linarith
    obtain r' where acc: "reader_account r offset ?chunk =
        (if ?n + ?k = unat (rdr_size r) \<and> sha256 (take (?n + ?k) content) \<noteq> rdr_expected r
         then Inl DigestMismatch else Inr (), r')"
      and keep: "rdr_file r' = Some content" "rdr_size r' = rdr_size r" "rdr_expected r' = rdr_expected r"
      and at: "unat (rdr_bytesRead r') = ?n + ?k"
      and done': "?n + ?k = unat (rdr_size r) \<Longrightarrow>
          rdr_verified r' = (sha256 (take (?n + ?k) content) = rdr_expected r)"
      and more': "?n + ?k \<noteq> unat (rdr_size r) \<Longrightarrow> reader_seq r' content (?n + ?k) \<and> rdr_verified r' = rdr_verified r"
      using reader_account_seq [OF 1(3) refl True le 1(4) [symmetric]] by metis
    show ?thesis
    proof (cases "?n + ?k = unat (rdr_size r) \<and> sha256 (take (?n + ?k) content) \<noteq> rdr_expected r")
      case bad: True
      then have "sha256 (take (unat (rdr_size r)) content) \<noteq> rdr_expected r" by metis
      moreover have "readAt r offset len w = ((Inl DigestMismatch, r'), w)"
        using read True unfolding Let_def acc if_P [OF bad] by (simp add: cf_try_def)
      ultimately show ?thesis using 1(5) by (subst (1 2) verify_loop.simps) (auto simp: isIntegrityCode_def)
    next
      case False
      have rd: "readAt r offset len w = ((Inr ?chunk, r'), w)"
        using read True unfolding Let_def acc if_not_P [OF False] by (simp add: cf_try_def)
      have ne: "?chunk \<noteq> []" using True k by (metis length_greater_0_conv)
      let ?off = "offset + of_nat (length ?chunk)"
      have off: "unat ?off = ?n + ?k" using readAt_advance [OF rd] True by simp
      have step: "verify_loop len r offset w = verify_loop len r' ?off w"
        by (rule verify_loop_step [OF 1(5) rd ne])
      show ?thesis
      proof (cases "?n + ?k = unat (rdr_size r)")
        case end': True
        then have "\<not> ?off < rdr_size r'" unfolding word_less_nat_alt off keep by simp
        then have "verify_loop len r' ?off w = (((Inr (), False), r'), w)" by (subst verify_loop.simps) simp
        then show ?thesis using False end' done' long step by auto
      next
        case go: False
        have "?off < rdr_size r'" using go le unfolding word_less_nat_alt off keep by simp
        moreover have "rdr_bytesRead r' = ?off" unfolding word_unat_eq_iff at off ..
        ultimately show ?thesis
          using 1(1) [OF 1(5) rd [symmetric] _ refl ne] more' [OF go] off 1(2,6-8) step keep by auto
      qed
    qed
  qed
qed

subsection \<open>Reading on from the middle\<close>

text \<open>Reads of the given lengths, each starting where the one before it ended, and the bytes they cover.\<close>

fun read_on :: "ArtifactReader \<Rightarrow> nat \<Rightarrow> nat list \<Rightarrow> (bytes result list \<times> ArtifactReader) io" where
  "read_on r n [] w = (([], r), w)"
| "read_on r n (k # ks) w =
     (case readAt r (of_nat n) k w of ((got, r1), w1) \<Rightarrow>
      case read_on r1 (n + k) ks w1 of ((rest, r2), w2) \<Rightarrow> ((got # rest, r2), w2))"

fun pieces :: "bytes \<Rightarrow> nat \<Rightarrow> nat list \<Rightarrow> bytes list" where
  "pieces content n [] = []"
| "pieces content n (k # ks) = take k (drop n content) # pieces content (n + k) ks"

text \<open>A reader whose hash covers the bytes from the first offset to the second only.\<close>

definition resumed :: "ArtifactReader \<Rightarrow> bytes \<Rightarrow> nat \<Rightarrow> nat \<Rightarrow> bool" where
  "resumed r content m n \<longleftrightarrow>
     rdr_file r = Some content \<and> rdr_size r = of_nat (length content) \<and> rdr_expected r = sha256 content
     \<and> rdr_bytesRead r = of_nat n
     \<and> (\<exists>chunks. rdr_hasher r = foldl Sha256_update Sha256_init chunks
          \<and> concat chunks = take (n - m) (drop m content))"

lemma small_unat: "n < 2 ^ 63 \<Longrightarrow> unat (of_nat n :: u64) = n"
  by (simp add: unat_of_nat)

lemma small_eq: "m < 2 ^ 63 \<Longrightarrow> n < 2 ^ 63 \<Longrightarrow> (of_nat m :: u64) = of_nat n \<longleftrightarrow> m = n"
  by (metis small_unat)

lemma small_diff: "n \<le> m \<Longrightarrow> m < 2 ^ 63 \<Longrightarrow> unat (of_nat m - of_nat n :: u64) = m - n"
  by (subst unat_sub) (simp_all add: word_le_nat_alt small_unat)

lemma readAt_inside:
  assumes "quiet w" and "rdr_file r = Some content" and "rdr_size r = of_nat (length content)"
    and "length content < 2 ^ 63" and "n \<le> length content"
  shows "readAt r (of_nat n) k w =
    (case reader_account r (of_nat n) (take k (drop n content)) of
       (st, r') \<Rightarrow> ((cf_try st (\<lambda>_. Inr (take k (drop n content))), r'), w))"
proof -
  have "take (min (length content - n) k) (drop n content) = take k (drop n content)"
    by (simp add: min_def)
  moreover have "length (take k (drop n content)) = min (length content - n) k" by simp
  ultimately show ?thesis
    using assms by (subst readAt_quiet [OF assms(1,2)])
      (simp_all add: small_unat small_diff word_le_nat_alt Let_def del: length_take)
qed

lemma resumed_first:
  assumes "quiet w" and "0 < n" and "length content < 2 ^ 63" and "n + k < length content"
  obtains r where "readAt (fresh_reader content (of_nat (length content)) (sha256 content)) (of_nat n) k w =
      ((Inr (take k (drop n content)), r), w)"
    "resumed r content (n + k) (n + k)"
proof -
  let ?r = "fresh_reader content (of_nat (length content)) (sha256 content)"
  let ?r1 = "?r\<lparr>rdr_bytesRead := of_nat (n + k)\<rparr>"
  have ne: "(of_nat n :: u64) \<noteq> 0" "(of_nat (n + k) :: u64) \<noteq> of_nat (length content)"
    using small_eq [of n 0] small_eq [of "n + k" "length content"] assms(2-4) by simp_all
  have len: "length (take k (drop n content)) = k" using assms(4) by simp
  have "reader_account ?r (of_nat n) (take k (drop n content)) = (Inr (), ?r1)"
    using ne len unfolding reader_account_def Let_def len by (simp add: fresh_reader_def)
  then have "readAt ?r (of_nat n) k w = ((Inr (take k (drop n content)), ?r1), w)"
    using readAt_inside [OF assms(1) _ _ assms(3), of ?r n k] assms(4)
    by (simp add: fresh_reader_def cf_try_def)
  moreover have "resumed ?r1 content (n + k) (n + k)"
    by (auto simp: resumed_def fresh_reader_def intro: exI [of _ "[]"])
  ultimately show thesis by (rule that)
qed

lemma resumed_step:
  assumes "quiet w" and "resumed r content m n" and "m \<le> n" and "length content < 2 ^ 63"
    and "n \<le> length content" and "chunk = take k (drop n content)"
  obtains r' where "readAt r (of_nat n) k w =
      ((if n + length chunk = length content \<and> sha256 (drop m content) \<noteq> sha256 content
        then Inl DigestMismatch else Inr chunk, r'), w)"
    "n + length chunk < length content \<Longrightarrow> resumed r' content m (n + length chunk)"
proof -
  from assms(2) obtain chunks where c: "rdr_file r = Some content" "rdr_size r = of_nat (length content)"
    "rdr_expected r = sha256 content" "rdr_bytesRead r = of_nat n"
    "rdr_hasher r = foldl Sha256_update Sha256_init chunks" "concat chunks = take (n - m) (drop m content)"
    by (auto simp: resumed_def)
  let ?h = "Sha256_update (rdr_hasher r) chunk" and ?j = "n + length chunk"
  have le: "?j \<le> length content" using assms(5,6) by simp
  have cat: "concat (chunks @ [chunk]) = take (?j - m) (drop m content)"
  proof -
    have "chunk = take (length chunk) (drop (n - m) (drop m content))"
      using assms(3,6) by (simp add: drop_drop min_def)
    moreover have "?j - m = (n - m) + length chunk" using assms(3) by simp
    ultimately show ?thesis by (simp add: c take_add)
  qed
  have h: "?h = foldl Sha256_update Sha256_init (chunks @ [chunk])" by (simp add: c)
  have fin: "Sha256_finish ?h = sha256 (take (?j - m) (drop m content))"
    by (simp only: h Sha256_stream_correct cat sha256_eq_spec)
  have sz: "rdr_bytesRead r + of_nat (length chunk) = rdr_size r \<longleftrightarrow> ?j = length content"
    using small_eq [of ?j "length content"] le assms(4) by (simp add: c(2,4))
  have all: "take (length content - m) (drop m content) = drop m content" by simp
  have "resumed (r\<lparr>rdr_hasher := ?h, rdr_bytesRead := rdr_bytesRead r + of_nat (length chunk)\<rparr>) content m ?j"
    using c(1-4) h cat unfolding resumed_def by (intro conjI exI [of _ "chunks @ [chunk]"]) simp_all
  then show thesis
    using readAt_inside [OF assms(1) c(1,2) assms(4,5), of k] fin
    unfolding assms(6) [symmetric]
    by (intro that [of "snd (reader_account r (of_nat n) chunk)"])
      (auto simp: reader_account_def Let_def c(3) c(4) [symmetric] sz cf_try_def)
qed

lemma resumed_rest:
  "quiet w \<Longrightarrow> resumed r content m n \<Longrightarrow> m \<le> n \<Longrightarrow> length content < 2 ^ 63 \<Longrightarrow>
     n + sum_list ks < length content \<Longrightarrow> length content \<le> n + sum_list ks + len \<Longrightarrow>
     \<exists>r'. read_on r n (ks @ [len]) w =
       ((map Inr (pieces content n ks)
           @ [if sha256 (drop m content) = sha256 content then Inr (drop (n + sum_list ks) content)
              else Inl DigestMismatch], r'), w)"
proof (induction ks arbitrary: r n)
  case Nil
  then obtain r' where "readAt r (of_nat n) len w =
      ((if n + length (take len (drop n content)) = length content \<and> sha256 (drop m content) \<noteq> sha256 content
        then Inl DigestMismatch else Inr (take len (drop n content)), r'), w)"
    using resumed_step [OF Nil.prems(1-4), of "take len (drop n content)" len] by auto
  moreover have "take len (drop n content) = drop n content" using Nil.prems(6) by simp
  ultimately show ?case using Nil.prems(5) by simp
next
  case (Cons k ks)
  let ?chunk = "take k (drop n content)"
  have len: "length ?chunk = k" using Cons.prems(5) by simp
  obtain r' where "readAt r (of_nat n) k w = ((Inr ?chunk, r'), w)" and r': "resumed r' content m (n + k)"
    using resumed_step [OF Cons.prems(1-4), of ?chunk k] Cons.prems(5) unfolding len by auto
  moreover obtain r2 where "read_on r' (n + k) (ks @ [len]) w = ((map Inr (pieces content (n + k) ks)
      @ [if sha256 (drop m content) = sha256 content then Inr (drop (n + k + sum_list ks) content)
         else Inl DigestMismatch], r2), w)"
    using Cons.IH [OF Cons.prems(1) r' _ Cons.prems(4)] Cons.prems(3,5,6) by (auto simp: add.assoc)
  ultimately show ?case by (simp add: add.assoc)
qed

subsection \<open>Verification\<close>

lemma ArtifactReader_open_quiet:
  "quiet w \<Longrightarrow> Digest_isSet digest \<Longrightarrow> index_lookup (ats_index s) digest = Some m \<Longrightarrow>
     w_disk w (ArtifactStore_payloadPath s digest) = Some content \<Longrightarrow>
     ArtifactReader_open s digest w = (Inr (fresh_reader content (am_sizeBytes m) digest), w)"
  by (simp add: ArtifactReader_open_def ArtifactStore_metadata_def io_quiet fresh_reader_def)

lemma quarantine_quiet:
  assumes "quiet w" and "w_disk w (ArtifactStore_payloadPath s digest) = Some content"
  shows "\<exists>w'. quarantine digest s w = (drop_entry digest s, w')
    \<and> w_disk w' (ArtifactStore_payloadPath s digest) = None
    \<and> w_disk w' (ArtifactStore_payloadPath s digest @ ''.corrupt'') = Some content"
proof -
  let ?p = "ArtifactStore_payloadPath s digest"
  obtain b w1 where rm: "fs_remove (?p @ ''.corrupt'') w = (b, w1)" by fastforce
  then have q: "quiet w1" and p: "w_disk w1 ?p = Some content"
    using assms by (auto simp: fs_quiet split: option.splits)
  from q p have "fs_rename ?p (?p @ ''.corrupt'') w1 = (True, perform (RenameFile ?p (?p @ ''.corrupt'')) w1)"
    by (simp add: fs_quiet)
  with rm have "quarantine digest s w = (drop_entry digest s, perform (RenameFile ?p (?p @ ''.corrupt'')) w1)"
    by (simp add: quarantine_def Let_def)
  then show ?thesis using p by simp
qed

text \<open>What \<^verbatim>\<open>verify\<close> checks: the bytes up to the recorded size, against the digest that names them.\<close>

definition payload_intact :: "ArtifactMetadata \<Rightarrow> bytes \<Rightarrow> bool" where
  "payload_intact m content \<longleftrightarrow>
     unat (am_sizeBytes m) \<le> length content
     \<and> sha256 (take (unat (am_sizeBytes m)) content) = am_digest m"

lemma verify_quiet:
  assumes "quiet w" and "Digest_isSet digest" and "index_lookup (ats_index s) digest = Some m"
    and "w_disk w (ArtifactStore_payloadPath s digest) = Some content"
    and "am_sizeBytes m \<noteq> 0" and "unat (am_sizeBytes m) < 2 ^ 63"
    and "aso_readChunkBytes (ats_options s) \<noteq> 0"
  shows "if payload_intact m content then ArtifactStore_verify digest s w = ((Inr (), s), w)
    else \<exists>e w'. ArtifactStore_verify digest s w = ((Inl e, drop_entry digest s), w') \<and> isIntegrityCode e
      \<and> w_disk w' (ArtifactStore_payloadPath s digest) = None
      \<and> w_disk w' (ArtifactStore_payloadPath s digest @ ''.corrupt'') = Some content"
proof -
  let ?r = "fresh_reader content (am_sizeBytes m) digest" and ?len = "aso_readChunkBytes (ats_options s)"
  have m: "am_digest m = digest" using assms(3) by (rule index_split_lookup)
  have loop: "\<exists>r'. if payload_intact m content
      then verify_loop ?len ?r 0 w = (((Inr (), False), r'), w) \<and> rdr_verified r'
      else \<exists>e. verify_loop ?len ?r 0 w = (((Inl e, True), r'), w) \<and> isIntegrityCode e"
    using verify_loop_quiet [OF assms(1), of ?r content 0 ?len] reader_seq_fresh [of content _ digest] assms(5-7)
    by (simp add: fresh_reader_def payload_intact_def m word_gt_0)
  note open' = ArtifactReader_open_quiet [OF assms(1-4)]
  show ?thesis
  proof (cases "payload_intact m content")
    case True
    then show ?thesis using loop by (auto simp: ArtifactStore_verify_def open')
  next
    case False
    obtain w' where q: "quarantine digest s w = (drop_entry digest s, w')"
      "w_disk w' (ArtifactStore_payloadPath s digest) = None"
      "w_disk w' (ArtifactStore_payloadPath s digest @ ''.corrupt'') = Some content"
      using quarantine_quiet [OF assms(1,4)] by blast
    from False loop obtain r' e where "verify_loop ?len ?r 0 w = (((Inl e, True), r'), w)" "isIntegrityCode e"
      by auto
    with False q show ?thesis by (auto simp: ArtifactStore_verify_def open')
  qed
qed

subsection \<open>Paths\<close>

lemma payload_file_inject:
  "length d = 32 \<Longrightarrow> length e = 32 \<Longrightarrow> payload_file root d = payload_file root e \<longleftrightarrow> d = e"
  by (auto simp: payload_file_def shardOf_def Digest_hex_def toHex_inject)

lemma payload_metadata_path [simp]:
  "length d = 32 \<Longrightarrow> length e = 32 \<Longrightarrow> ArtifactStore_metadataPath s d \<noteq> ArtifactStore_payloadPath s e"
  by (auto simp: ArtifactStore_metadataPath_def ArtifactStore_payloadPath_def payload_file_def shardOf_def
      Digest_hex_def dest!: arg_cong [where f = length])

lemma temp_metadata_path [simp]:
  "temp_path w (ArtifactStore_metadataPath s d) \<noteq> ArtifactStore_payloadPath s d"
  by (simp add: temp_path_def ArtifactStore_metadataPath_def ArtifactStore_payloadPath_def payload_file_def)

lemma collect_each_files:
  "collect_each ms n s w = ((n', s'), w') \<Longrightarrow> (\<forall>m\<in>set ms. length (am_digest m) = 32) \<Longrightarrow> length d = 32 \<Longrightarrow>
     d \<notin> am_digest ` set ms \<Longrightarrow> w_disk w' (ArtifactStore_payloadPath s d) = w_disk w (ArtifactStore_payloadPath s d)"
proof (induction ms arbitrary: n s w)
  case (Cons m ms)
  let ?p = "ArtifactStore_payloadPath s d"
  from Cons.prems(1) obtain b1 w1 b2 w2 where 1: "fs_remove (ArtifactStore_payloadPath s (am_digest m)) w = (b1, w1)"
    and 2: "fs_remove (ArtifactStore_metadataPath s (am_digest m)) w1 = (b2, w2)"
    and 3: "collect_each ms (n + 1) (drop_entry (am_digest m) s) w2 = ((n', s'), w')"
    by (auto split: prod.splits)
  have "?p \<noteq> ArtifactStore_payloadPath s (am_digest m)"
    using Cons.prems(2-) payload_file_inject by (auto simp: ArtifactStore_payloadPath_def)
  moreover have "?p \<noteq> ArtifactStore_metadataPath s (am_digest m)"
    using Cons.prems(2,3) payload_metadata_path [of "am_digest m" d s] by (metis list.set_intros(1))
  moreover have "w_disk w' ?p = w_disk w2 ?p"
    using Cons.IH [OF 3] Cons.prems(2-) by (simp add: ArtifactStore_payloadPath_def)
  ultimately show ?case using fs_remove_disk [OF 1] fs_remove_disk [OF 2] by simp
qed simp

subsection \<open>Ingestion\<close>

definition ingestible :: "bytes \<Rightarrow> ArtifactMetadata \<Rightarrow> ArtifactStore \<Rightarrow> bool" where
  "ingestible content m s \<longleftrightarrow>
     length content \<le> unat (aso_maxArtifactBytes (ats_options s))
     \<and> am_sizeBytes m = of_nat (length content) \<and> am_digest m = sha256 content
     \<and> publish_budget s (am_digest m) (am_sizeBytes m) = Inr False"

lemma publish_quiet:
  assumes "quiet w" and "store_inv s" and "w_disk w staged = Some content"
    and "publish_budget s (am_digest m) (am_sizeBytes m) = Inr False"
    and "encodeArtifactMetadata m = Some (Inr record)" and "length (am_digest m) = 32"
  shows "\<exists>s' w'. publish m staged (am_digest m) (am_sizeBytes m) s w = (Some (Inr (), s'), w')
    \<and> s' = publish_index m (am_digest m) (am_sizeBytes m) s \<and> quiet w'
    \<and> w_disk w' (ArtifactStore_payloadPath s (am_digest m)) = Some content
    \<and> w_disk w' (ArtifactStore_metadataPath s (am_digest m)) = Some record"
proof -
  let ?p = "ArtifactStore_payloadPath s (am_digest m)" and ?q = "ArtifactStore_metadataPath s (am_digest m)"
  let ?w1 = "perform (RenameFile staged ?p) w"
  have same: "m\<lparr>am_digest := am_digest m, am_sizeBytes := am_sizeBytes m\<rparr> = m" by (cases m) simp
  have "quiet ?w1" and p: "w_disk ?w1 ?p = Some content" using assms(1,3) by simp_all
  moreover have "fs_rename staged ?p w = (True, ?w1)" using assms(1,3) by (simp add: fs_quiet)
  ultimately have "publish_files staged (am_digest m) record s w =
      (Inr (), after_ops (atomic_ops ?w1 ?q record) (?w1\<lparr>w_draws := Suc (w_draws ?w1)\<rparr>))"
    using writeFileAtomic_quiet [of ?w1 ?q "record"] by (simp add: publish_files_def)
  moreover have "?p \<noteq> ?q" and "?p \<noteq> temp_path ?w1 ?q"
    using assms(6) payload_metadata_path [of "am_digest m" "am_digest m" s]
      temp_metadata_path [of ?w1 s "am_digest m"] by metis+
  moreover have "quiet (?w1\<lparr>w_draws := Suc (w_draws ?w1)\<rparr>)" using assms(1) by (simp add: quiet_def)
  ultimately show ?thesis
    using assms(1,4,5) p same by (simp add: publish_def os_quiet Let_def atomic_ops_result)
qed

lemma ingestBytes_quiet:
  assumes "quiet w" and "store_inv s" and "ingestible content m s"
    and "encodeArtifactMetadata m = Some (Inr record)"
  shows "\<exists>s' w'. ingestBytes content m s w = (Some (Inr (), s'), w')
    \<and> s' = publish_index m (am_digest m) (am_sizeBytes m) s \<and> quiet w'
    \<and> w_disk w' (ArtifactStore_payloadPath s (am_digest m)) = Some content
    \<and> w_disk w' (ArtifactStore_metadataPath s (am_digest m)) = Some record"
proof -
  from assms(3) have len: "length content \<le> unat (aso_maxArtifactBytes (ats_options s))"
    and sz: "am_sizeBytes m = of_nat (length content)" and dg: "am_digest m = sha256 content"
    and budget: "publish_budget s (am_digest m) (am_sizeBytes m) = Inr False"
    by (auto simp only: ingestible_def)
  note len
  also have "unat (aso_maxArtifactBytes (ats_options s)) < 2 ^ 64"
    using unsigned_less [of "aso_maxArtifactBytes (ats_options s)"] by simp
  finally have n: "unat (am_sizeBytes m) = length content" by (simp add: sz unat_of_nat)
  let ?w0 = "w\<lparr>w_draws := Suc (w_draws w)\<rparr>"
  let ?t = "aso_root (ats_options s) @ ''/payload/.staging-'' @ toHex (w_random w (w_draws w)) @ ''.part''"
  let ?w1 = "perform (CreateFile ?t) ?w0"
  define w2 where "w2 = (if content = [] then ?w1 else perform (WriteAt ?t 0 content) ?w1)"
  have q0: "quiet ?w0" using assms(1) by (simp add: quiet_def)
  then have q: "quiet w2" and t: "w_disk w2 ?t = Some content" by (simp_all add: w2_def)
  have "ingestBytes content m s w = publish m ?t (am_digest m) (am_sizeBytes m) s w2"
    using assms(1) q0 len n dg sz
    by (simp add: ingestBytes_def os_quiet staging_file_def draw_random_def Digest_ofContent_def w2_def)
  then show ?thesis using publish_quiet [OF q assms(2) t budget assms(4)] dg by simp
qed

lemma publish_index_lookup:
  assumes "store_inv s" and "publish_budget s (am_digest m) (am_sizeBytes m) = Inr False"
    and "length (am_digest m) = 32"
  shows "index_lookup (ats_index (publish_index m (am_digest m) (am_sizeBytes m) s)) (am_digest m) = Some m"
proof -
  let ?s = "publish_index m (am_digest m) (am_sizeBytes m) s"
  have "store_inv ?s" by (rule publish_index_inv [OF assms(1,2)]) (simp_all add: assms(3))
  then have sorted: "index_sorted (ats_index ?s)" by (simp add: store_inv_def)
  from assms(2) have "m \<in> set (ats_index ?s)"
    by (auto simp: publish_budget_def publish_index_def index_insert_def split: if_splits)
  then show ?thesis by (simp add: index_lookup_iff [OF sorted])
qed

subsection \<open>Restart\<close>

lemma toHex_no_dot: "c \<in> set (toHex bs) \<Longrightarrow> c \<noteq> CHR ''.'' \<and> c \<noteq> CHR ''/''"
proof -
  assume "c \<in> set (toHex bs)"
  then have "nibble c \<noteq> None" by (induction bs) (auto simp: toHex_def nibble_hex_digit_word)
  moreover have "nibble (CHR ''.'') = None" "nibble (CHR ''/'') = None" by code_simp+
  ultimately show ?thesis by auto
qed

lemma contains_text_skip:
  "p \<notin> set xs \<Longrightarrow> contains_text (p # ps) (xs @ ys) = contains_text (p # ps) ys"
  by (induction xs) auto

lemma metadata_path_name:
  "path_filename (ArtifactStore_metadataPath s d) = Digest_hex d @ ''.meta''"
proof -
  have "takeWhile (\<lambda>c. c \<noteq> CHR ''/'') (rev (Digest_hex d) @ CHR ''/'' # z) = rev (Digest_hex d)" for z
    using toHex_no_dot by (subst takeWhile_append2) (auto simp: Digest_hex_def)
  then show ?thesis
    by (simp add: path_filename_def ArtifactStore_metadataPath_def)
qed

lemma payload_path_name:
  "path_filename (ArtifactStore_payloadPath s d) = Digest_hex d @ ''.bin''"
proof -
  have "takeWhile (\<lambda>c. c \<noteq> CHR ''/'') (rev (Digest_hex d) @ CHR ''/'' # z) = rev (Digest_hex d)" for z
    using toHex_no_dot by (subst takeWhile_append2) (auto simp: Digest_hex_def)
  then show ?thesis
    by (simp add: path_filename_def ArtifactStore_payloadPath_def payload_file_def)
qed

lemma metadata_path_extension:
  "d \<noteq> [] \<Longrightarrow> path_extension (ArtifactStore_metadataPath s d) = ''.meta''"
  by (cases "toHex d" rule: rev_cases)
    (auto simp: path_extension_def metadata_path_name Let_def Digest_hex_def dest!: arg_cong [where f = length])

lemma published_names_not_partial:
  assumes "length d = 32"
  shows "\<not> isPartialFileName (Digest_hex d @ ''.meta'')" "\<not> isPartialFileName (Digest_hex d @ ''.bin'')"
proof -
  have dot: "CHR ''.'' \<notin> set (Digest_hex d)" using toHex_no_dot by (auto simp: Digest_hex_def)
  have len: "length (Digest_hex d) = 64" using assms by (simp add: Digest_hex_def)
  then obtain c cs where h: "Digest_hex d = c # cs" and c: "c \<noteq> CHR ''.''" using dot by (cases "Digest_hex d") auto
  show "\<not> isPartialFileName (Digest_hex d @ ''.meta'')" "\<not> isPartialFileName (Digest_hex d @ ''.bin'')"
    using len c contains_text_skip [OF dot] by (auto simp: isPartialFileName_def h)
qed

lemma remove_partials_quiet:
  "quiet w \<Longrightarrow> \<exists>n' w'. remove_partials ps ec n w = (n', w') \<and> quiet w'
     \<and> (\<forall>p. \<not> isPartialFileName (path_filename p) \<longrightarrow> w_disk w' p = w_disk w p)"
proof (induction ps arbitrary: ec n w)
  case (Cons p ps)
  show ?case
  proof (cases "\<not> ec \<and> w_disk w p \<noteq> None \<and> isPartialFileName (path_filename p)")
    case True
    let ?w = "perform (RemoveFile p) w"
    have "quiet ?w" using Cons.prems by simp
    with Cons.IH [of ?w False "n + 1"] True Cons.prems show ?thesis by (auto simp: fs_quiet)
  next
    case False
    with Cons.IH [OF Cons.prems, of False n] Cons.prems show ?thesis
      by (auto simp: fs_quiet)
  qed
qed simp

text \<open>The metadata record a file of the listing stands for: it decodes, and its payload is there.\<close>

definition recorded_at :: "string \<Rightarrow> disk \<Rightarrow> string \<Rightarrow> ArtifactMetadata option" where
  "recorded_at root d p =
     (if path_extension p \<noteq> ''.meta'' then None
      else case d p of None \<Rightarrow> None
      | Some c \<Rightarrow> if length c > kAbsoluteMaxFieldBytes then None
          else (case decodeArtifactMetadata c of Inl _ \<Rightarrow> None
                | Inr m \<Rightarrow> if d (payload_file root (am_digest m)) = None then None else Some m))"

lemma load_metadata_quiet:
  "quiet w \<Longrightarrow> path_extension p = ''.meta'' \<Longrightarrow> load_metadata root p w = (recorded_at root (w_disk w) p, w)"
  by (auto simp: load_metadata_def recorded_at_def readFileBounded_quiet fs_quiet split: option.splits sum.splits)

lemma recorded_at_ext: "path_extension p \<noteq> ''.meta'' \<or> d p = None \<Longrightarrow> recorded_at root d p = None"
  by (auto simp: recorded_at_def)

lemma load_entries_quiet:
  assumes "quiet w"
  shows "load_entries root ps False ms w = (Inr (ms @ List.map_filter (recorded_at root (w_disk w)) ps), w)"
proof (induction ps arbitrary: ms)
  case (Cons p ps)
  show ?case
  proof (cases "w_disk w p \<noteq> None \<and> path_extension p = ''.meta''")
    case True
    then show ?thesis using Cons.IH assms
      by (cases "recorded_at root (w_disk w) p")
        (simp_all add: fs_quiet load_metadata_quiet map_filter_simps)
  next
    case False
    then have "recorded_at root (w_disk w) p = None" by (intro recorded_at_ext) auto
    moreover from False have "load_entries root (p # ps) False ms w = load_entries root ps False ms w"
      using assms by (auto simp: fs_quiet)
    ultimately show ?thesis by (simp only: Cons.IH map_filter_simps option.simps)
  qed
qed (simp add: map_filter_simps)

lemma set_unique_digests:
  "am_digest ` set (unique_digests ms) = am_digest ` set ms"
  by (induction ms rule: unique_digests.induct) auto

text \<open>What a restart finds: exactly the digests of the recorded metadata files.\<close>

lemma ArtifactStore_open_quiet:
  assumes "quiet w" and "aso_root options \<noteq> []" and "aso_maxArtifactBytes options \<noteq> 0"
    and "aso_readChunkBytes options \<noteq> 0"
  shows "\<exists>s report' w'. ArtifactStore_open tree options report w = ((Inr s, report'), w')
    \<and> quiet w' \<and> (\<forall>p. \<not> isPartialFileName (path_filename p) \<longrightarrow> w_disk w' p = w_disk w p)
    \<and> (\<forall>d. ArtifactStore_contains s d \<longleftrightarrow>
       (\<exists>p m. p \<in> set (tree (w_disk w') (aso_root options))
          \<and> recorded_at (aso_root options) (w_disk w') p = Some m \<and> am_digest m = d))"
proof -
  let ?root = "aso_root options"
  obtain n w1 where rm: "remove_partials (tree (w_disk w) ?root) False (arr_removedPartialFiles report) w = (n, w1)"
    and q: "quiet w1" and keep: "\<And>p. \<not> isPartialFileName (path_filename p) \<Longrightarrow> w_disk w1 p = w_disk w p"
    using remove_partials_quiet [OF assms(1)] by blast
  let ?loaded = "List.map_filter (recorded_at ?root (w_disk w1)) (tree (w_disk w1) ?root)"
  let ?s = "\<lparr>ats_options = options, ats_index = unique_digests (sort_key am_digest ?loaded),
              ats_usedBytes = sum_list (map am_sizeBytes ?loaded)\<rparr>"
  let ?rep = "report\<lparr>arr_removedPartialFiles := n, arr_artifactsIndexed := length (ats_index ?s),
          arr_indexedBytes := ats_usedBytes ?s\<rparr>"
  have opened: "ArtifactStore_open tree options report w = ((Inr ?s, ?rep), w1)"
    using assms rm q by (simp add: ArtifactStore_open_def loadIndex_def os_quiet load_entries_quiet Let_def)
  have sorted: "index_sorted (ats_index ?s)"
    using ArtifactStore_open_index [OF opened] by simp
  have "ArtifactStore_contains ?s d \<longleftrightarrow> d \<in> am_digest ` set (ats_index ?s)" for d
    unfolding ArtifactStore_contains_def not_None_eq index_lookup_iff [OF sorted] by auto
  moreover have "d \<in> am_digest ` set ?loaded \<longleftrightarrow>
      (\<exists>p m. p \<in> set (tree (w_disk w1) ?root) \<and> recorded_at ?root (w_disk w1) p = Some m \<and> am_digest m = d)" for d
    by (force simp: map_filter_def)
  ultimately have contains: "ArtifactStore_contains ?s d \<longleftrightarrow>
      (\<exists>p m. p \<in> set (tree (w_disk w1) ?root) \<and> recorded_at ?root (w_disk w1) p = Some m \<and> am_digest m = d)" for d
    by (simp add: set_unique_digests)
  show ?thesis
    by (rule exI [of _ ?s], rule exI [of _ ?rep], rule exI [of _ w1]) (intro conjI allI impI opened q keep contains)
qed

lemma metadata_record_short:
  assumes "encodeArtifactMetadata m = Some (Inr bs)" and "metadata_ok m"
  shows "length bs \<le> kAbsoluteMaxFieldBytes"
proof -
  from assms(1) obtain b where b: "metadata_body m = Some b" and bs: "bs = b @ le_store 4 (crc32c b)"
    by (auto simp: encodeArtifactMetadata_def enc_fail_if_eq_iff encoded_eq_iff codec_dests w_u32_def
        split: option.splits)
  have "length b \<le> 86 + 32 + 3 * 128 + 128 + 128"
    using b assms(2) by (auto simp: metadata_ok_def metadata_body_def codec_dests w_string_eq_Some_iff w_u32_def w_u16_le_store
        w_u64_def w_i64_def w_digest_def w_bytes_def kMaxIdentifierLength_def kMaxMediaTypeBytes_def
        kMaxProducerBytes_def string_bytes_def emit.simps(1) split: if_splits)
  then show ?thesis by (simp add: bs kAbsoluteMaxFieldBytes_def)
qed

subsection \<open>Properties\<close>

text \<open>
  C25: whatever sequence of ingestions, verifications and collections runs on a store that was opened
  with an exact account within its budgets, and whatever the operating system answers to any of its
  calls, the index stays sorted by digest without duplicates, the used bytes stay the exact sum of the
  recorded sizes, and neither the count nor the byte budget is exceeded.
\<close>

theorem artifact_store_invariant:
  assumes "ArtifactStore_open tree options report w = ((Inr s0, report'), w')"
    and "unat (ats_usedBytes s0) = index_bytes (ats_index s0)"
    and "length (ats_index s0) \<le> aso_maxArtifacts options"
    and "ats_usedBytes s0 \<le> aso_maxTotalBytes options"
    and "store_step\<^sup>*\<^sup>* s0 s"
  shows "sorted_wrt (<) (map am_digest (ats_index s))
    \<and> unat (ats_usedBytes s) = index_bytes (ats_index s)
    \<and> length (ats_index s) \<le> aso_maxArtifacts options
    \<and> ats_usedBytes s \<le> aso_maxTotalBytes options"
proof -
  have "store_inv s0" using ArtifactStore_open_index [OF assms(1)] assms(2-4) by (simp add: store_inv_def)
  then show ?thesis
    using store_steps_inv [OF assms(5)] ArtifactStore_open_index [OF assms(1)]
    by (auto simp: store_inv_def index_sorted_def)
qed

definition example_store_options :: ArtifactStoreOptions where
  "example_store_options =
     \<lparr>aso_root = ''/a'', aso_maxArtifactBytes = 100, aso_maxTotalBytes = 1000, aso_maxArtifacts = 4,
      aso_readChunkBytes = 2\<rparr>"

definition example_store :: ArtifactStore where
  "example_store = \<lparr>ats_options = example_store_options, ats_index = [], ats_usedBytes = 0\<rparr>"

definition example_report :: ArtifactRecoveryReport where
  "example_report =
     \<lparr>arr_removedPartialFiles = 0, arr_unreadableMetadataFiles = 0, arr_artifactsIndexed = 0, arr_indexedBytes = 0\<rparr>"

definition example_metadata :: "bytes \<Rightarrow> ArtifactMetadata" where
  "example_metadata content =
     \<lparr>am_id = ''art'', am_revision = 1, am_schema = ''s'', am_schemaVersion = 1, am_digest = sha256 content,
      am_sizeBytes = of_nat (length content), am_mediaType = [], am_producer = [],
      am_producedAtMillis = 0, am_storedAtMillis = 0\<rparr>"

lemma example_metadata_encodes:
  "metadata_ok (example_metadata content) \<and> (\<exists>bs. encodeArtifactMetadata (example_metadata content) = Some (Inr bs))"
proof -
  have "isValidIdentifier ''art''" "isValidIdentifier ''s''" by code_simp+
  then show ?thesis
    by (simp add: metadata_ok_def example_metadata_def i64_range_def encodeArtifactMetadata_def
        metadata_body_def kMaxIdentifierLength_def kMaxMediaTypeBytes_def kMaxProducerBytes_def
        enc_fail_if_def encoded_def emit.simps w_string_def w_u32_def w_u16_le_store w_u64_def w_i64_def
        w_digest_def w_bytes_def kAbsoluteMaxFieldBytes_def)
qed

lemma example_store_inv: "store_inv example_store"
  by (simp add: store_inv_def example_store_def index_sorted_def example_store_options_def)

lemma example_ingestible: "ingestible [1, 2, 3] (example_metadata [1, 2, 3]) example_store"
  by (simp add: ingestible_def example_metadata_def example_store_def example_store_options_def
      publish_budget_def ArtifactStore_contains_def index_lookup_def index_lower_bound_def)

lemma example_quiet: "quiet example_world"
  by (simp add: quiet_def example_world_def)

theorem artifact_store_invariant_witness:
  "\<exists>s. store_step\<^sup>*\<^sup>* example_store s \<and> ats_index s = [example_metadata [1, 2, 3]]
     \<and> unat (ats_usedBytes s) = 3 \<and> length (ats_index s) \<le> 4"
proof -
  let ?m = "example_metadata [1, 2, 3]"
  let ?s = "publish_index ?m (am_digest ?m) (am_sizeBytes ?m) example_store"
  have opened: "ArtifactStore_open (\<lambda>_ _. []) example_store_options example_report example_world =
      ((Inr example_store, example_report), example_world)"
    by (simp add: ArtifactStore_open_def example_store_options_def example_quiet os_quiet loadIndex_def
        example_store_def example_report_def Let_def)
  obtain w' where "ingestBytes [1, 2, 3] ?m example_store example_world = (Some (Inr (), ?s), w')"
    using ingestBytes_quiet [OF example_quiet example_store_inv example_ingestible] example_metadata_encodes by blast
  then have run: "store_step\<^sup>*\<^sup>* example_store ?s" by (blast intro: step_ingestBytes)
  have "ats_index ?s = [?m]"
    by (simp add: publish_index_def example_store_def ArtifactStore_contains_def index_lookup_def
        index_lower_bound_def index_insert_def)
  then show ?thesis
    using run artifact_store_invariant [OF opened _ _ _ run]
    by (intro exI [of _ ?s]) (simp add: example_store_def example_store_options_def example_metadata_def)
qed


definition example_tree :: "disk \<Rightarrow> string \<Rightarrow> string list" where
  "example_tree d root = [ArtifactStore_metadataPath example_store (sha256 [1, 2, 3])]"



definition damaged_store :: ArtifactStore where
  "damaged_store = example_store\<lparr>ats_index := [(example_metadata [1, 2])\<lparr>am_digest := replicate 32 1\<rparr>], ats_usedBytes := 2\<rparr>"

definition damaged_world :: world where
  "damaged_world = example_world\<lparr>w_disk := [ArtifactStore_payloadPath damaged_store (replicate 32 1) \<mapsto> [1]]\<rparr>"


text \<open>
  the collection removes from the index exactly the artifacts whose digest is not live, counts
  them, keeps the account exact, and touches the payload of no live artifact, whatever the operating
  system answers.
\<close>

theorem collectGarbage_exact:
  assumes "store_inv s" and "collectGarbage live n s w = ((n', s'), w')"
  shows "store_inv s'
    \<and> (\<forall>d. index_lookup (ats_index s') d = (if d \<in> set live then index_lookup (ats_index s) d else None))
    \<and> n' = n + length (filter (\<lambda>m. am_digest m \<notin> set live) (ats_index s))
    \<and> (\<forall>d\<in>set live. length d = 32 \<longrightarrow>
         w_disk w' (ArtifactStore_payloadPath s d) = w_disk w (ArtifactStore_payloadPath s d))"
proof -
  let ?doomed = "filter (\<lambda>m. am_digest m \<notin> set live) (ats_index s)"
  have run: "collect_each ?doomed n s w = ((n', s'), w')" using assms(2) by (simp add: collectGarbage_def)
  have srt: "index_sorted (ats_index s)" and len: "\<forall>m\<in>set (ats_index s). length (am_digest m) = 32"
    using assms(1) by (simp_all add: store_inv_def)
  have "index_lookup (ats_index s) d = None" if "d \<notin> am_digest ` set (ats_index s)" for d
    using that index_lookup_iff [OF srt, of d] by (metis imageI not_None_eq)
  moreover have "d \<in> am_digest ` set ?doomed \<longleftrightarrow> d \<in> am_digest ` set (ats_index s) \<and> d \<notin> set live" for d by auto
  ultimately have "\<forall>d. index_lookup (ats_index s') d = (if d \<in> set live then index_lookup (ats_index s) d else None)"
    using collect_each_inv [OF run assms(1)] by (simp del: set_filter)
  moreover have "\<forall>d\<in>set live. length d = 32 \<longrightarrow>
      w_disk w' (ArtifactStore_payloadPath s d) = w_disk w (ArtifactStore_payloadPath s d)"
    using collect_each_files [OF run] len by auto
  ultimately show ?thesis using collect_each_inv [OF run assms(1)] by simp
qed

theorem collectGarbage_exact_witness:
  "\<exists>s' w'. collectGarbage [] 0 damaged_store damaged_world = ((1, s'), w')
     \<and> index_lookup (ats_index s') (replicate 32 1) = None"
proof -
  have inv: "store_inv damaged_store"
    by (simp add: store_inv_def damaged_store_def example_store_def example_store_options_def index_sorted_def
        example_metadata_def)
  obtain n' s' w' where run: "collectGarbage [] 0 damaged_store damaged_world = ((n', s'), w')"
    by (metis prod.exhaust)
  have "length (ats_index damaged_store) = 1" by (simp add: damaged_store_def)
  with collectGarbage_exact [OF inv run] run show ?thesis by simp
qed

text \<open>
  C27: when no operating system call fails, a newly opened reader of an intact artifact (shorter than 2^63
  bytes) whose first read starts at a byte after the first, and which then reads on in order, any number of reads of
  any lengths that stop short of the end, until a last read reaches it, gets the bytes of every read but the last; the last one is
  refused with a digest mismatch, unless the bytes after its first read happen to have the digest of the
  whole artifact: the hash covers only what is read after the first read.
\<close>

theorem resumed_read_is_refused:
  assumes "quiet w" and "0 < n" and "length content < 2 ^ 63"
    and "n + k + sum_list ks < length content" and "length content \<le> n + k + sum_list ks + len"
  shows "\<exists>r. read_on (fresh_reader content (of_nat (length content)) (sha256 content)) n (k # ks @ [len]) w =
    ((map Inr (pieces content n (k # ks))
        @ [if sha256 (drop (n + k) content) = sha256 content then Inr (drop (n + k + sum_list ks) content)
           else Inl DigestMismatch], r), w)"
proof -
  let ?r = "fresh_reader content (of_nat (length content)) (sha256 content)"
  obtain r1 where first: "readAt ?r (of_nat n) k w = ((Inr (take k (drop n content)), r1), w)"
    and r1: "resumed r1 content (n + k) (n + k)"
    using resumed_first [OF assms(1-3), of k] assms(4) by auto
  obtain r2 where "read_on r1 (n + k) (ks @ [len]) w = ((map Inr (pieces content (n + k) ks)
      @ [if sha256 (drop (n + k) content) = sha256 content then Inr (drop (n + k + sum_list ks) content)
         else Inl DigestMismatch], r2), w)"
    using resumed_rest [OF assms(1) r1 _ assms(3,4,5)] by auto
  then show ?thesis by (simp add: first)
qed

theorem resumed_read_is_refused_witness:
  "\<exists>r. read_on (fresh_reader [1, 2, 3, 4, 5] 5 (sha256 [1, 2, 3, 4, 5])) 1 [1, 1, 2] example_world =
    (([Inr [2], Inr [3],
       if sha256 [3, 4, 5] = sha256 [1, 2, 3, 4, 5] then Inr [4, 5] else Inl DigestMismatch], r), example_world)"
  using resumed_read_is_refused [OF example_quiet, of 1 "[1, 2, 3, 4, 5]" 1 "[1]" 2]
  by (simp split del: if_split cong: if_cong del: read_on.simps)

text \<open>
  An artifact of no bytes is never verified by a read, so its verification finds it corrupt: publishing
  it a second time removes it from the index.
\<close>

theorem empty_artifact_quarantined:
  assumes "quiet w" and "store_inv s" and "ArtifactStore_metadata s digest = Inr m" and "am_sizeBytes m = 0"
    and "w_disk w (ArtifactStore_payloadPath s digest) = Some []"
  shows "\<exists>s' w'. ArtifactStore_verify digest s w = ((Inl DigestMismatch, s'), w')
    \<and> \<not> ArtifactStore_contains s' digest"
proof -
  from assms(3) have set: "Digest_isSet digest" and look: "index_lookup (ats_index s) digest = Some m"
    by (auto simp: ArtifactStore_metadata_def split: if_splits option.splits)
  obtain w' where "quarantine digest s w = (drop_entry digest s, w')" using quarantine_quiet [OF assms(1,5)] by blast
  moreover have "verify_loop len (fresh_reader [] 0 digest) 0 w = (((Inr (), False), fresh_reader [] 0 digest), w)" for len
    by (subst verify_loop.simps) (simp add: fresh_reader_def)
  ultimately have "ArtifactStore_verify digest s w = ((Inl DigestMismatch, drop_entry digest s), w')"
    using ArtifactReader_open_quiet [OF assms(1) set look assms(5)] assms(4)
    by (simp add: ArtifactStore_verify_def) (simp add: fresh_reader_def)
  then show ?thesis
    using assms(2) by (simp add: ArtifactStore_contains_def drop_entry_lookup store_inv_def)
qed

text \<open>
  The budget is checked in one critical section and spent in another: two publishes of different
  content that both pass the check before either is indexed leave one artifact more than the budget allows.
\<close>

theorem concurrent_publishes_exceed_budget:
  assumes "store_inv s" and "Suc (length (ats_index s)) = aso_maxArtifacts (ats_options s)"
    and "am_digest m1 \<noteq> am_digest m2" and "length (am_digest m1) = 32"
    and "publish_budget s (am_digest m1) (am_sizeBytes m1) = Inr False"
    and "publish_budget s (am_digest m2) (am_sizeBytes m2) = Inr False"
  shows "length (ats_index (publish_index m2 (am_digest m2) (am_sizeBytes m2)
      (publish_index m1 (am_digest m1) (am_sizeBytes m1) s))) = Suc (aso_maxArtifacts (ats_options s))"
proof -
  let ?s1 = "publish_index m1 (am_digest m1) (am_sizeBytes m1) s"
  have none: "\<not> ArtifactStore_contains s (am_digest m1)" "\<not> ArtifactStore_contains s (am_digest m2)"
    using assms(5,6) by (auto simp: publish_budget_def split: if_splits)
  have "store_inv ?s1" by (rule publish_index_inv [OF assms(1,5)]) (simp_all add: assms(4))
  then have sorted: "index_sorted (ats_index ?s1)" "index_sorted (ats_index s)"
    using assms(1) by (simp_all add: store_inv_def)
  have grow: "length (index_insert m d ms) = Suc (length ms)" for m d ms
  proof -
    have "length (takeWhile (\<lambda>e. am_digest e < d) ms) + length (dropWhile (\<lambda>e. am_digest e < d) ms) = length ms"
      by (metis length_append takeWhile_dropWhile_id)
    then show ?thesis unfolding index_insert_def index_lower_bound_def by simp
  qed
  have members: "set (ats_index ?s1) = insert m1 (set (ats_index s))"
  proof -
    have "set (takeWhile (\<lambda>e. am_digest e < d) ms) \<union> set (dropWhile (\<lambda>e. am_digest e < d) ms) = set ms" for d ms
      by (metis set_append takeWhile_dropWhile_id)
    then show ?thesis using none(1)
      unfolding publish_index_def index_insert_def index_lower_bound_def by auto
  qed
  have "\<not> ArtifactStore_contains ?s1 (am_digest m2)"
    using none(2) assms(3) members
    unfolding ArtifactStore_contains_def not_None_eq index_lookup_iff [OF sorted(1)] index_lookup_iff [OF sorted(2)] by auto
  then show ?thesis using none(1) assms(2) grow by (simp add: publish_index_def)
qed

end
