(* ===== verification/DistributorCore.thy ===== *)
theory DistributorCore
  imports AgentCore Convergence Reconciliation ArtifactStore
begin

text \<open>
  The distributor of \<^verbatim>\<open>include/cf/distributor.hpp\<close> and \<^verbatim>\<open>src/distributor.cpp\<close>, first part: its state,
  opening it, and the operations that write the records of targets and deliveries.

  The state holds the durable store, the artifact store, the scheduling sets, the session a worker is
  in with its connection, and what the operating system answers: files, the clock, the error texts and
  whether a stop was requested. An operation that takes a delivery record by reference returns the record as
  it leaves it; on failure no caller uses the reference again. Every method holds the state mutex only
  inside the definitions of this theory that read or commit, so these are the steps between which
  other threads can run.
\<close>

subsection \<open>State\<close>

record DistributorOptions =
  dso_nodeId :: NodeId
  dso_stateDirectory :: string
  dso_artifactRoot :: string
  dso_maxArtifactBytes :: u64
  dso_maxStoreBytes :: u64
  dso_maxArtifacts :: nat
  dso_policy :: DistributorPolicy
  dso_key :: bytes
  dso_authenticate :: bool
  dso_controlHost :: string
  dso_faults :: FaultPlan

record SessionContext =
  sx_target :: TargetId
  sx_endpoint :: Endpoint
  sx_targetTerm :: Term
  sx_targetIncarnation :: IncarnationId
  sx_peerMaxPayload :: u32
  sx_report :: "ReconcileReportMessage option"
  sx_chunksSent :: u64

record Distributor =
  db_options :: DistributorOptions
  db_store :: "ControllerState DurableStore"
  db_artifacts :: ArtifactStore
  db_claimedTargets :: "string set"
  db_lastSessionAttemptMillis :: "(string, int) omap"
  db_verificationRequests :: "(string, unit) omap"
  db_controlPort :: u16
  db_running :: bool
  db_stopFlag :: bool
  db_shutdownFlag :: bool
  db_session :: SessionContext
  db_in :: FrameInput
  db_out :: FrameOutput
  db_valid :: bool
  db_world :: world
  db_now :: "nat \<Rightarrow> 64 word"
  db_ticks :: nat
  db_stop :: "nat \<Rightarrow> bool"
  db_polls :: nat
  db_text :: "ErrorCode \<Rightarrow> string"
  db_tree :: "disk \<Rightarrow> string \<Rightarrow> string list"

type_synonym 'a dact = "(Distributor, 'a) action"

definition d_state :: "Distributor \<Rightarrow> ControllerState" where
  "d_state d = ds_state (db_store d)"

definition d_policy :: "Distributor \<Rightarrow> DistributorPolicy" where
  "d_policy d = dso_policy (db_options d)"

definition d_with_state :: "(ControllerState \<Rightarrow> ControllerState) \<Rightarrow> Distributor \<Rightarrow> Distributor" where
  "d_with_state f d = d\<lparr>db_store := (db_store d)\<lparr>ds_state := f (ds_state (db_store d))\<rparr>\<rparr>"

definition emptyTargetRuntime :: TargetRuntime where
  "emptyTargetRuntime =
     \<lparr>tr_id = [], tr_klass = Unspecified, tr_guarantee = AtomicActivate, tr_term = 0,
      tr_incarnation = unset_identity, tr_committedGeneration = 0, tr_committedDigest = unset_digest,
      tr_committedArtifact = [], tr_lastContactMillis = 0, tr_contactEstablishedThisProcess = False,
      tr_sessionsEstablished = 0, tr_restartsObserved = 0, tr_applyPrepared = False,
      tr_preparedDeployment = [], tr_preparedGeneration = 0, tr_preparedDigest = unset_digest,
      tr_endpoint = []\<rparr>"

definition emptyDeliveryRecord :: DeliveryRecord where
  "emptyDeliveryRecord =
     \<lparr>dr_id = [], dr_setId = [], dr_rolloutSet = [], dr_target = [], dr_key = [], dr_artifact = [],
      dr_revision = 0, dr_generation = 0, dr_digest = unset_digest, dr_schema = [], dr_schemaVersion = 0,
      dr_sizeBytes = 0, dr_requirement = RequireAtomic, dr_effectiveGuarantee = AtomicActivate,
      dr_state = Prepared, dr_attempt = 0, dr_failures = 0, dr_lastError = Ok,
      dr_lastDirective = DoNotRetry, dr_lastDetail = [], dr_events = [], dr_authorityEpoch = 0,
      dr_authorityIncarnation = unset_identity, dr_targetTerm = 0, dr_targetIncarnation = unset_identity,
      dr_acknowledgedFromReconcile = False, dr_superseded = False, dr_createdAtMillis = 0,
      dr_updatedAtMillis = 0\<rparr>"

subsection \<open>Calls\<close>

definition d_io :: "'a io \<Rightarrow> 'a dact" where
  "d_io m d = (case m (db_world d) of (x, w) \<Rightarrow> (Returned x, d\<lparr>db_world := w\<rparr>))"

definition d_now :: "int dact" where
  "d_now d = (Returned (sint (db_now d (db_ticks d))), d\<lparr>db_ticks := Suc (db_ticks d)\<rparr>)"

text \<open>\<open>db_stop\<close> is what another thread or the signal handler has asked for at each poll.\<close>

definition stopRequested :: "bool dact" where
  "stopRequested d =
     (Returned (db_stopFlag d \<or> db_shutdownFlag d \<or> db_stop d (db_polls d)), d\<lparr>db_polls := Suc (db_polls d)\<rparr>)"

definition d_send :: "FrameType \<Rightarrow> u16 \<Rightarrow> bytes \<Rightarrow> unit dact" where
  "d_send t flags payload d =
     (case FramedConnection_send t flags payload (db_out d) of
        (st, out) \<Rightarrow> a_result st (d\<lparr>db_out := out\<rparr>))"

definition d_send_encoded :: "FrameType \<Rightarrow> u16 \<Rightarrow> bytes encoded \<Rightarrow> unit dact" where
  "d_send_encoded t flags x = a_then (a_encoded x) (d_send t flags)"

definition d_receive :: "Frame dact" where
  "d_receive d =
     (case FramedConnection_receive (db_in d) of
        (Inl e, i) \<Rightarrow> (Failed e, d\<lparr>db_in := i\<rparr>)
      | (Inr f, i) \<Rightarrow> (Returned f, d\<lparr>db_in := i\<rparr>))"

definition d_commit :: "JournalRecordType \<Rightarrow> bytes \<Rightarrow> unit dact" where
  "d_commit t payload d =
     (case DurableStore_commit ControllerStateCodec (db_store d) t payload (db_world d) of
        ((st, store), w) \<Rightarrow> a_result st (d\<lparr>db_store := store, db_world := w\<rparr>))"

definition d_compactIfNeeded :: "unit dact" where
  "d_compactIfNeeded d =
     (case DurableStore_compactIfNeeded ControllerStateCodec (db_store d) (db_world d) of
        (None, w) \<Rightarrow> (Stopped, d\<lparr>db_world := w\<rparr>)
      | (Some (st, store), w) \<Rightarrow> a_result st (d\<lparr>db_world := w, db_store := store\<rparr>))"

definition d_faulty :: "Distributor \<Rightarrow> string \<Rightarrow> bool" where
  "d_faulty d point = FaultPlan_armed (dso_faults (db_options d)) point"

subsection \<open>Which codes a target may send\<close>

definition isTerminalRejection :: "ErrorCode \<Rightarrow> bool" where
  "isTerminalRejection code \<longleftrightarrow>
     code \<in> {ErrorCode.GuaranteeUnsupported, ErrorCode.SchemaUnsupported, OversizePayload, InvalidArgument, UnsupportedVersion,
       UnsupportedFeature, PolicyDenied, CapabilityMismatch}"

definition isRetryableFromTarget :: "ErrorCode \<Rightarrow> bool" where
  "isRetryableFromTarget code \<longleftrightarrow>
     retryDirectiveFor code \<in> {RetryNow, RetryWithBackoff, RetryNewSession, RetryAfterReconcile}"

subsection \<open>Opening\<close>

definition d_open_artifacts ::
  "DistributorOptions \<Rightarrow> ArtifactRecoveryReport \<Rightarrow> ArtifactRecoveryReport dact" where
  "d_open_artifacts options report d =
     (case ArtifactStore_open (db_tree d)
             \<lparr>aso_root = dso_artifactRoot options, aso_maxArtifactBytes = dso_maxArtifactBytes options,
              aso_maxTotalBytes = dso_maxStoreBytes options, aso_maxArtifacts = dso_maxArtifacts options,
              aso_readChunkBytes = 64 * 1024\<rparr> report (db_world d) of
        ((Inl e, _), w) \<Rightarrow> (Failed e, d\<lparr>db_world := w\<rparr>)
      | ((Inr s, report'), w) \<Rightarrow> (Returned report', d\<lparr>db_world := w, db_artifacts := s\<rparr>))"

definition controller_store_options :: "DistributorOptions \<Rightarrow> StoreOptions" where
  "controller_store_options options =
     \<lparr>so_directory = dso_stateDirectory options, so_name = ''controller'',
      so_compactAfterBytes = 4 * 1024 * 1024, so_durable = True\<rparr>"

definition d_open_store :: "DistributorOptions \<Rightarrow> StoreRecovery \<Rightarrow> StoreRecovery dact" where
  "d_open_store options recovery d =
     (case DurableStore_open ControllerStateCodec (controller_store_options options) recovery (db_world d) of
        (None, w) \<Rightarrow> (Stopped, d\<lparr>db_world := w\<rparr>)
      | (Some (Inl e, _), w) \<Rightarrow> (Failed e, d\<lparr>db_world := w\<rparr>)
      | (Some (Inr store, recovery'), w) \<Rightarrow> (Returned recovery', d\<lparr>db_world := w, db_store := store\<rparr>))"

text \<open>What a new process makes of the recovered records, in memory only.\<close>

definition reset_detail :: string where
  "reset_detail = ''reset to offered after distributor restart: the previous transfer was never verified''"

definition reset_in_memory :: "ControllerState \<Rightarrow> ControllerState" where
  "reset_in_memory s =
     s\<lparr>cs_targets := map (\<lambda>(k, t). (k, t\<lparr>tr_contactEstablishedThisProcess := False\<rparr>)) (cs_targets s),
       cs_deliveries := map (\<lambda>(k, r). (k, if dr_state r = Transferred
         then r\<lparr>dr_state := Offered, dr_lastDetail := reset_detail\<rparr> else r)) (cs_deliveries s)\<rparr>"

definition d_commit_identity :: "DistributorOptions \<Rightarrow> unit dact" where
  "d_commit_identity options =
     a_get (\<lambda>d. case checkedAdd (cs_epoch (d_state d)) 1 of
       None \<Rightarrow> a_fail ArithmeticOverflow
     | Some nextEpoch \<Rightarrow>
         a_then (d_io draw_random) (\<lambda>incarnation.
         a_then d_now (\<lambda>now.
         a_then (a_written [w_string kMaxIdentifierLength (dso_nodeId options), w_u64 nextEpoch,
                            w_opaque128 incarnation, w_i64 now]) (d_commit ControllerIdentity))))"

definition Distributor_open ::
  "DistributorOptions \<Rightarrow> StoreRecovery \<Rightarrow> ArtifactRecoveryReport \<Rightarrow> (StoreRecovery \<times> ArtifactRecoveryReport) dact" where
  "Distributor_open options recovery report =
     (if dso_nodeId options = [] then a_fail InvalidArgument
      else if dso_stateDirectory options = [] \<or> dso_artifactRoot options = [] then a_fail InvalidArgument
      else
        a_then (a_result (DistributorPolicy_validate (dso_policy options))) (\<lambda>_.
        a_then (a_modify (\<lambda>d. d\<lparr>db_options := options, db_claimedTargets := {},
                  db_lastSessionAttemptMillis := [], db_verificationRequests := [], db_controlPort := 0,
                  db_running := False, db_stopFlag := False, db_shutdownFlag := False\<rparr>)) (\<lambda>_.
        a_then (d_open_artifacts options report) (\<lambda>report'.
        a_then (d_open_store options recovery) (\<lambda>recovery'.
        a_then (d_commit_identity options) (\<lambda>_.
        a_then (a_modify (d_with_state reset_in_memory)) (\<lambda>_.
        a_then d_compactIfNeeded (\<lambda>_.
        a_return (recovery', report')))))))))"

subsection \<open>Records of targets and deliveries\<close>

definition upsertTarget :: "TargetRuntime \<Rightarrow> unit dact" where
  "upsertTarget runtime = a_then (a_encoded (encodeTargetRuntime runtime)) (d_commit TargetUpsert)"

definition upsertDelivery :: "DeliveryRecord \<Rightarrow> unit dact" where
  "upsertDelivery record = a_then (a_encoded (encodeDeliveryRecord record)) (d_commit DeliveryUpsert)"

definition markContactCurrent :: "TargetId \<Rightarrow> bool \<Rightarrow> int \<Rightarrow> unit dact" where
  "markContactCurrent target current atMillis =
     a_modify (d_with_state (\<lambda>s.
       case findTarget s target of
         None \<Rightarrow> s
       | Some t \<Rightarrow>
           s\<lparr>cs_targets := om_put target
               (t\<lparr>tr_contactEstablishedThisProcess := current,
                  tr_lastContactMillis := (if atMillis > 0 then atMillis else tr_lastContactMillis t)\<rparr>)
               (cs_targets s)\<rparr>))"

definition snapshotDelivery :: "Distributor \<Rightarrow> DeploymentId \<Rightarrow> DeliveryRecord" where
  "snapshotDelivery d deployment =
     (case findDelivery (d_state d) deployment of None \<Rightarrow> emptyDeliveryRecord | Some r \<Rightarrow> r)"

definition decisionInputFor :: "Distributor \<Rightarrow> DeliveryRecord \<Rightarrow> int \<Rightarrow> DecisionInput" where
  "decisionInputFor d record nowMillis = buildDecisionInput (d_state d) (d_policy d) record nowMillis"

text \<open>The newest events are kept.\<close>

definition push_event :: "LifecycleEvent \<Rightarrow> LifecycleEvent list \<Rightarrow> LifecycleEvent list" where
  "push_event e es = drop (length es + 1 - kMaxEventsPerDelivery) (es @ [e])"

definition recordTransition ::
  "DeliveryRecord \<Rightarrow> DeliveryState \<Rightarrow> EvidenceKind \<Rightarrow> ErrorCode \<Rightarrow> string \<Rightarrow> bool \<Rightarrow> DeliveryRecord dact" where
  "recordTransition record target kind code detail fromReconciliation =
     a_then (a_result (applyTransition (dr_state record) target)) (\<lambda>_.
     a_get (\<lambda>d.
       let s = d_state d; text = take kMaxDeliveryDetailBytes detail in
       a_then d_now (\<lambda>now.
       let event =
             \<lparr>ev_kind = kind, ev_from = dr_state record, ev_to = target, ev_generation = dr_generation record,
              ev_digest = dr_digest record, ev_code = code, ev_directive = retryDirectiveFor code,
              ev_authorityEpoch = cs_epoch s, ev_authorityIncarnation = cs_incarnation s,
              ev_targetTerm = dr_targetTerm record, ev_targetIncarnation = dr_targetIncarnation record,
              ev_fromReconciliation = fromReconciliation, ev_atMillis = now, ev_detail = text\<rparr>;
           record' =
             record\<lparr>dr_state := target, dr_updatedAtMillis := now, dr_authorityEpoch := cs_epoch s,
                    dr_authorityIncarnation := cs_incarnation s, dr_lastError := code,
                    dr_lastDirective := retryDirectiveFor code, dr_lastDetail := text,
                    dr_events := push_event event (dr_events record)\<rparr>
       in a_then (upsertDelivery record') (\<lambda>_. a_return record'))))"

definition noteEvent :: "DeliveryRecord \<Rightarrow> EvidenceKind \<Rightarrow> string \<Rightarrow> DeliveryRecord dact" where
  "noteEvent record kind detail =
     a_get (\<lambda>d.
       let s = d_state d in
       a_then d_now (\<lambda>now.
       a_then d_now (\<lambda>updated.
       let event =
             \<lparr>ev_kind = kind, ev_from = dr_state record, ev_to = dr_state record,
              ev_generation = dr_generation record, ev_digest = dr_digest record, ev_code = Ok,
              ev_directive = DoNotRetry, ev_authorityEpoch = cs_epoch s,
              ev_authorityIncarnation = cs_incarnation s, ev_targetTerm = dr_targetTerm record,
              ev_targetIncarnation = dr_targetIncarnation record, ev_fromReconciliation = False,
              ev_atMillis = now, ev_detail = take kMaxDeliveryDetailBytes detail\<rparr>;
           record' = record\<lparr>dr_events := push_event event (dr_events record), dr_updatedAtMillis := updated\<rparr>
       in a_then (upsertDelivery record') (\<lambda>_. a_return record'))))"

definition failure_detail :: "ErrorCode \<Rightarrow> string \<Rightarrow> string" where
  "failure_detail code detail =
     take kMaxDeliveryDetailBytes
       (detail @ (if isIndeterminateCode code
                  then ''; the outcome at the target is unknown, so the next step is reconciliation''
                  else if isFencingCode code
                  then ''; the operation was fenced as stale authority, generation or replay'' else []))"

definition recordFailure :: "DeliveryRecord \<Rightarrow> ErrorCode \<Rightarrow> string \<Rightarrow> bool \<Rightarrow> DeliveryRecord dact" where
  "recordFailure record code detail fromTarget =
     (let text = failure_detail code detail in
      case checkedAdd (dr_failures record) 1 of
        None \<Rightarrow> a_fail ArithmeticOverflow
      | Some nextFailures \<Rightarrow>
          (case checkedAdd (dr_attempt record) 1 of
             None \<Rightarrow> a_fail ArithmeticOverflow
           | Some nextAttempt \<Rightarrow>
               (let record1 = record\<lparr>dr_failures := nextFailures, dr_attempt := nextAttempt,
                      dr_lastError := code, dr_lastDirective := retryDirectiveFor code, dr_lastDetail := text\<rparr>
                in if dr_state record1 = DeliveryState.Failed then noteEvent record1 FailureReported text
                   else recordTransition record1 DeliveryState.Failed FailureReported code text False)))"

definition recordRejected :: "DeliveryRecord \<Rightarrow> ErrorCode \<Rightarrow> string \<Rightarrow> DeliveryRecord dact" where
  "recordRejected record code detail =
     (let text = take kMaxDeliveryDetailBytes detail in
      if dr_state record = Rejected then noteEvent record Refused text
      else
        a_then (recordTransition record Rejected Refused code text False) (\<lambda>record1.
        let record2 = record1\<lparr>dr_lastError := code, dr_lastDetail := text\<rparr> in
        a_then (upsertDelivery record2) (\<lambda>_. a_return record2)))"

definition recordRetired :: "DeliveryRecord \<Rightarrow> string \<Rightarrow> DeliveryRecord dact" where
  "recordRetired record reason =
     (let text = take kMaxDeliveryDetailBytes reason in
      if dr_state record = DeliveryState.Retired then a_return record
      else
        a_then (recordTransition record DeliveryState.Retired EvidenceKind.Superseded ErrorCode.Retired text False) (\<lambda>record1.
        let record2 = record1\<lparr>dr_superseded := True\<rparr> in
        a_then (upsertDelivery record2) (\<lambda>_. a_return record2)))"

definition adoptActivation :: "DeliveryRecord \<Rightarrow> bool \<Rightarrow> string \<Rightarrow> DeliveryRecord dact" where
  "adoptActivation record fromReconciliation detail =
     a_then (if dr_state record \<noteq> Applied \<and> dr_state record \<noteq> Acknowledged
             then recordTransition record Applied ActivationReported Ok detail fromReconciliation
             else a_return record) (\<lambda>record1.
     a_get (\<lambda>d. case findTarget (d_state d) (dr_target record1) of
       None \<Rightarrow> a_return record1
     | Some runtime \<Rightarrow>
         if uint_isSet (tr_committedGeneration runtime) \<and> tr_committedGeneration runtime > dr_generation record1
         then a_return record1
         else
           a_then d_now (\<lambda>now.
           a_then (upsertTarget (runtime\<lparr>tr_committedGeneration := dr_generation record1,
                     tr_committedDigest := dr_digest record1, tr_committedArtifact := dr_artifact record1,
                     tr_lastContactMillis := now\<rparr>)) (\<lambda>_.
           a_return record1))))"

definition acknowledge :: "DeliveryRecord \<Rightarrow> bool \<Rightarrow> string \<Rightarrow> DeliveryRecord dact" where
  "acknowledge record fromReconciliation detail =
     (if dr_state record = Acknowledged
      then (if fromReconciliation \<and> \<not> dr_acknowledgedFromReconcile record
            then (let record1 = record\<lparr>dr_acknowledgedFromReconcile := True\<rparr> in
                  a_then (upsertDelivery record1) (\<lambda>_. a_return record1))
            else a_return record)
      else
        a_then (recordTransition record Acknowledged AcknowledgementRecorded Ok detail fromReconciliation)
          (\<lambda>record1.
        let record2 = record1\<lparr>dr_acknowledgedFromReconcile := fromReconciliation\<rparr> in
        a_then (upsertDelivery record2) (\<lambda>_. a_return record2)))"

text \<open>Deliveries of a target, in the order of the map.\<close>

definition deliveries_of :: "TargetId \<Rightarrow> (DeliveryRecord \<Rightarrow> bool) \<Rightarrow> Distributor \<Rightarrow> DeliveryRecord list" where
  "deliveries_of target P d =
     filter (\<lambda>r. dr_target r = target \<and> P r) (om_values (cs_deliveries (d_state d)))"

definition rearmAfterRestart :: "TargetId \<Rightarrow> Term \<Rightarrow> unit dact" where
  "rearmAfterRestart target newTerm =
     a_get (\<lambda>d.
       a_each (\<lambda>record.
         a_then (noteEvent (record\<lparr>dr_failures := 0, dr_attempt := dr_attempt record + 1\<rparr>) Retried
                   (''retry budget re-armed: the target came back with boot term ''
                    @ to_string (unat newTerm))) (\<lambda>_. a_return ()))
         (deliveries_of target (\<lambda>r. dr_state r = DeliveryState.Failed) d))"

definition recordSessionFailure :: "TargetId \<Rightarrow> ErrorCode \<Rightarrow> string \<Rightarrow> unit dact" where
  "recordSessionFailure target code detail =
     a_then (a_get (\<lambda>d. a_each (\<lambda>record. a_ignore (recordFailure record code detail False))
               (deliveries_of target (\<lambda>r. isPendingState (dr_state r)) d))) (\<lambda>_.
     a_get (\<lambda>d. case findTarget (d_state d) target of
       None \<Rightarrow> a_return ()
     | Some runtime \<Rightarrow>
         a_then (a_ignore (upsertTarget (runtime\<lparr>tr_contactEstablishedThisProcess := False\<rparr>))) (\<lambda>_.
         markContactCurrent target False 0)))"

end
