(* ===== verification/DistributorSession.thy ===== *)
theory DistributorSession
  imports DistributorCore
begin

text \<open>
  The distributor, second part: a session with a target (\<^verbatim>\<open>handshake\<close>, \<^verbatim>\<open>reconcile\<close>,
  \<^verbatim>\<open>applyReconcileReport\<close>, \<^verbatim>\<open>offerAndTransfer\<close>, \<^verbatim>\<open>activateDelivery\<close>, \<^verbatim>\<open>awaitAcknowledgement\<close>,
  \<^verbatim>\<open>driveDelivery\<close>, \<^verbatim>\<open>driveDeliveries\<close> and \<^verbatim>\<open>runSession\<close> of \<^verbatim>\<open>src/distributor.cpp\<close>). The loops that wait
  for the target end because every received frame makes the remaining input smaller.
\<close>

subsection \<open>Handshake\<close>

definition hello_of :: "Distributor \<Rightarrow> bytes \<Rightarrow> HelloMessage" where
  "hello_of d nonce =
     \<lparr>hello_nodeId = dso_nodeId (db_options d), hello_epoch = cs_epoch (d_state d),
      hello_incarnation = cs_incarnation (d_state d), hello_nonce = nonce,
      hello_minWireVersion = kWireVersion, hello_maxWireVersion = kWireVersion,
      hello_maxPayloadBytes = maxPayloadBytes (d_policy d), hello_capabilities = kCapabilityKnownMask,
      hello_authTag = replicate kAuthTagBytes 0\<rparr>"

definition send_hello :: "unit dact" where
  "send_hello =
     a_then (d_io draw_random) (\<lambda>nonce.
     a_get (\<lambda>d.
       a_then (a_encoded (encodeHello (hello_of d nonce))) (\<lambda>bs.
       a_then (if dso_authenticate (db_options d) then a_result (sealAuthenticated bs (dso_key (db_options d)))
               else a_return bs) (\<lambda>sealed.
       d_send Hello 0 sealed))))"

definition receive_hello_ack :: "(HelloAckMessage \<times> bytes) dact" where
  "receive_hello_ack =
     a_then d_receive (\<lambda>f.
     if fh_type (fr_header f) = AuthReject
     then a_then (a_result (decodeAuthReject (fr_payload f))) (\<lambda>m. a_fail (authReject_code m))
     else if fh_type (fr_header f) \<noteq> HelloAck then a_fail UnexpectedMessage
     else a_then (a_result (decodeHelloAck (fr_payload f))) (\<lambda>m. a_return (m, fr_payload f)))"

text \<open>The acknowledgement must be of this target, authentic, and not of an incarnation already fenced.\<close>

definition check_hello_ack :: "HelloAckMessage \<Rightarrow> bytes \<Rightarrow> unit dact" where
  "check_hello_ack ack payload =
     a_get (\<lambda>d.
       if helloAck_target ack \<noteq> sx_target (db_session d) then a_fail Unauthorized
       else
         a_then (if dso_authenticate (db_options d)
                 then a_result (verifyAuthenticated payload (dso_key (db_options d))) else a_return ()) (\<lambda>_.
         a_then (a_modify (\<lambda>d. d\<lparr>db_session := (db_session d)
             \<lparr>sx_peerMaxPayload := min (maxPayloadBytes (d_policy d)) (helloAck_maxPayloadBytes ack),
              sx_targetTerm := helloAck_term ack, sx_targetIncarnation := helloAck_incarnation ack\<rparr>\<rparr>)) (\<lambda>_.
         case findTarget (d_state d) (sx_target (db_session d)) of
           None \<Rightarrow> a_return ()
         | Some runtime \<Rightarrow>
             if uint_isSet (tr_term runtime)
                \<and> (helloAck_term ack < tr_term runtime
                   \<or> helloAck_term ack = tr_term runtime \<and> OpaqueIdentity_isSet (tr_incarnation runtime)
                      \<and> helloAck_incarnation ack \<noteq> tr_incarnation runtime)
             then a_fail FencedIncarnation else a_return ())))"

definition send_confirm :: "bytes \<Rightarrow> unit dact" where
  "send_confirm payload =
     a_get (\<lambda>d. d_send_encoded HelloConfirm 0 (encodeHelloConfirm
       \<lparr>helloConfirm_authTag =
          (if dso_authenticate (db_options d) then hmacSha256 (dso_key (db_options d)) (zero_tag payload)
           else replicate kAuthTagBytes 0)\<rparr>))"

definition observed_restart :: "TargetRuntime option \<Rightarrow> Term \<Rightarrow> bool" where
  "observed_restart existing term \<longleftrightarrow>
     (case existing of None \<Rightarrow> False | Some t \<Rightarrow> uint_isSet (tr_term t) \<and> term > tr_term t)"

definition runtime_of_hello :: "TargetRuntime option \<Rightarrow> TargetId \<Rightarrow> HelloAckMessage \<Rightarrow> int \<Rightarrow> TargetRuntime" where
  "runtime_of_hello existing target ack now =
     (let t = (case existing of None \<Rightarrow> emptyTargetRuntime | Some t \<Rightarrow> t) in
      t\<lparr>tr_id := target, tr_klass := helloAck_targetClass ack, tr_guarantee := helloAck_guarantee ack,
        tr_term := helloAck_term ack, tr_incarnation := helloAck_incarnation ack,
        tr_committedGeneration := helloAck_committedGeneration ack,
        tr_committedDigest := helloAck_committedDigest ack,
        tr_committedArtifact := helloAck_committedArtifact ack, tr_lastContactMillis := now,
        tr_contactEstablishedThisProcess := False, tr_sessionsEstablished := tr_sessionsEstablished t + 1,
        tr_restartsObserved := tr_restartsObserved t
          + (if observed_restart existing (helloAck_term ack) then 1 else 0)\<rparr>)"

definition adopt_hello :: "HelloAckMessage \<Rightarrow> unit dact" where
  "adopt_hello ack =
     a_get (\<lambda>d.
       let target = sx_target (db_session d); existing = findTarget (d_state d) target in
       a_then d_now (\<lambda>now.
       a_then (upsertTarget (runtime_of_hello existing target ack now)) (\<lambda>_.
       a_then (markContactCurrent target True now) (\<lambda>_.
       if observed_restart existing (helloAck_term ack) then rearmAfterRestart target (helloAck_term ack)
       else a_return ()))))"

definition Distributor_handshake :: "unit dact" where
  "Distributor_handshake =
     a_then send_hello (\<lambda>_.
     a_then receive_hello_ack (\<lambda>(ack, payload).
     a_then (check_hello_ack ack payload) (\<lambda>_.
     a_then (send_confirm payload) (\<lambda>_.
     adopt_hello ack))))"

subsection \<open>Reconciliation\<close>

definition receive_report :: "ReconcileReportMessage dact" where
  "receive_report =
     a_get (\<lambda>d.
       a_then (d_send_encoded ReconcileRequest 0 (encodeReconcileRequest
         \<lparr>reconcileRequest_nodeId = dso_nodeId (db_options d), reconcileRequest_epoch = cs_epoch (d_state d),
          reconcileRequest_incarnation = cs_incarnation (d_state d),
          reconcileRequest_maxFindings =
            of_nat (min (maxReconcileFindings (d_policy d)) kMaxFindingsInReport)\<rparr>)) (\<lambda>_.
       a_then d_receive (\<lambda>f.
       if fh_type (fr_header f) \<noteq> ReconcileReport then a_fail UnexpectedMessage
       else
         a_then (a_result (decodeReconcileReport (fr_payload f))) (\<lambda>report.
         if report_target report \<noteq> sx_target (db_session d) then a_fail Unauthorized
         else
           a_then (a_modify (\<lambda>d. d\<lparr>db_session := (db_session d)\<lparr>sx_report := Some report\<rparr>\<rparr>)) (\<lambda>_.
           if report_term report \<noteq> sx_targetTerm (db_session d)
              \<or> report_incarnation report \<noteq> sx_targetIncarnation (db_session d)
           then a_fail FencedIncarnation else a_return report)))))"

definition runtime_of_report ::
  "TargetRuntime option \<Rightarrow> TargetId \<Rightarrow> ReconcileReportMessage \<Rightarrow> int \<Rightarrow> TargetRuntime" where
  "runtime_of_report existing target report now =
     (case existing of None \<Rightarrow> emptyTargetRuntime | Some t \<Rightarrow> t)
       \<lparr>tr_id := target, tr_klass := report_targetClass report, tr_guarantee := report_guarantee report,
        tr_term := report_term report, tr_incarnation := report_incarnation report,
        tr_committedGeneration := report_committedGeneration report,
        tr_committedDigest := report_committedDigest report,
        tr_committedArtifact := report_committedArtifact report,
        tr_applyPrepared := report_applyPrepared report,
        tr_preparedDeployment := report_preparedDeployment report,
        tr_preparedGeneration := report_preparedGeneration report,
        tr_preparedDigest := report_preparedDigest report, tr_lastContactMillis := now,
        tr_contactEstablishedThisProcess := False\<rparr>"

definition adopt_report :: "ReconcileReportMessage \<Rightarrow> unit dact" where
  "adopt_report report =
     a_get (\<lambda>d.
       let target = sx_target (db_session d) in
       a_then d_now (\<lambda>now.
       a_then (upsertTarget (runtime_of_report (findTarget (d_state d) target) target report now)) (\<lambda>_.
       markContactCurrent target True now)))"

definition reconcile_input :: "SessionContext \<Rightarrow> DeliveryRecord \<Rightarrow> ReconcileInput" where
  "reconcile_input session record =
     \<lparr>rin_report = sx_report session, rin_sessionTerm = sx_targetTerm session,
      rin_sessionIncarnation = sx_targetIncarnation session, rin_desiredGeneration = dr_generation record,
      rin_desiredDigest = dr_digest record, rin_key = dr_key record, rin_deployment = dr_id record,
      rin_state = dr_state record, rin_guarantee = dr_effectiveGuarantee record,
      rin_requirement = dr_requirement record, rin_artifactAvailable = True\<rparr>"

definition resolve_prepare_window :: "DeliveryRecord \<Rightarrow> unit dact" where
  "resolve_prepare_window record =
     a_get (\<lambda>d.
       let prepared = (case sx_report (db_session d) of
                         None \<Rightarrow> ([], 0) | Some r \<Rightarrow> (report_preparedDeployment r, report_preparedGeneration r))
       in
       a_then (d_send_encoded ApplyAbort 0 (encodeApplyAbort
         \<lparr>applyAbort_deployment = fst prepared,
          applyAbort_generation = (if uint_isSet (snd prepared) then snd prepared else dr_generation record),
          applyAbort_reason = ''distributor reconciliation resolved an unresolved prepare window''\<rparr>)) (\<lambda>_.
       a_then d_receive (\<lambda>f.
       if fh_type (fr_header f) \<noteq> ApplyAbortAck then a_fail UnexpectedMessage
       else a_then (a_result (decodeApplyAbortAck (fr_payload f))) (\<lambda>_. a_return ()))))"

definition adopt_and_acknowledge :: "DeliveryRecord \<Rightarrow> bool \<Rightarrow> string \<Rightarrow> string \<Rightarrow> unit dact" where
  "adopt_and_acknowledge record fromReconciliation adopted acknowledged =
     a_then (adoptActivation record fromReconciliation adopted) (\<lambda>_.
     a_get (\<lambda>d. a_then (acknowledge (snapshotDelivery d (dr_id record)) fromReconciliation acknowledged) (\<lambda>_.
     a_return ())))"

definition reconcile_one :: "DeliveryRecord \<Rightarrow> unit dact" where
  "reconcile_one record =
     (if \<not> isPendingState (dr_state record) then a_return ()
      else a_get (\<lambda>d.
        let decision = reconcileDelivery (reconcile_input (db_session d) record) in
        case rec_outcome decision of
          AdoptActivation \<Rightarrow>
            adopt_and_acknowledge record True (''reconciliation: '' @ rec_reason decision)
              (''acknowledgement recorded from a live reconcile report: '' @ rec_reason decision)
        | RetireStale \<Rightarrow>
            a_then (recordRetired record (''reconciliation: the target is already at generation ''
                      @ to_string (unat (rec_targetGeneration decision)))) (\<lambda>_. a_return ())
        | ResolvePrepareWindow \<Rightarrow> resolve_prepare_window record
        | FenceAuthority \<Rightarrow> a_fail FencedIncarnation
        | _ \<Rightarrow> a_return ()))"

definition applyReconcileReport :: "unit dact" where
  "applyReconcileReport =
     a_get (\<lambda>d. a_each reconcile_one
       (sort_records (deliveries_of (sx_target (db_session d)) (\<lambda>_. True) d)))"

definition Distributor_reconcile :: "unit dact" where
  "Distributor_reconcile =
     a_then receive_report (\<lambda>report. a_then (adopt_report report) (\<lambda>_. applyReconcileReport))"

subsection \<open>Waiting for the acknowledgement\<close>

text \<open>What a frame received while waiting leads to: the wait goes on after a ping.\<close>

definition take_acknowledgement :: "DeliveryRecord \<Rightarrow> DeliveryAckMessage \<Rightarrow> unit dact" where
  "take_acknowledgement record ack =
     a_get (\<lambda>d.
       if deliveryAck_deployment ack \<noteq> dr_id record \<or> deliveryAck_generation ack \<noteq> dr_generation record
          \<or> deliveryAck_digest ack \<noteq> dr_digest record
       then a_fail ProtocolViolation
       else if deliveryAck_term ack \<noteq> sx_targetTerm (db_session d)
               \<or> deliveryAck_incarnation ack \<noteq> sx_targetIncarnation (db_session d)
       then a_fail FencedIncarnation
       else adopt_and_acknowledge record (deliveryAck_evidenceFromReconcile ack)
              ''the target reported the activation boundary under current authority''
              (''the activation acknowledgement was durably recorded under epoch ''
               @ to_string (unat (cs_epoch (d_state d)))))"

definition nack_failure :: "DeliveryRecord \<Rightarrow> bytes \<Rightarrow> unit dact" where
  "nack_failure record payload =
     a_then (a_result (decodeDeliveryNack payload)) (\<lambda>nack.
     a_then (recordFailure record (deliveryNack_code nack) (deliveryNack_detail nack) True) (\<lambda>_. a_return ()))"

definition await_frame :: "DeliveryRecord \<Rightarrow> Frame \<Rightarrow> bool dact" where
  "await_frame record f =
     (case fh_type (fr_header f) of
        DeliveryAck \<Rightarrow>
          a_then (a_result (decodeDeliveryAck (fr_payload f))) (\<lambda>ack.
          a_then (take_acknowledgement record ack) (\<lambda>_. a_return False))
      | DeliveryNack \<Rightarrow> a_then (nack_failure record (fr_payload f)) (\<lambda>_. a_return False)
      | Ping \<Rightarrow>
          a_then (a_result (decodePing (fr_payload f))) (\<lambda>ping.
          a_then (d_send_encoded Pong kFrameFlagResponse (encodePong \<lparr>pong_nonce = ping_nonce ping\<rparr>)) (\<lambda>_.
          a_return True))
      | _ \<Rightarrow> a_fail UnexpectedMessage)"

subsection \<open>Operations that do not read from the connection\<close>

interpretation inp: action_relation "\<lambda>d d'. db_in d' = db_in d"
  by unfold_locales simp_all

named_theorems input_rules \<open>operations that leave the incoming half of the connection alone\<close>

declare inp.at_intros [input_rules]

lemma inp_basic [input_rules]:
  "inp.at d d_now" "inp.at d stopRequested" "inp.at d (d_io m)" "inp.at d (d_send t flags payload)"
  "inp.at d (d_commit j payload)"
  by (auto simp: inp.at_def a_result_def a_return_def a_fail_def d_now_def stopRequested_def d_io_def
      d_send_def d_commit_def split: prod.splits sum.splits)

lemma inp_upserts [input_rules]:
  "inp.at d (upsertTarget t)" "inp.at d (upsertDelivery r)" "inp.at d (markContactCurrent target c n)"
  "inp.at d (d_send_encoded ft flags x)"
  by (auto simp: upsertTarget_def upsertDelivery_def markContactCurrent_def d_with_state_def d_send_encoded_def
      intro!: input_rules inp.at_modify)

lemma inp_records [input_rules]:
  "inp.at d (recordTransition r target kind code detail b)" "inp.at d (noteEvent r kind detail)"
  by (auto simp: recordTransition_def noteEvent_def Let_def intro!: input_rules)

lemma inp_outcomes [input_rules]:
  "inp.at d (recordFailure r code detail b)" "inp.at d (recordRejected r code detail)"
  "inp.at d (recordRetired r detail)" "inp.at d (acknowledge r b detail)"
  by (auto simp: recordFailure_def recordRejected_def recordRetired_def acknowledge_def Let_def
      intro!: input_rules split: option.splits)

lemma inp_adopt [input_rules]: "inp.at d (adoptActivation r b detail)"
  by (auto simp: adoptActivation_def intro!: input_rules split: option.splits)

lemma inp_await [input_rules]:
  "inp.at d (adopt_and_acknowledge r b adopted acked)" "inp.at d (take_acknowledgement r ack)"
  "inp.at d (nack_failure r payload)"
  by (auto simp: adopt_and_acknowledge_def take_acknowledgement_def nack_failure_def intro!: input_rules)

lemma inp_await_frame [input_rules]: "inp.at d (await_frame r f)"
  unfolding await_frame_def by (cases "fh_type (fr_header f)") (auto intro!: input_rules)

lemma d_receive_smaller: "d_receive d = (Returned f, d') \<Longrightarrow> input_size (db_in d') < input_size (db_in d)"
  by (auto simp: d_receive_def dest: receive_smaller split: prod.splits sum.splits)

text \<open>An operation that reads one frame and then none makes the remaining input smaller when it succeeds.\<close>

lemma receive_then_smaller:
  assumes "a_then d_receive k d = (Returned x, d')" and "\<And>f d. inp.at d (k f)"
  shows "input_size (db_in d') < input_size (db_in d)"
proof -
  from assms(1) obtain f d1 where "d_receive d = (Returned f, d1)" and "k f d1 = (Returned x, d')"
    by (rule a_thenE)
  then show ?thesis using d_receive_smaller inp.atD [OF assms(2)] by metis
qed

subsection \<open>The loop that waits\<close>

function await_loop :: "DeliveryRecord \<Rightarrow> unit dact" where
  "await_loop record d =
     (case d_receive d of
        (Failed e, d') \<Rightarrow> (if e = PeerIdleTimeout \<or> e = ConnectionClosed then (Returned (), d') else (Failed e, d'))
      | (Returned f, d') \<Rightarrow>
          (case await_frame record f d' of
             (Returned True, d'') \<Rightarrow> await_loop record d''
           | (Returned False, d'') \<Rightarrow> (Returned (), d'')
           | (Failed e, d'') \<Rightarrow> (Failed e, d'')
           | (Exited c, d'') \<Rightarrow> (Exited c, d'')
           | (Stopped, d'') \<Rightarrow> (Stopped, d''))
      | (Exited c, d') \<Rightarrow> (Exited c, d')
      | (Stopped, d') \<Rightarrow> (Stopped, d'))"
  by pat_completeness auto

termination
proof (relation "measure (\<lambda>(record, d). input_size (db_in d))", goal_cases)
  case (2 rc d)
  then show ?case
    using d_receive_smaller [of d] inp.atD [OF inp_await_frame] by (metis in_measure case_prod_conv)
qed simp

declare await_loop.simps [simp del]

definition awaitAcknowledgement :: "DeliveryRecord \<Rightarrow> unit dact" where
  "awaitAcknowledgement record =
     a_get (\<lambda>d. if d_faulty d kWithholdAck then a_return () else await_loop record)"

subsection \<open>Activation\<close>

text \<open>A request, its response, and a refusal recorded as a failure. The value says whether to go on.\<close>

definition stage_delivery :: "DeliveryRecord \<Rightarrow> DeliveryRecord option dact" where
  "stage_delivery record =
     a_then (d_send_encoded Stage 0 (encodeStage
       \<lparr>stage_deployment = dr_id record, stage_stream = deriveStreamId (dr_id record) (dr_attempt record),
        stage_generation = dr_generation record, stage_digest = dr_digest record\<rparr>)) (\<lambda>_.
     a_then d_receive (\<lambda>f.
     if fh_type (fr_header f) = DeliveryNack
     then a_then (nack_failure record (fr_payload f)) (\<lambda>_. a_return None)
     else if fh_type (fr_header f) \<noteq> StageAck then a_fail UnexpectedMessage
     else
       a_then (a_result (decodeStageAck (fr_payload f))) (\<lambda>ack.
       if \<not> stageAck_staged ack
       then a_then (recordFailure record (if stageAck_code ack = Ok then ApplyFailed else stageAck_code ack)
                      (stageAck_detail ack) True) (\<lambda>_. a_return None)
       else
         a_then (recordTransition record Staged StagedAtTarget Ok
                   ''the target holds the verified artifact staged'' False) (\<lambda>record1.
         a_return (Some record1)))))"

definition prepare_window :: "DeliveryRecord \<Rightarrow> DeliveryRecord option dact" where
  "prepare_window record =
     a_then (d_send_encoded ApplyPrepare 0 (encodeApplyPrepare
       \<lparr>applyPrepare_deployment = dr_id record, applyPrepare_generation = dr_generation record,
        applyPrepare_digest = dr_digest record\<rparr>)) (\<lambda>_.
     a_then d_receive (\<lambda>f.
     if fh_type (fr_header f) = DeliveryNack
     then a_then (nack_failure record (fr_payload f)) (\<lambda>_. a_return None)
     else if fh_type (fr_header f) \<noteq> ApplyPrepareAck then a_fail UnexpectedMessage
     else
       a_then (a_result (decodeApplyPrepareAck (fr_payload f))) (\<lambda>ack.
       if \<not> applyPrepareAck_prepared ack
       then a_then (recordFailure record
                      (if applyPrepareAck_code ack = Ok then NotPrepared else applyPrepareAck_code ack)
                      (applyPrepareAck_detail ack) True) (\<lambda>_. a_return None)
       else
         a_then (noteEvent record EvidenceKind.ApplyPrepared
                   ''target entered a prepare window; activation is not atomic for this target'') (\<lambda>record1.
         a_return (Some record1)))))"

definition commit_delivery :: "DeliveryRecord \<Rightarrow> unit dact" where
  "commit_delivery record =
     a_get (\<lambda>d.
       let generation = (if d_faulty d kStaleCommit \<and> dr_generation record > 1
                         then dr_generation record - 1 else dr_generation record) in
       a_then (d_send_encoded ApplyCommit 0 (encodeApplyCommit
         \<lparr>applyCommit_deployment = dr_id record, applyCommit_generation = generation,
          applyCommit_digest = dr_digest record\<rparr>)) (\<lambda>_.
       a_then d_receive (\<lambda>f.
       if fh_type (fr_header f) = DeliveryNack
       then
         a_then (a_result (decodeDeliveryNack (fr_payload f))) (\<lambda>nack.
         a_then (if deliveryNack_code nack = StaleGeneration
                 then recordRetired record (''the target fenced the commit as stale: '' @ deliveryNack_detail nack)
                 else recordFailure record (deliveryNack_code nack) (deliveryNack_detail nack) True) (\<lambda>_.
         a_return ()))
       else if fh_type (fr_header f) \<noteq> ApplyCommitAck then a_fail UnexpectedMessage
       else
         a_then (a_result (decodeApplyCommitAck (fr_payload f))) (\<lambda>ack.
         if \<not> applyCommitAck_committed ack
         then a_then (recordFailure record
                        (if applyCommitAck_code ack = Ok then ApplyFailed else applyCommitAck_code ack)
                        (applyCommitAck_detail ack) True) (\<lambda>_. a_return ())
         else if applyCommitAck_committedGeneration ack \<noteq> dr_generation record
                 \<or> applyCommitAck_committedDigest ack \<noteq> dr_digest record
         then a_then (recordFailure record Conflict
                        ''the target committed a different generation than the one requested'' True) (\<lambda>_.
              a_return ())
         else
           a_then (adoptActivation record False
                     ''the target reported the generation active at the commit boundary'') (\<lambda>_.
           a_get (\<lambda>d. awaitAcknowledgement (snapshotDelivery d (dr_id record))))))))"

definition activateDelivery :: "DeliveryRecord \<Rightarrow> unit dact" where
  "activateDelivery record =
     a_then (if dr_state record = Verified then stage_delivery record else a_return (Some record)) (\<lambda>staged.
     case staged of
       None \<Rightarrow> a_return ()
     | Some record1 \<Rightarrow>
         a_then (if dr_effectiveGuarantee record1 = PrepareCommitAbort then prepare_window record1
                 else a_return (Some record1)) (\<lambda>prepared.
         case prepared of None \<Rightarrow> a_return () | Some record2 \<Rightarrow> commit_delivery record2))"

subsection \<open>Offer and transfer\<close>

definition resume_offset :: "Distributor \<Rightarrow> DeliveryRecord \<Rightarrow> u64" where
  "resume_offset d record =
     (case sx_report (db_session d) of
        None \<Rightarrow> 0
      | Some report \<Rightarrow>
          (case findTransferStatus report (dr_id record) of
             None \<Rightarrow> 0
           | Some status \<Rightarrow>
               if transfer_generation status = dr_generation record \<and> transfer_digest status = dr_digest record
               then transfer_bytesReceived status else 0))"

definition prepare_of :: "Distributor \<Rightarrow> DeliveryRecord \<Rightarrow> PrepareMessage" where
  "prepare_of d record =
     (let chunkBytes = of_nat (min (transferChunkBytes (d_policy d)) (unat (sx_peerMaxPayload (db_session d)) div 2))
      in
      \<lparr>prepare_deployment = dr_id record, prepare_key = dr_key record, prepare_artifact = dr_artifact record,
       prepare_generation = dr_generation record, prepare_digest = dr_digest record,
       prepare_sizeBytes = dr_sizeBytes record + (if d_faulty d kOversizeDeclare then 4 * 1024 else 0),
       prepare_schema = dr_schema record, prepare_schemaVersion = dr_schemaVersion record,
       prepare_requirement = dr_requirement record, prepare_guarantee = dr_effectiveGuarantee record,
       prepare_authorityEpoch = cs_epoch (d_state d), prepare_attempt = dr_attempt record,
       prepare_stream = deriveStreamId (dr_id record) (dr_attempt record),
       prepare_chunkBytes = (if chunkBytes = 0 then 1024 else chunkBytes),
       prepare_resumeFromOffset = resume_offset d record\<rparr>)"

text \<open>The response to an offer: the byte to start at, or nothing when the delivery is settled.\<close>

definition refuse_offer :: "DeliveryRecord \<Rightarrow> PrepareRejectMessage \<Rightarrow> unit dact" where
  "refuse_offer record reject =
     (let code = prepareReject_code reject; detail = prepareReject_detail reject in
      a_then (if isTerminalRejection code then recordRejected record code detail
              else if code = StaleGeneration
              then recordRetired record (''the target refused a stale generation: '' @ detail)
              else if code = ErrorCode.GenerationConflict
              then recordRejected record code
                     (''the target has different content for this generation: '' @ detail)
              else recordFailure record code detail True) (\<lambda>_. a_return ()))"

definition offer_response :: "DeliveryRecord \<Rightarrow> PrepareMessage \<Rightarrow> Frame \<Rightarrow> u64 option dact" where
  "offer_response record prepare f =
     (case fh_type (fr_header f) of
        PrepareAck \<Rightarrow>
          a_then (a_result (decodePrepareAck (fr_payload f))) (\<lambda>ack.
          if prepareAck_deployment ack \<noteq> dr_id record \<or> prepareAck_stream ack \<noteq> prepare_stream prepare
          then a_fail ProtocolViolation
          else if prepareAck_duplicateSuppressed ack
          then
            a_then (adopt_and_acknowledge record False
              ''the target reported this generation already active and suppressed the duplicate''
              ''acknowledgement recorded from the target's duplicate suppression'') (\<lambda>_. a_return None)
          else a_return (Some (prepareAck_resumeFromOffset ack)))
      | PrepareReject \<Rightarrow>
          a_then (a_result (decodePrepareReject (fr_payload f))) (\<lambda>reject.
          a_then (refuse_offer record reject) (\<lambda>_. a_return None))
      | DeliveryNack \<Rightarrow> a_then (nack_failure record (fr_payload f)) (\<lambda>_. a_return None)
      | _ \<Rightarrow> a_fail UnexpectedMessage)"

record TransferFlags =
  tf_duplicate :: bool
  tf_reorder :: bool
  tf_corrupt :: bool

datatype transfer_next = TransferEnded | TransferGoesOn u64 TransferFlags ArtifactReader

definition send_chunk :: "PrepareMessage \<Rightarrow> u64 \<Rightarrow> bytes \<Rightarrow> TransferFlags \<Rightarrow> TransferFlags dact" where
  "send_chunk prepare offset data flags =
     (let payload = (if tf_corrupt flags then (hd data XOR 1) # tl data else data);
          msg = encodeChunk \<lparr>chunk_stream = prepare_stream prepare, chunk_sequence = offset,
                             chunk_offset = offset, chunk_data = payload\<rparr>
      in
      a_then (a_encoded msg) (\<lambda>bs.
      a_then (d_send Chunk 0 bs) (\<lambda>_.
      a_then (a_modify (\<lambda>d. d\<lparr>db_session := (db_session d)\<lparr>sx_chunksSent := sx_chunksSent (db_session d) + 1\<rparr>\<rparr>)) (\<lambda>_.
      a_get (\<lambda>d.
        let sent = sx_chunksSent (db_session d);
            reordered = tf_reorder flags \<and> sent = 1;
            duplicated = (tf_duplicate flags \<or> reordered) \<and> sent = 1;
            flags' = \<lparr>tf_duplicate = (tf_duplicate flags \<or> reordered) \<and> \<not> duplicated,
                      tf_reorder = tf_reorder flags \<and> \<not> reordered, tf_corrupt = False\<rparr>
        in
        a_then (if duplicated then d_send Chunk 0 bs else a_return ()) (\<lambda>_.
        let dropAfter = FaultPlan_countFor (dso_faults (db_options d)) kAfterChunk in
        if dropAfter \<noteq> 0 \<and> sent \<ge> ucast dropAfter
        then a_then (a_modify (\<lambda>d. d\<lparr>db_valid := False\<rparr>)) (\<lambda>_. a_fail ConnectionClosed)
        else a_return flags'))))))"

definition chunk_response ::
  "DeliveryRecord \<Rightarrow> PrepareMessage \<Rightarrow> u64 \<Rightarrow> TransferFlags \<Rightarrow> ArtifactReader \<Rightarrow> Frame \<Rightarrow> transfer_next dact" where
  "chunk_response record prepare offset flags reader f =
     (if fh_type (fr_header f) = DeliveryNack
      then a_then (nack_failure record (fr_payload f)) (\<lambda>_. a_return TransferEnded)
      else if fh_type (fr_header f) \<noteq> ChunkAck then a_fail UnexpectedMessage
      else
        a_then (a_result (decodeChunkAck (fr_payload f))) (\<lambda>ack.
        if chunkAck_stream ack \<noteq> prepare_stream prepare then a_fail ProtocolViolation
        else if chunkAck_code ack \<noteq> ReorderedFrame \<and> chunkAck_code ack \<noteq> Ok
        then a_then (recordFailure record (chunkAck_code ack) (chunkAck_detail ack) True) (\<lambda>_.
             a_return TransferEnded)
        else if chunkAck_bytesReceived ack = offset
        then a_then (recordFailure record ProtocolViolation
                       ''the target did not advance its accepted byte count'' True) (\<lambda>_.
             a_return TransferEnded)
        else a_return (TransferGoesOn (chunkAck_bytesReceived ack) flags reader)))"

definition transfer_chunk ::
  "DeliveryRecord \<Rightarrow> PrepareMessage \<Rightarrow> u64 \<Rightarrow> TransferFlags \<Rightarrow> ArtifactReader \<Rightarrow> transfer_next dact" where
  "transfer_chunk record prepare offset flags reader =
     a_then stopRequested (\<lambda>stopping.
     if stopping then a_fail Cancelled
     else
       a_then (d_io (readAt reader offset (unat (prepare_chunkBytes prepare)))) (\<lambda>(chunk, reader').
       case chunk of
         Inl e \<Rightarrow>
           a_get (\<lambda>d. a_then (recordFailure record e (db_text d e) False) (\<lambda>_. a_return TransferEnded))
       | Inr [] \<Rightarrow>
           a_then (recordFailure record IntegrityFailure ''the artifact ended before its declared size'' False)
             (\<lambda>_. a_return TransferEnded)
       | Inr (b # bs) \<Rightarrow>
           a_then (send_chunk prepare offset (b # bs) flags) (\<lambda>flags'.
           a_then d_receive (chunk_response record prepare offset flags' reader'))))"

lemma inp_transfer [input_rules]:
  "inp.at d (refuse_offer r reject)" "inp.at d (send_chunk p n data flags)"
  by (auto simp: refuse_offer_def send_chunk_def Let_def intro!: input_rules inp.at_modify)

lemma inp_chunk_response [input_rules]: "inp.at d (chunk_response r p n flags reader f)"
  by (auto simp: chunk_response_def intro!: input_rules)

lemma transfer_chunk_smaller:
  assumes "transfer_chunk record prepare offset flags reader d = (Returned (TransferGoesOn n flags' reader'), d')"
  shows "input_size (db_in d') < input_size (db_in d)"
proof -
  have failure: "a_then m (\<lambda>_. a_return TransferEnded) d1 \<noteq> (Returned (TransferGoesOn n flags' reader'), d')"
    for m :: "DeliveryRecord dact" and d1
    by (auto simp: a_return_def elim!: a_thenE)
  from assms obtain d1 chunk rd d2
    where stop: "stopRequested d = (Returned False, d1)"
      and read: "d_io (readAt reader offset (unat (prepare_chunkBytes prepare))) d1 = (Returned (chunk, rd), d2)"
      and rest: "(case chunk of
         Inl e \<Rightarrow> a_get (\<lambda>d. a_then (recordFailure record e (db_text d e) False) (\<lambda>_. a_return TransferEnded))
       | Inr [] \<Rightarrow>
           a_then (recordFailure record IntegrityFailure ''the artifact ended before its declared size'' False)
             (\<lambda>_. a_return TransferEnded)
       | Inr (b # bs) \<Rightarrow>
           a_then (send_chunk prepare offset (b # bs) flags) (\<lambda>flags'.
           a_then d_receive (chunk_response record prepare offset flags' rd))) d2
       = (Returned (TransferGoesOn n flags' reader'), d')"
    unfolding transfer_chunk_def
    by (elim a_thenE) (auto simp: a_fail_def split: if_splits prod.splits elim!: a_thenE)
  from rest failure obtain b bs where "chunk = Inr (b # bs)"
    by (auto simp: a_get_def split: sum.splits list.splits)
  with rest obtain fl d3 where sent: "send_chunk prepare offset (b # bs) flags d2 = (Returned fl, d3)"
    and got: "a_then d_receive (chunk_response record prepare offset fl rd) d3
       = (Returned (TransferGoesOn n flags' reader'), d')"
    by (auto elim: a_thenE)
  have "db_in d3 = db_in d"
    using inp.atD [OF inp_basic(2), of d] inp.atD [OF inp_basic(3)] inp.atD [OF inp_transfer(2)] stop read sent
    by metis
  then show ?thesis using receive_then_smaller [OF got] by (simp add: input_rules)
qed

function transfer_loop ::
  "DeliveryRecord \<Rightarrow> PrepareMessage \<Rightarrow> u64 \<Rightarrow> u64 \<Rightarrow> TransferFlags \<Rightarrow> ArtifactReader \<Rightarrow> bool dact" where
  "transfer_loop record prepare limit offset flags reader d =
     (if offset < limit
      then
        case transfer_chunk record prepare offset flags reader d of
          (Returned TransferEnded, d') \<Rightarrow> (Returned False, d')
        | (Returned (TransferGoesOn n flags' reader'), d') \<Rightarrow> transfer_loop record prepare limit n flags' reader' d'
        | (Failed e, d') \<Rightarrow> (Failed e, d')
        | (Exited c, d') \<Rightarrow> (Exited c, d')
        | (Stopped, d') \<Rightarrow> (Stopped, d')
      else (Returned True, d))"
  by pat_completeness auto

termination
  by (relation "measure (\<lambda>(record, prepare, limit, offset, flags, reader, d). input_size (db_in d))")
     (auto dest!: sym [of _ "transfer_chunk _ _ _ _ _ _"] transfer_chunk_smaller)

declare transfer_loop.simps [simp del]

definition complete_transfer :: "DeliveryRecord \<Rightarrow> PrepareMessage \<Rightarrow> unit dact" where
  "complete_transfer record prepare =
     a_then (d_send_encoded TransferComplete 0 (encodeTransferComplete
       \<lparr>transferComplete_deployment = dr_id record, transferComplete_stream = prepare_stream prepare,
        transferComplete_digest = dr_digest record, transferComplete_sizeBytes = prepare_sizeBytes prepare\<rparr>)) (\<lambda>_.
     a_then (if dr_state record = Offered \<or> dr_state record = Prepared
             then recordTransition record Transferred BytesAccepted Ok
                    ''all declared bytes were accepted by the target'' False
             else a_return record) (\<lambda>record1.
     a_then d_receive (\<lambda>f.
     if fh_type (fr_header f) = DeliveryNack then nack_failure record1 (fr_payload f)
     else if fh_type (fr_header f) \<noteq> TransferResult then a_fail UnexpectedMessage
     else
       a_then (a_result (decodeTransferResult (fr_payload f))) (\<lambda>result.
       if \<not> transferResult_verified result
       then a_then (recordFailure record1
                      (if transferResult_code result = Ok then DigestMismatch else transferResult_code result)
                      (transferResult_detail result) True) (\<lambda>_. a_return ())
       else
         a_then (recordTransition record1 Verified DigestVerified Ok
                   ''the target recomputed the digest and it matched'' False) (\<lambda>record2.
         activateDelivery record2)))))"

definition transfer_from :: "DeliveryRecord \<Rightarrow> PrepareMessage \<Rightarrow> u64 \<Rightarrow> unit dact" where
  "transfer_from record prepare offset =
     a_get (\<lambda>d.
       a_then (d_io (ArtifactReader_open (db_artifacts d) (dr_digest record))) (\<lambda>opened.
       case opened of
         Inl e \<Rightarrow> a_then (recordFailure record ErrorCode.ArtifactUnavailable (db_text d e) False) (\<lambda>_. a_return ())
       | Inr reader \<Rightarrow>
           a_then (if offset \<noteq> 0
                   then noteEvent record BytesAccepted
                          (''resuming the transfer at byte '' @ to_string (unat offset))
                   else a_return record) (\<lambda>record1.
           a_then (transfer_loop record1 prepare
                     (if d_faulty d kTruncateTransfer then dr_sizeBytes record1 div 2 else dr_sizeBytes record1)
                     offset
                     \<lparr>tf_duplicate = d_faulty d kDuplicateChunk, tf_reorder = d_faulty d kReorderChunk,
                      tf_corrupt = d_faulty d kCorruptChunk\<rparr> reader) (\<lambda>sent.
           if sent then complete_transfer record1 prepare else a_return ()))))"

definition offerAndTransfer :: "DeliveryRecord \<Rightarrow> unit dact" where
  "offerAndTransfer record =
     a_get (\<lambda>d.
       let prepare = prepare_of d record in
       a_then (d_send_encoded Prepare 0 (encodePrepare prepare)) (\<lambda>_.
       a_then (if dr_state record = Prepared
               then recordTransition record Offered OfferedToTarget Ok ''offer sent to the target'' False
               else a_return record) (\<lambda>record1.
       a_then d_receive (\<lambda>f.
       a_then (offer_response record1 prepare f) (\<lambda>start.
       case start of None \<Rightarrow> a_return () | Some offset \<Rightarrow> transfer_from record1 prepare offset)))))"

subsection \<open>Driving deliveries\<close>

definition kMaxStepsPerDelivery :: nat where
  "kMaxStepsPerDelivery = 16"

definition kMaxSessionErrors :: nat where
  "kMaxSessionErrors = 3"

definition rejection_code :: "DecisionInput \<Rightarrow> DeliveryRecord \<Rightarrow> ErrorCode" where
  "rejection_code input record =
     (if \<not> guaranteeSatisfies (in_targetGuarantee input) (dr_requirement record) then ErrorCode.GuaranteeUnsupported
      else if \<not> in_artifactAvailable input then ErrorCode.ArtifactUnavailable
      else PolicyDenied)"

definition retry_code :: "DeliveryRecord \<Rightarrow> ErrorCode" where
  "retry_code record = (if dr_lastError record = Ok then IoFailure else dr_lastError record)"

definition give_up :: "DeliveryRecord \<Rightarrow> string \<Rightarrow> unit dact" where
  "give_up record reason =
     (if dr_state record \<noteq> DeliveryState.Failed
      then a_then (recordTransition record DeliveryState.Failed FailureReported (dr_lastError record) reason False)
             upsertDelivery
      else a_return ())"

text \<open>One step; the value says whether the loop goes on.\<close>

definition drive_step :: "DeploymentId \<Rightarrow> bool dact" where
  "drive_step deployment =
     a_then stopRequested (\<lambda>stopping.
     if stopping then a_fail Cancelled
     else a_get (\<lambda>d.
       let record = snapshotDelivery d deployment in
       if dr_id record = [] then a_return False
       else
         a_then d_now (\<lambda>now.
         let input = decisionInputFor d record now;
             decision = decide (d_policy d) input (cs_epoch (d_state d)) (dr_generation record)
         in
         case dec_action decision of
           NoAction \<Rightarrow> a_return False
         | Wait \<Rightarrow> a_return False
         | Reject \<Rightarrow>
             a_then (recordRejected record (rejection_code input record) (dec_reason decision)) (\<lambda>_. a_return False)
         | PolicyAction.Retire \<Rightarrow> a_then (recordRetired record (dec_reason decision)) (\<lambda>_. a_return False)
         | GiveUp \<Rightarrow> a_then (give_up record (dec_reason decision)) (\<lambda>_. a_return False)
         | RecordFailureAndRetry \<Rightarrow>
             a_then (recordFailure record (retry_code record) (dec_reason decision) False) (\<lambda>_. a_return False)
         | Activate \<Rightarrow> a_then (activateDelivery record) (\<lambda>_. a_return True)
         | Reconcile \<Rightarrow> a_return False
         | _ \<Rightarrow>
             a_then (if dr_state record = DeliveryState.Failed
                     then recordTransition record Prepared Retried Ok
                            (''retry attempt '' @ to_string (unat (dr_attempt record + 1))
                             @ '' begins; the delivery re-enters at the offer boundary'') False
                     else a_return record) (\<lambda>record1.
             a_then (offerAndTransfer record1) (\<lambda>_. a_return True)))))"

fun drive_steps :: "nat \<Rightarrow> DeploymentId \<Rightarrow> unit dact" where
  "drive_steps 0 deployment = a_return ()"
| "drive_steps (Suc n) deployment =
     a_then (drive_step deployment) (\<lambda>more'. if more' then drive_steps n deployment else a_return ())"

definition driveDelivery :: "DeliveryRecord \<Rightarrow> unit dact" where
  "driveDelivery queued = drive_steps kMaxStepsPerDelivery (dr_id queued)"

fun drive_all :: "nat \<Rightarrow> DeliveryRecord list \<Rightarrow> unit dact" where
  "drive_all errors [] = a_return ()"
| "drive_all errors (queued # rest) =
     a_then stopRequested (\<lambda>stopping.
     if stopping then a_fail Cancelled
     else
       a_then (a_attempt (driveDelivery queued)) (\<lambda>driven.
       case driven of
         Inr _ \<Rightarrow> drive_all errors rest
       | Inl e \<Rightarrow>
           if e = ConnectionClosed \<or> e = ConnectionReset \<or> e = TruncatedFrame \<or> e = PeerIdleTimeout
           then a_fail e
           else if errors + 1 \<ge> kMaxSessionErrors then a_fail e
           else drive_all (errors + 1) rest))"

definition driveDeliveries :: "unit dact" where
  "driveDeliveries =
     a_get (\<lambda>d. drive_all 0
       (sort_records (deliveries_of (sx_target (db_session d)) (\<lambda>r. isPendingState (dr_state r)) d)))"

subsection \<open>A session\<close>

definition emptySessionContext :: "TargetId \<Rightarrow> Endpoint \<Rightarrow> SessionContext" where
  "emptySessionContext target endpoint =
     \<lparr>sx_target = target, sx_endpoint = endpoint, sx_targetTerm = 0, sx_targetIncarnation = unset_identity,
      sx_peerMaxPayload = kDefaultMaxPayloadBytes, sx_report = None, sx_chunksSent = 0\<rparr>"

text \<open>
  \<open>dialled\<close> is the answer of \<^verbatim>\<open>connectTcp\<close>: an error, or what the socket will answer to the writes and the
  reads of the session.
\<close>

definition start_session ::
  "TargetId \<Rightarrow> Endpoint \<Rightarrow> ErrorCode option list \<Rightarrow> bytes result list \<Rightarrow> unit dact" where
  "start_session target endpoint writes reads =
     a_modify (\<lambda>d. d\<lparr>db_session := emptySessionContext target endpoint, db_valid := True,
       db_in := FrameInput_open (maxPayloadBytes (d_policy d)) reads,
       db_out := \<lparr>fo_maxPayloadBytes = maxPayloadBytes (d_policy d), fo_bytesSent = 0, fo_answers = writes,
                  fo_written = []\<rparr>\<rparr>)"

definition say_goodbye :: "unit dact" where
  "say_goodbye =
     a_get (\<lambda>d.
       if db_valid d
       then a_ignore (d_send_encoded Goodbye 0 (encodeGoodbye \<lparr>goodbye_code = Ok, goodbye_reason = ''session complete''\<rparr>))
       else a_return ())"

definition runSession ::
  "TargetId \<Rightarrow> Endpoint \<Rightarrow> (ErrorCode option list \<times> bytes result list) result \<Rightarrow> unit dact" where
  "runSession target endpoint dialled =
     (case dialled of
        Inl e \<Rightarrow> a_get (\<lambda>d. recordSessionFailure target e (db_text d e))
      | Inr (writes, reads) \<Rightarrow>
          a_then (start_session target endpoint writes reads) (\<lambda>_.
          a_then (a_attempt Distributor_handshake) (\<lambda>shaken.
          a_then (case shaken of Inl e \<Rightarrow> a_return (Inl e) | Inr _ \<Rightarrow> a_attempt Distributor_reconcile) (\<lambda>result.
          a_then (case result of
                    Inl e \<Rightarrow> a_get (\<lambda>d. recordSessionFailure target e (db_text d e))
                  | Inr _ \<Rightarrow> a_ignore driveDeliveries) (\<lambda>_.
          a_then (case shaken of Inl _ \<Rightarrow> a_return () | Inr _ \<Rightarrow> say_goodbye) (\<lambda>_.
          a_modify (\<lambda>d. d\<lparr>db_valid := False\<rparr>)))))))"

end
