(* ===== verification/Distributor.thy ===== *)
theory Distributor
  imports DistributorSession Plan
begin

text \<open>
  The distributor, third part: scheduling (\<^verbatim>\<open>mayDial\<close>, \<^verbatim>\<open>pickWork\<close>, \<^verbatim>\<open>applyLocalDecision\<close>,
  \<^verbatim>\<open>workerLoop\<close>), its control surface (\<^verbatim>\<open>resolveDeploymentSet\<close>, \<^verbatim>\<open>ingestArtifact\<close>, \<^verbatim>\<open>submitPlan\<close>,
  \<^verbatim>\<open>retireDeployment\<close> and the queries), starting and stopping (\<^verbatim>\<open>src/distributor.cpp\<close>).
\<close>

subsection \<open>Starting and stopping\<close>

text \<open>\<open>bound\<close> is the answer of the listening socket: an error, or the port it is bound to.\<close>

definition Distributor_start :: "u16 result \<Rightarrow> unit dact" where
  "Distributor_start bound =
     a_get (\<lambda>d.
       if db_running d then a_fail AlreadyExists
       else
         a_then (a_result bound) (\<lambda>port.
         a_modify (\<lambda>d. d\<lparr>db_controlPort := port, db_stopFlag := False, db_shutdownFlag := False,
                         db_running := True\<rparr>)))"

definition d_compact :: "unit dact" where
  "d_compact d =
     (case DurableStore_compact ControllerStateCodec (db_store d) (db_world d) of
        (None, w) \<Rightarrow> (Stopped, d\<lparr>db_world := w\<rparr>)
      | (Some (st, store), w) \<Rightarrow> a_result st (d\<lparr>db_world := w, db_store := store\<rparr>))"

definition Distributor_stop :: "unit dact" where
  "Distributor_stop =
     a_get (\<lambda>d.
       if \<not> db_running d then a_return ()
       else a_then (a_modify (\<lambda>d. d\<lparr>db_running := False, db_stopFlag := True\<rparr>)) (\<lambda>_. a_ignore d_compact))"

definition requestShutdown :: "unit dact" where
  "requestShutdown = a_modify (\<lambda>d. d\<lparr>db_shutdownFlag := True\<rparr>)"

subsection \<open>Scheduling\<close>

definition mayDial :: "Distributor \<Rightarrow> TargetId \<Rightarrow> int \<Rightarrow> bool" where
  "mayDial d target nowMillis \<longleftrightarrow>
     (if target \<in> db_claimedTargets d then False
      else case om_find (db_lastSessionAttemptMillis d) target of
        None \<Rightarrow> True
      | Some before \<Rightarrow> nowMillis - before \<ge> sessionMinIntervalMillis (d_policy d))"

definition kNone :: Endpoint where
  "kNone = \<lparr>ep_host = [], ep_port = 0\<rparr>"

definition Endpoint_isSet :: "Endpoint \<Rightarrow> bool" where
  "Endpoint_isSet e \<longleftrightarrow> ep_host e \<noteq> [] \<and> ep_port e \<noteq> 0"

definition endpointOfTarget :: "ControllerState \<Rightarrow> TargetId \<Rightarrow> Endpoint" where
  "endpointOfTarget s target =
     (case findTarget s target of
        None \<Rightarrow> kNone
      | Some runtime \<Rightarrow>
          if tr_endpoint runtime = [] then kNone
          else (case parseEndpoint (tr_endpoint runtime) of
                  Inl _ \<Rightarrow> kNone
                | Inr parsed \<Rightarrow> if Endpoint_isSet parsed then parsed else kNone))"

definition requestVerification :: "TargetId \<Rightarrow> unit dact" where
  "requestVerification target =
     a_get (\<lambda>d. if findTarget (d_state d) target = None then a_fail NotFound
       else a_modify (\<lambda>d. d\<lparr>db_verificationRequests := om_put target () (db_verificationRequests d)\<rparr>))"

text \<open>Claiming a target for a session.\<close>

definition claim :: "TargetId \<Rightarrow> int \<Rightarrow> Distributor \<Rightarrow> Distributor" where
  "claim target now d =
     d\<lparr>db_claimedTargets := insert target (db_claimedTargets d),
       db_lastSessionAttemptMillis := om_put target now (db_lastSessionAttemptMillis d)\<rparr>"

text \<open>The first verification request that may be dialled.\<close>

fun pick_request :: "Distributor \<Rightarrow> int \<Rightarrow> string list \<Rightarrow> TargetId option" where
  "pick_request d now [] = None"
| "pick_request d now (request # rest) =
     (case parseId request of
        Inl _ \<Rightarrow> pick_request d now rest
      | Inr target \<Rightarrow> if \<not> mayDial d target now then pick_request d now rest else Some target)"

text \<open>One turn of the loop over the deliveries: the target selected so far, the local work, the claims.\<close>

type_synonym picked = "(TargetId \<times> Endpoint) option \<times> DeliveryRecord list \<times> Distributor"

definition pick_target :: "DeliveryRecord \<Rightarrow> int \<Rightarrow> picked \<Rightarrow> picked" where
  "pick_target record now = (\<lambda>(selected, work, d).
     if selected \<noteq> None \<or> \<not> mayDial d (dr_target record) now then (selected, work, d)
     else (Some (dr_target record, endpointOfTarget (d_state d) (dr_target record)), work,
           claim (dr_target record) now d))"

definition pick_delivery :: "int \<Rightarrow> DeliveryRecord \<Rightarrow> picked \<Rightarrow> picked" where
  "pick_delivery now record = (\<lambda>(selected, work, d).
     if \<not> isPendingState (dr_state record) then (selected, work, d)
     else
       (let input = buildDecisionInput (d_state d) (d_policy d) record now;
            decision = decide (d_policy d) input (cs_epoch (d_state d)) (dr_generation record)
        in
        case dec_action decision of
          Offer \<Rightarrow> pick_target record now (selected, work, d)
        | PolicyAction.ResumeTransfer \<Rightarrow> pick_target record now (selected, work, d)
        | Activate \<Rightarrow> pick_target record now (selected, work, d)
        | Reconcile \<Rightarrow> pick_target record now (selected, work, d)
        | Reject \<Rightarrow> (selected, work @ [record], d)
        | PolicyAction.Retire \<Rightarrow> (selected, work @ [record], d)
        | RecordFailureAndRetry \<Rightarrow> (selected, work @ [record], d)
        | GiveUp \<Rightarrow>
            if in_millisSinceLastAttempt input < repairProbeMillis (d_policy d) then (selected, work, d)
            else pick_target record now (selected, work, d)
        | Wait \<Rightarrow> (selected, work, d)
        | NoAction \<Rightarrow> (selected, work, d)))"

text \<open>The part of \<^verbatim>\<open>pickWork\<close> that holds the state mutex.\<close>

definition pick_locked :: "((TargetId \<times> Endpoint) option \<times> DeliveryRecord list) dact" where
  "pick_locked =
     a_then d_now (\<lambda>now.
     a_get (\<lambda>d.
       case pick_request d now (map fst (db_verificationRequests d)) of
         Some target \<Rightarrow>
           a_then (a_modify (\<lambda>d. (claim target now d)
             \<lparr>db_verificationRequests := om_erase target (db_verificationRequests d)\<rparr>)) (\<lambda>_.
           a_return (Some (target, endpointOfTarget (d_state d) target), []))
       | None \<Rightarrow>
           (case fold (pick_delivery now) (om_values (cs_deliveries (d_state d))) (None, [], d) of
              (selected, work, d') \<Rightarrow> a_then (a_modify (\<lambda>_. d')) (\<lambda>_. a_return (selected, work)))))"

definition applyLocalDecision :: "DeliveryRecord \<Rightarrow> unit dact" where
  "applyLocalDecision candidate =
     a_get (\<lambda>d.
       let record = snapshotDelivery d (dr_id candidate) in
       if dr_id record = [] \<or> \<not> isPendingState (dr_state record) then a_return ()
       else
         a_then d_now (\<lambda>now.
         let input = decisionInputFor d record now;
             decision = decide (d_policy d) input (cs_epoch (d_state d)) (dr_generation record)
         in
         case dec_action decision of
           Reject \<Rightarrow> a_ignore (recordRejected record (rejection_code input record) (dec_reason decision))
         | PolicyAction.Retire \<Rightarrow> a_ignore (recordRetired record (dec_reason decision))
         | RecordFailureAndRetry \<Rightarrow>
             a_ignore (recordFailure record (retry_code record) (dec_reason decision) False)
         | _ \<Rightarrow> a_return ()))"

definition pickWork :: "(TargetId \<times> Endpoint) option dact" where
  "pickWork =
     a_then pick_locked (\<lambda>(selected, work).
     a_then (a_each applyLocalDecision work) (\<lambda>_. a_return selected))"

text \<open>
  One turn of the loop of a worker; \<open>dial\<close> is what connecting to an endpoint answers. The value says
  whether the loop goes on.
\<close>

type_synonym dialler = "TargetId \<Rightarrow> Endpoint \<Rightarrow> (ErrorCode option list \<times> bytes result list) result"

definition release :: "TargetId \<Rightarrow> Distributor \<Rightarrow> Distributor" where
  "release target d = d\<lparr>db_claimedTargets := db_claimedTargets d - {target}\<rparr>"

definition worker_turn :: "dialler \<Rightarrow> bool dact" where
  "worker_turn dial =
     a_then stopRequested (\<lambda>stopping.
     if stopping then a_return False
     else
       a_then pickWork (\<lambda>selected.
       case selected of
         None \<Rightarrow> a_return True
       | Some (target, endpoint) \<Rightarrow>
           a_then (runSession target endpoint (dial target endpoint)) (\<lambda>_.
           a_then (a_modify (release target)) (\<lambda>_. a_return True))))"

text \<open>One turn for each answer of \<open>dials\<close>; \<open>True\<close> is a loop that has not ended by then.\<close>

fun workerLoop :: "dialler list \<Rightarrow> bool dact" where
  "workerLoop [] = a_return True"
| "workerLoop (dial # dials) =
     a_then (worker_turn dial) (\<lambda>more'. if more' then workerLoop dials else a_return False)"

subsection \<open>Resolving a deployment set\<close>

record TargetResolution =
  rs_target :: TargetId
  rs_configKey :: ConfigKey
  rs_accepted :: bool
  rs_reason :: string

definition resolve_instruction :: "string set \<Rightarrow> DeploymentInstruction \<Rightarrow> TargetResolution" where
  "resolve_instruction seen instruction =
     (let verdict =
        (if di_target instruction \<in> seen
         then (False, ''the deployment set names the same target more than once'')
         else if di_endpoint instruction \<noteq> []
         then (case parseEndpoint (di_endpoint instruction) of
                 Inl _ \<Rightarrow> (False, ''the instruction endpoint is not a valid host:port pair'')
               | Inr endpoint \<Rightarrow>
                   (True, ''explicitly selected by the deployment set; endpoint '' @ Endpoint_str endpoint))
         else (True, ''explicitly selected by the deployment set; no endpoint supplied''))
      in \<lparr>rs_target = di_target instruction, rs_configKey = di_configKey instruction,
          rs_accepted = fst verdict, rs_reason = snd verdict\<rparr>)"

fun resolve_each :: "string set \<Rightarrow> DeploymentInstruction list \<Rightarrow> TargetResolution list" where
  "resolve_each seen [] = []"
| "resolve_each seen (i # is') = resolve_instruction seen i # resolve_each (insert (di_target i) seen) is'"

definition resolveDeploymentSet :: "Distributor \<Rightarrow> DeploymentPlan \<Rightarrow> TargetResolution list" where
  "resolveDeploymentSet d plan =
     (let resolutions = resolve_each {} (dp_instructions plan) in
      if length resolutions > maxTargets (d_policy d)
      then map (\<lambda>r. r\<lparr>rs_accepted := False,
                       rs_reason := ''the deployment set exceeds the configured target budget''\<rparr>) resolutions
      else resolutions)"

subsection \<open>Submitting a plan\<close>

definition d_ingest :: "string \<Rightarrow> ArtifactMetadata \<Rightarrow> unit dact" where
  "d_ingest path declared d =
     (case ingestFromFile path declared (db_artifacts d) (db_world d) of
        (None, w) \<Rightarrow> (Stopped, d\<lparr>db_world := w\<rparr>)
      | (Some (st, s), w) \<Rightarrow> a_result st (d\<lparr>db_artifacts := s, db_world := w\<rparr>))"

definition ingestArtifact :: "string \<Rightarrow> ArtifactMetadata \<Rightarrow> unit dact" where
  "ingestArtifact path declared =
     a_then (d_ingest path declared) (\<lambda>_.
     a_then (a_encoded (encodeArtifactMetadata declared)) (\<lambda>bs.
     a_then (a_written [w_string kAbsoluteMaxFieldBytes (bytes_string bs)]) (d_commit ArtifactUpsert)))"

definition declared_of :: "DeploymentInstruction \<Rightarrow> int \<Rightarrow> int \<Rightarrow> ArtifactMetadata" where
  "declared_of i producedAt storedAt =
     \<lparr>am_id = di_artifact i, am_revision = di_revision i, am_schema = di_schema i,
      am_schemaVersion = di_schemaVersion i, am_digest = di_digest i, am_sizeBytes = di_sizeBytes i,
      am_mediaType = di_mediaType i, am_producer = di_producer i, am_producedAtMillis = producedAt,
      am_storedAtMillis = storedAt\<rparr>"

definition ingest_source :: "DeploymentInstruction \<Rightarrow> unit dact" where
  "ingest_source i =
     a_get (\<lambda>d.
       if di_sourcePath i \<noteq> [] \<and> \<not> ArtifactStore_contains (db_artifacts d) (di_digest i)
       then a_then d_now (\<lambda>producedAt. a_then d_now (\<lambda>storedAt.
            a_ignore (ingestArtifact (di_sourcePath i) (declared_of i producedAt storedAt))))
       else a_return ())"

definition planned_record :: "DeploymentPlan \<Rightarrow> DeploymentInstruction \<Rightarrow> int \<Rightarrow> DeliveryRecord" where
  "planned_record plan i now =
     emptyDeliveryRecord
       \<lparr>dr_id := deriveDeploymentId (di_target i) (di_configKey i) (di_generation i) (di_digest i),
        dr_setId := dp_setId plan, dr_rolloutSet := dp_rolloutSet plan, dr_target := di_target i,
        dr_key := di_configKey i, dr_artifact := di_artifact i, dr_revision := di_revision i,
        dr_generation := di_generation i, dr_digest := di_digest i, dr_schema := di_schema i,
        dr_schemaVersion := di_schemaVersion i, dr_sizeBytes := di_sizeBytes i,
        dr_requirement := di_requirement i, dr_effectiveGuarantee := di_declaredGuarantee i,
        dr_state := Prepared, dr_createdAtMillis := now, dr_updatedAtMillis := now\<rparr>"

text \<open>What an earlier record of the same delivery hands on.\<close>

definition inherit_record :: "DeliveryRecord \<Rightarrow> DeliveryRecord \<Rightarrow> DeliveryRecord" where
  "inherit_record existing record =
     record\<lparr>dr_attempt := dr_attempt existing, dr_failures := dr_failures existing,
            dr_events := dr_events existing, dr_authorityEpoch := dr_authorityEpoch existing,
            dr_authorityIncarnation := dr_authorityIncarnation existing,
            dr_targetTerm := dr_targetTerm existing, dr_targetIncarnation := dr_targetIncarnation existing,
            dr_state := (if isPendingState (dr_state existing) then dr_state existing else dr_state record)\<rparr>"

definition superseded_by :: "DeliveryRecord \<Rightarrow> Distributor \<Rightarrow> DeliveryRecord list" where
  "superseded_by record d =
     filter (\<lambda>other. dr_id other \<noteq> dr_id record \<and> dr_target other = dr_target record
               \<and> dr_key other = dr_key record \<and> dr_generation other < dr_generation record
               \<and> isPendingState (dr_state other))
       (om_values (cs_deliveries (d_state d)))"

definition retire_superseded :: "DeliveryRecord \<Rightarrow> unit dact" where
  "retire_superseded record =
     a_get (\<lambda>d. a_each (\<lambda>other. a_then
         (recordRetired other (''superseded by generation '' @ to_string (unat (dr_generation record))))
         (\<lambda>_. a_return ()))
       (superseded_by record d))"

text \<open>The history of the lineage, newest first; what exceeds the budget is removed.\<close>

definition doomed_history :: "DeliveryRecord \<Rightarrow> Distributor \<Rightarrow> DeliveryRecord list" where
  "doomed_history record d =
     drop (maxHistoryPerLineage (d_policy d))
       (rev (sort_records (filter (\<lambda>other. dr_target other = dr_target record \<and> dr_key other = dr_key record)
         (om_values (cs_deliveries (d_state d))))))"

definition prune_history :: "DeliveryRecord \<Rightarrow> unit dact" where
  "prune_history record =
     a_get (\<lambda>d. a_each (\<lambda>stale.
         a_then (a_written [w_string kMaxIdentifierLength (dr_id stale)]) (d_commit DeliveryRemove))
       (doomed_history record d))"

definition planned_target :: "TargetRuntime option \<Rightarrow> DeploymentInstruction \<Rightarrow> bool \<Rightarrow> TargetRuntime" where
  "planned_target existing i accepted =
     (let t = (case existing of None \<Rightarrow> emptyTargetRuntime | Some t \<Rightarrow> t);
          t1 = t\<lparr>tr_id := di_target i\<rparr>;
          t2 = (if tr_klass t1 = Unspecified
                then t1\<lparr>tr_klass := (if accepted then di_targetClass i else Unspecified)\<rparr> else t1);
          t3 = (if di_endpoint i \<noteq> [] then t2\<lparr>tr_endpoint := di_endpoint i\<rparr> else t2)
      in if \<not> uint_isSet (tr_term t3) then t3\<lparr>tr_guarantee := di_declaredGuarantee i\<rparr> else t3)"

definition plan_instruction ::
  "DeploymentPlan \<Rightarrow> DeploymentInstruction \<Rightarrow> TargetResolution \<Rightarrow> DeploymentId list dact" where
  "plan_instruction plan i resolution =
     a_then (ingest_source i) (\<lambda>_.
     a_then d_now (\<lambda>now.
     a_get (\<lambda>d.
       let planned = planned_record plan i now; existing = findDelivery (d_state d) (dr_id planned) in
       if (case existing of None \<Rightarrow> False | Some r \<Rightarrow> dr_state r = Acknowledged) then a_return []
       else
         let record = (case existing of None \<Rightarrow> planned | Some r \<Rightarrow> inherit_record r planned) in
         a_then (retire_superseded record) (\<lambda>_.
         a_then (prune_history record) (\<lambda>_.
         a_then (a_get (\<lambda>d. upsertTarget (planned_target (findTarget (d_state d) (di_target i)) i
                                            (rs_accepted resolution)))) (\<lambda>_.
         a_then (upsertDelivery record) (\<lambda>_.
         a_return [dr_id record])))))))"

fun plan_each ::
  "DeploymentPlan \<Rightarrow> (DeploymentInstruction \<times> TargetResolution) list \<Rightarrow> DeploymentId list dact" where
  "plan_each plan [] = a_return []"
| "plan_each plan ((i, resolution) # rest) =
     a_then (plan_instruction plan i resolution) (\<lambda>created.
     a_then (plan_each plan rest) (\<lambda>created'. a_return (created @ created')))"

definition submitPlan :: "DeploymentPlan \<Rightarrow> DeploymentId list dact" where
  "submitPlan plan =
     a_get (\<lambda>d.
       let resolutions = resolveDeploymentSet d plan in
       if length (filter rs_accepted resolutions) = 0 then a_fail InvalidArgument
       else
         a_then (plan_each plan (zip (dp_instructions plan) resolutions)) (\<lambda>created.
         a_get (\<lambda>d.
           if length (pendingDeliveries (d_state d)) > maxLiveDeliveries (d_policy d) then a_fail LimitExceeded
           else a_then d_compactIfNeeded (\<lambda>_. a_return created))))"

definition retireDeployment :: "DeploymentId \<Rightarrow> string \<Rightarrow> unit dact" where
  "retireDeployment deployment reason =
     a_get (\<lambda>d.
       let record = snapshotDelivery d deployment in
       if dr_id record = [] then a_fail NotFound
       else a_then (recordRetired record reason) (\<lambda>_. a_return ()))"

subsection \<open>Queries\<close>

definition Distributor_convergence :: "ConvergenceReport dact" where
  "Distributor_convergence =
     a_then d_now (\<lambda>now. a_get (\<lambda>d. a_return (buildConvergenceReport (d_state d) (d_policy d) now)))"

definition Distributor_explain :: "TargetId \<Rightarrow> string dact" where
  "Distributor_explain target =
     a_then d_now (\<lambda>now. a_get (\<lambda>d. a_return (explainTarget (d_state d) (d_policy d) target now)))"

definition Distributor_deliveries :: "Distributor \<Rightarrow> DeliveryRecord list" where
  "Distributor_deliveries d = om_values (cs_deliveries (d_state d))"

definition Distributor_targets :: "Distributor \<Rightarrow> TargetRuntime list" where
  "Distributor_targets d = om_values (cs_targets (d_state d))"

definition Distributor_artifacts :: "Distributor \<Rightarrow> ArtifactMetadata list result" where
  "Distributor_artifacts d = ArtifactStore_list (db_artifacts d)"

definition verifyArtifacts :: "(Digest \<times> status) list dact" where
  "verifyArtifacts d =
     (case ArtifactStore_verifyAll (db_artifacts d) (db_world d) of
        ((results, s), w) \<Rightarrow> (Returned results, d\<lparr>db_artifacts := s, db_world := w\<rparr>))"

definition statusText :: "Distributor \<Rightarrow> string" where
  "statusText d =
     (let s = d_state d in
      ''node-id: '' @ cs_nodeId s @ ''\<newline>''
      @ ''authority-epoch: '' @ to_string (unat (cs_epoch s)) @ ''\<newline>''
      @ ''incarnation: '' @ toHex (cs_incarnation s) @ ''\<newline>''
      @ ''authenticated-peer-identity: ''
      @ (if dso_authenticate (db_options d) then ''required'' else ''DISABLED (degraded guarantee)'') @ ''\<newline>''
      @ ''control-endpoint: '' @ dso_controlHost (db_options d) @ '':'' @ to_string (unat (db_controlPort d)) @ ''\<newline>''
      @ ''targets: '' @ to_string (length (cs_targets s)) @ ''\<newline>''
      @ ''deliveries: '' @ to_string (length (cs_deliveries s)) @ ''\<newline>''
      @ ''artifacts: '' @ to_string (ArtifactStore_artifactCount (db_artifacts d))
      @ '' ('' @ to_string (unat (ArtifactStore_usedBytes (db_artifacts d))) @ '' bytes)\<newline>''
      @ ''durable-journal-bytes: '' @ to_string (DurableStore_journalBytes (db_store d) (db_world d)) @ ''\<newline>''
      @ DistributorPolicy_render (d_policy d))"

end
