(* ===== verification/Control.thy ===== *)
theory Control
  imports Distributor
begin

text \<open>
  The inspection and operations channel of \<^verbatim>\<open>include/cf/control.hpp\<close> and \<^verbatim>\<open>src/control.cpp\<close>: the command
  line, the commands, the server side of a connection and the client side. The server uses the connection fields
  of the distributor for the connection it serves; the client has a state of its own.
\<close>

subsection \<open>Rendering\<close>

definition joinArguments :: "string list \<Rightarrow> nat \<Rightarrow> string" where
  "joinArguments arguments from =
     fold (\<lambda>a out. out @ (if out \<noteq> [] then '' '' else []) @ a) (drop from arguments) []"

definition renderTargetLine :: "TargetRuntime \<Rightarrow> string" where
  "renderTargetLine t =
     tr_id t @ '' class='' @ targetClassName (tr_klass t)
     @ '' guarantee='' @ applyGuaranteeName (tr_guarantee t)
     @ '' term='' @ to_string (unat (tr_term t))
     @ '' incarnation='' @ (if OpaqueIdentity_isSet (tr_incarnation t) then take 8 (toHex (tr_incarnation t))
                           else ''unset'')
     @ '' committed-generation='' @ (if uint_isSet (tr_committedGeneration t)
                                    then to_string (unat (tr_committedGeneration t)) else ''none'')
     @ '' committed-digest='' @ (if Digest_isSet (tr_committedDigest t) then shortDigest (tr_committedDigest t)
                                else ''none'')
     @ '' endpoint='' @ (if tr_endpoint t = [] then ''-'' else tr_endpoint t)
     @ '' contact-current='' @ (if tr_contactEstablishedThisProcess t then ''yes'' else ''no'')
     @ '' sessions='' @ to_string (unat (tr_sessionsEstablished t))
     @ '' restarts='' @ to_string (unat (tr_restartsObserved t))
     @ (if tr_applyPrepared t then '' prepare-window=open'' else [])"

definition renderDeliveryLine :: "DeliveryRecord \<Rightarrow> string" where
  "renderDeliveryLine r =
     dr_id r @ '' target='' @ dr_target r @ '' key='' @ dr_key r
     @ '' generation='' @ to_string (unat (dr_generation r))
     @ '' digest='' @ shortDigest (dr_digest r)
     @ '' state='' @ deliveryStateName (dr_state r)
     @ '' attempt='' @ to_string (unat (dr_attempt r))
     @ '' failures='' @ to_string (unat (dr_failures r))
     @ '' guarantee='' @ applyGuaranteeName (dr_effectiveGuarantee r)
     @ '' requirement='' @ guaranteeRequirementName (dr_requirement r)
     @ (if dr_lastError r \<noteq> Ok then '' last-error='' @ errorCodeName (dr_lastError r) else [])
     @ (if dr_acknowledgedFromReconcile r then '' evidence=reconciliation'' else [])"

definition renderControlCommands :: string where
  "renderControlCommands =
     ''commands:\<newline>''
     @ ''  status                       controller identity, budgets and durable sizes\<newline>''
     @ ''  targets                      every known target and its authoritative state\<newline>''
     @ ''  deliveries                   every delivery record with its lifecycle state\<newline>''
     @ ''  pending                      transfers and acknowledgements still outstanding\<newline>''
     @ ''  divergence                   generation divergence per (target, config key)\<newline>''
     @ ''  converge                     deterministic convergence summary\<newline>''
     @ ''  explain <target>             full explanation for one target\<newline>''
     @ ''  artifacts                    artifact inventory\<newline>''
     @ ''  verify-artifacts             recompute every stored artifact digest\<newline>''
     @ ''  verify <target>              open one verification session against a target\<newline>''
     @ ''  plan <path>                  load and submit a deployment plan file\<newline>''
     @ ''  retire <deployment-id> [why] retire a delivery\<newline>''
     @ ''  lifecycle                    the delivery transition relation\<newline>''
     @ ''  shutdown                     stop the controller cleanly\<newline>''"

subsection \<open>The command line\<close>

record ControlRequest =
  cr_command :: string
  cr_arguments :: "string list"

record LineParser =
  lp_request :: ControlRequest
  lp_current :: string
  lp_inQuotes :: bool
  lp_haveToken :: bool

definition emptyLineParser :: LineParser where
  "emptyLineParser =
     \<lparr>lp_request = \<lparr>cr_command = [], cr_arguments = []\<rparr>, lp_current = [], lp_inQuotes = False,
      lp_haveToken = False\<rparr>"

definition push_token :: "LineParser \<Rightarrow> ControlRequest" where
  "push_token p =
     (let r = lp_request p in
      if \<not> lp_haveToken p then r
      else if cr_command r = [] then r\<lparr>cr_command := lp_current p\<rparr>
      else r\<lparr>cr_arguments := cr_arguments r @ [lp_current p]\<rparr>)"

definition end_token :: "LineParser \<Rightarrow> LineParser" where
  "end_token p =
     (if lp_haveToken p then p\<lparr>lp_request := push_token p, lp_current := [], lp_haveToken := False\<rparr> else p)"

definition add_char :: "char \<Rightarrow> LineParser \<Rightarrow> LineParser" where
  "add_char c p = p\<lparr>lp_current := lp_current p @ [c], lp_haveToken := True\<rparr>"

fun parse_chars :: "string \<Rightarrow> LineParser \<Rightarrow> LineParser" where
  "parse_chars [] p = p"
| "parse_chars (c # cs) p =
     (if c = CHR 0x22 then parse_chars cs (p\<lparr>lp_inQuotes := \<not> lp_inQuotes p, lp_haveToken := True\<rparr>)
      else if \<not> lp_inQuotes p \<and> (c = CHR '' '' \<or> c = CHR 0x09) then parse_chars cs (end_token p)
      else if c = CHR 0x5C \<and> lp_inQuotes p
      then (case cs of
              [] \<Rightarrow> add_char c p
            | escaped # rest \<Rightarrow> parse_chars rest (add_char escaped p))
      else parse_chars cs (add_char c p))"

definition parseControlLine :: "string \<Rightarrow> ControlRequest result" where
  "parseControlLine line =
     (let p = parse_chars line emptyLineParser; r = push_token p in
      if lp_inQuotes p then Inl MalformedInput
      else if cr_command r = [] then Inl MissingField
      else if length (cr_arguments r) > kMaxControlArguments then Inl LimitExceeded
      else Inr r)"

subsection \<open>Commands\<close>

definition awaiting :: "DeliveryState \<Rightarrow> string" where
  "awaiting st =
     (if st = Applied then '' awaiting=activation-acknowledgement''
      else if st = Offered \<or> st = Transferred then '' awaiting=transfer-completion''
      else if st = Verified \<or> st = Staged then '' awaiting=activation'' else [])"

definition divergence_line :: "LineageConvergence \<Rightarrow> string" where
  "divergence_line l =
     lc_target l @ '' key='' @ lc_key l @ '' desired='' @ to_string (unat (lc_desiredGeneration l))
     @ '' current='' @ (if uint_isSet (lc_currentGeneration l) then to_string (unat (lc_currentGeneration l))
                       else ''none'')
     @ '' state='' @ deliveryStateName (lc_state l)
     @ '' outcome='' @ (if lc_converged l then ''converged'' else ''not-converged'') @ ''\<newline>''"

definition lines_of :: "('a \<Rightarrow> string) \<Rightarrow> 'a list \<Rightarrow> string" where
  "lines_of f xs = concat (map (\<lambda>x. f x @ ''\<newline>'') xs)"

definition control_pending :: "Distributor \<Rightarrow> string" where
  "control_pending d =
     (let pending = filter (\<lambda>r. isPendingState (dr_state r)) (Distributor_deliveries d) in
      ''pending: '' @ to_string (length pending) @ ''\<newline>''
      @ lines_of (\<lambda>r. renderDeliveryLine r @ awaiting (dr_state r)) pending)"

definition control_verify_artifacts :: "string dact" where
  "control_verify_artifacts =
     a_then verifyArtifacts (\<lambda>results.
     a_get (\<lambda>d.
       let failures = length (filter (\<lambda>e. snd e \<noteq> Inr ()) results) in
       a_return (lines_of (\<lambda>(digest, st). take 12 (Digest_hex digest) @ '' ''
                    @ (case st of Inr _ \<Rightarrow> ''ok'' | Inl e \<Rightarrow> db_text d e)) results
                 @ ''verified: '' @ to_string (length results - failures)
                 @ '' failures: '' @ to_string failures @ ''\<newline>'')))"

definition control_plan :: "string \<Rightarrow> string dact" where
  "control_plan path =
     a_then (d_io (loadDeploymentPlanFile path)) (\<lambda>loaded.
     a_then (a_result loaded) (\<lambda>plan.
     a_then (submitPlan plan) (\<lambda>created.
     a_return (''plan '' @ dp_setId plan @ '' accepted, deliveries='' @ to_string (length created) @ ''\<newline>''
       @ lines_of (\<lambda>x. ''  '' @ x) created))))"

definition control_retire :: "string list \<Rightarrow> string dact" where
  "control_retire arguments =
     a_then (a_result (parseId (hd arguments))) (\<lambda>deployment.
     let given = joinArguments arguments 1;
         reason = (if given = [] then ''retired by operator request'' else given) in
     a_then (retireDeployment deployment reason) (\<lambda>_.
     a_return (''retired '' @ deployment @ ''\<newline>'')))"

definition executeControlCommand :: "ControlRequest \<Rightarrow> string dact" where
  "executeControlCommand request =
     (let command = cr_command request; arguments = cr_arguments request in
      if command = ''status'' then a_get (\<lambda>d. a_return (statusText d))
      else if command = ''targets''
      then a_get (\<lambda>d. a_return (''targets: '' @ to_string (length (Distributor_targets d)) @ ''\<newline>''
             @ lines_of renderTargetLine (Distributor_targets d)))
      else if command = ''deliveries''
      then a_get (\<lambda>d. a_return (''deliveries: '' @ to_string (length (Distributor_deliveries d)) @ ''\<newline>''
             @ lines_of renderDeliveryLine (Distributor_deliveries d)))
      else if command = ''pending'' then a_get (\<lambda>d. a_return (control_pending d))
      else if command = ''divergence'' \<or> command = ''converge''
      then a_then Distributor_convergence (\<lambda>report. a_return
             (if command = ''divergence''
              then ''fingerprint: '' @ ConvergenceReport_fingerprint report @ ''\<newline>''
                   @ concat (map divergence_line (rp_lineages report))
              else ConvergenceReport_render report))
      else if command = ''explain''
      then (if arguments = [] then a_fail MissingField
            else a_then (a_result (parseId (hd arguments))) Distributor_explain)
      else if command = ''artifacts''
      then a_get (\<lambda>d. a_then (a_result (Distributor_artifacts d)) (\<lambda>ms.
             a_return (''artifacts: '' @ to_string (length ms) @ ''\<newline>'' @ lines_of renderArtifactMetadata ms)))
      else if command = ''verify-artifacts'' then control_verify_artifacts
      else if command = ''plan''
      then (if arguments = [] then a_fail MissingField else control_plan (hd arguments))
      else if command = ''retire''
      then (if arguments = [] then a_fail MissingField else control_retire arguments)
      else if command = ''verify''
      then (if arguments = [] then a_fail MissingField
            else a_then (a_result (parseId (hd arguments))) (\<lambda>target.
                 a_then (requestVerification target) (\<lambda>_.
                 a_return (''verification session requested for '' @ target @ ''\<newline>''))))
      else if command = ''lifecycle'' then a_return renderTransitionTable
      else if command = ''shutdown'' then a_return ''shutdown requested\<newline>''
      else a_fail NotFound)"

subsection \<open>The server\<close>

definition accept_control :: "ErrorCode option list \<Rightarrow> bytes result list \<Rightarrow> unit dact" where
  "accept_control writes reads =
     a_modify (\<lambda>d. d\<lparr>db_in := FrameInput_open kDefaultMaxPayloadBytes reads,
       db_out := \<lparr>fo_maxPayloadBytes = kDefaultMaxPayloadBytes, fo_bytesSent = 0, fo_answers = writes,
                  fo_written = []\<rparr>\<rparr>)"

definition control_hello :: "unit dact" where
  "control_hello =
     a_then d_receive (\<lambda>f.
     if fh_type (fr_header f) \<noteq> ControlHello then a_fail UnexpectedMessage
     else
       a_then (a_result (decodeControlHello (fr_payload f))) (\<lambda>hello.
       a_get (\<lambda>d.
         a_then (if dso_authenticate (db_options d)
                 then a_result (verifyAuthenticated (fr_payload f) (dso_key (db_options d)))
                 else a_return ()) (\<lambda>_.
         a_then (d_io draw_random) (\<lambda>incarnation.
         d_send_encoded ControlHelloAck kFrameFlagResponse (encodeControlHelloAck
           \<lparr>controlHelloAck_nodeId = dso_nodeId (db_options d), controlHelloAck_epoch = cs_epoch (d_state d),
            controlHelloAck_incarnation = incarnation, controlHelloAck_nonce = controlHello_nonce hello,
            controlHelloAck_authTag = replicate kAuthTagBytes 0\<rparr>))))))"

text \<open>One request; the value says whether the connection goes on.\<close>

definition control_response :: "string result \<Rightarrow> unit dact" where
  "control_response body =
     a_get (\<lambda>d. d_send_encoded ControlResponse kFrameFlagResponse (encodeControlResponse
       (case body of
          Inr text \<Rightarrow> \<lparr>controlResponse_code = Ok, controlResponse_body = text\<rparr>
        | Inl e \<Rightarrow> \<lparr>controlResponse_code = e, controlResponse_body = db_text d e\<rparr>)))"

definition control_request :: "Frame \<Rightarrow> bool dact" where
  "control_request f =
     (if fh_type (fr_header f) = Goodbye then a_return False
      else if fh_type (fr_header f) \<noteq> FrameType.ControlRequest then a_fail UnexpectedMessage
      else
        a_then (a_result (decodeControlRequest (fr_payload f))) (\<lambda>m.
        a_then (a_attempt (executeControlCommand
            \<lparr>cr_command = controlRequest_command m, cr_arguments = controlRequest_arguments m\<rparr>)) (\<lambda>body.
        a_then (control_response body) (\<lambda>_.
        if controlRequest_command m = ''shutdown''
        then a_then requestShutdown (\<lambda>_. a_return False) else a_return True))))"

lemma inp_commits [input_rules]: "inp.at d d_compactIfNeeded" "inp.at d (d_ingest path m)"
  by (auto simp: inp.at_def a_result_def a_return_def a_fail_def d_compactIfNeeded_def d_ingest_def
      split: prod.splits sum.splits option.splits)

lemma inp_ingest [input_rules]: "inp.at d (ingestArtifact path m)" "inp.at d (ingest_source i)"
  by (auto simp: ingestArtifact_def ingest_source_def intro!: input_rules)

lemma inp_lineage [input_rules]: "inp.at d (retire_superseded r)" "inp.at d (prune_history r)"
  by (auto simp: retire_superseded_def prune_history_def intro!: input_rules)

lemma inp_plan_instruction [input_rules]: "inp.at d (plan_instruction plan i res)"
  by (auto simp: plan_instruction_def Let_def intro!: input_rules)

lemma inp_plan_each [input_rules]: "inp.at d (plan_each plan irs)"
  by (induction plan irs arbitrary: d rule: plan_each.induct) (auto intro!: input_rules)

lemma inp_submit [input_rules]: "inp.at d (submitPlan plan)" "inp.at d (retireDeployment x reason)"
  by (auto simp: submitPlan_def retireDeployment_def Let_def intro!: input_rules)

lemma inp_queries [input_rules]:
  "inp.at d (requestVerification target)" "inp.at d verifyArtifacts" "inp.at d requestShutdown"
  by (auto simp: requestVerification_def requestShutdown_def intro!: input_rules inp.at_modify)
     (auto simp: inp.at_def verifyArtifacts_def split: prod.splits)

lemma inp_execute [input_rules]: "inp.at d (executeControlCommand request)"
  by (auto simp: executeControlCommand_def Distributor_convergence_def Distributor_explain_def
      control_verify_artifacts_def control_plan_def control_retire_def Let_def intro!: input_rules)

lemma inp_control_request: "inp.at d (control_request f)"
  by (auto simp: control_request_def control_response_def intro!: input_rules)

function serve_requests :: "unit dact" where
  "serve_requests d =
     (case d_receive d of
        (Returned f, d') \<Rightarrow>
          (case control_request f d' of
             (Returned True, d'') \<Rightarrow> serve_requests d''
           | (Returned False, d'') \<Rightarrow> (Returned (), d'')
           | (Failed e, d'') \<Rightarrow> (Failed e, d'')
           | (Exited c, d'') \<Rightarrow> (Exited c, d'')
           | (Stopped, d'') \<Rightarrow> (Stopped, d''))
      | (Failed e, d') \<Rightarrow> (Failed e, d')
      | (Exited c, d') \<Rightarrow> (Exited c, d')
      | (Stopped, d') \<Rightarrow> (Stopped, d'))"
  by pat_completeness auto

termination
proof (relation "measure (\<lambda>d. input_size (db_in d))", goal_cases)
  case (2 d)
  then show ?case
    using d_receive_smaller [of d] inp.atD [OF inp_control_request] by (metis in_measure)
qed simp

declare serve_requests.simps [simp del]

definition serveControlConnection :: "ErrorCode option list \<Rightarrow> bytes result list \<Rightarrow> unit dact" where
  "serveControlConnection writes reads =
     a_then (accept_control writes reads) (\<lambda>_.
     a_then control_hello (\<lambda>_. serve_requests))"

text \<open>
  \<^verbatim>\<open>controlLoop\<close>: \<open>accepted\<close> lists what the listener answers, a connection or an error. The value says whether the
  loop was still running when the answers ended.
\<close>

fun controlLoop :: "(ErrorCode option list \<times> bytes result list) result list \<Rightarrow> bool dact" where
  "controlLoop [] = a_return True"
| "controlLoop (accepted # rest) =
     a_then stopRequested (\<lambda>stopping.
     if stopping then a_return False
     else case accepted of
       Inl e \<Rightarrow> if e = ShuttingDown then a_return False else controlLoop rest
     | Inr (writes, reads) \<Rightarrow> a_then (a_ignore (serveControlConnection writes reads)) (\<lambda>_. controlLoop rest))"

subsection \<open>The client\<close>

record ControlClient =
  cc_in :: FrameInput
  cc_out :: FrameOutput
  cc_world :: world

definition c_send :: "FrameType \<Rightarrow> bytes \<Rightarrow> (ControlClient, unit) action" where
  "c_send t payload c =
     (case FramedConnection_send t 0 payload (cc_out c) of (st, out) \<Rightarrow> a_result st (c\<lparr>cc_out := out\<rparr>))"

definition c_receive :: "(ControlClient, Frame) action" where
  "c_receive c =
     (case FramedConnection_receive (cc_in c) of (r, i) \<Rightarrow> a_result r (c\<lparr>cc_in := i\<rparr>))"

definition c_random :: "(ControlClient, bytes) action" where
  "c_random c = (case draw_random (cc_world c) of (x, w) \<Rightarrow> (Returned x, c\<lparr>cc_world := w\<rparr>))"

definition client_hello :: "bytes \<Rightarrow> bool \<Rightarrow> (ControlClient, ControlHelloAckMessage) action" where
  "client_hello key authenticate =
     a_then c_random (\<lambda>nonce.
     a_then (a_encoded (encodeControlHello \<lparr>controlHello_clientName = ''cfctl'', controlHello_nonce = nonce,
               controlHello_authTag = replicate kAuthTagBytes 0\<rparr>)) (\<lambda>bs.
     a_then (if authenticate then a_result (sealAuthenticated bs key) else a_return bs) (\<lambda>sealed.
     a_then (c_send ControlHello sealed) (\<lambda>_.
     a_then c_receive (\<lambda>f.
     if fh_type (fr_header f) \<noteq> ControlHelloAck then a_fail UnexpectedMessage
     else a_result (decodeControlHelloAck (fr_payload f)))))))"

definition client_request :: "ControlRequest \<Rightarrow> (ControlClient, ControlResponseMessage) action" where
  "client_request request =
     a_then (a_encoded (encodeControlRequest
       \<lparr>controlRequest_command = cr_command request, controlRequest_arguments = cr_arguments request\<rparr>)) (\<lambda>bs.
     a_then (c_send FrameType.ControlRequest bs) (\<lambda>_.
     a_then c_receive (\<lambda>f.
     if fh_type (fr_header f) \<noteq> ControlResponse then a_fail UnexpectedMessage
     else a_result (decodeControlResponse (fr_payload f)))))"

definition runControlCommand :: "bytes \<Rightarrow> bool \<Rightarrow> ControlRequest \<Rightarrow> (ControlClient, string) action" where
  "runControlCommand key authenticate request =
     a_then (client_hello key authenticate) (\<lambda>ack.
     a_then (client_request request) (\<lambda>response.
     a_then (a_ignore (a_then (a_encoded (encodeGoodbye
         \<lparr>goodbye_code = Ok, goodbye_reason = ''control session complete''\<rparr>)) (c_send Goodbye))) (\<lambda>_.
     if controlResponse_code response \<noteq> Ok then a_fail (controlResponse_code response)
     else a_return (controlResponse_body response
       @ ''node: '' @ controlHelloAck_nodeId ack @ '' epoch='' @ to_string (unat (controlHelloAck_epoch ack))
       @ ''\<newline>''))))"

end
