(* ===== verification/DistributorInvariants.thy ===== *)
theory DistributorInvariants
  imports Control
begin

text \<open>
  What the operations of the distributor do to its durable records. \<open>evolves T I\<close> is the relation between the
  states before and after any operation of a session with target \<open>T\<close> on the deliveries \<open>I\<close>: deliveries move only
  along legal transitions and keep what identifies them, the boot term recorded for \<open>T\<close> never
  decreases, everything else is left alone. A record that an operation works on is a copy; \<open>current\<close> says that it still
  agrees with the stored one.
\<close>

subsection \<open>The relation\<close>

definition same_delivery :: "DeliveryRecord \<Rightarrow> DeliveryRecord \<Rightarrow> bool" where
  "same_delivery r r' \<longleftrightarrow>
     dr_id r' = dr_id r \<and> dr_setId r' = dr_setId r \<and> dr_rolloutSet r' = dr_rolloutSet r
     \<and> dr_target r' = dr_target r \<and> dr_key r' = dr_key r \<and> dr_artifact r' = dr_artifact r
     \<and> dr_revision r' = dr_revision r \<and> dr_generation r' = dr_generation r \<and> dr_digest r' = dr_digest r
     \<and> dr_schema r' = dr_schema r \<and> dr_schemaVersion r' = dr_schemaVersion r
     \<and> dr_sizeBytes r' = dr_sizeBytes r \<and> dr_requirement r' = dr_requirement r
     \<and> dr_effectiveGuarantee r' = dr_effectiveGuarantee r \<and> dr_createdAtMillis r' = dr_createdAtMillis r"

definition advances :: "DeliveryRecord \<Rightarrow> DeliveryRecord \<Rightarrow> bool" where
  "advances r r' \<longleftrightarrow> same_delivery r r' \<and> isLegalTransition\<^sup>*\<^sup>* (dr_state r) (dr_state r')"

definition evolves :: "TargetId \<Rightarrow> DeploymentId set \<Rightarrow> Distributor \<Rightarrow> Distributor \<Rightarrow> bool" where
  "evolves T I d d' \<longleftrightarrow>
     db_options d' = db_options d \<and> db_claimedTargets d' = db_claimedTargets d
     \<and> db_artifacts d' = db_artifacts d \<and> sx_target (db_session d') = sx_target (db_session d)
     \<and> cs_epoch (d_state d') = cs_epoch (d_state d) \<and> cs_incarnation (d_state d') = cs_incarnation (d_state d)
     \<and> (controller_ok (d_state d) \<longrightarrow> controller_ok (d_state d'))
     \<and> (\<forall>i. i \<notin> I \<longrightarrow> findDelivery (d_state d') i = findDelivery (d_state d) i)
     \<and> (\<forall>i. rel_option advances (findDelivery (d_state d) i) (findDelivery (d_state d') i))
     \<and> (\<forall>t. t \<noteq> T \<longrightarrow> findTarget (d_state d') t = findTarget (d_state d) t)
     \<and> (\<forall>t. findTarget (d_state d) T = Some t \<longrightarrow>
           (\<exists>t'. findTarget (d_state d') T = Some t' \<and> tr_term t \<le> tr_term t'))"

lemma same_delivery_refl [simp]: "same_delivery r r"
  by (simp add: same_delivery_def)

lemma same_delivery_trans: "same_delivery r s \<Longrightarrow> same_delivery s t \<Longrightarrow> same_delivery r t"
  by (simp add: same_delivery_def)

lemma advances_refl [simp]: "advances r r"
  by (simp add: advances_def)

lemma advances_trans: "advances r s \<Longrightarrow> advances s t \<Longrightarrow> advances r t"
  by (auto simp: advances_def intro: same_delivery_trans)

lemma evolves_refl [simp]: "evolves T I d d"
  by (auto simp: evolves_def option.rel_refl)

lemma rel_option_trans:
  "(\<And>x y z. R x y \<Longrightarrow> R y z \<Longrightarrow> R x z) \<Longrightarrow> rel_option R a b \<Longrightarrow> rel_option R b c \<Longrightarrow> rel_option R a c"
  by (cases a; cases b; cases c) auto

lemma evolves_trans:
  assumes "evolves T I d1 d2" and "evolves T I d2 d3"
  shows "evolves T I d1 d3"
proof -
  have "rel_option advances (findDelivery (d_state d1) i) (findDelivery (d_state d3) i)" for i
  proof (rule rel_option_trans [of advances])
    show "rel_option advances (findDelivery (d_state d1) i) (findDelivery (d_state d2) i)"
      using assms(1) by (simp add: evolves_def)
    show "rel_option advances (findDelivery (d_state d2) i) (findDelivery (d_state d3) i)"
      using assms(2) by (simp add: evolves_def)
  qed (rule advances_trans)
  moreover have "\<exists>t'. findTarget (d_state d3) T = Some t' \<and> tr_term t \<le> tr_term t'"
    if "findTarget (d_state d1) T = Some t" for t
  proof -
    from that assms(1) obtain u where u: "findTarget (d_state d2) T = Some u" "tr_term t \<le> tr_term u"
      by (auto simp: evolves_def)
    with assms(2) obtain v where "findTarget (d_state d3) T = Some v" "tr_term u \<le> tr_term v"
      by (auto simp: evolves_def)
    with u show ?thesis by auto
  qed
  ultimately show ?thesis using assms by (simp add: evolves_def)
qed

lemma evolves_mono: "evolves T I d d' \<Longrightarrow> I \<subseteq> J \<Longrightarrow> evolves T J d d'"
  unfolding evolves_def by blast

interpretation ev: action_relation "evolves T I" for T I
  by unfold_locales (simp, rule evolves_trans)

lemma ev_mono: "ev.at T I d m \<Longrightarrow> I \<subseteq> J \<Longrightarrow> ev.at T J d m"
  unfolding ev.at_def by (blast intro: evolves_mono)

lemma evolves_frame:
  assumes "evolves T I d d'"
  shows "controller_ok (d_state d) \<Longrightarrow> controller_ok (d_state d')" and "db_options d' = db_options d"
  using assms by (simp_all add: evolves_def)

text \<open>Operations that do not touch the durable state.\<close>

named_theorems ev_rules \<open>operations that let the records evolve\<close>

declare ev.at_intros [ev_rules]

lemma ev_basic [ev_rules]:
  "ev.at T I d d_now" "ev.at T I d stopRequested" "ev.at T I d (d_io m)" "ev.at T I d (d_send ft flags payload)"
  "ev.at T I d d_receive"
  by (auto simp: ev.at_def evolves_def option.rel_refl d_state_def a_result_def a_return_def a_fail_def d_now_def
      stopRequested_def d_io_def d_send_def d_receive_def split: prod.splits sum.splits)

lemma ev_send_encoded [ev_rules]: "ev.at T I d (d_send_encoded ft flags x)"
  by (auto simp: d_send_encoded_def intro!: ev_rules)

subsection \<open>Commits\<close>

lemma apply_delivery:
  assumes "delivery_ok r" and "encodeDeliveryRecord r = Some (Inr bs)"
  shows "controller_apply s DeliveryUpsert bs = (s\<lparr>cs_deliveries := om_put (dr_id r) r (cs_deliveries s)\<rparr>, Inr ())"
proof -
  have "decodeDeliveryRecord bs = Inr r" using assms by (simp add: decodeDeliveryRecord_iff)
  then have "readDeliveryRecord bs = Inr (r, [])"
    by (auto simp: decodeDeliveryRecord_def codec_dests rd_eq_Inr_iff r_requireEnd_def split: if_splits)
  then show ?thesis
    by (simp add: controller_apply_def st_read_def st_end_def r_requireEnd_def cf_try_def)
qed

lemma apply_target:
  assumes "target_ok (without_contact t)" and "encodeTargetRuntime t = Some (Inr bs)"
  shows "controller_apply s TargetUpsert bs =
    (s\<lparr>cs_targets := om_put (tr_id t) (keep_contact (without_contact t) (cs_targets s)) (cs_targets s)\<rparr>, Inr ())"
proof -
  have "encodeTargetRuntime (without_contact t) = Some (Inr bs)" using assms(2) by (simp add: encodeTargetRuntime_def)
  then have "decodeTargetRuntime bs = Inr (without_contact t)" using assms(1) by (simp add: decodeTargetRuntime_iff)
  then have "readTargetRuntime bs = Inr (without_contact t, [])"
    by (auto simp: decodeTargetRuntime_def codec_dests rd_eq_Inr_iff r_requireEnd_def split: if_splits)
  then show ?thesis
    by (simp add: controller_apply_def st_read_def st_end_def r_requireEnd_def cf_try_def)
qed

text \<open>A commit that fails leaves the state as it was or, when the append fails, already changed.\<close>

definition store_only :: "Distributor \<Rightarrow> Distributor \<Rightarrow> bool" where
  "store_only d d' \<longleftrightarrow>
     db_options d' = db_options d \<and> db_claimedTargets d' = db_claimedTargets d \<and> db_artifacts d' = db_artifacts d
     \<and> db_session d' = db_session d \<and> db_in d' = db_in d"

lemma d_commit_cases:
  assumes "d_commit t payload d = (x, d')"
  shows "store_only d d'
     \<and> (d_state d' = d_state d \<and> x \<noteq> Returned () \<or> d_state d' = fst (controller_apply (d_state d) t payload))"
  using assms
  by (auto simp: store_only_def d_commit_def DurableStore_commit_def ControllerStateCodec_def d_state_def a_result_def a_return_def
      a_fail_def split: prod.splits sum.splits if_splits)

lemma upsertDelivery_cases:
  assumes "upsertDelivery r d = (x, d')" and "delivery_ok r"
  shows "store_only d d'
     \<and> (d_state d' = d_state d \<and> x \<noteq> Returned ()
        \<or> d_state d' = (d_state d)\<lparr>cs_deliveries := om_put (dr_id r) r (cs_deliveries (d_state d))\<rparr>)"
proof -
  consider bs where "encodeDeliveryRecord r = Some (Inr bs)" | e where "encodeDeliveryRecord r = Some (Inl e)"
    | "encodeDeliveryRecord r = None" by (metis not_None_eq sum.exhaust)
  then show ?thesis
  proof cases
    case (1 bs)
    then have "d_commit DeliveryUpsert bs d = (x, d')"
      using assms(1) by (simp add: upsertDelivery_def a_then_def a_encoded_def a_result_def a_return_def)
    then show ?thesis using d_commit_cases apply_delivery [OF assms(2) 1] by (metis fst_conv)
  qed (use assms(1) in \<open>auto simp: store_only_def upsertDelivery_def a_then_def a_encoded_def a_result_def a_fail_def\<close>)
qed

lemma upsertTarget_cases:
  assumes "upsertTarget t d = (x, d')" and "target_ok (without_contact t)"
  shows "store_only d d'
     \<and> (d_state d' = d_state d \<and> x \<noteq> Returned ()
        \<or> d_state d' = (d_state d)\<lparr>cs_targets := om_put (tr_id t)
             (keep_contact (without_contact t) (cs_targets (d_state d))) (cs_targets (d_state d))\<rparr>)"
proof -
  consider bs where "encodeTargetRuntime t = Some (Inr bs)" | e where "encodeTargetRuntime t = Some (Inl e)"
    | "encodeTargetRuntime t = None" by (metis not_None_eq sum.exhaust)
  then show ?thesis
  proof cases
    case (1 bs)
    then have "d_commit TargetUpsert bs d = (x, d')"
      using assms(1) by (simp add: upsertTarget_def a_then_def a_encoded_def a_result_def a_return_def)
    then show ?thesis using d_commit_cases apply_target [OF assms(2) 1] by (metis fst_conv)
  qed (use assms(1) in \<open>auto simp: store_only_def upsertTarget_def a_then_def a_encoded_def a_result_def a_fail_def\<close>)
qed

subsection \<open>Current records\<close>

definition current :: "TargetId \<Rightarrow> Distributor \<Rightarrow> DeliveryRecord \<Rightarrow> bool" where
  "current T d r \<longleftrightarrow>
     controller_ok (d_state d) \<and> delivery_ok r \<and> dr_target r = T
     \<and> (\<exists>r0. findDelivery (d_state d) (dr_id r) = Some r0 \<and> same_delivery r0 r \<and> dr_state r0 = dr_state r)"

lemma ev_upsertDelivery:
  assumes "current T d r" and "advances r r'" and "delivery_ok r'"
  shows "ev.at T {dr_id r} d (upsertDelivery r')"
    and "upsertDelivery r' d = (Returned (), d') \<Longrightarrow> current T d' r'"
proof -
  obtain r0 where r0: "findDelivery (d_state d) (dr_id r) = Some r0" "same_delivery r0 r" "dr_state r0 = dr_state r"
    and ok: "controller_ok (d_state d)" and T: "dr_target r = T" using assms(1) by (auto simp: current_def)
  have adv: "advances r0 r'" using assms(2) r0 same_delivery_trans by (auto simp: advances_def)
  have i: "dr_id r' = dr_id r" and T': "dr_target r' = T" using assms(2) T by (auto simp: advances_def same_delivery_def)
  let ?s = "(d_state d)\<lparr>cs_deliveries := om_put (dr_id r) r' (cs_deliveries (d_state d))\<rparr>"
  have ok': "controller_ok ?s" using controller_ok_updates(3) [OF ok assms(3)] i by simp
  show "ev.at T {dr_id r} d (upsertDelivery r')"
    unfolding ev.at_def
  proof (intro allI impI)
    fix x d'
    assume "upsertDelivery r' d = (x, d')"
    from upsertDelivery_cases [OF this assms(3)] i
    have "store_only d d'" and "d_state d' = d_state d \<or> d_state d' = ?s" by auto
    then show "evolves T {dr_id r} d d'"
      using r0 adv ok' by (auto simp: evolves_def store_only_def findDelivery_def findTarget_def option.rel_refl)
  qed
  assume "upsertDelivery r' d = (Returned (), d')"
  from upsertDelivery_cases [OF this assms(3)] i have "d_state d' = ?s" by simp
  then show "current T d' r'" using ok' assms(3) T' i by (simp add: current_def findDelivery_def)
qed

lemma current_evolves:
  assumes "current T d r" and "evolves T I d d'" and "dr_id r \<notin> I"
  shows "current T d' r"
  using assms by (auto simp: current_def evolves_def)

lemma current_state: "current T d r \<Longrightarrow> d_state d' = d_state d \<Longrightarrow> current T d' r"
  by (simp add: current_def)

lemma current_refine: "current T d r \<Longrightarrow> delivery_ok r' \<Longrightarrow> same_delivery r r' \<Longrightarrow> dr_state r' = dr_state r \<Longrightarrow> current T d r'"
  unfolding current_def by (metis same_delivery_def same_delivery_trans)

subsection \<open>Operations on one record\<close>

text \<open>
  \<open>steps T d r m\<close>: started on the current record \<open>r\<close> of a delivery to \<open>T\<close>, the operation \<open>m\<close> changes that
  delivery only, and the record it returns is current again.
\<close>

definition steps :: "TargetId \<Rightarrow> Distributor \<Rightarrow> DeliveryRecord \<Rightarrow> DeliveryRecord dact \<Rightarrow> bool" where
  "steps T d r m \<longleftrightarrow>
     ev.at T {dr_id r} d m \<and> (\<forall>r' d'. m d = (Returned r', d') \<longrightarrow> current T d' r' \<and> same_delivery r r')"

lemma steps_ev: "steps T d r m \<Longrightarrow> ev.at T {dr_id r} d m"
  by (simp add: steps_def)

lemma stepsD: "steps T d r m \<Longrightarrow> m d = (Returned r', d') \<Longrightarrow> current T d' r' \<and> same_delivery r r'"
  by (simp add: steps_def)

lemma steps_then:
  assumes "steps T d r m"
    and "\<And>r' d'. m d = (Returned r', d') \<Longrightarrow> current T d' r' \<Longrightarrow> same_delivery r r' \<Longrightarrow> steps T d' r' (k r')"
  shows "steps T d r (a_then m k)"
proof -
  have next_step: "steps T d' r' (k r')" "same_delivery r r'" if "m d = (Returned r', d')" for r' d'
    using assms(2) [OF that] stepsD [OF assms(1) that] by auto
  have "ev.at T {dr_id r} d' (k r')" if "m d = (Returned r', d')" for r' d'
    using steps_ev [OF next_step(1) [OF that]] next_step(2) [OF that] by (simp add: same_delivery_def)
  then have "ev.at T {dr_id r} d (a_then m k)"
    using steps_ev [OF assms(1)] by (intro ev.at_then)
  moreover have "current T d'' r'' \<and> same_delivery r r''" if "a_then m k d = (Returned r'', d'')" for r'' d''
    using that next_step stepsD same_delivery_trans by (elim a_thenE) blast
  ultimately show ?thesis by (simp add: steps_def)
qed

lemma steps_return: "current T d r \<Longrightarrow> steps T d r (a_return r)"
  by (auto simp: steps_def a_return_def intro: ev.at_pure)

lemma steps_fail: "steps T d r (a_fail e)"
  by (auto simp: steps_def a_fail_def intro: ev.at_pure)

lemma steps_result: "(\<And>v. x = Inr v \<Longrightarrow> steps T d r (k v)) \<Longrightarrow> steps T d r (a_then (a_result x) k)"
  by (cases x) (simp_all add: steps_def a_result_def a_then_def a_return_def a_fail_def ev.at_def)

lemma steps_upsert:
  assumes "current T d r" and "advances r r'" and "delivery_ok r'"
  shows "steps T d r (a_then (upsertDelivery r') (\<lambda>_. a_return r'))"
  using ev_upsertDelivery [OF assms] assms(2)
  by (auto simp: steps_def a_return_def advances_def intro!: ev_rules elim!: a_thenE)

lemma steps_get: "steps T d r (f d) \<Longrightarrow> steps T d r (a_get f)"
  by (simp add: steps_def ev.at_def a_get_def)

lemma d_now_range: "d_now d = (Returned n, d') \<Longrightarrow> i64_range n \<and> d_state d' = d_state d"
  using sint_range_size [where 'a = 64] by (auto simp: d_now_def d_state_def i64_range_def word_size)

lemma steps_now:
  assumes "current T d r"
    and "\<And>n d'. i64_range n \<Longrightarrow> d_state d' = d_state d \<Longrightarrow> current T d' r \<Longrightarrow> steps T d' r (k n)"
  shows "steps T d r (a_then d_now k)"
proof -
  have k: "steps T d' r (k n)" if "d_now d = (Returned n, d')" for n d'
    using that assms current_state d_now_range by blast
  show ?thesis
    using k by (auto simp: steps_def intro!: ev_rules elim!: a_thenE)
qed

text \<open>A copy with changed counters is as current as the copy it was made from.\<close>

lemma steps_refine:
  assumes "steps T d r' m" and "same_delivery r r'"
  shows "steps T d r m"
proof -
  have "dr_id r' = dr_id r" using assms(2) by (simp add: same_delivery_def)
  then show ?thesis using assms same_delivery_trans unfolding steps_def by metis
qed

lemma push_event_ok:
  "delivery_ok r \<Longrightarrow> event_ok e \<Longrightarrow>
     length (push_event e (dr_events r)) \<le> kMaxEventsPerDelivery \<and> list_all event_ok (push_event e (dr_events r))"
  by (auto simp: push_event_def delivery_ok_def list_all_iff dest: in_set_dropD)

lemma recordTransition_steps:
  assumes "current T d r"
  shows "steps T d r (recordTransition r to kind code detail b)"
  unfolding recordTransition_def Let_def
proof (intro steps_result steps_get steps_now [OF assms] steps_upsert)
  fix v n d'
  assume "applyTransition (dr_state r) to = Inr v" and n: "i64_range n"
    and st: "d_state d' = d_state d" and cur: "current T d' r"
  then have legal: "isLegalTransition (dr_state r) to" by (simp add: applyTransition_def split: if_splits)
  show "current T d' r" by (rule cur)
  let ?e = "\<lparr>ev_kind = kind, ev_from = dr_state r, ev_to = to, ev_generation = dr_generation r,
              ev_digest = dr_digest r, ev_code = code, ev_directive = retryDirectiveFor code,
              ev_authorityEpoch = cs_epoch (d_state d), ev_authorityIncarnation = cs_incarnation (d_state d),
              ev_targetTerm = dr_targetTerm r, ev_targetIncarnation = dr_targetIncarnation r,
              ev_fromReconciliation = b, ev_atMillis = n, ev_detail = take kMaxDeliveryDetailBytes detail\<rparr>"
  have ok: "delivery_ok r" "controller_ok (d_state d)" using assms by (auto simp: current_def)
  then have "event_ok ?e" using n by (simp add: event_ok_def delivery_ok_def controller_ok_def)
  with push_event_ok [OF ok(1)] ok n
  show "delivery_ok (r\<lparr>dr_state := to, dr_updatedAtMillis := n, dr_authorityEpoch := cs_epoch (d_state d),
                    dr_authorityIncarnation := cs_incarnation (d_state d), dr_lastError := code,
                    dr_lastDirective := retryDirectiveFor code, dr_lastDetail := take kMaxDeliveryDetailBytes detail,
                    dr_events := push_event ?e (dr_events r)\<rparr>)"
    by (auto simp: delivery_ok_def controller_ok_def)
qed (auto simp: advances_def same_delivery_def applyTransition_def split: if_splits)

lemma noteEvent_steps:
  assumes "current T d r"
  shows "steps T d r (noteEvent r kind detail)"
  unfolding noteEvent_def Let_def
proof (intro steps_get steps_now [OF assms])
  fix n d1
  assume n: "i64_range n" and st: "d_state d1 = d_state d" and cur: "current T d1 r"
  let ?e = "\<lparr>ev_kind = kind, ev_from = dr_state r, ev_to = dr_state r, ev_generation = dr_generation r,
              ev_digest = dr_digest r, ev_code = Ok, ev_directive = DoNotRetry,
              ev_authorityEpoch = cs_epoch (d_state d), ev_authorityIncarnation = cs_incarnation (d_state d),
              ev_targetTerm = dr_targetTerm r, ev_targetIncarnation = dr_targetIncarnation r,
              ev_fromReconciliation = False, ev_atMillis = n, ev_detail = take kMaxDeliveryDetailBytes detail\<rparr>"
  have ok: "delivery_ok r" "controller_ok (d_state d)" using assms by (auto simp: current_def)
  then have "event_ok ?e" using n by (simp add: event_ok_def delivery_ok_def controller_ok_def)
  with push_event_ok [OF ok(1)] ok
  have "i64_range m \<Longrightarrow> delivery_ok (r\<lparr>dr_events := push_event ?e (dr_events r), dr_updatedAtMillis := m\<rparr>)" for m
    by (auto simp: delivery_ok_def)
  then show "steps T d1 r (a_then d_now (\<lambda>m. a_then (upsertDelivery
      (r\<lparr>dr_events := push_event ?e (dr_events r), dr_updatedAtMillis := m\<rparr>))
      (\<lambda>_. a_return (r\<lparr>dr_events := push_event ?e (dr_events r), dr_updatedAtMillis := m\<rparr>))))"
    by (intro steps_now [OF cur] steps_upsert) (auto simp: advances_def same_delivery_def)
qed

lemma delivery_ok_counters [simp]:
  "delivery_ok (r\<lparr>dr_failures := f\<rparr>) = delivery_ok r" "delivery_ok (r\<lparr>dr_attempt := a\<rparr>) = delivery_ok r"
  "delivery_ok (r\<lparr>dr_lastError := code\<rparr>) = delivery_ok r" "delivery_ok (r\<lparr>dr_lastDirective := v\<rparr>) = delivery_ok r"
  "delivery_ok (r\<lparr>dr_lastDetail := t\<rparr>) = delivery_ok r" "delivery_ok (r\<lparr>dr_superseded := b\<rparr>) = delivery_ok r"
  "delivery_ok (r\<lparr>dr_acknowledgedFromReconcile := b\<rparr>) = delivery_ok r"
  by (simp_all add: delivery_ok_def)

lemma current_ok: "current T d r \<Longrightarrow> delivery_ok r" "current T d r \<Longrightarrow> controller_ok (d_state d)"
  by (simp_all add: current_def)

lemma recordFailure_steps:
  assumes "current T d r"
  shows "steps T d r (recordFailure r code detail b)"
proof -
  have "steps T d r (if P then noteEvent r' FailureReported t else recordTransition r' DeliveryState.Failed FailureReported code t False)"
    if "r' = r\<lparr>dr_failures := f, dr_attempt := a, dr_lastError := code, dr_lastDirective := v, dr_lastDetail := t\<rparr>"
    for P r' f a v t
  proof -
    have same: "same_delivery r r'" using that by (simp add: same_delivery_def)
    moreover have "current T d r'"
      using current_refine [OF assms _ same] current_ok [OF assms] that by simp
    ultimately show ?thesis by (auto intro: steps_refine noteEvent_steps recordTransition_steps)
  qed
  then show ?thesis by (auto simp: recordFailure_def Let_def steps_fail split: option.splits)
qed

lemma upsert_refined:
  assumes "current T d r" and "same_delivery r r'" and "dr_state r' = dr_state r" and "delivery_ok r'"
  shows "steps T d r (a_then (upsertDelivery r') (\<lambda>_. a_return r'))"
  using assms by (intro steps_upsert) (auto simp: advances_def)

lemma recordRejected_steps:
  assumes "current T d r"
  shows "steps T d r (recordRejected r code detail)"
  using noteEvent_steps [OF assms]
  by (auto simp: recordRejected_def Let_def same_delivery_def dest: current_ok
      intro!: steps_then recordTransition_steps assms upsert_refined)

lemma recordRetired_steps:
  assumes "current T d r"
  shows "steps T d r (recordRetired r reason)"
  by (auto simp: recordRetired_def Let_def same_delivery_def dest: current_ok
      intro!: steps_then recordTransition_steps assms upsert_refined steps_return)

lemma acknowledge_steps:
  assumes "current T d r"
  shows "steps T d r (acknowledge r b detail)"
  by (auto simp: acknowledge_def Let_def same_delivery_def current_ok [OF assms] dest: current_ok
      intro!: steps_then recordTransition_steps assms upsert_refined steps_return)

subsection \<open>Records of targets\<close>

lemma ev_upsertTarget:
  assumes "controller_ok (d_state d)" and "target_ok (without_contact t)" and "tr_id t = T"
    and "\<And>t0. findTarget (d_state d) T = Some t0 \<Longrightarrow> tr_term t0 \<le> tr_term t"
  shows "ev.at T I d (upsertTarget t)"
    and "upsertTarget t d = (Returned (), d') \<Longrightarrow>
      \<exists>t'. findTarget (d_state d') T = Some t' \<and> tr_term t' = tr_term t"
    and "upsertTarget t d = (x, d') \<Longrightarrow> cs_deliveries (d_state d') = cs_deliveries (d_state d)"
proof -
  let ?s = "(d_state d)\<lparr>cs_targets := om_put (tr_id t) (keep_contact (without_contact t) (cs_targets (d_state d)))
      (cs_targets (d_state d))\<rparr>"
  have ok: "controller_ok ?s" using controller_ok_updates(1) [OF assms(1,2)] by simp
  have tm: "tr_term (keep_contact (without_contact t) m) = tr_term t" for m
    by (simp add: keep_contact_def without_contact_def split: option.splits)
  show "ev.at T I d (upsertTarget t)"
    unfolding ev.at_def
  proof (intro allI impI)
    fix x d'
    assume "upsertTarget t d = (x, d')"
    from upsertTarget_cases [OF this assms(2)] have "store_only d d'" "d_state d' = d_state d \<or> d_state d' = ?s" by auto
    then show "evolves T I d d'"
      using ok tm assms(3,4) by (auto simp: evolves_def store_only_def findDelivery_def findTarget_def option.rel_refl)
  qed
  show "\<exists>t'. findTarget (d_state d') T = Some t' \<and> tr_term t' = tr_term t" if "upsertTarget t d = (Returned (), d')"
    using upsertTarget_cases [OF that assms(2)] tm assms(3) by (auto simp: findTarget_def)
  show "cs_deliveries (d_state d') = cs_deliveries (d_state d)" if "upsertTarget t d = (x, d')"
    using upsertTarget_cases [OF that assms(2)] by auto
qed

lemma target_stored_ok:
  "controller_ok s \<Longrightarrow> findTarget s T = Some t \<Longrightarrow> target_ok (without_contact t) \<and> tr_id t = T"
  by (auto simp: controller_ok_def findTarget_def list_all_iff dest: keyed_find keyed_inv om_find_Some_mem)
     (metis keyed_inv om_values_iff)

lemma target_ok_contact [simp]:
  "without_contact (t\<lparr>tr_contactEstablishedThisProcess := c\<rparr>) = without_contact t"
  by (simp add: without_contact_def)

lemma ev_markContact:
  assumes "i64_range n"
  shows "ev.at T I d (markContactCurrent T c n)"
  unfolding markContactCurrent_def
proof (rule ev.at_modify)
  let ?f = "\<lambda>s. case findTarget s T of None \<Rightarrow> s
     | Some t \<Rightarrow> s\<lparr>cs_targets := om_put T (t\<lparr>tr_contactEstablishedThisProcess := c,
          tr_lastContactMillis := (if n > 0 then n else tr_lastContactMillis t)\<rparr>) (cs_targets s)\<rparr>"
  have "controller_ok (?f s)" if ok: "controller_ok s" for s
  proof (cases "findTarget s T")
    case (Some t)
    let ?t = "t\<lparr>tr_contactEstablishedThisProcess := c, tr_lastContactMillis := (if n > 0 then n else tr_lastContactMillis t)\<rparr>"
    have "target_ok (without_contact ?t)" "tr_id ?t = T"
      using target_stored_ok [OF ok Some] assms by (auto simp: target_ok_def without_contact_def)
    then show ?thesis
      using Some ok keyed_put [of tr_id "cs_targets s" ?t]
      by (auto simp: controller_ok_def om_all_put keyed_inv [of tr_id])
  qed (use ok in simp)
  then show "evolves T I d (d_with_state ?f d)"
    by (auto simp: evolves_def d_with_state_def d_state_def findTarget_def findDelivery_def option.rel_refl
        split: option.splits)
qed

subsection \<open>Several records\<close>

definition held :: "TargetId \<Rightarrow> Distributor \<Rightarrow> DeploymentId \<Rightarrow> bool" where
  "held T d i \<longleftrightarrow> controller_ok (d_state d) \<and> (\<exists>r. findDelivery (d_state d) i = Some r \<and> dr_target r = T)"

lemma held_current: "current T d r \<Longrightarrow> held T d (dr_id r)"
  by (auto simp: current_def held_def same_delivery_def)

lemma held_evolves: "held T d i \<Longrightarrow> evolves T I d d' \<Longrightarrow> held T d' i"
  unfolding held_def evolves_def by (auto simp: advances_def same_delivery_def dest!: spec [of _ i] elim!: option.rel_cases)

lemma stored_current:
  assumes "controller_ok (d_state d)" and "findDelivery (d_state d) i = Some r" and "dr_target r = T"
  shows "current T d r \<and> dr_id r = i"
proof -
  have "dr_id r = i" using assms by (auto simp: controller_ok_def findDelivery_def dest: keyed_find)
  moreover have "delivery_ok r"
    using assms unfolding controller_ok_def findDelivery_def list_all_iff by (metis keyed_inv om_values_iff)
  ultimately show ?thesis using assms by (simp add: current_def)
qed

lemma snapshot_current: "held T d i \<Longrightarrow> current T d (snapshotDelivery d i) \<and> dr_id (snapshotDelivery d i) = i"
  using stored_current by (auto simp: held_def snapshotDelivery_def)

lemma deliveries_of_current:
  assumes "controller_ok (d_state d)" and "r \<in> set (deliveries_of T P d)"
  shows "current T d r"
proof -
  from assms(2) have T: "dr_target r = T" and "r \<in> set (om_values (cs_deliveries (d_state d)))"
    by (auto simp: deliveries_of_def)
  moreover have "om_inv (cs_deliveries (d_state d))" using assms(1) by (auto simp: controller_ok_def dest: keyed_inv)
  ultimately obtain i where "findDelivery (d_state d) i = Some r" by (auto simp: om_values_iff findDelivery_def)
  then show ?thesis using stored_current [OF assms(1) _ T] by simp
qed

lemma deliveries_of_distinct: "controller_ok (d_state d) \<Longrightarrow> distinct (map dr_id (deliveries_of T P d))"
proof -
  assume "controller_ok (d_state d)"
  then have k: "keyed dr_id (cs_deliveries (d_state d))" by (simp add: controller_ok_def)
  then have "map dr_id (om_values (cs_deliveries (d_state d))) = map fst (cs_deliveries (d_state d))"
    by (auto simp: om_values_def keyed_def list_all_iff)
  then have "distinct (map dr_id (om_values (cs_deliveries (d_state d))))"
    using om_inv_distinct keyed_inv [OF k] by metis
  then show ?thesis unfolding deliveries_of_def by (rule distinct_map_filter)
qed

lemma ev_each:
  assumes "\<And>r. r \<in> set rs \<Longrightarrow> current T d r" and "distinct (map dr_id rs)"
    and "\<And>r d. r \<in> set rs \<Longrightarrow> current T d r \<Longrightarrow> ev.at T {dr_id r} d (f r)"
  shows "ev.at T (dr_id ` set rs) d (a_each f rs)"
  using assms
proof (induction rs arbitrary: d)
  case (Cons r rs)
  have first: "ev.at T {dr_id r} d (f r)" using Cons.prems by simp
  have "ev.at T (dr_id ` set rs) d' (a_each f rs)" if "f r d = (Returned u, d')" for u d'
  proof (rule Cons.IH)
    fix r'
    assume r': "r' \<in> set rs"
    then have "dr_id r' \<notin> {dr_id r}" using Cons.prems(2) by (metis distinct.simps(2) image_eqI image_set list.simps(9) singletonD)
    then show "current T d' r'"
      using r' Cons.prems(1) current_evolves ev.atD [OF first that] by (metis list.set_intros(2))
  qed (use Cons.prems in auto)
  then show ?case
    using first by (auto intro!: ev.at_then intro: ev_mono)
qed (simp add: ev.at_pure)

lemma rearm_evolves:
  assumes "controller_ok (d_state d)"
  shows "ev.at T {i. held T d i} d (rearmAfterRestart T newTerm)"
  unfolding rearmAfterRestart_def
proof (intro ev.at_get, rule ev_mono [OF ev_each])
  let ?rs = "deliveries_of T (\<lambda>r. dr_state r = DeliveryState.Failed) d"
  show "current T d r" if "r \<in> set ?rs" for r using deliveries_of_current [OF assms that] .
  then show "dr_id ` set ?rs \<subseteq> {i. held T d i}" using held_current by auto
  show "distinct (map dr_id ?rs)" by (rule deliveries_of_distinct [OF assms])
  fix r d1
  assume cur: "current T d1 r"
  let ?r = "r\<lparr>dr_failures := 0, dr_attempt := dr_attempt r + 1\<rparr>"
  have same: "same_delivery r ?r" by (simp add: same_delivery_def)
  have "current T d1 ?r" using current_refine [OF cur _ same] current_ok(1) [OF cur] by simp
  then have "steps T d1 r (noteEvent ?r Retried t)" for t
    using same by (blast intro: steps_refine noteEvent_steps)
  then show "ev.at T {dr_id r} d1 (a_then (noteEvent ?r Retried t) (\<lambda>_. a_return ()))" for t
    by (auto intro!: ev.at_then ev.at_pure steps_ev)
qed

end
