(* ===== verification/DistributorDrive.thy ===== *)
theory DistributorDrive
  imports DistributorInvariants
begin

text \<open>
  A session with a target lets the records of its deliveries evolve: every operation of
  \<^verbatim>\<open>handshake\<close>, \<^verbatim>\<open>reconcile\<close> and \<^verbatim>\<open>driveDeliveries\<close>, whatever the target answers and wherever the operation
  stops, respects the relation \<open>evolves\<close>.
\<close>

subsection \<open>Steps of a session\<close>

definition idle :: "Distributor \<Rightarrow> Distributor \<Rightarrow> bool" where
  "idle d d' \<longleftrightarrow>
     db_options d' = db_options d \<and> db_claimedTargets d' = db_claimedTargets d \<and> db_artifacts d' = db_artifacts d
     \<and> sx_target (db_session d') = sx_target (db_session d) \<and> d_state d' = d_state d"

interpretation idl: action_relation idle
  by unfold_locales (simp_all add: idle_def)

named_theorems idle_rules \<open>operations that leave the records alone\<close>

declare idl.at_intros [idle_rules]

lemma idle_evolves: "idle d d' \<Longrightarrow> evolves T I d d'"
  by (simp add: idle_def evolves_def option.rel_refl)

lemma idle_current: "idle d d' \<Longrightarrow> current T d r \<Longrightarrow> current T d' r"
  by (simp add: idle_def current_def)

lemma idle_basic [idle_rules]:
  "idl.at d d_now" "idl.at d stopRequested" "idl.at d (d_io m)" "idl.at d (d_send ft flags payload)"
  "idl.at d d_receive"
  by (auto simp: idl.at_def idle_def d_state_def a_result_def a_return_def a_fail_def d_now_def
      stopRequested_def d_io_def d_send_def d_receive_def split: prod.splits sum.splits)

lemma idle_session [idle_rules]:
  "sx_target (f d) = sx_target (db_session d) \<Longrightarrow> idl.at d (a_modify (\<lambda>d. d\<lparr>db_session := f d\<rparr>))"
  "idl.at d (a_modify (\<lambda>d. d\<lparr>db_valid := b\<rparr>))"
  by (auto intro!: idl.at_modify simp: idle_def d_state_def)

lemma idle_sends [idle_rules]: "idl.at d (d_send_encoded ft flags x)" "idl.at d (send_chunk p n data fl)"
  by (auto simp: d_send_encoded_def send_chunk_def Let_def intro!: idle_rules)

lemma idle_exchange [idle_rules]:
  "idl.at d (resolve_prepare_window r)" "idl.at d say_goodbye" "idl.at d send_hello" "idl.at d receive_hello_ack"
  "idl.at d (check_hello_ack ack payload)" "idl.at d (send_confirm payload)" "idl.at d receive_report"
  by (auto simp: resolve_prepare_window_def say_goodbye_def send_hello_def receive_hello_ack_def check_hello_ack_def
      send_confirm_def receive_report_def Let_def intro!: idle_rules split: option.splits)

lemma ev_of_idle: "idl.at d m \<Longrightarrow> ev.at T I d m"
  by (auto simp: idl.at_def ev.at_def intro: idle_evolves)

text \<open>Rules that carry the current record through a sequence of operations.\<close>

lemma ev_idle_then:
  assumes "idl.at d m" and "current T d r"
    and "\<And>x d'. m d = (Returned x, d') \<Longrightarrow> current T d' r \<Longrightarrow> ev.at T {dr_id r} d' (k x)"
  shows "ev.at T {dr_id r} d (a_then m k)"
  using assms idle_current idl.atD [OF assms(1)] by (blast intro: ev.at_then ev_of_idle)

lemma ev_steps_then:
  assumes "steps T d r m"
    and "\<And>r' d'. current T d' r' \<Longrightarrow> same_delivery r r' \<Longrightarrow> ev.at T {dr_id r'} d' (k r')"
  shows "ev.at T {dr_id r} d (a_then m k)"
proof (rule ev.at_then [OF steps_ev [OF assms(1)]])
  fix r' d'
  assume "m d = (Returned r', d')"
  from stepsD [OF assms(1) this] have "current T d' r'" "same_delivery r r'" by auto
  then show "ev.at T {dr_id r} d' (k r')" using assms(2) by (metis same_delivery_def)
qed

lemmas record_steps = recordTransition_steps noteEvent_steps recordFailure_steps recordRejected_steps
  recordRetired_steps acknowledge_steps

lemma adoptActivation_steps:
  assumes "current T d r"
  shows "steps T d r (adoptActivation r b detail)"
  unfolding adoptActivation_def
proof (rule steps_then)
  show "steps T d r (if dr_state r \<noteq> Applied \<and> dr_state r \<noteq> Acknowledged
             then recordTransition r Applied ActivationReported Ok detail b else a_return r)"
    using assms by (simp add: record_steps steps_return)
next
  fix r1 d1
  assume cur: "current T d1 r1"
  have "steps T d1 r1 (a_then d_now (\<lambda>now. a_then (upsertTarget (t\<lparr>tr_committedGeneration := dr_generation r1,
      tr_committedDigest := dr_digest r1, tr_committedArtifact := dr_artifact r1, tr_lastContactMillis := now\<rparr>))
      (\<lambda>_. a_return r1)))" if t: "findTarget (d_state d1) T = Some t" for t
  proof (rule steps_now [OF cur])
    fix n d2
    assume n: "i64_range n" and st: "d_state d2 = d_state d1" and cur2: "current T d2 r1"
    let ?t = "t\<lparr>tr_committedGeneration := dr_generation r1,
      tr_committedDigest := dr_digest r1, tr_committedArtifact := dr_artifact r1, tr_lastContactMillis := n\<rparr>"
    have ok: "controller_ok (d_state d2)" "delivery_ok r1" using current_ok [OF cur2] by auto
    have "target_ok (without_contact ?t)" "tr_id ?t = T"
      using target_stored_ok [of "d_state d2" T t] ok t st n
      by (auto simp: target_ok_def without_contact_def delivery_ok_def optionalIdentifierI)
    note up = ev_upsertTarget [OF ok(1) this]
    have low: "\<And>t0. findTarget (d_state d2) T = Some t0 \<Longrightarrow> tr_term t0 \<le> tr_term ?t" using t st by simp
    have "current T d3 r1" if u: "upsertTarget ?t d2 = (Returned (), d3)" for d3
      using cur2 up(3) [OF low u] evolves_frame(1) [OF ev.atD [OF up(1) [OF low] u]]
      by (auto simp: current_def findDelivery_def)
    then show "steps T d2 r1 (a_then (upsertTarget ?t) (\<lambda>_. a_return r1))"
      using up(1) [OF low] by (auto simp: steps_def a_return_def intro!: ev_rules elim!: a_thenE)
  qed
  moreover have "dr_target r1 = T" using cur by (simp add: current_def)
  ultimately show "steps T d1 r1 (a_get (\<lambda>d. case findTarget (d_state d) (dr_target r1) of
       None \<Rightarrow> a_return r1
     | Some runtime \<Rightarrow>
         if uint_isSet (tr_committedGeneration runtime) \<and> tr_committedGeneration runtime > dr_generation r1
         then a_return r1
         else
           a_then d_now (\<lambda>now.
           a_then (upsertTarget (runtime\<lparr>tr_committedGeneration := dr_generation r1,
                     tr_committedDigest := dr_digest r1, tr_committedArtifact := dr_artifact r1,
                     tr_lastContactMillis := now\<rparr>)) (\<lambda>_.
           a_return r1))))"
    using cur by (auto intro!: steps_get steps_return split: option.splits)
qed

lemma ev_unit: "steps T d r m \<Longrightarrow> ev.at T {dr_id r} d (a_then m (\<lambda>_. a_return x))"
  by (auto intro!: ev.at_then ev.at_pure steps_ev)

lemma ev_adopt_and_acknowledge:
  assumes "current T d r"
  shows "ev.at T {dr_id r} d (adopt_and_acknowledge r b adopted acked)"
  unfolding adopt_and_acknowledge_def
proof (rule ev_steps_then [OF adoptActivation_steps [OF assms]], rule ev.at_get)
  fix r1 d1
  assume cur: "current T d1 r1" and "same_delivery r r1"
  then have i: "dr_id r1 = dr_id r" by (simp add: same_delivery_def)
  then have "current T d1 (snapshotDelivery d1 (dr_id r))" "dr_id (snapshotDelivery d1 (dr_id r)) = dr_id r"
    using snapshot_current [OF held_current [OF cur]] by simp_all
  with i show "ev.at T {dr_id r1} d1 (a_then (acknowledge (snapshotDelivery d1 (dr_id r)) b acked) (\<lambda>_. a_return ()))"
    using ev_unit [OF acknowledge_steps] by metis
qed

lemma ev_result_then: "(\<And>v. x = Inr v \<Longrightarrow> ev.at T I d (k v)) \<Longrightarrow> ev.at T I d (a_then (a_result x) k)"
  by (cases x) (simp_all add: a_result_def a_then_def a_return_def a_fail_def ev.at_def)

lemma ev_reconcile_one:
  assumes "current T d r"
  shows "ev.at T {dr_id r} d (reconcile_one r)"
  unfolding reconcile_one_def Let_def
proof (intro ev.at_if ev.at_pure ev.at_get, goal_cases)
  case 1
  show ?case
    by (cases "rec_outcome (reconcileDelivery (reconcile_input (db_session d) r))")
      (simp_all add: ev.at_pure ev_unit ev_adopt_and_acknowledge assms recordRetired_steps ev_of_idle idle_exchange)
qed

lemma ev_nack: "current T d r \<Longrightarrow> ev.at T {dr_id r} d (nack_failure r payload)"
  unfolding nack_failure_def by (intro ev_result_then ev_unit recordFailure_steps)

lemma ev_take: "current T d r \<Longrightarrow> ev.at T {dr_id r} d (take_acknowledgement r ack)"
  unfolding take_acknowledgement_def by (intro ev.at_get ev.at_if ev.at_pure ev_adopt_and_acknowledge)

text \<open>Operations that hand a record on, or end the delivery for this session.\<close>

definition hands_on :: "TargetId \<Rightarrow> Distributor \<Rightarrow> DeliveryRecord \<Rightarrow> DeliveryRecord option dact \<Rightarrow> bool" where
  "hands_on T d r m \<longleftrightarrow>
     ev.at T {dr_id r} d m \<and> (\<forall>r' d'. m d = (Returned (Some r'), d') \<longrightarrow> current T d' r' \<and> same_delivery r r')"

lemma hands_on_some: "steps T d r m \<Longrightarrow> hands_on T d r (a_then m (\<lambda>r. a_return (Some r)))"
  by (auto simp: hands_on_def a_return_def dest: stepsD intro: ev_unit ev.at_then steps_ev ev.at_pure elim!: a_thenE)

lemma hands_on_none: "ev.at T {dr_id r} d m \<Longrightarrow> hands_on T d r (a_then m (\<lambda>_. a_return None))"
  by (auto simp: hands_on_def a_return_def intro: ev.at_then ev.at_pure elim!: a_thenE)

lemma hands_on_pure: "current T d r \<Longrightarrow> hands_on T d r (a_return (Some r))" "hands_on T d r (a_fail e)"
  by (auto simp: hands_on_def a_return_def a_fail_def intro: ev.at_pure)

lemma hands_on_idle_then:
  assumes "idl.at d m" and "current T d r"
    and "\<And>x d'. m d = (Returned x, d') \<Longrightarrow> current T d' r \<Longrightarrow> hands_on T d' r (k x)"
  shows "hands_on T d r (a_then m k)"
proof -
  have k: "hands_on T d' r (k x)" if "m d = (Returned x, d')" for x d'
    using assms(3) [OF that] idle_current [OF idl.atD [OF assms(1) that] assms(2)] by blast
  then have "ev.at T {dr_id r} d (a_then m k)"
    by (intro ev.at_then [OF ev_of_idle [OF assms(1)]]) (simp add: hands_on_def)
  then show ?thesis using k by (auto simp: hands_on_def elim!: a_thenE)
qed

lemma ev_hands_on_then:
  assumes "hands_on T d r m"
    and "\<And>d'. ev.at T {dr_id r} d' (k None)"
    and "\<And>r' d'. current T d' r' \<Longrightarrow> ev.at T {dr_id r'} d' (k (Some r'))"
  shows "ev.at T {dr_id r} d (a_then m k)"
proof (rule ev.at_then)
  show "ev.at T {dr_id r} d m" using assms(1) by (simp add: hands_on_def)
  fix x d'
  assume m: "m d = (Returned x, d')"
  show "ev.at T {dr_id r} d' (k x)"
  proof (cases x)
    case (Some r')
    then have "current T d' r'" "dr_id r' = dr_id r" using assms(1) m by (auto simp: hands_on_def same_delivery_def)
    then show ?thesis using assms(3) Some by metis
  qed (use assms in \<open>auto simp: hands_on_def\<close>)
qed

lemma stage_hands_on:
  assumes "current T d r"
  shows "hands_on T d r (stage_delivery r)"
  unfolding stage_delivery_def
  by (intro hands_on_idle_then idle_rules assms)
     (auto intro!: hands_on_idle_then [OF idle_rules(4)] hands_on_none hands_on_some hands_on_pure ev_nack
       recordFailure_steps recordTransition_steps steps_ev)

lemma prepare_hands_on:
  assumes "current T d r"
  shows "hands_on T d r (prepare_window r)"
  unfolding prepare_window_def
  by (intro hands_on_idle_then idle_rules assms)
     (auto intro!: hands_on_idle_then [OF idle_rules(4)] hands_on_none hands_on_some hands_on_pure ev_nack
       recordFailure_steps noteEvent_steps steps_ev)

lemma ev_await_frame:
  assumes "current T d r"
  shows "ev.at T {dr_id r} d (await_frame r f)"
    and "await_frame r f d = (Returned True, d') \<Longrightarrow> idle d d'"
proof -
  show "ev.at T {dr_id r} d (await_frame r f)"
    unfolding await_frame_def using assms
    by (cases "fh_type (fr_header f)")
      (auto intro!: ev_result_then ev.at_then ev.at_pure ev_take ev_nack ev_of_idle [OF idle_sends(1)])
  assume run: "await_frame r f d = (Returned True, d')"
  then have p: "fh_type (fr_header f) = Ping"
    by (cases "fh_type (fr_header f)") (auto simp: await_frame_def a_return_def a_fail_def elim!: a_thenE)
  have "idl.at d (await_frame r f)" unfolding await_frame_def using p by (auto intro!: idle_rules)
  then show "idle d d'" using run by (rule idl.atD)
qed

lemma ev_await_loop: "current T d r \<Longrightarrow> ev.at T {dr_id r} d (await_loop r)"
proof (induction r d rule: await_loop.induct)
  case (1 r d)
  show ?case
    unfolding ev.at_def
  proof (intro allI impI)
    fix x d'
    assume run: "await_loop r d = (x, d')"
    obtain y d1 where recv: "d_receive d = (y, d1)" by fastforce
    have i1: "idle d d1" using idl.atD [OF idle_basic(5) recv] .
    then have e1: "evolves T {dr_id r} d d1" and cur1: "current T d1 r"
      using idle_evolves idle_current 1(2) by blast+
    show "evolves T {dr_id r} d d'"
    proof (cases y)
      case (Returned f)
      obtain z d2 where fr: "await_frame r f d1 = (z, d2)" by fastforce
      have e2: "evolves T {dr_id r} d1 d2" using ev.atD [OF ev_await_frame(1) [OF cur1] fr] .
      show ?thesis
      proof (cases "z = Returned True")
        case True
        then have cur2: "current T d2 r" using ev_await_frame(2) [OF cur1] fr idle_current cur1 by blast
        from run have "await_loop r d2 = (x, d')"
          by (simp add: await_loop.simps [of r d] recv Returned fr True)
        then have "evolves T {dr_id r} d2 d'"
          using 1(1) [OF recv [symmetric] Returned fr [symmetric] True] cur2 ev.atD by auto
        then show ?thesis using e1 e2 evolves_trans by blast
      next
        case False
        with run have "d' = d2"
          by (auto simp: await_loop.simps [of r d] recv Returned fr split: outcome.splits bool.splits)
        then show ?thesis using e1 e2 evolves_trans by blast
      qed
    qed (use run recv e1 in \<open>auto simp: await_loop.simps [of r d] split: if_splits\<close>)
  qed
qed

lemma ev_await: "current T d r \<Longrightarrow> ev.at T {dr_id r} d (awaitAcknowledgement r)"
  unfolding awaitAcknowledgement_def by (intro ev.at_get ev.at_if ev.at_pure ev_await_loop)

lemma ev_commit_delivery:
  assumes "current T d r"
  shows "ev.at T {dr_id r} d (commit_delivery r)"
proof -
  have snap: "ev.at T {dr_id r} d' (a_get (\<lambda>d. awaitAcknowledgement (snapshotDelivery d i)))"
    if "held T d' i" "i = dr_id r" for d' i
    using ev_await snapshot_current [OF that(1)] that(2) by (metis ev.at_get)
  have adopt: "ev.at T {dr_id r} d' (a_then (adoptActivation r b t) (\<lambda>_. a_get (\<lambda>d. awaitAcknowledgement (snapshotDelivery d (dr_id r)))))"
    if cur: "current T d' r" for d' b t
  proof (rule ev_steps_then [OF adoptActivation_steps [OF cur]])
    fix r1 d1
    assume "current T d1 r1" and "same_delivery r r1"
    then have i: "dr_id r1 = dr_id r" and "held T d1 (dr_id r)"
      using held_current by (auto simp: same_delivery_def) (metis)
    then show "ev.at T {dr_id r1} d1 (a_get (\<lambda>d. awaitAcknowledgement (snapshotDelivery d (dr_id r))))"
      using snap by metis
  qed
  show ?thesis
    unfolding commit_delivery_def Let_def
    by (intro ev.at_get ev_idle_then idle_rules assms)
      (auto intro!: ev_result_then ev_unit adopt recordFailure_steps recordRetired_steps ev.at_pure)
qed

lemma ev_activate:
  assumes "current T d r"
  shows "ev.at T {dr_id r} d (activateDelivery r)"
  unfolding activateDelivery_def
proof (rule ev_hands_on_then)
  show "hands_on T d r (if dr_state r = Verified then stage_delivery r else a_return (Some r))"
    using assms by (simp add: stage_hands_on hands_on_pure)
  fix r1 d1
  assume "current T d1 r1"
  then show "ev.at T {dr_id r1} d1 (case Some r1 of None \<Rightarrow> a_return () | Some record1 \<Rightarrow>
      a_then (if dr_effectiveGuarantee record1 = PrepareCommitAbort then prepare_window record1
              else a_return (Some record1))
        (\<lambda>prepared. case prepared of None \<Rightarrow> a_return () | Some record2 \<Rightarrow> commit_delivery record2))"
    by (auto intro!: ev_hands_on_then prepare_hands_on hands_on_pure ev_commit_delivery ev.at_pure)
qed (simp add: ev.at_pure)

lemma ev_refuse_offer: "current T d r \<Longrightarrow> ev.at T {dr_id r} d (refuse_offer r reject)"
  unfolding refuse_offer_def Let_def
  by (auto intro!: ev_unit recordFailure_steps recordRejected_steps recordRetired_steps)

lemma ev_offer_response:
  assumes "current T d r"
  shows "ev.at T {dr_id r} d (offer_response r prepare f)"
    and "offer_response r prepare f d = (Returned (Some n), d') \<Longrightarrow> d' = d"
proof -
  show "ev.at T {dr_id r} d (offer_response r prepare f)"
    unfolding offer_response_def using assms
    by (cases "fh_type (fr_header f)")
      (auto intro!: ev_result_then ev.at_then ev.at_pure ev_nack ev_refuse_offer ev_adopt_and_acknowledge)
  assume run: "offer_response r prepare f d = (Returned (Some n), d')"
  then show "d' = d"
    by (cases "fh_type (fr_header f)")
      (auto simp: offer_response_def a_return_def a_fail_def a_result_def split: sum.splits if_splits elim!: a_thenE)
qed

lemma ev_chunk_response:
  assumes "current T d r"
  shows "ev.at T {dr_id r} d (chunk_response r prepare n flags reader f)"
    and "chunk_response r prepare n flags reader f d = (Returned (TransferGoesOn m flags' reader'), d') \<Longrightarrow> d' = d"
proof -
  show "ev.at T {dr_id r} d (chunk_response r prepare n flags reader f)"
    unfolding chunk_response_def using assms
    by (auto intro!: ev_result_then ev.at_then ev.at_pure ev_nack steps_ev recordFailure_steps)
  assume "chunk_response r prepare n flags reader f d = (Returned (TransferGoesOn m flags' reader'), d')"
  then show "d' = d"
    by (auto simp: chunk_response_def a_return_def a_fail_def a_result_def split: sum.splits if_splits elim!: a_thenE)
qed

lemma ev_transfer_chunk:
  assumes "current T d r"
  shows "ev.at T {dr_id r} d (transfer_chunk r prepare n flags reader)"
    and "transfer_chunk r prepare n flags reader d = (Returned (TransferGoesOn m flags' reader'), d') \<Longrightarrow> current T d' r"
proof -
  have ended: "ev.at T {dr_id r} d' (a_then (recordFailure r e t b) (\<lambda>_. a_return TransferEnded))"
    if "current T d' r" for d' e t b
    using that by (intro ev_unit recordFailure_steps)
  show "ev.at T {dr_id r} d (transfer_chunk r prepare n flags reader)"
    unfolding transfer_chunk_def
    by (intro ev_idle_then [OF idle_basic(2) assms] ev.at_if ev.at_pure ev_idle_then [OF idle_basic(3)])
      (auto intro!: ended ev.at_get ev_idle_then [OF idle_sends(2)] ev_idle_then [OF idle_basic(5)] ev_chunk_response
        split: sum.splits list.splits)
  assume run: "transfer_chunk r prepare n flags reader d = (Returned (TransferGoesOn m flags' reader'), d')"
  have no: "a_then k (\<lambda>_. a_return TransferEnded) d1 \<noteq> (Returned (TransferGoesOn m flags' reader'), d')"
    for k :: "DeliveryRecord dact" and d1
    by (auto simp: a_return_def elim!: a_thenE)
  from run obtain d1 chunk rd d2 b bs fl d3 f d4
    where 1: "stopRequested d = (Returned False, d1)" "d_io (readAt reader n (unat (prepare_chunkBytes prepare))) d1 = (Returned (chunk, rd), d2)"
      "send_chunk prepare n (b # bs) flags d2 = (Returned fl, d3)" "d_receive d3 = (Returned f, d4)"
      and last: "chunk_response r prepare n fl rd f d4 = (Returned (TransferGoesOn m flags' reader'), d')"
    unfolding transfer_chunk_def
    by (elim a_thenE)
      (auto simp: a_fail_def a_get_def no split: if_splits prod.splits sum.splits list.splits elim!: a_thenE)
  have "current T d4 r"
    using assms 1 idle_current idl.atD [OF idle_basic(2)] idl.atD [OF idle_basic(3)] idl.atD [OF idle_sends(2)]
      idl.atD [OF idle_basic(5)] by metis
  then show "current T d' r" using ev_chunk_response(2) last by metis
qed

lemma ev_transfer_loop:
  assumes "current T d r"
  shows "ev.at T {dr_id r} d (transfer_loop r prepare limit n flags reader)
    \<and> (\<forall>d'. transfer_loop r prepare limit n flags reader d = (Returned True, d') \<longrightarrow> current T d' r)"
  using assms
proof (induction r prepare limit n flags reader d rule: transfer_loop.induct)
  case (1 r prepare limit n flags reader d)
  obtain x d1 where run: "transfer_chunk r prepare n flags reader d = (x, d1)" by fastforce
  have e1: "evolves T {dr_id r} d d1" using ev.atD [OF ev_transfer_chunk(1) [OF 1(2)] run] .
  show ?case
  proof (cases "n < limit \<and> (\<exists>m fl rd. x = Returned (TransferGoesOn m fl rd))")
    case True
    then obtain m fl rd where lt: "n < limit" and x: "x = Returned (TransferGoesOn m fl rd)" by blast
    have eq: "transfer_loop r prepare limit n flags reader d = transfer_loop r prepare limit m fl rd d1"
      using run x lt by (simp add: transfer_loop.simps [of r prepare limit n])
    have cur: "current T d1 r" using ev_transfer_chunk(2) [OF 1(2)] run x by metis
    from 1(1) [OF lt run [symmetric] x refl cur] e1 show ?thesis
      unfolding ev.at_def eq by (blast intro: evolves_trans)
  next
    case False
    then show ?thesis
      using run e1 1(2)
      by (auto simp: ev.at_def transfer_loop.simps [of r prepare limit n] split: outcome.splits transfer_next.splits)
  qed
qed

lemma ev_complete_transfer:
  assumes "current T d r"
  shows "ev.at T {dr_id r} d (complete_transfer r prepare)"
proof -
  have verified: "ev.at T {dr_id r1} d1 (a_then d_receive (\<lambda>f.
     if fh_type (fr_header f) = DeliveryNack then nack_failure r1 (fr_payload f)
     else if fh_type (fr_header f) \<noteq> TransferResult then a_fail UnexpectedMessage
     else
       a_then (a_result (decodeTransferResult (fr_payload f))) (\<lambda>result.
       if \<not> transferResult_verified result
       then a_then (recordFailure r1
                      (if transferResult_code result = Ok then DigestMismatch else transferResult_code result)
                      (transferResult_detail result) True) (\<lambda>_. a_return ())
       else
         a_then (recordTransition r1 Verified DigestVerified Ok
                   ''the target recomputed the digest and it matched'' False) (\<lambda>record2.
         activateDelivery record2))))" if "current T d1 r1" for d1 r1
    by (intro ev_idle_then [OF idle_basic(5) that] ev.at_if ev.at_pure ev_nack ev_result_then ev_unit
        recordFailure_steps ev_steps_then recordTransition_steps ev_activate)
  show ?thesis
    unfolding complete_transfer_def
    by (intro ev_idle_then [OF idle_sends(1) assms] ev_steps_then verified)
      (auto intro!: recordTransition_steps steps_return)
qed

lemma ev_transfer_from:
  assumes "current T d r"
  shows "ev.at T {dr_id r} d (transfer_from r prepare n)"
proof -
  have loop: "ev.at T {dr_id r1} d1 (a_then (transfer_loop r1 prepare limit n flags reader)
      (\<lambda>sent. if sent then complete_transfer r1 prepare else a_return ()))"
    if "current T d1 r1" for r1 d1 limit flags reader
    using ev_transfer_loop [OF that]
    by (intro ev.at_then) (auto intro!: ev_complete_transfer ev.at_pure)
  have note_or_not: "steps T d1 r (if n \<noteq> 0 then noteEvent r BytesAccepted t else a_return r)" if "current T d1 r" for d1 t
    using that by (simp add: noteEvent_steps steps_return)
  show ?thesis
    unfolding transfer_from_def
  proof (intro ev.at_get ev_idle_then [OF idle_basic(3) assms], goal_cases)
    case (1 opened d1)
    then show ?case
      by (cases opened) (simp_all only: sum.case ev_unit recordFailure_steps ev_steps_then [OF note_or_not] loop)
  qed
qed

lemma ev_offer:
  assumes "current T d r"
  shows "ev.at T {dr_id r} d (offerAndTransfer r)"
proof -
  have respond: "ev.at T {dr_id r1} d1 (a_then (offer_response r1 prepare f) (\<lambda>start.
      case start of None \<Rightarrow> a_return () | Some offset \<Rightarrow> transfer_from r1 prepare offset))"
    if "current T d1 r1" for d1 r1 prepare f
  proof (rule ev.at_then [OF ev_offer_response(1) [OF that]])
    fix start d2
    assume run: "offer_response r1 prepare f d1 = (Returned start, d2)"
    show "ev.at T {dr_id r1} d2 (case start of None \<Rightarrow> a_return () | Some offset \<Rightarrow> transfer_from r1 prepare offset)"
    proof (cases start)
      case (Some n)
      then have "d2 = d1" using ev_offer_response(2) [OF that] run by metis
      then show ?thesis using Some ev_transfer_from that by simp
    qed (simp add: ev.at_pure)
  qed
  have offered: "steps T d1 r (if dr_state r = Prepared then recordTransition r Offered OfferedToTarget Ok t False else a_return r)"
    if "current T d1 r" for d1 t
    using that by (simp add: recordTransition_steps steps_return)
  show ?thesis
    unfolding offerAndTransfer_def Let_def
    by (intro ev.at_get ev_idle_then [OF idle_sends(1) assms] ev_steps_then [OF offered] ev_idle_then [OF idle_basic(5)]
        respond)
qed

subsection \<open>Driving the deliveries of a target\<close>

lemma ev_drive_step:
  assumes "held T d i"
  shows "ev.at T {i} d (drive_step i)"
proof -
  have step: "ev.at T {i} d' m" if "current T d' r" "dr_id r = i" "ev.at T {dr_id r} d' m" for d' r and m :: "bool dact"
    using that by simp
  have gave_up: "ev.at T {dr_id r} d' (a_then (give_up r t) (\<lambda>_. a_return False))" if "current T d' r" for d' r t
  proof -
    have "ev.at T {dr_id r} d' (a_then (recordTransition r DeliveryState.Failed FailureReported code t False) upsertDelivery)"
      for code
      by (rule ev_steps_then [OF recordTransition_steps [OF that]])
         (auto intro!: ev_upsertDelivery(1) dest: current_ok)
    then show ?thesis
      unfolding give_up_def by (intro ev.at_then [OF _ ev.at_pure(1)]) (simp add: ev.at_pure)
  qed
  have retried: "ev.at T {dr_id r} d' (a_then (if dr_state r = DeliveryState.Failed
      then recordTransition r Prepared Retried Ok t False else a_return r)
      (\<lambda>record1. a_then (offerAndTransfer record1) (\<lambda>_. a_return True)))" if "current T d' r" for d' r t
    using that by (intro ev_steps_then) (auto intro!: recordTransition_steps steps_return ev.at_then ev_offer ev.at_pure)
  have body: "ev.at T {i} d1 (let record = snapshotDelivery d1 i in
       if dr_id record = [] then a_return False
       else a_then d_now (\<lambda>now. k record now))" if "held T d1 i"
    and "\<And>r n d2. current T d2 r \<Longrightarrow> ev.at T {dr_id r} d2 (k r n)" for d1 k
  proof -
    have cur: "current T d1 (snapshotDelivery d1 i)" and i: "dr_id (snapshotDelivery d1 i) = i"
      using snapshot_current [OF that(1)] by auto
    have "ev.at T {dr_id (snapshotDelivery d1 i)} d1 (a_then d_now (k (snapshotDelivery d1 i)))"
      by (intro ev_idle_then [OF idle_basic(1) cur] that(2))
    then show ?thesis by (simp add: Let_def i ev.at_pure)
  qed
  show ?thesis
    unfolding drive_step_def
  proof (intro ev.at_then [OF ev_of_idle [OF idle_basic(2)]] ev.at_if ev.at_pure ev.at_get body)
    fix x d1
    assume "stopRequested d = (Returned x, d1)"
    then show "held T d1 i" using held_evolves [OF assms] idle_evolves [OF idl.atD [OF idle_basic(2)]] by blast
  next
    fix d1 d2 r n
    assume cur: "current T d2 r"
    show "ev.at T {dr_id r} d2
      (let input = decisionInputFor d1 r n; decision = decide (d_policy d1) input (cs_epoch (d_state d1)) (dr_generation r)
       in case dec_action decision of
           NoAction \<Rightarrow> a_return False
         | Wait \<Rightarrow> a_return False
         | Reject \<Rightarrow>
             a_then (recordRejected r (rejection_code input r) (dec_reason decision)) (\<lambda>_. a_return False)
         | PolicyAction.Retire \<Rightarrow> a_then (recordRetired r (dec_reason decision)) (\<lambda>_. a_return False)
         | GiveUp \<Rightarrow> a_then (give_up r (dec_reason decision)) (\<lambda>_. a_return False)
         | RecordFailureAndRetry \<Rightarrow>
             a_then (recordFailure r (retry_code r) (dec_reason decision) False) (\<lambda>_. a_return False)
         | Activate \<Rightarrow> a_then (activateDelivery r) (\<lambda>_. a_return True)
         | Reconcile \<Rightarrow> a_return False
         | _ \<Rightarrow>
             a_then (if dr_state r = DeliveryState.Failed
                     then recordTransition r Prepared Retried Ok
                            (''retry attempt '' @ to_string (unat (dr_attempt r + 1))
                             @ '' begins; the delivery re-enters at the offer boundary'') False
                     else a_return r) (\<lambda>record1.
             a_then (offerAndTransfer record1) (\<lambda>_. a_return True)))"
      unfolding Let_def
      by (cases "dec_action (decide (d_policy d1) (decisionInputFor d1 r n) (cs_epoch (d_state d1)) (dr_generation r))")
        (simp_all add: ev.at_pure ev_unit recordRejected_steps recordRetired_steps recordFailure_steps gave_up retried
          ev.at_then ev_activate cur)
  qed
qed

subsection \<open>Operations on all deliveries of a target\<close>

definition whole :: "TargetId \<Rightarrow> Distributor \<Rightarrow> 'a dact \<Rightarrow> bool" where
  "whole T d m \<longleftrightarrow> (controller_ok (d_state d) \<longrightarrow> ev.at T {i. held T d i} d m)"

lemma held_evolves_iff: "evolves T I d d' \<Longrightarrow> controller_ok (d_state d) \<Longrightarrow> held T d' i = held T d i"
proof
  assume e: "evolves T I d d'" and ok: "controller_ok (d_state d)" and h: "held T d' i"
  from e have "rel_option advances (findDelivery (d_state d) i) (findDelivery (d_state d') i)" by (simp add: evolves_def)
  with h ok show "held T d i" by (auto simp: held_def advances_def same_delivery_def elim!: option.rel_cases)
qed (rule held_evolves)

lemma whole_then:
  assumes "whole T d m"
    and "\<And>x d'. m d = (Returned x, d') \<Longrightarrow> controller_ok (d_state d) \<Longrightarrow> evolves T {i. held T d i} d d' \<Longrightarrow> whole T d' (k x)"
  shows "whole T d (a_then m k)"
  unfolding whole_def
proof
  assume ok: "controller_ok (d_state d)"
  then have m: "ev.at T {i. held T d i} d m" using assms(1) by (simp add: whole_def)
  show "ev.at T {i. held T d i} d (a_then m k)"
  proof (rule ev.at_then [OF m])
    fix x d'
    assume run: "m d = (Returned x, d')"
    have e: "evolves T {i. held T d i} d d'" using ev.atD [OF m run] .
    have "controller_ok (d_state d')" using evolves_frame(1) [OF e ok] .
    then show "ev.at T {i. held T d i} d' (k x)"
      using assms(2) [OF run ok e] held_evolves_iff [OF e ok] by (simp add: whole_def)
  qed
qed

lemma whole_intros:
  "whole T d (a_return x)" "whole T d (a_fail e)"
  "whole T d (f d) \<Longrightarrow> whole T d (a_get f)" "whole T d m \<Longrightarrow> whole T d (a_attempt m)" "whole T d m \<Longrightarrow> whole T d (a_ignore m)"
  "(P \<Longrightarrow> whole T d n) \<Longrightarrow> (\<not> P \<Longrightarrow> whole T d n') \<Longrightarrow> whole T d (if P then n else n')"
  by (simp_all add: whole_def ev.at_pure ev.at_get ev.at_attempt ev.at_ignore)

lemma whole_idle: "idl.at d m \<Longrightarrow> whole T d m"
  by (simp add: whole_def ev_of_idle)

lemma ev_drive_steps: "held T d i \<Longrightarrow> ev.at T {i} d (drive_steps n i)"
proof (induction n arbitrary: d)
  case (Suc n)
  have "ev.at T {i} d' (if b then drive_steps n i else a_return ())" if "drive_step i d = (Returned b, d')" for b d'
    using Suc.IH held_evolves [OF Suc.prems ev.atD [OF ev_drive_step [OF Suc.prems] that]] by (simp add: ev.at_pure)
  then show ?case by (simp add: ev.at_then ev_drive_step Suc.prems)
qed (simp add: ev.at_pure)

lemma ev_driveDelivery: "held T d (dr_id q) \<Longrightarrow> ev.at T {dr_id q} d (driveDelivery q)"
  by (simp add: driveDelivery_def ev_drive_steps)

lemma whole_drive_all: "(\<And>q. q \<in> set qs \<Longrightarrow> controller_ok (d_state d) \<Longrightarrow> held T d (dr_id q)) \<Longrightarrow> whole T d (drive_all errors qs)"
proof (induction qs arbitrary: errors d)
  case (Cons q qs)
  have drive: "whole T d1 (driveDelivery q)" if "idle d d1" for d1
  proof -
    have "held T d1 (dr_id q)" if "controller_ok (d_state d1)"
      using that \<open>idle d d1\<close> Cons.prems [of q] by (simp add: idle_def held_def)
    then show ?thesis unfolding whole_def using ev_driveDelivery ev_mono [of T "{dr_id q}"] by blast
  qed
  have rest: "whole T d2 (drive_all n qs)" if "controller_ok (d_state d)" "evolves T I d d2" for n d2 I
    by (rule Cons.IH) (meson that Cons.prems held_evolves list.set_intros(2))
  show ?case
    unfolding drive_all.simps
  proof (rule whole_then [OF whole_idle [OF idle_basic(2)]], intro whole_intros)
    fix stopping d1
    assume s: "stopRequested d = (Returned stopping, d1)" and ok: "controller_ok (d_state d)"
      and e1: "evolves T {i. held T d i} d d1"
    have i1: "idle d d1" using idl.atD [OF idle_basic(2) s] .
    show "whole T d1 (a_then (a_attempt (driveDelivery q)) (\<lambda>driven. case driven of
         Inr _ \<Rightarrow> drive_all errors qs
       | Inl e \<Rightarrow>
           if e = ConnectionClosed \<or> e = ConnectionReset \<or> e = TruncatedFrame \<or> e = PeerIdleTimeout
           then a_fail e
           else if errors + 1 \<ge> kMaxSessionErrors then a_fail e
           else drive_all (errors + 1) qs))"
    proof (rule whole_then [OF whole_intros(4) [OF drive [OF i1]]])
      fix x d2
      assume "evolves T {i. held T d1 i} d1 d2"
      then have "evolves T UNIV d d2" using e1 evolves_trans evolves_mono [of T _ _ _ UNIV] by blast
      then show "whole T d2 (case x of
         Inr _ \<Rightarrow> drive_all errors qs
       | Inl e \<Rightarrow>
           if e = ConnectionClosed \<or> e = ConnectionReset \<or> e = TruncatedFrame \<or> e = PeerIdleTimeout
           then a_fail e
           else if errors + 1 \<ge> kMaxSessionErrors then a_fail e
           else drive_all (errors + 1) qs)"
        using rest ok by (auto simp: whole_intros split: sum.splits)
    qed
  qed
qed (simp add: whole_intros)

lemma sort_records_set [simp]: "set (sort_records rs) = set rs"
  by (simp add: sort_records_def)

lemma sort_records_distinct: "distinct (map dr_id rs) \<Longrightarrow> distinct (map dr_id (sort_records rs))"
  unfolding sort_records_def by (simp add: distinct_map)

lemma deliveries_of_held: "controller_ok (d_state d) \<Longrightarrow> r \<in> set (deliveries_of T P d) \<Longrightarrow> held T d (dr_id r)"
  using held_current deliveries_of_current by blast

lemma whole_driveDeliveries: "sx_target (db_session d) = T \<Longrightarrow> whole T d driveDeliveries"
  unfolding driveDeliveries_def by (auto intro!: whole_intros whole_drive_all deliveries_of_held)

lemma whole_each:
  assumes "set rs \<subseteq> set (deliveries_of T P d)" and "controller_ok (d_state d) \<Longrightarrow> distinct (map dr_id rs)"
    and "\<And>r d. current T d r \<Longrightarrow> ev.at T {dr_id r} d (f r)"
  shows "whole T d (a_each f rs)"
  unfolding whole_def
proof
  assume ok: "controller_ok (d_state d)"
  have "ev.at T (dr_id ` set rs) d (a_each f rs)"
    using assms ok deliveries_of_current by (intro ev_each) auto
  moreover have "dr_id ` set rs \<subseteq> {i. held T d i}" using deliveries_of_held [OF ok] assms(1) by auto
  ultimately show "ev.at T {i. held T d i} d (a_each f rs)" by (rule ev_mono)
qed

lemma whole_applyReconcileReport: "sx_target (db_session d) = T \<Longrightarrow> whole T d applyReconcileReport"
  unfolding applyReconcileReport_def
  by (intro whole_intros whole_each) (auto intro!: ev_reconcile_one sort_records_distinct deliveries_of_distinct)

lemma whole_rearm: "whole T d (rearmAfterRestart T n)"
  using rearm_evolves by (simp add: whole_def)

lemma whole_markContact: "i64_range n \<Longrightarrow> whole T d (markContactCurrent T c n)"
  by (simp add: whole_def ev_markContact)

lemma whole_recordSessionFailure: "whole T d (recordSessionFailure T code detail)"
  unfolding recordSessionFailure_def
proof (intro whole_then whole_intros)
  show "whole T d (a_each (\<lambda>record. a_ignore (recordFailure record code detail False))
      (deliveries_of T (\<lambda>r. isPendingState (dr_state r)) d))"
    by (rule whole_each [OF order_refl deliveries_of_distinct]) (auto intro: ev.at_ignore steps_ev recordFailure_steps)
  fix u d1
  have "whole T d1 (a_then (a_ignore (upsertTarget (t\<lparr>tr_contactEstablishedThisProcess := False\<rparr>)))
      (\<lambda>_. markContactCurrent T False 0))" if t: "findTarget (d_state d1) T = Some t" for t
  proof (rule whole_then)
    show "whole T d1 (a_ignore (upsertTarget (t\<lparr>tr_contactEstablishedThisProcess := False\<rparr>)))"
      using t target_stored_ok [of "d_state d1" T t] by (auto simp: whole_def intro!: ev.at_ignore ev_upsertTarget(1))
  qed (simp add: whole_markContact i64_range_def)
  then show "whole T d1 (case findTarget (d_state d1) T of None \<Rightarrow> a_return ()
      | Some t \<Rightarrow> a_then (a_ignore (upsertTarget (t\<lparr>tr_contactEstablishedThisProcess := False\<rparr>)))
          (\<lambda>_. markContactCurrent T False 0))"
    by (auto simp: whole_intros split: option.splits)
qed
subsection \<open>Handshake and reconciliation\<close>

text \<open>Operations that record deliveries leave the targets and the session alone.\<close>

interpretation tg: action_relation "\<lambda>d d'. cs_targets (d_state d') = cs_targets (d_state d) \<and> db_session d' = db_session d"
  by unfold_locales simp_all

lemma tg_commit: "tg.at d (d_commit DeliveryUpsert bs)"
  unfolding tg.at_def
proof (intro allI impI)
  fix x d'
  assume "d_commit DeliveryUpsert bs d = (x, d')"
  moreover have "cs_targets (fst (controller_apply s DeliveryUpsert bs)) = cs_targets s" for s
    by (auto simp: controller_apply_def st_read_def st_end_def split: sum.splits prod.splits)
  ultimately show "cs_targets (d_state d') = cs_targets (d_state d) \<and> db_session d' = db_session d"
    using d_commit_cases [of DeliveryUpsert bs d x d'] by (auto simp: store_only_def)
qed

lemma tg_now: "tg.at d d_now"
  unfolding tg.at_def by (auto simp: d_now_def d_state_def)

lemma tg_rearm: "tg.at d (rearmAfterRestart T n)"
  unfolding rearmAfterRestart_def noteEvent_def upsertDelivery_def Let_def
  by (intro tg.at_intros tg_commit tg_now)

lemma runtime_of_hello_ok:
  assumes "controller_ok (d_state d)" and "helloAck_ok ack" and "helloAck_target ack = T" and "i64_range n"
  shows "target_ok (without_contact (runtime_of_hello (findTarget (d_state d) T) T ack n))"
  using assms target_stored_ok [of "d_state d" T]
  by (cases "findTarget (d_state d) T")
    (auto simp: runtime_of_hello_def Let_def target_ok_def without_contact_def helloAck_ok_def emptyTargetRuntime_def
      optionalIdentifier_def unset_digest_def endpoint_ok_def)

lemma runtime_of_hello_fields [simp]:
  "tr_id (runtime_of_hello e T ack n) = T" "tr_term (runtime_of_hello e T ack n) = helloAck_term ack"
  by (simp_all add: runtime_of_hello_def Let_def)

lemma markContact_fields:
  assumes "markContactCurrent T c n d = (x, d')"
  shows "db_session d' = db_session d"
    and "map_option tr_term (findTarget (d_state d') T) = map_option tr_term (findTarget (d_state d) T)"
  using assms
  by (auto simp: markContactCurrent_def a_modify_def d_with_state_def d_state_def findTarget_def split: option.splits)

lemma adopt_hello_evolves:
  assumes "helloAck_ok ack" and "sx_target (db_session d) = T" and "helloAck_target ack = T"
    and "\<And>t. findTarget (d_state d) T = Some t \<Longrightarrow> tr_term t \<le> helloAck_term ack"
  shows "whole T d (adopt_hello ack)"
    and "adopt_hello ack d = (Returned (), d') \<Longrightarrow> controller_ok (d_state d) \<Longrightarrow>
      db_session d' = db_session d \<and> (\<exists>t. findTarget (d_state d') T = Some t \<and> tr_term t = helloAck_term ack)"
proof -
  let ?t = "runtime_of_hello (findTarget (d_state d) T) T ack"
  have up: "whole T d1 (upsertTarget (?t n))"
    and up_term: "upsertTarget (?t n) d1 = (Returned (), d2) \<Longrightarrow> controller_ok (d_state d1) \<Longrightarrow>
      \<exists>t'. findTarget (d_state d2) T = Some t' \<and> tr_term t' = helloAck_term ack"
    if "d_now d = (Returned n, d1)" for n d1 d2
  proof -
    have st: "d_state d1 = d_state d" and n: "i64_range n" using d_now_range [OF that] by auto
    have fit: "controller_ok (d_state d1) \<Longrightarrow> target_ok (without_contact (?t n))"
      using runtime_of_hello_ok [OF _ assms(1,3) n, of d1] st by simp
    show "whole T d1 (upsertTarget (?t n))"
      using fit assms(4) st by (auto simp: whole_def intro!: ev_upsertTarget(1))
    show "\<exists>t'. findTarget (d_state d2) T = Some t' \<and> tr_term t' = helloAck_term ack"
      if "upsertTarget (?t n) d1 = (Returned (), d2)" "controller_ok (d_state d1)"
      using ev_upsertTarget(2) [OF that(2) fit [OF that(2)] _ _ that(1)] assms(4) st by simp
  qed
  show "whole T d (adopt_hello ack)"
    unfolding adopt_hello_def Let_def
  proof (intro whole_intros, unfold assms(2), rule whole_then [OF whole_idle [OF idle_basic(1)]],
      rule whole_then [OF up], assumption)
    fix n d1 x d2
    assume "d_now d = (Returned n, d1)"
    then have "i64_range n" using d_now_range by blast
    then show "whole T d2 (a_then (markContactCurrent T True n) (\<lambda>_.
        if observed_restart (findTarget (d_state d) T) (helloAck_term ack)
        then rearmAfterRestart T (helloAck_term ack) else a_return ()))"
      by (intro whole_then whole_markContact whole_intros whole_rearm)
  qed
  assume run: "adopt_hello ack d = (Returned (), d')" and ok: "controller_ok (d_state d)"
  from run obtain n d1 d2 d3 where 1: "d_now d = (Returned n, d1)" and 2: "upsertTarget (?t n) d1 = (Returned (), d2)"
    and 3: "markContactCurrent T True n d2 = (Returned (), d3)"
    and 4: "(if observed_restart (findTarget (d_state d) T) (helloAck_term ack)
        then rearmAfterRestart T (helloAck_term ack) else a_return ()) d3 = (Returned (), d')"
    unfolding adopt_hello_def Let_def a_get_def assms(2) by (elim a_thenE) auto
  have st1: "d_state d1 = d_state d" "db_session d1 = db_session d"
    using d_now_range [OF 1] 1 by (auto simp: d_now_def)
  with ok runtime_of_hello_ok [OF _ assms(1,3), of d1 n] d_now_range [OF 1]
  have s2: "db_session d2 = db_session d1"
    using upsertTarget_cases [OF 2] by (simp add: store_only_def)
  have "cs_targets (d_state d') = cs_targets (d_state d3) \<and> db_session d' = db_session d3"
    using tg.atD [OF tg_rearm] 4 by (auto simp: a_return_def split: if_splits)
  with up_term [OF 1 2] ok st1 s2 markContact_fields [OF 3]
  show "db_session d' = db_session d \<and> (\<exists>t. findTarget (d_state d') T = Some t \<and> tr_term t = helloAck_term ack)"
    by (auto simp: findTarget_def)
qed

lemma receive_hello_ack_ok: "receive_hello_ack d = (Returned (ack, payload), d') \<Longrightarrow> helloAck_ok ack"
  unfolding receive_hello_ack_def
  by (auto simp: a_fail_def a_return_def a_result_def decodeHelloAck_iff split: if_splits sum.splits elim!: a_thenE)

lemma check_hello_ack_passed:
  assumes "check_hello_ack ack payload d = (Returned (), d')"
  shows "helloAck_target ack = sx_target (db_session d)" and "sx_targetTerm (db_session d') = helloAck_term ack"
    and "findTarget (d_state d) (sx_target (db_session d)) = Some t \<Longrightarrow> tr_term t \<le> helloAck_term ack"
proof -
  from assms show tgt: "helloAck_target ack = sx_target (db_session d)"
    by (auto simp: check_hello_ack_def a_get_def a_fail_def split: if_splits)
  from assms obtain d1 d2 where 2: "d2 = d1\<lparr>db_session := (db_session d1)
             \<lparr>sx_peerMaxPayload := min (maxPayloadBytes (d_policy d1)) (helloAck_maxPayloadBytes ack),
              sx_targetTerm := helloAck_term ack, sx_targetIncarnation := helloAck_incarnation ack\<rparr>\<rparr>"
    and 3: "(case findTarget (d_state d) (sx_target (db_session d)) of
           None \<Rightarrow> a_return ()
         | Some runtime \<Rightarrow>
             if uint_isSet (tr_term runtime)
                \<and> (helloAck_term ack < tr_term runtime
                   \<or> helloAck_term ack = tr_term runtime \<and> OpaqueIdentity_isSet (tr_incarnation runtime)
                      \<and> helloAck_incarnation ack \<noteq> tr_incarnation runtime)
             then a_fail FencedIncarnation else a_return ()) d2 = (Returned (), d')"
    unfolding check_hello_ack_def a_get_def using tgt by (auto simp: a_modify_def elim!: a_thenE)
  then show "sx_targetTerm (db_session d') = helloAck_term ack"
    by (auto simp: a_return_def a_fail_def split: option.splits if_splits)
  show "tr_term t \<le> helloAck_term ack" if "findTarget (d_state d) (sx_target (db_session d)) = Some t"
    using 3 that by (cases "tr_term t = 0") (auto simp: a_return_def a_fail_def uint_isSet_def split: if_splits)
qed

lemma send_confirm_session: "send_confirm payload d = (x, d') \<Longrightarrow> db_session d' = db_session d"
  by (auto simp: send_confirm_def a_get_def d_send_encoded_def a_then_def a_encoded_def a_result_def d_send_def
      a_return_def a_fail_def split: prod.splits outcome.splits option.splits sum.splits)

lemma handshake_evolves:
  assumes "sx_target (db_session d) = T"
  shows "whole T d Distributor_handshake"
    and "Distributor_handshake d = (Returned (), d') \<Longrightarrow> controller_ok (d_state d) \<Longrightarrow>
      \<exists>t. findTarget (d_state d') T = Some t \<and> tr_term t = sx_targetTerm (db_session d')"
proof -
  have agreed: "helloAck_ok ack \<and> sx_target (db_session d4) = T \<and> helloAck_target ack = T
      \<and> sx_targetTerm (db_session d4) = helloAck_term ack \<and> d_state d4 = d_state d
      \<and> (\<forall>t. findTarget (d_state d4) T = Some t \<longrightarrow> tr_term t \<le> helloAck_term ack)"
    if 1: "send_hello d = (Returned u1, d1)" and 2: "receive_hello_ack d1 = (Returned (ack, payload), d2)"
      and 3: "check_hello_ack ack payload d2 = (Returned u3, d3)" and 4: "send_confirm payload d3 = (Returned u4, d4)"
    for u1 d1 ack payload d2 u3 d3 u4 d4
  proof -
    have i: "idle d d1" "idle d1 d2" "idle d2 d3" "idle d3 d4"
      using idl.atD [OF idle_exchange(3) 1] idl.atD [OF idle_exchange(4) 2] idl.atD [OF idle_exchange(5) 3]
        idl.atD [OF idle_exchange(6) 4] by simp_all
    then have st: "d_state d4 = d_state d" "d_state d2 = d_state d" "sx_target (db_session d2) = T" "sx_target (db_session d4) = T"
      using assms by (simp_all add: idle_def)
    have "check_hello_ack ack payload d2 = (Returned (), d3)" using 3 by simp
    from check_hello_ack_passed [OF this] st receive_hello_ack_ok [OF 2] send_confirm_session [OF 4]
    show ?thesis by auto
  qed
  have adopted: "whole T d4 (adopt_hello ack)"
    if "send_hello d = (Returned u1, d1)" "receive_hello_ack d1 = (Returned (ack, payload), d2)"
      "check_hello_ack ack payload d2 = (Returned u3, d3)" "send_confirm payload d3 = (Returned u4, d4)"
    for u1 d1 ack payload d2 u3 d3 u4 d4
    using agreed [OF that] by (intro adopt_hello_evolves(1)) auto
  show "whole T d Distributor_handshake"
    unfolding Distributor_handshake_def
    by (auto intro: adopted intro!: whole_then [OF whole_idle [OF idle_exchange(3)]] whole_then [OF whole_idle [OF idle_exchange(4)]]
        whole_then [OF whole_idle [OF idle_exchange(5)]] whole_then [OF whole_idle [OF idle_exchange(6)]])
  assume run: "Distributor_handshake d = (Returned (), d')" and ok: "controller_ok (d_state d)"
  from run obtain u1 d1 ack payload d2 u3 d3 u4 d4
    where *: "send_hello d = (Returned u1, d1)" "receive_hello_ack d1 = (Returned (ack, payload), d2)"
      "check_hello_ack ack payload d2 = (Returned u3, d3)" "send_confirm payload d3 = (Returned u4, d4)"
      and last: "adopt_hello ack d4 = (Returned (), d')"
    unfolding Distributor_handshake_def by (elim a_thenE) (auto elim!: a_thenE)
  from agreed [OF *] ok adopt_hello_evolves(2) [OF _ _ _ _ last, of T]
  show "\<exists>t. findTarget (d_state d') T = Some t \<and> tr_term t = sx_targetTerm (db_session d')" by auto
qed

lemma receive_report_agrees:
  assumes "receive_report d = (Returned report, d')"
  shows "report_ok report \<and> report_target report = sx_target (db_session d) \<and> report_term report = sx_targetTerm (db_session d)"
  using assms unfolding receive_report_def a_get_def
  by (auto simp: a_fail_def a_return_def a_modify_def a_result_def decodeReconcileReport_iff split: if_splits sum.splits
      elim!: a_thenE)

lemma runtime_of_report_ok:
  assumes "controller_ok (d_state d)" and "report_ok report" and "report_target report = T" and "i64_range n"
  shows "target_ok (without_contact (runtime_of_report (findTarget (d_state d) T) T report n))"
  using assms target_stored_ok [of "d_state d" T]
  by (cases "findTarget (d_state d) T")
    (auto simp: runtime_of_report_def target_ok_def without_contact_def report_ok_def emptyTargetRuntime_def
      endpoint_ok_def)

lemma adopt_report_evolves:
  assumes "report_ok report" and "sx_target (db_session d) = T" and "report_target report = T"
    and "\<And>t. findTarget (d_state d) T = Some t \<Longrightarrow> tr_term t \<le> report_term report"
  shows "whole T d (adopt_report report)"
  unfolding adopt_report_def Let_def
proof (intro whole_intros, unfold assms(2), rule whole_then [OF whole_idle [OF idle_basic(1)]], rule whole_then)
  fix n d1
  assume "d_now d = (Returned n, d1)"
  then have st: "d_state d1 = d_state d" and n: "i64_range n" using d_now_range by auto
  show "whole T d1 (upsertTarget (runtime_of_report (findTarget (d_state d) T) T report n))"
    using runtime_of_report_ok [OF _ assms(1,3) n, of d1] assms(4) st
    by (auto simp: whole_def runtime_of_report_def intro!: ev_upsertTarget(1))
  show "whole T d2 (markContactCurrent T True n)" for d2 by (rule whole_markContact [OF n])
qed

lemma reconcile_evolves:
  assumes "sx_target (db_session d) = T"
    and "\<And>t. findTarget (d_state d) T = Some t \<Longrightarrow> tr_term t \<le> sx_targetTerm (db_session d)"
  shows "whole T d Distributor_reconcile"
  unfolding Distributor_reconcile_def
proof (rule whole_then [OF whole_idle [OF idle_exchange(7)]])
  fix report d1
  assume run: "receive_report d = (Returned report, d1)" and "evolves T {i. held T d i} d d1"
  have i: "idle d d1" using idl.atD [OF idle_exchange(7) run] .
  then have T: "sx_target (db_session d1) = T" and st: "d_state d1 = d_state d" using assms(1) by (auto simp: idle_def)
  show "whole T d1 (a_then (adopt_report report) (\<lambda>_. applyReconcileReport))"
  proof (rule whole_then)
    show "whole T d1 (adopt_report report)"
      using receive_report_agrees [OF run] T st assms by (intro adopt_report_evolves) auto
    fix x d2
    assume "evolves T {i. held T d1 i} d1 d2"
    then show "whole T d2 applyReconcileReport" using T by (intro whole_applyReconcileReport) (simp add: evolves_def)
  qed
qed

subsection \<open>A whole session\<close>

definition started :: "TargetId \<Rightarrow> Endpoint \<Rightarrow> ErrorCode option list \<Rightarrow> bytes result list \<Rightarrow> Distributor \<Rightarrow> Distributor" where
  "started T endpoint writes reads d = snd (start_session T endpoint writes reads d)"

lemma started_fields [simp]:
  "sx_target (db_session (started T endpoint writes reads d)) = T" "d_state (started T endpoint writes reads d) = d_state d"
  "db_options (started T endpoint writes reads d) = db_options d" "db_artifacts (started T endpoint writes reads d) = db_artifacts d"
  "db_claimedTargets (started T endpoint writes reads d) = db_claimedTargets d"
  by (simp_all add: started_def start_session_def a_modify_def emptySessionContext_def d_state_def)

lemma session_body_evolves:
  assumes "sx_target (db_session d) = T"
  shows "whole T d (a_then (a_attempt Distributor_handshake) (\<lambda>shaken.
          a_then (case shaken of Inl e \<Rightarrow> a_return (Inl e) | Inr _ \<Rightarrow> a_attempt Distributor_reconcile) (\<lambda>result.
          a_then (case result of
                    Inl e \<Rightarrow> a_get (\<lambda>d. recordSessionFailure T e (db_text d e))
                  | Inr _ \<Rightarrow> a_ignore driveDeliveries) (\<lambda>_.
          a_then (case shaken of Inl _ \<Rightarrow> a_return () | Inr _ \<Rightarrow> say_goodbye) (\<lambda>_.
          a_modify (\<lambda>d. d\<lparr>db_valid := False\<rparr>))))))"
proof (rule whole_then [OF whole_intros(4) [OF handshake_evolves(1) [OF assms]]])
  fix shaken d1
  assume run: "a_attempt Distributor_handshake d = (Returned shaken, d1)" and ok: "controller_ok (d_state d)"
    and e1: "evolves T {i. held T d i} d d1"
  have T1: "sx_target (db_session d1) = T" using e1 assms by (simp add: evolves_def)
  have reconciled: "whole T d1 (case shaken of Inl e \<Rightarrow> a_return (Inl e) | Inr _ \<Rightarrow> a_attempt Distributor_reconcile)"
  proof (cases shaken)
    case (Inr u)
    then have "Distributor_handshake d = (Returned (), d1)"
      using run by (auto simp: a_attempt_def split: prod.splits outcome.splits)
    from handshake_evolves(2) [OF assms this ok] have "whole T d1 Distributor_reconcile"
      using T1 by (intro reconcile_evolves) auto
    then show ?thesis using Inr by (simp add: whole_intros)
  qed (simp add: whole_intros)
  have finish: "whole T d3 (a_then (case shaken of Inl _ \<Rightarrow> a_return () | Inr _ \<Rightarrow> say_goodbye) (\<lambda>_. a_modify (\<lambda>d. d\<lparr>db_valid := False\<rparr>)))"
    for d3
    by (cases shaken) (simp_all add: whole_idle idle_rules)
  show "whole T d1 (a_then (case shaken of Inl e \<Rightarrow> a_return (Inl e) | Inr _ \<Rightarrow> a_attempt Distributor_reconcile) (\<lambda>result.
          a_then (case result of
                    Inl e \<Rightarrow> a_get (\<lambda>d. recordSessionFailure T e (db_text d e))
                  | Inr _ \<Rightarrow> a_ignore driveDeliveries) (\<lambda>_.
          a_then (case shaken of Inl _ \<Rightarrow> a_return () | Inr _ \<Rightarrow> say_goodbye) (\<lambda>_.
          a_modify (\<lambda>d. d\<lparr>db_valid := False\<rparr>)))))"
  proof (rule whole_then [OF reconciled], rule whole_then [OF _ finish])
    fix result d2
    assume "evolves T {i. held T d1 i} d1 d2"
    then have "sx_target (db_session d2) = T" using T1 by (simp add: evolves_def)
    then show "whole T d2 (case result of Inl e \<Rightarrow> a_get (\<lambda>d. recordSessionFailure T e (db_text d e))
        | Inr _ \<Rightarrow> a_ignore driveDeliveries)"
      by (cases result) (simp_all add: whole_intros whole_recordSessionFailure whole_driveDeliveries)
  qed
qed

text \<open>What a session with \<open>T\<close> may do, stated on the states before and after.\<close>

lemma runSession_evolves:
  assumes "runSession T endpoint dialled d = (x, d')" and "controller_ok (d_state d)"
  shows "\<exists>d0. evolves T {i. held T d i} d0 d' \<and> d_state d0 = d_state d \<and> db_options d0 = db_options d
    \<and> db_artifacts d0 = db_artifacts d \<and> db_claimedTargets d0 = db_claimedTargets d"
proof (cases dialled)
  case (Inl e)
  then have "a_get (\<lambda>d. recordSessionFailure T e (db_text d e)) d = (x, d')" using assms(1) by (simp add: runSession_def)
  moreover have "whole T d (a_get (\<lambda>d. recordSessionFailure T e (db_text d e)))"
    by (simp add: whole_intros whole_recordSessionFailure)
  ultimately have "evolves T {i. held T d i} d d'" using assms(2) ev.atD unfolding whole_def by metis
  then show ?thesis by (intro exI [of _ d]) simp
next
  case (Inr connection)
  obtain writes reads where c: "connection = (writes, reads)" by fastforce
  let ?d = "started T endpoint writes reads d"
  have start: "start_session T endpoint writes reads d = (Returned (), ?d)"
    by (simp add: started_def start_session_def a_modify_def)
  have held: "{i. held T ?d i} = {i. held T d i}" by (simp add: held_def)
  from assms(1) Inr c start session_body_evolves [of ?d T] assms(2) have "evolves T {i. held T d i} ?d d'"
    by (simp add: runSession_def a_then_def [of "start_session T endpoint writes reads"] whole_def held ev.at_def)
  then show ?thesis by (intro exI [of _ ?d]) simp
qed

end
