(* ===== verification/CommandRelation.thy ===== *)
theory CommandRelation
  imports Control
begin

text \<open>
  What the commands of the control channel and the local decisions of a worker may change: they read the clock, call the
  operating system, commit records, compact, and keep artifacts and verification requests. A relation that these
  steps respect is respected by every command, whatever its outcome.
\<close>

named_theorems command_rules \<open>operations that commands are made of\<close>

locale command_relation = action_relation R for R :: "Distributor \<Rightarrow> Distributor \<Rightarrow> bool" +
  assumes rel_ticks: "R d (d\<lparr>db_ticks := n\<rparr>)"
    and rel_world: "R d (d\<lparr>db_world := w\<rparr>)"
    and rel_artifacts: "R d (d\<lparr>db_artifacts := s, db_world := w\<rparr>)"
    and rel_requests: "R d (d\<lparr>db_verificationRequests := v\<rparr>)"
    and rel_commit: "d_commit t payload d = (x, d') \<Longrightarrow> R d d'"
    and rel_compact: "d_compactIfNeeded d = (x, d') \<Longrightarrow> R d d'"
begin

declare at_intros [command_rules]

lemma at_stores [command_rules]: "at d (d_commit t payload)" "at d d_compactIfNeeded"
  using rel_commit rel_compact by (auto simp: at_def)

lemma at_calls [command_rules]: "at d d_now" "at d (d_io m)" "at d (d_ingest path a)" "at d verifyArtifacts"
  unfolding at_def
  by (auto simp: a_result_def a_return_def a_fail_def d_now_def d_io_def d_ingest_def verifyArtifacts_def
      rel_ticks rel_world rel_artifacts split: prod.splits sum.splits option.splits)

lemma at_upserts [command_rules]: "at d (upsertTarget t)" "at d (upsertDelivery r)"
  by (auto simp: upsertTarget_def upsertDelivery_def intro!: command_rules)

lemma at_records [command_rules]: "at d (recordTransition r target kind code detail b)" "at d (noteEvent r kind detail)"
  by (auto simp: recordTransition_def noteEvent_def Let_def intro!: command_rules)

lemma at_outcomes [command_rules]:
  "at d (recordFailure r code detail b)" "at d (recordRejected r code detail)" "at d (recordRetired r detail)"
  by (auto simp: recordFailure_def recordRejected_def recordRetired_def Let_def intro!: command_rules split: option.splits)

lemma at_local [command_rules]: "at d (applyLocalDecision r)"
  unfolding applyLocalDecision_def Let_def
  by (auto intro!: command_rules split: PolicyAction.splits)

lemma at_ingest [command_rules]: "at d (ingestArtifact path a)" "at d (ingest_source i)"
  by (auto simp: ingestArtifact_def ingest_source_def intro!: command_rules)

lemma at_lineage [command_rules]: "at d (retire_superseded r)" "at d (prune_history r)"
  by (auto simp: retire_superseded_def prune_history_def intro!: command_rules)

lemma at_plan_instruction [command_rules]: "at d (plan_instruction plan i res)"
  by (auto simp: plan_instruction_def Let_def intro!: command_rules)

lemma at_plan_each [command_rules]: "at d (plan_each plan irs)"
  by (induction plan irs arbitrary: d rule: plan_each.induct) (auto intro!: command_rules)

lemma at_submit [command_rules]: "at d (submitPlan plan)" "at d (retireDeployment x reason)"
  by (auto simp: submitPlan_def retireDeployment_def Let_def intro!: command_rules)

lemma at_request [command_rules]: "at d (requestVerification target)"
  unfolding requestVerification_def by (intro command_rules at_modify) (rule rel_requests)

lemma at_execute: "at d (executeControlCommand request)"
  by (auto simp: executeControlCommand_def Distributor_convergence_def Distributor_explain_def
      control_verify_artifacts_def control_plan_def control_retire_def Let_def intro!: command_rules)

end

text \<open>Commands do not write to the connection of the client they are executed for.\<close>

interpretation outp: command_relation "\<lambda>d d'. db_out d' = db_out d"
  by unfold_locales
     (auto simp: d_commit_def d_compactIfNeeded_def a_result_def a_return_def a_fail_def
       split: prod.splits sum.splits option.splits)

end
