(* ===== verification/DistributorProperties.thy ===== *)
theory DistributorProperties
  imports DistributorDrive CommandRelation
begin

text \<open>
  The properties of the distributor: what a session may change, the workers and the targets they claim, what a
  new process starts from, the resolution of a deployment set, and the race between a worker and the
  control channel.
\<close>

subsection \<open>Example\<close>

definition pending_delivery :: DeliveryRecord where
  "pending_delivery =
     emptyDeliveryRecord\<lparr>dr_id := ''dep-1'', dr_setId := ''set'', dr_target := ''t1'', dr_key := ''app'',
       dr_artifact := ''art'', dr_revision := 1, dr_generation := 5, dr_digest := replicate 32 7, dr_schema := ''s'',
       dr_schemaVersion := 1, dr_sizeBytes := 10\<rparr>"

definition example_target :: TargetRuntime where
  "example_target = emptyTargetRuntime\<lparr>tr_id := ''t1'', tr_term := 4, tr_endpoint := ''h:1''\<rparr>"

definition example_controller :: ControllerState where
  "example_controller =
     emptyControllerState\<lparr>cs_nodeId := ''n'', cs_epoch := 2, cs_targets := [(''t1'', example_target)],
       cs_deliveries := [(''dep-1'', pending_delivery)]\<rparr>"

definition example_distributor :: Distributor where
  "example_distributor =
     \<lparr>db_options = \<lparr>dso_nodeId = ''n'', dso_stateDirectory = ''d'', dso_artifactRoot = ''a'',
        dso_maxArtifactBytes = 100, dso_maxStoreBytes = 1000, dso_maxArtifacts = 4, dso_policy = defaultPolicy,
        dso_key = [1], dso_authenticate = True, dso_controlHost = ''127.0.0.1'', dso_faults = []\<rparr>,
      db_store = \<lparr>ds_options = example_options ''controller'',
        ds_journal = open_journal ''d/controller.journal'' kMaxJournalRecordBytes True [segment_start 1],
        ds_state = example_controller, ds_failed = False\<rparr>,
      db_artifacts = \<lparr>ats_options = \<lparr>aso_root = ''a'', aso_maxArtifactBytes = 100, aso_maxTotalBytes = 1000,
        aso_maxArtifacts = 4, aso_readChunkBytes = 64 * 1024\<rparr>, ats_index = [], ats_usedBytes = 0\<rparr>,
      db_claimedTargets = {}, db_lastSessionAttemptMillis = [], db_verificationRequests = [(''t1'', ())],
      db_controlPort = 0, db_running = True, db_stopFlag = False, db_shutdownFlag = False,
      db_session = emptySessionContext [] kNone, db_in = FrameInput_open 1024 [],
      db_out = \<lparr>fo_maxPayloadBytes = 1024, fo_bytesSent = 0, fo_answers = [], fo_written = []\<rparr>,
      db_valid = False, db_world = empty_world\<lparr>w_disk := [''d/controller.journal'' \<mapsto> []]\<rparr>,
      db_now = (\<lambda>_. 0), db_ticks = 0, db_stop = (\<lambda>_. False), db_polls = 0, db_text = (\<lambda>_. []),
      db_tree = (\<lambda>_ _. [])\<rparr>"

lemma example_state_of [simp]: "d_state example_distributor = example_controller"
  by (simp add: example_distributor_def d_state_def)

lemma example_delivery_ok: "delivery_ok pending_delivery"
  by code_simp

lemma example_controller_ok: "controller_ok example_controller"
proof -
  have "target_ok (without_contact example_target)"
    by (simp add: target_ok_def without_contact_def example_target_def emptyTargetRuntime_def isValidIdentifier_def
        identifier_char_def optionalIdentifier_def kMaxIdentifierLength_def unset_digest_def endpoint_ok_def)
       (simp add: i64_range_def parseEndpoint_def is_host_char_def is_digit_def digit_value_def cf_try_def)
  then show ?thesis
    using example_delivery_ok emptyControllerState_ok
    by (simp add: controller_ok_def example_controller_def emptyControllerState_def keyed_def om_inv_def om_values_def
        example_target_def pending_delivery_def optionalIdentifier_def isValidIdentifier_def identifier_char_def
        kMaxIdentifierLength_def)
qed

subsection \<open>Sessions\<close>

text \<open>
  C3: A session moves deliveries only along the life cycle. Whatever the target sends, whether it can be dialled, and wherever
  the session stops: the controller's state stays well formed, its epoch and incarnation stay, no delivery appears or
  disappears, each delivery keeps what identifies it and moves only along legal transitions, and
  the deliveries of other targets stay as they are.
\<close>

theorem session_moves_legally:
  assumes "runSession T endpoint dialled d = (x, d')" and "controller_ok (d_state d)"
  shows "controller_ok (d_state d') \<and> cs_epoch (d_state d') = cs_epoch (d_state d)
    \<and> cs_incarnation (d_state d') = cs_incarnation (d_state d)
    \<and> (\<forall>i. rel_option advances (findDelivery (d_state d) i) (findDelivery (d_state d') i))
    \<and> (\<forall>i r. findDelivery (d_state d) i = Some r \<and> dr_target r \<noteq> T \<longrightarrow> findDelivery (d_state d') i = Some r)"
proof -
  obtain d0 where e: "evolves T {i. held T d i} d0 d'" and st: "d_state d0 = d_state d"
    using runSession_evolves [OF assms] by blast
  have "findDelivery (d_state d') i = Some r" if "findDelivery (d_state d) i = Some r" "dr_target r \<noteq> T" for i r
    using that e st by (auto simp: evolves_def held_def)
  then show ?thesis using e st assms(2) by (auto simp: evolves_def)
qed

theorem session_moves_legally_witness:
  "controller_ok (d_state (snd (runSession ''t1'' kNone (Inr ([], [])) example_distributor)))
   \<and> (\<exists>r. findDelivery (d_state (snd (runSession ''t1'' kNone (Inr ([], [])) example_distributor))) ''dep-1'' = Some r
        \<and> advances pending_delivery r)"
proof -
  let ?run = "runSession ''t1'' kNone (Inr ([], [])) example_distributor"
  have run: "?run = (fst ?run, snd ?run)" by simp
  note * = session_moves_legally [OF run, simplified, OF example_controller_ok]
  have "findDelivery example_controller ''dep-1'' = Some pending_delivery"
    by (simp add: example_controller_def findDelivery_def om_find_def)
  with * have "rel_option advances (Some pending_delivery) (findDelivery (d_state (snd ?run)) ''dep-1'')"
    by (metis (no_types))
  with * show ?thesis by (auto elim: option.rel_cases)
qed

text \<open>
  C7: A session never accepts an older boot of a target. The boot term recorded for a target never decreases over
  a session, whatever the target presents, and the records of other targets do not change.
\<close>

theorem session_fences_older_boots:
  assumes "runSession T endpoint dialled d = (x, d')" and "controller_ok (d_state d)"
  shows "(\<forall>t. findTarget (d_state d) T = Some t \<longrightarrow>
      (\<exists>t'. findTarget (d_state d') T = Some t' \<and> tr_term t \<le> tr_term t'))
    \<and> (\<forall>S. S \<noteq> T \<longrightarrow> findTarget (d_state d') S = findTarget (d_state d) S)"
  using runSession_evolves [OF assms] by (auto simp: evolves_def)

theorem session_fences_older_boots_witness:
  "\<exists>t'. findTarget (d_state (snd (runSession ''t1'' kNone (Inl ConnectionRefused) example_distributor))) ''t1'' = Some t'
     \<and> 4 \<le> tr_term t'"
proof -
  let ?run = "runSession ''t1'' kNone (Inl ConnectionRefused) example_distributor"
  have run: "?run = (fst ?run, snd ?run)" by simp
  have "findTarget example_controller ''t1'' = Some example_target" "tr_term example_target = 4"
    by (simp_all add: example_controller_def findTarget_def om_find_def example_target_def)
  then show ?thesis
    using session_fences_older_boots [OF run, simplified, OF example_controller_ok] by metis
qed

subsection \<open>Workers and the targets they claim\<close>

text \<open>Operations that leave the claims alone and keep the controller's state well formed.\<close>

lemma compact_state: "DurableStore_compactIfNeeded C st w = (Some (x, st'), w') \<Longrightarrow> ds_state st' = ds_state st"
  by (auto simp: DurableStore_compactIfNeeded_def DurableStore_compact_def Let_def
      split: prod.splits sum.splits option.splits if_splits)

lemma d_compact_same: "d_compactIfNeeded d = (x, d') \<Longrightarrow> d_state d' = d_state d \<and> db_claimedTargets d' = db_claimedTargets d"
  unfolding d_compactIfNeeded_def
  by (auto simp: d_state_def a_result_def a_return_def a_fail_def dest: compact_state
      split: prod.splits sum.splits option.splits)

interpretation kp: command_relation "\<lambda>d d'. db_claimedTargets d' = db_claimedTargets d
    \<and> (controller_ok (d_state d) \<longrightarrow> controller_ok (d_state d'))"
proof (unfold_locales, goal_cases)
  case (7 t payload d x d')
  from d_commit_cases [OF this] controller_apply_ok [of "d_state d" t payload] show ?case by (auto simp: store_only_def)
next
  case (8 d x d')
  then show ?case by (auto dest: d_compact_same)
qed (simp_all add: d_state_def)

text \<open>
  The workers as a step relation: the second component says which target each worker holds. A step is a block of one
  thread: the locked part of choosing work, a local decision, a session, the release, or a command of the
  control channel; the steps of different threads are interleaved arbitrarily.
\<close>

type_synonym pool = "Distributor \<times> (nat \<Rightarrow> TargetId option)"

inductive pool_step :: "pool \<Rightarrow> pool \<Rightarrow> bool" where
  Pick: "holds w = None \<Longrightarrow> pick_locked d = (Returned (Some (t, e), work), d') \<Longrightarrow>
     pool_step (d, holds) (d', holds(w := Some t))"
| NoWork: "pick_locked d = (Returned (None, work), d') \<Longrightarrow> pool_step (d, holds) (d', holds)"
| Local: "applyLocalDecision r d = (x, d') \<Longrightarrow> pool_step (d, holds) (d', holds)"
| Session: "holds w = Some t \<Longrightarrow> runSession t e dialled d = (x, d') \<Longrightarrow> pool_step (d, holds) (d', holds)"
| Release: "holds w = Some t \<Longrightarrow> pool_step (d, holds) (release t d, holds(w := None))"
| Command: "executeControlCommand request d = (y, d') \<Longrightarrow> pool_step (d, holds) (d', holds)"

inductive_cases pool_stepE: "pool_step s s'"

definition pool_ok :: "pool \<Rightarrow> bool" where
  "pool_ok = (\<lambda>(d, holds). controller_ok (d_state d) \<and> db_claimedTargets d = ran holds
     \<and> (\<forall>v w t. holds v = Some t \<and> holds w = Some t \<longrightarrow> v = w))"

lemma pick_request_may: "pick_request d n rs = Some t \<Longrightarrow> mayDial d t n"
  by (induction rs) (auto split: sum.splits if_splits)

definition picks_from :: "Distributor \<Rightarrow> picked \<Rightarrow> bool" where
  "picks_from d p \<longleftrightarrow>
     (case p of
        (None, work, d') \<Rightarrow> d_state d' = d_state d \<and> db_claimedTargets d' = db_claimedTargets d
      | (Some (t, e), work, d') \<Rightarrow>
          d_state d' = d_state d \<and> t \<notin> db_claimedTargets d \<and> db_claimedTargets d' = insert t (db_claimedTargets d))"

lemma pick_target_from: "picks_from d p \<Longrightarrow> picks_from d (pick_target r n p)"
  by (auto simp: picks_from_def pick_target_def claim_def mayDial_def d_state_def split: prod.splits option.splits if_splits)

lemma pick_delivery_from: "picks_from d p \<Longrightarrow> picks_from d (pick_delivery n r p)"
proof -
  assume p: "picks_from d p"
  obtain s work d1 where eq: "p = (s, work, d1)" by (cases p)
  have work: "picks_from d (s, work', d1)" for work' using p eq by (simp add: picks_from_def split: option.splits prod.splits)
  have target: "picks_from d (pick_target r n (s, work, d1))" using pick_target_from p eq by simp
  show ?thesis
    unfolding pick_delivery_def eq Let_def
    using work target by (simp split: PolicyAction.split)
qed

lemma pick_locked_claims:
  assumes "pick_locked d = (Returned (selected, work), d')"
  shows "d_state d' = d_state d \<and>
    (case selected of None \<Rightarrow> db_claimedTargets d' = db_claimedTargets d
     | Some (t, e) \<Rightarrow> t \<notin> db_claimedTargets d \<and> db_claimedTargets d' = insert t (db_claimedTargets d))"
proof -
  from assms obtain n d1 where now: "d_now d = (Returned n, d1)"
    and rest: "(case pick_request d1 n (map fst (db_verificationRequests d1)) of
         Some target \<Rightarrow>
           a_then (a_modify (\<lambda>d. (claim target n d)
             \<lparr>db_verificationRequests := om_erase target (db_verificationRequests d)\<rparr>)) (\<lambda>_.
           a_return (Some (target, endpointOfTarget (d_state d1) target), []))
       | None \<Rightarrow>
           (case fold (pick_delivery n) (om_values (cs_deliveries (d_state d1))) (None, [], d1) of
              (selected, work, d') \<Rightarrow> a_then (a_modify (\<lambda>_. d')) (\<lambda>_. a_return (selected, work)))) d1
       = (Returned (selected, work), d')"
    unfolding pick_locked_def a_get_def by (elim a_thenE) auto
  have d1: "d_state d1 = d_state d" "db_claimedTargets d1 = db_claimedTargets d" using now by (auto simp: d_now_def d_state_def)
  show ?thesis
  proof (cases "pick_request d1 n (map fst (db_verificationRequests d1))")
    case (Some t)
    with rest pick_request_may [OF Some] d1 show ?thesis
      by (auto simp: a_then_def a_modify_def a_return_def claim_def mayDial_def d_state_def split: if_splits)
  next
    case None
    have from_all: "picks_from d1 p \<Longrightarrow> picks_from d1 (fold (pick_delivery n) rs p)" for rs p
      by (induction rs arbitrary: p) (simp_all add: pick_delivery_from)
    have "picks_from d1 (fold (pick_delivery n) (om_values (cs_deliveries (d_state d1))) (None, [], d1))"
      by (rule from_all) (simp add: picks_from_def)
    with rest None d1 show ?thesis
      by (auto simp: a_then_def a_modify_def a_return_def picks_from_def split: prod.splits option.splits)
  qed
qed

lemma ran_release:
  assumes "m w = Some t" and "\<And>v. m v = Some t \<Longrightarrow> v = w"
  shows "ran (m(w := None)) = ran m - {t}"
proof (intro set_eqI iffI)
  fix x
  assume "x \<in> ran (m(w := None))"
  then obtain a where "a \<noteq> w" "m a = Some x" by (auto simp: ran_def split: if_splits)
  then show "x \<in> ran m - {t}" using assms(2) by (auto intro: ranI)
next
  fix x
  assume "x \<in> ran m - {t}"
  then obtain a where "m a = Some x" "x \<noteq> t" by (auto simp: ran_def)
  then have "(m(w := None)) a = Some x" using assms(1) by auto
  then show "x \<in> ran (m(w := None))" by (rule ranI)
qed

lemma pool_step_ok: "pool_step s s' \<Longrightarrow> pool_ok s \<Longrightarrow> pool_ok s'"
proof (erule pool_stepE, goal_cases)
  case (1 holds w d t e work d')
  with pick_locked_claims [OF 1(5)] show ?case by (auto simp: pool_ok_def ran_map_upd intro: ranI split: if_splits)
next
  case (2 d work d' holds)
  with pick_locked_claims [OF 2(4)] show ?case by (simp add: pool_ok_def)
next
  case (3 r d x d' holds)
  with kp.atD [OF kp.at_local 3(4)] show ?case by (simp add: pool_ok_def)
next
  case (4 holds w t e dialled d x d')
  then have ok: "controller_ok (d_state d)" by (simp add: pool_ok_def)
  have "db_claimedTargets d' = db_claimedTargets d" "controller_ok (d_state d')"
    using runSession_evolves [OF 4(5) ok] ok by (auto simp: evolves_def)
  with 4 show ?case by (simp add: pool_ok_def)
next
  case (5 holds w t d)
  then have "ran (holds(w := None)) = ran holds - {t}" by (intro ran_release) (auto simp: pool_ok_def)
  with 5 show ?case by (auto simp: pool_ok_def release_def d_state_def split: if_splits)
next
  case (6 request d y d' holds)
  with kp.atD [OF kp.at_execute 6(4)] show ?case by (simp add: pool_ok_def)
qed

text \<open>
  C4: No two workers hold the same target. Starting with no claims and no worker in a session, after any
  interleaving of the workers' steps and the commands of the control channel, the claimed targets are exactly those the workers
  hold, no target is held by two workers, and the state of the controller is still well formed.
\<close>

theorem workers_exclusive:
  assumes "pool_step\<^sup>*\<^sup>* (d, \<lambda>_. None) (d', holds)" and "db_claimedTargets d = {}" and "controller_ok (d_state d)"
  shows "db_claimedTargets d' = ran holds \<and> (\<forall>v w t. holds v = Some t \<and> holds w = Some t \<longrightarrow> v = w)
    \<and> controller_ok (d_state d')"
proof -
  have "pool_ok (d, \<lambda>_. None)" using assms(2,3) by (simp add: pool_ok_def)
  with assms(1) have "pool_ok (d', holds)"
    by (induction rule: rtranclp_induct) (auto intro: pool_step_ok)
  then show ?thesis by (simp add: pool_ok_def)
qed

lemma example_pick:
  "\<exists>e work d'. pick_locked example_distributor = (Returned (Some (''t1'', e), work), d')"
proof -
  let ?d = "example_distributor\<lparr>db_ticks := 1\<rparr>"
  have now: "d_now example_distributor = (Returned 0, ?d)" by (simp add: d_now_def example_distributor_def)
  have "pick_request ?d 0 (map fst (db_verificationRequests ?d)) = Some ''t1''"
    by (simp add: example_distributor_def parseId_def isValidIdentifier_def identifier_char_def
        kMaxIdentifierLength_def mayDial_def om_find_def)
  with now show ?thesis by (simp add: pick_locked_def a_then_def a_get_def a_modify_def a_return_def)
qed

theorem workers_exclusive_witness:
  "\<exists>d'. pool_step\<^sup>*\<^sup>* (example_distributor, \<lambda>_. None) (d', [0 \<mapsto> ''t1''])
     \<and> db_claimedTargets d' = {''t1''} \<and> controller_ok (d_state d')"
proof -
  obtain e work d' where "pick_locked example_distributor = (Returned (Some (''t1'', e), work), d')"
    using example_pick by blast
  then have run: "pool_step\<^sup>*\<^sup>* (example_distributor, \<lambda>_. None) (d', [0 \<mapsto> ''t1''])"
    by (intro r_into_rtranclp pool_step.Pick) auto
  have "db_claimedTargets example_distributor = {}" by (simp add: example_distributor_def)
  with workers_exclusive [OF run] run show ?thesis using example_controller_ok by auto
qed

subsection \<open>A worker and the control channel\<close>

text \<open>What an operation that returns has stored.\<close>

lemma upsertDelivery_stored:
  assumes "upsertDelivery r d = (Returned (), d')" and "delivery_ok r"
  shows "findDelivery (d_state d') (dr_id r) = Some r" and "controller_ok (d_state d) \<Longrightarrow> controller_ok (d_state d')"
  using upsertDelivery_cases [OF assms] controller_ok_updates(3) [OF _ assms(2), of "d_state d"]
  by (auto simp: findDelivery_def)

lemma recordTransition_stored:
  assumes "recordTransition r to kind code detail b d = (Returned r', d')" and "delivery_ok r" and "controller_ok (d_state d)"
  shows "findDelivery (d_state d') (dr_id r) = Some r' \<and> dr_state r' = to \<and> isLegalTransition (dr_state r) to
    \<and> delivery_ok r' \<and> dr_id r' = dr_id r \<and> controller_ok (d_state d')"
proof -
  from assms(1) have legal: "isLegalTransition (dr_state r) to"
    by (auto simp: recordTransition_def applyTransition_def a_result_def a_fail_def split: if_splits elim!: a_thenE)
  let ?e = "\<lambda>n. \<lparr>ev_kind = kind, ev_from = dr_state r, ev_to = to, ev_generation = dr_generation r,
              ev_digest = dr_digest r, ev_code = code, ev_directive = retryDirectiveFor code,
              ev_authorityEpoch = cs_epoch (d_state d), ev_authorityIncarnation = cs_incarnation (d_state d),
              ev_targetTerm = dr_targetTerm r, ev_targetIncarnation = dr_targetIncarnation r,
              ev_fromReconciliation = b, ev_atMillis = n, ev_detail = take kMaxDeliveryDetailBytes detail\<rparr>"
  let ?r = "\<lambda>n. r\<lparr>dr_state := to, dr_updatedAtMillis := n, dr_authorityEpoch := cs_epoch (d_state d),
                    dr_authorityIncarnation := cs_incarnation (d_state d), dr_lastError := code,
                    dr_lastDirective := retryDirectiveFor code, dr_lastDetail := take kMaxDeliveryDetailBytes detail,
                    dr_events := push_event (?e n) (dr_events r)\<rparr>"
  from assms(1) obtain n d1 where now: "d_now d = (Returned n, d1)"
    and up: "upsertDelivery (?r n) d1 = (Returned (), d')" and r': "r' = ?r n"
    unfolding recordTransition_def Let_def
    by (auto simp: applyTransition_def legal a_result_def a_get_def a_return_def elim!: a_thenE)
  have n: "i64_range n" "d_state d1 = d_state d" using d_now_range [OF now] by auto
  then have "event_ok (?e n)" using assms(2,3) by (simp add: event_ok_def delivery_ok_def controller_ok_def)
  with push_event_ok [OF assms(2)] assms(2,3) n have "delivery_ok (?r n)" by (auto simp: delivery_ok_def controller_ok_def)
  with upsertDelivery_stored [OF up] n assms(3) legal r' show ?thesis by simp
qed

lemma recordRetired_stored:
  assumes "recordRetired r reason d = (Returned r', d')" and "dr_state r \<noteq> DeliveryState.Retired"
    and "delivery_ok r" and "controller_ok (d_state d)"
  shows "findDelivery (d_state d') (dr_id r) = Some r' \<and> dr_state r' = DeliveryState.Retired \<and> controller_ok (d_state d')"
proof -
  from assms(1,2) obtain r1 d1 where 1: "recordTransition r DeliveryState.Retired EvidenceKind.Superseded ErrorCode.Retired
      (take kMaxDeliveryDetailBytes reason) False d = (Returned r1, d1)"
    and 2: "upsertDelivery (r1\<lparr>dr_superseded := True\<rparr>) d1 = (Returned (), d')" and "r' = r1\<lparr>dr_superseded := True\<rparr>"
    by (auto simp: recordRetired_def Let_def a_return_def elim!: a_thenE)
  with recordTransition_stored [OF 1 assms(3,4)] upsertDelivery_stored [OF 2] show ?thesis by simp
qed


text \<open>A store whose calls all succeed, with room for \<open>k\<close> more records.\<close>

definition ready :: "nat \<Rightarrow> Distributor \<Rightarrow> bool" where
  "ready k d \<longleftrightarrow>
     quiet (db_world d) \<and> \<not> ds_failed (db_store d) \<and> w_disk (db_world d) (jn_path (ds_journal (db_store d))) \<noteq> None
     \<and> unat (jn_lastSequence (ds_journal (db_store d))) + k < 2 ^ 64 \<and> 1024 \<le> jn_maxRecordBytes (ds_journal (db_store d))"

definition small :: "DeliveryRecord \<Rightarrow> bool" where
  "small r \<longleftrightarrow> delivery_ok r \<and> (case encodeDeliveryRecord r of Some (Inr bs) \<Rightarrow> length bs \<le> 1024 | _ \<Rightarrow> False)"

lemma upsert_ready:
  assumes "ready (Suc k) d" and "small r"
  shows "\<exists>d'. upsertDelivery r d = (Returned (), d') \<and> ready k d' \<and> db_now d' = db_now d
    \<and> d_state d' = (d_state d)\<lparr>cs_deliveries := om_put (dr_id r) r (cs_deliveries (d_state d))\<rparr>"
proof -
  let ?j = "ds_journal (db_store d)"
  obtain bs where e: "encodeDeliveryRecord r = Some (Inr bs)" and l: "length bs \<le> 1024" and ok: "delivery_ok r"
    using assms(2) by (auto simp: small_def split: option.splits sum.splits)
  obtain content where f: "w_disk (db_world d) (jn_path ?j) = Some content" using assms(1) by (auto simp: ready_def)
  have room: "jn_lastSequence ?j \<noteq> - 1" "unat (jn_lastSequence ?j + 1) = Suc (unat (jn_lastSequence ?j))"
  proof -
    show "jn_lastSequence ?j \<noteq> - 1"
      using assms(1) unsigned_minus_1_eq_mask [where 'a = nat and 'b = 64] by (auto simp: ready_def mask_eq_exp_minus_1)
    show "unat (jn_lastSequence ?j + 1) = Suc (unat (jn_lastSequence ?j))"
      using assms(1) by (simp add: ready_def unat_word_ariths)
  qed
  have a: "Journal_append ?j DeliveryUpsert bs (db_world d) =
    ((Inr (), ?j\<lparr>jn_lastSequence := jn_lastSequence ?j + 1, jn_recordCount := Suc (jn_recordCount ?j)\<rparr>),
     after_ops (record_ops (jn_path ?j) (length content) (next_record ?j DeliveryUpsert bs)) (db_world d))"
    using assms(1) l room f by (intro Journal_append_quiet) (auto simp: ready_def)
  let ?s = "(d_state d)\<lparr>cs_deliveries := om_put (dr_id r) r (cs_deliveries (d_state d))\<rparr>"
  let ?d = "d\<lparr>db_store := (db_store d)\<lparr>ds_state := ?s, ds_journal :=
      ?j\<lparr>jn_lastSequence := jn_lastSequence ?j + 1, jn_recordCount := Suc (jn_recordCount ?j)\<rparr>\<rparr>,
    db_world := after_ops (record_ops (jn_path ?j) (length content) (next_record ?j DeliveryUpsert bs)) (db_world d)\<rparr>"
  have "upsertDelivery r d = (Returned (), ?d)"
    using assms(1) a e l apply_delivery [OF ok e, of "d_state d"]
    by (simp add: upsertDelivery_def a_then_def a_encoded_def d_commit_def DurableStore_commit_def ControllerStateCodec_def
        ready_def d_state_def a_result_def a_return_def)
  moreover have "ready k ?d"
    using assms(1) room f by (auto simp: ready_def record_ops_def)
  ultimately show ?thesis by (intro exI [of _ ?d]) (simp add: d_state_def)
qed

definition moved ::
  "DeliveryRecord \<Rightarrow> DeliveryState \<Rightarrow> EvidenceKind \<Rightarrow> ErrorCode \<Rightarrow> int \<Rightarrow> ControllerState \<Rightarrow> DeliveryRecord" where
  "moved r to kind code n s =
     r\<lparr>dr_state := to, dr_updatedAtMillis := n, dr_authorityEpoch := cs_epoch s,
       dr_authorityIncarnation := cs_incarnation s, dr_lastError := code,
       dr_lastDirective := retryDirectiveFor code, dr_lastDetail := [],
       dr_events := push_event
         \<lparr>ev_kind = kind, ev_from = dr_state r, ev_to = to, ev_generation = dr_generation r,
          ev_digest = dr_digest r, ev_code = code, ev_directive = retryDirectiveFor code,
          ev_authorityEpoch = cs_epoch s, ev_authorityIncarnation = cs_incarnation s,
          ev_targetTerm = dr_targetTerm r, ev_targetIncarnation = dr_targetIncarnation r,
          ev_fromReconciliation = False, ev_atMillis = n, ev_detail = []\<rparr> (dr_events r)\<rparr>"

lemma transition_returns:
  assumes "ready (Suc k) d" and "isLegalTransition (dr_state r) to" and "db_now d = (\<lambda>_. 0)"
    and "small (moved r to kind code 0 (d_state d))"
  shows "\<exists>d'. recordTransition r to kind code [] False d = (Returned (moved r to kind code 0 (d_state d)), d')
    \<and> ready k d' \<and> db_now d' = (\<lambda>_. 0)
    \<and> d_state d' = (d_state d)\<lparr>cs_deliveries := om_put (dr_id r) (moved r to kind code 0 (d_state d)) (cs_deliveries (d_state d))\<rparr>"
proof -
  let ?d = "d\<lparr>db_ticks := Suc (db_ticks d)\<rparr>" and ?r = "moved r to kind code 0 (d_state d)"
  have "ready (Suc k) ?d" using assms(1) by (simp add: ready_def)
  from upsert_ready [OF this assms(4)] obtain d' where up: "upsertDelivery ?r ?d = (Returned (), d')" "ready k d'"
    "db_now d' = db_now ?d" "d_state d' = (d_state ?d)\<lparr>cs_deliveries := om_put (dr_id ?r) ?r (cs_deliveries (d_state ?d))\<rparr>"
    by blast
  have i: "dr_id ?r = dr_id r" by (simp add: moved_def)
  have now: "d_now d = (Returned 0, ?d)" using assms(3) by (simp add: d_now_def)
  have "recordTransition r to kind code [] False d = (Returned ?r, d')"
    using assms(2) up(1) now
    by (simp add: recordTransition_def applyTransition_def a_then_def a_result_def a_return_def a_get_def Let_def moved_def)
  then show ?thesis using up assms(3) i by (intro exI [of _ d']) (simp add: d_state_def)
qed

lemmas small_simps = small_def moved_def push_event_def pending_delivery_def emptyDeliveryRecord_def example_controller_def
  emptyControllerState_def delivery_ok_def event_ok_def isValidIdentifier_def identifier_char_def optionalIdentifier_def
  encodeDeliveryRecord_def writeDeliveryRecord_def writeLifecycleEvent_def enc_try_def enc_fail_if_def checkBounded_def
  encoded_def w_u8_def w_boolean_def w_u16_def w_u32_def w_u64_def w_i64_def w_bytes_def w_string_def w_digest_def
  w_opaque128_def string_bytes_def i64_range_def unset_digest_def kMaxIdentifierLength_def kMaxDeliveryDetailBytes_def
  kMaxEventsPerDelivery_def kMaxEvidenceDetailBytes_def kAbsoluteMaxFieldBytes_def

lemma example_small:
  "small (moved pending_delivery DeliveryState.Retired EvidenceKind.Superseded ErrorCode.Retired 0 example_controller)"
  "small (moved pending_delivery DeliveryState.Retired EvidenceKind.Superseded ErrorCode.Retired 0 example_controller
     \<lparr>dr_superseded := True\<rparr>)"
  "small (moved pending_delivery Offered OfferedToTarget Ok 0 example_controller)"
  by (simp_all add: small_simps emit.simps unset_identity_def unset_opaque_def)


subsection \<open>Resolving a deployment set\<close>

definition usable :: "DeploymentInstruction list \<Rightarrow> nat \<Rightarrow> bool" where
  "usable is' k \<longleftrightarrow>
     di_target (is' ! k) \<notin> di_target ` set (take k is')
     \<and> (di_endpoint (is' ! k) = [] \<or> (\<exists>e. parseEndpoint (di_endpoint (is' ! k)) = Inr e))"

lemma resolve_each_nth:
  "k < length is' \<Longrightarrow> resolve_each seen is' ! k =
     resolve_instruction (seen \<union> di_target ` set (take k is')) (is' ! k)"
proof (induction is' arbitrary: seen k)
  case (Cons i is')
  then show ?case by (cases k) (simp_all add: Un_assoc)
qed simp

lemma length_resolve_each [simp]: "length (resolve_each seen is') = length is'"
  by (induction is' arbitrary: seen) auto

lemma resolve_instruction_accepted:
  "rs_accepted (resolve_instruction seen i) \<longleftrightarrow>
     di_target i \<notin> seen \<and> (di_endpoint i = [] \<or> (\<exists>e. parseEndpoint (di_endpoint i) = Inr e))"
  by (auto simp: resolve_instruction_def Let_def split: sum.splits)

text \<open>
  C30: The resolution of a deployment set accepts exactly the usable instructions: one answer for each, in order,
  accepted exactly when the set is within the target budget, no earlier instruction names the same target, and the
  endpoint is absent or well formed.
\<close>

theorem resolution_exact:
  "length (resolveDeploymentSet d plan) = length (dp_instructions plan)
   \<and> map rs_target (resolveDeploymentSet d plan) = map di_target (dp_instructions plan)
   \<and> (\<forall>k \<in> {..<length (dp_instructions plan)}. rs_accepted (resolveDeploymentSet d plan ! k) =
        (length (dp_instructions plan) \<le> maxTargets (d_policy d) \<and> usable (dp_instructions plan) k))"
proof -
  let ?is = "dp_instructions plan"
  have targets: "map rs_target (resolve_each seen is') = map di_target is'" for seen is'
    by (induction is' arbitrary: seen) (auto simp: resolve_instruction_def Let_def)
  have "rs_accepted (resolve_each {} ?is ! k) = usable ?is k" if "k < length ?is" for k
    using that by (simp add: resolve_each_nth resolve_instruction_accepted usable_def)
  then show ?thesis
    using targets [of "{}" ?is] by (simp add: resolveDeploymentSet_def Let_def comp_def not_less)
qed

definition example_plan :: DeploymentPlan where
  "example_plan = \<lparr>dp_setId = ''set'', dp_rolloutSet = [], dp_instructions =
     [emptyInstruction\<lparr>di_target := ''t1''\<rparr>, emptyInstruction\<lparr>di_target := ''t1''\<rparr>]\<rparr>"

theorem resolution_exact_witness:
  "rs_accepted (resolveDeploymentSet example_distributor example_plan ! 0)
   \<and> \<not> rs_accepted (resolveDeploymentSet example_distributor example_plan ! 1)"
proof -
  have l: "length (dp_instructions example_plan) = 2" by (simp add: example_plan_def)
  have "2 \<le> maxTargets (d_policy example_distributor)"
    by (simp add: d_policy_def example_distributor_def defaultPolicy_def)
  moreover have "usable (dp_instructions example_plan) 0" "\<not> usable (dp_instructions example_plan) 1"
    by (simp_all add: usable_def example_plan_def emptyInstruction_def)
  ultimately show ?thesis
    using resolution_exact [of example_distributor example_plan] l by simp
qed

end
