(* ===== verification/DistributorStart.thy ===== *)
theory DistributorStart
  imports DistributorProperties ArtifactProperties
begin

text \<open>
  What a new process of the controller makes of the files the last one left: the next epoch, the recovered
  deliveries and targets, and no contact or claim of its predecessor.
\<close>

subsection \<open>The store under the artifact directory\<close>

definition store_paths :: "StoreOptions \<Rightarrow> string list" where
  "store_paths opts = [journal_path opts, slotPath (snapshot_path opts) CHR ''a'', slotPath (snapshot_path opts) CHR ''b'']"

lemma stored_cong:
  assumes "stored C opts e j s" and "list_all (\<lambda>p. e' p = e p) (store_paths opts)"
  shows "stored C opts e' j s"
  using assms by (simp add: stored_def loaded_def best_snapshot_def slot_view_def store_paths_def)

lemma path_filename_slash: "CHR ''/'' \<notin> set name \<Longrightarrow> path_filename (dir @ CHR ''/'' # name) = name"
  by (induction name rule: rev_induct) (auto simp: path_filename_def)

lemma store_paths_complete: "list_all (\<lambda>p. \<not> isPartialFileName (path_filename p)) (store_paths (controller_store_options options))"
proof -
  let ?o = "controller_store_options options"
  have "map path_filename (store_paths ?o) = [''controller.journal'', ''controller.snapshot.a'', ''controller.snapshot.b'']"
    using path_filename_slash [of "''controller.journal''"] path_filename_slash [of "''controller.snapshot.a''"]
      path_filename_slash [of "''controller.snapshot.b''"]
    by (simp add: store_paths_def journal_path_def snapshot_path_def slotPath_def controller_store_options_def)
  moreover have "list_all (\<lambda>n. \<not> isPartialFileName n) [''controller.journal'', ''controller.snapshot.a'', ''controller.snapshot.b'']"
    by code_simp
  ultimately show ?thesis by (metis (no_types, lifting) list.pred_map comp_apply list_all_cong)
qed

lemma open_artifacts_keeps_store:
  assumes "d_open_artifacts options report d = (Returned report', d')" and "quiet (db_world d)"
    and "stored C (controller_store_options options) (w_disk (db_world d)) j s"
    and "dso_artifactRoot options \<noteq> []"
  shows "quiet (db_world d') \<and> stored C (controller_store_options options) (w_disk (db_world d')) j s
    \<and> db_claimedTargets d' = db_claimedTargets d"
proof -
  let ?a = "\<lparr>aso_root = dso_artifactRoot options, aso_maxArtifactBytes = dso_maxArtifactBytes options,
              aso_maxTotalBytes = dso_maxStoreBytes options, aso_maxArtifacts = dso_maxArtifacts options,
              aso_readChunkBytes = 64 * 1024\<rparr>"
  have "dso_maxArtifactBytes options \<noteq> 0"
  proof
    assume "dso_maxArtifactBytes options = 0"
    with assms(1,4) show False by (simp add: d_open_artifacts_def ArtifactStore_open_def)
  qed
  then obtain s' r w' where o: "ArtifactStore_open (db_tree d) ?a report (db_world d) = ((Inr s', r), w')" "quiet w'"
    and keep: "\<And>p. \<not> isPartialFileName (path_filename p) \<Longrightarrow> w_disk w' p = w_disk (db_world d) p"
    using ArtifactStore_open_quiet [OF assms(2), of ?a "db_tree d" report] assms(4) by auto
  have "stored C (controller_store_options options) (w_disk w') j s"
    using store_paths_complete by (intro stored_cong [OF assms(3)]) (auto simp: list_all_iff keep)
  with o assms(1) show ?thesis by (auto simp: d_open_artifacts_def)
qed

lemma a_result_same: "a_result x d = (Returned v, d') \<Longrightarrow> d' = d"
  by (simp add: a_result_def a_return_def a_fail_def split: sum.splits)

subsection \<open>The new identity\<close>

lemma identity_applied:
  assumes "emit [w_string kMaxIdentifierLength n, w_u64 e, i, t] = Some bs"
    and "controller_apply s ControllerIdentity bs = (s', Inr ())"
  shows "cs_nodeId s' = n \<and> cs_epoch s' = e \<and> cs_targets s' = cs_targets s \<and> cs_deliveries s' = cs_deliveries s"
proof -
  obtain wn we rest where bs: "bs = wn @ we @ rest" "w_string kMaxIdentifierLength n = Some wn" "w_u64 e = Some we"
    using assms(1) by (auto simp: emit_Cons_eq_Some)
  have e: "r_u64 (we @ rest) = Inr (e, rest)" using u64.get_put bs(3) by blast
  obtain n' r where n': "readNodeId bs = Inr (n', r)"
    using assms(2) by (auto simp: controller_apply_def st_read_def split: sum.splits)
  then obtain w where "w_string kMaxIdentifierLength n' = Some w" "bs = w @ r"
    using validId.narrowed.put_get [folded readNodeId_def] by blast
  with string.get_put bs have "n' = n" "r = we @ rest" by (metis prod.inject sum.inject(2))+
  with n' e assms(2) show ?thesis
    by (auto simp: controller_apply_def st_read_def st_end_def split: sum.splits prod.splits)
qed

lemma committed_identity:
  assumes "d_commit_identity options d = (Returned (), d')"
  shows "unat (cs_epoch (d_state d')) = Suc (unat (cs_epoch (d_state d))) \<and> cs_nodeId (d_state d') = dso_nodeId options
    \<and> cs_targets (d_state d') = cs_targets (d_state d) \<and> cs_deliveries (d_state d') = cs_deliveries (d_state d)
    \<and> db_claimedTargets d' = db_claimedTargets d"
proof -
  obtain e where e: "checkedAdd (cs_epoch (d_state d)) 1 = Some e"
    using assms by (auto simp: d_commit_identity_def a_get_def a_fail_def split: option.splits)
  obtain x w where r: "draw_random (db_world d) = (x, w)" by fastforce
  define d1 where "d1 = d\<lparr>db_world := w, db_ticks := Suc (db_ticks d)\<rparr>"
  then have d1: "d_state d1 = d_state d" "db_claimedTargets d1 = db_claimedTargets d" by (simp_all add: d_state_def)
  obtain i t bs where bs: "emit [w_string kMaxIdentifierLength (dso_nodeId options), w_u64 e, i, t] = Some bs"
    and c: "d_commit ControllerIdentity bs d1 = (Returned (), d')"
    using assms e r
    by (fastforce simp: d_commit_identity_def a_get_def a_then_def d_io_def d_now_def a_written_def d1_def split: option.splits)
  have ok: "controller_apply (d_state d1) ControllerIdentity bs = (d_state d', Inr ())" "db_claimedTargets d' = db_claimedTargets d1"
    using c by (auto simp: d_commit_def DurableStore_commit_def ControllerStateCodec_def d_state_def a_result_def a_return_def a_fail_def
        split: prod.splits sum.splits if_splits)
  have "unat e = Suc (unat (cs_epoch (d_state d)))"
    using checkedAdd_Some [OF e] by simp
  with identity_applied [OF bs ok(1)] ok(2) d1 show ?thesis by simp
qed

subsection \<open>Property\<close>

text \<open>
  C6: A new process takes over from the last. Given the files of any reachable store, a controller that opens
  successfully has the next epoch under its own name, every delivery it finds as it was recorded, except that an unverified transfer is
  offered again, every target as recorded but none in contact, and no claim.
\<close>

theorem new_process_takes_over:
  assumes "Distributor_open options emptyStoreRecovery report d = (Returned (rcv, report'), d')"
    and "store_reachable ControllerStateCodec (\<lambda>s. length (cs_artifacts s) \<le> kMaxStateEntries) (controller_store_options options) st w"
    and "w_disk (db_world d) = w_disk w" and "quiet (db_world d)"
  shows "unat (cs_epoch (d_state d')) = Suc (unat (cs_epoch (ds_state st)))
    \<and> cs_nodeId (d_state d') = dso_nodeId options
    \<and> cs_deliveries (d_state d') = map (\<lambda>(k, r). (k, if dr_state r = Transferred
         then r\<lparr>dr_state := Offered, dr_lastDetail := reset_detail\<rparr> else r)) (cs_deliveries (ds_state st))
    \<and> cs_targets (d_state d') = map (\<lambda>(k, t). (k, without_contact t)) (cs_targets (ds_state st))
    \<and> db_claimedTargets d' = {}"
proof -
  let ?o = "controller_store_options options"
  let ?d0 = "d\<lparr>db_options := options, db_claimedTargets := {}, db_lastSessionAttemptMillis := [], db_verificationRequests := [],
      db_controlPort := 0, db_running := False, db_stopFlag := False, db_shutdownFlag := False\<rparr>"
  obtain r1 d1 r2 d2 d3 where root: "dso_artifactRoot options \<noteq> []"
    and d1: "d_open_artifacts options report ?d0 = (Returned r1, d1)"
    and d2: "d_open_store options emptyStoreRecovery d1 = (Returned r2, d2)"
    and d3: "d_commit_identity options d2 = (Returned (), d3)"
    and d': "d_compactIfNeeded (d_with_state reset_in_memory d3) = (Returned (), d')"
    using assms(1)
    by (auto simp: Distributor_open_def a_fail_def a_modify_def a_return_def elim!: a_thenE dest!: a_result_same split: if_splits)
  obtain j where st: "st = opened ?o j (ds_state st)" and files: "stored ControllerStateCodec ?o (w_disk w) j (forget_contact (ds_state st))"
    and dir: "so_directory ?o \<noteq> []"
    using controllerStore.reachable_stored [OF assms(2)] by auto
  have "quiet (db_world d1)" "stored ControllerStateCodec ?o (w_disk (db_world d1)) j (forget_contact (ds_state st))"
    and c1: "db_claimedTargets d1 = {}"
    using open_artifacts_keeps_store [OF d1 _ _ root, of ControllerStateCodec j "forget_contact (ds_state st)"] files assms(3,4)
    by simp_all
  from open_stored [OF this(1,2) dir] d2 have "d_state d2 = forget_contact (ds_state st)" "db_claimedTargets d2 = {}"
    using c1 by (auto simp: d_open_store_def d_state_def)
  with committed_identity [OF d3] d_compact_same [OF d'] show ?thesis
    by (auto simp: d_with_state_def d_state_def reset_in_memory_def forget_contact_def without_contact_def)
qed

subsection \<open>Example: the first restart\<close>

lemma fresh_store:
  assumes "so_directory opts \<noteq> []"
  shows "\<exists>st w. store_reachable C fits opts st w \<and> ds_state st = sc_initial C
    \<and> w_disk w = [journal_path opts \<mapsto> journal_file [segment_start 1]]"
proof -
  have e: "quiet empty_world" "no_store_files opts (w_disk empty_world)"
    by (simp_all add: empty_world_def quiet_def no_store_files_def)
  have l: "loaded C opts (w_disk empty_world) = Inr (sc_initial C, 0)"
    by (simp add: loaded_def best_snapshot_def slot_view_def better_def empty_world_def)
  have g: "segment 1 []"
    by (simp add: segment_def journal_ok_def record_ok_def segment_start_def sequence_breaks_def kMaxJournalRecordBytes_def)
  obtain jr w1 where o: "Journal_open (journal_path opts) kMaxJournalRecordBytes (so_durable opts) empty_world =
      (Some (Inr (store_journal opts 1 []), jr), w1)" "quiet w1"
      "w_disk w1 = [journal_path opts \<mapsto> journal_file [segment_start 1]]"
    using Journal_open_created [OF e(1), of "journal_path opts" "so_durable opts"]
    by (auto simp: store_journal_def journal_path_def empty_world_def)
  obtain rcv where "DurableStore_open C opts emptyStoreRecovery empty_world =
      (Some (Inr (opened opts (store_journal opts 1 []) (sc_initial C)), rcv), w1)"
    using open_after_journal [OF e(1) l assms g _ _ o(1,2)] o(3) by auto
  from store_reachable.created [OF e(1) assms e(2) this] o(3) show ?thesis by (intro exI) auto
qed

definition restart_options :: DistributorOptions where
  "restart_options = db_options example_distributor"

definition restarted :: Distributor where
  "restarted = example_distributor\<lparr>db_world := empty_world\<lparr>
     w_disk := [''d/controller.journal'' \<mapsto> journal_file [segment_start 1]], w_random := \<lambda>_. replicate 16 9\<rparr>\<rparr>"

lemma restart_paths: "journal_path (controller_store_options restart_options) = ''d/controller.journal''"
  by (simp add: journal_path_def controller_store_options_def restart_options_def example_distributor_def)

lemma identity_record:
  obtains bs s where "emit [w_string kMaxIdentifierLength ''n'', w_u64 1, w_opaque128 (replicate 16 9), w_i64 0] = Some bs"
    and "length bs = 37" and "controller_apply emptyControllerState ControllerIdentity bs = (s, Inr ())"
proof -
  let ?n = "le_store 4 (1 :: u32) @ string_bytes ''n''" and ?e = "le_store 8 (1 :: u64)" and ?i = "replicate 16 (9 :: 8 word)"
    and ?t = "le_store 8 (0 :: u64)"
  have w: "w_string kMaxIdentifierLength ''n'' = Some ?n" "w_u64 1 = Some ?e" "w_opaque128 ?i = Some ?i" "w_i64 0 = Some ?t"
    by (simp_all add: w_string_def w_u32_def w_bytes_def emit.simps w_u64_def w_opaque128_def w_i64_def kMaxIdentifierLength_def
        kAbsoluteMaxFieldBytes_def string_bytes_def)
  have "isValidIdentifier ''n''" by (simp add: isValidIdentifier_def identifier_char_def kMaxIdentifierLength_def)
  then have r: "readNodeId (?n @ rest) = Inr (''n'', rest)" "r_u64 (?e @ rest) = Inr (1, rest)" "readIncarnation (?i @ rest) = Inr (?i, rest)"
    "r_i64 ?t = Inr (0, [])" for rest
    using validId.narrowed.get_put [folded readNodeId_def, OF _ w(1), of rest] w u64.get_put opaque128.get_put i64.get_put [of 0 ?t "[]"]
    by (simp_all add: plain_readers i64_range_def)
  have "\<exists>s. controller_apply emptyControllerState ControllerIdentity (?n @ ?e @ ?i @ ?t) = (s, Inr ())"
    using r(1) [of "?e @ ?i @ ?t"] r(2) [of "?i @ ?t"] r(3) [of ?t] r(4)
    by (simp add: controller_apply_def st_read_def st_end_def r_requireEnd_def cf_try_def)
  then show ?thesis using that [of "?n @ ?e @ ?i @ ?t"] w by (auto simp: emit.simps string_bytes_def)
qed

abbreviation empty_report :: ArtifactRecoveryReport where
  "empty_report \<equiv> \<lparr>arr_removedPartialFiles = 0, arr_unreadableMetadataFiles = 0, arr_artifactsIndexed = 0, arr_indexedBytes = 0\<rparr>"

lemma restart_commits:
  assumes "db_store d = opened (controller_store_options restart_options) (store_journal (controller_store_options restart_options) 1 [])
      emptyControllerState"
    and "db_world d = db_world restarted" and "db_now d = (\<lambda>_. 0)"
  shows "\<exists>d'. a_then (d_commit_identity restart_options) (\<lambda>_. a_then (a_modify (d_with_state reset_in_memory)) (\<lambda>_.
      a_then d_compactIfNeeded (\<lambda>_. a_return ()))) d = (Returned (), d')"
proof -
  let ?O = "controller_store_options restart_options" and ?w = "(db_world restarted)\<lparr>w_draws := 1\<rparr>"
  let ?j = "store_journal ?O 1 []"
  obtain bs s where bs: "emit [w_string kMaxIdentifierLength ''n'', w_u64 1, w_opaque128 (replicate 16 9), w_i64 0] = Some bs"
    "length bs = 37" "controller_apply emptyControllerState ControllerIdentity bs = (s, Inr ())"
    by (rule identity_record)
  have j: "jn_path ?j = ''d/controller.journal''" "jn_lastSequence ?j = 1" "jn_maxRecordBytes ?j = kMaxJournalRecordBytes"
    by (simp_all add: store_journal_simps restart_paths segment_start_def)
  have content: "w_disk ?w (jn_path ?j) = Some (journal_file [segment_start 1])" "quiet ?w"
    by (simp_all add: restarted_def j quiet_def empty_world_def)
  let ?r = "next_record ?j ControllerIdentity bs"
  let ?w' = "after_ops (record_ops (jn_path ?j) (length (journal_file [segment_start 1])) ?r) ?w"
  have app: "Journal_append ?j ControllerIdentity bs ?w =
      ((Inr (), ?j\<lparr>jn_lastSequence := jn_lastSequence ?j + 1, jn_recordCount := Suc (jn_recordCount ?j)\<rparr>), ?w')"
    using j bs(2) by (intro Journal_append_quiet [OF content(2,1)]) (simp_all add: kMaxJournalRecordBytes_def)
  have "w_disk ?w' (jn_path ?j) = Some (journal_file [segment_start 1] @ record_bytes ?r)"
    using record_ops_result [of "w_disk ?w" "jn_path ?j", OF content(1)] by simp
  then have size: "Journal_sizeBytes (?j\<lparr>jn_lastSequence := n, jn_recordCount := k\<rparr>) ?w' < 4 * 1024 * 1024" for n k
    using bs(2) by (simp add: Journal_sizeBytes_def file_size_def journal_file_simps next_record_def segment_start_def)
  let ?d1 = "d\<lparr>db_world := ?w, db_ticks := Suc (db_ticks d)\<rparr>"
  let ?d2 = "?d1\<lparr>db_store := opened ?O (?j\<lparr>jn_lastSequence := jn_lastSequence ?j + 1, jn_recordCount := Suc (jn_recordCount ?j)\<rparr>) s,
    db_world := ?w'\<rparr>"
  have "d_commit ControllerIdentity bs ?d1 = (Returned (), ?d2)"
    using assms(1) app bs(2,3) j(3)
    by (simp add: d_commit_def DurableStore_commit_def ControllerStateCodec_def a_result_def a_return_def kMaxJournalRecordBytes_def)
  moreover have "d_io draw_random d = (Returned (replicate 16 9), d\<lparr>db_world := ?w\<rparr>)"
    using assms(2) by (simp add: d_io_def draw_random_def restarted_def empty_world_def)
  moreover have "checkedAdd (cs_epoch (d_state d)) 1 = Some 1" "dso_nodeId restart_options = ''n''"
    using assms(1) by (simp_all add: d_state_def emptyControllerState_def checkedAdd_def restart_options_def example_distributor_def)
  ultimately have "d_commit_identity restart_options d = (Returned (), ?d2)"
    using bs(1) assms(3) by (simp add: d_commit_identity_def a_get_def a_then_def d_now_def a_written_def)
  moreover have "d_compactIfNeeded (d_with_state reset_in_memory ?d2) = (Returned (), d_with_state reset_in_memory ?d2)"
    using size by (simp add: d_compactIfNeeded_def d_with_state_def DurableStore_compactIfNeeded_def controller_store_options_def
        a_result_def a_return_def)
  ultimately show ?thesis by (simp add: a_then_def a_modify_def a_return_def)
qed

theorem new_process_takes_over_witness:
  "\<exists>rcv report' d'. Distributor_open restart_options emptyStoreRecovery empty_report restarted = (Returned (rcv, report'), d')
     \<and> unat (cs_epoch (d_state d')) = 1 \<and> cs_nodeId (d_state d') = ''n'' \<and> db_claimedTargets d' = {}"
proof -
  let ?o = restart_options and ?O = "controller_store_options restart_options" and ?w = "db_world restarted"
  have o: "dso_nodeId ?o = ''n''" "dso_stateDirectory ?o = ''d''" "dso_artifactRoot ?o = ''a''" "dso_maxArtifactBytes ?o = 100"
    "dso_policy ?o = defaultPolicy" "so_directory ?O \<noteq> []"
    by (simp_all add: restart_options_def example_distributor_def controller_store_options_def)
  have policy: "DistributorPolicy_validate defaultPolicy = Inr ()" by (simp add: DistributorPolicy_validate_def defaultPolicy_def)
  have w: "quiet ?w" "w_disk ?w = [journal_path ?O \<mapsto> journal_file [segment_start 1]]" "db_tree restarted = (\<lambda>_ _. [])"
    "db_now restarted = (\<lambda>_. 0)"
    unfolding restart_paths by (simp_all add: restarted_def quiet_def empty_world_def example_distributor_def)
  have l: "loaded ControllerStateCodec ?O Map.empty = Inr (emptyControllerState, 0)"
    by (simp add: loaded_def best_snapshot_def slot_view_def better_def codec_initial)
  have "stored ControllerStateCodec ?O (w_disk ?w) (store_journal ?O 1 []) emptyControllerState"
    using restart_stored [OF l] w(2) by simp
  from open_stored [OF w(1) this o(6)] obtain rcv where store: "DurableStore_open ControllerStateCodec ?O emptyStoreRecovery ?w =
      (Some (Inr (opened ?O (store_journal ?O 1 []) emptyControllerState), rcv), ?w)"
    by blast
  define d0 where "d0 = restarted\<lparr>db_options := ?o, db_claimedTargets := {}, db_lastSessionAttemptMillis := [],
      db_verificationRequests := [], db_controlPort := 0, db_running := False, db_stopFlag := False, db_shutdownFlag := False\<rparr>"
  then have d0: "db_world d0 = ?w" "db_tree d0 = (\<lambda>_ _. [])" "db_now d0 = (\<lambda>_. 0)" using w by simp_all
  obtain s report' where art: "d_open_artifacts ?o empty_report d0 = (Returned report', d0\<lparr>db_world := ?w, db_artifacts := s\<rparr>)"
    using o w(1) d0 by (simp add: d_open_artifacts_def ArtifactStore_open_def loadIndex_def os_quiet Let_def)
  let ?d2 = "d0\<lparr>db_artifacts := s, db_world := ?w, db_store := opened ?O (store_journal ?O 1 []) emptyControllerState\<rparr>"
  have "d_open_store ?o emptyStoreRecovery (d0\<lparr>db_world := ?w, db_artifacts := s\<rparr>) = (Returned rcv, ?d2)"
    using store d0 by (simp add: d_open_store_def)
  moreover obtain d' where "a_then (d_commit_identity ?o) (\<lambda>_. a_then (a_modify (d_with_state reset_in_memory)) (\<lambda>_.
      a_then d_compactIfNeeded (\<lambda>_. a_return ()))) ?d2 = (Returned (), d')"
    using restart_commits [of ?d2] d0 by auto
  ultimately have run: "Distributor_open ?o emptyStoreRecovery empty_report restarted = (Returned (rcv, report'), d')"
    using art o policy
    by (auto simp: Distributor_open_def a_then_def a_result_def a_return_def a_modify_def d0_def [symmetric] split: prod.splits outcome.splits)
  obtain st v where "store_reachable ControllerStateCodec (\<lambda>s. length (cs_artifacts s) \<le> kMaxStateEntries) ?O st v"
    "ds_state st = emptyControllerState" "w_disk v = w_disk ?w"
    using fresh_store [OF o(6)] codec_initial w(2) by metis
  with new_process_takes_over [OF run this(1)] w(1) o(1) run show ?thesis by (auto simp: emptyControllerState_def)
qed

end
