(* ===== verification/ControlProperties.thy ===== *)
theory ControlProperties
  imports DistributorProperties
begin

text \<open>
  The properties of the control channel: the command line, who is served, and which commands change anything.
\<close>

subsection \<open>The command line\<close>

text \<open>A request written so that the parser reads it back: every token in quotes, quotes and backslashes escaped.\<close>

definition escaped :: "string \<Rightarrow> string" where
  "escaped a = concat (map (\<lambda>c. if c = CHR 0x22 \<or> c = CHR 0x5C then [CHR 0x5C, c] else [c]) a)"

definition quoted :: "string \<Rightarrow> string" where
  "quoted a = CHR 0x22 # escaped a @ [CHR 0x22]"

definition control_line :: "ControlRequest \<Rightarrow> string" where
  "control_line r = quoted (cr_command r) @ concat (map (\<lambda>a. CHR '' '' # quoted a) (cr_arguments r))"

lemma parse_escaped:
  "lp_inQuotes p \<Longrightarrow> lp_haveToken p \<Longrightarrow>
     parse_chars (escaped a @ rest) p = parse_chars rest (p\<lparr>lp_current := lp_current p @ a\<rparr>)"
proof (induction a arbitrary: p)
  case Nil
  then show ?case by (simp add: escaped_def)
next
  case (Cons c a)
  let ?q = "p\<lparr>lp_current := lp_current p @ [c]\<rparr>"
  have q: "add_char c p = ?q" using Cons.prems by (cases p) (simp add: add_char_def)
  have "parse_chars (escaped (c # a) @ rest) p = parse_chars (escaped a @ rest) ?q"
    using Cons.prems q by (simp add: escaped_def)
  with Cons.IH [of ?q] Cons.prems show ?case by simp
qed

lemma parse_quoted:
  assumes "\<not> lp_inQuotes p" and "lp_current p = []"
  shows "parse_chars (quoted a @ rest) p = parse_chars rest (p\<lparr>lp_current := a, lp_haveToken := True\<rparr>)"
  using assms by (cases p) (simp add: quoted_def parse_escaped)

lemma parse_arguments:
  assumes "\<not> lp_inQuotes p" and "lp_haveToken p" and "cr_command (push_token p) \<noteq> []"
  shows "\<not> lp_inQuotes (parse_chars (concat (map (\<lambda>a. CHR '' '' # quoted a) as)) p)
    \<and> push_token (parse_chars (concat (map (\<lambda>a. CHR '' '' # quoted a) as)) p)
        = (push_token p)\<lparr>cr_arguments := cr_arguments (push_token p) @ as\<rparr>"
  using assms
proof (induction "as" arbitrary: p)
  case (Cons a "as")
  let ?q = "p\<lparr>lp_request := push_token p, lp_current := a, lp_haveToken := True\<rparr>"
  have "push_token ?q = (push_token p)\<lparr>cr_arguments := cr_arguments (push_token p) @ [a]\<rparr>"
    using Cons.prems(3) by (simp add: push_token_def [of ?q] Let_def)
  moreover have "parse_chars (concat (map (\<lambda>a. CHR '' '' # quoted a) (a # as))) p
      = parse_chars (concat (map (\<lambda>a. CHR '' '' # quoted a) as)) ?q"
    using Cons.prems by (simp add: end_token_def parse_quoted)
  ultimately show ?case using Cons.IH [of ?q] Cons.prems by simp
qed simp

lemma parse_line:
  assumes "cr_command r \<noteq> []"
  shows "\<not> lp_inQuotes (parse_chars (control_line r) emptyLineParser)
    \<and> push_token (parse_chars (control_line r) emptyLineParser) = r"
proof -
  let ?p = "emptyLineParser\<lparr>lp_current := cr_command r, lp_haveToken := True\<rparr>"
  have "push_token ?p = \<lparr>cr_command = cr_command r, cr_arguments = []\<rparr>"
    by (simp add: push_token_def emptyLineParser_def)
  then show ?thesis
    using parse_arguments [of ?p "cr_arguments r"] assms parse_quoted [of emptyLineParser "cr_command r"]
    by (simp add: control_line_def emptyLineParser_def)
qed

text \<open>
  C32: The command line loses nothing. A request written with every token quoted is read back exactly, whatever
  characters its tokens have, and this is so for precisely the requests with a command and at most
  the allowed number of arguments (sixteen).
\<close>

theorem command_line_roundtrip:
  "(parseControlLine (control_line r) = Inr r)
     = (cr_command r \<noteq> [] \<and> length (cr_arguments r) \<le> kMaxControlArguments)"
proof
  assume "parseControlLine (control_line r) = Inr r"
  then show "cr_command r \<noteq> [] \<and> length (cr_arguments r) \<le> kMaxControlArguments"
    by (auto simp: parseControlLine_def Let_def split: if_splits)
next
  assume r: "cr_command r \<noteq> [] \<and> length (cr_arguments r) \<le> kMaxControlArguments"
  with parse_line [of r] show "parseControlLine (control_line r) = Inr r"
    by (simp add: parseControlLine_def Let_def)
qed

subsection \<open>Access\<close>

text \<open>
  C28: Only a holder of the key is served. When the controller authenticates, a connection either opens with a
  ControlHello whose tag is the one of the key, or fails without an answer: no byte is written and nothing but
  the connection itself has changed.
\<close>

theorem control_needs_key:
  assumes "dso_authenticate (db_options d)"
    and "serveControlConnection writes reads d = (x, d')"
  shows "(\<exists>f i. FramedConnection_receive (FrameInput_open kDefaultMaxPayloadBytes reads) = (Inr f, i)
            \<and> fh_type (fr_header f) = ControlHello
            \<and> verifyAuthenticated (fr_payload f) (dso_key (db_options d)) = Inr ())
    \<or> ((\<exists>e. x = Failed e) \<and> fo_written (db_out d') = [] \<and> d'\<lparr>db_in := db_in d, db_out := db_out d\<rparr> = d)"
proof -
  let ?d = "d\<lparr>db_in := FrameInput_open kDefaultMaxPayloadBytes reads,
       db_out := \<lparr>fo_maxPayloadBytes = kDefaultMaxPayloadBytes, fo_bytesSent = 0, fo_answers = writes, fo_written = []\<rparr>\<rparr>"
  have run: "a_then control_hello (\<lambda>_. serve_requests) ?d = (x, d')"
    using assms(2) by (simp add: serveControlConnection_def accept_control_def a_then_def [of "a_modify _"] a_modify_def)
  obtain r i where rec: "FramedConnection_receive (FrameInput_open kDefaultMaxPayloadBytes reads) = (r, i)" by fastforce
  show ?thesis
  proof (cases r)
    case (Inl e)
    then show ?thesis
      using run rec by (auto simp: control_hello_def a_then_def d_receive_def)
  next
    case (Inr f)
    show ?thesis
    proof (cases "fh_type (fr_header f) = ControlHello")
      case False
      then show ?thesis
        using run rec Inr by (auto simp: control_hello_def a_then_def d_receive_def a_fail_def)
    next
      case hello: True
      show ?thesis
      proof (cases "verifyAuthenticated (fr_payload f) (dso_key (db_options d))")
        case (Inr u)
        then show ?thesis using rec \<open>r = Inr f\<close> hello by auto
      next
        case (Inl e)
        then show ?thesis
          using run rec \<open>r = Inr f\<close> hello assms(1)
          by (cases "decodeControlHello (fr_payload f)")
             (auto simp: control_hello_def a_then_def d_receive_def a_fail_def a_result_def a_get_def a_return_def)
      qed
    qed
  qed
qed

theorem control_needs_key_witness:
  "dso_authenticate (db_options example_distributor)
   \<and> (\<exists>e. fst (serveControlConnection [] [Inl ConnectionClosed] example_distributor) = Failed e)
   \<and> fo_written (db_out (snd (serveControlConnection [] [Inl ConnectionClosed] example_distributor))) = []"
proof -
  have au: "dso_authenticate (db_options example_distributor)" by (simp add: example_distributor_def)
  have "\<exists>e i. FramedConnection_receive (FrameInput_open kDefaultMaxPayloadBytes [Inl ConnectionClosed]) = (Inl e, i)"
    by (subst FramedConnection_receive.simps) (simp add: FrameInput_open_def read_once_def cf_try_def split: sum.splits)
  then have no: "\<not> (\<exists>f i. FramedConnection_receive (FrameInput_open kDefaultMaxPayloadBytes [Inl ConnectionClosed]) = (Inr f, i)
      \<and> fh_type (fr_header f) = ControlHello \<and> verifyAuthenticated (fr_payload f) (dso_key (db_options example_distributor)) = Inr ())"
    by auto
  obtain x d' where run: "serveControlConnection [] [Inl ConnectionClosed] example_distributor = (x, d')" by fastforce
  from control_needs_key [OF au run] no have "(\<exists>e. x = Failed e) \<and> fo_written (db_out d') = []" by blast
  then show ?thesis using au run by simp
qed

subsection \<open>Commands that only look\<close>

interpretation lk: action_relation "\<lambda>d d'. d'\<lparr>db_ticks := 0\<rparr> = d\<lparr>db_ticks := 0\<rparr>"
  by unfold_locales simp_all

lemma lk_now: "lk.at d d_now"
  unfolding lk.at_def by (simp add: d_now_def)

text \<open>
  Inspecting changes nothing. Every command but the four that act (verify-artifacts, plan, retire, verify), the
  unknown ones included, leaves the controller as it was, except that the clock may have been read.
\<close>

theorem queries_change_nothing:
  assumes "cr_command request \<notin> {''verify-artifacts'', ''plan'', ''retire'', ''verify''}"
    and "executeControlCommand request d = (x, d')"
  shows "d'\<lparr>db_ticks := 0\<rparr> = d\<lparr>db_ticks := 0\<rparr>"
proof -
  have "lk.at d (executeControlCommand request)"
    unfolding executeControlCommand_def Let_def Distributor_convergence_def Distributor_explain_def
    using assms(1) by (intro lk.at_intros lk_now) simp_all
  then show ?thesis using assms(2) by (rule lk.atD)
qed

theorem queries_change_nothing_witness:
  "\<exists>x d'. executeControlCommand \<lparr>cr_command = ''explain'', cr_arguments = [''t1'']\<rparr> example_distributor = (x, d')
     \<and> d_state d' = example_controller"
proof -
  let ?r = "\<lparr>cr_command = ''explain'', cr_arguments = [''t1'']\<rparr>"
  obtain x d' where run: "executeControlCommand ?r example_distributor = (x, d')" by fastforce
  have "d'\<lparr>db_ticks := 0\<rparr> = example_distributor\<lparr>db_ticks := 0\<rparr>"
    by (rule queries_change_nothing [OF _ run]) simp
  from arg_cong [OF this, of db_store] have "db_store d' = db_store example_distributor" by simp
  with run show ?thesis by (metis d_state_def example_state_of)
qed

end
