(* ===== verification/Conversation.thy ===== *)
theory Conversation
  imports ControlProperties
begin

text \<open>
  The two ends of the control channel together: the client's frames through the server and the server's frames
  through the client, whatever way the bytes are cut on the way.
\<close>

subsection \<open>Frames that will be received\<close>

fun awaits :: "FrameInput \<Rightarrow> Frame list \<Rightarrow> bool" where
  "awaits c [] = True"
| "awaits c (f # fs) = (\<exists>c'. FramedConnection_receive c = (Inr f, c') \<and> awaits c' fs)"

lemma awaits_ready: "awaits c (fi_ready c)"
proof (induction "fi_ready c" arbitrary: c)
  case (Cons f fs)
  then have "awaits (c\<lparr>fi_ready := fs\<rparr>) fs" using Cons.hyps(1) [of "c\<lparr>fi_ready := fs\<rparr>"] by simp
  then have "awaits c (f # fs)" using Cons.hyps(2) by (auto simp: FramedConnection_receive.simps [of c] dest!: sym [of "f # fs"])
  with Cons.hyps(2) show ?case by simp
qed simp

lemma awaits_after_read:
  assumes "read_once (c\<lparr>fi_ready := []\<rparr>) = (Inr (), c')" and "awaits c' fs"
  shows "awaits c (fi_ready c @ fs)"
  using assms
proof (induction "fi_ready c" arbitrary: c)
  case Nil
  then have same: "c\<lparr>fi_ready := []\<rparr> = c" by (cases c) simp
  have "FramedConnection_receive c = FramedConnection_receive c'"
    using Nil same by (subst FramedConnection_receive.simps) (simp split: prod.split)
  with Nil show ?case by (cases fs) auto
next
  case (Cons g gs)
  let ?c = "c\<lparr>fi_ready := gs\<rparr>"
  have "awaits ?c (gs @ fs)" using Cons.hyps(1) [of ?c] Cons.prems by simp
  then have "awaits c (g # gs @ fs)"
    using Cons.hyps(2) by (auto simp: FramedConnection_receive.simps [of c] dest!: sym [of "g # gs"])
  with Cons.hyps(2) show ?case by (metis append_Cons)
qed

lemma awaits_feed:
  "feed_all (fi_decoder c) chunks = (dec, fs, Inr ()) \<Longrightarrow> fi_reads c = map Inr chunks \<Longrightarrow> awaits c (fi_ready c @ fs)"
proof (induction chunks arbitrary: c fs)
  case Nil
  then show ?case by (simp add: awaits_ready)
next
  case (Cons data chunks)
  obtain e gs st where feed: "FrameDecoder_feed (fi_decoder c) data = (e, gs, st)" by (cases "FrameDecoder_feed (fi_decoder c) data")
  with Cons.prems obtain hs where st: "st = Inr ()" and rest: "feed_all e chunks = (dec, hs, Inr ())" and fs: "fs = gs @ hs"
    by (auto split: sum.splits prod.splits)
  obtain c' where c': "read_once (c\<lparr>fi_ready := []\<rparr>) = (Inr (), c')" "fi_ready c' = gs" "fi_decoder c' = e" "fi_reads c' = map Inr chunks"
    using feed st Cons.prems(2) by (simp add: read_once_def)
  have "awaits c' (gs @ hs)" using Cons.IH [of c' hs] c' rest by simp
  with awaits_after_read [OF c'(1)] fs show ?case by simp
qed

text \<open>What the other end sends is received, however the stream is cut.\<close>

lemma awaits_sent:
  assumes "m \<le> kAbsoluteMaxPayloadBytes" and "list_all (sendable m) msgs"
    and "concat chunks = concat (map (wire_bytes m) msgs)" and "length (concat chunks) < 2 ^ 64"
  shows "awaits (FrameInput_open m (map Inr chunks)) (map wire_frame msgs)"
proof -
  obtain d fs st where f: "feed_all (FrameDecoder_init m) chunks = (d, fs, st)" by (cases "feed_all (FrameDecoder_init m) chunks")
  have "\<exists>r. parse_frames m (concat chunks) = (fs, r, st)"
    using feed_all_refines [OF fd_inv_init [OF assms(1)] _ f] assms(4) by (auto simp: FrameDecoder_init_def fd_pending_def)
  with parse_sent [OF assms(1,2)] assms(3) have "fs = map wire_frame msgs" "st = Inr ()" by auto
  with f show ?thesis
    using awaits_feed [of "FrameInput_open m (map Inr chunks)" chunks d fs] by (simp add: FrameInput_open_def)
qed

text \<open>An outgoing half with the default ceiling whose socket takes everything, and what was written to it.\<close>

definition clear :: "bytes list \<Rightarrow> FrameOutput \<Rightarrow> bool" where
  "clear ws out \<longleftrightarrow> fo_maxPayloadBytes out = kDefaultMaxPayloadBytes \<and> fo_answers out = [] \<and> fo_written out = ws"

abbreviation on_wire :: "wire_message \<Rightarrow> bytes" where
  "on_wire \<equiv> wire_bytes kDefaultMaxPayloadBytes"

lemma default_ceiling: "kDefaultMaxPayloadBytes \<le> kAbsoluteMaxPayloadBytes"
  by (simp add: kDefaultMaxPayloadBytes_def kAbsoluteMaxPayloadBytes_def)

lemma sent_message:
  assumes "sendable kDefaultMaxPayloadBytes (t, flags, p)" and "clear ws out"
  shows "\<exists>out'. FramedConnection_send t flags p out = (Inr (), out') \<and> clear (ws @ [on_wire (t, flags, p)]) out'"
proof -
  let ?m = kDefaultMaxPayloadBytes
  obtain bs where e: "encodeFrame t flags p ?m = Inr bs"
    using assms(1) default_ceiling by (auto simp: sendable_def encodeFrame_Inr_iff)
  then have "on_wire (t, flags, p) = bs" by (simp add: wire_bytes_def valueOr_def)
  with e assms(2) show ?thesis
    by (simp add: FramedConnection_send_def clear_def Socket_writeAll_def)
qed

subsection \<open>The messages\<close>

definition hello_payload :: "bytes \<Rightarrow> bool \<Rightarrow> bytes \<Rightarrow> bytes" where
  "hello_payload key authenticate nonce =
     (let bs = le_store 4 (5 :: u32) @ string_bytes ''cfctl'' @ nonce @ replicate 32 0 in
      if authenticate then take (length bs - 32) bs @ hmacSha256 key bs else bs)"

lemma hello_encoded:
  assumes "length nonce = 16"
  shows "encodeControlHello \<lparr>controlHello_clientName = ''cfctl'', controlHello_nonce = nonce,
      controlHello_authTag = replicate kAuthTagBytes 0\<rparr> = Some (Inr (hello_payload key False nonce))"
  using assms
  by (simp add: encodeControlHello_def hello_payload_def enc_fail_if_def encoded_def emit.simps w_string_def w_u32_def w_bytes_def
      w_opaque128_def w_sha256_def kMaxIdentifierLength_def kAbsoluteMaxFieldBytes_def kAuthTagBytes_def Let_def string_bytes_def)

lemma hello_sealed:
  assumes "length nonce = 16"
  shows "sealAuthenticated (hello_payload key False nonce) key = Inr (hello_payload key True nonce)"
  using assms
  by (simp add: sealAuthenticated_Inr_iff hello_payload_def Let_def kAuthTagBytes_def zero_tag_def string_bytes_def)

lemma hello_decoded:
  assumes "length nonce = 16"
  shows "\<exists>tag. decodeControlHello (hello_payload key authenticate nonce) =
    Inr \<lparr>controlHello_clientName = ''cfctl'', controlHello_nonce = nonce, controlHello_authTag = tag\<rparr>"
  using assms
  by (cases authenticate)
     (auto simp: decodeControlHello_iff encodeControlHello_def hello_payload_def enc_fail_if_def encoded_def emit.simps w_string_def
      w_u32_def w_bytes_def w_opaque128_def w_sha256_def kMaxIdentifierLength_def kAbsoluteMaxFieldBytes_def Let_def string_bytes_def
      intro!: exI [of _ "hmacSha256 key _"] exI [of _ "replicate 32 0"])

lemma hello_verified:
  "length nonce = 16 \<Longrightarrow> verifyAuthenticated (hello_payload key True nonce) key = Inr ()"
  using seal_idempotent [OF hello_sealed] by (simp add: verifyAuthenticated_iff)

lemma hello_sendable: "length nonce = 16 \<Longrightarrow> sendable kDefaultMaxPayloadBytes (ControlHello, 0, hello_payload key authenticate nonce)"
  by (simp add: sendable_def hello_payload_def Let_def kDefaultMaxPayloadBytes_def string_bytes_def)

lemma request_sendable:
  assumes "encodeControlRequest m = Some (Inr bs)"
  shows "sendable kDefaultMaxPayloadBytes (FrameType.ControlRequest, 0, bs)"
proof -
  obtain w where m: "length (controlRequest_command m) \<le> 32" "length (controlRequest_arguments m) \<le> 16"
    and w: "emit (map (w_string kMaxControlArgumentBytes) (controlRequest_arguments m)) = Some w"
    and bs: "emit [w_string kMaxControlCommandBytes (controlRequest_command m),
                   w_u32 (of_nat (length (controlRequest_arguments m))), Some w] = Some bs"
    using assms
    by (auto simp: encodeControlRequest_iff writeArguments_iff kMaxControlCommandBytes_def kMaxControlArguments_def)
  have args: "emit (map (w_string kMaxControlArgumentBytes) xs) = Some v \<Longrightarrow> length v \<le> length xs * 516" for xs v
  proof (induction xs arbitrary: v)
    case (Cons a xs)
    then obtain x b where "w_string kMaxControlArgumentBytes a = Some x" and "length b \<le> length xs * 516" and "v = x @ b"
      by (auto simp: emit_Cons_eq_Some)
    then show ?case by (simp add: w_string_eq_Some_iff kMaxControlArgumentBytes_def string_bytes_def)
  qed (simp add: emit_Nil_eq_Some)
  have "length bs \<le> 40 + length w"
    using bs m by (auto simp: emit_Cons_eq_Some emit_Nil_eq_Some w_string_eq_Some_iff w_u32_def string_bytes_def)
  then have "length bs \<le> unat kDefaultMaxPayloadBytes"
    using args [OF w] m(2) by (simp add: kDefaultMaxPayloadBytes_def)
  then show ?thesis by (simp add: sendable_def)
qed

lemma response_encoded:
  assumes "length (controlResponse_body m) \<le> kMaxControlBodyBytes"
  shows "\<exists>bs. encodeControlResponse m = Some (Inr bs) \<and> sendable kDefaultMaxPayloadBytes (ControlResponse, kFrameFlagResponse, bs)"
  using assms
  by (auto simp: encodeControlResponse_def enc_fail_if_def encoded_def emit.simps w_string_def w_u32_def w_bytes_def w_u16_def
      kMaxControlBodyBytes_def kAbsoluteMaxFieldBytes_def sendable_def kDefaultMaxPayloadBytes_def kFrameFlagResponse_def
      kFrameFlagKnownMask_def string_bytes_def)

lemma ack_encoded:
  assumes "isValidIdentifier (controlHelloAck_nodeId m)" and "length (controlHelloAck_incarnation m) = 16"
    and "length (controlHelloAck_nonce m) = 16" and "length (controlHelloAck_authTag m) = 32"
  shows "\<exists>bs. encodeControlHelloAck m = Some (Inr bs) \<and> decodeControlHelloAck bs = Inr m
    \<and> sendable kDefaultMaxPayloadBytes (ControlHelloAck, kFrameFlagResponse, bs)"
proof -
  have "length (controlHelloAck_nodeId m) \<le> kMaxIdentifierLength" using assms(1) by (simp add: isValidIdentifier_def split: if_splits)
  then have "\<exists>bs. encodeControlHelloAck m = Some (Inr bs) \<and> sendable kDefaultMaxPayloadBytes (ControlHelloAck, kFrameFlagResponse, bs)"
    using assms
    by (auto simp: encodeControlHelloAck_def encoded_def emit.simps w_string_def w_u32_def w_bytes_def w_u64_def w_opaque128_def
        w_sha256_def kMaxIdentifierLength_def kAbsoluteMaxFieldBytes_def sendable_def kDefaultMaxPayloadBytes_def
        kFrameFlagResponse_def kFrameFlagKnownMask_def string_bytes_def)
  with assms show ?thesis by (auto simp: decodeControlHelloAck_iff)
qed

definition goodbye_payload :: bytes where
  "goodbye_payload = (case encodeGoodbye \<lparr>goodbye_code = Ok, goodbye_reason = ''control session complete''\<rparr> of
     Some (Inr bs) \<Rightarrow> bs | _ \<Rightarrow> [])"

lemma goodbye_encoded:
  "encodeGoodbye \<lparr>goodbye_code = Ok, goodbye_reason = ''control session complete''\<rparr> = Some (Inr goodbye_payload)
   \<and> sendable kDefaultMaxPayloadBytes (Goodbye, 0, goodbye_payload)"
proof -
  have "\<exists>bs. encodeGoodbye \<lparr>goodbye_code = Ok, goodbye_reason = ''control session complete''\<rparr> = Some (Inr bs)
      \<and> length bs = 30"
    by (simp add: encodeGoodbye_def enc_try_def checkDetail_def checkBounded_def writeDetail_def encoded_def emit.simps w_string_def
        w_u32_def w_bytes_def w_u16_def kMaxMessageDetailBytes_def kAbsoluteMaxFieldBytes_def string_bytes_def)
  then show ?thesis by (auto simp: goodbye_payload_def sendable_def kDefaultMaxPayloadBytes_def)
qed

subsection \<open>The server\<close>

lemma wire_frame_simps [simp]:
  "fh_type (fr_header (wire_frame (t, flags, p))) = t" "fr_payload (wire_frame (t, flags, p)) = p"
  by (simp_all add: wire_frame_def sent_frame_def frame_header_for_def)

definition control_ack :: "Distributor \<Rightarrow> bytes \<Rightarrow> ControlHelloAckMessage" where
  "control_ack d nonce =
     \<lparr>controlHelloAck_nodeId = dso_nodeId (db_options d), controlHelloAck_epoch = cs_epoch (d_state d),
      controlHelloAck_incarnation = w_random (db_world d) (w_draws (db_world d)), controlHelloAck_nonce = nonce,
      controlHelloAck_authTag = replicate kAuthTagBytes 0\<rparr>"

text \<open>
  A controller whose identity can be sent, and a state that differs in the connection and in the one random value
  that the answer to the greeting takes.
\<close>

definition presentable :: "Distributor \<Rightarrow> bool" where
  "presentable d \<longleftrightarrow> isValidIdentifier (dso_nodeId (db_options d))
     \<and> length (w_random (db_world d) (w_draws (db_world d))) = 16"

definition greeted :: "Distributor \<Rightarrow> Distributor \<Rightarrow> bool" where
  "greeted d d' \<longleftrightarrow>
     d'\<lparr>db_in := db_in d, db_out := db_out d\<rparr> = d\<lparr>db_world := snd (draw_random (db_world d))\<rparr>"

text \<open>
  What a served request leaves: the state the command left, with the flag of a shutdown request, and another state of
  the connection.
\<close>

definition left_by :: "ControlRequest \<Rightarrow> Distributor \<Rightarrow> Distributor \<Rightarrow> bool" where
  "left_by request d2 d' \<longleftrightarrow>
     d'\<lparr>db_in := db_in d2, db_out := db_out d2\<rparr>
     = (if cr_command request = ''shutdown'' then d2\<lparr>db_shutdownFlag := True\<rparr> else d2)"

lemma server_hello:
  assumes "awaits (db_in d) (wire_frame (ControlHello, 0, hello_payload (dso_key (db_options d)) (dso_authenticate (db_options d)) nonce) # fs)"
    and "clear [] (db_out d)" and "presentable d" and "length nonce = 16"
  shows "\<exists>a d1. control_hello d = (Returned (), d1) \<and> awaits (db_in d1) fs
    \<and> clear [on_wire (ControlHelloAck, kFrameFlagResponse, a)] (db_out d1)
    \<and> sendable kDefaultMaxPayloadBytes (ControlHelloAck, kFrameFlagResponse, a)
    \<and> decodeControlHelloAck a = Inr (control_ack d nonce) \<and> greeted d d1"
proof -
  let ?o = "db_options d" and ?w = "db_world d"
  let ?h = "hello_payload (dso_key ?o) (dso_authenticate ?o) nonce"
  obtain i where rec: "FramedConnection_receive (db_in d) = (Inr (wire_frame (ControlHello, 0, ?h)), i)" and i: "awaits i fs"
    using assms(1) by auto
  obtain tag where dec: "decodeControlHello ?h = Inr \<lparr>controlHello_clientName = ''cfctl'', controlHello_nonce = nonce, controlHello_authTag = tag\<rparr>"
    using hello_decoded [OF assms(4)] by blast
  obtain a where a: "encodeControlHelloAck (control_ack d nonce) = Some (Inr a)" "decodeControlHelloAck a = Inr (control_ack d nonce)"
    "sendable kDefaultMaxPayloadBytes (ControlHelloAck, kFrameFlagResponse, a)"
    using ack_encoded [of "control_ack d nonce"] assms(3,4) by (auto simp: control_ack_def presentable_def kAuthTagBytes_def)
  obtain out where out: "FramedConnection_send ControlHelloAck kFrameFlagResponse a (db_out d) = (Inr (), out)"
    "clear [on_wire (ControlHelloAck, kFrameFlagResponse, a)] out"
    using sent_message [OF a(3) assms(2)] by auto
  let ?d = "d\<lparr>db_in := i, db_out := out, db_world := ?w\<lparr>w_draws := Suc (w_draws ?w)\<rparr>\<rparr>"
  have verified: "dso_authenticate ?o \<Longrightarrow> verifyAuthenticated ?h (dso_key ?o) = Inr ()"
    using hello_verified [OF assms(4)] by simp
  have "control_hello d = (Returned (), ?d)"
    using rec dec a(1) out(1) verified
    by (simp add: control_hello_def a_then_def d_receive_def a_result_def a_return_def a_get_def d_io_def draw_random_def
        d_send_encoded_def a_encoded_def d_send_def control_ack_def d_state_def)
  with i out a show ?thesis
    by (intro exI [of _ a] exI [of _ ?d]) (auto simp: greeted_def draw_random_def)
qed

text \<open>What the server answers to an executed command, when it answers.\<close>

definition answer_of :: "Distributor \<Rightarrow> string outcome \<Rightarrow> ControlResponseMessage option" where
  "answer_of d y =
     (case y of
        Returned body \<Rightarrow> Some \<lparr>controlResponse_code = Ok, controlResponse_body = body\<rparr>
      | Failed e \<Rightarrow> Some \<lparr>controlResponse_code = e, controlResponse_body = db_text d e\<rparr>
      | _ \<Rightarrow> None)"

lemma server_request:
  assumes "encodeControlRequest m = Some (Inr r)"
    and "executeControlCommand \<lparr>cr_command = controlRequest_command m, cr_arguments = controlRequest_arguments m\<rparr> d = (y, d2)"
    and "answer_of d2 y = Some answer" and "length (controlResponse_body answer) \<le> kMaxControlBodyBytes"
    and "clear ws (db_out d)"
  shows "\<exists>p go d3. control_request (wire_frame (FrameType.ControlRequest, 0, r)) d = (Returned go, d3)
    \<and> db_in d3 = db_in d \<and> clear (ws @ [on_wire (ControlResponse, kFrameFlagResponse, p)]) (db_out d3)
    \<and> sendable kDefaultMaxPayloadBytes (ControlResponse, kFrameFlagResponse, p) \<and> decodeControlResponse p = Inr answer
    \<and> left_by \<lparr>cr_command = controlRequest_command m, cr_arguments = controlRequest_arguments m\<rparr> d2 d3"
proof -
  let ?rq = "\<lparr>cr_command = controlRequest_command m, cr_arguments = controlRequest_arguments m\<rparr>"
  have dec: "decodeControlRequest r = Inr m" using assms(1) by (simp add: decodeControlRequest_iff)
  have io: "db_in d2 = db_in d" "db_out d2 = db_out d"
    using inp.atD [OF inp_execute assms(2)] outp.atD [OF outp.at_execute assms(2)] by simp_all
  obtain p where p: "encodeControlResponse answer = Some (Inr p)" "sendable kDefaultMaxPayloadBytes (ControlResponse, kFrameFlagResponse, p)"
    using response_encoded [OF assms(4)] by blast
  have pd: "decodeControlResponse p = Inr answer" using p(1) by (simp add: decodeControlResponse_iff)
  obtain out where out: "FramedConnection_send ControlResponse kFrameFlagResponse p (db_out d) = (Inr (), out)"
    "clear (ws @ [on_wire (ControlResponse, kFrameFlagResponse, p)]) out"
    using sent_message [OF p(2) assms(5)] by auto
  obtain body where att: "a_attempt (executeControlCommand ?rq) d = (Returned body, d2)"
    and resp: "control_response body d2 = (Returned (), d2\<lparr>db_out := out\<rparr>)"
    using assms(2,3) p(1) out(1) io
    by (cases y) (auto simp: a_attempt_def answer_of_def control_response_def a_get_def d_send_encoded_def a_encoded_def a_then_def
        a_result_def a_return_def d_send_def)
  have "control_request (wire_frame (FrameType.ControlRequest, 0, r)) d
      = (if controlRequest_command m = ''shutdown'' then (Returned False, d2\<lparr>db_out := out, db_shutdownFlag := True\<rparr>)
         else (Returned True, d2\<lparr>db_out := out\<rparr>))"
    using dec att resp
    by (simp add: control_request_def a_then_def a_result_def a_return_def requestShutdown_def a_modify_def)
  with io out p pd show ?thesis by (cases "controlRequest_command m = ''shutdown''") (auto simp: left_by_def)
qed

lemma server_goodbye:
  assumes "awaits (db_in d) [wire_frame (Goodbye, 0, g)]"
  shows "\<exists>i. serve_requests d = (Returned (), d\<lparr>db_in := i\<rparr>)"
  using assms
  by (subst serve_requests.simps) (auto simp: d_receive_def control_request_def a_return_def)

lemma server_serves:
  assumes "awaits (db_in d) [wire_frame (FrameType.ControlRequest, 0, r), wire_frame (Goodbye, 0, g)]"
    and "encodeControlRequest m = Some (Inr r)"
    and "executeControlCommand \<lparr>cr_command = controlRequest_command m, cr_arguments = controlRequest_arguments m\<rparr>
           (d\<lparr>db_in := snd (FramedConnection_receive (db_in d))\<rparr>) = (y, d2)"
    and "answer_of d2 y = Some answer" and "length (controlResponse_body answer) \<le> kMaxControlBodyBytes"
    and "clear ws (db_out d)"
  shows "\<exists>p d'. serve_requests d = (Returned (), d')
    \<and> clear (ws @ [on_wire (ControlResponse, kFrameFlagResponse, p)]) (db_out d')
    \<and> sendable kDefaultMaxPayloadBytes (ControlResponse, kFrameFlagResponse, p) \<and> decodeControlResponse p = Inr answer
    \<and> left_by \<lparr>cr_command = controlRequest_command m, cr_arguments = controlRequest_arguments m\<rparr> d2 d'"
proof -
  let ?rq = "\<lparr>cr_command = controlRequest_command m, cr_arguments = controlRequest_arguments m\<rparr>"
  obtain i where rec: "FramedConnection_receive (db_in d) = (Inr (wire_frame (FrameType.ControlRequest, 0, r)), i)"
    and i: "awaits i [wire_frame (Goodbye, 0, g)]"
    using assms(1) by auto
  let ?d = "d\<lparr>db_in := i\<rparr>"
  obtain p go d3 where req: "control_request (wire_frame (FrameType.ControlRequest, 0, r)) ?d = (Returned go, d3)"
    "db_in d3 = i" and p: "clear (ws @ [on_wire (ControlResponse, kFrameFlagResponse, p)]) (db_out d3)"
    "sendable kDefaultMaxPayloadBytes (ControlResponse, kFrameFlagResponse, p)" "decodeControlResponse p = Inr answer" "left_by ?rq d2 d3"
    using server_request [OF assms(2) _ assms(4,5), of ?d ws] assms(3,6) rec by auto
  obtain j where "serve_requests d = (Returned (), d3\<lparr>db_in := j\<rparr>)"
  proof -
    have "\<exists>j. serve_requests d = (Returned (), d3\<lparr>db_in := j\<rparr>)"
    proof (cases go)
      case True
      with rec req server_goodbye [of d3 g] i show ?thesis by (subst serve_requests.simps) (auto simp: d_receive_def)
    next
      case False
      with rec req have "serve_requests d = (Returned (), d3)" by (subst serve_requests.simps) (simp add: d_receive_def)
      then have "serve_requests d = (Returned (), d3\<lparr>db_in := db_in d3\<rparr>)" by simp
      then show ?thesis by blast
    qed
    then show ?thesis using that by blast
  qed
  moreover have "left_by ?rq d2 (d3\<lparr>db_in := j\<rparr>)" for j using p(4) by (simp add: left_by_def)
  ultimately show ?thesis using p(1-3) by (intro exI [of _ p] exI [of _ "d3\<lparr>db_in := j\<rparr>"]) simp
qed

subsection \<open>The client\<close>

abbreviation request_message :: "ControlRequest \<Rightarrow> ControlRequestMessage" where
  "request_message request \<equiv>
     \<lparr>controlRequest_command = cr_command request, controlRequest_arguments = cr_arguments request\<rparr>"

abbreviation server_messages :: "bytes \<Rightarrow> bytes \<Rightarrow> wire_message list" where
  "server_messages a p \<equiv> [(ControlHelloAck, kFrameFlagResponse, a), (ControlResponse, kFrameFlagResponse, p)]"

definition client_result :: "ControlHelloAckMessage \<Rightarrow> ControlResponseMessage \<Rightarrow> string outcome" where
  "client_result ack answer =
     (if controlResponse_code answer \<noteq> Ok then Failed (controlResponse_code answer)
      else Returned (controlResponse_body answer @ ''node: '' @ controlHelloAck_nodeId ack
             @ '' epoch='' @ to_string (unat (controlHelloAck_epoch ack)) @ ''\<newline>''))"

lemma client_hello_run:
  assumes "awaits (cc_in c) (wire_frame (ControlHelloAck, kFrameFlagResponse, a) # fs)" and "clear [] (cc_out c)"
    and "nonce = w_random (cc_world c) (w_draws (cc_world c))" and "length nonce = 16" and "decodeControlHelloAck a = Inr ack"
  shows "\<exists>c'. client_hello key authenticate c = (Returned ack, c') \<and> awaits (cc_in c') fs
    \<and> clear [on_wire (ControlHello, 0, hello_payload key authenticate nonce)] (cc_out c')"
proof -
  let ?h = "hello_payload key authenticate nonce" and ?w = "cc_world c"
  obtain i where i: "FramedConnection_receive (cc_in c) = (Inr (wire_frame (ControlHelloAck, kFrameFlagResponse, a)), i)" "awaits i fs"
    using assms(1) by auto
  obtain out where out: "FramedConnection_send ControlHello 0 ?h (cc_out c) = (Inr (), out)" "clear [on_wire (ControlHello, 0, ?h)] out"
    using sent_message [OF hello_sendable [OF assms(4)] assms(2)] by auto
  let ?c = "c\<lparr>cc_world := ?w\<lparr>w_draws := Suc (w_draws ?w)\<rparr>, cc_out := out, cc_in := i\<rparr>"
  have sealed: "(if authenticate then a_result (sealAuthenticated (hello_payload key False nonce) key)
      else a_return (hello_payload key False nonce)) x = (Returned ?h, x)" for x :: ControlClient
    using hello_sealed [OF assms(4)] by (simp add: a_result_def a_return_def)
  have "client_hello key authenticate c = (Returned ack, ?c)"
    using i(1) out(1) assms(5) hello_encoded [OF assms(4), of key] sealed
    by (simp add: client_hello_def a_then_def c_random_def draw_random_def assms(3) [symmetric] a_encoded_def c_send_def c_receive_def
        a_result_def [of "Inr _"] a_return_def split del: if_split)
  with i out show ?thesis by auto
qed

lemma client_request_run:
  assumes "awaits (cc_in c) [wire_frame (ControlResponse, kFrameFlagResponse, p)]" and "clear ws (cc_out c)"
    and "encodeControlRequest (request_message request) = Some (Inr r)"
    and "decodeControlResponse p = Inr answer"
  shows "\<exists>c'. client_request request c = (Returned answer, c') \<and> clear (ws @ [on_wire (FrameType.ControlRequest, 0, r)]) (cc_out c')"
proof -
  obtain i where i: "FramedConnection_receive (cc_in c) = (Inr (wire_frame (ControlResponse, kFrameFlagResponse, p)), i)"
    using assms(1) by auto
  obtain out where out: "FramedConnection_send FrameType.ControlRequest 0 r (cc_out c) = (Inr (), out)"
    "clear (ws @ [on_wire (FrameType.ControlRequest, 0, r)]) out"
    using sent_message [OF request_sendable [OF assms(3)] assms(2)] by auto
  have "client_request request c = (Returned answer, c\<lparr>cc_out := out, cc_in := i\<rparr>)"
    using i out(1) assms(3,4)
    by (simp add: client_request_def a_then_def a_encoded_def c_send_def c_receive_def a_result_def a_return_def)
  with out show ?thesis by auto
qed

definition client_messages :: "bytes \<Rightarrow> bool \<Rightarrow> bytes \<Rightarrow> bytes \<Rightarrow> wire_message list" where
  "client_messages key authenticate nonce r =
     [(ControlHello, 0, hello_payload key authenticate nonce), (FrameType.ControlRequest, 0, r), (Goodbye, 0, goodbye_payload)]"

lemma client_run:
  assumes "awaits (cc_in c) [wire_frame (ControlHelloAck, kFrameFlagResponse, a), wire_frame (ControlResponse, kFrameFlagResponse, p)]"
    and "clear [] (cc_out c)" and "nonce = w_random (cc_world c) (w_draws (cc_world c))" and "length nonce = 16"
    and "encodeControlRequest (request_message request) = Some (Inr r)"
    and "decodeControlHelloAck a = Inr ack" and "decodeControlResponse p = Inr answer"
  shows "\<exists>c'. runControlCommand key authenticate request c = (client_result ack answer, c')
    \<and> fo_written (cc_out c') = map on_wire (client_messages key authenticate nonce r)"
proof -
  let ?H = "on_wire (ControlHello, 0, hello_payload key authenticate nonce)" and ?R = "on_wire (FrameType.ControlRequest, 0, r)"
  obtain c1 where c1: "client_hello key authenticate c = (Returned ack, c1)" "clear [?H] (cc_out c1)"
    "awaits (cc_in c1) [wire_frame (ControlResponse, kFrameFlagResponse, p)]"
    using client_hello_run [OF assms(1-4,6)] by blast
  obtain c2 where c2: "client_request request c1 = (Returned answer, c2)" "clear [?H, ?R] (cc_out c2)"
    using client_request_run [OF c1(3,2) assms(5,7)] by auto
  obtain out where out: "FramedConnection_send Goodbye 0 goodbye_payload (cc_out c2) = (Inr (), out)"
    "clear [?H, ?R, on_wire (Goodbye, 0, goodbye_payload)] out"
    using sent_message [of Goodbye 0 goodbye_payload, OF conjunct2 [OF goodbye_encoded] c2(2)] by auto
  have "runControlCommand key authenticate request c = (client_result ack answer, c2\<lparr>cc_out := out\<rparr>)"
    using c1(1) c2(1) out(1) conjunct1 [OF goodbye_encoded]
    by (simp add: runControlCommand_def a_then_def a_ignore_def a_attempt_def a_encoded_def a_result_def a_return_def a_fail_def
        c_send_def client_result_def)
  with out(2) show ?thesis by (auto simp: clear_def client_messages_def)
qed

subsection \<open>Both\<close>

lemma default_awaits:
  assumes "list_all (sendable kDefaultMaxPayloadBytes) msgs" and "length msgs \<le> 3" and "concat cuts = concat (map on_wire msgs)"
  shows "awaits (FrameInput_open kDefaultMaxPayloadBytes (map Inr cuts)) (map wire_frame msgs)"
proof (rule awaits_sent [OF default_ceiling assms(1,3)])
  have one: "length (on_wire x) \<le> 1048600" if "sendable kDefaultMaxPayloadBytes x" for x
    using that default_ceiling
    by (cases x) (auto simp: wire_bytes_def valueOr_def sendable_def kDefaultMaxPayloadBytes_def encodeFrame_Inr_iff split: sum.splits)
  have "list_all (sendable kDefaultMaxPayloadBytes) ms \<Longrightarrow> length (concat (map on_wire ms)) \<le> length ms * 1048600" for ms
    by (induction ms) (use one in fastforce)+
  with assms(1,2) have "length (concat (map on_wire msgs)) \<le> 3 * 1048600" by (meson le_trans mult_le_mono1)
  then show "length (concat cuts) < 2 ^ 64" using assms(3) by simp
qed

lemma server_run:
  assumes "presentable d" and "length nonce = 16" and "concat cuts = concat (map on_wire
      (client_messages (dso_key (db_options d)) (dso_authenticate (db_options d)) nonce r))"
    and "encodeControlRequest (request_message request) = Some (Inr r)"
  shows "\<exists>d1 y d2. greeted d d1 \<and> executeControlCommand request d1 = (y, d2)
    \<and> (\<forall>answer. answer_of d2 y = Some answer \<and> length (controlResponse_body answer) \<le> kMaxControlBodyBytes \<longrightarrow>
         (\<exists>a p d'. serveControlConnection [] (map Inr cuts) d = (Returned (), d') \<and> left_by request d2 d'
            \<and> fo_written (db_out d') = map on_wire (server_messages a p)
            \<and> list_all (sendable kDefaultMaxPayloadBytes) (server_messages a p)
            \<and> decodeControlHelloAck a = Inr (control_ack d nonce) \<and> decodeControlResponse p = Inr answer))"
proof -
  let ?msgs = "client_messages (dso_key (db_options d)) (dso_authenticate (db_options d)) nonce r"
  let ?d = "d\<lparr>db_in := FrameInput_open kDefaultMaxPayloadBytes (map Inr cuts),
       db_out := \<lparr>fo_maxPayloadBytes = kDefaultMaxPayloadBytes, fo_bytesSent = 0, fo_answers = [], fo_written = []\<rparr>\<rparr>"
  have "awaits (db_in ?d) (map wire_frame ?msgs)"
    using default_awaits [OF _ _ assms(3)] hello_sendable [OF assms(2)] request_sendable [OF assms(4)] goodbye_encoded
    by (simp add: client_messages_def)
  then have aw: "awaits (db_in ?d) [wire_frame (ControlHello, 0, hello_payload (dso_key (db_options ?d)) (dso_authenticate (db_options ?d)) nonce),
      wire_frame (FrameType.ControlRequest, 0, r), wire_frame (Goodbye, 0, goodbye_payload)]"
    by (simp add: client_messages_def)
  have "clear [] (db_out ?d)" "presentable ?d" using assms(1) by (simp_all add: clear_def presentable_def)
  from server_hello [OF aw this assms(2)] obtain a d1 where h: "control_hello ?d = (Returned (), d1)"
    "awaits (db_in d1) [wire_frame (FrameType.ControlRequest, 0, r), wire_frame (Goodbye, 0, goodbye_payload)]"
    "clear [on_wire (ControlHelloAck, kFrameFlagResponse, a)] (db_out d1)"
    "sendable kDefaultMaxPayloadBytes (ControlHelloAck, kFrameFlagResponse, a)"
    "decodeControlHelloAck a = Inr (control_ack ?d nonce)" "greeted ?d d1"
    by blast
  have ack: "control_ack ?d nonce = control_ack d nonce" by (simp add: control_ack_def d_state_def)
  let ?d1 = "d1\<lparr>db_in := snd (FramedConnection_receive (db_in d1))\<rparr>"
  obtain y d2 where ex: "executeControlCommand request ?d1 = (y, d2)" by fastforce
  have serve: "serveControlConnection [] (map Inr cuts) d = serve_requests d1"
    using h(1) by (simp add: serveControlConnection_def accept_control_def a_then_def a_modify_def)
  have "d1\<lparr>db_in := db_in d, db_out := db_out d\<rparr> = d\<lparr>db_world := snd (draw_random (db_world d))\<rparr>"
    using arg_cong [OF h(6) [unfolded greeted_def], of "\<lambda>x. x\<lparr>db_in := db_in d, db_out := db_out d\<rparr>"] by simp
  then have "greeted d ?d1" by (simp add: greeted_def)
  moreover have "\<exists>a p d'. serveControlConnection [] (map Inr cuts) d = (Returned (), d') \<and> left_by request d2 d'
      \<and> fo_written (db_out d') = map on_wire (server_messages a p)
      \<and> list_all (sendable kDefaultMaxPayloadBytes) (server_messages a p)
      \<and> decodeControlHelloAck a = Inr (control_ack d nonce) \<and> decodeControlResponse p = Inr answer"
    if "answer_of d2 y = Some answer" and "length (controlResponse_body answer) \<le> kMaxControlBodyBytes" for answer
  proof -
    from ex have "executeControlCommand \<lparr>cr_command = controlRequest_command (request_message request),
        cr_arguments = controlRequest_arguments (request_message request)\<rparr> ?d1 = (y, d2)" by (cases request) simp
    from server_serves [OF h(2) assms(4) this that h(3)] obtain p d' where "serve_requests d1 = (Returned (), d')"
      and d': "clear ([on_wire (ControlHelloAck, kFrameFlagResponse, a)] @ [on_wire (ControlResponse, kFrameFlagResponse, p)]) (db_out d')"
        "sendable kDefaultMaxPayloadBytes (ControlResponse, kFrameFlagResponse, p)" "decodeControlResponse p = Inr answer"
      and left: "left_by \<lparr>cr_command = cr_command request, cr_arguments = cr_arguments request\<rparr> d2 d'"
      by auto
    moreover have "left_by request d2 d'" using left by (cases request) simp
    ultimately show ?thesis
      using h(4,5) serve ack by (intro exI [of _ a] exI [of _ p] exI [of _ d']) (auto simp: clear_def)
  qed
  ultimately show ?thesis using ex by blast
qed

lemma client_answered:
  assumes "length (w_random (cc_world c) (w_draws (cc_world c))) = 16" and "clear [] (cc_out c)"
    and "encodeControlRequest (request_message request) = Some (Inr r)"
    and "list_all (sendable kDefaultMaxPayloadBytes) (server_messages a p)"
    and "decodeControlHelloAck a = Inr ack" and "decodeControlResponse p = Inr answer"
    and "concat pieces = concat (map on_wire (server_messages a p))"
  shows "\<exists>c'. runControlCommand key authenticate request (c\<lparr>cc_in := FrameInput_open kDefaultMaxPayloadBytes (map Inr pieces)\<rparr>)
      = (client_result ack answer, c')
    \<and> concat (fo_written (cc_out c')) =
        concat (map on_wire (client_messages key authenticate (w_random (cc_world c) (w_draws (cc_world c))) r))"
proof -
  have "awaits (FrameInput_open kDefaultMaxPayloadBytes (map Inr pieces))
      (map wire_frame (server_messages a p))"
    by (rule default_awaits [OF assms(4) _ assms(7)]) simp
  then show ?thesis
    using client_run [of "c\<lparr>cc_in := FrameInput_open kDefaultMaxPayloadBytes (map Inr pieces)\<rparr>" a p _ request r ack answer
        key authenticate, OF _ _ refl] assms(1-3,5,6)
    by auto
qed

text \<open>
  C5: the two ends of the control channel understand each other. The controller's node identity is a valid identifier,
  its random source and the client's give 16 bytes, and the client's connection is open with nothing in flight. Then
  for every request that can be encoded there are the bytes that the client sends, such that a controller with the
  same key and authentication setting that receives them, cut into reads in any way, takes one random value for its
  answer to the greeting and then executes exactly that request. When the command returns a result or an error, and
  the body of the answer has at most 512 KiB, the connection ends normally and leaves the state the command left, but
  for the state of the connection itself and with the shutdown flag set for a shutdown request and for no other. A
  client that receives what the controller wrote, again cut in any way, sends those bytes and returns the body of the
  command with the controller's identity and epoch, or the error the command failed with.
\<close>

theorem control_conversation:
  assumes "presentable d" and "length (w_random (cc_world c) (w_draws (cc_world c))) = 16" and "clear [] (cc_out c)"
    and "encodeControlRequest (request_message request) = Some (Inr r)"
  shows "\<exists>sent. \<forall>cuts. concat cuts = sent \<longrightarrow>
    (\<exists>d1 y d2. greeted d d1 \<and> executeControlCommand request d1 = (y, d2)
     \<and> (\<forall>answer. answer_of d2 y = Some answer \<and> length (controlResponse_body answer) \<le> kMaxControlBodyBytes \<longrightarrow>
        (\<exists>d' ack. serveControlConnection [] (map Inr cuts) d = (Returned (), d') \<and> left_by request d2 d'
          \<and> controlHelloAck_nodeId ack = dso_nodeId (db_options d) \<and> controlHelloAck_epoch ack = cs_epoch (d_state d)
          \<and> (\<forall>pieces. concat pieces = concat (fo_written (db_out d')) \<longrightarrow>
            (\<exists>c'. runControlCommand (dso_key (db_options d)) (dso_authenticate (db_options d)) request
                (c\<lparr>cc_in := FrameInput_open kDefaultMaxPayloadBytes (map Inr pieces)\<rparr>) = (client_result ack answer, c')
              \<and> concat (fo_written (cc_out c')) = sent)))))"
proof -
  let ?key = "dso_key (db_options d)" and ?au = "dso_authenticate (db_options d)"
  let ?n = "w_random (cc_world c) (w_draws (cc_world c))"
  let ?sent = "concat (map on_wire (client_messages ?key ?au ?n r))"
  have "\<exists>d1 y d2. greeted d d1 \<and> executeControlCommand request d1 = (y, d2)
     \<and> (\<forall>answer. answer_of d2 y = Some answer \<and> length (controlResponse_body answer) \<le> kMaxControlBodyBytes \<longrightarrow>
        (\<exists>d' ack. serveControlConnection [] (map Inr cuts) d = (Returned (), d') \<and> left_by request d2 d'
          \<and> controlHelloAck_nodeId ack = dso_nodeId (db_options d) \<and> controlHelloAck_epoch ack = cs_epoch (d_state d)
          \<and> (\<forall>pieces. concat pieces = concat (fo_written (db_out d')) \<longrightarrow>
            (\<exists>c'. runControlCommand ?key ?au request
                (c\<lparr>cc_in := FrameInput_open kDefaultMaxPayloadBytes (map Inr pieces)\<rparr>) = (client_result ack answer, c')
              \<and> concat (fo_written (cc_out c')) = ?sent))))"
    if cuts: "concat cuts = ?sent" for cuts
  proof -
    obtain d1 y d2 where ex: "greeted d d1" "executeControlCommand request d1 = (y, d2)"
      and run: "\<And>answer. answer_of d2 y = Some answer \<Longrightarrow> length (controlResponse_body answer) \<le> kMaxControlBodyBytes \<Longrightarrow>
         \<exists>a p d'. serveControlConnection [] (map Inr cuts) d = (Returned (), d') \<and> left_by request d2 d'
            \<and> fo_written (db_out d') = map on_wire (server_messages a p)
            \<and> list_all (sendable kDefaultMaxPayloadBytes) (server_messages a p)
            \<and> decodeControlHelloAck a = Inr (control_ack d ?n) \<and> decodeControlResponse p = Inr answer"
      using server_run [OF assms(1,2) cuts assms(4)] by blast
    have ack: "controlHelloAck_nodeId (control_ack d ?n) = dso_nodeId (db_options d)"
      "controlHelloAck_epoch (control_ack d ?n) = cs_epoch (d_state d)"
      by (simp_all add: control_ack_def)
    have "\<exists>d' ack. serveControlConnection [] (map Inr cuts) d = (Returned (), d') \<and> left_by request d2 d'
          \<and> controlHelloAck_nodeId ack = dso_nodeId (db_options d) \<and> controlHelloAck_epoch ack = cs_epoch (d_state d)
          \<and> (\<forall>pieces. concat pieces = concat (fo_written (db_out d')) \<longrightarrow>
            (\<exists>c'. runControlCommand ?key ?au request
                (c\<lparr>cc_in := FrameInput_open kDefaultMaxPayloadBytes (map Inr pieces)\<rparr>) = (client_result ack answer, c')
              \<and> concat (fo_written (cc_out c')) = ?sent))"
      if "answer_of d2 y = Some answer" and "length (controlResponse_body answer) \<le> kMaxControlBodyBytes" for answer
      using run [OF that] ack client_answered [OF assms(2-4)] by metis
    with ex show ?thesis by blast
  qed
  then show ?thesis by blast
qed

definition example_client :: ControlClient where
  "example_client =
     \<lparr>cc_in = FrameInput_open 0 [],
      cc_out = \<lparr>fo_maxPayloadBytes = kDefaultMaxPayloadBytes, fo_bytesSent = 0, fo_answers = [], fo_written = []\<rparr>,
      cc_world = empty_world\<lparr>w_random := \<lambda>_. replicate 16 7\<rparr>\<rparr>"

definition serving_distributor :: Distributor where
  "serving_distributor = example_distributor\<lparr>db_world := (db_world example_distributor)\<lparr>w_random := \<lambda>_. replicate 16 9\<rparr>\<rparr>"

theorem control_conversation_witness:
  "\<exists>cuts pieces d' c'. serveControlConnection [] (map Inr cuts) serving_distributor = (Returned (), d')
     \<and> runControlCommand [1] True \<lparr>cr_command = ''shutdown'', cr_arguments = []\<rparr>
         (example_client\<lparr>cc_in := FrameInput_open kDefaultMaxPayloadBytes (map Inr pieces)\<rparr>)
       = (Returned (''shutdown requested\<newline>node: n epoch='' @ to_string (unat (cs_epoch example_controller)) @ ''\<newline>''), c')
     \<and> concat pieces = concat (fo_written (db_out d')) \<and> concat cuts = concat (fo_written (cc_out c'))
     \<and> db_shutdownFlag d' \<and> db_store d' = db_store serving_distributor"
proof -
  let ?r = "\<lparr>cr_command = ''shutdown'', cr_arguments = []\<rparr>" and ?d = serving_distributor and ?c = example_client
  have o: "dso_key (db_options ?d) = [1]" "dso_authenticate (db_options ?d)" "dso_nodeId (db_options ?d) = ''n''"
    "d_state ?d = example_controller"
    by (simp_all add: serving_distributor_def example_distributor_def d_state_def)
  have p: "presentable ?d"
    by (simp add: presentable_def serving_distributor_def example_distributor_def isValidIdentifier_def kMaxIdentifierLength_def
        identifier_char_def)
  have c: "length (w_random (cc_world ?c) (w_draws (cc_world ?c))) = 16" "clear [] (cc_out ?c)"
    by (simp_all add: example_client_def clear_def)
  obtain r where r: "encodeControlRequest (request_message ?r) = Some (Inr r)"
    by (simp add: encodeControlRequest_def enc_fail_if_def kMaxControlCommandBytes_def kMaxControlArguments_def encoded_def emit.simps
        w_string_def w_u32_def w_bytes_def kAbsoluteMaxFieldBytes_def string_bytes_def)
  obtain sent where s: "\<And>cuts. concat cuts = sent \<Longrightarrow>
    (\<exists>d1 y d2. greeted ?d d1 \<and> executeControlCommand ?r d1 = (y, d2)
     \<and> (\<forall>answer. answer_of d2 y = Some answer \<and> length (controlResponse_body answer) \<le> kMaxControlBodyBytes \<longrightarrow>
        (\<exists>d' ack. serveControlConnection [] (map Inr cuts) ?d = (Returned (), d') \<and> left_by ?r d2 d'
          \<and> controlHelloAck_nodeId ack = ''n'' \<and> controlHelloAck_epoch ack = cs_epoch example_controller
          \<and> (\<forall>pieces. concat pieces = concat (fo_written (db_out d')) \<longrightarrow>
            (\<exists>c'. runControlCommand [1] True ?r (?c\<lparr>cc_in := FrameInput_open kDefaultMaxPayloadBytes (map Inr pieces)\<rparr>)
                = (client_result ack answer, c') \<and> concat (fo_written (cc_out c')) = sent)))))"
    using control_conversation [OF p c r] o by auto
  have y: "executeControlCommand ?r d1 = (Returned ''shutdown requested\<newline>'', d1)" for d1
    by (simp add: executeControlCommand_def a_return_def)
  obtain d1 d' ack where d': "serveControlConnection [] (map Inr [sent]) ?d = (Returned (), d')"
    "controlHelloAck_nodeId ack = ''n''" "controlHelloAck_epoch ack = cs_epoch example_controller"
    and st: "greeted ?d d1" "left_by ?r d1 d'"
    and c': "\<And>pieces. concat pieces = concat (fo_written (db_out d')) \<Longrightarrow>
      \<exists>c'. runControlCommand [1] True ?r (?c\<lparr>cc_in := FrameInput_open kDefaultMaxPayloadBytes (map Inr pieces)\<rparr>)
         = (client_result ack \<lparr>controlResponse_code = Ok, controlResponse_body = ''shutdown requested\<newline>''\<rparr>, c')
        \<and> concat (fo_written (cc_out c')) = sent"
    using s [of "[sent]"] by (auto simp: y answer_of_def kMaxControlBodyBytes_def)
  have res: "client_result ack \<lparr>controlResponse_code = Ok, controlResponse_body = ''shutdown requested\<newline>''\<rparr>
      = Returned (''shutdown requested\<newline>node: n epoch='' @ to_string (unat (cs_epoch example_controller)) @ ''\<newline>'')"
    using d' by (simp add: client_result_def)
  have left: "db_shutdownFlag d'" "db_store d' = db_store ?d"
    using arg_cong [OF st(1) [unfolded greeted_def], of db_store] arg_cong [OF st(2) [unfolded left_by_def], of db_shutdownFlag]
      arg_cong [OF st(2) [unfolded left_by_def], of db_store] by simp_all
  obtain pieces where pieces: "concat pieces = concat (fo_written (db_out d'))" by blast
  from c' [OF pieces] res obtain c'' where
    "runControlCommand [1] True ?r (?c\<lparr>cc_in := FrameInput_open kDefaultMaxPayloadBytes (map Inr pieces)\<rparr>)
       = (Returned (''shutdown requested\<newline>node: n epoch='' @ to_string (unat (cs_epoch example_controller)) @ ''\<newline>''), c'')"
    "concat [sent] = concat (fo_written (cc_out c''))" by auto
  with d'(1) pieces left show ?thesis by blast
qed

end
