(* ===== verification/Spec2Isabelle.thy ===== *)
theory Spec2Isabelle
  imports Policy Reconciliation Store AgentRestart Convergence Plan ArtifactProperties DistributorStart Conversation
begin

text \<open>
  Configuration Fabric: a distributor pushes configuration artifacts to target agents, which verify,
  stage, activate and acknowledge them. This library models the C++ sources under \<^verbatim>\<open>src/\<close> and
  proves the properties that make the parts correct.

  \<^bold>\<open>The program.\<close> The distributor and the agents talk over a framed byte stream
  (\<^verbatim>\<open>frame.cpp\<close>) whose payloads are the messages of \<^verbatim>\<open>protocol.cpp\<close>, written with the codec of
  \<^verbatim>\<open>codec.cpp\<close> and authenticated with the HMAC of \<^verbatim>\<open>hash.cpp\<close>. Deliveries move through the life
  cycle of \<^verbatim>\<open>lifecycle.cpp\<close>; what the distributor does next is the decision function of
  \<^verbatim>\<open>policy.cpp\<close>; what a restarted side may believe of the other is decided in
  \<^verbatim>\<open>reconciliation.cpp\<close>. Both sides keep their state in a durable store: a journal of changes and
  a two-slot snapshot (\<^verbatim>\<open>journal.cpp, state.cpp, store.hpp\<close>). The distributor (\<^verbatim>\<open>distributor.cpp\<close>) takes
  rollout plans (\<^verbatim>\<open>plan.cpp\<close>), keeps the artifacts (\<^verbatim>\<open>artifact.cpp\<close>), runs sessions with the targets from a pool of
  workers, reports convergence (\<^verbatim>\<open>convergence.cpp\<close>) and answers operators over the control channel (\<^verbatim>\<open>control.cpp\<close>).

  \<^bold>\<open>Theories, bottom up.\<close>
  \<^item> \<^verbatim>\<open>Prelude\<close>: types of the model (\<open>bytes\<close>, machine words), results, little-endian lemmas and the
    collections of simplification rules.
  \<^item> \<^verbatim>\<open>Result\<close> (\<^verbatim>\<open>result.hpp/.cpp\<close>): error codes, retry directives, their names and classes.
  \<^item> \<^verbatim>\<open>Checked\<close> (\<^verbatim>\<open>checked.hpp\<close>): checked and saturating arithmetic on words.
  \<^item> \<^verbatim>\<open>Hash\<close> (\<^verbatim>\<open>hash.hpp/.cpp\<close>): SHA-256 with its incremental buffer, HMAC, constant-time
    comparison, CRC32C with its table, hexadecimal.
  \<^item> \<^verbatim>\<open>Ids\<close> (\<^verbatim>\<open>ids.hpp/.cpp, strong.hpp, digest.hpp\<close>): identifiers, digests, derived identities.
  \<^item> \<^verbatim>\<open>Lifecycle\<close> (\<^verbatim>\<open>lifecycle.hpp/.cpp\<close>): the delivery state machine.
  \<^item> \<^verbatim>\<open>Policy\<close> (\<^verbatim>\<open>policy.hpp/.cpp\<close>): validation, backoff and the decision function.
  \<^item> \<^verbatim>\<open>Codec\<close> (\<^verbatim>\<open>codec.hpp/.cpp\<close>): \<^verbatim>\<open>ByteWriter\<close> and \<^verbatim>\<open>ByteReader\<close>. The locale \<open>field_codec\<close>
    states what a field reader owes its writer; it is interpreted for every field.
  \<^item> \<^verbatim>\<open>Frame\<close> (\<^verbatim>\<open>frame.hpp/.cpp\<close>): the frame header, \<^verbatim>\<open>encodeFrame\<close> and the incremental decoder.
  \<^item> \<^verbatim>\<open>MessageFields\<close>, \<^verbatim>\<open>Protocol\<close> (\<^verbatim>\<open>protocol.hpp/.cpp\<close>): all messages with encoders, decoders,
    sealing and verification.
  \<^item> \<^verbatim>\<open>Reconciliation\<close> (\<^verbatim>\<open>reconciliation.hpp/.cpp\<close>): the decision on a target's report.
  \<^item> \<^verbatim>\<open>Storage\<close> (file helpers of \<^verbatim>\<open>codec.cpp\<close>): files, the calls that change them, their failures and
    crashes; atomic replacement.
  \<^item> \<^verbatim>\<open>Journal\<close> (\<^verbatim>\<open>journal.hpp/.cpp\<close>): the journal file, its scan and recovery, snapshots.
  \<^item> \<^verbatim>\<open>OrderedMap\<close>: \<^verbatim>\<open>std::map\<close> as a sorted association list.
  \<^item> \<^verbatim>\<open>StateRecords\<close>, \<^verbatim>\<open>StateAgent\<close>, \<^verbatim>\<open>StateController\<close> (\<^verbatim>\<open>state.hpp/.cpp\<close>, metadata of \<^verbatim>\<open>artifact.cpp\<close>,
    endpoints of \<^verbatim>\<open>transport.cpp\<close>): the stored records, the two states with their invariants, the
    journal records that change them and their snapshots.
  \<^item> \<^verbatim>\<open>Store\<close> (\<^verbatim>\<open>store.hpp\<close>, offline loaders of \<^verbatim>\<open>state.cpp\<close>): the durable store. The locale
    \<open>state_codec\<close> is its interface to a state; it is interpreted for both codecs.
  \<^item> \<^verbatim>\<open>Connection\<close> (\<^verbatim>\<open>FramedConnection\<close> of \<^verbatim>\<open>transport.cpp\<close>): frames received from and sent to a byte
    stream.
  \<^item> \<^verbatim>\<open>AgentCore\<close>, \<^verbatim>\<open>AgentSession\<close>, \<^verbatim>\<open>AgentRecovery\<close> (\<^verbatim>\<open>agent.hpp/.cpp\<close>): the target agent. Its state is
    the record \<open>TargetAgent\<close>; a method is a function from it to an outcome (returned, failed with an
    error, exited, stopped) and the changed record. \<open>AgentCore\<close> has the fault plans, the pointer
    file and the activation, \<open>AgentSession\<close> the handshake, the message handlers and the serving
    loop, \<open>AgentRecovery\<close> the start of the process and the recovery of the live area.
  \<^item> \<^verbatim>\<open>AgentInvariants\<close>: the locale \<open>state_preorder\<close>, a relation on agent states that every
    sequence of calls keeps if each call does; interpreted for the calls that change nothing, for the
    fences and for the transfers.
  \<^item> \<^verbatim>\<open>AgentProperties\<close>, \<^verbatim>\<open>AgentActivation\<close>, \<^verbatim>\<open>AgentRestart\<close>: what a frame, a session, an activation
    and a restart of the agent do; \<open>AgentRestart\<close> follows the recovery from the staging area over every directory of the
    live tree to the prepare window.
  \<^item> \<^verbatim>\<open>Actions\<close>: sequencing of operations that return, fail, exit or stop; the locale \<open>action_relation\<close>, a reflexive
    and transitive relation that every composed operation respects if its parts do.
  \<^item> \<^verbatim>\<open>Files\<close>: further calls of \<^verbatim>\<open>std::filesystem\<close> and streams, on the disk of \<^verbatim>\<open>Storage\<close>.
  \<^item> \<^verbatim>\<open>ArtifactStore\<close>, \<^verbatim>\<open>ArtifactProperties\<close> (\<^verbatim>\<open>artifact.hpp/.cpp\<close>): opening, publishing, ingestion, verification,
    quarantine, collection and the reader; the account and the budgets, what survives a restart, what verification decides.
  \<^item> \<^verbatim>\<open>Plan\<close> (\<^verbatim>\<open>plan.hpp/.cpp\<close>): the plan parser line by line, loading and rendering, and their round trip.
  \<^item> \<^verbatim>\<open>Convergence\<close> (\<^verbatim>\<open>convergence.hpp/.cpp\<close>): decision inputs, the report with its counts, rendering and fingerprint,
    the explanation of a target.
  \<^item> \<^verbatim>\<open>DistributorCore\<close>, \<^verbatim>\<open>DistributorSession\<close>, \<^verbatim>\<open>Distributor\<close> (\<^verbatim>\<open>distributor.hpp/.cpp\<close>): the record \<open>Distributor\<close> holds the
    members of the class and, as fields, the connection of the thread that runs, the file system, the clock and the
    stop flag. \<open>DistributorCore\<close> has opening and the records of targets and deliveries, \<open>DistributorSession\<close> a session from the
    handshake over reconciliation, offer, transfer, staging and activation to the goodbye, \<open>Distributor\<close> scheduling with
    claims, the turn of a worker, plans, retirement, queries, start and stop.
  \<^item> \<^verbatim>\<open>Control\<close> (\<^verbatim>\<open>control.hpp/.cpp\<close>): the command line, every command, the server side and the client side.
  \<^item> \<^verbatim>\<open>DistributorInvariants\<close>, \<^verbatim>\<open>DistributorDrive\<close>: how the records of the controller may evolve over an operation, for
    the recording operations, the loops of a session, and a whole session.
  \<^item> \<^verbatim>\<open>CommandRelation\<close>: the locale \<open>command_relation\<close>, what the steps of a command must respect so that every command
    does; interpreted for the outgoing connection here and for claims and well-formedness in \<^verbatim>\<open>DistributorProperties\<close>.
  \<^item> \<^verbatim>\<open>DistributorProperties\<close>: what a session may change; the workers as a step relation in which the locked blocks, the
    sessions and the commands of different threads interleave; the race of a worker with a retirement; resolution.
  \<^item> \<^verbatim>\<open>DistributorStart\<close>: what a new process makes of the files of the last.
  \<^item> \<^verbatim>\<open>ControlProperties\<close>, \<^verbatim>\<open>Conversation\<close>: the command line, access, commands that only look; client and server
    together over cut byte streams.

  \<^bold>\<open>How code is modelled.\<close> A \<^verbatim>\<open>Status\<close> or \<^verbatim>\<open>Result\<close> is a sum with the error code on the left; the free text of an
  error is kept only where it is stored or sent. A failed \<^verbatim>\<open>CF_CONTRACT\<close> and undefined behaviour are \<open>None\<close> or
  \<open>Stopped\<close>; an injected crash is \<open>Exited\<close>. Machine integers are words; \<^verbatim>\<open>std::size_t\<close> is a natural number where it counts
  elements in memory, 64-bit times are integers in their range. What the operating system answers (calls, reads, writes,
  directory listings, clock, random bytes, dialling, accepting) is data of the model and every property holds for all
  of it unless its statement restricts it; \<open>quiet\<close> is a file system whose calls succeed.

  \<^bold>\<open>Bounds and termination.\<close> No fuel is used: every loop is a total function. The loops that read a connection end because
  every received frame makes the unread input smaller (\<open>input_size\<close>; also the transfer, which receives an answer for each
  chunk), the drive loop because the source bounds its steps. Limits of the source (payloads, lines, counts, attempts)
  are the source's constants.

  \<^bold>\<open>Not modelled.\<close> Sockets, listeners, polling and deadlines of \<^verbatim>\<open>transport.cpp\<close>, logging, process control, the random
  source and the version text (operating-system interfaces); the command-line programs under \<^verbatim>\<open>apps/\<close> (argument parsing and
  wiring); benchmarks and tests. Threads are modelled by interleaving whole locked blocks, sessions and commands; the
  interleaving of two sessions' inner steps is not.
\<close>

subsection \<open>Both durable states\<close>

text \<open>
  C31: Whatever bytes a journal record holds, applying it keeps the state of the agent and of the controller
  well formed, also when the record is refused after some of its fields were taken over.
\<close>

theorem replayed_states_well_formed:
  assumes "agent_ok a" and "controller_ok c"
  shows "agent_ok (fst (agent_apply a t payload)) \<and> controller_ok (fst (controller_apply c t payload))"
  using agent_apply_ok [OF assms(1)] controller_apply_ok [OF assms(2)] by blast

theorem replayed_states_well_formed_witness:
  "controller_ok (fst (controller_apply emptyControllerState ControllerIdentity [1, 0, 0, 0, 110, 7]))
   \<and> agent_ok (fst (agent_apply emptyAgentState AgentApplyResolved [5]))"
  using replayed_states_well_formed [OF emptyAgentState_ok emptyControllerState_ok] by blast

end
